(* ===== verification/Prelude.thy ===== *)
theory Prelude
  imports Complex_Main "HOL-Library.AList"
begin

text \<open>
  What the components share: Python's insertion-ordered \<open>dict\<close> as an association list, slices,
  the ASCII string operations the sources call (\<open>strip\<close>, \<open>split\<close>, \<open>int\<close>, decimal
  formatting), and the two lemma collections of the development.

  Conventions. Strings are lists of ASCII characters (a code point of the source that is not ASCII
  has no counterpart here). Floating point numbers are modelled by exact rationals: rounding is
  not modelled. A Python \<open>set\<close> that is iterated is a list without duplicates.
\<close>

named_theorems preserved \<open>an operation of a component keeps the component's invariant\<close>
named_theorems observers \<open>what an operation does to each field a later operation reads\<close>

section \<open>Python dictionaries\<close>

text \<open>
  \<open>d[k] = v\<close> overwrites in place or appends, \<open>d.pop(k, None)\<close> deletes, \<open>d.get(k)\<close> looks
  up; iteration follows insertion order. This is \<^const>\<open>AList.update\<close>,
  \<^const>\<open>AList.delete\<close> and \<^const>\<open>map_of\<close> on association lists with distinct keys.
\<close>

type_synonym ('k, 'v) dict = "('k \<times> 'v) list"

abbreviation dget :: "('k, 'v) dict \<Rightarrow> 'k \<Rightarrow> 'v option" where
  "dget d k \<equiv> map_of d k"

abbreviation dset :: "'k \<Rightarrow> 'v \<Rightarrow> ('k, 'v) dict \<Rightarrow> ('k, 'v) dict" where
  "dset k v d \<equiv> AList.update k v d"

abbreviation ddel :: "'k \<Rightarrow> ('k, 'v) dict \<Rightarrow> ('k, 'v) dict" where
  "ddel k d \<equiv> AList.delete k d"

abbreviation dkeys :: "('k, 'v) dict \<Rightarrow> 'k list" where
  "dkeys d \<equiv> map fst d"

abbreviation dvals :: "('k, 'v) dict \<Rightarrow> 'v list" where
  "dvals d \<equiv> map snd d"

definition wf_dict :: "('k, 'v) dict \<Rightarrow> bool" where
  "wf_dict d \<longleftrightarrow> distinct (dkeys d)"

text \<open>\<open>for k in d: d[k] = f(k, d[k])\<close>, the update of every value in place.\<close>

definition dmap :: "('k \<Rightarrow> 'v \<Rightarrow> 'w) \<Rightarrow> ('k, 'v) dict \<Rightarrow> ('k, 'w) dict" where
  "dmap f d = map (\<lambda>(k, v). (k, f k v)) d"

lemma dget_dset [simp]: "dget (dset k v d) k' = (if k' = k then Some v else dget d k')"
  by (simp add: update_conv')

lemma dget_ddel [simp]: "dget (ddel k d) k' = (if k' = k then None else dget d k')"
  by (simp add: delete_conv')

lemma fst_set_dset [simp]: "fst ` set (dset k v d) = insert k (fst ` set d)"
  by (simp add: dom_update)

lemma fst_set_ddel [simp]: "fst ` set (ddel k d) = fst ` set d - {k}"
  by (metis delete_keys list.set_map set_removeAll)

lemma dkeys_dset: "dkeys (dset k v d) = (if k \<in> set (dkeys d) then dkeys d else dkeys d @ [k])"
  by (simp add: update_keys)

lemma dkeys_ddel: "dkeys (ddel k d) = removeAll k (dkeys d)"
  by (simp add: delete_keys)

lemma dget_dmap [simp]: "dget (dmap f d) k = map_option (f k) (dget d k)"
  by (induction d) (auto simp: dmap_def)

lemma dkeys_dmap [simp]: "dkeys (dmap f d) = dkeys d"
  by (induction d) (auto simp: dmap_def)

lemma wf_dict_empty [simp, preserved]: "wf_dict []"
  by (simp add: wf_dict_def)

lemma wf_dict_dset [simp, preserved]: "wf_dict d \<Longrightarrow> wf_dict (dset k v d)"
  unfolding wf_dict_def by (rule distinct_update)

lemma wf_dict_ddel [simp, preserved]: "wf_dict d \<Longrightarrow> wf_dict (ddel k d)"
  unfolding wf_dict_def by (rule distinct_delete)

lemma wf_dict_dmap [simp, preserved]: "wf_dict (dmap f d) = wf_dict d"
  by (simp add: wf_dict_def)

lemma wf_dict_filter [simp, preserved]: "wf_dict d \<Longrightarrow> wf_dict (filter P d)"
  by (simp add: wf_dict_def distinct_map_filter)

lemma dget_filter:
  "wf_dict d \<Longrightarrow> dget (filter P d) k =
     (case dget d k of None \<Rightarrow> None | Some v \<Rightarrow> if P (k, v) then Some v else None)"
proof (induction d)
  case Nil
  then show ?case by simp
next
  case (Cons a d)
  then have "dget d (fst a) = None"
    by (simp add: wf_dict_def map_of_eq_None_iff)
  with Cons show ?case
    by (cases a) (auto simp: wf_dict_def split: option.splits)
qed

lemma dget_mem: "wf_dict d \<Longrightarrow> dget d k = Some v \<longleftrightarrow> (k, v) \<in> set d"
  by (simp add: wf_dict_def)

lemma dget_None_iff: "dget d k = None \<longleftrightarrow> k \<notin> set (dkeys d)"
  by (simp add: map_of_eq_None_iff)

lemma dget_key: "dget d k = Some v \<Longrightarrow> k \<in> fst ` set d"
  by (metis dget_None_iff list.set_map option.distinct(1))

lemma dvals_dget: "wf_dict d \<Longrightarrow> v \<in> set (dvals d) \<longleftrightarrow> (\<exists>k. dget d k = Some v)"
proof -
  assume wf: "wf_dict d"
  have "v \<in> set (dvals d) \<longleftrightarrow> (\<exists>k. (k, v) \<in> set d)" by force
  then show ?thesis by (simp add: dget_mem [OF wf])
qed

lemma set_dset: "wf_dict d \<Longrightarrow> set (dset k v d) = insert (k, v) {p \<in> set d. fst p \<noteq> k}"
proof -
  assume wf: "wf_dict d"
  have "(a, b) \<in> set (dset k v d) \<longleftrightarrow> (if a = k then b = v else (a, b) \<in> set d)" for a b
    using dget_mem [OF wf, of a b] dget_mem [OF wf_dict_dset [OF wf], of k v a b] by auto
  then show ?thesis by (auto split: if_splits)
qed

lemma dset_fresh: "k \<notin> set (dkeys d) \<Longrightarrow> dset k v d = d @ [(k, v)]"
  by (induction d) auto

lemma length_dset: "length (dset k v d) = (if k \<in> set (dkeys d) then length d else Suc (length d))"
  by (induction d) auto

section \<open>Slices\<close>

text \<open>\<open>xs[i:]\<close> and \<open>xs[:i]\<close> with Python's rule for negative bounds (counted from the end).\<close>

definition slice_from :: "int \<Rightarrow> 'a list \<Rightarrow> 'a list" where
  "slice_from i xs = drop (nat (if i < 0 then int (length xs) + i else i)) xs"

definition slice_to :: "int \<Rightarrow> 'a list \<Rightarrow> 'a list" where
  "slice_to i xs = take (nat (if i < 0 then int (length xs) + i else i)) xs"

text \<open>\<open>xs[-n:]\<close>: the last \<open>n\<close> elements when \<open>n > 0\<close>, but all of \<open>xs\<close> when \<open>n = 0\<close>.\<close>

definition last_n :: "int \<Rightarrow> 'a list \<Rightarrow> 'a list" where
  "last_n n xs = slice_from (- n) xs"

lemma last_n_pos: "0 < n \<Longrightarrow> last_n n xs = drop (length xs - nat n) xs"
proof -
  assume "0 < n"
  then have "nat (int (length xs) - n) = length xs - nat n" by linarith
  with \<open>0 < n\<close> show ?thesis by (simp add: last_n_def slice_from_def)
qed

lemma last_n_zero [simp]: "last_n 0 xs = xs"
  by (simp add: last_n_def slice_from_def)

lemma length_last_n: "0 < n \<Longrightarrow> length (last_n n xs) = min (nat n) (length xs)"
  by (simp add: last_n_pos)

lemma slice_to_neg: "0 < n \<Longrightarrow> slice_to (- n) xs = take (length xs - nat n) xs"
proof -
  assume "0 < n"
  then have "nat (int (length xs) - n) = length xs - nat n" by linarith
  with \<open>0 < n\<close> show ?thesis by (simp add: slice_to_def)
qed

lemma slice_split: "0 < n \<Longrightarrow> slice_to (- n) xs @ last_n n xs = xs"
  by (simp add: slice_to_neg last_n_pos)

lemma last_n_all: "int (length xs) \<le> n \<Longrightarrow> last_n n xs = xs"
  by (cases "n = 0") (auto simp: last_n_pos)

lemma set_slice_to: "set (slice_to i xs) \<subseteq> set xs"
  by (simp add: slice_to_def set_take_subset)

lemma length_slice_to: "0 \<le> i \<Longrightarrow> length (slice_to i xs) \<le> nat i"
  by (simp add: slice_to_def)

section \<open>Lists\<close>

text \<open>Python's \<open>list.sort(key=..., reverse=True)\<close> is stable: ties keep their order.\<close>

definition sort_desc :: "('a \<Rightarrow> 'b::linorder) \<Rightarrow> 'a list \<Rightarrow> 'a list" where
  "sort_desc f xs = rev (sort_key f (rev xs))"

lemma set_sort_desc [simp]: "set (sort_desc f xs) = set xs"
  by (simp add: sort_desc_def)

lemma length_sort_desc [simp]: "length (sort_desc f xs) = length xs"
  by (simp add: sort_desc_def)

lemma sort_desc_sorted: "sorted_wrt (\<lambda>a b. f b \<le> f a) (sort_desc f xs)"
proof -
  have "sorted (map f (sort_key f (rev xs)))" by simp
  then show ?thesis
    by (simp add: sort_desc_def sorted_wrt_rev sorted_map)
qed

lemma count_filter_partition:
  "length xs = length (filter P xs) + length (filter (\<lambda>x. \<not> P x) xs)"
  by (induction xs) auto

section \<open>JSON values\<close>

text \<open>The values of \<open>dict[str, Any]\<close> payloads that cross component borders.\<close>

datatype json =
  JNull
| JBool bool
| JNum rat
| JStr string
| JList "json list"
| JObj "(string \<times> json) list"

text \<open>The values that are false in a condition: \<open>None\<close>, \<open>False\<close>, 0 and the empty ones.\<close>

definition falsy :: "json \<Rightarrow> bool" where
  "falsy v \<longleftrightarrow> v \<in> {JNull, JBool False, JNum 0, JStr [], JList [], JObj []}"

text \<open>\<open>{**d, **e}\<close> and \<open>d.update(e)\<close>.\<close>

definition dmerge :: "('k, 'v) dict \<Rightarrow> ('k, 'v) dict \<Rightarrow> ('k, 'v) dict" where
  "dmerge d e = fold (\<lambda>(k, v). dset k v) e d"

lemma dmerge_simps [simp]:
  "dmerge d [] = d" "dmerge d ((k, v) # e) = dmerge (dset k v d) e"
  by (simp_all add: dmerge_def)

lemma wf_dict_dmerge [simp, preserved]: "wf_dict d \<Longrightarrow> wf_dict (dmerge d e)"
  by (induction e arbitrary: d) auto

section \<open>Components as transition systems\<close>

text \<open>
  The contract that the stateful components share: an initial state and operations, an invariant
  that the initial state has and that every admissible operation keeps. Then it holds after every
  sequence of admissible operations.
\<close>

locale invariant_system =
  fixes init :: "'s \<Rightarrow> bool" and step :: "'op \<Rightarrow> 's \<Rightarrow> 's" and ok :: "'op \<Rightarrow> bool"
    and inv :: "'s \<Rightarrow> bool"
  assumes inv_init: "init s \<Longrightarrow> inv s"
    and inv_step: "inv s \<Longrightarrow> ok x \<Longrightarrow> inv (step x s)"
begin

lemma inv_run: "inv s \<Longrightarrow> list_all ok ops \<Longrightarrow> inv (fold step ops s)"
  by (induction ops arbitrary: s) (auto intro: inv_step)

lemma inv_reachable: "init s \<Longrightarrow> list_all ok ops \<Longrightarrow> inv (fold step ops s)"
  by (rule inv_run [OF inv_init])

end

end
