(* ===== verification/Versioning.thy ===== *)
theory Versioning
  imports Strings
begin

text \<open>
  The version policy of tools: \<open>youmi/core/versioning.py\<close> (the single rule source) and the
  version and risk helpers of \<open>youmi/core/tool.py\<close>. A version is the string the code stores;
  an origin or a change kind is the optional string a caller passes (the \<open>str\<close> enums of the
  source compare equal to their values).
\<close>

section \<open>Constants and enums\<close>

definition GENERATED_INITIAL_VERSION :: string where
  "GENERATED_INITIAL_VERSION = ''0.0.1''"

definition STABLE_INITIAL_VERSION :: string where
  "STABLE_INITIAL_VERSION = ''1.0.0''"

definition PROMOTION_MIN_SUCCESSES :: int where "PROMOTION_MIN_SUCCESSES = 3"
definition PROMOTION_MAX_FAILURES :: int where "PROMOTION_MAX_FAILURES = 0"

datatype tool_origin = External | Generated

fun origin_value :: "tool_origin \<Rightarrow> string" where
  "origin_value External = ''external''"
| "origin_value Generated = ''generated''"

datatype version_stage = Candidate | Stable

datatype change_kind = Breaking | Feature | Fix

fun change_value :: "change_kind \<Rightarrow> string" where
  "change_value Breaking = ''breaking''"
| "change_value Feature = ''feature''"
| "change_value Fix = ''fix''"

datatype bump_type = BumpMajor | BumpMinor | BumpPatch

fun change_to_bump :: "change_kind \<Rightarrow> bump_type" where
  "change_to_bump Breaking = BumpMajor"
| "change_to_bump Feature = BumpMinor"
| "change_to_bump Fix = BumpPatch"

section \<open>Parsing and comparison\<close>

definition parse_semver :: "string \<Rightarrow> (int \<times> int \<times> int) option" where
  "parse_semver version =
     (case split_on (CHR ''.'') (strip version) of
        [a, b, c] \<Rightarrow>
          (case (parse_int a, parse_int b, parse_int c) of
             (Some major, Some minor, Some patch) \<Rightarrow>
               if major < 0 \<or> minor < 0 \<or> patch < 0 then None else Some (major, minor, patch)
           | _ \<Rightarrow> None)
      | _ \<Rightarrow> None)"

definition is_valid_semver :: "string \<Rightarrow> bool" where
  "is_valid_semver version \<longleftrightarrow> parse_semver version \<noteq> None"

fun triple_less :: "int \<times> int \<times> int \<Rightarrow> int \<times> int \<times> int \<Rightarrow> bool" where
  "triple_less (a, b, c) (a', b', c') \<longleftrightarrow> a < a' \<or> (a = a' \<and> (b < b' \<or> (b = b' \<and> c < c')))"

definition compare_versions :: "string \<Rightarrow> string \<Rightarrow> int" where
  "compare_versions left right =
     (case (parse_semver left, parse_semver right) of
        (None, None) \<Rightarrow> 0
      | (None, Some _) \<Rightarrow> -1
      | (Some _, None) \<Rightarrow> 1
      | (Some l, Some r) \<Rightarrow> of_bool (triple_less r l) - of_bool (triple_less l r))"

section \<open>Origin and stage\<close>

definition normalize_origin :: "string option \<Rightarrow> tool_origin" where
  "normalize_origin origin =
     (if origin = Some (origin_value External) then External else Generated)"

definition initial_version :: "tool_origin \<Rightarrow> string" where
  "initial_version origin =
     (if origin = External then STABLE_INITIAL_VERSION else GENERATED_INITIAL_VERSION)"

definition resolve_initial_version :: "string option \<Rightarrow> string option \<Rightarrow> string" where
  "resolve_initial_version declared origin =
     (let origin_value = normalize_origin origin in
      if origin_value = External \<and> declared \<in> {None, Some [], Some GENERATED_INITIAL_VERSION}
      then STABLE_INITIAL_VERSION
      else (case declared of
              None \<Rightarrow> initial_version origin_value
            | Some d \<Rightarrow>
                if d = [] then initial_version origin_value
                else if is_valid_semver d then d else initial_version origin_value))"

definition stage_of :: "string \<Rightarrow> version_stage" where
  "stage_of version =
     (case parse_semver version of
        None \<Rightarrow> Candidate
      | Some (major, _, _) \<Rightarrow> if 1 \<le> major then Stable else Candidate)"

definition is_stable :: "string \<Rightarrow> bool" where
  "is_stable version \<longleftrightarrow> stage_of version = Stable"

definition is_candidate :: "string \<Rightarrow> bool" where
  "is_candidate version \<longleftrightarrow> stage_of version = Candidate"

section \<open>Bumping\<close>

definition bump_type_for :: "string option \<Rightarrow> bump_type" where
  "bump_type_for kind =
     (if kind = Some (change_value Breaking) then change_to_bump Breaking
      else if kind = Some (change_value Feature) then change_to_bump Feature
      else if kind = Some (change_value Fix) then change_to_bump Fix
      else BumpPatch)"

definition render_semver :: "int \<Rightarrow> int \<Rightarrow> int \<Rightarrow> string" where
  "render_semver major minor patch = join_with ''.'' [show_int major, show_int minor, show_int patch]"

definition bump_for :: "string \<Rightarrow> string option \<Rightarrow> string" where
  "bump_for current kind =
     (case parse_semver current of
        None \<Rightarrow> GENERATED_INITIAL_VERSION
      | Some (major, minor, patch) \<Rightarrow>
          (let bt = bump_type_for kind;
               bt = (if bt = BumpMajor \<and> major = 0 then BumpMinor else bt)
           in if bt = BumpMajor then render_semver (major + 1) 0 0
              else if bt = BumpMinor then render_semver major (minor + 1) 0
              else render_semver major minor (patch + 1)))"

definition is_promotion_eligible :: "int \<Rightarrow> int \<Rightarrow> int \<Rightarrow> int \<Rightarrow> bool" where
  "is_promotion_eligible success_count failure_count min_successes max_failures \<longleftrightarrow>
     min_successes \<le> success_count \<and> failure_count \<le> max_failures"

text \<open>\<open>bump_version\<close> of \<open>core/tool.py\<close>: the plain increment, with its own parsing.\<close>

definition bump_version :: "string \<Rightarrow> bump_type \<Rightarrow> string" where
  "bump_version current bt =
     (case split_on (CHR ''.'') current of
        [a, b, c] \<Rightarrow>
          (case (parse_int a, parse_int b, parse_int c) of
             (Some major, Some minor, Some patch) \<Rightarrow>
               (case bt of
                  BumpMajor \<Rightarrow> render_semver (major + 1) 0 0
                | BumpMinor \<Rightarrow> render_semver major (minor + 1) 0
                | BumpPatch \<Rightarrow> render_semver major minor (patch + 1))
           | _ \<Rightarrow> GENERATED_INITIAL_VERSION)
      | _ \<Rightarrow> GENERATED_INITIAL_VERSION)"

section \<open>Risk levels\<close>

definition risk_order :: "(string, nat) dict" where
  "risk_order = [(''low'', 0), (''medium'', 1), (''high'', 2), (''critical'', 3)]"

definition risk_rank :: "string \<Rightarrow> nat" where
  "risk_rank level = (case dget risk_order level of None \<Rightarrow> 0 | Some n \<Rightarrow> n)"

section \<open>Lemmas\<close>

lemma show_int_nonneg: "0 \<le> i \<Longrightarrow> show_int i = show_nat (nat i)"
  by (simp add: show_int_def)

lemma parse_semver_render:
  assumes "0 \<le> a" "0 \<le> b" "0 \<le> c"
  shows "parse_semver (render_semver a b c) = Some (a, b, c)"
proof -
  let ?xs = "[show_int a, show_int b, show_int c]"
  have "strip (render_semver a b c) = render_semver a b c"
    using assms by (intro strip_id) (simp add: render_semver_def show_int_nonneg show_nat_ends)
  moreover have "split_on (CHR ''.'') (render_semver a b c) = ?xs"
    unfolding render_semver_def
    by (rule split_on_join) (use assms in \<open>simp_all add: show_int_nonneg show_nat_no_dot\<close>)
  ultimately show ?thesis
    using assms by (simp add: parse_semver_def parse_int_show_int)
qed

lemma parse_semver_nonneg:
  "parse_semver v = Some (a, b, c) \<Longrightarrow> 0 \<le> a \<and> 0 \<le> b \<and> 0 \<le> c"
  by (auto simp: parse_semver_def split: list.splits option.splits if_splits)

lemma valid_semverE:
  assumes "is_valid_semver v"
  obtains a b c where "parse_semver v = Some (a, b, c)" and "0 \<le> a" and "0 \<le> b" and "0 \<le> c"
  using assms parse_semver_nonneg [of v] by (auto simp: is_valid_semver_def)

lemma stable_initial_render: "STABLE_INITIAL_VERSION = render_semver 1 0 0"
  by code_simp

lemma generated_initial_render: "GENERATED_INITIAL_VERSION = render_semver 0 0 1"
  by code_simp

lemma parse_initials [simp]:
  "parse_semver STABLE_INITIAL_VERSION = Some (1, 0, 0)"
  "parse_semver GENERATED_INITIAL_VERSION = Some (0, 0, 1)"
  by (simp_all add: stable_initial_render generated_initial_render parse_semver_render)

lemma valid_initial [simp]: "is_valid_semver (initial_version orig)"
  by (simp add: initial_version_def is_valid_semver_def)

text \<open>A bump is one of three renderings, and never leaves the stage.\<close>

lemma bump_for_cases:
  assumes "parse_semver v = Some (a, b, c)"
  shows "bump_for v k = render_semver (a + 1) 0 0 \<and> bump_type_for k = BumpMajor \<and> a \<noteq> 0
    \<or> bump_for v k = render_semver a (b + 1) 0
    \<or> bump_for v k = render_semver a b (c + 1)"
  using assms by (auto simp: bump_for_def Let_def)

lemma parse_bump_for:
  assumes "parse_semver v = Some (a, b, c)"
  shows "parse_semver (bump_for v k) \<in>
    {Some (a + 1, 0, 0), Some (a, b + 1, 0), Some (a, b, c + 1)} \<and>
    (parse_semver (bump_for v k) = Some (a + 1, 0, 0) \<longrightarrow> a \<noteq> 0)"
  using bump_for_cases [OF assms, of k] parse_semver_nonneg [OF assms]
  by (auto simp: parse_semver_render)

lemma triple_less_irrefl [simp]: "\<not> triple_less t t"
  by (cases t) auto

lemma triple_less_trans: "triple_less s t \<Longrightarrow> triple_less t u \<Longrightarrow> triple_less s u"
  by (cases s; cases t; cases u) auto

lemma triple_less_linear: "triple_less s t \<or> s = t \<or> triple_less t s"
  by (cases s; cases t) auto

lemma compare_versions_refl [simp]: "compare_versions v v = 0"
  by (simp add: compare_versions_def split: option.splits)

lemma compare_versions_flip: "compare_versions r l = - compare_versions l r"
  by (simp add: compare_versions_def split: option.splits)

lemma compare_versions_less_iff:
  "compare_versions l r = -1 \<longleftrightarrow>
     (case (parse_semver l, parse_semver r) of
        (None, Some _) \<Rightarrow> True | (Some a, Some b) \<Rightarrow> triple_less a b | _ \<Rightarrow> False)"
  using triple_less_trans [of "the (parse_semver l)" "the (parse_semver r)" "the (parse_semver l)"]
  by (auto simp: compare_versions_def of_bool_def split: option.splits)

lemma compare_versions_trans:
  "compare_versions u v = -1 \<Longrightarrow> compare_versions v w = -1 \<Longrightarrow> compare_versions u w = -1"
  by (auto simp: compare_versions_less_iff split: option.splits intro: triple_less_trans)

lemma bump_for_increases:
  assumes "is_valid_semver v"
  shows "compare_versions v (bump_for v k) = -1"
proof -
  obtain a b c where p: "parse_semver v = Some (a, b, c)" and "0 \<le> a" "0 \<le> b" "0 \<le> c"
    using assms by (rule valid_semverE)
  with parse_bump_for [OF p, of k] show ?thesis
    by (auto simp: compare_versions_less_iff)
qed

lemma bump_for_stage:
  assumes "is_valid_semver v"
  shows "stage_of (bump_for v k) = stage_of v"
proof -
  obtain a b c where p: "parse_semver v = Some (a, b, c)" and "0 \<le> a"
    using assms by (rule valid_semverE)
  with parse_bump_for [OF p, of k] show ?thesis
    by (auto simp: stage_of_def)
qed

lemma resolve_cases:
  "resolve_initial_version d orig = STABLE_INITIAL_VERSION \<and> normalize_origin orig = External \<or>
   resolve_initial_version d orig = GENERATED_INITIAL_VERSION \<and> normalize_origin orig = Generated \<or>
   (d = Some (resolve_initial_version d orig) \<and> is_valid_semver (resolve_initial_version d orig))"
  by (auto simp: resolve_initial_version_def Let_def initial_version_def
      intro: tool_origin.exhaust split: option.splits)

lemma resolve_valid: "is_valid_semver (resolve_initial_version d orig)"
  using resolve_cases [of d orig] by (auto simp: is_valid_semver_def)

lemma valid_nonempty: "is_valid_semver v \<Longrightarrow> v \<noteq> []"
  by (auto simp: is_valid_semver_def parse_semver_def strip_def)

lemma resolve_idem:
  "resolve_initial_version (Some (resolve_initial_version d orig)) orig = resolve_initial_version d orig"
proof -
  let ?r = "resolve_initial_version d orig"
  have v: "is_valid_semver ?r" by (rule resolve_valid)
  moreover have "?r \<noteq> []" using v by (rule valid_nonempty)
  moreover have "\<not> (normalize_origin orig = External \<and> ?r = GENERATED_INITIAL_VERSION)"
    by (auto simp: resolve_initial_version_def Let_def initial_version_def
        STABLE_INITIAL_VERSION_def GENERATED_INITIAL_VERSION_def split: option.splits if_splits)
  ultimately show ?thesis
    by (auto simp: resolve_initial_version_def [of "Some ?r"] Let_def)
qed

lemma risk_rank_simps [simp]:
  "risk_rank ''low'' = 0" "risk_rank ''medium'' = 1" "risk_rank ''high'' = 2"
  "risk_rank ''critical'' = 3"
  by (simp_all add: risk_rank_def risk_order_def)

lemma risk_rank_le: "risk_rank l \<le> 3"
  by (simp add: risk_rank_def risk_order_def)

lemma risk_rank_above_high: "2 < risk_rank l \<longleftrightarrow> l = ''critical''"
  by (auto simp: risk_rank_def risk_order_def)

section \<open>Properties\<close>

text \<open>
  a version written as \<open>MAJOR.MINOR.PATCH\<close> from any three natural numbers is parsed back to
  exactly those numbers.
\<close>

theorem semver_roundtrip:
  "parse_semver (render_semver (int a) (int b) (int c)) = Some (int a, int b, int c)"
  by (rule parse_semver_render) simp_all

text \<open>
  bumping a valid version by any change kind gives a strictly newer valid version of the
  same stage: a candidate (0.x.y) is never promoted to 1.0.0 by a bump, and a stable version stays
  stable.
\<close>

theorem bump_for_safe:
  assumes "is_valid_semver v"
  shows "is_valid_semver (bump_for v k) \<and> compare_versions v (bump_for v k) = -1 \<and>
    stage_of (bump_for v k) = stage_of v"
proof -
  have "is_valid_semver (bump_for v k)"
    using bump_for_increases [OF assms, of k] assms
    by (auto simp: compare_versions_less_iff is_valid_semver_def split: option.splits)
  with assms show ?thesis by (simp add: bump_for_increases bump_for_stage)
qed

theorem bump_for_safe_witness:
  "is_valid_semver ''0.4.2'' \<and> bump_for ''0.4.2'' (Some ''breaking'') = ''0.5.0'' \<and>
   compare_versions ''0.4.2'' (bump_for ''0.4.2'' (Some ''breaking'')) = -1"
proof -
  have v: "is_valid_semver ''0.4.2''" by code_simp
  have "bump_for ''0.4.2'' (Some ''breaking'') = ''0.5.0''" by code_simp
  with bump_for_safe [OF v, of "Some ''breaking''"] v show ?thesis by simp
qed

text \<open>
  the initial version of a tool is always a valid version; resolving it a second time changes
  nothing; and a tool of external origin that declares no version (or only the placeholder
  0.0.1) enters the library as stable, while an undeclared version of any other origin is a
  candidate.
\<close>

theorem resolve_initial_version_correct:
  "is_valid_semver (resolve_initial_version d orig) \<and>
   resolve_initial_version (Some (resolve_initial_version d orig)) orig = resolve_initial_version d orig \<and>
   stage_of (resolve_initial_version None orig) =
     (if orig = Some ''external'' then Stable else Candidate) \<and>
   stage_of (resolve_initial_version (Some ''0.0.1'') (Some ''external'')) = Stable"
  by (simp add: resolve_valid resolve_idem)
    (simp add: resolve_initial_version_def normalize_origin_def initial_version_def stage_of_def
      flip: GENERATED_INITIAL_VERSION_def)

end
