(* ===== verification/Resilience.thy ===== *)
theory Resilience
  imports Prelude
begin

text \<open>
  \<open>youmi/core/resilience.py\<close>: the circuit breaker, its registry and the retry executor, with
  \<open>RetryPolicy\<close> of \<open>youmi/core/types.py\<close>. The monotonic clock is an argument of the operations
  that read it. A protected call is two events, its admission by \<open>before_call\<close> and its end, so
  that concurrent calls interleave; the end may be a cancellation, which no \<open>except Exception\<close>
  clause of the source catches.
\<close>

section \<open>The breaker\<close>

datatype circuit_state = CLOSED | OPEN | HALF_OPEN

datatype circuit_open_error = CircuitOpenError string rat

record breaker_config =
  bc_enabled :: bool
  bc_failure_threshold :: nat
  bc_recovery_timeout_s :: rat
  bc_half_open_max_calls :: nat

text \<open>The constraints that pydantic checks when a configuration is built (\<open>Field(ge=1)\<close> etc.).\<close>

definition valid_breaker_config :: "breaker_config \<Rightarrow> bool" where
  "valid_breaker_config c \<longleftrightarrow>
     1 \<le> bc_failure_threshold c \<and> 0 < bc_recovery_timeout_s c \<and> 1 \<le> bc_half_open_max_calls c"

definition default_breaker_config :: breaker_config where
  "default_breaker_config =
     \<lparr>bc_enabled = True, bc_failure_threshold = 5, bc_recovery_timeout_s = 30,
      bc_half_open_max_calls = 1\<rparr>"

record breaker =
  cb_name :: string
  cb_config :: breaker_config
  cb_state :: circuit_state
  cb_failure_count :: nat
  cb_success_count :: nat
  cb_opened_at :: rat
  cb_half_open_in_flight :: nat
  cb_total_success :: nat
  cb_total_failure :: nat
  cb_rejected :: nat

definition new_breaker :: "string \<Rightarrow> breaker_config \<Rightarrow> breaker" where
  "new_breaker name config =
     \<lparr>cb_name = name, cb_config = config, cb_state = CLOSED, cb_failure_count = 0,
      cb_success_count = 0, cb_opened_at = 0, cb_half_open_in_flight = 0,
      cb_total_success = 0, cb_total_failure = 0, cb_rejected = 0\<rparr>"

text \<open>The last block of \<open>before_call\<close>: the limit on concurrent probes in HALF_OPEN.\<close>

definition admit_half_open :: "breaker \<Rightarrow> (circuit_open_error + unit) \<times> breaker" where
  "admit_half_open b =
     (if cb_state b = HALF_OPEN then
        (if bc_half_open_max_calls (cb_config b) \<le> cb_half_open_in_flight b
         then (Inl (CircuitOpenError (cb_name b) 0), b\<lparr>cb_rejected := cb_rejected b + 1\<rparr>)
         else (Inr (), b\<lparr>cb_half_open_in_flight := cb_half_open_in_flight b + 1\<rparr>))
      else (Inr (), b))"

definition before_call :: "rat \<Rightarrow> breaker \<Rightarrow> (circuit_open_error + unit) \<times> breaker" where
  "before_call now b =
     (if \<not> bc_enabled (cb_config b) then (Inr (), b)
      else if cb_state b = CLOSED then (Inr (), b)
      else if cb_state b = OPEN then
        (let elapsed = now - cb_opened_at b;
             timeout = bc_recovery_timeout_s (cb_config b)
         in if timeout \<le> elapsed
            then admit_half_open
                   (b\<lparr>cb_state := HALF_OPEN, cb_half_open_in_flight := 0, cb_success_count := 0\<rparr>)
            else (Inl (CircuitOpenError (cb_name b) (timeout - elapsed)),
                  b\<lparr>cb_rejected := cb_rejected b + 1\<rparr>))
      else admit_half_open b)"

definition record_success :: "breaker \<Rightarrow> breaker" where
  "record_success b0 =
     (let b = b0\<lparr>cb_total_success := cb_total_success b0 + 1\<rparr> in
      if \<not> bc_enabled (cb_config b) then b
      else if cb_state b = HALF_OPEN then
        b\<lparr>cb_half_open_in_flight := cb_half_open_in_flight b - 1,
          cb_success_count := cb_success_count b + 1,
          cb_state := CLOSED, cb_failure_count := 0\<rparr>
      else b\<lparr>cb_failure_count := 0\<rparr>)"

definition trip :: "rat \<Rightarrow> breaker \<Rightarrow> breaker" where
  "trip now b = b\<lparr>cb_state := OPEN, cb_opened_at := now\<rparr>"

definition record_failure :: "rat \<Rightarrow> breaker \<Rightarrow> breaker" where
  "record_failure now b0 =
     (let b = b0\<lparr>cb_total_failure := cb_total_failure b0 + 1\<rparr> in
      if \<not> bc_enabled (cb_config b) then b
      else if cb_state b = HALF_OPEN then
        trip now (b\<lparr>cb_half_open_in_flight := cb_half_open_in_flight b - 1\<rparr>)
      else (let b = b\<lparr>cb_failure_count := cb_failure_count b + 1\<rparr> in
            if bc_failure_threshold (cb_config b) \<le> cb_failure_count b then trip now b else b))"

definition reset_breaker :: "breaker \<Rightarrow> breaker" where
  "reset_breaker b = b\<lparr>cb_state := CLOSED, cb_failure_count := 0, cb_success_count := 0,
               cb_half_open_in_flight := 0\<rparr>"

text \<open>
  \<open>CircuitBreaker.call\<close>: how the awaited function ends. \<open>Cancelled\<close> is
  \<open>asyncio.CancelledError\<close>, a \<open>BaseException\<close>.
\<close>

datatype ('e, 'a) call_end = Returned 'a | NestedOpen circuit_open_error | Raised 'e | Cancelled

definition end_call :: "rat \<Rightarrow> ('e, 'a) call_end \<Rightarrow> breaker \<Rightarrow> breaker" where
  "end_call now out b =
     (case out of
        Returned _ \<Rightarrow> record_success b
      | NestedOpen _ \<Rightarrow> b\<lparr>cb_half_open_in_flight := cb_half_open_in_flight b - 1\<rparr>
      | Raised _ \<Rightarrow> record_failure now b
      | Cancelled \<Rightarrow> b)"

text \<open>One call with nothing interleaved: admission at \<open>t0\<close>, end at \<open>t1\<close>.\<close>

definition breaker_call :: "rat \<Rightarrow> rat \<Rightarrow> ('e, 'a) call_end \<Rightarrow> breaker \<Rightarrow>
    (circuit_open_error + ('e, 'a) call_end) \<times> breaker" where
  "breaker_call t0 t1 out b =
     (case before_call t0 b of
        (Inl e, b') \<Rightarrow> (Inl e, b')
      | (Inr _, b') \<Rightarrow> (Inr out, end_call t1 out b'))"

section \<open>The registry\<close>

record breaker_registry =
  br_default_config :: breaker_config
  br_breakers :: "(string, breaker) dict"

definition new_breaker_registry :: "breaker_config option \<Rightarrow> breaker_registry" where
  "new_breaker_registry config =
     \<lparr>br_default_config = (case config of None \<Rightarrow> default_breaker_config | Some c \<Rightarrow> c),
      br_breakers = []\<rparr>"

definition get_breaker :: "string \<Rightarrow> breaker_config option \<Rightarrow> breaker_registry \<Rightarrow>
    breaker \<times> breaker_registry" where
  "get_breaker name config r =
     (case dget (br_breakers r) name of
        None \<Rightarrow>
          (let b = new_breaker name (case config of None \<Rightarrow> br_default_config r | Some c \<Rightarrow> c)
           in (b, r\<lparr>br_breakers := dset name b (br_breakers r)\<rparr>))
      | Some b \<Rightarrow>
          (case config of
             None \<Rightarrow> (b, r)
           | Some c \<Rightarrow>
               if \<not> bc_enabled (cb_config b) \<and> bc_enabled c then
                 (let b' = new_breaker name c
                  in (b', r\<lparr>br_breakers := dset name b' (br_breakers r)\<rparr>))
               else (b, r)))"

definition reset_all :: "breaker_registry \<Rightarrow> breaker_registry" where
  "reset_all r = r\<lparr>br_breakers := dmap (\<lambda>_. reset_breaker) (br_breakers r)\<rparr>"

definition open_count :: "breaker_registry \<Rightarrow> nat" where
  "open_count r = length (filter (\<lambda>b. cb_state b \<noteq> CLOSED) (dvals (br_breakers r)))"

section \<open>Retry with backoff\<close>

datatype backoff_strategy = FIXED | LINEAR | EXPONENTIAL

record retry_policy =
  rp_max_retries :: nat
  rp_base_delay_s :: rat
  rp_max_delay_s :: rat
  rp_backoff :: backoff_strategy
  rp_retryable_exceptions :: "string list"

definition default_retry_policy :: retry_policy where
  "default_retry_policy =
     \<lparr>rp_max_retries = 3, rp_base_delay_s = 1, rp_max_delay_s = 60, rp_backoff = EXPONENTIAL,
      rp_retryable_exceptions = [''TimeoutError'', ''ConnectionError'']\<rparr>"

definition valid_retry_policy :: "retry_policy \<Rightarrow> bool" where
  "valid_retry_policy p \<longleftrightarrow> 0 \<le> rp_base_delay_s p \<and> 0 \<le> rp_max_delay_s p"

text \<open>
  \<open>random.uniform(0, d)\<close> is \<open>u * d\<close> for the draw \<open>u\<close> of the generator, \<open>0 \<le> u \<le> 1\<close>.
\<close>

definition compute_backoff_delay :: "nat \<Rightarrow> retry_policy \<Rightarrow> rat \<Rightarrow> rat \<Rightarrow> rat" where
  "compute_backoff_delay attempt p jitter_ratio u =
     (let delay = (case rp_backoff p of
                     FIXED \<Rightarrow> rp_base_delay_s p
                   | LINEAR \<Rightarrow> rp_base_delay_s p * of_nat attempt
                   | EXPONENTIAL \<Rightarrow> rp_base_delay_s p * 2 ^ (attempt - 1));
          delay = min delay (rp_max_delay_s p)
      in if 0 < jitter_ratio \<and> 0 < delay then delay + u * (delay * jitter_ratio) else delay)"

text \<open>An exception is known here by the class names of its MRO.\<close>

definition is_retryable_by_policy :: "('e \<Rightarrow> string list) \<Rightarrow> 'e \<Rightarrow> retry_policy \<Rightarrow> bool" where
  "is_retryable_by_policy mro exc p \<longleftrightarrow>
     list_ex (\<lambda>n. n \<in> set (rp_retryable_exceptions p)) (mro exc)"

text \<open>
  \<open>retry_async\<close> from its attempt number \<open>attempt\<close> on. \<open>fn k\<close> is how the \<open>k\<close>-th call of the
  function ends, \<open>on_retry\<close> may raise. The result carries the sleeps and the last attempt.
\<close>

function retry_from :: "retry_policy \<Rightarrow> (nat \<Rightarrow> 'e + 'a) \<Rightarrow> ('e \<Rightarrow> bool) \<Rightarrow>
    (nat \<Rightarrow> 'e \<Rightarrow> rat \<Rightarrow> 'e option) \<Rightarrow> nat \<Rightarrow> ('e + 'a) \<times> rat list \<times> nat" where
  "retry_from p fn retryable on_retry attempt =
     (case fn attempt of
        Inr v \<Rightarrow> (Inr v, [], attempt)
      | Inl exc \<Rightarrow>
          if \<not> retryable exc \<or> rp_max_retries p < attempt then (Inl exc, [], attempt)
          else
            (let delay = compute_backoff_delay attempt p 0 0 in
             case on_retry attempt exc delay of
               Some exc' \<Rightarrow> (Inl exc', [], attempt)
             | None \<Rightarrow>
                 (case retry_from p fn retryable on_retry (Suc attempt) of
                    (r, sleeps, n) \<Rightarrow> (r, if 0 < delay then delay # sleeps else sleeps, n))))"
  by pat_completeness auto
termination
  by (relation "measure (\<lambda>(p, fn, retryable, on_retry, attempt). Suc (rp_max_retries p) - attempt)")
    auto

declare retry_from.simps [simp del]

definition retry_async :: "retry_policy option \<Rightarrow> (nat \<Rightarrow> 'e + 'a) \<Rightarrow> ('e \<Rightarrow> bool) option \<Rightarrow>
    ('e \<Rightarrow> string list) \<Rightarrow> (nat \<Rightarrow> 'e \<Rightarrow> rat \<Rightarrow> 'e option) \<Rightarrow> ('e + 'a) \<times> rat list \<times> nat" where
  "retry_async policy fn is_retryable mro on_retry =
     (let p = (case policy of None \<Rightarrow> default_retry_policy | Some p \<Rightarrow> p);
          retryable = (case is_retryable of
                         Some f \<Rightarrow> f | None \<Rightarrow> (\<lambda>exc. is_retryable_by_policy mro exc p))
      in retry_from p fn retryable on_retry 1)"

section \<open>The breaker as a state machine\<close>

text \<open>
  A breaker shared by any number of callers: how many admitted calls have not ended, and the
  clock. Events happen at non-decreasing times and in any order.
\<close>

record breaker_run =
  rn_breaker :: breaker
  rn_in_flight :: nat
  rn_clock :: rat

inductive breaker_step :: "breaker_run \<Rightarrow> breaker_run \<Rightarrow> bool" where
  admitted: "rn_clock s \<le> now \<Longrightarrow> before_call now (rn_breaker s) = (Inr (), b) \<Longrightarrow>
     breaker_step s \<lparr>rn_breaker = b, rn_in_flight = Suc (rn_in_flight s), rn_clock = now\<rparr>"
| rejected: "rn_clock s \<le> now \<Longrightarrow> before_call now (rn_breaker s) = (Inl e, b) \<Longrightarrow>
     breaker_step s \<lparr>rn_breaker = b, rn_in_flight = rn_in_flight s, rn_clock = now\<rparr>"
| ended: "rn_clock s \<le> now \<Longrightarrow> rn_in_flight s = Suc n \<Longrightarrow>
     breaker_step s \<lparr>rn_breaker = end_call now (out :: (unit, unit) call_end) (rn_breaker s),
                     rn_in_flight = n, rn_clock = now\<rparr>"
| was_reset: "breaker_step s (s\<lparr>rn_breaker := reset_breaker (rn_breaker s)\<rparr>)"

inductive breaker_reach :: "breaker_config \<Rightarrow> breaker_run \<Rightarrow> bool" for c where
  start: "0 \<le> t \<Longrightarrow>
     breaker_reach c \<lparr>rn_breaker = new_breaker name c, rn_in_flight = 0, rn_clock = t\<rparr>"
| step: "breaker_reach c s \<Longrightarrow> breaker_step s s' \<Longrightarrow> breaker_reach c s'"

inductive_cases breaker_stepE: "breaker_step s s'"

text \<open>What the counters and the state always satisfy.\<close>

definition breaker_inv :: "breaker_config \<Rightarrow> rat \<Rightarrow> breaker \<Rightarrow> bool" where
  "breaker_inv c now b \<longleftrightarrow>
     cb_config b = c \<and>
     cb_half_open_in_flight b \<le> bc_half_open_max_calls c \<and>
     (cb_state b = CLOSED \<longrightarrow> cb_failure_count b < bc_failure_threshold c) \<and>
     cb_opened_at b \<le> now \<and>
     (\<not> bc_enabled c \<longrightarrow> cb_state b = CLOSED)"

lemmas breaker_defs = before_call_def admit_half_open_def record_success_def record_failure_def
  trip_def reset_breaker_def end_call_def Let_def

lemma breaker_inv_new [preserved]:
  "valid_breaker_config c \<Longrightarrow> 0 \<le> now \<Longrightarrow> breaker_inv c now (new_breaker name c)"
  by (simp add: breaker_inv_def new_breaker_def valid_breaker_config_def)

lemma breaker_inv_later: "breaker_inv c t b \<Longrightarrow> t \<le> now \<Longrightarrow> breaker_inv c now b"
  by (auto simp: breaker_inv_def)

lemma breaker_inv_before_call [preserved]:
  "valid_breaker_config c \<Longrightarrow> breaker_inv c now b \<Longrightarrow> breaker_inv c now (snd (before_call now b))"
  by (auto simp: breaker_inv_def breaker_defs valid_breaker_config_def)

lemma breaker_inv_record_success [preserved]:
  "valid_breaker_config c \<Longrightarrow> breaker_inv c now b \<Longrightarrow> breaker_inv c now (record_success b)"
  by (auto simp: breaker_inv_def breaker_defs valid_breaker_config_def)

lemma breaker_inv_record_failure [preserved]:
  "valid_breaker_config c \<Longrightarrow> breaker_inv c now b \<Longrightarrow> breaker_inv c now (record_failure now b)"
  by (auto simp: breaker_inv_def breaker_defs valid_breaker_config_def)

lemma breaker_inv_reset [preserved]:
  "valid_breaker_config c \<Longrightarrow> breaker_inv c now b \<Longrightarrow> breaker_inv c now (reset_breaker b)"
  by (auto simp: breaker_inv_def breaker_defs valid_breaker_config_def)

lemma breaker_inv_end_call [preserved]:
  "valid_breaker_config c \<Longrightarrow> breaker_inv c now b \<Longrightarrow> breaker_inv c now (end_call now out b)"
  by (cases out)
    (auto simp: end_call_def preserved, auto simp: breaker_inv_def)

lemma breaker_step_inv:
  assumes "valid_breaker_config c" and "breaker_step s s'" and "breaker_inv c (rn_clock s) (rn_breaker s)"
  shows "breaker_inv c (rn_clock s') (rn_breaker s')"
  using assms(2)
proof (cases rule: breaker_step.cases)
  case (admitted now b)
  with assms breaker_inv_before_call [of c now "rn_breaker s"] breaker_inv_later show ?thesis
    by fastforce
next
  case (rejected now e b)
  with assms breaker_inv_before_call [of c now "rn_breaker s"] breaker_inv_later show ?thesis
    by fastforce
next
  case (ended now n out)
  with assms breaker_inv_later show ?thesis by (auto intro: breaker_inv_end_call)
next
  case was_reset
  with assms show ?thesis by (auto intro: breaker_inv_reset)
qed

lemma breaker_reach_inv:
  assumes "valid_breaker_config c" and "breaker_reach c s"
  shows "breaker_inv c (rn_clock s) (rn_breaker s)"
  using assms(2)
proof (induction rule: breaker_reach.induct)
  case (start t name)
  with assms(1) show ?case by (simp add: breaker_inv_new)
next
  case (step s s')
  with assms(1) show ?case by (blast intro: breaker_step_inv)
qed

lemma half_open_full_rejects:
  "bc_enabled (cb_config b) \<Longrightarrow> cb_state b = HALF_OPEN \<Longrightarrow>
   bc_half_open_max_calls (cb_config b) \<le> cb_half_open_in_flight b \<Longrightarrow>
   before_call now b = (Inl (CircuitOpenError (cb_name b) 0), b\<lparr>cb_rejected := cb_rejected b + 1\<rparr>)"
  by (simp add: before_call_def admit_half_open_def)

text \<open>A sequence of events, for the statements about whole executions.\<close>

datatype breaker_event = Begin rat | End rat "(unit, unit) call_end"

fun apply_event :: "breaker_event \<Rightarrow> breaker \<Rightarrow> breaker" where
  "apply_event (Begin now) b = snd (before_call now b)"
| "apply_event (End now out) b = end_call now out b"

definition breaker_events :: "breaker_event list \<Rightarrow> breaker \<Rightarrow> breaker" where
  "breaker_events es b = fold apply_event es b"

lemma breaker_events_simps [simp]:
  "breaker_events [] b = b"
  "breaker_events (e # es) b = breaker_events es (apply_event e b)"
  "breaker_events (es @ fs) b = breaker_events fs (breaker_events es b)"
  by (simp_all add: breaker_events_def)

lemma begin_probes:
  assumes "bc_enabled (cb_config b)" and "cb_state b = HALF_OPEN"
    and "cb_half_open_in_flight b + n \<le> bc_half_open_max_calls (cb_config b)"
  shows "breaker_events (replicate n (Begin t)) b =
    b\<lparr>cb_half_open_in_flight := cb_half_open_in_flight b + n\<rparr>"
  using assms
  by (induction n arbitrary: b) (auto simp: before_call_def admit_half_open_def)

lemma cancel_probes: "breaker_events (replicate n (End t Cancelled)) b = b"
  by (induction n) (simp_all add: end_call_def)

lemma jammed_forever:
  assumes "bc_enabled (cb_config b)" and "cb_state b = HALF_OPEN"
    and "bc_half_open_max_calls (cb_config b) \<le> cb_half_open_in_flight b"
  shows "fst (before_call now (breaker_events (map Begin ts) b)) = Inl (CircuitOpenError (cb_name b) 0)"
  using assms
  by (induction ts arbitrary: b) (auto simp: half_open_full_rejects)

lemma failures_from_closed:
  assumes "bc_enabled (cb_config b)" and "cb_state b = CLOSED"
    and "cb_failure_count b < bc_failure_threshold (cb_config b)"
  shows "cb_state (fold record_failure ts b) =
      (if bc_failure_threshold (cb_config b) \<le> cb_failure_count b + length ts then OPEN else CLOSED)"
proof -
  have "open_stays": "cb_state (fold record_failure us x) = OPEN" if "cb_state x = OPEN" for us x
    using that by (induction us arbitrary: x) (auto simp: breaker_defs)
  show ?thesis
    using assms
  proof (induction ts arbitrary: b)
    case Nil
    then show ?case by simp
  next
    case (Cons t ts)
    show ?case
    proof (cases "bc_failure_threshold (cb_config b) \<le> cb_failure_count b + 1")
      case True
      with Cons.prems have "cb_state (record_failure t b) = OPEN" by (simp add: breaker_defs)
      with True show ?thesis by (simp add: "open_stays")
    next
      case False
      with Cons show ?thesis by (auto simp: breaker_defs)
    qed
  qed
qed

section \<open>Retry lemmas\<close>

lemma backoff_bounds:
  assumes "valid_retry_policy p"
  shows "0 \<le> compute_backoff_delay k p 0 u \<and> compute_backoff_delay k p 0 u \<le> rp_max_delay_s p"
  using assms
  by (auto simp: compute_backoff_delay_def valid_retry_policy_def Let_def min_def
      split: backoff_strategy.splits)

text \<open>The shape of an execution: a run of retryable failures, then the attempt that decided it.\<close>

lemma retry_from_spec:
  assumes "retry_from p fn retryable on_retry k = (r, sleeps, n)" and "k \<le> Suc (rp_max_retries p)"
  shows "k \<le> n \<and> n \<le> Suc (rp_max_retries p) \<and>
    (\<forall>j \<in> {k..<n}. \<exists>e. fn j = Inl e \<and> retryable e) \<and>
    (r = fn n \<or> (\<exists>e e'. fn n = Inl e \<and> retryable e \<and> on_retry n e (compute_backoff_delay n p 0 0) = Some e'
       \<and> r = Inl e')) \<and>
    (r = fn n \<longrightarrow> (case fn n of Inr _ \<Rightarrow> True | Inl e \<Rightarrow> \<not> retryable e \<or> n = Suc (rp_max_retries p)
       \<or> (\<exists>e'. on_retry n e (compute_backoff_delay n p 0 0) = Some e'))) \<and>
    sleeps = filter (\<lambda>d. 0 < d) (map (\<lambda>j. compute_backoff_delay j p 0 0) [k..<n])"
  using assms
proof (induction p fn retryable on_retry k arbitrary: r sleeps n rule: retry_from.induct)
  case (1 p fn retryable on_retry k)
  show ?case
  proof (cases "fn k")
    case (Inr v)
    then have "r = Inr v" "sleeps = []" "n = k"
      using "1.prems" by (simp_all add: retry_from.simps [of p fn retryable on_retry k])
    with Inr "1.prems"(2) show ?thesis by simp
  next
    case (Inl e)
    show ?thesis
    proof (cases "\<not> retryable e \<or> rp_max_retries p < k")
      case True
      then have "r = Inl e" "sleeps = []" "n = k"
        using Inl "1.prems" by (auto simp: retry_from.simps [of p fn retryable on_retry k])
      with Inl True "1.prems"(2) show ?thesis by auto
    next
      case False
      show ?thesis
      proof (cases "on_retry k e (compute_backoff_delay k p 0 0)")
        case (Some e')
        with Inl False "1.prems" show ?thesis
          by (auto simp: retry_from.simps [of p fn retryable on_retry k] Let_def)
      next
        case None
        obtain r' sl m where rec: "retry_from p fn retryable on_retry (Suc k) = (r', sl, m)"
          by (cases "retry_from p fn retryable on_retry (Suc k)")
        have IH: "Suc k \<le> m \<and> m \<le> Suc (rp_max_retries p) \<and>
          (\<forall>j \<in> {Suc k..<m}. \<exists>e. fn j = Inl e \<and> retryable e) \<and>
          (r' = fn m \<or> (\<exists>e e'. fn m = Inl e \<and> retryable e \<and>
             on_retry m e (compute_backoff_delay m p 0 0) = Some e' \<and> r' = Inl e')) \<and>
          (r' = fn m \<longrightarrow> (case fn m of Inr _ \<Rightarrow> True | Inl e \<Rightarrow> \<not> retryable e \<or> m = Suc (rp_max_retries p)
            \<or> (\<exists>e'. on_retry m e (compute_backoff_delay m p 0 0) = Some e'))) \<and>
          sl = filter (\<lambda>d. 0 < d) (map (\<lambda>j. compute_backoff_delay j p 0 0) [Suc k..<m])"
          using "1.IH" [OF Inl False refl None rec] False by simp
        have eq: "r = r'" "n = m"
          "sleeps = (if 0 < compute_backoff_delay k p 0 0 then compute_backoff_delay k p 0 0 # sl else sl)"
          using "1.prems"(1) Inl False None rec
          by (auto simp: retry_from.simps [of p fn retryable on_retry k] Let_def)
        have "{k..<m} = insert k {Suc k..<m}" and "[k..<m] = k # [Suc k..<m]"
          using IH by (auto simp: upt_conv_Cons)
        with IH eq Inl False show ?thesis by auto
      qed
    qed
  qed
qed

section \<open>Properties\<close>

text \<open>
  C7: in every reachable state of an enabled or disabled breaker, under any interleaving of
  callers, at most \<open>half_open_max_calls\<close> probes hold a half-open slot, a closed breaker has seen
  fewer consecutive failures than its threshold, and an open breaker rejects every call made
  before the recovery timeout, with a positive retry time that does not exceed the timeout.
\<close>

theorem breaker_reachable_safe:
  assumes "valid_breaker_config c" and "breaker_reach c s"
  shows "cb_half_open_in_flight (rn_breaker s) \<le> bc_half_open_max_calls c \<and>
    (cb_state (rn_breaker s) = CLOSED \<longrightarrow> cb_failure_count (rn_breaker s) < bc_failure_threshold c) \<and>
    (cb_state (rn_breaker s) = OPEN \<longrightarrow>
      (\<forall>now. rn_clock s \<le> now \<and> now - cb_opened_at (rn_breaker s) < bc_recovery_timeout_s c \<longrightarrow>
        (\<exists>wait b. before_call now (rn_breaker s) = (Inl (CircuitOpenError (cb_name (rn_breaker s)) wait), b) \<and>
          0 < wait \<and> wait \<le> bc_recovery_timeout_s c \<and> cb_state b = OPEN)))"
  using breaker_reach_inv [OF assms] by (auto simp: breaker_inv_def before_call_def Let_def)

theorem breaker_reachable_safe_witness:
  "\<exists>s. breaker_reach default_breaker_config s \<and> cb_half_open_in_flight (rn_breaker s) \<le> 1"
proof -
  have v: "valid_breaker_config default_breaker_config"
    by (simp add: valid_breaker_config_def default_breaker_config_def)
  have r: "breaker_reach default_breaker_config
      \<lparr>rn_breaker = new_breaker ''llm'' default_breaker_config, rn_in_flight = 0, rn_clock = 0\<rparr>"
    by (rule breaker_reach.start) simp
  show ?thesis
    using breaker_reachable_safe [OF v r] r by (auto simp: default_breaker_config_def)
qed

text \<open>
  the state machine of the module's documentation. From a fresh enabled breaker, consecutive
  failures open it exactly when the threshold is reached; once the recovery timeout has passed, an
  open breaker admits a probe, a successful probe closes it with a cleared failure count, and a
  failing probe opens it again from the time of that failure.
\<close>

theorem breaker_state_machine:
  assumes "valid_breaker_config c" and "bc_enabled c"
    and "cb_config b = c" and "cb_state b = OPEN"
    and "bc_recovery_timeout_s c \<le> t0 - cb_opened_at b"
  shows "cb_state (fold record_failure ts (new_breaker name c)) =
      (if bc_failure_threshold c \<le> length ts then OPEN else CLOSED) \<and>
    (\<exists>b'. breaker_call t0 t1 (Returned v) b = (Inr (Returned v), b') \<and>
       cb_state b' = CLOSED \<and> cb_failure_count b' = 0 \<and> cb_half_open_in_flight b' = 0) \<and>
    (\<exists>b'. breaker_call t0 t1 (Raised e) b = (Inr (Raised e), b') \<and>
       cb_state b' = OPEN \<and> cb_opened_at b' = t1 \<and> cb_half_open_in_flight b' = 0)"
proof -
  have "cb_state (fold record_failure ts (new_breaker name c)) =
      (if bc_failure_threshold c \<le> length ts then OPEN else CLOSED)"
    using assms(1,2) failures_from_closed [of "new_breaker name c" ts]
    by (simp add: new_breaker_def valid_breaker_config_def)
  with assms show ?thesis
    by (auto simp: breaker_call_def breaker_defs valid_breaker_config_def)
qed

theorem breaker_state_machine_witness:
  "cb_state (fold record_failure [0, 1, 2, 3, 4] (new_breaker ''x'' default_breaker_config)) = OPEN"
proof -
  let ?c = "default_breaker_config"
  let ?b = "(new_breaker ''x'' ?c)\<lparr>cb_state := OPEN\<rparr>"
  have "valid_breaker_config ?c" "bc_enabled ?c" "cb_config ?b = ?c" "cb_state ?b = OPEN"
    "bc_recovery_timeout_s ?c \<le> 40 - cb_opened_at ?b"
    by (simp_all add: valid_breaker_config_def default_breaker_config_def new_breaker_def)
  from conjunct1 [OF breaker_state_machine [OF this, where ts = "[0, 1, 2, 3, 4]" and name = "''x''"]]
  show ?thesis by (simp add: default_breaker_config_def)
qed

text \<open>
  cancellation leaks the half-open slots. When an open breaker whose recovery timeout has
  passed admits \<open>half_open_max_calls\<close> probes and each of them is cancelled, no call is running any
  more, yet the breaker stays half-open and rejects every later call, at whatever time and
  however often it is tried.
\<close>

theorem cancelled_probes_jam_breaker:
  assumes "bc_enabled (cb_config b)" and "valid_breaker_config (cb_config b)" and "cb_state b = OPEN"
    and "bc_recovery_timeout_s (cb_config b) \<le> t - cb_opened_at b"
    and "n = bc_half_open_max_calls (cb_config b)"
    and "b' = breaker_events (replicate n (Begin t) @ replicate n (End t' Cancelled)) b"
  shows "cb_state b' = HALF_OPEN \<and>
    fst (before_call now (breaker_events (map Begin ts) b')) = Inl (CircuitOpenError (cb_name b) 0)"
proof -
  from assms(2,5) have "0 < n" by (simp add: valid_breaker_config_def)
  then obtain m where m: "n = Suc m" using gr0_conv_Suc by blast
  let ?b = "b\<lparr>cb_state := HALF_OPEN, cb_half_open_in_flight := 1, cb_success_count := 0\<rparr>"
  have "apply_event (Begin t) b = ?b"
    using assms m by (simp add: before_call_def admit_half_open_def)
  moreover have "breaker_events (replicate m (Begin t)) ?b = ?b\<lparr>cb_half_open_in_flight := n\<rparr>"
    using assms(1,5) m begin_probes [of ?b m t] by simp
  ultimately have b': "b' = ?b\<lparr>cb_half_open_in_flight := n\<rparr>"
    unfolding assms(6) m by (simp add: cancel_probes end_call_def)
  have "fst (before_call now (breaker_events (map Begin ts) b')) = Inl (CircuitOpenError (cb_name b') 0)"
    by (rule jammed_forever) (use assms(1,5) in \<open>simp_all add: b'\<close>)
  then show ?thesis by (simp add: b')
qed

theorem cancelled_probes_jam_breaker_witness:
  "let b = (new_breaker ''llm'' default_breaker_config)\<lparr>cb_state := OPEN\<rparr>;
       b' = breaker_events [Begin 30, End 31 Cancelled] b
   in cb_state b' = HALF_OPEN \<and>
      fst (before_call 1000000 b') = Inl (CircuitOpenError ''llm'' 0)"
proof -
  let ?b = "(new_breaker ''llm'' default_breaker_config)\<lparr>cb_state := OPEN\<rparr>"
  have h: "bc_enabled (cb_config ?b)" "valid_breaker_config (cb_config ?b)" "cb_state ?b = OPEN"
    "bc_recovery_timeout_s (cb_config ?b) \<le> 30 - cb_opened_at ?b"
    "1 = bc_half_open_max_calls (cb_config ?b)"
    by (simp_all add: valid_breaker_config_def default_breaker_config_def new_breaker_def)
  show ?thesis
    using cancelled_probes_jam_breaker [OF h refl, where t' = 31 and ts = "[]" and now = 1000000]
    by (simp add: Let_def) (simp add: new_breaker_def)
qed

text \<open>
  \<open>retry_async\<close> (with an \<open>on_retry\<close> callback that does not raise) stops after at most
  \<open>max_retries + 1\<close> attempts and returns what the last attempt did: every earlier attempt failed
  with a retryable error, and the last one succeeded, failed with an error that is not retryable,
  or was the last one allowed. It sleeps at most \<open>max_retries\<close> times, each time for at most
  \<open>max_delay_s\<close>.
\<close>

theorem retry_async_correct:
  assumes "retry_async (Some p) fn (Some retryable) mro (\<lambda>_ _ _. None) = (r, sleeps, n)"
    and "valid_retry_policy p"
  shows "1 \<le> n \<and> n \<le> Suc (rp_max_retries p) \<and> r = fn n \<and>
    (\<forall>j \<in> {1..<n}. \<exists>e. fn j = Inl e \<and> retryable e) \<and>
    (\<forall>e. r = Inl e \<longrightarrow> \<not> retryable e \<or> n = Suc (rp_max_retries p)) \<and>
    length sleeps \<le> rp_max_retries p \<and> (\<forall>d \<in> set sleeps. 0 < d \<and> d \<le> rp_max_delay_s p)"
proof -
  have run: "retry_from p fn retryable (\<lambda>_ _ _. None) 1 = (r, sleeps, n)"
    using assms(1) by (simp add: retry_async_def)
  have spec: "1 \<le> n" "n \<le> Suc (rp_max_retries p)" "r = fn n"
    "\<forall>j \<in> {1..<n}. \<exists>e. fn j = Inl e \<and> retryable e"
    "\<forall>e. r = Inl e \<longrightarrow> \<not> retryable e \<or> n = Suc (rp_max_retries p)"
    "sleeps = filter (\<lambda>d. 0 < d) (map (\<lambda>j. compute_backoff_delay j p 0 0) [1..<n])"
    using retry_from_spec [OF run] by (auto split: sum.splits)
  have "length sleeps \<le> length [1..<n]"
    unfolding spec(6) by (metis length_filter_le length_map)
  with spec backoff_bounds [OF assms(2), where u = 0] show ?thesis by auto
qed

theorem retry_async_correct_witness:
  "retry_async (Some default_retry_policy) (\<lambda>k. if k < 3 then Inl ''TimeoutError'' else Inr k)
     (Some (\<lambda>e. e = ''TimeoutError'')) (\<lambda>e. [e]) (\<lambda>_ _ _. None) = (Inr 3, [1, 2], 3) \<and>
   (3::nat) \<le> Suc (rp_max_retries default_retry_policy)"
proof -
  have run: "retry_async (Some default_retry_policy) (\<lambda>k. if k < 3 then Inl ''TimeoutError'' else Inr k)
     (Some (\<lambda>e. e = ''TimeoutError'')) (\<lambda>e. [e]) (\<lambda>_ _ _. None) = (Inr 3, [1, 2], 3)"
    by (simp add: retry_async_def retry_from.simps default_retry_policy_def compute_backoff_delay_def
        Let_def numeral_eq_Suc)
  have v: "valid_retry_policy default_retry_policy"
    by (simp add: valid_retry_policy_def default_retry_policy_def)
  from retry_async_correct [OF run v] run show ?thesis by blast
qed

end
