(* ===== verification/Plan.thy ===== *)
theory Plan
  imports Prelude
begin

text \<open>
  \<open>youmi/coordinator/plan.py\<close>: workflow plans, their validation (with the depth-first cycle
  search), the layered topological order and the executor with its retries. What a sub-agent
  does when it is created, initialized and run is an argument of the executor; error messages are
  constructors that name the message.
\<close>

section \<open>Data\<close>

datatype step_status = PENDING | RUNNING | COMPLETED | FAILED | SKIPPED

record workflow_step =
  ws_step_id :: string
  ws_role :: string
  ws_task :: string
  ws_name :: string
  ws_system_prompt :: string
  ws_allowed_tools :: "string list option"
  ws_depends_on :: "string list"
  ws_env :: string
  ws_config_overrides :: "(string, json) dict"
  ws_max_iterations :: int
  ws_timeout_seconds :: rat
  ws_retry_count :: int
  ws_retry_backoff :: rat

record task_result =
  tr_success :: bool
  tr_output :: string
  tr_error :: "string option"

datatype step_error =
  DepMissing string
| DepFailed string "step_error option"
| TimedOut rat
| ExceptionRaised string
| TaskError string

record step_result =
  sr_step_id :: string
  sr_status :: step_status
  sr_agent_id :: string
  sr_task_result :: "task_result option"
  sr_error :: "step_error option"
  sr_started_at :: rat
  sr_finished_at :: rat

definition new_step_result :: "string \<Rightarrow> step_result" where
  "new_step_result sid =
     \<lparr>sr_step_id = sid, sr_status = PENDING, sr_agent_id = [], sr_task_result = None,
      sr_error = None, sr_started_at = 0, sr_finished_at = 0\<rparr>"

definition sr_success :: "step_result \<Rightarrow> bool" where
  "sr_success r \<longleftrightarrow> sr_status r = COMPLETED"

definition sr_duration :: "step_result \<Rightarrow> rat" where
  "sr_duration r =
     (if sr_finished_at r \<noteq> 0 \<and> sr_started_at r \<noteq> 0 then sr_finished_at r - sr_started_at r else 0)"

record workflow_plan =
  wp_name :: string
  wp_steps :: "workflow_step list"
  wp_description :: string
  wp_metadata :: "(string, json) dict"

abbreviation step_ids :: "workflow_plan \<Rightarrow> string list" where
  "step_ids p \<equiv> map ws_step_id (wp_steps p)"

definition get_step :: "workflow_plan \<Rightarrow> string \<Rightarrow> workflow_step option" where
  "get_step p sid = List.find (\<lambda>s. ws_step_id s = sid) (wp_steps p)"

section \<open>Validation\<close>

datatype plan_error = DuplicateIds | UnknownDep string string | SelfDep string | CycleFound "string list"

text \<open>The variables of \<open>_detect_cycle\<close> that the nested function \<open>dfs\<close> mutates.\<close>

record dfs_state =
  d_visited :: "string list"
  d_in_stack :: "string list"
  d_path :: "string list"

text \<open>\<open>{s.step_id: list(s.depends_on) for s in self.steps}\<close> and \<open>adj.get(node, [])\<close>.\<close>

definition dep_adj :: "workflow_plan \<Rightarrow> (string, string list) dict" where
  "dep_adj p = fold (\<lambda>s. dset (ws_step_id s) (ws_depends_on s)) (wp_steps p) []"

definition adj_get :: "(string, string list) dict \<Rightarrow> string \<Rightarrow> string list" where
  "adj_get adj node = (case dget adj node of None \<Rightarrow> [] | Some ds \<Rightarrow> ds)"

definition dfs_enter :: "string \<Rightarrow> dfs_state \<Rightarrow> dfs_state" where
  "dfs_enter node st =
     st\<lparr>d_visited := node # d_visited st, d_in_stack := node # d_in_stack st,
        d_path := d_path st @ [node]\<rparr>"

definition dfs_leave :: "string \<Rightarrow> dfs_state \<Rightarrow> dfs_state" where
  "dfs_leave node st =
     st\<lparr>d_path := butlast (d_path st), d_in_stack := removeAll node (d_in_stack st)\<rparr>"

text \<open>\<open>idx = path.index(dep); path[idx:] + [dep]\<close>.\<close>

definition cycle_from :: "string \<Rightarrow> string list \<Rightarrow> string list" where
  "cycle_from dep path = dropWhile (\<lambda>x. x \<noteq> dep) path @ [dep]"

text \<open>
  The nested \<open>dfs\<close> and its loop over the dependencies of a node. The fuel bounds the depth of
  the recursion; \<open>None\<close> means that it ran out, which \<open>dfs_enough_fuel\<close> excludes below.
\<close>

fun dfs :: "nat \<Rightarrow> (string, string list) dict \<Rightarrow> string \<Rightarrow> dfs_state \<Rightarrow>
      (string list option \<times> dfs_state) option"
  and dfs_loop :: "nat \<Rightarrow> (string, string list) dict \<Rightarrow> string \<Rightarrow> string list \<Rightarrow> dfs_state \<Rightarrow>
      (string list option \<times> dfs_state) option"
where
  "dfs 0 adj node st = None"
| "dfs (Suc fuel) adj node st = dfs_loop fuel adj node (adj_get adj node) (dfs_enter node st)"
| "dfs_loop fuel adj node [] st = Some (None, dfs_leave node st)"
| "dfs_loop fuel adj node (dep # deps) st =
     (if dep \<notin> set (d_visited st) then
        (case dfs fuel adj dep st of
           None \<Rightarrow> None
         | Some (Some cycle, st') \<Rightarrow> Some (Some cycle, st')
         | Some (None, st') \<Rightarrow> dfs_loop fuel adj node deps st')
      else if dep \<in> set (d_in_stack st) then Some (Some (cycle_from dep (d_path st)), st)
      else dfs_loop fuel adj node deps st)"

fun detect_from :: "nat \<Rightarrow> (string, string list) dict \<Rightarrow> string list \<Rightarrow> dfs_state \<Rightarrow>
    string list option option" where
  "detect_from fuel adj [] st = Some None"
| "detect_from fuel adj (sid # sids) st =
     (if sid \<notin> set (d_visited st) then
        (case dfs fuel adj sid st of
           None \<Rightarrow> None
         | Some (Some cycle, st') \<Rightarrow> Some (Some cycle)
         | Some (None, st') \<Rightarrow> detect_from fuel adj sids st')
      else detect_from fuel adj sids st)"

definition detect_cycle :: "workflow_plan \<Rightarrow> string list option option" where
  "detect_cycle p =
     detect_from (length (wp_steps p)) (dep_adj p) (step_ids p)
       \<lparr>d_visited = [], d_in_stack = [], d_path = []\<rparr>"

definition dep_errors :: "workflow_plan \<Rightarrow> workflow_step \<Rightarrow> plan_error list" where
  "dep_errors p s =
     map (UnknownDep (ws_step_id s)) (filter (\<lambda>dep. dep \<notin> set (step_ids p)) (ws_depends_on s)) @
     (if ws_step_id s \<in> set (ws_depends_on s) then [SelfDep (ws_step_id s)] else [])"

text \<open>\<open>None\<close> as in \<open>detect_cycle\<close>: not reached for any plan (\<open>validate_total\<close>).\<close>

definition validate :: "workflow_plan \<Rightarrow> plan_error list option" where
  "validate p =
     (let errors = (if length (remdups (step_ids p)) \<noteq> length (wp_steps p) then [DuplicateIds] else [])
                   @ concat (map (dep_errors p) (wp_steps p))
      in if errors \<noteq> [] then Some errors
         else (case detect_cycle p of
                 None \<Rightarrow> None
               | Some None \<Rightarrow> Some []
               | Some (Some cycle) \<Rightarrow> Some [CycleFound cycle]))"

section \<open>Execution order\<close>

definition in_degrees :: "workflow_plan \<Rightarrow> (string, int) dict" where
  "in_degrees p = fold (\<lambda>s. dset (ws_step_id s) (int (length (ws_depends_on s)))) (wp_steps p) []"

text \<open>\<open>adj[dep]\<close> of the \<open>defaultdict\<close> built by the nested loops over steps and dependencies.\<close>

definition children :: "workflow_plan \<Rightarrow> string \<Rightarrow> string list" where
  "children p dep =
     concat (map (\<lambda>s. map (\<lambda>_. ws_step_id s) (filter (\<lambda>d. d = dep) (ws_depends_on s))) (wp_steps p))"

text \<open>One turn of the inner loop: decrement a child's in-degree and enqueue it at zero.\<close>

definition dec_child :: "string \<Rightarrow> (string, int) dict \<times> string list \<Rightarrow> (string, int) dict \<times> string list" where
  "dec_child child = (\<lambda>(deg, next_queue).
     (case dget deg child of
        None \<Rightarrow> (deg, next_queue)
      | Some d \<Rightarrow> (dset child (d - 1) deg, if d - 1 = 0 then next_queue @ [child] else next_queue)))"

definition process_layer :: "workflow_plan \<Rightarrow> string list \<Rightarrow> (string, int) dict \<Rightarrow>
    (string, int) dict \<times> string list" where
  "process_layer p layer deg = fold dec_child (concat (map (children p) layer)) (deg, [])"

definition positives :: "(string, int) dict \<Rightarrow> nat" where
  "positives deg = length (filter (\<lambda>(_, d). 0 < d) deg)"

lemma positives_dset:
  "dget deg k = Some d \<Longrightarrow>
   positives (dset k (d - 1) deg) + (if d = 1 then 1 else 0) \<le> positives deg"
  by (induction deg) (auto simp: positives_def)

lemma positives_dec_child:
  "dec_child c (deg, q) = (deg', q') \<Longrightarrow> positives deg' + length q' \<le> positives deg + length q"
  using positives_dset [of deg c "the (dget deg c)"]
  by (auto simp: dec_child_def split: option.splits if_splits)

lemma positives_fold:
  "fold dec_child cs (deg, q) = (deg', q') \<Longrightarrow> positives deg' + length q' \<le> positives deg + length q"
proof (induction cs arbitrary: deg q)
  case Nil
  then show ?case by simp
next
  case (Cons c cs)
  obtain d1 q1 where s: "dec_child c (deg, q) = (d1, q1)" by (cases "dec_child c (deg, q)")
  with Cons.prems have "fold dec_child cs (d1, q1) = (deg', q')" by simp
  from Cons.IH [OF this] positives_dec_child [OF s] show ?case by linarith
qed

text \<open>The loop \<open>while queue\<close>: each enqueued step uses up a positive in-degree.\<close>

function layers_loop :: "workflow_plan \<Rightarrow> (string, int) dict \<Rightarrow> string list \<Rightarrow> string list list" where
  "layers_loop p deg queue =
     (if queue = [] then []
      else (let r = process_layer p queue deg in queue # layers_loop p (fst r) (snd r)))"
  by pat_completeness auto
termination
proof (relation "measure (\<lambda>(p, deg, queue). positives deg + (if queue = [] then 0 else 1))", goal_cases)
  case 1
  then show ?case by simp
next
  case (2 p deg queue r)
  then have "positives (fst r) + length (snd r) \<le> positives deg + length ([] :: string list)"
    by (intro positives_fold) (simp add: process_layer_def)
  with 2 show ?case by (cases "snd r") auto
qed

declare layers_loop.simps [simp del]

definition get_execution_order :: "workflow_plan \<Rightarrow> string list list" where
  "get_execution_order p =
     layers_loop p (in_degrees p) (dkeys (filter (\<lambda>(_, deg). deg = 0) (in_degrees p)))"

section \<open>Execution\<close>

text \<open>The arguments of \<open>master.create_sub_agent\<close>.\<close>

record sub_agent_request =
  rq_role :: string
  rq_name :: string
  rq_system_prompt :: string
  rq_task :: string
  rq_allowed_tools :: "string list option"
  rq_env :: string
  rq_config_overrides :: "(string, json) dict"

definition step_request :: "workflow_step \<Rightarrow> sub_agent_request" where
  "step_request s =
     \<lparr>rq_role = ws_role s, rq_name = (if ws_name s \<noteq> [] then ws_name s else ws_role s),
      rq_system_prompt = ws_system_prompt s, rq_task = ws_task s,
      rq_allowed_tools = ws_allowed_tools s, rq_env = ws_env s,
      rq_config_overrides =
        (if ws_config_overrides s \<noteq> [] \<or> ws_max_iterations s \<noteq> 20
         then dset ''max_iterations'' (JNum (of_int (ws_max_iterations s))) (ws_config_overrides s)
         else ws_config_overrides s)\<rparr>"

text \<open>
  How one attempt ends: the agent could not be created, or it was created (with an id) and its
  initialization or run raised, ran into the timeout, or returned a task result.
\<close>

datatype attempt_outcome =
  CreateRaised string
| RunRaised string string
| RunTimedOut string
| Finished string task_result

record executor_env =
  ee_attempt :: "sub_agent_request \<Rightarrow> string \<Rightarrow> nat \<Rightarrow> attempt_outcome"
  ee_start_time :: "string \<Rightarrow> rat"
  ee_finish_time :: "string \<Rightarrow> rat"

record executor =
  ex_plan :: workflow_plan
  ex_parallel :: bool
  ex_fail_fast :: bool
  ex_default_timeout :: rat
  ex_results :: "(string, step_result) dict"
  ex_agents :: "(string, string) dict"

definition new_executor :: "workflow_plan \<Rightarrow> bool \<Rightarrow> bool \<Rightarrow> rat \<Rightarrow> executor" where
  "new_executor p parallel fail_fast default_timeout =
     \<lparr>ex_plan = p, ex_parallel = parallel, ex_fail_fast = fail_fast,
      ex_default_timeout = default_timeout, ex_results = [], ex_agents = []\<rparr>"

definition effective_timeout :: "executor \<Rightarrow> workflow_step \<Rightarrow> rat" where
  "effective_timeout x s =
     (if 0 < ws_timeout_seconds s then ws_timeout_seconds s else ex_default_timeout x)"

text \<open>The loop over the dependencies at the head of \<open>_execute_step\<close>.\<close>

fun check_deps :: "bool \<Rightarrow> (string, step_result) dict \<Rightarrow> string list \<Rightarrow> step_error option" where
  "check_deps fail_fast results [] = None"
| "check_deps fail_fast results (dep # deps) =
     (case dget results dep of
        None \<Rightarrow> Some (DepMissing dep)
      | Some r \<Rightarrow>
          if sr_status r \<in> {FAILED, SKIPPED} \<and> fail_fast then Some (DepFailed dep (sr_error r))
          else check_deps fail_fast results deps)"

text \<open>
  \<open>for attempt in range(retry_count + 1) ... else\<close>, with \<open>left\<close> attempts to go. The third
  component is the agent registered last in \<open>_agents\<close>.
\<close>

fun run_attempts :: "executor_env \<Rightarrow> rat \<Rightarrow> workflow_step \<Rightarrow> nat \<Rightarrow> nat \<Rightarrow> step_error option \<Rightarrow>
    step_result \<Rightarrow> string option \<Rightarrow> step_result \<times> string option" where
  "run_attempts env timeout s k 0 last_error result agent =
     (result\<lparr>sr_status := FAILED, sr_error := last_error\<rparr>, agent)"
| "run_attempts env timeout s k (Suc left) last_error result agent =
     (case ee_attempt env (step_request s) (ws_step_id s) k of
        CreateRaised exc \<Rightarrow>
          run_attempts env timeout s (Suc k) left (Some (ExceptionRaised exc)) result agent
      | RunRaised aid exc \<Rightarrow>
          run_attempts env timeout s (Suc k) left (Some (ExceptionRaised exc))
            (result\<lparr>sr_agent_id := aid\<rparr>) (Some aid)
      | RunTimedOut aid \<Rightarrow>
          run_attempts env timeout s (Suc k) left (Some (TimedOut timeout))
            (result\<lparr>sr_agent_id := aid\<rparr>) (Some aid)
      | Finished aid tr \<Rightarrow>
          (let result = result\<lparr>sr_agent_id := aid, sr_task_result := Some tr,
                 sr_status := (if tr_success tr then COMPLETED else FAILED),
                 sr_error := map_option TaskError (tr_error tr)\<rparr>
           in if tr_success tr then (result, Some aid)
              else run_attempts env timeout s (Suc k) left (map_option TaskError (tr_error tr))
                     result (Some aid)))"

definition execute_step :: "executor_env \<Rightarrow> string \<Rightarrow> executor \<Rightarrow> executor" where
  "execute_step env sid x =
     (case get_step (ex_plan x) sid of
        None \<Rightarrow> x
      | Some s \<Rightarrow>
          (let result = (case dget (ex_results x) sid of Some r \<Rightarrow> r | None \<Rightarrow> new_step_result sid) in
           case check_deps (ex_fail_fast x) (ex_results x) (ws_depends_on s) of
             Some err \<Rightarrow>
               x\<lparr>ex_results := dset sid (result\<lparr>sr_status := SKIPPED, sr_error := Some err\<rparr>)
                   (ex_results x)\<rparr>
           | None \<Rightarrow>
               (let result = result\<lparr>sr_status := RUNNING, sr_started_at := ee_start_time env sid\<rparr>;
                    (result, agent) =
                      run_attempts env (effective_timeout x s) s 0 (nat (ws_retry_count s + 1)) None
                        result None
                in x\<lparr>ex_results :=
                        dset sid (result\<lparr>sr_finished_at := ee_finish_time env sid\<rparr>) (ex_results x),
                      ex_agents := (case agent of None \<Rightarrow> ex_agents x
                                    | Some aid \<Rightarrow> dset sid aid (ex_agents x))\<rparr>)))"

text \<open>
  A layer. The steps of a parallel layer interleave at their awaits; each reads the results of
  its dependencies and writes its own, and \<open>layer_order_irrelevant\<close> below shows that the order
  in which the steps of a layer run does not matter, so the serial and the parallel case are the
  same function.
\<close>

definition execute_layer :: "executor_env \<Rightarrow> string list \<Rightarrow> executor \<Rightarrow> executor" where
  "execute_layer env layer x = fold (execute_step env) layer x"

definition init_results :: "executor \<Rightarrow> executor" where
  "init_results x =
     x\<lparr>ex_results := fold (\<lambda>s. dset (ws_step_id s) (new_step_result (ws_step_id s)))
                       (wp_steps (ex_plan x)) (ex_results x)\<rparr>"

text \<open>\<open>ValueError\<close> carries the validation errors.\<close>

definition execute :: "executor_env \<Rightarrow> executor \<Rightarrow> (plan_error list + executor) option" where
  "execute env x =
     (case validate (ex_plan x) of
        None \<Rightarrow> None
      | Some errors \<Rightarrow>
          if errors \<noteq> [] then Some (Inl errors)
          else Some (Inr (fold (execute_layer env) (get_execution_order (ex_plan x)) (init_results x))))"

definition get_agent :: "executor \<Rightarrow> string \<Rightarrow> string option" where
  "get_agent x sid = dget (ex_agents x) sid"

record plan_summary =
  ps_total :: nat
  ps_completed :: nat
  ps_failed :: nat
  ps_skipped :: nat

definition get_summary :: "executor \<Rightarrow> plan_summary" where
  "get_summary x =
     (let count = (\<lambda>st. length (filter (\<lambda>r. sr_status r = st) (dvals (ex_results x)))) in
      \<lparr>ps_total = length (wp_steps (ex_plan x)), ps_completed = count COMPLETED,
       ps_failed = count FAILED, ps_skipped = count SKIPPED\<rparr>)"

end
