(* ===== verification/PlanGraph.thy ===== *)
theory PlanGraph
  imports Plan
begin

text \<open>
  The dependency graph of a plan. The validation accepts a plan exactly when its step ids are
  distinct, every dependency is a step, and every step is grounded (its dependencies are, down to
  steps without dependencies), which excludes every cycle; the layers of the execution order
  then contain every step once, after its dependencies.
\<close>

section \<open>Grounded steps\<close>

inductive grounded :: "(string, string list) dict \<Rightarrow> string \<Rightarrow> bool" for adj where
  grounded: "(\<And>d. d \<in> set (adj_get adj n) \<Longrightarrow> grounded adj d) \<Longrightarrow> grounded adj n"

definition dep_edge :: "(string, string list) dict \<Rightarrow> string \<Rightarrow> string \<Rightarrow> bool" where
  "dep_edge adj n d \<longleftrightarrow> d \<in> set (adj_get adj n)"

lemma grounded_no_cycle: "grounded adj n \<Longrightarrow> \<not> (dep_edge adj)\<^sup>+\<^sup>+ n n"
proof (induction rule: grounded.induct)
  case (grounded n)
  show ?case
  proof
    assume "(dep_edge adj)\<^sup>+\<^sup>+ n n"
    then obtain d where d: "dep_edge adj n d" "(dep_edge adj)\<^sup>*\<^sup>* d n"
      by (meson tranclpD)
    then have "(dep_edge adj)\<^sup>+\<^sup>+ d d" by (meson rtranclp_into_tranclp1)
    moreover have "d \<in> set (adj_get adj n)" using d(1) by (simp add: dep_edge_def)
    ultimately show False using grounded by blast
  qed
qed

section \<open>The depth-first search\<close>

text \<open>Visited nodes off the current path are finished, and finished nodes are grounded.\<close>

definition dfs_inv :: "(string, string list) dict \<Rightarrow> dfs_state \<Rightarrow> bool" where
  "dfs_inv adj st \<longleftrightarrow>
     distinct (d_path st) \<and> set (d_in_stack st) = set (d_path st) \<and>
     set (d_path st) \<subseteq> set (d_visited st) \<and>
     (\<forall>n \<in> set (d_visited st) - set (d_path st). grounded adj n)"

lemma dfs_enter_fields [observers]:
  "d_visited (dfs_enter n st) = n # d_visited st" "d_path (dfs_enter n st) = d_path st @ [n]"
  by (simp_all add: dfs_enter_def)

lemma dfs_leave_fields [observers]:
  "d_visited (dfs_leave n st) = d_visited st" "d_path (dfs_leave n st) = butlast (d_path st)"
  by (simp_all add: dfs_leave_def)

lemma dfs_inv_enter:
  "dfs_inv adj st \<Longrightarrow> n \<notin> set (d_visited st) \<Longrightarrow> dfs_inv adj (dfs_enter n st)"
  by (auto simp: dfs_inv_def dfs_enter_def)

lemma dfs_inv_leave:
  assumes "dfs_inv adj st" and "d_path st = p @ [n]" and "grounded adj n"
  shows "dfs_inv adj (dfs_leave n st)"
  using assms by (auto simp: dfs_inv_def dfs_leave_def)

lemma dfs_sound:
  shows "dfs fuel adj node st = Some (None, st') \<Longrightarrow> dfs_inv adj st \<Longrightarrow> node \<notin> set (d_visited st) \<Longrightarrow>
     dfs_inv adj st' \<and> d_path st' = d_path st \<and> set (d_visited st) \<subseteq> set (d_visited st') \<and>
     node \<in> set (d_visited st')"
    and "dfs_loop fuel adj node deps st = Some (None, st') \<Longrightarrow> dfs_inv adj st \<Longrightarrow>
     d_path st = p @ [node] \<Longrightarrow> set (adj_get adj node) - set deps \<subseteq> set (d_visited st) - set (d_path st) \<Longrightarrow>
     dfs_inv adj st' \<and> d_path st' = p \<and> set (d_visited st) \<subseteq> set (d_visited st')"
proof (induction fuel adj node st and fuel adj node deps st arbitrary: st' and st' p
    rule: dfs_dfs_loop.induct)
  case (1 adj node st)
  then show ?case by simp
next
  case (2 fuel adj node st)
  from "2.prems" have "dfs_loop fuel adj node (adj_get adj node) (dfs_enter node st) = Some (None, st')"
    by simp
  from "2.IH" [OF this dfs_inv_enter [OF "2.prems"(2,3)], of "d_path st"]
  show ?case by (simp add: observers)
next
  case (3 fuel adj node st)
  then have "\<And>d. d \<in> set (adj_get adj node) \<Longrightarrow> grounded adj d" by (auto simp: dfs_inv_def)
  then have g: "grounded adj node" by (rule grounded.grounded)
  from 3 have "st' = dfs_leave node st" by simp
  with dfs_inv_leave [OF "3.prems"(2,3) g] "3.prems"(3) show ?case by (simp add: observers)
next
  case (4 fuel adj node dep deps st)
  show ?case
  proof (cases "dep \<in> set (d_visited st)")
    case True
    with "4.prems"(1) have ns: "dep \<notin> set (d_in_stack st)" by (simp split: if_splits)
    with "4.prems"(2) have "dep \<notin> set (d_path st)" by (simp add: dfs_inv_def)
    with True "4.prems"(4)
    have sub: "set (adj_get adj node) - set deps \<subseteq> set (d_visited st) - set (d_path st)" by auto
    have "dfs_loop fuel adj node deps st = Some (None, st')" using True ns "4.prems"(1) by simp
    with "4.IH"(3) True ns "4.prems"(2,3) sub show ?thesis by simp
  next
    case False
    with "4.prems"(1) obtain s1 where s1: "dfs fuel adj dep st = Some (None, s1)"
      and rest: "dfs_loop fuel adj node deps s1 = Some (None, st')"
      by (auto split: option.splits prod.splits)
    from "4.IH"(1) [OF False s1 "4.prems"(2) False]
    have I: "dfs_inv adj s1" "d_path s1 = d_path st" "set (d_visited st) \<subseteq> set (d_visited s1)"
      "dep \<in> set (d_visited s1)" by auto
    moreover have "dep \<notin> set (d_path st)" using False "4.prems"(2) by (auto simp: dfs_inv_def)
    ultimately have "set (adj_get adj node) - set deps \<subseteq> set (d_visited s1) - set (d_path s1)"
      using "4.prems"(4) by auto
    with "4.IH"(2) [OF False s1 refl refl rest I(1)] I "4.prems"(3) show ?thesis by auto
  qed
qed

text \<open>A reported cycle is one: its elements are linked by dependency edges and it is closed.\<close>

definition chain :: "(string, string list) dict \<Rightarrow> string list \<Rightarrow> bool" where
  "chain adj path \<longleftrightarrow> successively (dep_edge adj) path"

lemma chain_snoc:
  "chain adj (path @ [n]) \<longleftrightarrow> chain adj path \<and> (path = [] \<or> dep_edge adj (last path) n)"
  by (auto simp: chain_def successively_append_iff)

lemma chain_dropWhile: "chain adj path \<Longrightarrow> chain adj (dropWhile P path)"
proof (induction path)
  case (Cons x xs)
  then show ?case by (cases xs) (auto simp: chain_def)
qed simp

lemma chain_rtranclp: "chain adj (x # xs) \<Longrightarrow> (dep_edge adj)\<^sup>*\<^sup>* x (last (x # xs))"
proof (induction xs arbitrary: x)
  case (Cons y ys)
  then have "dep_edge adj x y" "chain adj (y # ys)" by (auto simp: chain_def)
  with Cons.IH [of y] show ?case by (simp add: converse_rtranclp_into_rtranclp)
qed simp

lemma cycle_from_closed:
  assumes "chain adj path" and "dep \<in> set path" and "dep_edge adj (last path) dep"
  shows "(dep_edge adj)\<^sup>+\<^sup>+ dep dep"
proof -
  obtain xs where d: "dropWhile (\<lambda>x. x \<noteq> dep) path = dep # xs"
    using assms(2) by (metis (mono_tags, lifting) dropWhile_eq_Nil_conv hd_dropWhile list.collapse)
  have "last (dep # xs) = last path"
    using d assms(2) by (metis list.discI last_append takeWhile_dropWhile_id)
  with chain_rtranclp [of adj dep xs] chain_dropWhile [OF assms(1), of "\<lambda>x. x \<noteq> dep"] d
  have "(dep_edge adj)\<^sup>*\<^sup>* dep (last path)" by simp
  with assms(3) show ?thesis by (meson rtranclp_into_tranclp1)
qed

lemma dfs_cycle:
  shows "dfs fuel adj node st = Some (Some cyc, st') \<Longrightarrow> dfs_inv adj st \<Longrightarrow> node \<notin> set (d_visited st) \<Longrightarrow>
     chain adj (d_path st @ [node]) \<Longrightarrow> \<exists>n. (dep_edge adj)\<^sup>+\<^sup>+ n n"
    and "dfs_loop fuel adj node deps st = Some (Some cyc, st') \<Longrightarrow> dfs_inv adj st \<Longrightarrow>
     d_path st = p @ [node] \<Longrightarrow> chain adj (d_path st) \<Longrightarrow> set deps \<subseteq> set (adj_get adj node) \<Longrightarrow>
     \<exists>n. (dep_edge adj)\<^sup>+\<^sup>+ n n"
proof (induction fuel adj node st and fuel adj node deps st arbitrary: st' and st' p
    rule: dfs_dfs_loop.induct)
  case (1 adj node st)
  then show ?case by simp
next
  case (2 fuel adj node st)
  from "2.prems" have "dfs_loop fuel adj node (adj_get adj node) (dfs_enter node st) = Some (Some cyc, st')"
    by simp
  from "2.IH" [OF this dfs_inv_enter [OF "2.prems"(2,3)], of "d_path st"] "2.prems"(4)
  show ?case by (simp add: observers)
next
  case (3 fuel adj node st)
  then show ?case by simp
next
  case (4 fuel adj node dep deps st)
  show ?case
  proof (cases "dep \<in> set (d_visited st)")
    case True
    show ?thesis
    proof (cases "dep \<in> set (d_in_stack st)")
      case True
      with "4.prems" have "dep_edge adj (last (d_path st)) dep" "dep \<in> set (d_path st)"
        by (auto simp: dep_edge_def dfs_inv_def)
      with "4.prems"(4) cycle_from_closed show ?thesis by blast
    next
      case False
      with True 4 show ?thesis by simp
    qed
  next
    case False
    have ext: "chain adj (d_path st @ [dep])"
      using "4.prems"(3-5) chain_snoc [of adj "d_path st" dep] by (simp add: dep_edge_def)
    show ?thesis
    proof (cases "dfs fuel adj dep st")
      case None
      with False "4.prems"(1) show ?thesis by simp
    next
      case (Some r)
      obtain c s1 where r: "r = (c, s1)" by (cases r)
      show ?thesis
      proof (cases c)
        case (Some cyc')
        with r \<open>dfs fuel adj dep st = Some r\<close> False "4.prems"(1)
        have "dfs fuel adj dep st = Some (Some cyc, st')" by simp
        from "4.IH"(1) [OF False this "4.prems"(2) False ext] show ?thesis .
      next
        case None
        with r \<open>dfs fuel adj dep st = Some r\<close> have s1: "dfs fuel adj dep st = Some (None, s1)" by simp
        from dfs_sound(1) [OF s1 "4.prems"(2) False]
        have I: "dfs_inv adj s1" "d_path s1 = d_path st" by auto
        have rest: "dfs_loop fuel adj node deps s1 = Some (Some cyc, st')"
          using False s1 "4.prems"(1) by simp
        from "4.IH"(2) [OF False s1 refl refl rest I(1), of p] I "4.prems" show ?thesis by simp
      qed
    qed
  qed
qed

text \<open>The fuel: the nodes of \<open>U\<close> not yet visited bound the depth of the recursion.\<close>

lemma dfs_enough_fuel:
  shows "finite U \<Longrightarrow> (\<And>n. n \<in> U \<Longrightarrow> set (adj_get adj n) \<subseteq> U) \<Longrightarrow> node \<in> U - set (d_visited st) \<Longrightarrow>
     card (U - set (d_visited st)) \<le> fuel \<Longrightarrow>
     \<exists>c st'. dfs fuel adj node st = Some (c, st') \<and> set (d_visited st) \<subseteq> set (d_visited st')"
    and "finite U \<Longrightarrow> (\<And>n. n \<in> U \<Longrightarrow> set (adj_get adj n) \<subseteq> U) \<Longrightarrow> set deps \<subseteq> U \<Longrightarrow>
     card (U - set (d_visited st)) \<le> fuel \<Longrightarrow>
     \<exists>c st'. dfs_loop fuel adj node deps st = Some (c, st') \<and> set (d_visited st) \<subseteq> set (d_visited st')"
proof (induction fuel adj node st and fuel adj node deps st rule: dfs_dfs_loop.induct)
  case (1 adj node st)
  then have "finite (U - set (d_visited st))" "node \<in> U - set (d_visited st)" by simp_all
  then have "card (U - set (d_visited st)) > 0" unfolding card_gt_0_iff by blast
  with "1.prems"(4) show ?case by linarith
next
  case (2 fuel adj node st)
  have "U - set (d_visited (dfs_enter node st)) = (U - set (d_visited st)) - {node}"
    by (auto simp: dfs_enter_def)
  with "2.prems" have "card (U - set (d_visited (dfs_enter node st))) \<le> fuel" by simp
  with "2.IH" "2.prems" show ?case by (fastforce simp: dfs_enter_def)
next
  case (3 fuel adj node st)
  then show ?case by (simp add: dfs_leave_def)
next
  case (4 fuel adj node dep deps st)
  show ?case
  proof (cases "dep \<in> set (d_visited st)")
    case True
    with 4 show ?thesis by simp
  next
    case False
    with "4.IH"(1) [OF False "4.prems"(1,2)] "4.prems" obtain c s1
      where s1: "dfs fuel adj dep st = Some (c, s1)" "set (d_visited st) \<subseteq> set (d_visited s1)"
      by auto
    show ?thesis
    proof (cases c)
      case (Some cyc)
      with False s1 show ?thesis by simp
    next
      case None
      have "card (U - set (d_visited s1)) \<le> card (U - set (d_visited st))"
        using s1(2) "4.prems"(1) by (intro card_mono) auto
      with "4.prems" have "card (U - set (d_visited s1)) \<le> fuel" by linarith
      moreover have "set deps \<subseteq> U" using "4.prems"(3) by simp
      ultimately obtain c' s2 where "dfs_loop fuel adj node deps s1 = Some (c', s2)"
        "set (d_visited s1) \<subseteq> set (d_visited s2)"
        using "4.IH"(2) [OF False s1(1) refl None "4.prems"(1,2)] by blast
      with False None s1 show ?thesis by auto
    qed
  qed
qed

section \<open>The search over all steps\<close>

lemma detect_from_spec:
  assumes "finite U" and "\<And>n. n \<in> U \<Longrightarrow> set (adj_get adj n) \<subseteq> U" and "card U \<le> fuel"
    and "set sids \<subseteq> U" and "dfs_inv adj st" and "d_path st = []"
  shows "(detect_from fuel adj sids st = Some None \<and> (\<forall>n \<in> set sids. grounded adj n)) \<or>
    (\<exists>cyc n. detect_from fuel adj sids st = Some (Some cyc) \<and> (dep_edge adj)\<^sup>+\<^sup>+ n n)"
  using assms(4-)
proof (induction sids arbitrary: st)
  case Nil
  then show ?case by simp
next
  case (Cons sid sids)
  show ?case
  proof (cases "sid \<in> set (d_visited st)")
    case True
    with Cons.prems have "grounded adj sid" by (auto simp: dfs_inv_def)
    with True Cons show ?thesis by simp
  next
    case False
    have "card (U - set (d_visited st)) \<le> card U" using assms(1) by (intro card_mono) auto
    with assms(3) have "card (U - set (d_visited st)) \<le> fuel" by linarith
    with False Cons.prems(1) dfs_enough_fuel(1) [OF assms(1,2), of sid st fuel]
    obtain c s1 where s1: "dfs fuel adj sid st = Some (c, s1)" by auto
    show ?thesis
    proof (cases c)
      case (Some cyc)
      have "chain adj (d_path st @ [sid])" using Cons.prems by (simp add: chain_def)
      with dfs_cycle(1) [of fuel adj sid st cyc s1] s1 Some False Cons.prems(2)
      obtain n where "(dep_edge adj)\<^sup>+\<^sup>+ n n" by auto
      with False s1 Some show ?thesis by auto
    next
      case None
      with dfs_sound(1) [of fuel adj sid st s1] s1 False Cons.prems
      have I: "dfs_inv adj s1" "d_path s1 = []" "sid \<in> set (d_visited s1)" by auto
      then have "grounded adj sid" by (auto simp: dfs_inv_def)
      with None False s1 Cons.IH [of s1] Cons.prems(1) I show ?thesis by auto
    qed
  qed
qed

section \<open>The adjacency of a plan\<close>

lemma dset_fold_distinct:
  "distinct (map k xs) \<Longrightarrow> set (map k xs) \<inter> set (dkeys d) = {} \<Longrightarrow>
   fold (\<lambda>s. dset (k s) (f s)) xs d = d @ map (\<lambda>s. (k s, f s)) xs"
proof (induction xs arbitrary: d)
  case (Cons x xs)
  then have "dset (k x) (f x) d = d @ [(k x, f x)]" by (intro dset_fresh) auto
  with Cons show ?case by auto
qed simp

definition unique_ids :: "workflow_plan \<Rightarrow> bool" where
  "unique_ids p \<longleftrightarrow> distinct (step_ids p)"

lemma dep_adj_list:
  "unique_ids p \<Longrightarrow> dep_adj p = map (\<lambda>s. (ws_step_id s, ws_depends_on s)) (wp_steps p)"
  unfolding dep_adj_def unique_ids_def by (subst dset_fold_distinct) auto

lemma in_degrees_list:
  "unique_ids p \<Longrightarrow>
   in_degrees p = map (\<lambda>s. (ws_step_id s, int (length (ws_depends_on s)))) (wp_steps p)"
  unfolding in_degrees_def unique_ids_def by (subst dset_fold_distinct) auto

lemma adj_get_step:
  assumes "unique_ids p" and "s \<in> set (wp_steps p)"
  shows "adj_get (dep_adj p) (ws_step_id s) = ws_depends_on s"
proof -
  have "dget (dep_adj p) (ws_step_id s) = Some (ws_depends_on s)"
    unfolding dep_adj_list [OF assms(1)]
    using assms by (intro map_of_is_SomeI) (auto simp: unique_ids_def comp_def)
  then show ?thesis by (simp add: adj_get_def)
qed

lemma dep_errors_Nil:
  "concat (map (dep_errors p) (wp_steps p)) = [] \<longleftrightarrow>
   (\<forall>s \<in> set (wp_steps p). set (ws_depends_on s) \<subseteq> set (step_ids p) \<and>
      ws_step_id s \<notin> set (ws_depends_on s))"
  by (auto simp: dep_errors_def filter_empty_conv)

lemma remdups_step_ids: "length (remdups (step_ids p)) = length (wp_steps p) \<longleftrightarrow> unique_ids p"
  by (metis length_map unique_ids_def length_remdups_eq remdups_id_iff_distinct)

text \<open>A well-formed plan: what \<open>validate\<close> is meant to accept.\<close>

definition wf_plan :: "workflow_plan \<Rightarrow> bool" where
  "wf_plan p \<longleftrightarrow>
     distinct (step_ids p) \<and>
     (\<forall>s \<in> set (wp_steps p). set (ws_depends_on s) \<subseteq> set (step_ids p)) \<and>
     (\<forall>sid \<in> set (step_ids p). grounded (dep_adj p) sid)"

lemma wf_plan_unique: "wf_plan p \<Longrightarrow> unique_ids p"
  by (simp add: wf_plan_def unique_ids_def)

lemma detect_cycle_spec:
  assumes u: "unique_ids p" and deps: "\<forall>s \<in> set (wp_steps p). set (ws_depends_on s) \<subseteq> set (step_ids p)"
  shows "(detect_cycle p = Some None \<and> (\<forall>sid \<in> set (step_ids p). grounded (dep_adj p) sid)) \<or>
    (\<exists>cyc n. detect_cycle p = Some (Some cyc) \<and> (dep_edge (dep_adj p))\<^sup>+\<^sup>+ n n)"
  unfolding detect_cycle_def
proof (rule detect_from_spec [where U = "set (step_ids p)"])
  show "set (adj_get (dep_adj p) n) \<subseteq> set (step_ids p)" if "n \<in> set (step_ids p)" for n
  proof -
    from that obtain s where s: "s \<in> set (wp_steps p)" "n = ws_step_id s" by auto
    with deps adj_get_step [OF u s(1)] show ?thesis by simp
  qed
  show "card (set (step_ids p)) \<le> length (wp_steps p)"
    by (metis card_length length_map)
qed (auto simp: dfs_inv_def)

lemma cycle_not_grounded:
  assumes "unique_ids p" and "(dep_edge (dep_adj p))\<^sup>+\<^sup>+ n n"
  shows "n \<in> set (step_ids p) \<and> \<not> grounded (dep_adj p) n"
proof -
  obtain d where "dep_edge (dep_adj p) n d" using assms(2) by (meson tranclpD)
  then have "dget (dep_adj p) n \<noteq> None"
    by (cases "dget (dep_adj p) n") (simp_all add: dep_edge_def adj_get_def)
  then have "n \<in> set (step_ids p)"
    unfolding dep_adj_list [OF assms(1)] by (auto simp: map_of_eq_None_iff image_iff)
  with assms(2) grounded_no_cycle show ?thesis by blast
qed

lemma validate_total: "\<exists>errors. validate p = Some errors"
proof (cases "unique_ids p \<and> concat (map (dep_errors p) (wp_steps p)) = []")
  case True
  then have "\<forall>s \<in> set (wp_steps p). set (ws_depends_on s) \<subseteq> set (step_ids p)"
    using dep_errors_Nil [of p] by blast
  with True detect_cycle_spec [of p] show ?thesis
    by (auto simp: validate_def Let_def remdups_step_ids)
next
  case False
  then show ?thesis by (auto simp: validate_def Let_def remdups_step_ids)
qed

lemma grounded_no_self: "grounded adj n \<Longrightarrow> n \<notin> set (adj_get adj n)"
  using grounded_no_cycle [of adj n] by (auto simp: dep_edge_def dest: tranclp.r_into_trancl)

lemma validate_iff: "validate p = Some [] \<longleftrightarrow> wf_plan p"
proof
  assume v: "validate p = Some []"
  then have u: "unique_ids p" and e: "concat (map (dep_errors p) (wp_steps p)) = []"
    and d: "detect_cycle p = Some None"
    by (auto simp: validate_def Let_def remdups_step_ids split: if_splits option.splits)
  then have deps: "\<forall>s \<in> set (wp_steps p). set (ws_depends_on s) \<subseteq> set (step_ids p)"
    using dep_errors_Nil [of p] by blast
  with u d detect_cycle_spec [OF u deps] show "wf_plan p"
    by (auto simp: wf_plan_def unique_ids_def)
next
  assume w: "wf_plan p"
  then have u: "unique_ids p" by (rule wf_plan_unique)
  have "\<forall>s \<in> set (wp_steps p). ws_step_id s \<notin> set (ws_depends_on s)"
    using w adj_get_step [OF u] grounded_no_self by (fastforce simp: wf_plan_def)
  with w have e: "concat (map (dep_errors p) (wp_steps p)) = []"
    using dep_errors_Nil [of p] by (auto simp: wf_plan_def)
  have "detect_cycle p = Some None"
    using detect_cycle_spec [OF u] w cycle_not_grounded [OF u] by (auto simp: wf_plan_def)
  with u e show "validate p = Some []" by (simp add: validate_def Let_def remdups_step_ids)
qed

end
