(* ===== verification/PlanExec.thy ===== *)
theory PlanExec
  imports PlanGraph "HOL-Library.Multiset"
begin

text \<open>
  The layers that \<open>get_execution_order\<close> computes for a valid plan (Kahn's algorithm on the
  in-degrees), and what \<open>PlanExecutor.execute\<close> leaves in its result table: the solution of the
  equations that say how a step is settled once its dependencies are, which does not depend on the
  order in which the steps of a layer run.
\<close>

section \<open>Decrementing the in-degrees\<close>

abbreviation deps_of :: "workflow_plan \<Rightarrow> string \<Rightarrow> string list" where
  "deps_of p n \<equiv> adj_get (dep_adj p) n"

lemma dec_child_None: "dget deg c = None \<Longrightarrow> dec_child c (deg, q) = (deg, q)"
  by (simp add: dec_child_def)

lemma dec_child_Some:
  "dget deg c = Some v \<Longrightarrow>
   dec_child c (deg, q) = (dset c (v - 1) deg, if v - 1 = 0 then q @ [c] else q)"
  by (simp add: dec_child_def)

lemma dec_child_fold:
  "fold dec_child cs (deg, q) = (deg', q') \<Longrightarrow>
   (\<forall>n. dget deg' n = map_option (\<lambda>v. v - int (count_list cs n)) (dget deg n)) \<and>
   (\<exists>r. q' = q @ r \<and> distinct r \<and>
      set r = {n. \<exists>v. dget deg n = Some v \<and> 0 < v \<and> v \<le> int (count_list cs n)})"
proof (induction cs arbitrary: deg q)
  case Nil
  then show ?case by (auto simp: option.map_ident)
next
  case (Cons c cs)
  show ?case
  proof (cases "dget deg c")
    case None
    with Cons.prems have "fold dec_child cs (deg, q) = (deg', q')" by (simp add: dec_child_None)
    from Cons.IH [OF this] None show ?thesis by (auto split: if_splits)
  next
    case (Some v)
    define deg1 where "deg1 = dset c (v - 1) deg"
    define q1 where "q1 = (if v - 1 = 0 then q @ [c] else q)"
    have "fold dec_child cs (deg1, q1) = (deg', q')"
      using Cons.prems Some by (simp add: dec_child_Some deg1_def q1_def)
    from Cons.IH [OF this] obtain r where d: "\<forall>n. dget deg' n =
        map_option (\<lambda>v. v - int (count_list cs n)) (dget deg1 n)"
      and r: "q' = q1 @ r" "distinct r"
        "set r = {n. \<exists>v. dget deg1 n = Some v \<and> 0 < v \<and> v \<le> int (count_list cs n)}" by blast
    have 1: "dget deg' n = map_option (\<lambda>v. v - int (count_list (c # cs) n)) (dget deg n)" for n
      using d Some by (simp add: deg1_def)
    define r1 where "r1 = (if v - 1 = 0 then c # r else r)"
    have "q' = q @ r1" using r by (simp add: q1_def r1_def)
    moreover have "distinct r1" using r Some by (simp add: r1_def deg1_def)
    moreover have "n \<in> set r1 \<longleftrightarrow>
        (\<exists>v. dget deg n = Some v \<and> 0 < v \<and> v \<le> int (count_list (c # cs) n))" for n
    proof -
      have "n \<in> set r \<longleftrightarrow> (\<exists>v. dget deg1 n = Some v \<and> 0 < v \<and> v \<le> int (count_list cs n))"
        using r(3) by simp
      then show ?thesis using Some by (cases "n = c") (auto simp: r1_def deg1_def)
    qed
    then have "set r1 = {n. \<exists>v. dget deg n = Some v \<and> 0 < v \<and> v \<le> int (count_list (c # cs) n)}"
      by blast
    ultimately show ?thesis using 1 \<open>set r1 = _\<close> by blast
  qed
qed

lemma count_list_const: "count_list (map (\<lambda>_. c) xs) n = (if c = n then length xs else 0)"
  by (induction xs) auto

lemma count_list_concat: "count_list (concat xss) n = sum_list (map (\<lambda>xs. count_list xs n) xss)"
  by (induction xss) auto

lemma sum_list_single:
  "distinct (map k xs) \<Longrightarrow> x \<in> set xs \<Longrightarrow>
   sum_list (map (\<lambda>s. if k s = k x then f s else 0) xs) = (f x :: nat)"
proof (induction xs)
  case (Cons y ys)
  have z: "sum_list (map (\<lambda>s. if k s = k x then f s else 0) ys) = 0" if "k x \<notin> k ` set ys"
    using that by (induction ys) auto
  show ?case
  proof (cases "y = x")
    case True
    with Cons.prems z show ?thesis by simp
  next
    case False
    with Cons show ?thesis by auto
  qed
qed simp

lemma count_children:
  assumes u: "unique_ids p" and n: "n \<in> set (step_ids p)"
  shows "count_list (children p dep) n = length (filter (\<lambda>d. d = dep) (deps_of p n))"
proof -
  from n obtain s where s: "s \<in> set (wp_steps p)" "n = ws_step_id s" by auto
  have "count_list (children p dep) n = sum_list (map (\<lambda>s'. if ws_step_id s' = ws_step_id s
      then length (filter (\<lambda>d. d = dep) (ws_depends_on s')) else 0) (wp_steps p))"
    by (simp add: children_def count_list_concat comp_def count_list_const s(2))
  also have "\<dots> = length (filter (\<lambda>d. d = dep) (ws_depends_on s))"
    using u s(1) by (intro sum_list_single) (simp_all add: unique_ids_def)
  finally show ?thesis using s adj_get_step [OF u s(1)] by simp
qed

lemma length_filter_insert:
  "x \<notin> A \<Longrightarrow> length (filter (\<lambda>d. d = x \<or> d \<in> A) xs) =
   length (filter (\<lambda>d. d = x) xs) + length (filter (\<lambda>d. d \<in> A) xs)"
  by (induction xs) auto

lemma count_layer:
  assumes "unique_ids p" and "n \<in> set (step_ids p)" and "distinct layer"
  shows "count_list (concat (map (children p) layer)) n =
    length (filter (\<lambda>d. d \<in> set layer) (deps_of p n))"
  using assms(3)
proof (induction layer)
  case (Cons x xs)
  then show ?case using count_children [OF assms(1,2), of x]
    by (simp add: length_filter_insert)
qed simp

section \<open>The layers\<close>

text \<open>Layers that respect the dependencies, after the steps of \<open>D\<close>.\<close>

fun layered :: "workflow_plan \<Rightarrow> string set \<Rightarrow> string list list \<Rightarrow> bool" where
  "layered p D [] = True"
| "layered p D (l # ls) =
     (l \<noteq> [] \<and> distinct l \<and> set l \<inter> D = {} \<and> (\<forall>n \<in> set l. set (deps_of p n) \<subseteq> D) \<and>
      layered p (D \<union> set l) ls)"

definition kahn_inv :: "workflow_plan \<Rightarrow> string set \<Rightarrow> (string, int) dict \<Rightarrow> string list \<Rightarrow> bool" where
  "kahn_inv p D deg queue \<longleftrightarrow>
     (\<forall>n. dget deg n = (if n \<in> set (step_ids p)
        then Some (int (length (filter (\<lambda>d. d \<notin> D) (deps_of p n)))) else None)) \<and>
     distinct queue \<and> set queue \<inter> D = {} \<and>
     set queue \<union> D = {n \<in> set (step_ids p). set (deps_of p n) \<subseteq> D}"

lemma length_filter_split:
  "A \<inter> D = {} \<Longrightarrow> length (filter (\<lambda>d. d \<notin> D) xs) =
   length (filter (\<lambda>d. d \<in> A) xs) + length (filter (\<lambda>d. d \<notin> D \<and> d \<notin> A) xs)"
  by (induction xs) auto

lemma length_filter_pos: "0 < length (filter P xs) \<longleftrightarrow> (\<exists>x \<in> set xs. P x)"
  by (induction xs) auto

lemma kahn_step:
  assumes u: "unique_ids p" and I: "kahn_inv p D deg queue"
    and s: "process_layer p queue deg = (deg', queue')"
  shows "kahn_inv p (D \<union> set queue) deg' queue'"
proof -
  let ?cs = "concat (map (children p) queue)"
  let ?left = "\<lambda>n. length (filter (\<lambda>d. d \<notin> D) (deps_of p n))"
  let ?left' = "\<lambda>n. length (filter (\<lambda>d. d \<notin> D \<union> set queue) (deps_of p n))"
  from I have deg: "\<And>n. dget deg n = (if n \<in> set (step_ids p) then Some (int (?left n)) else None)"
    and q: "distinct queue" "set queue \<inter> D = {}"
      "set queue \<union> D = {n \<in> set (step_ids p). set (deps_of p n) \<subseteq> D}"
    by (simp_all add: kahn_inv_def)
  have left: "?left n = count_list ?cs n + ?left' n" if "n \<in> set (step_ids p)" for n
    using length_filter_split [OF q(2), of "deps_of p n"] count_layer [OF u that q(1)] by simp
  from s have "fold dec_child ?cs (deg, []) = (deg', queue')" by (simp add: process_layer_def)
  from dec_child_fold [OF this] have
    deg': "\<And>n. dget deg' n = map_option (\<lambda>v. v - int (count_list ?cs n)) (dget deg n)"
    and q': "distinct queue'"
      "set queue' = {n. \<exists>v. dget deg n = Some v \<and> 0 < v \<and> v \<le> int (count_list ?cs n)}" by auto
  have q'_iff: "n \<in> set queue' \<longleftrightarrow> n \<in> set (step_ids p) \<and> 0 < ?left n \<and> ?left' n = 0" for n
    using left [of n] by (cases "n \<in> set (step_ids p)") (auto simp: q'(2) deg simp del: length_map)
  have zero: "?left' n = 0 \<longleftrightarrow> set (deps_of p n) \<subseteq> D \<union> set queue" for n
    by (auto simp: filter_empty_conv)
  have pos: "0 < ?left n \<longleftrightarrow> \<not> set (deps_of p n) \<subseteq> D" for n
    unfolding length_filter_pos by blast
  have "dget deg' n = (if n \<in> set (step_ids p) then Some (int (?left' n)) else None)" for n
    using left [of n] by (simp add: deg' deg)
  moreover have "set queue' \<inter> (D \<union> set queue) = {}" using q'_iff pos q(3) by auto
  moreover have "set queue' \<union> (D \<union> set queue) =
      {n \<in> set (step_ids p). set (deps_of p n) \<subseteq> D \<union> set queue}"
  proof -
    have "set queue' = {n \<in> set (step_ids p). \<not> set (deps_of p n) \<subseteq> D \<and>
        set (deps_of p n) \<subseteq> D \<union> set queue}" using q'_iff pos zero by blast
    with q(3) show ?thesis by blast
  qed
  ultimately show ?thesis using q'(1) by (simp add: kahn_inv_def)
qed

lemma layers_loop_layered:
  "unique_ids p \<Longrightarrow> kahn_inv p D deg queue \<Longrightarrow>
   layered p D (layers_loop p deg queue) \<and>
   (let F = D \<union> set (concat (layers_loop p deg queue)) in
      F \<subseteq> set (step_ids p) \<and> {n \<in> set (step_ids p). set (deps_of p n) \<subseteq> F} \<subseteq> F)"
proof (induction p deg queue arbitrary: D rule: layers_loop.induct)
  case (1 p deg queue)
  show ?case
  proof (cases "queue = []")
    case True
    with "1.prems" show ?thesis
      by (subst (1 2) layers_loop.simps) (auto simp: kahn_inv_def Let_def)
  next
    case False
    obtain deg' queue' where r: "process_layer p queue deg = (deg', queue')"
      by (cases "process_layer p queue deg")
    have I: "kahn_inv p (D \<union> set queue) deg' queue'" by (rule kahn_step [OF "1.prems" r])
    have e: "layers_loop p deg queue = queue # layers_loop p deg' queue'"
      using False r by (subst layers_loop.simps) simp
    from "1.prems"(2) have "distinct queue" "set queue \<inter> D = {}"
      "\<forall>n \<in> set queue. set (deps_of p n) \<subseteq> D" by (auto simp: kahn_inv_def)
    with "1.IH" [OF False refl "1.prems"(1), of "D \<union> set queue"] I r False show ?thesis
      by (simp add: e Let_def Un_assoc)
  qed
qed

lemma kahn_init:
  assumes "wf_plan p"
  shows "kahn_inv p {} (in_degrees p) (dkeys (filter (\<lambda>(_, deg). deg = 0) (in_degrees p)))"
proof -
  have u: "unique_ids p" using assms by (rule wf_plan_unique)
  have deg: "dget (in_degrees p) n =
    (if n \<in> set (step_ids p) then Some (int (length (deps_of p n))) else None)" for n
  proof (cases "n \<in> set (step_ids p)")
    case True
    then obtain s where s: "s \<in> set (wp_steps p)" "n = ws_step_id s" by auto
    then have "dget (in_degrees p) n = Some (int (length (ws_depends_on s)))"
      unfolding in_degrees_list [OF u]
      using u by (intro map_of_is_SomeI) (auto simp: unique_ids_def comp_def)
    with True s adj_get_step [OF u s(1)] show ?thesis by simp
  next
    case False
    then show ?thesis unfolding in_degrees_list [OF u] by (auto simp: map_of_eq_None_iff)
  qed
  have wf: "wf_dict (in_degrees p)"
    unfolding in_degrees_list [OF u] using u by (simp add: wf_dict_def unique_ids_def comp_def)
  have q: "n \<in> set (dkeys (filter (\<lambda>(_, deg). deg = 0) (in_degrees p))) \<longleftrightarrow>
      n \<in> set (step_ids p) \<and> deps_of p n = []" for n
  proof -
    have "n \<in> set (dkeys (filter (\<lambda>(_, deg). deg = 0) (in_degrees p))) \<longleftrightarrow>
        dget (in_degrees p) n = Some 0" unfolding dget_mem [OF wf] by force
    then show ?thesis by (auto simp: deg)
  qed
  have "distinct (dkeys (filter (\<lambda>(_, deg). deg = 0) (in_degrees p)))"
    using wf_dict_filter [OF wf] by (simp add: wf_dict_def)
  with q deg show ?thesis by (auto simp: kahn_inv_def)
qed

lemma execution_order_layered:
  assumes "wf_plan p"
  shows "layered p {} (get_execution_order p) \<and>
    set (concat (get_execution_order p)) = set (step_ids p)"
proof -
  let ?L = "get_execution_order p"
  have u: "unique_ids p" using assms by (rule wf_plan_unique)
  from layers_loop_layered [OF u kahn_init [OF assms]]
  have l: "layered p {} ?L" and sub: "set (concat ?L) \<subseteq> set (step_ids p)"
    and closed: "{n \<in> set (step_ids p). set (deps_of p n) \<subseteq> set (concat ?L)} \<subseteq> set (concat ?L)"
    unfolding get_execution_order_def Let_def by auto
  have "n \<in> set (concat ?L)" if "n \<in> set (step_ids p)" for n
  proof -
    have "grounded (dep_adj p) n" using assms that unfolding wf_plan_def by blast
    then show ?thesis using that
    proof (induction rule: grounded.induct)
      case (grounded n)
      from grounded.prems obtain s where s: "s \<in> set (wp_steps p)" "n = ws_step_id s" by auto
      have "set (deps_of p n) \<subseteq> set (step_ids p)"
        using assms s adj_get_step [OF u s(1)] by (auto simp: wf_plan_def)
      with grounded have "set (deps_of p n) \<subseteq> set (concat ?L)" by blast
      with grounded.prems closed show ?case by blast
    qed
  qed
  with l sub show ?thesis by blast
qed

section \<open>Settled results\<close>

text \<open>The result of a step as a function of the results of the steps it depends on.\<close>

definition settle :: "executor_env \<Rightarrow> executor \<Rightarrow> (string, step_result) dict \<Rightarrow> workflow_step \<Rightarrow> step_result" where
  "settle env x results s =
     (let r = new_step_result (ws_step_id s) in
      case check_deps (ex_fail_fast x) results (ws_depends_on s) of
        Some err \<Rightarrow> r\<lparr>sr_status := SKIPPED, sr_error := Some err\<rparr>
      | None \<Rightarrow>
          (fst (run_attempts env (effective_timeout x s) s 0 (nat (ws_retry_count s + 1)) None
             (r\<lparr>sr_status := RUNNING, sr_started_at := ee_start_time env (ws_step_id s)\<rparr>) None))
           \<lparr>sr_finished_at := ee_finish_time env (ws_step_id s)\<rparr>)"

definition same_config :: "executor \<Rightarrow> executor \<Rightarrow> bool" where
  "same_config x y \<longleftrightarrow> ex_plan x = ex_plan y \<and> ex_fail_fast x = ex_fail_fast y \<and>
     ex_default_timeout x = ex_default_timeout y"

lemma same_config_settle: "same_config x y \<Longrightarrow> settle env x = settle env y"
  by (auto simp: same_config_def settle_def effective_timeout_def fun_eq_iff Let_def split: option.split)

lemma same_config_trans: "same_config x y \<Longrightarrow> same_config y z \<Longrightarrow> same_config x z"
  by (simp add: same_config_def)

lemma execute_step_config [observers]: "same_config (execute_step env sid x) x"
  by (simp add: same_config_def execute_step_def Let_def split: option.split prod.split)

lemma execute_step_settles:
  assumes "get_step (ex_plan x) sid = Some s"
    and "dget (ex_results x) sid = Some (new_step_result sid)"
  shows "ex_results (execute_step env sid x) = dset sid (settle env x (ex_results x) s) (ex_results x)"
proof -
  have "ws_step_id s = sid"
    using assms(1) by (auto simp: get_step_def find_Some_iff)
  with assms show ?thesis
    by (simp add: execute_step_def settle_def Let_def split: option.split prod.split)
qed

lemma check_deps_cong:
  "\<forall>d \<in> set deps. dget r d = dget r' d \<Longrightarrow> check_deps ff r deps = check_deps ff r' deps"
  by (induction deps) (auto split: option.splits)

lemma settle_cong:
  "\<forall>d \<in> set (ws_depends_on s). dget r d = dget r' d \<Longrightarrow> settle env x r s = settle env x r' s"
  using check_deps_cong [of "ws_depends_on s" r r'] by (simp add: settle_def)

lemma get_step_of:
  assumes "unique_ids p" and "s \<in> set (wp_steps p)"
  shows "get_step p (ws_step_id s) = Some s"
proof -
  have "List.find (\<lambda>t. ws_step_id t = ws_step_id s) ss = Some s"
    if "distinct (map ws_step_id ss)" "s \<in> set ss" for ss :: "workflow_step list"
    using that by (induction ss) auto
  with assms show ?thesis by (simp add: get_step_def unique_ids_def)
qed

definition settled :: "executor_env \<Rightarrow> executor \<Rightarrow> (string, step_result) dict \<Rightarrow> bool" where
  "settled env x results \<longleftrightarrow>
     (\<forall>s \<in> set (wp_steps (ex_plan x)). dget results (ws_step_id s) = Some (settle env x results s))"

lemma settled_unique:
  assumes wf: "wf_plan (ex_plan x)" and "settled env x r" and "settled env x r'"
    and "n \<in> set (step_ids (ex_plan x))"
  shows "dget r n = dget r' n"
proof -
  have "grounded (dep_adj (ex_plan x)) n" using wf assms(4) unfolding wf_plan_def by blast
  then show ?thesis using assms(4)
  proof (induction rule: grounded.induct)
    case (grounded n)
    from grounded.prems obtain s where s: "s \<in> set (wp_steps (ex_plan x))" "n = ws_step_id s" by auto
    then have adj: "adj_get (dep_adj (ex_plan x)) n = ws_depends_on s"
      using adj_get_step [OF wf_plan_unique [OF wf]] by simp
    have "d \<in> set (step_ids (ex_plan x))" if "d \<in> set (ws_depends_on s)" for d
      using wf s(1) that unfolding wf_plan_def by blast
    with grounded.IH adj have "settle env x r s = settle env x r' s"
      by (intro settle_cong) auto
    with s assms(2,3) show ?case by (simp add: settled_def)
  qed
qed

section \<open>Running the steps in a topological order\<close>

fun topo :: "workflow_plan \<Rightarrow> string set \<Rightarrow> string list \<Rightarrow> bool" where
  "topo p D [] = True"
| "topo p D (n # ns) = (n \<notin> D \<and> set (deps_of p n) \<subseteq> D \<and> topo p (insert n D) ns)"

lemma topo_mono_layer:
  "distinct l \<Longrightarrow> set l \<inter> D = {} \<Longrightarrow> \<forall>n \<in> set l. set (deps_of p n) \<subseteq> D \<Longrightarrow>
   topo p (D \<union> set l) ns \<Longrightarrow> topo p D (l @ ns)"
proof (induction l arbitrary: D)
  case (Cons n l)
  have "topo p (insert n D) (l @ ns)"
    using Cons.prems by (intro Cons.IH) (auto simp: insert_commute)
  with Cons.prems show ?case by simp
qed simp

lemma layered_topo: "layered p D ls \<Longrightarrow> topo p D (concat ls)"
  by (induction p D ls rule: layered.induct) (auto intro: topo_mono_layer)

lemma layered_permuted:
  "list_all2 (\<lambda>l l'. mset l' = mset l) ls ls' \<Longrightarrow> layered p D ls \<Longrightarrow>
   layered p D ls' \<and> set (concat ls') = set (concat ls)"
proof (induction ls ls' arbitrary: D rule: list_all2_induct)
  case (Cons l ls l' ls')
  then have "set l' = set l" "distinct l' = distinct l" "(l' = []) = (l = [])"
    using mset_eq_setD [OF Cons.hyps(1)] mset_eq_imp_distinct_iff [OF Cons.hyps(1)] by auto
  with Cons show ?case by auto
qed simp

definition exec_inv :: "executor_env \<Rightarrow> executor \<Rightarrow> string set \<Rightarrow> executor \<Rightarrow> bool" where
  "exec_inv env x0 D x \<longleftrightarrow>
     same_config x x0 \<and> dkeys (ex_results x) = step_ids (ex_plan x0) \<and>
     (\<forall>n \<in> D. set (deps_of (ex_plan x0) n) \<subseteq> D) \<and>
     (\<forall>s \<in> set (wp_steps (ex_plan x0)). dget (ex_results x) (ws_step_id s) =
        Some (if ws_step_id s \<in> D then settle env x0 (ex_results x) s
              else new_step_result (ws_step_id s)))"

lemma exec_inv_step:
  assumes u: "unique_ids (ex_plan x0)" and I: "exec_inv env x0 D x"
    and n: "n \<in> set (step_ids (ex_plan x0))" "n \<notin> D" "set (deps_of (ex_plan x0) n) \<subseteq> D"
  shows "exec_inv env x0 (insert n D) (execute_step env n x)"
proof -
  let ?p = "ex_plan x0" and ?x' = "execute_step env n x"
  from n obtain s where s: "s \<in> set (wp_steps ?p)" "n = ws_step_id s" by auto
  have cfg: "same_config x x0" using I by (simp add: exec_inv_def)
  then have pl: "ex_plan x = ?p" by (simp add: same_config_def)
  have res: "ex_results ?x' = dset n (settle env x0 (ex_results x) s) (ex_results x)"
    using execute_step_settles [of x n s env] get_step_of [OF u s(1)] I s n(2)
      same_config_settle [OF cfg] by (simp add: exec_inv_def pl)
  have stable: "settle env x0 (ex_results ?x') t = settle env x0 (ex_results x) t"
    if "t \<in> set (wp_steps ?p)" "ws_step_id t \<in> insert n D" for t
  proof (rule settle_cong)
    have "\<forall>m \<in> D. set (deps_of ?p m) \<subseteq> D" using I by (simp add: exec_inv_def)
    with that(2) n(3) have "set (deps_of ?p (ws_step_id t)) \<subseteq> D" by auto
    then have "set (ws_depends_on t) \<subseteq> D" by (simp add: adj_get_step [OF u that(1)])
    with n(2) show "\<forall>d \<in> set (ws_depends_on t). dget (ex_results ?x') d = dget (ex_results x) d"
      by (auto simp: res)
  qed
  have "dget (ex_results ?x') (ws_step_id t) =
      Some (if ws_step_id t \<in> insert n D then settle env x0 (ex_results ?x') t
            else new_step_result (ws_step_id t))" if t: "t \<in> set (wp_steps ?p)" for t
  proof (cases "ws_step_id t = n")
    case True
    then have "t = s" using get_step_of [OF u t] get_step_of [OF u s(1)] s(2) by (metis option.inject)
    moreover have "settle env x0 (ex_results ?x') t = settle env x0 (ex_results x) t"
      using stable [OF t] True by blast
    moreover have "dget (ex_results ?x') n = Some (settle env x0 (ex_results x) s)"
      by (simp only: res dget_dset simp_thms if_True)
    ultimately show ?thesis using True by simp
  next
    case False
    then have same: "dget (ex_results ?x') (ws_step_id t) = dget (ex_results x) (ws_step_id t)"
      by (simp only: res dget_dset if_False)
    have old: "dget (ex_results x) (ws_step_id t) = Some (if ws_step_id t \<in> D
        then settle env x0 (ex_results x) t else new_step_result (ws_step_id t))"
      using I t unfolding exec_inv_def by blast
    show ?thesis
    proof (cases "ws_step_id t \<in> D")
      case True
      then have "settle env x0 (ex_results ?x') t = settle env x0 (ex_results x) t"
        using stable [OF t] by blast
      with True show ?thesis unfolding same old by simp
    next
      case False
      with \<open>ws_step_id t \<noteq> n\<close> show ?thesis unfolding same old by simp
    qed
  qed
  moreover have "dkeys (ex_results ?x') = step_ids ?p"
    using I n(1) by (simp add: res dkeys_dset exec_inv_def)
  moreover have "same_config ?x' x0" using same_config_trans [OF execute_step_config cfg] .
  moreover have "\<forall>m \<in> insert n D. set (deps_of ?p m) \<subseteq> insert n D"
  proof -
    have "\<forall>m \<in> D. set (deps_of ?p m) \<subseteq> D" using I by (simp add: exec_inv_def)
    with n(3) show ?thesis by blast
  qed
  ultimately show ?thesis unfolding exec_inv_def by blast
qed

lemma exec_inv_fold:
  "unique_ids (ex_plan x0) \<Longrightarrow> topo (ex_plan x0) D ns \<Longrightarrow> set ns \<subseteq> set (step_ids (ex_plan x0)) \<Longrightarrow>
   exec_inv env x0 D x \<Longrightarrow> exec_inv env x0 (D \<union> set ns) (fold (execute_step env) ns x)"
proof (induction ns arbitrary: D x)
  case (Cons n ns)
  then have "exec_inv env x0 (insert n D) (execute_step env n x)"
    by (intro exec_inv_step) simp_all
  moreover have "topo (ex_plan x0) (insert n D) ns" "set ns \<subseteq> set (step_ids (ex_plan x0))"
    using Cons.prems(2,3) by (simp_all add: subset_eq)
  ultimately have "exec_inv env x0 (insert n D \<union> set ns)
      (fold (execute_step env) ns (execute_step env n x))"
    using Cons.IH Cons.prems(1) by blast
  then show ?case by simp
qed simp

lemma exec_inv_init:
  assumes "unique_ids (ex_plan x)" and "ex_results x = []"
  shows "exec_inv env x {} (init_results x)"
proof -
  have r: "ex_results (init_results x) =
      map (\<lambda>s. (ws_step_id s, new_step_result (ws_step_id s))) (wp_steps (ex_plan x))"
    using assms dset_fold_distinct [of ws_step_id "wp_steps (ex_plan x)" "[]"
        "\<lambda>s. new_step_result (ws_step_id s)"] by (simp add: init_results_def unique_ids_def)
  have "dget (ex_results (init_results x)) (ws_step_id s) = Some (new_step_result (ws_step_id s))"
    if "s \<in> set (wp_steps (ex_plan x))" for s
    unfolding r using that assms(1)
    by (intro map_of_is_SomeI) (auto simp: unique_ids_def comp_def)
  then show ?thesis
    by (simp add: exec_inv_def same_config_def r comp_def) (simp add: init_results_def)
qed

lemma fold_execute_layer: "fold (execute_layer env) ls x = fold (execute_step env) (concat ls) x"
  by (induction ls arbitrary: x) (simp_all add: execute_layer_def)

lemma run_layers:
  assumes "wf_plan (ex_plan x)" and "ex_results x = []" and "layered (ex_plan x) {} ls"
    and "set (concat ls) = set (step_ids (ex_plan x))"
  shows "same_config (fold (execute_layer env) ls (init_results x)) x \<and>
    settled env x (ex_results (fold (execute_layer env) ls (init_results x))) \<and>
    dkeys (ex_results (fold (execute_layer env) ls (init_results x))) = step_ids (ex_plan x)"
proof -
  have u: "unique_ids (ex_plan x)" using assms(1) by (rule wf_plan_unique)
  have "exec_inv env x ({} \<union> set (concat ls)) (fold (execute_step env) (concat ls) (init_results x))"
    using exec_inv_fold [OF u layered_topo [OF assms(3)] _ exec_inv_init [OF u assms(2)]] assms(4)
    by blast
  then have "exec_inv env x (set (step_ids (ex_plan x)))
      (fold (execute_step env) (concat ls) (init_results x))"
    by (simp only: assms(4) Un_empty_left)
  then show ?thesis unfolding fold_execute_layer exec_inv_def settled_def by simp
qed

lemma execute_run:
  assumes "wf_plan p"
  shows "\<exists>x'. execute env (new_executor p par ff dt) = Some (Inr x') \<and>
    same_config x' (new_executor p par ff dt) \<and>
    settled env (new_executor p par ff dt) (ex_results x') \<and> dkeys (ex_results x') = step_ids p"
proof -
  let ?x = "new_executor p par ff dt"
  have f: "ex_plan ?x = p" "ex_results ?x = []" by (simp_all add: new_executor_def)
  have "execute env ?x = Some (Inr (fold (execute_layer env) (get_execution_order p) (init_results ?x)))"
    using assms f validate_iff [of p] by (simp add: execute_def)
  with run_layers [of ?x "get_execution_order p" env] execution_order_layered [OF assms] assms f
  show ?thesis by auto
qed

section \<open>What a settled step looks like\<close>

definition attempt_succeeds :: "executor_env \<Rightarrow> workflow_step \<Rightarrow> nat \<Rightarrow> bool" where
  "attempt_succeeds env s k =
     (case ee_attempt env (step_request s) (ws_step_id s) k of
        Finished _ tr \<Rightarrow> tr_success tr
      | _ \<Rightarrow> False)"

lemma run_attempts_status:
  "sr_status (fst (run_attempts env t s k n e r a)) =
   (if \<exists>i < n. attempt_succeeds env s (k + i) then COMPLETED else FAILED)"
proof (induction env t s k n e r a rule: run_attempts.induct)
  case (2 env t s k left e r a)
  have ex: "(\<exists>i < Suc left. attempt_succeeds env s (k + i)) \<longleftrightarrow>
      attempt_succeeds env s k \<or> (\<exists>i < left. attempt_succeeds env s (Suc k + i))"
    by (auto simp: less_Suc_eq_0_disj)
  show ?case
  proof (cases "ee_attempt env (step_request s) (ws_step_id s) k")
    case (Finished aid tr)
    then show ?thesis using "2.IH"(4) [OF Finished refl] unfolding ex
      by (simp add: attempt_succeeds_def Let_def)
  qed (use 2 in \<open>simp_all add: ex, simp_all add: attempt_succeeds_def\<close>)
qed simp

lemma check_deps_None:
  "\<forall>d \<in> set deps. dget r d \<noteq> None \<Longrightarrow>
   check_deps ff r deps = None \<longleftrightarrow>
     \<not> (ff \<and> (\<exists>d \<in> set deps. sr_status (the (dget r d)) \<in> {FAILED, SKIPPED}))"
  by (induction deps) (auto split: option.splits)

lemma settle_status:
  assumes "\<forall>d \<in> set (ws_depends_on s). dget r d \<noteq> None"
  shows "sr_status (settle env x r s) =
    (if ex_fail_fast x \<and> (\<exists>d \<in> set (ws_depends_on s). sr_status (the (dget r d)) \<in> {FAILED, SKIPPED})
     then SKIPPED
     else if \<exists>k < nat (ws_retry_count s + 1). attempt_succeeds env s k then COMPLETED else FAILED)"
proof (cases "check_deps (ex_fail_fast x) r (ws_depends_on s)")
  case None
  with check_deps_None [OF assms, of "ex_fail_fast x"] show ?thesis
    by (simp add: settle_def Let_def run_attempts_status)
next
  case (Some err)
  with check_deps_None [OF assms, of "ex_fail_fast x"] show ?thesis
    by (simp add: settle_def Let_def)
qed

section \<open>Properties\<close>

lemma wf_plan_acyclic:
  "wf_plan p \<longleftrightarrow> distinct (step_ids p) \<and>
     (\<forall>s \<in> set (wp_steps p). set (ws_depends_on s) \<subseteq> set (step_ids p)) \<and>
     (\<forall>n. \<not> (dep_edge (dep_adj p))\<^sup>+\<^sup>+ n n)" (is "_ \<longleftrightarrow> ?r")
proof
  assume "wf_plan p"
  then show ?r using cycle_not_grounded [OF wf_plan_unique [OF \<open>wf_plan p\<close>]]
    unfolding wf_plan_def by blast
next
  assume ?r
  then show "wf_plan p" using detect_cycle_spec [of p] unfolding wf_plan_def unique_ids_def by blast
qed

text \<open>
  C4: Plan validation always returns, and it accepts a plan (no error is reported) exactly when the
  step ids are pairwise distinct, every dependency is the id of a step, and the dependency relation
  has no cycle.
\<close>

theorem validate_correct:
  "(\<exists>errors. validate p = Some errors) \<and>
   (validate p = Some [] \<longleftrightarrow>
      distinct (step_ids p) \<and>
      (\<forall>s \<in> set (wp_steps p). set (ws_depends_on s) \<subseteq> set (step_ids p)) \<and>
      (\<forall>n. \<not> (dep_edge (dep_adj p))\<^sup>+\<^sup>+ n n))"
  using validate_total [of p] unfolding validate_iff wf_plan_acyclic by blast

lemma layered_nth:
  "layered p D ls \<Longrightarrow> i < length ls \<Longrightarrow> n \<in> set (ls ! i) \<Longrightarrow>
   set (deps_of p n) \<subseteq> D \<union> set (concat (take i ls))"
proof (induction p D ls arbitrary: i rule: layered.induct)
  case (2 p D l ls)
  show ?case
  proof (cases i)
    case 0
    with 2 show ?thesis by auto
  next
    case (Suc j)
    with "2.IH" [of j] "2.prems" show ?thesis by (auto simp: Un_assoc)
  qed
qed simp

lemma layered_distinct: "layered p D ls \<Longrightarrow> distinct (concat ls) \<and> set (concat ls) \<inter> D = {} \<and> [] \<notin> set ls"
  by (induction p D ls rule: layered.induct) auto

definition demo_step :: "string \<Rightarrow> string list \<Rightarrow> int \<Rightarrow> workflow_step" where
  "demo_step sid deps retries =
     \<lparr>ws_step_id = sid, ws_role = ''worker'', ws_task = ''t'', ws_name = [], ws_system_prompt = [],
      ws_allowed_tools = None, ws_depends_on = deps, ws_env = ''production'',
      ws_config_overrides = [], ws_max_iterations = 20, ws_timeout_seconds = 0,
      ws_retry_count = retries, ws_retry_backoff = 1\<rparr>"

definition demo_plan :: workflow_plan where
  "demo_plan = \<lparr>wp_name = ''demo'', wp_steps = [demo_step ''c'' [''a'', ''b''] 0, demo_step ''a'' [] 1,
      demo_step ''b'' [''a''] 0], wp_description = [], wp_metadata = []\<rparr>"

text \<open>An environment in which step \<open>a\<close> succeeds at its second attempt and step \<open>b\<close> always raises.\<close>

definition demo_env :: executor_env where
  "demo_env = \<lparr>ee_attempt = (\<lambda>_ sid k.
        if sid = ''a'' \<and> 1 \<le> k then Finished ''agent'' \<lparr>tr_success = True, tr_output = [], tr_error = None\<rparr>
        else RunRaised ''agent'' ''boom''),
      ee_start_time = (\<lambda>_. 1), ee_finish_time = (\<lambda>_. 2)\<rparr>"

lemma demo_plan_valid: "validate demo_plan = Some []"
  by code_simp

theorem validate_correct_witness:
  "distinct (step_ids demo_plan) \<and> \<not> (dep_edge (dep_adj demo_plan))\<^sup>+\<^sup>+ ''a'' ''a''"
  using validate_correct [of demo_plan] demo_plan_valid by blast

text \<open>
  C3: For every plan that validates, the layers of the execution order contain every step exactly
  once, no layer is empty, and every dependency of a step lies in a strictly earlier layer.
\<close>

theorem execution_order_correct:
  assumes "validate p = Some []"
  shows "distinct (concat (get_execution_order p)) \<and>
    set (concat (get_execution_order p)) = set (step_ids p) \<and> [] \<notin> set (get_execution_order p) \<and>
    (\<forall>i < length (get_execution_order p). \<forall>s \<in> set (wp_steps p).
       ws_step_id s \<in> set (get_execution_order p ! i) \<longrightarrow>
       (\<forall>d \<in> set (ws_depends_on s). \<exists>j < i. d \<in> set (get_execution_order p ! j)))"
proof -
  have wf: "wf_plan p" using assms validate_iff by simp
  note u = wf_plan_unique [OF wf]
  from execution_order_layered [OF wf]
  have l: "layered p {} (get_execution_order p)"
    and c: "set (concat (get_execution_order p)) = set (step_ids p)" by blast+
  have "\<exists>j < i. d \<in> set (get_execution_order p ! j)"
    if "i < length (get_execution_order p)" "s \<in> set (wp_steps p)"
      "ws_step_id s \<in> set (get_execution_order p ! i)" "d \<in> set (ws_depends_on s)" for i s d
  proof -
    have "d \<in> set (concat (take i (get_execution_order p)))"
      using layered_nth [OF l that(1,3)] that(4) adj_get_step [OF u that(2)] by auto
    with that(1) show ?thesis by (fastforce simp: in_set_conv_nth)
  qed
  with layered_distinct [OF l] c show ?thesis by blast
qed

theorem execution_order_correct_witness:
  "distinct (concat (get_execution_order demo_plan)) \<and>
   get_execution_order demo_plan = [[''a''], [''b''], [''c'']]"
proof
  show "distinct (concat (get_execution_order demo_plan))"
    using execution_order_correct [OF demo_plan_valid] by blast
  show "get_execution_order demo_plan = [[''a''], [''b''], [''c'']]" by code_simp
qed

text \<open>
  C10: Executing a valid plan on a fresh executor returns a table with one result per step, in plan
  order, that solves the dependency equations: the entry of every step is the one obtained by
  checking its dependencies in the final table and then running its attempts; and that table is
  the only solution (any other settled table agrees with it on every step).
\<close>

theorem execute_settles:
  assumes "validate p = Some []" and "x = new_executor p par ff dt"
  shows "\<exists>x'. execute env x = Some (Inr x') \<and> dkeys (ex_results x') = step_ids p \<and>
    settled env x (ex_results x') \<and>
    (\<forall>r. settled env x r \<longrightarrow> (\<forall>sid \<in> set (step_ids p). dget r sid = dget (ex_results x') sid))"
proof -
  have wf: "wf_plan p" using assms(1) validate_iff by simp
  have "ex_plan x = p" using assms(2) by (simp add: new_executor_def)
  with execute_run [OF wf, of env par ff dt] settled_unique [of x env] wf assms(2) show ?thesis by metis
qed

theorem execute_settles_witness:
  "\<exists>x'. execute demo_env (new_executor demo_plan True True 300) = Some (Inr x') \<and>
    dkeys (ex_results x') = [''c'', ''a'', ''b'']"
  using execute_settles [OF demo_plan_valid refl, of demo_env True True 300]
  by (auto simp: demo_plan_def demo_step_def)

text \<open>
  C2: What each step of an executed plan ends with. Under \<open>fail_fast\<close> a step is SKIPPED exactly
  when one of its dependencies FAILED or was SKIPPED; a step that runs is COMPLETED exactly when
  one of its first \<open>retry_count + 1\<close> attempts reports success, and FAILED otherwise. Without
  \<open>fail_fast\<close> every step runs. So no step is left PENDING or RUNNING.
\<close>

theorem execute_statuses:
  assumes "validate p = Some []" and "execute env (new_executor p par ff dt) = Some (Inr x')"
    and "s \<in> set (wp_steps p)"
  shows "\<exists>r. dget (ex_results x') (ws_step_id s) = Some r \<and> sr_status r =
    (if ff \<and> (\<exists>d \<in> set (ws_depends_on s). \<exists>rd. dget (ex_results x') d = Some rd \<and>
          sr_status rd \<in> {FAILED, SKIPPED}) then SKIPPED
     else if \<exists>k < nat (ws_retry_count s + 1). attempt_succeeds env s k then COMPLETED
     else FAILED)"
proof -
  have wf: "wf_plan p" using assms(1) validate_iff by simp
  let ?x = "new_executor p par ff dt"
  have f: "ex_plan ?x = p" "ex_fail_fast ?x = ff" by (simp_all add: new_executor_def)
  from execute_run [OF wf, of env par ff dt] assms(2)
  have S: "settled env ?x (ex_results x')" and K: "dkeys (ex_results x') = step_ids p" by auto
  have def: "dget (ex_results x') d \<noteq> None" if "d \<in> set (ws_depends_on s)" for d
  proof -
    have "d \<in> set (step_ids p)" using wf assms(3) that unfolding wf_plan_def by blast
    then show ?thesis unfolding dget_None_iff K by blast
  qed
  then have e: "(\<exists>d \<in> set (ws_depends_on s). sr_status (the (dget (ex_results x') d)) \<in> {FAILED, SKIPPED}) \<longleftrightarrow>
    (\<exists>d \<in> set (ws_depends_on s). \<exists>rd. dget (ex_results x') d = Some rd \<and> sr_status rd \<in> {FAILED, SKIPPED})"
    by (intro bex_cong refl) (metis option.collapse option.sel)
  have "dget (ex_results x') (ws_step_id s) = Some (settle env ?x (ex_results x') s)"
    using S assms(3) unfolding settled_def f by blast
  with settle_status [of s "ex_results x'" env ?x] def show ?thesis unfolding f e by blast
qed

theorem execute_statuses_witness:
  "\<exists>x' ra rb rc. execute demo_env (new_executor demo_plan True True 300) = Some (Inr x') \<and>
    dget (ex_results x') ''a'' = Some ra \<and> sr_status ra = COMPLETED \<and>
    dget (ex_results x') ''b'' = Some rb \<and> sr_status rb = FAILED \<and>
    dget (ex_results x') ''c'' = Some rc \<and> sr_status rc = SKIPPED"
proof -
  from execute_run [of demo_plan demo_env True True 300] demo_plan_valid validate_iff
  obtain x' where x: "execute demo_env (new_executor demo_plan True True 300) = Some (Inr x')" by blast
  note st = execute_statuses [OF demo_plan_valid x]
  have steps: "demo_step ''a'' [] 1 \<in> set (wp_steps demo_plan)"
    "demo_step ''b'' [''a''] 0 \<in> set (wp_steps demo_plan)"
    "demo_step ''c'' [''a'', ''b''] 0 \<in> set (wp_steps demo_plan)" by (simp_all add: demo_plan_def)
  have att: "attempt_succeeds demo_env (demo_step ''a'' [] 1) 1"
    "\<not> attempt_succeeds demo_env (demo_step ''b'' [''a''] 0) k" for k
    by (simp_all add: attempt_succeeds_def demo_env_def demo_step_def)
  have "1 < nat (ws_retry_count (demo_step ''a'' [] 1) + 1)" by (simp add: demo_step_def)
  with att(1) have "\<exists>k < nat (ws_retry_count (demo_step ''a'' [] 1) + 1).
      attempt_succeeds demo_env (demo_step ''a'' [] 1) k" by blast
  with st [OF steps(1)] obtain ra where ra: "dget (ex_results x') ''a'' = Some ra"
    "sr_status ra = COMPLETED" by (simp add: demo_step_def) blast
  from st [OF steps(2)] att(2) ra obtain rb where rb: "dget (ex_results x') ''b'' = Some rb"
    "sr_status rb = FAILED" by (auto simp: demo_step_def)
  from st [OF steps(3)] rb obtain rc where "dget (ex_results x') ''c'' = Some rc"
    "sr_status rc = SKIPPED" by (fastforce simp: demo_step_def)
  with x ra rb show ?thesis by blast
qed

text \<open>
  The order in which the steps of a layer run is irrelevant: running the same layers with each
  layer permuted in any way (as the tasks of a parallel layer may be scheduled) gives every step
  the same result as running them in the computed order.
\<close>

theorem layer_order_irrelevant:
  assumes "validate p = Some []" and "x = new_executor p par ff dt"
    and "list_all2 (\<lambda>l l'. mset l' = mset l) (get_execution_order p) layers"
    and "sid \<in> set (step_ids p)"
  shows "dget (ex_results (fold (execute_layer env) layers (init_results x))) sid =
    dget (ex_results (fold (execute_layer env) (get_execution_order p) (init_results x))) sid"
proof -
  have wf: "wf_plan p" using assms(1) validate_iff by simp
  have f: "ex_plan x = p" "ex_results x = []" using assms(2) by (simp_all add: new_executor_def)
  from execution_order_layered [OF wf] layered_permuted [OF assms(3)]
  have "layered p {} layers" "set (concat layers) = set (step_ids p)" by metis+
  with run_layers [of x layers env] run_layers [of x "get_execution_order p" env] f wf
    execution_order_layered [OF wf]
  have "settled env x (ex_results (fold (execute_layer env) layers (init_results x)))"
    "settled env x (ex_results (fold (execute_layer env) (get_execution_order p) (init_results x)))"
    by simp_all
  with settled_unique [of x env] f wf assms(4) show ?thesis by blast
qed

text \<open>Two steps without dependencies, run in either order.\<close>

definition demo_pair :: workflow_plan where
  "demo_pair = \<lparr>wp_name = ''pair'', wp_steps = [demo_step ''a'' [] 1, demo_step ''b'' [] 0],
      wp_description = [], wp_metadata = []\<rparr>"

theorem layer_order_irrelevant_witness:
  "get_execution_order demo_pair = [[''a'', ''b'']] \<and>
   dget (ex_results (fold (execute_layer demo_env) [[''b'', ''a'']]
     (init_results (new_executor demo_pair True True 300)))) ''a'' =
   dget (ex_results (fold (execute_layer demo_env) (get_execution_order demo_pair)
     (init_results (new_executor demo_pair True True 300)))) ''a''"
proof
  show o: "get_execution_order demo_pair = [[''a'', ''b'']]" by code_simp
  have v: "validate demo_pair = Some []" by code_simp
  show "dget (ex_results (fold (execute_layer demo_env) [[''b'', ''a'']]
     (init_results (new_executor demo_pair True True 300)))) ''a'' =
   dget (ex_results (fold (execute_layer demo_env) (get_execution_order demo_pair)
     (init_results (new_executor demo_pair True True 300)))) ''a''"
  proof (rule layer_order_irrelevant [OF v refl])
    show "list_all2 (\<lambda>l l'. mset l' = mset l) (get_execution_order demo_pair) [[''b'', ''a'']]"
      by (simp add: o)
  qed (simp add: demo_pair_def demo_step_def)
qed

end
