(* ===== verification/Auth.thy ===== *)
theory Auth
  imports Strings
begin

text \<open>
  \<open>youmi/security/auth.py\<close>: tokens, the validation of a token to a principal, role checks and
  the configuration from \<open>YOUMI_AUTH_*\<close> environment variables. SHA-256 is an argument (\<open>sha8\<close>,
  the first eight hex digits); \<open>hmac.compare_digest\<close> is equality of ASCII strings (its constant
  running time has no counterpart here). The environment is a function from names to values.
\<close>

section \<open>Tokens and principals\<close>

datatype auth_role = ADMIN | AGENT | VIEWER

record auth_token =
  at_token :: string
  at_role :: auth_role
  at_name :: string
  at_tenant :: string

record principal =
  pr_role :: auth_role
  pr_name :: string
  pr_tenant :: string
  pr_fingerprint :: string

record auth_manager =
  am_tokens :: "auth_token list"
  am_token_map :: "(string, auth_token) dict"

definition new_auth_manager :: "auth_token list \<Rightarrow> auth_manager" where
  "new_auth_manager tokens =
     \<lparr>am_tokens = tokens, am_token_map = fold (\<lambda>t. dset (at_token t) t) tokens []\<rparr>"

definition auth_enabled :: "auth_manager \<Rightarrow> bool" where
  "auth_enabled m \<longleftrightarrow> 0 < length (am_tokens m)"

definition token_count :: "auth_manager \<Rightarrow> nat" where
  "token_count m = length (am_tokens m)"

definition anonymous_principal :: principal where
  "anonymous_principal =
     \<lparr>pr_role = ADMIN, pr_name = ''anonymous'', pr_tenant = ''default'', pr_fingerprint = []\<rparr>"

text \<open>The loop over \<open>_token_map.items()\<close>.\<close>

fun find_token :: "string \<Rightarrow> (string, auth_token) dict \<Rightarrow> auth_token option" where
  "find_token tok [] = None"
| "find_token tok ((known, entry) # rest) = (if tok = known then Some entry else find_token tok rest)"

definition validate_token :: "(string \<Rightarrow> string) \<Rightarrow> auth_manager \<Rightarrow> string option \<Rightarrow> principal option" where
  "validate_token sha8 m token =
     (if \<not> auth_enabled m then Some anonymous_principal
      else (case token of
              None \<Rightarrow> None
            | Some tok \<Rightarrow>
                if tok = [] then None
                else (case find_token tok (am_token_map m) of
                        None \<Rightarrow> None
                      | Some entry \<Rightarrow>
                          Some \<lparr>pr_role = at_role entry, pr_name = at_name entry,
                                pr_tenant = at_tenant entry, pr_fingerprint = sha8 tok\<rparr>)))"

definition has_role :: "principal option \<Rightarrow> auth_role list \<Rightarrow> bool" where
  "has_role p roles =
     (case p of None \<Rightarrow> False | Some pr \<Rightarrow> if roles = [] then True else pr_role pr \<in> set roles)"

section \<open>Configuration\<close>

definition parse_role :: "string \<Rightarrow> auth_role" where
  "parse_role raw =
     (let r = lower (strip raw) in
      if r = ''admin'' then ADMIN else if r = ''agent'' then AGENT
      else if r = ''viewer'' then VIEWER else AGENT)"

definition or_default :: "string \<Rightarrow> string" where
  "or_default s = (if s \<noteq> [] then s else ''default'')"

text \<open>One item of \<open>YOUMI_AUTH_TOKENS\<close>; \<open>None\<close> where the loop continues with the next one.\<close>

definition parse_token_item :: "string \<Rightarrow> auth_token option" where
  "parse_token_item raw_item =
     (let item = strip raw_item in
      if item = [] then None
      else (let parts = split_on (CHR '':'') item; raw_token = strip (parts ! 0) in
            if raw_token = [] then None
            else Some \<lparr>at_token = raw_token,
                   at_role = (if length parts > 1 then parse_role (parts ! 1) else AGENT),
                   at_name = (if length parts > 2 then strip (parts ! 2) else []),
                   at_tenant = or_default (if length parts > 3 then strip (parts ! 3) else ''default'')\<rparr>))"

definition env_get :: "(string \<Rightarrow> string option) \<Rightarrow> string \<Rightarrow> string" where
  "env_get env k = (case env k of None \<Rightarrow> [] | Some v \<Rightarrow> v)"

definition env_multi_tokens :: "(string \<Rightarrow> string option) \<Rightarrow> auth_token list" where
  "env_multi_tokens env =
     (let multi = strip (env_get env ''YOUMI_AUTH_TOKENS'') in
      if multi \<noteq> [] then List.map_filter parse_token_item (split_on (CHR '';'') multi) else [])"

definition auth_from_env :: "(string \<Rightarrow> string option) \<Rightarrow> auth_manager" where
  "auth_from_env env =
     (let tokens = env_multi_tokens env;
          single = strip (env_get env ''YOUMI_AUTH_TOKEN'')
      in new_auth_manager
           (if single \<noteq> [] \<and> \<not> (\<exists>t \<in> set tokens. at_token t = single)
            then tokens @ [\<lparr>at_token = single, at_role = parse_role (env_get env ''YOUMI_AUTH_ROLE''),
                   at_name = [], at_tenant = or_default (strip (env_get env ''YOUMI_AUTH_TENANT''))\<rparr>]
            else tokens))"

section \<open>Lemmas\<close>

lemma find_token_dget: "find_token tok d = dget d tok"
  by (induction tok d rule: find_token.induct) auto

definition last_entry :: "string \<Rightarrow> auth_token list \<Rightarrow> auth_token option" where
  "last_entry tok ts = List.find (\<lambda>t. at_token t = tok) (rev ts)"

lemma find_append: "List.find P (xs @ ys) = (case List.find P xs of None \<Rightarrow> List.find P ys | Some x \<Rightarrow> Some x)"
  by (induction xs) auto

lemma fold_token_map:
  "dget (fold (\<lambda>t. dset (at_token t) t) ts d) tok =
     (case last_entry tok ts of None \<Rightarrow> dget d tok | Some t \<Rightarrow> Some t)"
  by (induction ts arbitrary: d) (auto simp: last_entry_def find_append split: option.splits)

lemma last_entry_Some: "last_entry tok ts = Some t \<Longrightarrow> t \<in> set ts \<and> at_token t = tok"
  by (auto simp: last_entry_def find_Some_iff) (metis nth_mem set_rev length_rev)

lemma last_entry_None: "last_entry tok ts = None \<longleftrightarrow> tok \<notin> at_token ` set ts"
  by (auto simp: last_entry_def find_None_iff)

lemma validate_enabled:
  "tokens \<noteq> [] \<Longrightarrow> validate_token sha8 (new_auth_manager tokens) (Some tok) =
     (if tok = [] then None
      else map_option (\<lambda>t. \<lparr>pr_role = at_role t, pr_name = at_name t, pr_tenant = at_tenant t,
                            pr_fingerprint = sha8 tok\<rparr>) (last_entry tok tokens))"
  by (simp add: validate_token_def auth_enabled_def new_auth_manager_def find_token_dget
      fold_token_map split: option.splits)

lemma parse_token_item_fields:
  "parse_token_item item = Some t \<Longrightarrow> at_token t \<noteq> [] \<and> at_tenant t \<noteq> []"
  by (auto simp: parse_token_item_def Let_def or_default_def split: if_splits)

lemma map_filter_all:
  "(\<And>x y. f x = Some y \<Longrightarrow> P y) \<Longrightarrow> \<forall>y \<in> set (List.map_filter f xs). P y"
  by (auto simp: List.map_filter_def)

section \<open>The text form of a token list\<close>

definition show_role :: "auth_role \<Rightarrow> string" where
  "show_role r = (case r of ADMIN \<Rightarrow> ''admin'' | AGENT \<Rightarrow> ''agent'' | VIEWER \<Rightarrow> ''viewer'')"

definition show_token :: "auth_token \<Rightarrow> string" where
  "show_token t = join_with '':'' [at_token t, show_role (at_role t), at_name t, at_tenant t]"

definition show_tokens :: "auth_token list \<Rightarrow> string" where
  "show_tokens ts = join_with '';'' (map show_token ts)"

text \<open>A field that the format can carry: no separators, no surrounding space.\<close>

definition clean :: "string \<Rightarrow> bool" where
  "clean s \<longleftrightarrow> CHR '':'' \<notin> set s \<and> CHR '';'' \<notin> set s \<and> strip s = s"

definition clean_token :: "auth_token \<Rightarrow> bool" where
  "clean_token t \<longleftrightarrow> clean (at_token t) \<and> clean (at_name t) \<and> clean (at_tenant t) \<and>
     at_token t \<noteq> [] \<and> at_tenant t \<noteq> []"

lemma strip_ends: "strip s = s \<Longrightarrow> s \<noteq> [] \<Longrightarrow> \<not> is_space (hd s) \<and> \<not> is_space (last s)"
proof -
  assume s: "strip s = s" and ne: "s \<noteq> []"
  define u where "u = dropWhile is_space s"
  have r: "s = rev (dropWhile is_space (rev u))" using s by (simp add: strip_def u_def)
  have un: "u \<noteq> []" using r ne by auto
  have "length s \<le> length u" using r length_dropWhile_le [of is_space "rev u"] by simp
  moreover have "length u \<le> length s" unfolding u_def by (rule length_dropWhile_le)
  moreover have "\<exists>w. s = w @ u" unfolding u_def by (metis takeWhile_dropWhile_id)
  ultimately have us: "u = s" by auto
  have "\<not> is_space (hd s)" using un hd_dropWhile [of is_space s] us by (auto simp: u_def)
  moreover have "\<not> is_space (last s)"
  proof -
    have d: "dropWhile is_space (rev s) = rev s" using r us by (metis rev_rev_ident)
    have "dropWhile is_space (rev s) \<noteq> []" using d ne by simp
    from hd_dropWhile [OF this] d have "\<not> is_space (hd (rev s))" by simp
    then show ?thesis by (simp add: hd_rev ne)
  qed
  ultimately show ?thesis by blast
qed

lemma parse_role_names:
  "parse_role ''admin'' = ADMIN" "parse_role ''agent'' = AGENT" "parse_role ''viewer'' = VIEWER"
  by code_simp+

lemma parse_show_role: "parse_role (show_role r) = r"
  by (cases r) (simp_all add: show_role_def parse_role_names)

lemma show_role_clean: "CHR '':'' \<notin> set (show_role r)" "CHR '';'' \<notin> set (show_role r)"
  by (cases r; simp add: show_role_def)+

lemma last_append_ne: "ys \<noteq> [] \<Longrightarrow> last (xs @ ys) = last ys" by simp

lemma show_token_ends:
  assumes "clean_token t"
  shows "show_token t \<noteq> []" and "\<not> is_space (hd (show_token t))" and "\<not> is_space (last (show_token t))"
proof -
  have n: "at_token t \<noteq> []" "at_tenant t \<noteq> []" using assms by (simp_all add: clean_token_def)
  then show "show_token t \<noteq> []" by (simp add: show_token_def)
  show "\<not> is_space (hd (show_token t))"
    using strip_ends [of "at_token t"] assms n by (simp add: show_token_def clean_token_def clean_def)
  show "\<not> is_space (last (show_token t))"
    using strip_ends [of "at_tenant t"] assms n by (simp add: show_token_def clean_token_def clean_def)
qed

lemma parse_show_token:
  assumes "clean_token t"
  shows "parse_token_item (show_token t) = Some t"
proof -
  have s: "strip (show_token t) = show_token t"
    by (rule strip_id) (use show_token_ends [OF assms] in simp)
  have "split_on (CHR '':'') (show_token t) = [at_token t, show_role (at_role t), at_name t, at_tenant t]"
    unfolding show_token_def
    by (rule split_on_join) (use assms in \<open>auto simp: clean_token_def clean_def show_role_clean\<close>)
  with s show_token_ends(1) [OF assms] assms show ?thesis
    by (simp add: parse_token_item_def clean_token_def clean_def parse_show_role or_default_def)
qed

lemma show_token_no_semicolon: "clean_token t \<Longrightarrow> CHR '';'' \<notin> set (show_token t)"
  by (simp add: show_token_def clean_token_def clean_def show_role_clean)

lemma join_ends:
  "xs \<noteq> [] \<Longrightarrow> \<forall>x \<in> set xs. x \<noteq> [] \<and> \<not> is_space (hd x) \<and> \<not> is_space (last x) \<Longrightarrow>
   join_with [c] xs \<noteq> [] \<and> \<not> is_space (hd (join_with [c] xs)) \<and> \<not> is_space (last (join_with [c] xs))"
  by (induction "[c]" xs rule: join_with.induct) auto

lemma env_multi_tokens_show:
  assumes "\<forall>t \<in> set ts. clean_token t" and "env ''YOUMI_AUTH_TOKENS'' = Some (show_tokens ts)"
  shows "env_multi_tokens env = ts"
proof (cases "ts = []")
  case True
  with assms(2) show ?thesis by (simp add: env_multi_tokens_def env_get_def show_tokens_def strip_def)
next
  case False
  have "join_with '';'' (map show_token ts) \<noteq> [] \<and>
      \<not> is_space (hd (join_with '';'' (map show_token ts))) \<and>
      \<not> is_space (last (join_with '';'' (map show_token ts)))"
    by (rule join_ends) (use False assms(1) show_token_ends in auto)
  then have "strip (show_tokens ts) = show_tokens ts" "show_tokens ts \<noteq> []"
    unfolding show_tokens_def by (simp_all add: strip_id)
  moreover have "split_on (CHR '';'') (show_tokens ts) = map show_token ts"
    unfolding show_tokens_def
    by (rule split_on_join) (use False assms(1) show_token_no_semicolon in auto)
  moreover have "List.map_filter parse_token_item (map show_token ts) = ts"
    using assms(1) by (induction ts) (simp_all add: map_filter_simps parse_show_token)
  ultimately show ?thesis using assms(2) by (simp add: env_multi_tokens_def env_get_def)
qed

section \<open>Properties\<close>

text \<open>
  C13: Authentication. A manager without tokens admits every caller as the anonymous administrator
  of tenant \<open>default\<close>; a manager with tokens rejects a missing or empty token, and admits a token
  exactly when it is one of the configured tokens, with the role, name and tenant of the last entry
  configured for it.
\<close>

theorem validate_token_correct:
  "validate_token sha8 (new_auth_manager tokens) tok =
     (if tokens = [] then Some anonymous_principal
      else case tok of
        None \<Rightarrow> None
      | Some s \<Rightarrow>
          if s = [] then None
          else case List.find (\<lambda>t. at_token t = s) (rev tokens) of
            None \<Rightarrow> None
          | Some t \<Rightarrow> Some \<lparr>pr_role = at_role t, pr_name = at_name t, pr_tenant = at_tenant t,
                              pr_fingerprint = sha8 s\<rparr>)"
proof (cases "tokens = [] \<or> tok = None")
  case True
  then show ?thesis
    by (auto simp: validate_token_def auth_enabled_def new_auth_manager_def)
next
  case False
  then show ?thesis using validate_enabled [of tokens sha8]
    by (auto simp: last_entry_def split: option.splits)
qed

text \<open>
  Configuration round trip: for tokens whose fields contain no separator and no surrounding
  space (and a non-empty token and tenant), the manager built from the environment in which
  \<open>YOUMI_AUTH_TOKENS\<close> is the text \<open>token:role:name:tenant;...\<close> of the list, and no single token is
  set, holds exactly that list.
\<close>

theorem auth_env_roundtrip:
  assumes "\<forall>t \<in> set ts. clean_token t"
    and "env ''YOUMI_AUTH_TOKENS'' = Some (show_tokens ts)" and "env ''YOUMI_AUTH_TOKEN'' = None"
  shows "auth_from_env env = new_auth_manager ts"
  using env_multi_tokens_show [where ts = ts and env = env, OF assms(1,2)] assms(3)
  by (simp add: auth_from_env_def env_get_def Let_def strip_def)

definition demo_tokens :: "auth_token list" where
  "demo_tokens =
     [\<lparr>at_token = ''k1'', at_role = ADMIN, at_name = ''ops'', at_tenant = ''acme''\<rparr>,
      \<lparr>at_token = ''k2'', at_role = VIEWER, at_name = [], at_tenant = ''beta''\<rparr>]"

theorem auth_env_roundtrip_witness:
  "auth_from_env ((\<lambda>_. None)(''YOUMI_AUTH_TOKENS'' := Some ''k1:admin:ops:acme;k2:viewer::beta'')) =
   new_auth_manager demo_tokens"
proof (rule auth_env_roundtrip)
  show "\<forall>t \<in> set demo_tokens. clean_token t" by code_simp
qed (code_simp, simp)

text \<open>
  Duplicate tokens of \<open>YOUMI_AUTH_TOKENS\<close> are not merged: both entries stay in the list the
  token count is taken from, and validation uses the later one.
\<close>

theorem duplicate_tokens_kept:
  "token_count (auth_from_env ((\<lambda>_. None)(''YOUMI_AUTH_TOKENS'' := Some ''k:admin;k:viewer''))) = 2 \<and>
   map_option pr_role (validate_token sha8
     (auth_from_env ((\<lambda>_. None)(''YOUMI_AUTH_TOKENS'' := Some ''k:admin;k:viewer''))) (Some ''k'')) =
   Some VIEWER"
proof -
  have "auth_from_env ((\<lambda>_. None)(''YOUMI_AUTH_TOKENS'' := Some ''k:admin;k:viewer'')) =
    new_auth_manager [\<lparr>at_token = ''k'', at_role = ADMIN, at_name = [], at_tenant = ''default''\<rparr>,
      \<lparr>at_token = ''k'', at_role = VIEWER, at_name = [], at_tenant = ''default''\<rparr>]"
    by code_simp
  then show ?thesis
    by (simp add: token_count_def validate_enabled last_entry_def) (simp add: new_auth_manager_def)
qed

end
