(* ===== verification/Hooks.thy ===== *)
theory Hooks
  imports Prelude "HOL-Library.Multiset"
begin

text \<open>
  \<open>youmi/core/hooks.py\<close>: the hook registry and the chained invocation. Handlers are identities of
  a type \<open>'h\<close> (the sources compare them with \<open>is\<close>); what a handler does is an argument
  \<open>beh\<close>: on a context it returns the context as it leaves it (it may mutate it) and its
  decision, or \<open>None\<close> when it raises.
\<close>

section \<open>Types\<close>

datatype hook_type = BEFORE_PROMPT_BUILD | BEFORE_MODEL_CALL | AFTER_MODEL_CALL | BEFORE_TOOL_CALL
  | AFTER_TOOL_CALL | MESSAGE_RECEIVED | MESSAGE_SENDING

definition all_hook_types :: "hook_type list" where
  "all_hook_types = [BEFORE_PROMPT_BUILD, BEFORE_MODEL_CALL, AFTER_MODEL_CALL, BEFORE_TOOL_CALL,
     AFTER_TOOL_CALL, MESSAGE_RECEIVED, MESSAGE_SENDING]"

datatype hook_decision_type = PASS | MODIFY | BLOCK

record hook_context =
  hc_hook_type :: hook_type
  hc_agent_id :: string
  hc_agent_name :: string
  hc_messages :: "json list"
  hc_response :: json
  hc_tool_name :: string
  hc_tool_arguments :: "(string, json) dict"
  hc_tool_result :: json
  hc_message :: json
  hc_extra :: "(string, json) dict"

definition new_hook_context :: "hook_type \<Rightarrow> string \<Rightarrow> string \<Rightarrow> hook_context" where
  "new_hook_context ht agent_id agent_name =
     \<lparr>hc_hook_type = ht, hc_agent_id = agent_id, hc_agent_name = agent_name, hc_messages = [],
      hc_response = JNull, hc_tool_name = [], hc_tool_arguments = [], hc_tool_result = JNull,
      hc_message = JNull, hc_extra = []\<rparr>"

record hook_decision =
  hd_decision :: hook_decision_type
  hd_modified_data :: "(string, json) dict"
  hd_reason :: string

definition pass_through :: hook_decision where
  "pass_through = \<lparr>hd_decision = PASS, hd_modified_data = [], hd_reason = []\<rparr>"

definition modify_with :: "(string, json) dict \<Rightarrow> hook_decision" where
  "modify_with data = \<lparr>hd_decision = MODIFY, hd_modified_data = data, hd_reason = []\<rparr>"

definition block_because :: "string \<Rightarrow> hook_decision" where
  "block_because reason = \<lparr>hd_decision = BLOCK, hd_modified_data = [], hd_reason = reason\<rparr>"

record 'h hook_entry =
  he_hook_type :: hook_type
  he_handler :: 'h
  he_priority :: int
  he_plugin_name :: string

section \<open>The registry\<close>

record 'h hook_registry =
  hr_hooks :: "hook_type \<Rightarrow> 'h hook_entry list"

definition new_hook_registry :: "'h hook_registry" where
  "new_hook_registry = \<lparr>hr_hooks = (\<lambda>_. [])\<rparr>"

definition register_hook :: "'h hook_entry \<Rightarrow> 'h hook_registry \<Rightarrow> 'h hook_registry" where
  "register_hook e r =
     r\<lparr>hr_hooks := (hr_hooks r)(he_hook_type e :=
         sort_key he_priority (hr_hooks r (he_hook_type e) @ [e]))\<rparr>"

definition unregister_hook :: "hook_type \<Rightarrow> 'h \<Rightarrow> 'h hook_registry \<Rightarrow> 'h hook_registry" where
  "unregister_hook ht h r =
     r\<lparr>hr_hooks := (hr_hooks r)(ht := filter (\<lambda>e. he_handler e \<noteq> h) (hr_hooks r ht))\<rparr>"

text \<open>The loop over \<open>HookType\<close>, with the number of removed entries.\<close>

fun unregister_plugin_from :: "string \<Rightarrow> hook_type list \<Rightarrow> nat \<times> 'h hook_registry \<Rightarrow> nat \<times> 'h hook_registry" where
  "unregister_plugin_from plugin [] (removed, r) = (removed, r)"
| "unregister_plugin_from plugin (ht # hts) (removed, r) =
     (let before = length (hr_hooks r ht);
          kept = filter (\<lambda>e. he_plugin_name e \<noteq> plugin) (hr_hooks r ht)
      in unregister_plugin_from plugin hts
           (removed + (before - length kept), r\<lparr>hr_hooks := (hr_hooks r)(ht := kept)\<rparr>))"

definition unregister_all_by_plugin :: "string \<Rightarrow> 'h hook_registry \<Rightarrow> nat \<times> 'h hook_registry" where
  "unregister_all_by_plugin plugin r = unregister_plugin_from plugin all_hook_types (0, r)"

definition has_hooks :: "'h hook_registry \<Rightarrow> hook_type \<Rightarrow> bool" where
  "has_hooks r ht \<longleftrightarrow> hr_hooks r ht \<noteq> []"

definition hook_count :: "'h hook_registry \<Rightarrow> hook_type \<Rightarrow> nat" where
  "hook_count r ht = length (hr_hooks r ht)"

section \<open>Invocation\<close>

type_synonym 'h hook_behaviour = "'h \<Rightarrow> hook_context \<Rightarrow> hook_context \<times> hook_decision option"

fun run_hooks :: "'h hook_behaviour \<Rightarrow> 'h hook_entry list \<Rightarrow> hook_decision \<Rightarrow> hook_context \<Rightarrow>
    hook_decision \<times> hook_context" where
  "run_hooks beh [] last_decision ctx = (last_decision, ctx)"
| "run_hooks beh (e # es) last_decision ctx =
     (case beh (he_handler e) ctx of
        (ctx', None) \<Rightarrow> run_hooks beh es last_decision ctx'
      | (ctx', Some d) \<Rightarrow>
          if hd_decision d = BLOCK then (d, ctx')
          else run_hooks beh es d
                 (if hd_decision d = MODIFY
                  then ctx'\<lparr>hc_extra := dmerge (hc_extra ctx') (hd_modified_data d)\<rparr> else ctx'))"

definition invoke :: "'h hook_behaviour \<Rightarrow> hook_type \<Rightarrow> hook_context \<Rightarrow> 'h hook_registry \<Rightarrow>
    hook_decision \<times> hook_context" where
  "invoke beh ht ctx r =
     (if hr_hooks r ht = [] then (pass_through, ctx)
      else run_hooks beh (hr_hooks r ht) pass_through ctx)"

section \<open>Lemmas\<close>

lemma insert_at_end_sorted:
  "sort_key f (sort_key f xs @ [x]) = sort_key f (xs @ [x])"
proof (rule properties_for_sort_key)
  show "mset (sort_key f (xs @ [x])) = mset (sort_key f xs @ [x])" by simp
  show "filter (\<lambda>y. f k = f y) (sort_key f (xs @ [x])) = filter (\<lambda>y. f k = f y) (sort_key f xs @ [x])"
    for k
  proof -
    have "filter (\<lambda>y. f y = f k) (sort_key f zs) = filter (\<lambda>y. f y = f k) zs" for zs
      by (rule sort_key_stable)
    then have s: "filter (\<lambda>y. f k = f y) (sort_key f zs) = filter (\<lambda>y. f k = f y) zs" for zs
      by (simp add: eq_commute [of "f k"])
    show ?thesis by (simp add: s)
  qed
qed simp

lemma register_hooks_order:
  "hr_hooks (fold register_hook es r) ht =
     (if filter (\<lambda>e. he_hook_type e = ht) es = [] then hr_hooks r ht
      else sort_key he_priority (hr_hooks r ht @ filter (\<lambda>e. he_hook_type e = ht) es))"
proof (induction es rule: rev_induct)
  case (snoc e es)
  show ?case
  proof (cases "filter (\<lambda>e. he_hook_type e = ht) es = []")
    case True
    with snoc show ?thesis by (auto simp: register_hook_def)
  next
    case False
    with snoc show ?thesis
      using insert_at_end_sorted [of he_priority "hr_hooks r ht @ filter (\<lambda>e. he_hook_type e = ht) es" e]
      by (auto simp: register_hook_def)
  qed
qed simp

lemma run_hooks_append:
  "hd_decision d0 \<noteq> BLOCK \<Longrightarrow> run_hooks beh (es @ fs) d0 ctx =
     (let (d, c) = run_hooks beh es d0 ctx in
      if hd_decision d = BLOCK then (d, c) else run_hooks beh fs d c)"
proof (induction es arbitrary: d0 ctx)
  case (Cons e es)
  obtain c1 r where b: "beh (he_handler e) ctx = (c1, r)" by (cases "beh (he_handler e) ctx")
  show ?case
  proof (cases r)
    case None
    with b Cons show ?thesis by simp
  next
    case (Some d)
    show ?thesis
    proof (cases "hd_decision d = BLOCK")
      case True
      with b Some show ?thesis by simp
    next
      case False
      with b Some Cons.IH [of d] show ?thesis by simp
    qed
  qed
qed simp

lemma unregister_plugin_from_spec:
  "distinct hts \<Longrightarrow> unregister_plugin_from plugin hts (removed, r) =
     (removed + sum_list (map (\<lambda>ht. length (filter (\<lambda>e. he_plugin_name e = plugin) (hr_hooks r ht))) hts),
      r\<lparr>hr_hooks := (\<lambda>ht. if ht \<in> set hts
          then filter (\<lambda>e. he_plugin_name e \<noteq> plugin) (hr_hooks r ht) else hr_hooks r ht)\<rparr>)"
proof (induction hts arbitrary: removed r)
  case (Cons ht hts)
  have l: "length (hr_hooks r ht) - length (filter (\<lambda>e. he_plugin_name e \<noteq> plugin) (hr_hooks r ht)) =
    length (filter (\<lambda>e. he_plugin_name e = plugin) (hr_hooks r ht))"
    using count_filter_partition [of "hr_hooks r ht" "\<lambda>e. he_plugin_name e = plugin"] by simp
  have m: "map (\<lambda>h. length (filter (\<lambda>e. he_plugin_name e = plugin)
        ((if h = ht then kept else hr_hooks r h)))) hts =
      map (\<lambda>h. length (filter (\<lambda>e. he_plugin_name e = plugin) (hr_hooks r h))) hts" for kept
    using Cons.prems by auto
  show ?case using Cons l
    by (auto simp: Let_def fun_upd_def m intro!: arg_cong [of _ _ "\<lambda>f. r\<lparr>hr_hooks := f\<rparr>"])
qed simp

lemma all_hook_types_complete: "ht \<in> set all_hook_types"
  by (cases ht) (simp_all add: all_hook_types_def)

section \<open>Properties\<close>

text \<open>
  The handlers of a hook type run in order of ascending priority, and in registration order
  within one priority: after any sequence of registrations on an empty registry, the entries of a
  type are the stable sort by priority of the entries registered for it.
\<close>

theorem hooks_in_priority_order:
  "hr_hooks (fold register_hook es new_hook_registry) ht =
   sort_key he_priority (filter (\<lambda>e. he_hook_type e = ht) es)"
  using register_hooks_order [of es new_hook_registry ht]
  by (cases "filter (\<lambda>e. he_hook_type e = ht) es") (auto simp: new_hook_registry_def)

text \<open>
  A blocking handler ends the chain: when the handlers before it let the call through and it
  decides BLOCK on the context they leave, the invocation returns exactly its decision and context,
  whatever handlers come after it; and a handler that raises does not change the decision reached
  so far.
\<close>

theorem block_stops_chain:
  assumes "run_hooks beh es pass_through ctx = (d1, c1)" and "hd_decision d1 \<noteq> BLOCK"
    and "hr_hooks r ht = es @ e # fs"
  shows "(\<forall>d c2. beh (he_handler e) c1 = (c2, Some d) \<and> hd_decision d = BLOCK \<longrightarrow>
      invoke beh ht ctx r = (d, c2)) \<and>
    (\<forall>c2. beh (he_handler e) c1 = (c2, None) \<longrightarrow> invoke beh ht ctx r = run_hooks beh fs d1 c2)"
proof -
  have "invoke beh ht ctx r = run_hooks beh (e # fs) d1 c1"
    using assms run_hooks_append [of pass_through beh es "e # fs" ctx]
    by (simp add: invoke_def pass_through_def)
  then show ?thesis by simp
qed

definition demo_entry :: "nat \<Rightarrow> int \<Rightarrow> nat hook_entry" where
  "demo_entry h prio = \<lparr>he_hook_type = BEFORE_TOOL_CALL, he_handler = h, he_priority = prio,
     he_plugin_name = ''p''\<rparr>"

definition demo_behaviour :: "nat hook_behaviour" where
  "demo_behaviour h ctx = (ctx,
     (if h = 0 then Some (modify_with [(''tool_arguments'', JNum 1)])
      else if h = 1 then Some pass_through
      else if h = 2 then Some (block_because ''no'')
      else None))"

theorem block_stops_chain_witness:
  "fst (invoke demo_behaviour BEFORE_TOOL_CALL (new_hook_context BEFORE_TOOL_CALL [] [])
     \<lparr>hr_hooks = (\<lambda>_. [demo_entry 1 0, demo_entry 2 5, demo_entry 0 9])\<rparr>) = block_because ''no''"
proof -
  let ?ctx = "new_hook_context BEFORE_TOOL_CALL [] []"
  have 1: "run_hooks demo_behaviour [demo_entry 1 0] pass_through ?ctx = (pass_through, ?ctx)"
    by (simp add: demo_behaviour_def demo_entry_def pass_through_def)
  have "invoke demo_behaviour BEFORE_TOOL_CALL ?ctx
      \<lparr>hr_hooks = (\<lambda>_. [demo_entry 1 0, demo_entry 2 5, demo_entry 0 9])\<rparr> = (block_because ''no'', ?ctx)"
    by (rule block_stops_chain [OF 1, THEN conjunct1, rule_format, where e = "demo_entry 2 5"])
      (simp_all add: pass_through_def demo_behaviour_def demo_entry_def block_because_def)
  then show ?thesis by simp
qed

text \<open>
  Removing a plugin removes exactly its entries from every hook type and returns how many
  they were.
\<close>

theorem unregister_plugin_correct:
  "unregister_all_by_plugin plugin r =
     (sum_list (map (\<lambda>ht. length (filter (\<lambda>e. he_plugin_name e = plugin) (hr_hooks r ht))) all_hook_types),
      r\<lparr>hr_hooks := (\<lambda>ht. filter (\<lambda>e. he_plugin_name e \<noteq> plugin) (hr_hooks r ht))\<rparr>)"
proof -
  have "distinct all_hook_types" by (simp add: all_hook_types_def)
  from unregister_plugin_from_spec [OF this, of plugin 0 r] show ?thesis
    by (simp add: unregister_all_by_plugin_def all_hook_types_complete)
qed

end
