(* ===== verification/Broker.thy ===== *)
theory Broker
  imports Strings
begin

text \<open>
  \<open>youmi/bus/message.py\<close> and \<open>youmi/bus/broker.py\<close>: workflow messages, the transport envelope,
  and the in-process broker with its queues, subscriptions, workflow membership, tenants and
  pending acknowledgements. A Python set of agent ids is a list without duplicates. The broker's
  methods run without interleaving (they hold the lock or do not suspend); a timeout of
  \<open>wait_for_message\<close> is the case of an empty queue. The generated ack id is an argument of
  \<open>publish\<close>; the callbacks it calls are returned with it.
\<close>

section \<open>Messages\<close>

datatype workflow_message_type = TASK | FEEDBACK | STATUS | QUERY | TOOL_REQUEST | TOOL_RESPONSE

definition writes_to_memory :: "workflow_message_type \<Rightarrow> bool" where
  "writes_to_memory t \<longleftrightarrow> t \<in> {TASK, FEEDBACK}"

definition msg_type_value :: "workflow_message_type \<Rightarrow> string" where
  "msg_type_value t = (case t of TASK \<Rightarrow> ''task'' | FEEDBACK \<Rightarrow> ''feedback'' | STATUS \<Rightarrow> ''status''
     | QUERY \<Rightarrow> ''query'' | TOOL_REQUEST \<Rightarrow> ''tool_request'' | TOOL_RESPONSE \<Rightarrow> ''tool_response'')"

datatype message_role = ROLE_SYSTEM | ROLE_USER | ROLE_ASSISTANT | ROLE_AGENT | ROLE_TOOL

record agent_message =
  ag_message_id :: string
  ag_from_agent_id :: string
  ag_to_agent_id :: "string option"
  ag_role :: message_role
  ag_content :: string
  ag_metadata :: "(string, json) dict"
  ag_timestamp :: rat

record workflow_message =
  wm_message_id :: string
  wm_workflow_id :: string
  wm_from_agent_id :: string
  wm_to_agent_id :: "string option"
  wm_msg_type :: workflow_message_type
  wm_role :: message_role
  wm_content :: string
  wm_tenant :: string
  wm_metadata :: "(string, json) dict"
  wm_timestamp :: rat
  wm_ack_id :: string

definition is_broadcast :: "workflow_message \<Rightarrow> bool" where
  "is_broadcast m \<longleftrightarrow> wm_to_agent_id m = None \<or> wm_to_agent_id m = Some ''*''"

definition needs_ack :: "workflow_message \<Rightarrow> bool" where
  "needs_ack m \<longleftrightarrow> wm_ack_id m \<noteq> []"

definition to_agent_message :: "workflow_message \<Rightarrow> agent_message" where
  "to_agent_message m =
     \<lparr>ag_message_id = wm_message_id m, ag_from_agent_id = wm_from_agent_id m,
      ag_to_agent_id = wm_to_agent_id m, ag_role = wm_role m, ag_content = wm_content m,
      ag_metadata = dset ''msg_type'' (JStr (msg_type_value (wm_msg_type m)))
        (dset ''workflow_id'' (JStr (wm_workflow_id m)) (wm_metadata m)),
      ag_timestamp = wm_timestamp m\<rparr>"

definition from_agent_message :: "agent_message \<Rightarrow> string \<Rightarrow> workflow_message_type \<Rightarrow> workflow_message" where
  "from_agent_message m workflow_id msg_type =
     \<lparr>wm_message_id = ag_message_id m, wm_workflow_id = workflow_id,
      wm_from_agent_id = ag_from_agent_id m, wm_to_agent_id = ag_to_agent_id m,
      wm_msg_type = msg_type, wm_role = ag_role m, wm_content = ag_content m,
      wm_tenant = ''default'', wm_metadata = ag_metadata m, wm_timestamp = ag_timestamp m,
      wm_ack_id = []\<rparr>"

section \<open>The in-process broker\<close>

record 'cb broker =
  bk_queues :: "(string, workflow_message list) dict"
  bk_subscriptions :: "(string, string list) dict"
  bk_workflow_members :: "(string, string list) dict"
  bk_agent_tenants :: "(string, string) dict"
  bk_pending_acks :: "(string, workflow_message) dict"
  bk_callbacks :: "(string, 'cb list) dict"
  bk_workflow_counter :: nat

definition new_broker :: "'cb broker" where
  "new_broker = \<lparr>bk_queues = [], bk_subscriptions = [], bk_workflow_members = [],
     bk_agent_tenants = [], bk_pending_acks = [], bk_callbacks = [], bk_workflow_counter = 0\<rparr>"

definition dget_or :: "'v \<Rightarrow> ('k, 'v) dict \<Rightarrow> 'k \<Rightarrow> 'v" where
  "dget_or v d k = (case dget d k of None \<Rightarrow> v | Some x \<Rightarrow> x)"

definition set_add :: "'a \<Rightarrow> 'a list \<Rightarrow> 'a list" where
  "set_add x xs = (if x \<in> set xs then xs else xs @ [x])"

definition or_default_tenant :: "string \<Rightarrow> string" where
  "or_default_tenant t = (if t \<noteq> [] then t else ''default'')"

definition subscribe :: "string \<Rightarrow> string \<Rightarrow> string \<Rightarrow> 'cb broker \<Rightarrow> 'cb broker" where
  "subscribe agent_id workflow_id tenant b =
     (let b = (if dget (bk_queues b) agent_id = None
               then b\<lparr>bk_queues := dset agent_id [] (bk_queues b)\<rparr> else b);
          b = (if dget (bk_subscriptions b) agent_id = None
               then b\<lparr>bk_subscriptions := dset agent_id [] (bk_subscriptions b)\<rparr> else b);
          b = b\<lparr>bk_agent_tenants := dset agent_id (or_default_tenant tenant) (bk_agent_tenants b)\<rparr>
      in if workflow_id \<noteq> []
         then b\<lparr>bk_subscriptions := dset agent_id
                  (set_add workflow_id (dget_or [] (bk_subscriptions b) agent_id)) (bk_subscriptions b),
                bk_workflow_members := dset workflow_id
                  (set_add agent_id (dget_or [] (bk_workflow_members b) workflow_id))
                  (bk_workflow_members b)\<rparr>
         else b)"

text \<open>One turn of the loop of \<open>unsubscribe\<close>: discard the agent, drop an empty member set.\<close>

definition leave_workflow :: "string \<Rightarrow> string \<Rightarrow> (string, string list) dict \<Rightarrow> (string, string list) dict" where
  "leave_workflow agent_id wf_id members =
     (let ms = removeAll agent_id (dget_or [] members wf_id) in
      if ms = [] then ddel wf_id members else dset wf_id ms members)"

definition unsubscribe :: "string \<Rightarrow> 'cb broker \<Rightarrow> 'cb broker" where
  "unsubscribe agent_id b =
     b\<lparr>bk_workflow_members := fold (leave_workflow agent_id)
          (dget_or [] (bk_subscriptions b) agent_id) (bk_workflow_members b),
       bk_subscriptions := ddel agent_id (bk_subscriptions b),
       bk_queues := ddel agent_id (bk_queues b),
       bk_callbacks := ddel agent_id (bk_callbacks b),
       bk_agent_tenants := ddel agent_id (bk_agent_tenants b)\<rparr>"

definition candidates :: "workflow_message \<Rightarrow> 'cb broker \<Rightarrow> string list" where
  "candidates m b =
     (if is_broadcast m then
        (if wm_workflow_id m \<noteq> []
         then filter (\<lambda>aid. aid \<noteq> wm_from_agent_id m)
                (dget_or [] (bk_workflow_members b) (wm_workflow_id m))
         else filter (\<lambda>aid. aid \<noteq> wm_from_agent_id m) (dkeys (bk_queues b)))
      else (case wm_to_agent_id m of
              None \<Rightarrow> []
            | Some to \<Rightarrow> if to \<noteq> [] then [to] else []))"

definition resolve_targets :: "workflow_message \<Rightarrow> 'cb broker \<Rightarrow> string list" where
  "resolve_targets m b =
     filter (\<lambda>aid. dget_or ''default'' (bk_agent_tenants b) aid = wm_tenant m) (candidates m b)"

definition ack_key :: "string \<Rightarrow> string \<Rightarrow> string" where
  "ack_key message_id agent_id = message_id @ '':'' @ agent_id"

text \<open>One turn of the loop over the targets. The callbacks called are appended to \<open>calls\<close>.\<close>

definition deliver :: "workflow_message \<Rightarrow> string \<Rightarrow> 'cb broker \<times> ('cb \<times> workflow_message) list \<Rightarrow>
    'cb broker \<times> ('cb \<times> workflow_message) list" where
  "deliver m target = (\<lambda>(b, calls).
     (case dget (bk_queues b) target of
        None \<Rightarrow> (b, calls)
      | Some queue \<Rightarrow>
          (let b = b\<lparr>bk_queues := dset target (queue @ [m]) (bk_queues b)\<rparr>;
               b = (if needs_ack m
                    then b\<lparr>bk_pending_acks := dset (ack_key (wm_message_id m) target) m
                             (bk_pending_acks b)\<rparr> else b)
           in (b, calls @ map (\<lambda>cb. (cb, m)) (dget_or [] (bk_callbacks b) target)))))"

definition with_ack_id :: "string \<Rightarrow> workflow_message \<Rightarrow> workflow_message" where
  "with_ack_id fresh m =
     (if writes_to_memory (wm_msg_type m) \<and> wm_ack_id m = [] then m\<lparr>wm_ack_id := fresh\<rparr> else m)"

definition publish :: "string \<Rightarrow> workflow_message \<Rightarrow> 'cb broker \<Rightarrow>
    'cb broker \<times> ('cb \<times> workflow_message) list" where
  "publish fresh m0 b = (let m = with_ack_id fresh m0 in fold (deliver m) (resolve_targets m b) (b, []))"

definition ack :: "string \<Rightarrow> string \<Rightarrow> 'cb broker \<Rightarrow> 'cb broker" where
  "ack agent_id message_id b =
     b\<lparr>bk_pending_acks := ddel (ack_key message_id agent_id) (bk_pending_acks b)\<rparr>"

definition wait_for_message :: "string \<Rightarrow> 'cb broker \<Rightarrow> workflow_message option \<times> 'cb broker" where
  "wait_for_message agent_id b =
     (case dget (bk_queues b) agent_id of
        None \<Rightarrow> (None, b)
      | Some [] \<Rightarrow> (None, b)
      | Some (m # queue) \<Rightarrow>
          (let b = b\<lparr>bk_queues := dset agent_id queue (bk_queues b)\<rparr> in
           (Some m, if needs_ack m then ack agent_id (wm_message_id m) b else b)))"

definition pending_messages :: "string \<Rightarrow> 'cb broker \<Rightarrow> workflow_message list \<times> 'cb broker" where
  "pending_messages agent_id b =
     (case dget (bk_queues b) agent_id of
        None \<Rightarrow> ([], b)
      | Some queue \<Rightarrow> (queue, b\<lparr>bk_queues := dset agent_id [] (bk_queues b)\<rparr>))"

text \<open>\<open>f"wf-{counter:04d}"\<close>.\<close>

definition workflow_name :: "nat \<Rightarrow> string" where
  "workflow_name n = (let s = show_nat n in ''wf-'' @ replicate (4 - length s) (CHR ''0'') @ s)"

definition create_workflow :: "'cb broker \<Rightarrow> string \<times> 'cb broker" where
  "create_workflow b =
     (let n = Suc (bk_workflow_counter b); wid = workflow_name n in
      (wid, b\<lparr>bk_workflow_counter := n, bk_workflow_members := dset wid [] (bk_workflow_members b)\<rparr>))"

definition close_broker :: "'cb broker \<Rightarrow> 'cb broker" where
  "close_broker b = b\<lparr>bk_queues := [], bk_subscriptions := [], bk_workflow_members := [],
     bk_agent_tenants := [], bk_pending_acks := [], bk_callbacks := []\<rparr>"

definition on_message :: "string \<Rightarrow> 'cb \<Rightarrow> 'cb broker \<Rightarrow> 'cb broker" where
  "on_message agent_id cb b =
     b\<lparr>bk_callbacks := dset agent_id (dget_or [] (bk_callbacks b) agent_id @ [cb]) (bk_callbacks b)\<rparr>"

definition get_workflow_members :: "string \<Rightarrow> 'cb broker \<Rightarrow> string list" where
  "get_workflow_members workflow_id b = dget_or [] (bk_workflow_members b) workflow_id"

definition get_pending_ack_count :: "'cb broker \<Rightarrow> nat" where
  "get_pending_ack_count b = length (bk_pending_acks b)"

section \<open>The broker's invariant\<close>

text \<open>
  Queues, subscriptions and tenants have the same agents; a member of a workflow is subscribed to
  it; member lists have no duplicates.
\<close>

definition members_ok :: "(string, string list) dict \<Rightarrow> (string, string list) dict \<Rightarrow> bool" where
  "members_ok subs members \<longleftrightarrow>
     (\<forall>wid ms. dget members wid = Some ms \<longrightarrow> distinct ms \<and>
        (\<forall>a \<in> set ms. wid \<in> set (dget_or [] subs a)))"

definition broker_inv :: "'cb broker \<Rightarrow> bool" where
  "broker_inv b \<longleftrightarrow>
     wf_dict (bk_queues b) \<and> wf_dict (bk_workflow_members b) \<and>
     set (dkeys (bk_subscriptions b)) = set (dkeys (bk_queues b)) \<and>
     set (dkeys (bk_agent_tenants b)) = set (dkeys (bk_queues b)) \<and>
     members_ok (bk_subscriptions b) (bk_workflow_members b)"

lemma members_okD:
  "members_ok subs members \<Longrightarrow> dget members wid = Some ms \<Longrightarrow> distinct ms"
  "members_ok subs members \<Longrightarrow> dget members wid = Some ms \<Longrightarrow> a \<in> set ms \<Longrightarrow>
     wid \<in> set (dget_or [] subs a)"
  unfolding members_ok_def by blast+

lemma dget_or_simps [simp]:
  "dget d k = None \<Longrightarrow> dget_or v d k = v" "dget d k = Some x \<Longrightarrow> dget_or v d k = x"
  by (simp_all add: dget_or_def)

lemma dget_or_dset [simp]: "dget_or v (dset k x d) k' = (if k' = k then x else dget_or v d k')"
  by (simp add: dget_or_def)

lemma set_add_simps [simp]: "set (set_add x xs) = insert x (set xs)" "distinct (set_add x xs) = distinct xs"
  by (auto simp: set_add_def)

lemma members_ok_get:
  assumes "members_ok subs members"
  shows "distinct (dget_or [] members wid)"
    and "\<forall>c \<in> set (dget_or [] members wid). wid \<in> set (dget_or [] subs c)"
proof -
  have "distinct (dget_or [] members wid) \<and>
    (\<forall>c \<in> set (dget_or [] members wid). wid \<in> set (dget_or [] subs c))"
  proof (cases "dget members wid")
    case None
    then show ?thesis by simp
  next
    case (Some ms)
    then have "dget_or [] members wid = ms" by simp
    then show ?thesis using members_okD [OF assms Some] by blast
  qed
  then show "distinct (dget_or [] members wid)"
    and "\<forall>c \<in> set (dget_or [] members wid). wid \<in> set (dget_or [] subs c)" by blast+
qed

lemma new_broker_inv [preserved]: "broker_inv new_broker"
  by (simp add: broker_inv_def members_ok_def new_broker_def)

lemma subscribe_fields [observers]:
  "bk_queues (subscribe a wid t b) =
     (if dget (bk_queues b) a = None then dset a [] (bk_queues b) else bk_queues b)"
  "bk_agent_tenants (subscribe a wid t b) = dset a (or_default_tenant t) (bk_agent_tenants b)"
  "bk_pending_acks (subscribe a wid t b) = bk_pending_acks b"
  "bk_workflow_members (subscribe a wid t b) =
     (if wid \<noteq> [] then dset wid (set_add a (dget_or [] (bk_workflow_members b) wid)) (bk_workflow_members b)
      else bk_workflow_members b)"
  by (cases "dget (bk_queues b) a = None"; cases "dget (bk_subscriptions b) a = None"; cases "wid = []";
      simp add: subscribe_def Let_def del: not_None_eq)+

lemma subscribe_subs [observers]:
  "dget (bk_subscriptions (subscribe a wid t b)) a' =
     (if a' = a then Some (if wid \<noteq> [] then set_add wid (dget_or [] (bk_subscriptions b) a)
                           else dget_or [] (bk_subscriptions b) a)
      else dget (bk_subscriptions b) a')"
  by (cases "dget (bk_subscriptions b) a") (simp_all add: subscribe_def Let_def)

lemma subscribe_keys [observers]:
  "fst ` set (bk_subscriptions (subscribe a wid t b)) = insert a (fst ` set (bk_subscriptions b))"
  by (cases "dget (bk_queues b) a = None"; cases "dget (bk_subscriptions b) a = None"; cases "wid = []";
      simp add: subscribe_def Let_def insert_absorb del: not_None_eq)
    (auto simp: insert_absorb dest: dget_key)

lemma subscribe_members_ok:
  assumes "members_ok (bk_subscriptions b) (bk_workflow_members b)"
  shows "members_ok (bk_subscriptions (subscribe a wid t b)) (bk_workflow_members (subscribe a wid t b))"
  unfolding members_ok_def
proof (intro allI impI)
  fix w ms assume g: "dget (bk_workflow_members (subscribe a wid t b)) w = Some ms"
  have sub: "set (dget_or [] (bk_subscriptions b) c) \<subseteq>
      set (dget_or [] (bk_subscriptions (subscribe a wid t b)) c)" for c
    by (auto simp: dget_or_def observers)
  show "distinct ms \<and> (\<forall>c \<in> set ms. w \<in> set (dget_or [] (bk_subscriptions (subscribe a wid t b)) c))"
  proof (cases "wid \<noteq> [] \<and> w = wid")
    case True
    define old where "old = dget_or [] (bk_workflow_members b) wid"
    have ms: "ms = set_add a old" using g True by (simp add: observers old_def)
    have o: "distinct old" "\<forall>c \<in> set old. wid \<in> set (dget_or [] (bk_subscriptions b) c)"
      unfolding old_def using members_ok_get [OF assms] by blast+
    have "wid \<in> set (dget_or [] (bk_subscriptions (subscribe a wid t b)) a)"
      using True by (simp add: dget_or_def observers)
    with o sub True ms show ?thesis by auto
  next
    case False
    with g have "dget (bk_workflow_members b) w = Some ms" by (auto simp: observers split: if_splits)
    with members_okD [OF assms] sub show ?thesis by blast
  qed
qed

lemma subscribe_inv [preserved]: "broker_inv b \<Longrightarrow> broker_inv (subscribe a wid t b)"
  unfolding broker_inv_def using subscribe_members_ok [of b a wid t]
  by (auto simp: observers insert_absorb dest: dget_key)

lemma leave_workflow_dget:
  "wf_dict ms \<Longrightarrow> dget (leave_workflow a wid ms) wid' =
     (if wid' = wid then (if removeAll a (dget_or [] ms wid) = [] then None
                        else Some (removeAll a (dget_or [] ms wid)))
      else dget ms wid')"
  by (simp add: leave_workflow_def Let_def)

lemma leave_workflow_wf [preserved]: "wf_dict ms \<Longrightarrow> wf_dict (leave_workflow a wid ms)"
  by (simp add: leave_workflow_def Let_def)

lemma fold_leave_wf: "wf_dict ms \<Longrightarrow> wf_dict (fold (leave_workflow a) wids ms)"
  by (induction wids arbitrary: ms) (simp_all add: leave_workflow_wf)

lemma fold_leave:
  "wf_dict ms \<Longrightarrow> dget (fold (leave_workflow a) wids ms) w =
     (if w \<in> set wids then (let xs = removeAll a (dget_or [] ms w) in if xs = [] then None else Some xs)
      else dget ms w)"
proof (induction wids arbitrary: ms)
  case (Cons x wids)
  note IH = Cons.IH [OF leave_workflow_wf [OF Cons.prems, of a x]]
  show ?case
  proof (cases "w = x")
    case True
    have "removeAll a (dget_or [] (leave_workflow a x ms) x) = removeAll a (dget_or [] ms x)"
      by (simp add: dget_or_def [of "[]" "leave_workflow a x ms"] leave_workflow_dget [OF Cons.prems])
    with True IH show ?thesis by (simp add: leave_workflow_dget [OF Cons.prems] Let_def)
  next
    case False
    then have "dget_or [] (leave_workflow a x ms) w = dget_or [] ms w"
      by (simp add: dget_or_def leave_workflow_dget [OF Cons.prems])
    with False IH show ?thesis by (simp add: leave_workflow_dget [OF Cons.prems])
  qed
qed simp

lemma unsubscribe_fields [observers]:
  "bk_queues (unsubscribe a b) = ddel a (bk_queues b)"
  "bk_subscriptions (unsubscribe a b) = ddel a (bk_subscriptions b)"
  "bk_agent_tenants (unsubscribe a b) = ddel a (bk_agent_tenants b)"
  "bk_callbacks (unsubscribe a b) = ddel a (bk_callbacks b)"
  "bk_pending_acks (unsubscribe a b) = bk_pending_acks b"
  by (simp_all add: unsubscribe_def)

lemma unsubscribe_members:
  assumes "broker_inv b"
  shows "dget_or [] (bk_workflow_members (unsubscribe a b)) wid =
    removeAll a (dget_or [] (bk_workflow_members b) wid)"
proof -
  have w: "wf_dict (bk_workflow_members b)" and
    ok: "members_ok (bk_subscriptions b) (bk_workflow_members b)"
    using assms by (simp_all add: broker_inv_def)
  have "a \<notin> set (dget_or [] (bk_workflow_members b) wid)"
    if "wid \<notin> set (dget_or [] (bk_subscriptions b) a)"
    using members_ok_get(2) [OF ok, of wid] that by blast
  then have "wid \<notin> set (dget_or [] (bk_subscriptions b) a) \<Longrightarrow>
      removeAll a (dget_or [] (bk_workflow_members b) wid) = dget_or [] (bk_workflow_members b) wid"
    using removeAll_id by metis
  then show ?thesis
    by (auto simp: unsubscribe_def dget_or_def [of "[]" "fold (leave_workflow a) wids ms" for wids ms]
        fold_leave [OF w] Let_def) (simp add: dget_or_def)
qed

lemma unsubscribe_inv [preserved]:
  assumes "broker_inv b"
  shows "broker_inv (unsubscribe a b)"
proof -
  have w: "wf_dict (bk_workflow_members (unsubscribe a b))"
    using fold_leave_wf assms by (simp add: unsubscribe_def broker_inv_def)
  have "members_ok (ddel a (bk_subscriptions b)) (bk_workflow_members (unsubscribe a b))"
    unfolding members_ok_def
  proof (intro allI impI)
    fix wid xs assume x: "dget (bk_workflow_members (unsubscribe a b)) wid = Some xs"
    then have xs: "xs = removeAll a (dget_or [] (bk_workflow_members b) wid)"
      using unsubscribe_members [OF assms, of a wid] by simp
    have m: "members_ok (bk_subscriptions b) (bk_workflow_members b)"
      using assms by (simp add: broker_inv_def)
    have "wid \<in> set (dget_or [] (ddel a (bk_subscriptions b)) c)" if "c \<in> set xs" for c
      using members_ok_get(2) [OF m, of wid] that xs by (auto simp: dget_or_def)
    then show "distinct xs \<and> (\<forall>c \<in> set xs. wid \<in> set (dget_or [] (ddel a (bk_subscriptions b)) c))"
      using members_ok_get(1) [OF m, of wid] xs by (simp add: distinct_removeAll)
  qed
  with w assms show ?thesis by (simp add: broker_inv_def observers)
qed

lemma deliver_frame [observers]:
  "bk_subscriptions (fst (deliver m t s)) = bk_subscriptions (fst s)"
  "bk_workflow_members (fst (deliver m t s)) = bk_workflow_members (fst s)"
  "bk_agent_tenants (fst (deliver m t s)) = bk_agent_tenants (fst s)"
  "bk_callbacks (fst (deliver m t s)) = bk_callbacks (fst s)"
  by (cases s; simp add: deliver_def Let_def split: option.split)+

lemma deliver_queues:
  "dget (bk_queues (fst (deliver m t s))) a =
     (if a = t then map_option (\<lambda>q. q @ [m]) (dget (bk_queues (fst s)) a)
      else dget (bk_queues (fst s)) a)"
  by (cases s) (auto simp: deliver_def Let_def split: option.split)

lemma deliver_wf: "wf_dict (bk_queues (fst s)) \<Longrightarrow> wf_dict (bk_queues (fst (deliver m t s)))"
  by (cases s) (auto simp: deliver_def Let_def split: option.split)

lemma deliver_fold:
  "distinct ts \<Longrightarrow>
     dget (bk_queues (fst (fold (deliver m) ts s))) a =
       (if a \<in> set ts then map_option (\<lambda>q. q @ [m]) (dget (bk_queues (fst s)) a)
        else dget (bk_queues (fst s)) a)"
  "bk_subscriptions (fst (fold (deliver m) ts s)) = bk_subscriptions (fst s)"
  "bk_workflow_members (fst (fold (deliver m) ts s)) = bk_workflow_members (fst s)"
  "bk_agent_tenants (fst (fold (deliver m) ts s)) = bk_agent_tenants (fst s)"
  "wf_dict (bk_queues (fst s)) \<Longrightarrow> wf_dict (bk_queues (fst (fold (deliver m) ts s)))"
  by (induction ts arbitrary: s) (auto simp: observers deliver_queues deliver_wf)

lemma candidates_distinct: "broker_inv b \<Longrightarrow> distinct (candidates m b)"
proof -
  assume b: "broker_inv b"
  have "distinct (dget_or [] (bk_workflow_members b) wid)" for wid
    using b members_ok_get(1) unfolding broker_inv_def by blast
  moreover have "distinct (dkeys (bk_queues b))" using b by (simp add: broker_inv_def wf_dict_def)
  ultimately show ?thesis by (simp add: candidates_def split: option.split)
qed

lemma publish_queues:
  assumes "broker_inv b"
  shows "dget (bk_queues (fst (publish fresh m b))) a =
    (if a \<in> set (resolve_targets m b)
     then map_option (\<lambda>q. q @ [with_ack_id fresh m]) (dget (bk_queues b) a) else dget (bk_queues b) a)"
proof -
  have "wm_to_agent_id (with_ack_id fresh m) = wm_to_agent_id m"
    "wm_workflow_id (with_ack_id fresh m) = wm_workflow_id m"
    "wm_from_agent_id (with_ack_id fresh m) = wm_from_agent_id m"
    "wm_tenant (with_ack_id fresh m) = wm_tenant m" by (simp_all add: with_ack_id_def)
  then have r: "resolve_targets (with_ack_id fresh m) b = resolve_targets m b"
    unfolding resolve_targets_def candidates_def is_broadcast_def by (simp only:)
  have "distinct (resolve_targets m b)"
    using candidates_distinct [OF assms] by (simp add: resolve_targets_def)
  then show ?thesis by (simp add: publish_def Let_def r deliver_fold(1))
qed

lemma publish_frame [observers]:
  "bk_subscriptions (fst (publish fresh m b)) = bk_subscriptions b"
  "bk_workflow_members (fst (publish fresh m b)) = bk_workflow_members b"
  "bk_agent_tenants (fst (publish fresh m b)) = bk_agent_tenants b"
  by (simp_all add: publish_def Let_def deliver_fold)

lemma publish_keys:
  assumes "broker_inv b"
  shows "set (dkeys (bk_queues (fst (publish fresh m b)))) = set (dkeys (bk_queues b))"
proof -
  have "k \<in> set (dkeys (bk_queues (fst (publish fresh m b)))) \<longleftrightarrow> k \<in> set (dkeys (bk_queues b))" for k
  proof -
    have "dget (bk_queues (fst (publish fresh m b))) k = None \<longleftrightarrow> dget (bk_queues b) k = None"
      by (simp add: publish_queues [OF assms])
    then show ?thesis unfolding dget_None_iff by blast
  qed
  then show ?thesis by blast
qed

lemma publish_inv [preserved]: "broker_inv b \<Longrightarrow> broker_inv (fst (publish fresh m b))"
proof -
  assume b: "broker_inv b"
  have "wf_dict (bk_queues (fst (publish fresh m b)))"
    using b by (simp add: publish_def Let_def deliver_fold broker_inv_def)
  then show ?thesis using b publish_keys [OF b, of fresh m] by (simp add: broker_inv_def observers)
qed

lemma publish_targets:
  "broker_inv b \<Longrightarrow> set (resolve_targets m (fst (publish fresh m' b))) = set (resolve_targets m b)"
  using publish_keys [of b fresh m'] by (simp add: resolve_targets_def candidates_def observers)

lemma broker_inv_queues:
  "broker_inv b \<Longrightarrow> dget (bk_queues b) a \<noteq> None \<Longrightarrow>
   broker_inv (b\<lparr>bk_queues := dset a q (bk_queues b)\<rparr>)"
  using dget_key [of "bk_queues b" a] by (auto simp: broker_inv_def insert_absorb)

lemma broker_inv_acks: "broker_inv b \<Longrightarrow> broker_inv (b\<lparr>bk_pending_acks := pa\<rparr>)"
  by (simp add: broker_inv_def)

lemma ack_inv [preserved]: "broker_inv b \<Longrightarrow> broker_inv (ack a mid b)"
  by (simp add: ack_def broker_inv_acks)

lemma wait_inv [preserved]:
  assumes "broker_inv b"
  shows "broker_inv (snd (wait_for_message a b))"
proof (cases "dget (bk_queues b) a")
  case None
  with assms show ?thesis by (simp add: wait_for_message_def)
next
  case (Some q)
  then have "broker_inv (b\<lparr>bk_queues := dset a q' (bk_queues b)\<rparr>)" for q'
    using broker_inv_queues [OF assms, of a q'] by simp
  with Some assms show ?thesis
    by (cases q) (simp_all add: wait_for_message_def Let_def ack_inv)
qed

lemma pending_inv [preserved]: "broker_inv b \<Longrightarrow> broker_inv (snd (pending_messages a b))"
  by (cases "dget (bk_queues b) a") (simp_all add: pending_messages_def broker_inv_queues)

lemma members_ok_fresh: "members_ok subs members \<Longrightarrow> members_ok subs (dset w [] members)"
  unfolding members_ok_def dget_dset by (metis distinct.simps(1) empty_iff empty_set option.inject)

lemma create_workflow_inv [preserved]: "broker_inv b \<Longrightarrow> broker_inv (snd (create_workflow b))"
  by (simp add: create_workflow_def Let_def broker_inv_def members_ok_fresh)

lemma close_inv [preserved]: "broker_inv (close_broker b)"
  by (simp add: close_broker_def broker_inv_def members_ok_def)

lemma on_message_inv [preserved]: "broker_inv b \<Longrightarrow> broker_inv (on_message a cb b)"
  by (simp add: on_message_def broker_inv_def)

section \<open>Operations in sequence\<close>

datatype 'cb broker_op =
  Subscribe string string string
| Unsubscribe string
| Publish string workflow_message
| WaitFor string
| Drain string
| Acknowledge string string
| CreateWorkflow
| CloseBroker
| OnMessage string 'cb

fun broker_op_step :: "'cb broker_op \<Rightarrow> 'cb broker \<Rightarrow> 'cb broker" where
  "broker_op_step (Subscribe a wid t) b = subscribe a wid t b"
| "broker_op_step (Unsubscribe a) b = unsubscribe a b"
| "broker_op_step (Publish fresh m) b = fst (publish fresh m b)"
| "broker_op_step (WaitFor a) b = snd (wait_for_message a b)"
| "broker_op_step (Drain a) b = snd (pending_messages a b)"
| "broker_op_step (Acknowledge a mid) b = ack a mid b"
| "broker_op_step CreateWorkflow b = snd (create_workflow b)"
| "broker_op_step CloseBroker b = close_broker b"
| "broker_op_step (OnMessage a cb) b = on_message a cb b"

definition broker_run :: "'cb broker_op list \<Rightarrow> 'cb broker" where
  "broker_run ops = fold broker_op_step ops new_broker"

lemma broker_op_inv: "broker_inv b \<Longrightarrow> broker_inv (broker_op_step x b)"
  by (cases x) (simp_all add: preserved)

interpretation brk: invariant_system "\<lambda>b. b = new_broker" broker_op_step "\<lambda>_. True" broker_inv
  by unfold_locales (simp_all add: new_broker_inv broker_op_inv)

lemma broker_run_inv: "broker_inv (broker_run ops)"
  unfolding broker_run_def by (rule brk.inv_reachable) (simp_all add: list_all_iff)

text \<open>Every agent has one tenant: the tenant that all its subscriptions name.\<close>

definition fixed_tenants :: "(string \<Rightarrow> string) \<Rightarrow> 'cb broker_op \<Rightarrow> bool" where
  "fixed_tenants ten x = (case x of Subscribe a _ t \<Rightarrow> or_default_tenant t = ten a | _ \<Rightarrow> True)"

definition tenant_inv :: "(string \<Rightarrow> string) \<Rightarrow> 'cb broker \<Rightarrow> bool" where
  "tenant_inv ten b \<longleftrightarrow> broker_inv b \<and>
     (\<forall>a t. dget (bk_agent_tenants b) a = Some t \<longrightarrow> t = ten a) \<and>
     (\<forall>a q. dget (bk_queues b) a = Some q \<longrightarrow> (\<forall>m \<in> set q. wm_tenant m = ten a))"

lemma wait_queues:
  "dget (bk_queues (snd (wait_for_message a b))) a' =
     (if a' = a then map_option tl (dget (bk_queues b) a) else dget (bk_queues b) a')"
  "bk_agent_tenants (snd (wait_for_message a b)) = bk_agent_tenants b"
  by (auto simp: wait_for_message_def Let_def ack_def split: option.split list.split)

lemma pending_queues:
  "dget (bk_queues (snd (pending_messages a b))) a' =
     (if a' = a then map_option (\<lambda>_. []) (dget (bk_queues b) a) else dget (bk_queues b) a')"
  "bk_agent_tenants (snd (pending_messages a b)) = bk_agent_tenants b"
  by (auto simp: pending_messages_def split: option.split)

lemma with_ack_tenant [simp]: "wm_tenant (with_ack_id fresh m) = wm_tenant m"
  by (simp add: with_ack_id_def)

lemma queued_has_tenant:
  "broker_inv b \<Longrightarrow> dget (bk_queues b) a = Some q \<Longrightarrow> \<exists>t. dget (bk_agent_tenants b) a = Some t"
  using dget_key [of "bk_queues b" a q] dget_None_iff [of "bk_agent_tenants b" a]
  by (auto simp: broker_inv_def)

lemma tenant_inv_publish:
  assumes "tenant_inv ten b"
  shows "tenant_inv ten (fst (publish fresh m b))"
proof -
  have b: "broker_inv b" using assms by (simp add: tenant_inv_def)
  have "wm_tenant m = ten a" if "a \<in> set (resolve_targets m b)" "dget (bk_queues b) a = Some q" for a q
    using that assms queued_has_tenant [OF b that(2)]
    by (auto simp: resolve_targets_def tenant_inv_def)
  with assms show ?thesis
    by (auto simp: tenant_inv_def publish_inv [OF b] publish_queues [OF b] observers split: if_splits)
qed

lemma tenant_inv_step:
  assumes "tenant_inv ten b" and "fixed_tenants ten x"
  shows "tenant_inv ten (broker_op_step x b)"
proof -
  have b: "broker_inv b" using assms(1) by (simp add: tenant_inv_def)
  have b': "broker_inv (broker_op_step x b)" by (rule broker_op_inv [OF b])
  show ?thesis
  proof (cases x)
    case (Subscribe a wid t)
    with assms b' show ?thesis by (auto simp: tenant_inv_def fixed_tenants_def observers)
  next
    case (Publish fresh m)
    with tenant_inv_publish [OF assms(1)] show ?thesis by simp
  next
    case (WaitFor a)
    with assms(1) b' show ?thesis
      by (auto simp: tenant_inv_def wait_queues) (metis list.set_sel(2) tl_Nil)
  qed (use assms(1) b' in \<open>auto simp: tenant_inv_def observers pending_queues ack_def
      create_workflow_def Let_def close_broker_def on_message_def split: if_splits\<close>)
qed

lemma tenant_inv_new: "tenant_inv ten new_broker"
  unfolding tenant_inv_def using new_broker_inv by (simp add: new_broker_def)

interpretation ten: invariant_system "\<lambda>b. b = new_broker" broker_op_step "fixed_tenants ten"
  "tenant_inv ten" for ten
  by unfold_locales (simp_all only: tenant_inv_new tenant_inv_step)

section \<open>Properties\<close>

definition demo_message :: "string \<Rightarrow> string option \<Rightarrow> string \<Rightarrow> workflow_message_type \<Rightarrow> workflow_message" where
  "demo_message mid to tenant t =
     \<lparr>wm_message_id = mid, wm_workflow_id = ''w'', wm_from_agent_id = ''a'', wm_to_agent_id = to,
      wm_msg_type = t, wm_role = ROLE_AGENT, wm_content = ''hi'', wm_tenant = tenant,
      wm_metadata = [], wm_timestamp = 0, wm_ack_id = []\<rparr>"

text \<open>
  What a publish does to every queue of a broker reached by any operations. The queue of an
  agent gets exactly one copy of the message (with the generated ack id if its type requires one)
  at its end when the agent has the message's tenant and is addressed: by name, or by a broadcast
  of another agent that names no workflow or a workflow the agent is a member of. No other queue
  changes and no queue is created.
\<close>

theorem publish_correct:
  "dget (bk_queues (fst (publish fresh m (broker_run ops)))) a =
   (case dget (bk_queues (broker_run ops)) a of
      None \<Rightarrow> None
    | Some q \<Rightarrow>
        if dget (bk_agent_tenants (broker_run ops)) a = Some (wm_tenant m) \<and>
           (if is_broadcast m
            then a \<noteq> wm_from_agent_id m \<and>
              (wm_workflow_id m = [] \<or> a \<in> set (get_workflow_members (wm_workflow_id m) (broker_run ops)))
            else wm_to_agent_id m = Some a \<and> a \<noteq> [])
        then Some (q @ [with_ack_id fresh m]) else Some q)"
proof (cases "dget (bk_queues (broker_run ops)) a")
  case None
  then show ?thesis by (simp add: publish_queues [OF broker_run_inv])
next
  case (Some q)
  then obtain t where t: "dget (bk_agent_tenants (broker_run ops)) a = Some t"
    using queued_has_tenant [OF broker_run_inv] by blast
  have "a \<in> set (resolve_targets m (broker_run ops)) \<longleftrightarrow> t = wm_tenant m \<and>
      (if is_broadcast m then a \<noteq> wm_from_agent_id m \<and>
         (wm_workflow_id m = [] \<or> a \<in> set (get_workflow_members (wm_workflow_id m) (broker_run ops)))
       else wm_to_agent_id m = Some a \<and> a \<noteq> [])"
    using t dget_key [OF Some]
    by (auto simp: resolve_targets_def candidates_def get_workflow_members_def split: option.split)
  with Some t show ?thesis by (auto simp: publish_queues [OF broker_run_inv])
qed

text \<open>
  C8: Tenant isolation: whatever operations run on the broker, if every agent is only ever
  subscribed under one tenant, then no message of another tenant is in its queue.
\<close>

theorem tenant_isolation:
  assumes "list_all (fixed_tenants ten) ops" and "dget (bk_queues (broker_run ops)) a = Some q"
    and "m \<in> set q"
  shows "wm_tenant m = ten a"
  using ten.inv_reachable [OF refl assms(1)] assms(2,3)
  unfolding broker_run_def tenant_inv_def by blast

theorem tenant_isolation_witness:
  "wm_tenant (demo_message ''m'' None ''t'' STATUS) = ''t''"
proof -
  let ?m = "demo_message ''m'' None ''t'' STATUS"
  let ?ops = "[Subscribe ''a'' ''w'' ''t'', Subscribe ''b'' ''w'' ''t'', Subscribe ''c'' ''w'' ''u'',
    Publish ''k'' ?m] :: unit broker_op list"
  have q: "dget (bk_queues (broker_run ?ops)) ''b'' = Some [?m]" by code_simp
  show ?thesis
    by (rule tenant_isolation [of "\<lambda>x. if x = ''c'' then ''u'' else ''t''" ?ops "''b''" "[?m]" ?m, simplified])
      (simp_all add: q, simp_all add: fixed_tenants_def or_default_tenant_def)
qed

text \<open>
  Unsubscribing an agent of a reachable broker removes it everywhere: its queue, its
  subscriptions, its tenant, its callbacks and its membership of every workflow; the queues of the
  other agents and their place in every workflow stay.
\<close>

theorem unsubscribe_removes:
  "(let b = broker_run ops; b' = unsubscribe a b in
      dget (bk_queues b') a = None \<and> dget (bk_subscriptions b') a = None \<and>
      dget (bk_agent_tenants b') a = None \<and> dget (bk_callbacks b') a = None \<and>
      (\<forall>wid. get_workflow_members wid b' = removeAll a (get_workflow_members wid b)) \<and>
      (\<forall>c. c \<noteq> a \<longrightarrow> dget (bk_queues b') c = dget (bk_queues b) c))"
  using unsubscribe_members [OF broker_run_inv, of a ops]
  by (simp add: Let_def observers get_workflow_members_def)

theorem unsubscribe_removes_witness:
  "dget (bk_queues (broker_run [Subscribe ''a'' ''w'' ''t'', Subscribe ''b'' ''w'' ''t''] :: unit broker)) ''b'' = Some [] \<and>
   dget (bk_queues (unsubscribe ''a''
     (broker_run [Subscribe ''a'' ''w'' ''t'', Subscribe ''b'' ''w'' ''t''] :: unit broker))) ''b'' = Some []"
proof -
  let ?ops = "[Subscribe ''a'' ''w'' ''t'', Subscribe ''b'' ''w'' ''t''] :: unit broker_op list"
  have b: "dget (bk_queues (broker_run ?ops)) ''b'' = Some []" by code_simp
  have "\<forall>c. c \<noteq> ''a'' \<longrightarrow>
      dget (bk_queues (unsubscribe ''a'' (broker_run ?ops))) c = dget (bk_queues (broker_run ?ops)) c"
    using unsubscribe_removes [of ?ops "''a''"] unfolding Let_def by (elim conjE)
  then have "dget (bk_queues (unsubscribe ''a'' (broker_run ?ops))) ''b'' = dget (bk_queues (broker_run ?ops)) ''b''"
    by (rule allE [where x = "''b''"]) (erule mp, simp only: list.inject char.inject, simp)
  with b show ?thesis by (simp only: simp_thms)
qed

section \<open>First in, first out\<close>

definition publish_all :: "(string \<times> workflow_message) list \<Rightarrow> 'cb broker \<Rightarrow> 'cb broker" where
  "publish_all fms b = fold (\<lambda>(fresh, m) b. fst (publish fresh m b)) fms b"

fun receive :: "nat \<Rightarrow> string \<Rightarrow> 'cb broker \<Rightarrow> workflow_message option list \<times> 'cb broker" where
  "receive 0 a b = ([], b)"
| "receive (Suc n) a b =
     (let (m, b1) = wait_for_message a b; (ms, b2) = receive n a b1 in (m # ms, b2))"

lemma publish_all_queue:
  "broker_inv b \<Longrightarrow> \<forall>(fresh, m) \<in> set fms. a \<in> set (resolve_targets m b) \<Longrightarrow>
   dget (bk_queues b) a = Some q \<Longrightarrow>
   dget (bk_queues (publish_all fms b)) a = Some (q @ map (\<lambda>(fresh, m). with_ack_id fresh m) fms)"
proof (induction fms arbitrary: b q)
  case (Cons p fms)
  obtain fresh m where p: "p = (fresh, m)" by (cases p)
  let ?b = "fst (publish fresh m b)"
  have "dget (bk_queues ?b) a = Some (q @ [with_ack_id fresh m])"
    using Cons.prems p by (simp add: publish_queues)
  from Cons.IH [OF publish_inv [OF Cons.prems(1)] _ this] Cons.prems p show ?case
    by (simp add: publish_all_def publish_targets case_prod_unfold)
qed (simp add: publish_all_def)

lemma receive_acks_sub: "dget (bk_pending_acks (snd (receive n a b))) k = Some m \<Longrightarrow>
    dget (bk_pending_acks b) k = Some m"
proof (induction n arbitrary: b)
  case (Suc n)
  obtain r b1 where w: "wait_for_message a b = (r, b1)" by (cases "wait_for_message a b")
  from Suc.prems w have "dget (bk_pending_acks (snd (receive n a b1))) k = Some m"
    by (simp add: Let_def case_prod_unfold)
  from Suc.IH [OF this] have "dget (bk_pending_acks b1) k = Some m" .
  with w show ?case
    by (auto simp: wait_for_message_def ack_def Let_def split: option.splits list.splits if_splits)
qed simp

lemma receive_queue:
  "dget (bk_queues b) a = Some ms \<Longrightarrow>
   fst (receive (length ms) a b) = map Some ms \<and>
   (\<forall>m \<in> set ms. needs_ack m \<longrightarrow>
      dget (bk_pending_acks (snd (receive (length ms) a b))) (ack_key (wm_message_id m) a) = None)"
proof (induction ms arbitrary: b)
  case (Cons m ms)
  obtain b1 where w: "wait_for_message a b = (Some m, b1)" "dget (bk_queues b1) a = Some ms"
    "needs_ack m \<Longrightarrow> dget (bk_pending_acks b1) (ack_key (wm_message_id m) a) = None"
    using Cons.prems by (simp add: wait_for_message_def ack_def Let_def)
  note IH = Cons.IH [OF w(2)]
  have "dget (bk_pending_acks (snd (receive (length ms) a b1))) (ack_key (wm_message_id m) a) = None"
    if "needs_ack m"
    using receive_acks_sub [of "length ms" a b1 "ack_key (wm_message_id m) a"] w(3) [OF that]
    by (cases "dget (bk_pending_acks (snd (receive (length ms) a b1))) (ack_key (wm_message_id m) a)")
      simp_all
  with IH w(1) show ?case by (simp add: Let_def case_prod_unfold)
qed simp

text \<open>
  C11: Delivery is first in, first out: messages published to an agent with an empty queue on a
  reachable broker are returned by its next waits in the order of publication, none lost and none
  repeated, and afterwards none of them is pending an acknowledgement by that agent.
\<close>

theorem broker_fifo:
  assumes "dget (bk_queues (broker_run ops)) a = Some []"
    and "\<forall>(fresh, m) \<in> set fms. a \<in> set (resolve_targets m (broker_run ops))"
  shows "fst (receive (length fms) a (publish_all fms (broker_run ops))) =
      map (\<lambda>(fresh, m). Some (with_ack_id fresh m)) fms \<and>
    (\<forall>(fresh, m) \<in> set fms. needs_ack (with_ack_id fresh m) \<longrightarrow>
       dget (bk_pending_acks (snd (receive (length fms) a (publish_all fms (broker_run ops)))))
         (ack_key (wm_message_id m) a) = None)"
proof -
  let ?ms = "map (\<lambda>(fresh, m). with_ack_id fresh m) fms"
  have "dget (bk_queues (publish_all fms (broker_run ops))) a = Some ?ms"
    using publish_all_queue [OF broker_run_inv assms(2,1)] by simp
  from receive_queue [OF this] show ?thesis
    by (force simp: comp_def case_prod_unfold with_ack_id_def split: if_splits)
qed

theorem broker_fifo_witness:
  "fst (receive 2 ''b'' (publish_all
     [(''k1'', demo_message ''m1'' (Some ''b'') ''t'' TASK), (''k2'', demo_message ''m2'' None ''t'' STATUS)]
     (broker_run [Subscribe ''a'' ''w'' ''t'', Subscribe ''b'' ''w'' ''t''] :: unit broker))) =
   [Some ((demo_message ''m1'' (Some ''b'') ''t'' TASK)\<lparr>wm_ack_id := ''k1''\<rparr>),
    Some (demo_message ''m2'' None ''t'' STATUS)]"
proof -
  let ?ops = "[Subscribe ''a'' ''w'' ''t'', Subscribe ''b'' ''w'' ''t''] :: unit broker_op list"
  let ?fms = "[(''k1'', demo_message ''m1'' (Some ''b'') ''t'' TASK),
    (''k2'', demo_message ''m2'' None ''t'' STATUS)]"
  have q: "dget (bk_queues (broker_run ?ops)) ''b'' = Some []" by code_simp
  have t: "''b'' \<in> set (resolve_targets (demo_message ''m1'' (Some ''b'') ''t'' TASK) (broker_run ?ops))"
    "''b'' \<in> set (resolve_targets (demo_message ''m2'' None ''t'' STATUS) (broker_run ?ops))"
    by code_simp+
  have "fst (receive (length ?fms) ''b'' (publish_all ?fms (broker_run ?ops))) =
      map (\<lambda>(fresh, m). Some (with_ack_id fresh m)) ?fms"
    using broker_fifo [OF q, of ?fms] t by simp
  then show ?thesis
    by (simp add: with_ack_id_def writes_to_memory_def demo_message_def numeral_2_eq_2)
qed

text \<open>
  Draining the queue without waiting, or unsubscribing, leaves the acknowledgement pending: a
  task message that is delivered and then fetched by \<open>pending_messages\<close> is still counted after the
  agent is gone, although no queue holds it and no operation sends it again.
\<close>

theorem drained_message_stays_pending:
  "(let b = broker_run [Subscribe ''a'' ''w'' ''t'', Subscribe ''b'' ''w'' ''t''] :: unit broker;
        (b1, _) = publish ''k1'' (demo_message ''m1'' (Some ''b'') ''t'' TASK) b;
        (ms, b2) = pending_messages ''b'' b1; b3 = unsubscribe ''b'' b2
    in map wm_message_id ms = [''m1''] \<and> get_pending_ack_count b3 = 1 \<and>
       dget (bk_queues b3) ''b'' = None)"
  by code_simp

end
