(* ===== verification/BusServer.thy ===== *)
theory BusServer
  imports Broker Auth
begin

text \<open>
  \<open>youmi/bus/server.py\<close>: the WebSocket server around the broker. A connection is an identity of
  a type \<open>'c\<close>; what arrives on it is a frame (invalid, or an envelope), what the server sends on
  it is a list of replies. Parsing a payload into a message (\<open>WorkflowMessage(**payload)\<close>, done by
  pydantic) is the argument \<open>parse\<close>, \<open>None\<close> when it raises. The fields of a payload that the
  server reads are strings.
\<close>

section \<open>Envelopes and the server's state\<close>

record bus_envelope =
  be_envelope_type :: string
  be_agent_id :: string
  be_payload :: "(string, json) dict"

definition payload_get :: "(string, json) dict \<Rightarrow> string \<Rightarrow> string" where
  "payload_get d k = (case dget d k of Some (JStr s) \<Rightarrow> s | _ \<Rightarrow> [])"

definition subscribe_envelope :: "string \<Rightarrow> string \<Rightarrow> string \<Rightarrow> bus_envelope" where
  "subscribe_envelope agent_id workflow_id token =
     \<lparr>be_envelope_type = ''subscribe'', be_agent_id = agent_id,
      be_payload = (''workflow_id'', JStr workflow_id) #
        (if token \<noteq> [] then [(''token'', JStr token)] else [])\<rparr>"

definition ack_envelope :: "string \<Rightarrow> string \<Rightarrow> bus_envelope" where
  "ack_envelope message_id agent_id =
     \<lparr>be_envelope_type = ''ack'', be_agent_id = agent_id,
      be_payload = [(''message_id'', JStr message_id)]\<rparr>"

definition heartbeat_envelope :: "string \<Rightarrow> bus_envelope" where
  "heartbeat_envelope agent_id =
     \<lparr>be_envelope_type = ''heartbeat'', be_agent_id = agent_id, be_payload = []\<rparr>"

datatype frame = InvalidFrame | Frame bus_envelope

datatype reply =
  InvalidEnvelope
| MustSubscribeFirst
| Unauthorized
| Subscribed string string
| HeartbeatAck string
| Pushed workflow_message

record ('c, 'cb) bus_server =
  sv_broker :: "'cb broker"
  sv_connections :: "(string, 'c) dict"
  sv_heartbeats :: "(string, rat) dict"
  sv_agent_tenants :: "(string, string) dict"
  sv_running :: bool

definition new_bus_server :: "'cb broker \<Rightarrow> ('c, 'cb) bus_server" where
  "new_bus_server b = \<lparr>sv_broker = b, sv_connections = [], sv_heartbeats = [],
     sv_agent_tenants = [], sv_running = False\<rparr>"

definition start_server :: "('c, 'cb) bus_server \<Rightarrow> ('c, 'cb) bus_server" where
  "start_server s = s\<lparr>sv_running := True\<rparr>"

definition cleanup_agent :: "string \<Rightarrow> ('c, 'cb) bus_server \<Rightarrow> ('c, 'cb) bus_server" where
  "cleanup_agent agent_id s =
     s\<lparr>sv_connections := ddel agent_id (sv_connections s),
       sv_heartbeats := ddel agent_id (sv_heartbeats s),
       sv_agent_tenants := ddel agent_id (sv_agent_tenants s),
       sv_broker := unsubscribe agent_id (sv_broker s)\<rparr>"

definition stop_server :: "('c, 'cb) bus_server \<Rightarrow> ('c, 'cb) bus_server" where
  "stop_server s =
     s\<lparr>sv_running := False,
       sv_broker := close_broker (fold unsubscribe (dkeys (sv_connections s)) (sv_broker s)),
       sv_connections := [], sv_heartbeats := []\<rparr>"

text \<open>\<open>broadcast_envelope\<close>: \<open>gone\<close> tells on which connections the send finds the peer gone.\<close>

definition broadcast_envelope :: "('c \<Rightarrow> bool) \<Rightarrow> ('c, 'cb) bus_server \<Rightarrow>
    'c list \<times> ('c, 'cb) bus_server" where
  "broadcast_envelope gone s =
     (let disconnected = dkeys (filter (\<lambda>(_, conn). gone conn) (sv_connections s)) in
      (filter (\<lambda>conn. \<not> gone conn) (dvals (sv_connections s)), fold cleanup_agent disconnected s))"

section \<open>Envelopes of a connected agent\<close>

text \<open>The first component is \<open>None\<close> when the handler raises.\<close>

definition handle_envelope :: "rat \<Rightarrow> string \<Rightarrow> ((string, json) dict \<Rightarrow> workflow_message option) \<Rightarrow>
    string \<Rightarrow> bus_envelope \<Rightarrow> ('c, 'cb) bus_server \<Rightarrow> reply list option \<times> ('c, 'cb) bus_server" where
  "handle_envelope now fresh parse agent_id env s0 =
     (let s = s0\<lparr>sv_heartbeats := dset agent_id now (sv_heartbeats s0)\<rparr> in
      if be_envelope_type env = ''message'' then
        (case parse (be_payload env) of
           None \<Rightarrow> (None, s)
         | Some m \<Rightarrow>
             (let m = m\<lparr>wm_tenant := dget_or ''default'' (sv_agent_tenants s) agent_id\<rparr> in
              (Some [], s\<lparr>sv_broker := fst (publish fresh m (sv_broker s))\<rparr>)))
      else if be_envelope_type env = ''ack'' then
        (let message_id = payload_get (be_payload env) ''message_id'' in
         (Some [], if message_id \<noteq> [] then s\<lparr>sv_broker := ack agent_id message_id (sv_broker s)\<rparr> else s))
      else if be_envelope_type env = ''heartbeat'' then (Some [HeartbeatAck agent_id], s)
      else if be_envelope_type env = ''subscribe'' then
        (let workflow_id = payload_get (be_payload env) ''workflow_id'' in
         if workflow_id \<noteq> []
         then (Some [Subscribed agent_id workflow_id],
               s\<lparr>sv_broker := subscribe agent_id workflow_id ''default'' (sv_broker s)\<rparr>)
         else (Some [], s))
      else (Some [], s))"

section \<open>The life of a connection\<close>

text \<open>
  \<open>agent_id\<close> of \<open>_handle_connection\<close>: \<open>None\<close> is \<open>NoAgent\<close>; \<open>Ended\<close> is a connection whose
  handler has returned.
\<close>

datatype conn_state = NoAgent | Agent string | Ended

text \<open>The \<open>finally\<close> block.\<close>

definition end_connection :: "conn_state \<Rightarrow> ('c, 'cb) bus_server \<Rightarrow> ('c, 'cb) bus_server" where
  "end_connection cs s = (case cs of Agent a \<Rightarrow> if a \<noteq> [] then cleanup_agent a s else s | _ \<Rightarrow> s)"

definition accept_agent :: "rat \<Rightarrow> 'c \<Rightarrow> bus_envelope \<Rightarrow> principal \<Rightarrow> ('c, 'cb) bus_server \<Rightarrow>
    ('c, 'cb) bus_server" where
  "accept_agent now conn env p s =
     (let a = be_agent_id env; wid = payload_get (be_payload env) ''workflow_id'' in
      s\<lparr>sv_broker := subscribe a wid (pr_tenant p) (sv_broker s),
        sv_connections := dset a conn (sv_connections s),
        sv_heartbeats := dset a now (sv_heartbeats s),
        sv_agent_tenants := dset a (pr_tenant p) (sv_agent_tenants s)\<rparr>)"

definition connection_step :: "(string option \<Rightarrow> principal option) \<Rightarrow> rat \<Rightarrow> string \<Rightarrow>
    ((string, json) dict \<Rightarrow> workflow_message option) \<Rightarrow> 'c \<Rightarrow> frame \<Rightarrow>
    conn_state \<times> ('c, 'cb) bus_server \<Rightarrow> reply list \<times> conn_state \<times> ('c, 'cb) bus_server" where
  "connection_step validate now fresh parse conn fr = (\<lambda>(cs, s).
     (case cs of
        Ended \<Rightarrow> ([], Ended, s)
      | NoAgent \<Rightarrow>
          (case fr of
             InvalidFrame \<Rightarrow> ([InvalidEnvelope], NoAgent, s)
           | Frame env \<Rightarrow>
               if be_envelope_type env \<noteq> ''subscribe'' then ([MustSubscribeFirst], NoAgent, s)
               else (case validate (Some (payload_get (be_payload env) ''token'')) of
                       None \<Rightarrow> ([Unauthorized], Ended, s)
                     | Some p \<Rightarrow>
                         ([Subscribed (be_agent_id env) (payload_get (be_payload env) ''workflow_id'')],
                          Agent (be_agent_id env), accept_agent now conn env p s)))
      | Agent a \<Rightarrow>
          (case fr of
             InvalidFrame \<Rightarrow> ([InvalidEnvelope], Agent a, s)
           | Frame env \<Rightarrow>
               (case handle_envelope now fresh parse a env s of
                  (None, s') \<Rightarrow> ([], Ended, end_connection (Agent a) s')
                | (Some replies, s') \<Rightarrow> (replies, Agent a, s')))))"

text \<open>The peer closes the connection.\<close>

definition connection_closed :: "conn_state \<times> ('c, 'cb) bus_server \<Rightarrow> conn_state \<times> ('c, 'cb) bus_server" where
  "connection_closed = (\<lambda>(cs, s). (Ended, end_connection cs s))"

text \<open>
  One turn of \<open>_push_loop\<close>: the message is taken from the queue (and acknowledged) before it is
  sent; \<open>peer_gone\<close> is the case that the send raises \<open>ConnectionClosed\<close>. The first component says
  whether the loop goes on.
\<close>

definition push_turn :: "bool \<Rightarrow> string \<Rightarrow> ('c, 'cb) bus_server \<Rightarrow>
    bool \<times> reply list \<times> ('c, 'cb) bus_server" where
  "push_turn peer_gone agent_id s =
     (if \<not> sv_running s then (False, [], s)
      else (case wait_for_message agent_id (sv_broker s) of
              (None, b) \<Rightarrow> (True, [], s\<lparr>sv_broker := b\<rparr>)
            | (Some m, b) \<Rightarrow>
                if peer_gone then (False, [], s\<lparr>sv_broker := b\<rparr>)
                else (True, [Pushed m], s\<lparr>sv_broker := b\<rparr>)))"

section \<open>Properties\<close>

text \<open>
  C12: No unauthenticated effect. Whatever frame arrives first on a connection, either the server's
  state (broker included) is unchanged, or the frame is a subscription whose token validates to a
  principal, and then the agent is registered with that principal's tenant in the broker and in
  the server.
\<close>

theorem unauthenticated_no_effect:
  assumes "connection_step validate now fresh parse conn fr (NoAgent, s) = (replies, cs, s')"
  shows "(s' = s \<and> (cs = NoAgent \<or> cs = Ended)) \<or>
    (\<exists>env p. fr = Frame env \<and> be_envelope_type env = ''subscribe'' \<and>
       validate (Some (payload_get (be_payload env) ''token'')) = Some p \<and>
       cs = Agent (be_agent_id env) \<and>
       dget (bk_agent_tenants (sv_broker s')) (be_agent_id env) = Some (or_default_tenant (pr_tenant p)) \<and>
       dget (sv_agent_tenants s') (be_agent_id env) = Some (pr_tenant p))"
proof (cases fr)
  case InvalidFrame
  with assms show ?thesis by (simp add: connection_step_def)
next
  case (Frame env)
  show ?thesis
  proof (cases "be_envelope_type env = ''subscribe''")
    case True
    with assms Frame show ?thesis
      by (cases "validate (Some (payload_get (be_payload env) ''token''))")
        (auto simp: connection_step_def accept_agent_def Let_def observers)
  next
    case False
    with assms Frame show ?thesis by (simp add: connection_step_def)
  qed
qed

definition demo_validate :: "string option \<Rightarrow> principal option" where
  "demo_validate = validate_token (\<lambda>_. []) (new_auth_manager demo_tokens)"

theorem unauthenticated_no_effect_witness:
  "connection_step demo_validate 1 ''k'' (\<lambda>_. None) () (Frame (subscribe_envelope ''x'' ''w'' ''bad''))
     (NoAgent, new_bus_server new_broker :: (unit, unit) bus_server) =
   ([Unauthorized], Ended, new_bus_server new_broker)"
proof -
  have v: "demo_validate (Some ''bad'') = None" by code_simp
  obtain r cs s' where st: "connection_step demo_validate 1 ''k'' (\<lambda>_. None) ()
      (Frame (subscribe_envelope ''x'' ''w'' ''bad'')) (NoAgent, new_bus_server new_broker) =
      (r, cs, s' :: (unit, unit) bus_server)" by (rule prod_cases3)
  have p: "payload_get (be_payload (subscribe_envelope ''x'' ''w'' ''bad'')) ''token'' = ''bad''"
    by code_simp
  from unauthenticated_no_effect [OF st] v p have "s' = new_bus_server new_broker" by auto
  moreover have "r = [Unauthorized]" "cs = Ended"
    using st v p by (simp_all add: connection_step_def subscribe_envelope_def)
  ultimately show ?thesis using st by simp
qed

text \<open>
  A client cannot choose its tenant: a message it sends is published under the tenant of the
  principal it authenticated with, so it changes no queue of an agent of another tenant, whatever
  tenant its payload claims.
\<close>

theorem message_tenant_enforced:
  assumes "broker_inv (sv_broker s)" and "dget (sv_agent_tenants s) a = Some t"
    and "be_envelope_type env = ''message''"
    and "connection_step validate now fresh parse conn (Frame env) (Agent a, s) = (replies, Agent a, s')"
    and "dget (bk_agent_tenants (sv_broker s)) c = Some tc" and "tc \<noteq> t"
  shows "dget (bk_queues (sv_broker s')) c = dget (bk_queues (sv_broker s)) c"
proof (cases "parse (be_payload env)")
  case None
  with assms(3,4) show ?thesis by (simp add: connection_step_def handle_envelope_def Let_def)
next
  case (Some m)
  with assms(2,3,4)
  have s': "sv_broker s' = fst (publish fresh (m\<lparr>wm_tenant := t\<rparr>) (sv_broker s))"
    by (auto simp: connection_step_def handle_envelope_def Let_def)
  have "c \<notin> set (resolve_targets (m\<lparr>wm_tenant := t\<rparr>) (sv_broker s))"
    using assms(5,6) by (simp add: resolve_targets_def)
  then show ?thesis by (simp add: s' publish_queues [OF assms(1)])
qed

definition demo_server :: "(unit, unit) bus_server" where
  "demo_server = snd (snd (connection_step demo_validate 1 ''k'' (\<lambda>_. None) ()
     (Frame (subscribe_envelope ''x'' ''w'' ''k1''))
     (NoAgent, snd (snd (connection_step demo_validate 1 ''k'' (\<lambda>_. None) ()
        (Frame (subscribe_envelope ''y'' ''w'' ''k2'')) (NoAgent, new_bus_server new_broker))))))"

lemma demo_server_inv: "broker_inv (sv_broker demo_server)"
proof -
  have "sv_broker demo_server =
    subscribe ''x'' ''w'' ''acme'' (subscribe ''y'' ''w'' ''beta'' new_broker)" by code_simp
  then show ?thesis by (simp add: preserved)
qed

text \<open>Agent \<open>x\<close> of tenant \<open>acme\<close> claims tenant \<open>beta\<close> to reach agent \<open>y\<close>.\<close>

theorem message_tenant_enforced_witness:
  "dget (bk_queues (sv_broker (snd (snd (connection_step demo_validate 2 ''k''
     (\<lambda>_. Some (demo_message ''m'' (Some ''y'') ''beta'' TASK)) ()
     (Frame \<lparr>be_envelope_type = ''message'', be_agent_id = ''x'', be_payload = []\<rparr>)
     (Agent ''x'', demo_server)))))) ''y'' = dget (bk_queues (sv_broker demo_server)) ''y''"
proof (rule message_tenant_enforced [OF demo_server_inv, of "''x''" "''acme''"])
  show "dget (sv_agent_tenants demo_server) ''x'' = Some ''acme''" by code_simp
  show "dget (bk_agent_tenants (sv_broker demo_server)) ''y'' = Some ''beta''" by code_simp
  show "connection_step demo_validate 2 ''k'' (\<lambda>_. Some (demo_message ''m'' (Some ''y'') ''beta'' TASK)) ()
      (Frame \<lparr>be_envelope_type = ''message'', be_agent_id = ''x'', be_payload = []\<rparr>) (Agent ''x'', demo_server) =
    ([], Agent ''x'', snd (snd (connection_step demo_validate 2 ''k''
      (\<lambda>_. Some (demo_message ''m'' (Some ''y'') ''beta'' TASK)) ()
      (Frame \<lparr>be_envelope_type = ''message'', be_agent_id = ''x'', be_payload = []\<rparr>) (Agent ''x'', demo_server))))"
    by (simp add: connection_step_def handle_envelope_def Let_def)
qed simp_all

text \<open>
  A further subscription on an authenticated connection drops the agent's tenant: whatever
  tenant it had, the broker then holds \<open>default\<close> for it, while the server still publishes its
  messages under the authenticated tenant. So messages of its own tenant no longer reach it and
  messages of tenant \<open>default\<close> do.
\<close>

theorem resubscribe_resets_tenant:
  assumes "be_envelope_type env = ''subscribe''" and "payload_get (be_payload env) ''workflow_id'' \<noteq> []"
    and "connection_step validate now fresh parse conn (Frame env) (Agent a, s) = (replies, cs, s')"
  shows "dget (bk_agent_tenants (sv_broker s')) a = Some ''default'' \<and>
    dget (sv_agent_tenants s') a = dget (sv_agent_tenants s) a"
  using assms by (auto simp: connection_step_def handle_envelope_def Let_def observers or_default_tenant_def)

theorem resubscribe_resets_tenant_witness:
  "dget (sv_agent_tenants demo_server) ''x'' = Some ''acme'' \<and>
   dget (bk_agent_tenants (sv_broker demo_server)) ''x'' = Some ''acme'' \<and>
   dget (bk_agent_tenants (sv_broker (snd (snd (connection_step demo_validate 2 ''k'' (\<lambda>_. None) ()
     (Frame (subscribe_envelope ''x'' ''w2'' [])) (Agent ''x'', demo_server)))))) ''x'' = Some ''default''"
proof (intro conjI)
  show "dget (sv_agent_tenants demo_server) ''x'' = Some ''acme''" by code_simp
  show "dget (bk_agent_tenants (sv_broker demo_server)) ''x'' = Some ''acme''" by code_simp
  show "dget (bk_agent_tenants (sv_broker (snd (snd (connection_step demo_validate 2 ''k'' (\<lambda>_. None) ()
     (Frame (subscribe_envelope ''x'' ''w2'' [])) (Agent ''x'', demo_server)))))) ''x'' = Some ''default''"
  proof -
    let ?env = "subscribe_envelope ''x'' ''w2'' []"
    obtain r cs s' where st: "connection_step demo_validate 2 ''k'' (\<lambda>_. None) () (Frame ?env)
        (Agent ''x'', demo_server) = (r, cs, s')" by (rule prod_cases3)
    have "be_envelope_type ?env = ''subscribe''" "payload_get (be_payload ?env) ''workflow_id'' \<noteq> []"
      by (simp_all add: subscribe_envelope_def payload_get_def)
    from resubscribe_resets_tenant [OF this st] st show ?thesis by simp
  qed
qed

text \<open>
  When the connection of an agent with a non-empty id ends, nothing of the agent is left: no
  connection, heartbeat or tenant in the server, no queue, subscription, tenant or membership in
  the broker.
\<close>

theorem disconnect_cleans_up:
  assumes "broker_inv (sv_broker s)" and "a \<noteq> []"
  shows "(let (cs, s') = connection_closed (Agent a, s) in cs = Ended \<and>
    dget (sv_connections s') a = None \<and> dget (sv_heartbeats s') a = None \<and>
    dget (sv_agent_tenants s') a = None \<and> dget (bk_queues (sv_broker s')) a = None \<and>
    dget (bk_subscriptions (sv_broker s')) a = None \<and>
    dget (bk_agent_tenants (sv_broker s')) a = None \<and>
    (\<forall>wid. a \<notin> set (get_workflow_members wid (sv_broker s'))))"
  using assms(2) unsubscribe_members [OF assms(1), of a]
  by (simp add: connection_closed_def end_connection_def cleanup_agent_def observers get_workflow_members_def)

theorem disconnect_cleans_up_witness:
  "dget (sv_connections demo_server) ''x'' = Some () \<and>
   dget (sv_connections (snd (connection_closed (Agent ''x'', demo_server)))) ''x'' = None"
proof
  show "dget (sv_connections demo_server) ''x'' = Some ()" by code_simp
  show "dget (sv_connections (snd (connection_closed (Agent ''x'', demo_server)))) ''x'' = None"
    using disconnect_cleans_up [OF demo_server_inv, of "''x''"] by (simp add: case_prod_unfold Let_def)
qed

text \<open>
  An agent that connects with the empty id is never cleaned up: ending its connection leaves
  the server and the broker as they are, with its queue and connection entry in place.
\<close>

theorem empty_agent_id_leaks:
  "(let (_, cs, s) = connection_step demo_validate 1 ''k'' (\<lambda>_. None) ()
          (Frame (subscribe_envelope [] ''w'' ''k1'')) (NoAgent, new_bus_server new_broker :: (unit, unit) bus_server);
        (cs', s') = connection_closed (cs, s)
    in cs' = Ended \<and> s' = s \<and> dget (sv_connections s') [] = Some () \<and>
       dget (bk_queues (sv_broker s')) [] = Some [])"
  by code_simp

text \<open>
  Delivery to a remote agent is at most once: when the peer is gone at the moment of a push,
  the message has already been taken from the queue and acknowledged, and it is not sent.
\<close>

theorem push_loses_message:
  assumes "sv_running s" and "dget (bk_queues (sv_broker s)) a = Some (m # ms)"
  shows "\<exists>s'. push_turn True a s = (False, [], s') \<and>
    dget (bk_queues (sv_broker s')) a = Some ms \<and>
    (needs_ack m \<longrightarrow> dget (bk_pending_acks (sv_broker s')) (ack_key (wm_message_id m) a) = None)"
  using assms by (simp add: push_turn_def wait_for_message_def Let_def ack_def)

theorem push_loses_message_witness:
  "\<exists>s'. push_turn True ''b'' \<lparr>sv_broker = fst (publish ''k'' (demo_message ''m'' (Some ''b'') ''t'' TASK)
      (broker_run [Subscribe ''b'' ''w'' ''t''] :: unit broker)), sv_connections = [(''b'', ())],
      sv_heartbeats = [], sv_agent_tenants = [], sv_running = True\<rparr> = (False, [], s') \<and>
    dget (bk_queues (sv_broker s')) ''b'' = Some []"
proof -
  have "dget (bk_queues (fst (publish ''k'' (demo_message ''m'' (Some ''b'') ''t'' TASK)
      (broker_run [Subscribe ''b'' ''w'' ''t''] :: unit broker)))) ''b'' =
    Some [(demo_message ''m'' (Some ''b'') ''t'' TASK)\<lparr>wm_ack_id := ''k''\<rparr>]" by code_simp
  then show ?thesis
    using push_loses_message [of "\<lparr>sv_broker = fst (publish ''k'' (demo_message ''m'' (Some ''b'') ''t'' TASK)
      (broker_run [Subscribe ''b'' ''w'' ''t''] :: unit broker)), sv_connections = [(''b'', ())],
      sv_heartbeats = [], sv_agent_tenants = [], sv_running = True\<rparr>" "''b''"] by auto
qed

end
