(* ===== verification/ToolModels.thy ===== *)
theory ToolModels
  imports Versioning
begin

text \<open>
  \<open>youmi/core/tool.py\<close> (the tool definition and its OpenAI schema) and \<open>youmi/mcp/models.py\<close>:
  the context tiers, the entries of the tool vault and the results of a tool search.
\<close>

record tool_parameter =
  tp_name :: string
  tp_type :: string
  tp_description :: string
  tp_required :: bool
  tp_enum :: "string list option"
  tp_default :: json
  tp_items :: "json option"

record tool_definition =
  td_name :: string
  td_description :: string
  td_parameters :: "tool_parameter list"
  td_version :: string
  td_language :: string
  td_runtime :: string
  td_risk_level :: string
  td_required_permissions :: "string list"
  td_timeout_s :: "rat option"

definition param_schema :: "tool_parameter \<Rightarrow> json" where
  "param_schema p =
     JObj ([(''type'', JStr (tp_type p)), (''description'', JStr (tp_description p))] @
       (case tp_enum p of None \<Rightarrow> []
          | Some xs \<Rightarrow> if xs \<noteq> [] then [(''enum'', JList (map JStr xs))] else []) @
       (case tp_items p of None \<Rightarrow> [] | Some j \<Rightarrow> [(''items'', j)]))"

text \<open>\<open>properties[param.name] = prop\<close>: a later parameter of the same name replaces the value.\<close>

definition to_openai_function_schema :: "tool_definition \<Rightarrow> json" where
  "to_openai_function_schema d =
     JObj [(''type'', JStr ''function''),
       (''function'', JObj [(''name'', JStr (td_name d)), (''description'', JStr (td_description d)),
          (''version'', JStr (td_version d)),
          (''parameters'', JObj [(''type'', JStr ''object''),
             (''properties'', JObj (fold (\<lambda>p. dset (tp_name p) (param_schema p)) (td_parameters d) [])),
             (''required'', JList (map (\<lambda>p. JStr (tp_name p)) (filter tp_required (td_parameters d))))])])]"

datatype tool_context_tier = HOT | WARM | COLD

record tool_entry =
  te_tool_name :: string
  te_definition :: tool_definition
  te_handler :: "string option"
  te_provider_id :: string
  te_essential :: bool
  te_embedding :: "rat list"
  te_summary :: string
  te_tier :: tool_context_tier
  te_last_used_turn :: int
  te_use_count :: int
  te_version :: string
  te_language :: string
  te_risk_level :: string
  te_required_permissions :: "string list"
  te_lineage_id :: string
  te_summary_l2 :: string
  te_origin :: string
  te_stage :: version_stage

text \<open>A \<open>ToolEntry\<close> with the defaults of the model for the fields that are not given.\<close>

definition new_tool_entry :: "string \<Rightarrow> tool_definition \<Rightarrow> tool_entry" where
  "new_tool_entry name d =
     \<lparr>te_tool_name = name, te_definition = d, te_handler = None, te_provider_id = [],
      te_essential = False, te_embedding = [], te_summary = [], te_tier = COLD,
      te_last_used_turn = -1, te_use_count = 0, te_version = ''0.0.1'', te_language = ''python'',
      te_risk_level = ''low'', te_required_permissions = [], te_lineage_id = [], te_summary_l2 = [],
      te_origin = ''generated'', te_stage = Candidate\<rparr>"

record tool_search_result =
  sr_tool_name :: string
  sr_definition :: "tool_definition option"
  sr_score :: rat
  sr_summary :: string
  sr_risk_level :: string
  sr_required_permissions :: "string list"
  sr_lineage_id :: string

text \<open>Construction from an entry; the score is validated (\<open>Field(ge=0, le=1)\<close>), \<open>None\<close> if it raises.\<close>

definition result_of_entry :: "string \<Rightarrow> tool_entry \<Rightarrow> rat \<Rightarrow> tool_search_result option" where
  "result_of_entry name e score =
     (if 0 \<le> score \<and> score \<le> 1
      then Some \<lparr>sr_tool_name = name, sr_definition = Some (te_definition e), sr_score = score,
             sr_summary = te_summary e, sr_risk_level = te_risk_level e,
             sr_required_permissions = te_required_permissions e,
             sr_lineage_id = (if te_lineage_id e \<noteq> [] then te_lineage_id e else te_tool_name e)\<rparr>
      else None)"

section \<open>The tier contract\<close>

text \<open>
  The vault and the per-agent tool context keep the same three tiers: a tool is promoted to HOT,
  demoted or recycled from HOT to WARM unless it is essential, and never made COLD again by any of
  these. \<open>used\<close> records a use and \<open>turn\<close> advances the turn counter.
\<close>

datatype tier_op = Promote string | Demote string | Recycle int | Used string "int option" | NextTurn

locale tier_store =
  fixes tier_of :: "'s \<Rightarrow> string \<Rightarrow> tool_context_tier option"
    and essential_of :: "'s \<Rightarrow> string \<Rightarrow> bool"
    and promote :: "string \<Rightarrow> 's \<Rightarrow> 's"
    and demote :: "string \<Rightarrow> 's \<Rightarrow> 's"
    and recycle :: "int \<Rightarrow> 's \<Rightarrow> 's"
    and used :: "string \<Rightarrow> int option \<Rightarrow> 's \<Rightarrow> 's"
    and turn :: "'s \<Rightarrow> 's"
  assumes promote_tier: "tier_of s m = Some t \<Longrightarrow> \<exists>t'. tier_of (promote n s) m = Some t' \<and>
      (t' = t \<or> m = n \<and> t' = HOT \<or> t = HOT \<and> \<not> essential_of s m \<and> t' = WARM)"
    and promote_essential: "tier_of s m = Some t \<Longrightarrow> essential_of (promote n s) m = essential_of s m"
    and demote_tier: "tier_of (demote n s) m =
      (if m = n \<and> tier_of s m = Some HOT \<and> \<not> essential_of s m then Some WARM else tier_of s m)"
    and demote_essential: "essential_of (demote n s) m = essential_of s m"
    and recycle_tier: "tier_of (recycle k s) m = tier_of s m \<or>
      tier_of s m = Some HOT \<and> \<not> essential_of s m \<and> tier_of (recycle k s) m = Some WARM"
    and recycle_essential: "essential_of (recycle k s) m = essential_of s m"
    and used_tier: "tier_of (used n tn s) m = tier_of s m" "essential_of (used n tn s) m = essential_of s m"
    and turn_tier: "tier_of (turn s) m = tier_of s m" "essential_of (turn s) m = essential_of s m"
begin

fun tier_step :: "tier_op \<Rightarrow> 's \<Rightarrow> 's" where
  "tier_step (Promote n) s = promote n s"
| "tier_step (Demote n) s = demote n s"
| "tier_step (Recycle k) s = recycle k s"
| "tier_step (Used n tn) s = used n tn s"
| "tier_step NextTurn s = turn s"

lemma essential_step:
  assumes "tier_of s m = Some HOT" and "essential_of s m"
  shows "tier_of (tier_step x s) m = Some HOT \<and> essential_of (tier_step x s) m"
proof (cases x)
  case (Promote n)
  with promote_tier [OF assms(1), of n] promote_essential [OF assms(1), of n] assms show ?thesis by auto
next
  case (Recycle k)
  with recycle_tier [of k s m] recycle_essential [of k s m] assms show ?thesis by auto
qed (use assms in \<open>auto simp: demote_tier demote_essential used_tier turn_tier\<close>)

lemma essential_stays_hot:
  "tier_of s m = Some HOT \<Longrightarrow> essential_of s m \<Longrightarrow> tier_of (fold tier_step ops s) m = Some HOT"
  by (induction ops arbitrary: s) (auto simp: essential_step)

lemma tier_progress_step:
  assumes "tier_of s m = Some t"
  shows "\<exists>t'. tier_of (tier_step x s) m = Some t' \<and> (t \<noteq> COLD \<longrightarrow> t' \<noteq> COLD) \<and>
    (t = COLD \<longrightarrow> t' = COLD \<or> x = Promote m)"
proof (cases x)
  case (Promote n)
  with promote_tier [OF assms, of n] show ?thesis by auto
next
  case (Recycle k)
  with recycle_tier [of k s m] assms show ?thesis by auto
qed (use assms in \<open>auto simp: demote_tier used_tier turn_tier\<close>)

lemma never_cold_again:
  assumes "tier_of s m = Some t" and "t \<noteq> COLD"
  shows "\<exists>t'. tier_of (fold tier_step ops s) m = Some t' \<and> t' \<noteq> COLD"
  using assms
proof (induction ops arbitrary: s t)
  case (Cons x ops)
  from tier_progress_step [OF Cons.prems(1), of x] Cons.prems(2) obtain t'
    where "tier_of (tier_step x s) m = Some t'" "t' \<noteq> COLD" by auto
  from Cons.IH [OF this] show ?case by simp
qed auto

end

end
