(* ===== verification/Approval.thy ===== *)
theory Approval
  imports ToolModels
begin

text \<open>
  \<open>youmi/mcp/approval.py\<close> and \<open>youmi/mcp/audit_gate.py\<close>: the approval manager with its records
  and audit log, and the gate between the recall of a tool and the loading of its schema. The
  generated record id and the time stamp are arguments of \<open>submit_request\<close>. Python sets are lists.
\<close>

section \<open>Approval records\<close>

datatype approval_level = AUTO | MANUAL | MASTER

datatype approval_decision = APPROVED | DENIED | PENDING

record approval_record =
  ar_record_id :: string
  ar_agent_id :: string
  ar_tool_name :: string
  ar_level :: approval_level
  ar_decision :: approval_decision
  ar_reason :: string
  ar_decided_by :: string
  ar_timestamp :: string

record approval_manager =
  ap_auto_approve_list :: "string list"
  ap_sensitive_tools :: "string list"
  ap_records :: "(string, approval_record) dict"
  ap_audit_log :: "approval_record list"

definition new_approval_manager :: "string list \<Rightarrow> string list \<Rightarrow> approval_manager" where
  "new_approval_manager auto_approve sensitive =
     \<lparr>ap_auto_approve_list = auto_approve, ap_sensitive_tools = sensitive, ap_records = [],
      ap_audit_log = []\<rparr>"

definition set_auto_approve_list :: "string list \<Rightarrow> approval_manager \<Rightarrow> approval_manager" where
  "set_auto_approve_list tools m = m\<lparr>ap_auto_approve_list := tools\<rparr>"

definition set_sensitive_tools :: "string list \<Rightarrow> approval_manager \<Rightarrow> approval_manager" where
  "set_sensitive_tools tools m = m\<lparr>ap_sensitive_tools := tools\<rparr>"

definition add_auto_approve :: "string \<Rightarrow> approval_manager \<Rightarrow> approval_manager" where
  "add_auto_approve tool m = m\<lparr>ap_auto_approve_list := List.insert tool (ap_auto_approve_list m)\<rparr>"

definition add_sensitive_tool :: "string \<Rightarrow> approval_manager \<Rightarrow> approval_manager" where
  "add_sensitive_tool tool m = m\<lparr>ap_sensitive_tools := List.insert tool (ap_sensitive_tools m)\<rparr>"

definition evaluate :: "string \<Rightarrow> string option \<Rightarrow> approval_manager \<Rightarrow> approval_level" where
  "evaluate tool_name risk_level m =
     (if tool_name \<in> set (ap_auto_approve_list m) then AUTO
      else if tool_name \<in> set (ap_sensitive_tools m) then MANUAL
      else if risk_level = Some ''critical'' then MANUAL
      else MASTER)"

text \<open>The reason given is a Chinese sentence around the tool's name; this is its ASCII stand-in.\<close>

definition auto_reason :: "string \<Rightarrow> string" where
  "auto_reason tool_name = ''tool '' @ tool_name @ '' is on the auto-approve list''"

definition submit_request :: "string \<Rightarrow> string \<Rightarrow> string \<Rightarrow> string \<Rightarrow> string option \<Rightarrow>
    approval_manager \<Rightarrow> approval_record \<times> approval_manager" where
  "submit_request rid now agent_id tool_name risk_level m =
     (let level = evaluate tool_name risk_level m;
          rec = \<lparr>ar_record_id = rid, ar_agent_id = agent_id, ar_tool_name = tool_name,
                 ar_level = level, ar_decision = PENDING, ar_reason = [], ar_decided_by = [],
                 ar_timestamp = now\<rparr>;
          rec = (if level = AUTO
                 then rec\<lparr>ar_decision := APPROVED, ar_decided_by := ''system'',
                          ar_reason := auto_reason tool_name\<rparr> else rec)
      in (rec, m\<lparr>ap_records := dset rid rec (ap_records m), ap_audit_log := ap_audit_log m @ [rec]\<rparr>))"

text \<open>\<open>approve\<close> and \<open>deny\<close> are the same code with the two decisions.\<close>

definition decide :: "approval_decision \<Rightarrow> string \<Rightarrow> string \<Rightarrow> string \<Rightarrow> approval_manager \<Rightarrow>
    approval_record option \<times> approval_manager" where
  "decide decision record_id decided_by reason m =
     (case dget (ap_records m) record_id of
        None \<Rightarrow> (None, m)
      | Some r \<Rightarrow>
          if ar_decision r \<noteq> PENDING then (Some r, m)
          else (let r = r\<lparr>ar_decision := decision, ar_decided_by := decided_by, ar_reason := reason\<rparr>
                in (Some r, m\<lparr>ap_records := dset record_id r (ap_records m),
                              ap_audit_log := ap_audit_log m @ [r]\<rparr>)))"

definition approve :: "string \<Rightarrow> string \<Rightarrow> string \<Rightarrow> approval_manager \<Rightarrow>
    approval_record option \<times> approval_manager" where
  "approve = decide APPROVED"

definition deny :: "string \<Rightarrow> string \<Rightarrow> string \<Rightarrow> approval_manager \<Rightarrow>
    approval_record option \<times> approval_manager" where
  "deny = decide DENIED"

definition get_record :: "string \<Rightarrow> approval_manager \<Rightarrow> approval_record option" where
  "get_record record_id m = dget (ap_records m) record_id"

definition get_pending_requests :: "approval_manager \<Rightarrow> approval_record list" where
  "get_pending_requests m = filter (\<lambda>r. ar_decision r = PENDING) (dvals (ap_records m))"

definition get_pending_for_agent :: "string \<Rightarrow> approval_manager \<Rightarrow> approval_record list" where
  "get_pending_for_agent agent_id m =
     filter (\<lambda>r. ar_agent_id r = agent_id \<and> ar_decision r = PENDING) (dvals (ap_records m))"

definition get_approved_tools :: "string \<Rightarrow> approval_manager \<Rightarrow> string list" where
  "get_approved_tools agent_id m =
     map ar_tool_name
       (filter (\<lambda>r. ar_agent_id r = agent_id \<and> ar_decision r = APPROVED) (dvals (ap_records m)))"

definition clear_resolved :: "approval_manager \<Rightarrow> nat \<times> approval_manager" where
  "clear_resolved m =
     (let to_remove = dkeys (filter (\<lambda>(_, r). ar_decision r \<noteq> PENDING) (ap_records m)) in
      (length to_remove, m\<lparr>ap_records := fold ddel to_remove (ap_records m)\<rparr>))"

definition reset_approvals :: "approval_manager \<Rightarrow> approval_manager" where
  "reset_approvals m = m\<lparr>ap_records := [], ap_audit_log := []\<rparr>"

definition total_requests :: "approval_manager \<Rightarrow> nat" where
  "total_requests m = length (ap_records m)"

definition decision_count :: "approval_decision \<Rightarrow> approval_manager \<Rightarrow> nat" where
  "decision_count d m = length (filter (\<lambda>r. ar_decision r = d) (dvals (ap_records m)))"

section \<open>The manager as a transition system\<close>

datatype approval_op =
  SetAuto "string list"
| SetSensitive "string list"
| AddAuto string
| AddSensitive string
| Submit string string string string "string option"
| Approve string string string
| Deny string string string
| ClearResolved

fun approval_step :: "approval_op \<Rightarrow> approval_manager \<Rightarrow> approval_manager" where
  "approval_step (SetAuto ts) m = set_auto_approve_list ts m"
| "approval_step (SetSensitive ts) m = set_sensitive_tools ts m"
| "approval_step (AddAuto t) m = add_auto_approve t m"
| "approval_step (AddSensitive t) m = add_sensitive_tool t m"
| "approval_step (Submit rid now a t rl) m = snd (submit_request rid now a t rl m)"
| "approval_step (Approve rid who why) m = snd (approve rid who why m)"
| "approval_step (Deny rid who why) m = snd (deny rid who why m)"
| "approval_step ClearResolved m = snd (clear_resolved m)"

lemmas approval_defs = set_auto_approve_list_def set_sensitive_tools_def add_auto_approve_def
  add_sensitive_tool_def approve_def deny_def

text \<open>The last log entry of a record id.\<close>

definition last_logged :: "string \<Rightarrow> approval_manager \<Rightarrow> approval_record option" where
  "last_logged rid m = List.find (\<lambda>r. ar_record_id r = rid) (rev (ap_audit_log m))"

text \<open>
  Every record is stored under its id and is the last one logged for it; an automatic record is
  approved by the system, a pending one has no decision maker.
\<close>

definition record_ok :: "approval_record \<Rightarrow> bool" where
  "record_ok r \<longleftrightarrow>
     (ar_level r = AUTO \<longrightarrow> ar_decision r = APPROVED \<and> ar_decided_by r = ''system'') \<and>
     (ar_decision r = PENDING \<longrightarrow> ar_decided_by r = [])"

definition approval_inv :: "approval_manager \<Rightarrow> bool" where
  "approval_inv m \<longleftrightarrow> wf_dict (ap_records m) \<and>
     (\<forall>rid r. dget (ap_records m) rid = Some r \<longrightarrow>
        ar_record_id r = rid \<and> record_ok r \<and> last_logged rid m = Some r)"

lemma last_logged_snoc:
  "last_logged rid (m\<lparr>ap_records := d, ap_audit_log := ap_audit_log m @ [r]\<rparr>) =
     (if ar_record_id r = rid then Some r else last_logged rid m)"
  by (simp add: last_logged_def)

lemma fold_ddel_dget:
  "dget (fold ddel ks d) k = (if k \<in> set ks then None else dget d k)"
  by (induction ks arbitrary: d) auto

lemma fold_ddel_wf: "wf_dict d \<Longrightarrow> wf_dict (fold ddel ks d)"
  by (induction ks arbitrary: d) auto

lemma clear_resolved_dget:
  assumes "wf_dict (ap_records m)"
  shows "dget (ap_records (snd (clear_resolved m))) rid =
    (case dget (ap_records m) rid of
       None \<Rightarrow> None
     | Some r \<Rightarrow> if ar_decision r = PENDING then Some r else None)"
proof -
  have "rid \<in> set (dkeys (filter (\<lambda>(_, r). ar_decision r \<noteq> PENDING) (ap_records m))) \<longleftrightarrow>
      (\<exists>r. dget (ap_records m) rid = Some r \<and> ar_decision r \<noteq> PENDING)"
    unfolding dget_mem [OF assms] by force
  then show ?thesis
    by (auto simp: clear_resolved_def Let_def fold_ddel_dget split: option.splits)
qed

lemma submit_inv:
  assumes "approval_inv m"
  shows "approval_inv (snd (submit_request rid now a t rl m))"
proof -
  obtain r where r: "snd (submit_request rid now a t rl m) =
      m\<lparr>ap_records := dset rid r (ap_records m), ap_audit_log := ap_audit_log m @ [r]\<rparr>"
    and ok: "ar_record_id r = rid" "record_ok r"
    by (auto simp: submit_request_def Let_def record_ok_def)
  show ?thesis unfolding r using assms ok
    by (auto simp: approval_inv_def last_logged_snoc)
qed

lemma decide_inv:
  assumes "approval_inv m" and "d \<noteq> PENDING"
  shows "approval_inv (snd (decide d rid who why m))"
proof (cases "dget (ap_records m) rid")
  case None
  with assms show ?thesis by (simp add: decide_def)
next
  case (Some r)
  show ?thesis
  proof (cases "ar_decision r = PENDING")
    case True
    define r' where "r' = r\<lparr>ar_decision := d, ar_decided_by := who, ar_reason := why\<rparr>"
    have "snd (decide d rid who why m) =
      m\<lparr>ap_records := dset rid r' (ap_records m), ap_audit_log := ap_audit_log m @ [r']\<rparr>"
      using Some True by (simp add: decide_def Let_def r'_def)
    moreover have "ar_record_id r' = rid" "record_ok r'"
      using assms Some True by (auto simp: approval_inv_def r'_def record_ok_def)
    ultimately show ?thesis using assms(1) by (auto simp: approval_inv_def last_logged_snoc)
  next
    case False
    with Some assms show ?thesis by (simp add: decide_def)
  qed
qed

lemma approval_inv_lists [simp]:
  "approval_inv (m\<lparr>ap_auto_approve_list := ts\<rparr>) = approval_inv m"
  "approval_inv (m\<lparr>ap_sensitive_tools := ts\<rparr>) = approval_inv m"
  by (simp_all add: approval_inv_def last_logged_def)

lemma approval_step_inv: "approval_inv m \<Longrightarrow> approval_inv (approval_step x m)"
proof (cases x)
  case ClearResolved
  assume m: "approval_inv m"
  have log: "ap_audit_log (snd (clear_resolved m)) = ap_audit_log m"
    and wf: "wf_dict (ap_records (snd (clear_resolved m)))"
    using m by (simp_all add: clear_resolved_def Let_def fold_ddel_wf approval_inv_def)
  have "wf_dict (ap_records m)" using m by (simp add: approval_inv_def)
  note get = clear_resolved_dget [OF this]
  have "last_logged rid (snd (clear_resolved m)) = last_logged rid m" for rid
    by (simp add: last_logged_def log)
  with m wf ClearResolved show ?thesis
    by (auto simp: approval_inv_def get split: option.splits if_splits)
qed (simp_all add: submit_inv decide_inv approval_defs)

interpretation apm: invariant_system "\<lambda>m. \<exists>auto sens. m = new_approval_manager auto sens"
  approval_step "\<lambda>_. True" approval_inv
  by unfold_locales (auto simp: approval_step_inv, auto simp: new_approval_manager_def approval_inv_def)

lemma decided_step:
  assumes "dget (ap_records m) rid = Some r" and "ar_decision r \<noteq> PENDING" and "approval_inv m"
    and "\<forall>now a t rl. x \<noteq> Submit rid now a t rl"
  shows "dget (ap_records (approval_step x m)) rid \<in> {Some r, None}"
proof (cases x)
  case ClearResolved
  have "wf_dict (ap_records m)" using assms(3) by (simp add: approval_inv_def)
  with ClearResolved assms(1,2) show ?thesis by (simp add: clear_resolved_dget)
qed (use assms in \<open>auto simp: approval_defs decide_def submit_request_def Let_def split: option.split\<close>)

section \<open>The audit gate\<close>

datatype audit_decision = PASS | BLOCK | MANUAL_REVIEW

datatype audit_reason = NoReason | MissingPermissions "string list" | RiskAbove string string

record audit_result =
  au_decision :: audit_decision
  au_reason :: audit_reason
  au_record_id :: string

record audit_event =
  ev_agent_id :: string
  ev_tool_name :: string
  ev_status :: string
  ev_decision :: audit_decision
  ev_risk_level :: string
  ev_required_permissions :: "string list"
  ev_risk_threshold :: string
  ev_lineage_id :: string
  ev_reason :: audit_reason
  ev_record_id :: string

record audit_gate =
  ga_approval_manager :: "approval_manager option"
  ga_risk_threshold :: string
  ga_events :: "audit_event list option"

definition status_of :: "audit_decision \<Rightarrow> string" where
  "status_of d = (case d of PASS \<Rightarrow> ''ok'' | BLOCK \<Rightarrow> ''blocked'' | MANUAL_REVIEW \<Rightarrow> ''pending'')"

text \<open>\<open>_log_event\<close>; the audit logger is the list of events written to it (\<open>None\<close>: no logger).\<close>

definition log_event :: "tool_search_result \<Rightarrow> string \<Rightarrow> audit_result \<Rightarrow> audit_gate \<Rightarrow> audit_gate" where
  "log_event c agent_id res g =
     g\<lparr>ga_events := map_option (\<lambda>es. es @
       [\<lparr>ev_agent_id = agent_id, ev_tool_name = sr_tool_name c, ev_status = status_of (au_decision res),
         ev_decision = au_decision res, ev_risk_level = sr_risk_level c,
         ev_required_permissions = sr_required_permissions c,
         ev_risk_threshold = ga_risk_threshold g,
         ev_lineage_id = (if sr_lineage_id c \<noteq> [] then sr_lineage_id c else sr_tool_name c),
         ev_reason = au_reason res, ev_record_id = au_record_id res\<rparr>]) (ga_events g)\<rparr>"

definition missing_permissions :: "string list \<Rightarrow> string list \<Rightarrow> string list" where
  "missing_permissions required granted = filter (\<lambda>p. p \<notin> set granted) (remdups required)"

definition gate_check :: "string \<Rightarrow> string \<Rightarrow> tool_search_result \<Rightarrow> string \<Rightarrow> string list option \<Rightarrow>
    audit_gate \<Rightarrow> audit_result \<times> audit_gate" where
  "gate_check rid now c agent_id granted g =
     (let missing = (case granted of
                       None \<Rightarrow> []
                     | Some gs \<Rightarrow> if sr_required_permissions c \<noteq> []
                                 then missing_permissions (sr_required_permissions c) gs else [])
      in if missing \<noteq> [] then
           (let res = \<lparr>au_decision = BLOCK, au_reason = MissingPermissions missing, au_record_id = []\<rparr>
            in (res, log_event c agent_id res g))
         else if risk_rank (ga_risk_threshold g) < risk_rank (sr_risk_level c) then
           (let (record_id, g) =
                  (case ga_approval_manager g of
                     None \<Rightarrow> ([], g)
                   | Some am \<Rightarrow>
                       (let (r, am) = submit_request rid now agent_id (sr_tool_name c)
                                        (Some (sr_risk_level c)) am
                        in (ar_record_id r, g\<lparr>ga_approval_manager := Some am\<rparr>)));
                res = \<lparr>au_decision = MANUAL_REVIEW,
                       au_reason = RiskAbove (sr_risk_level c) (ga_risk_threshold g),
                       au_record_id = record_id\<rparr>
            in (res, log_event c agent_id res g))
         else
           (let res = \<lparr>au_decision = PASS, au_reason = NoReason, au_record_id = []\<rparr>
            in (res, log_event c agent_id res g)))"

lemma missing_permissions_Nil: "missing_permissions req gs = [] \<longleftrightarrow> set req \<subseteq> set gs"
  by (auto simp: missing_permissions_def filter_empty_conv)

lemma log_event_fields [observers]:
  "ga_approval_manager (log_event c a res g) = ga_approval_manager g"
  "ga_risk_threshold (log_event c a res g) = ga_risk_threshold g"
  by (simp_all add: log_event_def)

section \<open>Properties\<close>

text \<open>
  The three approval levels: a submitted request is approved at once by the system exactly
  when the tool is on the auto-approve list; otherwise it is pending, for a human exactly when
  the tool is on the sensitive list or its own risk level is critical, for the master otherwise.
  The returned record is stored under its id and is the last entry of the audit log.
\<close>

theorem submit_request_correct:
  "(let (r, m') = submit_request rid now agent_id tool risk m in
      get_record rid m' = Some r \<and> ap_audit_log m' = ap_audit_log m @ [r] \<and>
      (ar_decision r = APPROVED \<longleftrightarrow> tool \<in> set (ap_auto_approve_list m)) \<and>
      (ar_decision r = APPROVED \<or> ar_decision r = PENDING) \<and>
      (ar_level r = MANUAL \<longleftrightarrow> tool \<notin> set (ap_auto_approve_list m) \<and>
         (tool \<in> set (ap_sensitive_tools m) \<or> risk = Some ''critical'')) \<and>
      (ar_decision r = APPROVED \<longleftrightarrow> ar_level r = AUTO) \<and>
      (\<forall>rid'. rid' \<noteq> rid \<longrightarrow> get_record rid' m' = get_record rid' m))"
  by (auto simp: submit_request_def evaluate_def get_record_def Let_def)

text \<open>
  C14: A decision is final: once a record is approved or denied, no sequence of operations that
  does not reuse its id changes it (it can only be cleared from the table).
\<close>

theorem decision_final:
  assumes "approval_inv m" and "dget (ap_records m) rid = Some r" and "ar_decision r \<noteq> PENDING"
    and "\<forall>x \<in> set ops. \<forall>now a t rl. x \<noteq> Submit rid now a t rl"
  shows "get_record rid (fold approval_step ops m) \<in> {Some r, None}"
proof -
  have none: "dget (ap_records (fold approval_step ops m)) rid = None"
    if "dget (ap_records m) rid = None" "\<forall>x \<in> set ops. \<forall>now a t rl. x \<noteq> Submit rid now a t rl"
      "approval_inv m" for m ops
    using that
  proof (induction ops arbitrary: m)
    case (Cons x ops)
    have "wf_dict (ap_records m)" using Cons.prems(3) by (simp add: approval_inv_def)
    then have "dget (ap_records (approval_step x m)) rid = None"
      using Cons.prems clear_resolved_dget [of m rid]
      by (cases x) (auto simp: approval_defs decide_def submit_request_def Let_def split: option.split)
    with Cons approval_step_inv show ?case by simp
  qed simp
  show ?thesis using assms unfolding get_record_def
  proof (induction ops arbitrary: m)
    case (Cons x ops)
    from Cons.prems decided_step [of m rid r x]
    have "dget (ap_records (approval_step x m)) rid \<in> {Some r, None}" by simp
    then consider "dget (ap_records (approval_step x m)) rid = Some r"
      | "dget (ap_records (approval_step x m)) rid = None" by auto
    then show ?case
    proof cases
      case 1
      with Cons.IH [OF approval_step_inv [OF Cons.prems(1)] 1] Cons.prems show ?thesis by simp
    next
      case 2
      with none [OF 2 _ approval_step_inv [OF Cons.prems(1)], of ops] Cons.prems show ?thesis by simp
    qed
  qed simp
qed

definition demo_manager :: approval_manager where
  "demo_manager = fold approval_step [Submit ''r1'' ''t0'' ''ag'' ''shell'' None,
     Deny ''r1'' ''user'' ''unsafe''] (new_approval_manager [] [''shell''])"

lemma demo_manager_inv: "approval_inv demo_manager"
  unfolding demo_manager_def by (rule apm.inv_reachable) (auto simp: list_all_iff)

theorem decision_final_witness:
  "\<exists>r. dget (ap_records demo_manager) ''r1'' = Some r \<and> ar_decision r = DENIED \<and>
     get_record ''r1'' (fold approval_step [Approve ''r1'' ''master'' ''ok''] demo_manager) \<in> {Some r, None}"
proof -
  have d: "map_option ar_decision (dget (ap_records demo_manager) ''r1'') = Some DENIED" by code_simp
  then obtain r where r: "dget (ap_records demo_manager) ''r1'' = Some r" "ar_decision r = DENIED" by auto
  with decision_final [OF demo_manager_inv r(1), of "[Approve ''r1'' ''master'' ''ok'']"]
  show ?thesis by auto
qed

text \<open>
  The audit log tells the state: in every manager reached from a new one, each stored record
  is the last entry logged for its id, an automatic record is approved by the system, a pending one
  has no decision maker, and the pending, approved and denied records add up to all records.
\<close>

theorem audit_log_mirrors_records:
  assumes "m = fold approval_step ops (new_approval_manager auto_list sensitive)"
  shows "(\<forall>rid r. get_record rid m = Some r \<longrightarrow> last_logged rid m = Some r \<and> record_ok r) \<and>
    total_requests m = decision_count PENDING m + decision_count APPROVED m + decision_count DENIED m"
proof -
  have inv: "approval_inv m" unfolding assms by (rule apm.inv_reachable) (auto simp: list_all_iff)
  have "length xs = length (filter (\<lambda>r. ar_decision r = PENDING) xs) +
    length (filter (\<lambda>r. ar_decision r = APPROVED) xs) + length (filter (\<lambda>r. ar_decision r = DENIED) xs)"
    for xs :: "approval_record list"
  proof (induction xs)
    case (Cons x xs)
    then show ?case by (cases "ar_decision x") auto
  qed simp
  from this [of "dvals (ap_records m)"] inv show ?thesis
    by (simp add: approval_inv_def get_record_def total_requests_def decision_count_def)
qed

theorem audit_log_mirrors_records_witness:
  "total_requests demo_manager = decision_count PENDING demo_manager +
     decision_count APPROVED demo_manager + decision_count DENIED demo_manager \<and>
   decision_count DENIED demo_manager = 1"
proof
  show "total_requests demo_manager = decision_count PENDING demo_manager +
     decision_count APPROVED demo_manager + decision_count DENIED demo_manager"
    using audit_log_mirrors_records [OF demo_manager_def] by blast
  show "decision_count DENIED demo_manager = 1" by code_simp
qed

text \<open>
  The gate blocks exactly when permissions are granted to the agent and some required one is
  not among them, asks for a manual review exactly when it does not block and the risk of the
  tool ranks above the threshold, and passes otherwise. It writes exactly one event (when it has a
  logger) with the status of its decision, and touches the approval manager only on a manual
  review, by one submitted request.
\<close>

theorem gate_check_correct:
  "(let (res, g') = gate_check rid now c agent_id granted g;
        blocked = (\<exists>gs. granted = Some gs \<and> \<not> set (sr_required_permissions c) \<subseteq> set gs);
        risky = risk_rank (ga_risk_threshold g) < risk_rank (sr_risk_level c)
    in (au_decision res = BLOCK \<longleftrightarrow> blocked) \<and>
       (au_decision res = MANUAL_REVIEW \<longleftrightarrow> \<not> blocked \<and> risky) \<and>
       ga_approval_manager g' =
         (if \<not> blocked \<and> risky
          then map_option (\<lambda>am. snd (submit_request rid now agent_id (sr_tool_name c)
                 (Some (sr_risk_level c)) am)) (ga_approval_manager g)
          else ga_approval_manager g) \<and>
       (\<forall>es. ga_events g = Some es \<longrightarrow> (\<exists>e. ga_events g' = Some (es @ [e]) \<and>
          ev_decision e = au_decision res \<and> ev_tool_name e = sr_tool_name c \<and>
          ev_status e = status_of (au_decision res))))"
proof -
  have nil: "missing_permissions [] gs = []" for gs by (simp add: missing_permissions_def)
  have m: "(case granted of None \<Rightarrow> []
      | Some gs \<Rightarrow> if sr_required_permissions c \<noteq> [] then missing_permissions (sr_required_permissions c) gs
                   else []) \<noteq> [] \<longleftrightarrow>
    (\<exists>gs. granted = Some gs \<and> \<not> set (sr_required_permissions c) \<subseteq> set gs)"
    by (auto simp: missing_permissions_Nil split: option.splits)
  show ?thesis
    unfolding gate_check_def Let_def m
    by (auto simp: observers case_prod_unfold split: option.splits) (auto simp: log_event_def)
qed

theorem gate_check_correct_witness:
  "\<exists>e. ga_events (snd (gate_check ''r'' ''t'' \<lparr>sr_tool_name = ''rm'', sr_definition = None, sr_score = 1,
      sr_summary = [], sr_risk_level = ''low'', sr_required_permissions = [''fs:write''], sr_lineage_id = ''rm''\<rparr>
      ''ag'' (Some [''fs:read'']) \<lparr>ga_approval_manager = None, ga_risk_threshold = ''high'', ga_events = Some []\<rparr>)) =
    Some [e] \<and> ev_decision e = BLOCK"
  using gate_check_correct [of "''r''" "''t''" "\<lparr>sr_tool_name = ''rm'', sr_definition = None, sr_score = 1,
      sr_summary = [], sr_risk_level = ''low'', sr_required_permissions = [''fs:write''], sr_lineage_id = ''rm''\<rparr>"
      "''ag''" "Some [''fs:read'']" "\<lparr>ga_approval_manager = None, ga_risk_threshold = ''high'', ga_events = Some []\<rparr>"]
  by (auto simp: Let_def case_prod_unfold)

text \<open>
  An approval does not open the gate: a candidate above the risk threshold whose permissions
  are granted is sent to manual review at every check, whatever decisions the approval manager
  holds for the agent and the tool.
\<close>

theorem approved_tool_still_manual:
  assumes "risk_rank (ga_risk_threshold g) < risk_rank (sr_risk_level c)"
    and "\<forall>gs. granted = Some gs \<longrightarrow> set (sr_required_permissions c) \<subseteq> set gs"
  shows "au_decision (fst (gate_check rid now c agent_id granted (g\<lparr>ga_approval_manager := Some am\<rparr>))) =
    MANUAL_REVIEW"
proof (cases granted)
  case None
  with assms show ?thesis by (simp add: gate_check_def Let_def case_prod_unfold)
next
  case (Some gs)
  with assms(2) have "missing_permissions (sr_required_permissions c) gs = []"
    by (simp add: missing_permissions_Nil)
  with Some assms(1) show ?thesis by (simp add: gate_check_def Let_def case_prod_unfold)
qed

text \<open>A critical tool that the user has approved for the agent.\<close>

definition demo_approved :: approval_manager where
  "demo_approved = fold approval_step [Submit ''r1'' ''t0'' ''ag'' ''rm'' (Some ''critical''),
     Approve ''r1'' ''user'' ''fine''] (new_approval_manager [] [])"

theorem approved_tool_still_manual_witness:
  "get_approved_tools ''ag'' demo_approved = [''rm''] \<and>
   au_decision (fst (gate_check ''r2'' ''t1''
     \<lparr>sr_tool_name = ''rm'', sr_definition = None, sr_score = 1, sr_summary = [], sr_risk_level = ''critical'',
      sr_required_permissions = [], sr_lineage_id = ''rm''\<rparr> ''ag'' None
     \<lparr>ga_approval_manager = Some demo_approved, ga_risk_threshold = ''high'', ga_events = None\<rparr>)) =
   MANUAL_REVIEW"
proof
  show "get_approved_tools ''ag'' demo_approved = [''rm'']" by code_simp
  show "au_decision (fst (gate_check ''r2'' ''t1''
     \<lparr>sr_tool_name = ''rm'', sr_definition = None, sr_score = 1, sr_summary = [], sr_risk_level = ''critical'',
      sr_required_permissions = [], sr_lineage_id = ''rm''\<rparr> ''ag'' None
     \<lparr>ga_approval_manager = Some demo_approved, ga_risk_threshold = ''high'', ga_events = None\<rparr>)) =
   MANUAL_REVIEW"
    using approved_tool_still_manual
      [of "\<lparr>ga_approval_manager = None, ga_risk_threshold = ''high'', ga_events = None\<rparr>"
        "\<lparr>sr_tool_name = ''rm'', sr_definition = None, sr_score = 1, sr_summary = [], sr_risk_level = ''critical'',
          sr_required_permissions = [], sr_lineage_id = ''rm''\<rparr>" None "''r2''" "''t1''" "''ag''" demo_approved]
    by simp
qed

end
