(* ===== verification/Vault.thy ===== *)
theory Vault
  imports ToolModels
begin

text \<open>
  \<open>youmi/mcp/vault.py\<close>: the tool vault in memory. The embedding client and the persistent store are
  arguments: each function of a \<open>vault_backends\<close> record is what the client answers, \<open>None\<close> when
  it raises. What is written to the store is not modelled (a failing write is only logged).
\<close>

section \<open>State\<close>

record tool_vault =
  tv_entries :: "(string, tool_entry) dict"
  tv_current_turn :: int

record embedding_client =
  ec_embed_one :: "string \<Rightarrow> rat list option"
  ec_embed :: "string list \<Rightarrow> rat list list option"
  ec_similarity :: "rat list \<Rightarrow> rat list list \<Rightarrow> rat list"

record vault_backends =
  vb_client :: "embedding_client option"
  vb_store_search :: "(string \<Rightarrow> int \<Rightarrow> rat \<Rightarrow> string list \<Rightarrow> tool_search_result list option) option"

definition new_vault :: tool_vault where
  "new_vault = \<lparr>tv_entries = [], tv_current_turn = 0\<rparr>"

definition get_entry :: "string \<Rightarrow> tool_vault \<Rightarrow> tool_entry option" where
  "get_entry name v = dget (tv_entries v) name"

definition put_entry :: "string \<Rightarrow> tool_entry \<Rightarrow> tool_vault \<Rightarrow> tool_vault" where
  "put_entry name e v = v\<lparr>tv_entries := dset name e (tv_entries v)\<rparr>"

definition embedding_text :: "string \<Rightarrow> tool_entry \<Rightarrow> string" where
  "embedding_text name e = name @ '': '' @ td_description (te_definition e)"

section \<open>Registration\<close>

text \<open>\<open>_generate_embedding\<close>.\<close>

definition generate_embedding :: "embedding_client option \<Rightarrow> string \<Rightarrow> tool_vault \<Rightarrow> tool_vault" where
  "generate_embedding client name v =
     (case client of
        None \<Rightarrow> v
      | Some cl \<Rightarrow>
          (case get_entry name v of
             None \<Rightarrow> v
           | Some e \<Rightarrow>
               if te_embedding e \<noteq> [] then v
               else (case ec_embed_one cl (embedding_text name e) of
                       None \<Rightarrow> v
                     | Some vec \<Rightarrow> put_entry name (e\<lparr>te_embedding := vec\<rparr>) v)))"

text \<open>The entry that \<open>add_tool\<close> stores: summary, version, origin, stage, cone metadata, L2 summary.\<close>

definition prepare_entry :: "tool_entry \<Rightarrow> tool_entry" where
  "prepare_entry e0 =
     (let e = (if te_summary e0 = []
               then e0\<lparr>te_summary := take 80 (td_description (te_definition e0))\<rparr> else e0);
          origin = normalize_origin (Some (te_origin e));
          declared = (if te_version e \<noteq> [] then te_version e else td_version (te_definition e));
          version = resolve_initial_version (Some declared) (Some (origin_value origin));
          e = e\<lparr>te_version := version, te_origin := origin_value origin, te_stage := stage_of version,
                te_definition := (te_definition e)\<lparr>td_version := version\<rparr>\<rparr>
      in e\<lparr>te_risk_level := td_risk_level (te_definition e),
           te_required_permissions := td_required_permissions (te_definition e),
           te_lineage_id := (if te_lineage_id e = [] then te_tool_name e else te_lineage_id e),
           te_summary_l2 := (if te_summary_l2 e = [] then take 30 (te_summary e) else te_summary_l2 e)\<rparr>)"

definition add_tool :: "vault_backends \<Rightarrow> tool_entry \<Rightarrow> tool_vault \<Rightarrow> tool_vault" where
  "add_tool be e0 v =
     (let e = prepare_entry e0; v = put_entry (te_tool_name e) e v in
      if vb_client be \<noteq> None \<and> te_embedding e = []
      then generate_embedding (vb_client be) (te_tool_name e) v else v)"

text \<open>\<open>build_embeddings\<close>: all missing vectors in one batch; \<open>zip\<close> stops at the shorter list.\<close>

definition build_embeddings :: "embedding_client option \<Rightarrow> tool_vault \<Rightarrow> nat \<times> tool_vault" where
  "build_embeddings client v =
     (case client of
        None \<Rightarrow> (0, v)
      | Some cl \<Rightarrow>
          (let to_embed = filter (\<lambda>(_, e). te_embedding e = []) (tv_entries v) in
           if to_embed = [] then (0, v)
           else (case ec_embed cl (map (\<lambda>(name, e). embedding_text name e) to_embed) of
                   None \<Rightarrow> (0, v)
                 | Some vectors \<Rightarrow>
                     (let hits = zip to_embed vectors in
                      (length hits,
                       fold (\<lambda>((name, _), vec) v.
                          (case get_entry name v of
                             None \<Rightarrow> v
                           | Some e \<Rightarrow> put_entry name (e\<lparr>te_embedding := vec\<rparr>) v)) hits v)))))"

record tool_provider =
  tpv_provider_id :: string
  tpv_definitions :: "(string, tool_definition) dict"
  tpv_handlers :: "(string, string) dict"
  tpv_origin :: "string option"

text \<open>The entry that \<open>add_tools_from_provider\<close> builds for one definition.\<close>

definition provider_entry :: "tool_provider \<Rightarrow> string list option \<Rightarrow> tool_origin \<Rightarrow> string \<Rightarrow>
    tool_definition \<Rightarrow> tool_entry" where
  "provider_entry p essential_names origin name d =
     (let version = resolve_initial_version (Some (td_version d)) (Some (origin_value origin));
          essential = (case essential_names of None \<Rightarrow> True | Some ns \<Rightarrow> name \<in> set ns)
      in (new_tool_entry name (if version = td_version d then d else d\<lparr>td_version := version\<rparr>))
           \<lparr>te_handler := dget (tpv_handlers p) name, te_provider_id := tpv_provider_id p,
            te_essential := essential, te_summary := take 80 (td_description d),
            te_tier := (if essential then HOT else COLD), te_version := version,
            te_origin := origin_value origin, te_stage := stage_of version\<rparr>)"

definition add_tools_from_provider :: "vault_backends \<Rightarrow> tool_provider \<Rightarrow> string list option \<Rightarrow>
    string option \<Rightarrow> tool_vault \<Rightarrow> tool_vault" where
  "add_tools_from_provider be p essential_names origin v =
     (let provider_origin = normalize_origin (if origin \<noteq> None then origin else tpv_origin p);
          v = fold (\<lambda>(name, d). put_entry name (provider_entry p essential_names provider_origin name d))
                (tpv_definitions p) v
      in snd (build_embeddings (vb_client be) v))"

section \<open>Search\<close>

definition tokens :: "string \<Rightarrow> string list" where
  "tokens s = remdups (split_ws s @ map (\<lambda>c. [c]) (filter (\<lambda>c. \<not> is_space c) s))"

definition keyword_score :: "string \<Rightarrow> string \<Rightarrow> tool_entry \<Rightarrow> rat" where
  "keyword_score query name e =
     (let query_tokens = tokens (lower query);
          text_tokens = tokens (lower (name @ '' '' @ td_description (te_definition e) @ '' '' @ te_summary e));
          overlap = filter (\<lambda>t. t \<in> set text_tokens) query_tokens
      in of_nat (length overlap) / of_nat (max (length query_tokens) 1))"

definition keyword_search :: "string \<Rightarrow> int \<Rightarrow> string list \<Rightarrow> tool_vault \<Rightarrow> tool_search_result list option" where
  "keyword_search query top_k exclude v =
     (let scored = filter (\<lambda>(name, e). name \<notin> set exclude \<and> te_tier e \<noteq> HOT \<and>
                     0 < keyword_score query name e) (tv_entries v)
      in map_option (\<lambda>rs. slice_to top_k (sort_desc sr_score rs))
           (those (map (\<lambda>(name, e). result_of_entry name e (min (keyword_score query name e) 1)) scored)))"

definition memory_search :: "embedding_client \<Rightarrow> rat list \<Rightarrow> int \<Rightarrow> rat \<Rightarrow> string list \<Rightarrow> tool_vault \<Rightarrow>
    tool_search_result list option" where
  "memory_search cl query_vec top_k min_score exclude v =
     (let candidates = filter (\<lambda>(name, e). name \<notin> set exclude \<and> te_embedding e \<noteq> [] \<and> te_tier e \<noteq> HOT)
                         (tv_entries v)
      in if candidates = [] then Some []
         else (let scores = ec_similarity cl query_vec (map (\<lambda>(_, e). te_embedding e) candidates);
                   hits = filter (\<lambda>(_, score). min_score \<le> score) (zip candidates scores)
               in map_option (\<lambda>rs. slice_to top_k (sort_desc sr_score rs))
                    (those (map (\<lambda>((name, e), score). result_of_entry name e score) hits))))"

definition vault_search :: "vault_backends \<Rightarrow> string \<Rightarrow> int \<Rightarrow> rat \<Rightarrow> string list \<Rightarrow> tool_vault \<Rightarrow>
    tool_search_result list option" where
  "vault_search be query top_k min_score exclude v =
     (case (case vb_store_search be of None \<Rightarrow> None | Some s \<Rightarrow> s query top_k min_score exclude) of
        Some results \<Rightarrow> Some results
      | None \<Rightarrow>
          (case vb_client be of
             None \<Rightarrow> keyword_search query top_k exclude v
           | Some cl \<Rightarrow>
               (case ec_embed_one cl query of
                  None \<Rightarrow> keyword_search query top_k exclude v
                | Some query_vec \<Rightarrow> memory_search cl query_vec top_k min_score exclude v)))"

section \<open>Tiers\<close>

definition load_tool :: "string \<Rightarrow> tool_vault \<Rightarrow> tool_entry option \<times> tool_vault" where
  "load_tool name v =
     (case get_entry name v of
        None \<Rightarrow> (None, v)
      | Some e \<Rightarrow>
          if te_tier e = HOT then (Some e, v)
          else (let e = e\<lparr>te_tier := HOT\<rparr> in (Some e, put_entry name e v)))"

definition unload_tool :: "string \<Rightarrow> tool_vault \<Rightarrow> bool \<times> tool_vault" where
  "unload_tool name v =
     (case get_entry name v of
        None \<Rightarrow> (False, v)
      | Some e \<Rightarrow>
          if te_tier e \<noteq> HOT then (False, v)
          else if te_essential e then (False, v)
          else (True, put_entry name (e\<lparr>te_tier := WARM\<rparr>) v))"

definition tools_in_tier :: "tool_context_tier \<Rightarrow> tool_vault \<Rightarrow> tool_entry list" where
  "tools_in_tier t v = filter (\<lambda>e. te_tier e = t) (dvals (tv_entries v))"

definition record_usage :: "string \<Rightarrow> int option \<Rightarrow> tool_vault \<Rightarrow> tool_vault" where
  "record_usage name turn v =
     (case get_entry name v of
        None \<Rightarrow> v
      | Some e \<Rightarrow>
          put_entry name (e\<lparr>te_last_used_turn := (case turn of None \<Rightarrow> tv_current_turn v | Some t \<Rightarrow> t),
                            te_use_count := te_use_count e + 1\<rparr>) v)"

text \<open>The two tests of \<open>recycle\<close>: never used, or used long enough ago.\<close>

definition vault_idle :: "int \<Rightarrow> int \<Rightarrow> tool_entry \<Rightarrow> bool" where
  "vault_idle current threshold e =
     (if te_last_used_turn e < 0 then threshold \<le> current
      else threshold \<le> current - te_last_used_turn e)"

definition vault_recycle :: "int \<Rightarrow> tool_vault \<Rightarrow> string list \<times> tool_vault" where
  "vault_recycle threshold v =
     (let hit = (\<lambda>e. te_tier e = HOT \<and> \<not> te_essential e \<and> vault_idle (tv_current_turn v) threshold e)
      in (dkeys (filter (\<lambda>(_, e). hit e) (tv_entries v)),
          v\<lparr>tv_entries := dmap (\<lambda>_ e. if hit e then e\<lparr>te_tier := WARM\<rparr> else e) (tv_entries v)\<rparr>))"

definition vault_advance_turn :: "tool_vault \<Rightarrow> tool_vault" where
  "vault_advance_turn v = v\<lparr>tv_current_turn := tv_current_turn v + 1\<rparr>"

definition vault_openai_tools :: "tool_vault \<Rightarrow> json list" where
  "vault_openai_tools v = map (\<lambda>e. to_openai_function_schema (te_definition e)) (tools_in_tier HOT v)"

definition vault_warm_summaries :: "tool_vault \<Rightarrow> (string \<times> string \<times> string) list" where
  "vault_warm_summaries v =
     map (\<lambda>e. (te_tool_name e, te_summary e,
               if te_summary_l2 e \<noteq> [] then te_summary_l2 e else take 30 (te_summary e)))
       (tools_in_tier WARM v)"

definition tier_count :: "tool_context_tier \<Rightarrow> tool_vault \<Rightarrow> nat" where
  "tier_count t v = length (tools_in_tier t v)"

text \<open>\<open>load_from_store\<close>: \<open>listed\<close> is what the store lists, \<open>None\<close> when it raises or there is none.\<close>

definition load_from_store :: "tool_entry list option \<Rightarrow> tool_vault \<Rightarrow> nat \<times> tool_vault" where
  "load_from_store listed v =
     (case listed of
        None \<Rightarrow> (0, v)
      | Some es \<Rightarrow>
          fold (\<lambda>e (n, v). if get_entry (te_tool_name e) v = None
                           then (Suc n, put_entry (te_tool_name e) e v) else (n, v)) es (0, v))"

section \<open>Lemmas\<close>

lemma get_put [simp]: "get_entry n (put_entry m e v) = (if n = m then Some e else get_entry n v)"
  by (simp add: get_entry_def put_entry_def)

lemma prepare_entry_fields [observers]:
  "te_tool_name (prepare_entry e) = te_tool_name e"
  "te_risk_level (prepare_entry e) = td_risk_level (te_definition e)"
  "te_required_permissions (prepare_entry e) = td_required_permissions (te_definition e)"
  "te_essential (prepare_entry e) = te_essential e" "te_tier (prepare_entry e) = te_tier e"
  "td_version (te_definition (prepare_entry e)) = te_version (prepare_entry e)"
  "te_stage (prepare_entry e) = stage_of (te_version (prepare_entry e))"
  by (simp_all add: prepare_entry_def Let_def)

lemma prepare_entry_lineage:
  "te_tool_name e \<noteq> [] \<Longrightarrow> te_lineage_id (prepare_entry e) \<noteq> []"
  by (simp add: prepare_entry_def Let_def)

definition same_but_embedding :: "tool_entry \<Rightarrow> tool_entry \<Rightarrow> bool" where
  "same_but_embedding e e' \<longleftrightarrow> e'\<lparr>te_embedding := te_embedding e\<rparr> = e"

lemma same_but_embedding_refl [simp]: "same_but_embedding e e"
  by (simp add: same_but_embedding_def)

lemma same_but_embedding_upd [simp]: "same_but_embedding e (e\<lparr>te_embedding := vec\<rparr>)"
  by (simp add: same_but_embedding_def)

lemma same_but_embedding_trans:
  "same_but_embedding a b \<Longrightarrow> same_but_embedding b c \<Longrightarrow> same_but_embedding a c"
  by (cases a; cases b; cases c) (simp add: same_but_embedding_def)

lemma same_but_embedding_fields:
  assumes "same_but_embedding e e'"
  shows "te_risk_level e' = te_risk_level e" "te_required_permissions e' = te_required_permissions e"
    "te_tier e' = te_tier e" "te_definition e' = te_definition e" "te_essential e' = te_essential e"
    "te_lineage_id e' = te_lineage_id e" "te_tool_name e' = te_tool_name e"
    "te_version e' = te_version e" "te_stage e' = te_stage e"
  using assms by (cases e; cases e'; simp add: same_but_embedding_def)+

lemma add_tool_entry:
  "\<exists>e'. get_entry n (add_tool be e v) =
     (if n = te_tool_name e then Some e' else get_entry n v) \<and> same_but_embedding (prepare_entry e) e'"
  by (auto simp: add_tool_def Let_def observers generate_embedding_def split: option.splits)
    (auto intro: exI [of _ "prepare_entry e"])

lemma embed_fold_entries:
  "rel_option same_but_embedding (get_entry n v)
     (get_entry n (fold (\<lambda>((name, _), vec) v.
        (case get_entry name v of None \<Rightarrow> v
         | Some e \<Rightarrow> put_entry name (e\<lparr>te_embedding := vec\<rparr>) v)) hits v))"
proof (induction hits arbitrary: v)
  case Nil
  show ?case by (cases "get_entry n v") auto
next
  case (Cons h hits)
  obtain name x vec where h: "h = ((name, x), vec)" by (metis surj_pair)
  define v1 where "v1 = (case get_entry name v of None \<Rightarrow> v
      | Some e \<Rightarrow> put_entry name (e\<lparr>te_embedding := vec\<rparr>) v)"
  have "rel_option same_but_embedding (get_entry n v) (get_entry n v1)"
    by (cases "get_entry n v"; cases "get_entry name v") (auto simp: v1_def)
  with Cons.IH [of v1] show ?case
    by (cases "get_entry n v"; cases "get_entry n v1")
      (auto simp: h v1_def [symmetric] option_rel_Some1 intro: same_but_embedding_trans)
qed

lemma build_embeddings_entries:
  "rel_option same_but_embedding (get_entry n v) (get_entry n (snd (build_embeddings client v)))"
proof -
  have "rel_option same_but_embedding (get_entry n v) (get_entry n v)"
    by (cases "get_entry n v") auto
  then show ?thesis using embed_fold_entries [of n v]
    by (auto simp: build_embeddings_def Let_def split: option.split)
qed

lemma fold_put_entries:
  "wf_dict d \<Longrightarrow> get_entry n (fold (\<lambda>(name, x). put_entry name (f name x)) d v) =
     (case dget d n of None \<Rightarrow> get_entry n v | Some x \<Rightarrow> Some (f n x))"
proof (induction d arbitrary: v)
  case (Cons p d)
  obtain k x where p: "p = (k, x)" by (cases p)
  have "dget d k = None" "wf_dict d"
    using Cons.prems by (auto simp: p wf_dict_def dget_None_iff)
  with Cons.IH [of "put_entry k (f k x) v"] show ?case
    by (auto simp: p split: option.splits)
qed simp

lemma provider_entry_in_vault:
  assumes "wf_dict (tpv_definitions p)" and "dget (tpv_definitions p) name = Some d"
  shows "\<exists>e. get_entry name (add_tools_from_provider be p ess origin v) = Some e \<and>
    same_but_embedding (provider_entry p ess
      (normalize_origin (if origin \<noteq> None then origin else tpv_origin p)) name d) e"
proof -
  let ?o = "normalize_origin (if origin \<noteq> None then origin else tpv_origin p)"
  let ?v = "fold (\<lambda>(name, d). put_entry name (provider_entry p ess ?o name d)) (tpv_definitions p) v"
  have "get_entry name ?v = Some (provider_entry p ess ?o name d)"
    using fold_put_entries [OF assms(1), where f = "provider_entry p ess ?o"] assms(2) by simp
  with build_embeddings_entries [of name ?v "vb_client be"] show ?thesis
    by (auto simp: add_tools_from_provider_def Let_def option_rel_Some1)
qed

lemma provider_entry_fields:
  "te_risk_level (provider_entry p ess o' name d) = ''low''"
  "te_required_permissions (provider_entry p ess o' name d) = []"
  "te_tier (provider_entry p ess o' name d) =
     (if (case ess of None \<Rightarrow> True | Some ns \<Rightarrow> name \<in> set ns) then HOT else COLD)"
  "td_risk_level (te_definition (provider_entry p ess o' name d)) = td_risk_level d"
  by (simp_all add: provider_entry_def Let_def new_tool_entry_def)

section \<open>The vault is a tier store\<close>

definition vault_tier :: "tool_vault \<Rightarrow> string \<Rightarrow> tool_context_tier option" where
  "vault_tier v n = map_option te_tier (get_entry n v)"

definition vault_essential :: "tool_vault \<Rightarrow> string \<Rightarrow> bool" where
  "vault_essential v n = (case get_entry n v of None \<Rightarrow> False | Some e \<Rightarrow> te_essential e)"

lemma recycle_entry: "get_entry n (snd (vault_recycle k v)) =
    map_option (\<lambda>e. if te_tier e = HOT \<and> \<not> te_essential e \<and> vault_idle (tv_current_turn v) k e
                    then e\<lparr>te_tier := WARM\<rparr> else e) (get_entry n v)"
  by (simp add: vault_recycle_def Let_def get_entry_def)

lemma advance_entry: "get_entry n (vault_advance_turn v) = get_entry n v"
  by (simp add: vault_advance_turn_def get_entry_def)

lemmas vault_tier_defs = vault_tier_def vault_essential_def load_tool_def unload_tool_def
  record_usage_def recycle_entry advance_entry Let_def

interpretation vts: tier_store vault_tier vault_essential "\<lambda>n v. snd (load_tool n v)"
  "\<lambda>n v. snd (unload_tool n v)" "\<lambda>k v. snd (vault_recycle k v)" record_usage vault_advance_turn
proof
  fix s m t n
  assume "vault_tier s m = Some t"
  then show "\<exists>t'. vault_tier (snd (load_tool n s)) m = Some t' \<and>
      (t' = t \<or> m = n \<and> t' = HOT \<or> t = HOT \<and> \<not> vault_essential s m \<and> t' = WARM)"
    by (auto simp: vault_tier_defs split: option.splits)
  show "vault_essential (snd (load_tool n s)) m = vault_essential s m"
    by (auto simp: vault_tier_defs split: option.splits)
qed (auto simp: vault_tier_defs split: option.splits)

section \<open>Search results\<close>

lemma those_Some: "those xs = Some ys \<Longrightarrow> y \<in> set ys \<Longrightarrow> Some y \<in> set xs"
proof (induction xs arbitrary: ys)
  case (Cons x xs)
  then show ?case by (cases x) auto
qed simp

definition from_entry :: "tool_vault \<Rightarrow> string list \<Rightarrow> tool_search_result \<Rightarrow> bool" where
  "from_entry v exclude r \<longleftrightarrow>
     (\<exists>e. (sr_tool_name r, e) \<in> set (tv_entries v) \<and> te_tier e \<noteq> HOT \<and> sr_tool_name r \<notin> set exclude \<and>
        sr_risk_level r = te_risk_level e \<and> sr_required_permissions r = te_required_permissions e \<and>
        sr_definition r = Some (te_definition e) \<and> 0 \<le> sr_score r \<and> sr_score r \<le> 1)"

lemma result_of_entry_from:
  "result_of_entry name e score = Some r \<Longrightarrow> (name, e) \<in> set (tv_entries v) \<Longrightarrow> te_tier e \<noteq> HOT \<Longrightarrow>
   name \<notin> set exclude \<Longrightarrow> from_entry v exclude r"
  by (auto simp: result_of_entry_def from_entry_def split: if_splits)

lemma keyword_search_from:
  assumes "keyword_search query top_k exclude v = Some rs" and "r \<in> set rs"
  shows "from_entry v exclude r"
proof -
  from assms obtain rs' where t: "those (map (\<lambda>(name, e). result_of_entry name e (min (keyword_score query name e) 1))
      (filter (\<lambda>(name, e). name \<notin> set exclude \<and> te_tier e \<noteq> HOT \<and> 0 < keyword_score query name e)
         (tv_entries v))) = Some rs'" and "rs = slice_to top_k (sort_desc sr_score rs')"
    by (auto simp: keyword_search_def Let_def)
  then have "r \<in> set rs'" using assms(2) set_slice_to [of top_k "sort_desc sr_score rs'"] by auto
  from those_Some [OF t this] show ?thesis by (auto intro!: result_of_entry_from)
qed

lemma memory_search_from:
  assumes "memory_search cl qv top_k min_score exclude v = Some rs" and "r \<in> set rs"
  shows "from_entry v exclude r"
proof -
  let ?cs = "filter (\<lambda>(name, e). name \<notin> set exclude \<and> te_embedding e \<noteq> [] \<and> te_tier e \<noteq> HOT) (tv_entries v)"
  let ?scores = "ec_similarity cl qv (map (\<lambda>(_, e). te_embedding e) ?cs)"
  let ?hits = "filter (\<lambda>(_, score). min_score \<le> score) (zip ?cs ?scores)"
  from assms obtain rs' where t: "those (map (\<lambda>((name, e), score). result_of_entry name e score) ?hits) = Some rs'"
    and "rs = slice_to top_k (sort_desc sr_score rs')"
    by (auto simp: memory_search_def Let_def split: if_splits)
  then have "r \<in> set rs'" using assms(2) set_slice_to [of top_k "sort_desc sr_score rs'"] by auto
  from those_Some [OF t this] obtain name e score where
    h: "((name, e), score) \<in> set (zip ?cs ?scores)" "result_of_entry name e score = Some r" by auto
  from set_zip_leftD [OF h(1)] have "(name, e) \<in> set ?cs" .
  with h(2) show ?thesis by (auto intro!: result_of_entry_from)
qed

lemma slice_sorted: "sorted_wrt P xs \<Longrightarrow> sorted_wrt P (slice_to k xs)"
  by (simp add: slice_to_def sorted_wrt_take)

lemma search_sorted:
  "keyword_search query top_k exclude v = Some rs \<Longrightarrow> sorted_wrt (\<lambda>a b. sr_score b \<le> sr_score a) rs"
  "memory_search cl qv top_k min_score exclude v = Some rs \<Longrightarrow> sorted_wrt (\<lambda>a b. sr_score b \<le> sr_score a) rs"
  by (auto simp: keyword_search_def memory_search_def Let_def intro!: slice_sorted sort_desc_sorted
      split: if_splits)

lemma search_length:
  "keyword_search query top_k exclude v = Some rs \<Longrightarrow> 0 \<le> top_k \<Longrightarrow> length rs \<le> nat top_k"
  "memory_search cl qv top_k min_score exclude v = Some rs \<Longrightarrow> 0 \<le> top_k \<Longrightarrow> length rs \<le> nat top_k"
  by (auto simp: keyword_search_def memory_search_def Let_def length_slice_to split: if_splits)

section \<open>Properties\<close>

text \<open>
  A search of a vault without a store (by vectors or by keywords) returns at most \<open>top_k\<close>
  results in order of descending score, each for a tool of the vault that is not HOT and not
  excluded, with that tool's risk level and permissions and a score between 0 and 1.
\<close>

theorem vault_search_sound:
  assumes "vb_store_search be = None" and "vault_search be query top_k min_score exclude v = Some rs"
    and "0 \<le> top_k"
  shows "int (length rs) \<le> top_k \<and> sorted_wrt (\<lambda>a b. sr_score b \<le> sr_score a) rs \<and>
    (\<forall>r \<in> set rs. from_entry v exclude r)"
proof -
  consider "keyword_search query top_k exclude v = Some rs"
    | cl qv where "memory_search cl qv top_k min_score exclude v = Some rs"
    using assms(1,2) by (auto simp: vault_search_def split: option.splits)
  then show ?thesis
  proof cases
    case 1
    with search_length(1) [OF 1 assms(3)] search_sorted(1) [OF 1] keyword_search_from assms(3)
    show ?thesis by (auto simp: nat_le_iff le_nat_iff)
  next
    case 2
    with search_length(2) [OF 2 assms(3)] search_sorted(2) [OF 2] memory_search_from assms(3)
    show ?thesis by (auto simp: nat_le_iff le_nat_iff)
  qed
qed

definition demo_definition :: "string \<Rightarrow> string \<Rightarrow> string \<Rightarrow> tool_definition" where
  "demo_definition name desc risk =
     \<lparr>td_name = name, td_description = desc, td_parameters = [], td_version = ''0.0.1'',
      td_language = ''python'', td_runtime = ''python'', td_risk_level = risk,
      td_required_permissions = [''net:smtp''], td_timeout_s = None\<rparr>"

definition no_backends :: vault_backends where
  "no_backends = \<lparr>vb_client = None, vb_store_search = None\<rparr>"

definition demo_backends :: vault_backends where
  "demo_backends = \<lparr>vb_client = Some \<lparr>ec_embed_one = (\<lambda>_. Some [1]), ec_embed = (\<lambda>_. None),
       ec_similarity = (\<lambda>_ vs. map (\<lambda>_. 1 / 2) vs)\<rparr>, vb_store_search = None\<rparr>"

definition demo_vault :: tool_vault where
  "demo_vault = add_tool demo_backends
     (new_tool_entry ''mail'' (demo_definition ''mail'' ''send mail'' ''high'')) new_vault"

theorem vault_search_sound_witness:
  "\<exists>rs. vault_search demo_backends ''mail'' 3 (1 / 3) [] demo_vault = Some rs \<and> length rs = 1 \<and>
     (\<forall>r \<in> set rs. from_entry demo_vault [] r)"
proof -
  have e: "\<exists>e. tv_entries demo_vault = [(''mail'', e)] \<and> te_embedding e = [1] \<and> te_tier e = COLD"
    by (simp add: demo_vault_def add_tool_def prepare_entry_def Let_def put_entry_def new_vault_def
        new_tool_entry_def demo_backends_def generate_embedding_def get_entry_def)
  then have "map_option length (vault_search demo_backends ''mail'' 3 (1 / 3) [] demo_vault) = Some 1"
    by (auto simp: vault_search_def demo_backends_def memory_search_def Let_def result_of_entry_def
        sort_desc_def slice_to_def)
  then obtain rs where rs: "vault_search demo_backends ''mail'' 3 (1 / 3) [] demo_vault = Some rs"
    "length rs = 1" by auto
  with vault_search_sound [OF _ rs(1)] show ?thesis by (auto simp: demo_backends_def)
qed

text \<open>
  Tools imported from a provider lose their risk: whatever risk level and permissions a
  definition declares, its entry says risk \<open>low\<close> and no required permissions (\<open>add_tool\<close>, in
  contrast, copies both from the definition).
\<close>

theorem provider_import_drops_risk:
  assumes "wf_dict (tpv_definitions p)" and "dget (tpv_definitions p) name = Some d"
  shows "(\<exists>e. get_entry name (add_tools_from_provider be p ess origin v) = Some e \<and>
      te_risk_level e = ''low'' \<and> te_required_permissions e = [] \<and>
      td_risk_level (te_definition e) = td_risk_level d) \<and>
    (\<exists>e. get_entry name (add_tool be (new_tool_entry name d) v) = Some e \<and>
      te_risk_level e = td_risk_level d \<and> te_required_permissions e = td_required_permissions d)"
proof
  from provider_entry_in_vault [OF assms, of be ess origin v] obtain e where
    "get_entry name (add_tools_from_provider be p ess origin v) = Some e"
    "same_but_embedding (provider_entry p ess
      (normalize_origin (if origin \<noteq> None then origin else tpv_origin p)) name d) e" by blast
  with same_but_embedding_fields [OF this(2)]
  show "\<exists>e. get_entry name (add_tools_from_provider be p ess origin v) = Some e \<and>
      te_risk_level e = ''low'' \<and> te_required_permissions e = [] \<and>
      td_risk_level (te_definition e) = td_risk_level d" by (simp add: provider_entry_fields)
  have n: "te_tool_name (new_tool_entry name d) = name" "te_definition (new_tool_entry name d) = d"
    by (simp_all add: new_tool_entry_def)
  from add_tool_entry [of name be "new_tool_entry name d" v] obtain e' where
    "get_entry name (add_tool be (new_tool_entry name d) v) = Some e'"
    "same_but_embedding (prepare_entry (new_tool_entry name d)) e'" by (auto simp: n)
  with same_but_embedding_fields [OF this(2)]
  show "\<exists>e. get_entry name (add_tool be (new_tool_entry name d) v) = Some e \<and>
      te_risk_level e = td_risk_level d \<and> te_required_permissions e = td_required_permissions d"
    by (simp add: observers n)
qed

definition demo_provider :: tool_provider where
  "demo_provider = \<lparr>tpv_provider_id = ''p'',
     tpv_definitions = [(''wipe'', demo_definition ''wipe'' ''wipe the disk'' ''critical'')],
     tpv_handlers = [], tpv_origin = None\<rparr>"

theorem provider_import_drops_risk_witness:
  "\<exists>e. get_entry ''wipe'' (add_tools_from_provider no_backends demo_provider (Some []) None new_vault) = Some e \<and>
     te_risk_level e = ''low'' \<and> td_risk_level (te_definition e) = ''critical''"
proof -
  have p: "wf_dict (tpv_definitions demo_provider)"
    "dget (tpv_definitions demo_provider) ''wipe'' = Some (demo_definition ''wipe'' ''wipe the disk'' ''critical'')"
    by (simp_all add: demo_provider_def wf_dict_def)
  have "td_risk_level (demo_definition ''wipe'' ''wipe the disk'' ''critical'') = ''critical''"
    by (simp add: demo_definition_def)
  with provider_import_drops_risk [OF p, of no_backends "Some []" None new_vault] show ?thesis by auto
qed

end
