(* ===== verification/ToolContext.thy ===== *)
theory ToolContext
  imports Vault Approval
begin

text \<open>
  \<open>youmi/mcp/context.py\<close> and \<open>youmi/mcp/cone.py\<close>: the tool context of one agent (the tiers it
  keeps itself, over a shared vault) and the cone retriever, which intersects a semantic search
  with risk, lineage and permission bounds.
\<close>

section \<open>The agent's tool context\<close>

record context_entry =
  ce_tool_name :: string
  ce_tier :: tool_context_tier
  ce_last_used_turn :: int
  ce_use_count :: int
  ce_essential :: bool

definition new_context_entry :: "string \<Rightarrow> context_entry" where
  "new_context_entry name =
     \<lparr>ce_tool_name = name, ce_tier = COLD, ce_last_used_turn = -1, ce_use_count = 0, ce_essential = False\<rparr>"

record agent_tool_context =
  cx_agent_id :: string
  cx_vault :: tool_vault
  cx_max_hot_tools :: int
  cx_recycle_after_turns :: int
  cx_contexts :: "(string, context_entry) dict"
  cx_current_turn :: int

definition new_tool_context :: "string \<Rightarrow> tool_vault \<Rightarrow> int \<Rightarrow> int \<Rightarrow> agent_tool_context" where
  "new_tool_context agent_id v max_hot recycle_after =
     \<lparr>cx_agent_id = agent_id, cx_vault = v, cx_max_hot_tools = max_hot,
      cx_recycle_after_turns = recycle_after, cx_contexts = [], cx_current_turn = 0\<rparr>"

definition init_tools :: "string list option \<Rightarrow> string list option \<Rightarrow> agent_tool_context \<Rightarrow> agent_tool_context" where
  "init_tools essential_names hot_names cx =
     (let essential = (case essential_names of None \<Rightarrow> [] | Some ns \<Rightarrow> ns);
          names = dkeys (tv_entries (cx_vault cx));
          hot = (case hot_names of None \<Rightarrow> names | Some ns \<Rightarrow> ns)
      in cx\<lparr>cx_contexts := fold (\<lambda>name.
           dset name ((new_context_entry name)
             \<lparr>ce_tier := (if name \<in> set hot \<or> name \<in> set essential then HOT else COLD),
              ce_essential := name \<in> set essential\<rparr>)) names (cx_contexts cx)\<rparr>)"

definition register_tool :: "string \<Rightarrow> tool_context_tier \<Rightarrow> bool \<Rightarrow> agent_tool_context \<Rightarrow> agent_tool_context" where
  "register_tool name tier essential cx =
     cx\<lparr>cx_contexts := dset name ((new_context_entry name)\<lparr>ce_tier := tier, ce_essential := essential\<rparr>)
          (cx_contexts cx)\<rparr>"

definition get_tier :: "string \<Rightarrow> agent_tool_context \<Rightarrow> tool_context_tier" where
  "get_tier name cx = (case dget (cx_contexts cx) name of None \<Rightarrow> COLD | Some c \<Rightarrow> ce_tier c)"

definition context_idle :: "int \<Rightarrow> int \<Rightarrow> context_entry \<Rightarrow> bool" where
  "context_idle current threshold c =
     (if ce_last_used_turn c < 0 then threshold \<le> current
      else threshold \<le> current - ce_last_used_turn c)"

definition context_recycle :: "int option \<Rightarrow> agent_tool_context \<Rightarrow> string list \<times> agent_tool_context" where
  "context_recycle idle_threshold cx =
     (let threshold = (case idle_threshold of None \<Rightarrow> cx_recycle_after_turns cx | Some t \<Rightarrow> t);
          hit = (\<lambda>c. ce_tier c = HOT \<and> \<not> ce_essential c \<and> context_idle (cx_current_turn cx) threshold c)
      in (dkeys (filter (\<lambda>(_, c). hit c) (cx_contexts cx)),
          cx\<lparr>cx_contexts := dmap (\<lambda>_ c. if hit c then c\<lparr>ce_tier := WARM\<rparr> else c) (cx_contexts cx)\<rparr>))"

definition hot_tool_names :: "agent_tool_context \<Rightarrow> string list" where
  "hot_tool_names cx = dkeys (filter (\<lambda>(_, c). ce_tier c = HOT) (cx_contexts cx))"

definition names_in_tier :: "tool_context_tier \<Rightarrow> agent_tool_context \<Rightarrow> string list" where
  "names_in_tier t cx = dkeys (filter (\<lambda>(_, c). ce_tier c = t) (cx_contexts cx))"

definition hot_count :: "agent_tool_context \<Rightarrow> nat" where
  "hot_count cx = length (filter (\<lambda>c. ce_tier c = HOT) (dvals (cx_contexts cx)))"

text \<open>
  \<open>promote\<close>: the entry object is mutated after the recycling, so its tier is set on the entry the
  recycling left.
\<close>

definition set_hot :: "string \<Rightarrow> agent_tool_context \<Rightarrow> agent_tool_context" where
  "set_hot name cx = cx\<lparr>cx_contexts := dmap (\<lambda>n c. if n = name then c\<lparr>ce_tier := HOT\<rparr> else c) (cx_contexts cx)\<rparr>"

definition promote :: "string \<Rightarrow> agent_tool_context \<Rightarrow> bool \<times> agent_tool_context" where
  "promote name cx0 =
     (case get_entry name (cx_vault cx0) of
        None \<Rightarrow> (False, cx0)
      | Some _ \<Rightarrow>
          (let cx = (if dget (cx_contexts cx0) name = None
                     then cx0\<lparr>cx_contexts := dset name (new_context_entry name) (cx_contexts cx0)\<rparr>
                     else cx0)
           in if get_tier name cx = HOT then (True, cx)
              else (let cx = (if cx_max_hot_tools cx \<le> int (hot_count cx)
                              then snd (context_recycle (Some 1) cx) else cx)
                    in (True, set_hot name cx))))"

definition demote :: "string \<Rightarrow> agent_tool_context \<Rightarrow> bool \<times> agent_tool_context" where
  "demote name cx =
     (case dget (cx_contexts cx) name of
        None \<Rightarrow> (False, cx)
      | Some c \<Rightarrow>
          if ce_tier c \<noteq> HOT then (False, cx)
          else if ce_essential c then (False, cx)
          else (True, cx\<lparr>cx_contexts := dset name (c\<lparr>ce_tier := WARM\<rparr>) (cx_contexts cx)\<rparr>))"

definition context_record_usage :: "string \<Rightarrow> int option \<Rightarrow> agent_tool_context \<Rightarrow> agent_tool_context" where
  "context_record_usage name turn cx =
     (case dget (cx_contexts cx) name of
        None \<Rightarrow> cx
      | Some c \<Rightarrow>
          cx\<lparr>cx_contexts := dset name
               (c\<lparr>ce_last_used_turn := (case turn of None \<Rightarrow> cx_current_turn cx | Some t \<Rightarrow> t),
                  ce_use_count := ce_use_count c + 1\<rparr>) (cx_contexts cx)\<rparr>)"

definition advance_turn :: "agent_tool_context \<Rightarrow> agent_tool_context" where
  "advance_turn cx = cx\<lparr>cx_current_turn := cx_current_turn cx + 1\<rparr>"

definition to_openai_tools :: "agent_tool_context \<Rightarrow> json list" where
  "to_openai_tools cx =
     List.map_filter (\<lambda>(name, c). if ce_tier c = HOT
       then map_option (\<lambda>e. to_openai_function_schema (te_definition e)) (get_entry name (cx_vault cx))
       else None) (cx_contexts cx)"

definition to_warm_summaries :: "agent_tool_context \<Rightarrow> (string \<times> string) list" where
  "to_warm_summaries cx =
     List.map_filter (\<lambda>(name, c). if ce_tier c = WARM
       then map_option (\<lambda>e. (name, if te_summary e \<noteq> [] then te_summary e
                                   else take 80 (td_description (te_definition e))))
              (get_entry name (cx_vault cx))
       else None) (cx_contexts cx)"

definition reset_context :: "agent_tool_context \<Rightarrow> agent_tool_context" where
  "reset_context cx =
     cx\<lparr>cx_contexts := dmap (\<lambda>_ c. if ce_essential c then c\<lparr>ce_tier := HOT\<rparr>
            else c\<lparr>ce_tier := COLD, ce_last_used_turn := -1, ce_use_count := 0\<rparr>) (cx_contexts cx),
        cx_current_turn := 0\<rparr>"

section \<open>The cone retriever\<close>

record cone_query =
  cq_query :: string
  cq_tags :: "string list"
  cq_risk_ceiling :: string
  cq_granted_permissions :: "string list option"
  cq_exclude_names :: "string list"
  cq_exclude_lineages :: "string list"
  cq_top_k :: int
  cq_min_score :: rat

record cone_stats =
  cs_recalled :: nat
  cs_risk_filtered :: nat
  cs_permission_filtered :: nat
  cs_lineage_filtered :: nat
  cs_returned :: nat

record cone_result =
  cr_results :: "tool_search_result list"
  cr_stats :: cone_stats

definition empty_stats :: cone_stats where
  "empty_stats = \<lparr>cs_recalled = 0, cs_risk_filtered = 0, cs_permission_filtered = 0,
     cs_lineage_filtered = 0, cs_returned = 0\<rparr>"

definition permissions_satisfied :: "string list \<Rightarrow> string list option \<Rightarrow> bool" where
  "permissions_satisfied required granted =
     (case granted of None \<Rightarrow> True | Some gs \<Rightarrow> set required \<subseteq> set gs)"

text \<open>
  The retriever's two sources: the store's \<open>search_cone\<close> (an argument: query and fetch width to
  results, \<open>None\<close> when it raises) and a vault with its backends.
\<close>

record cone_retriever =
  cn_store :: "(cone_query \<Rightarrow> int \<Rightarrow> tool_search_result list option) option"
  cn_vault :: "(vault_backends \<times> tool_vault) option"

definition fetch_k :: "cone_query \<Rightarrow> int" where
  "fetch_k q = (if 0 < cq_top_k q then cq_top_k q * 2 else cq_top_k q)"

definition within_bounds :: "cone_query \<Rightarrow> tool_search_result \<Rightarrow> bool" where
  "within_bounds q r \<longleftrightarrow>
     risk_rank (sr_risk_level r) \<le> risk_rank (cq_risk_ceiling q) \<and>
     (if sr_lineage_id r \<noteq> [] then sr_lineage_id r else sr_tool_name r) \<notin> set (cq_exclude_lineages q)"

definition retrieve_via_vault :: "cone_query \<Rightarrow> vault_backends \<times> tool_vault \<Rightarrow> tool_search_result list" where
  "retrieve_via_vault q bv =
     (case vault_search (fst bv) (cq_query q) (fetch_k q) (cq_min_score q) (cq_exclude_names q) (snd bv) of
        None \<Rightarrow> []
      | Some results \<Rightarrow> filter (within_bounds q) results)"

definition retrieve_via_store :: "cone_query \<Rightarrow> cone_retriever \<Rightarrow> tool_search_result list" where
  "retrieve_via_store q cn =
     (case cn_store cn of
        None \<Rightarrow> []
      | Some search_cone \<Rightarrow>
          (case search_cone q (fetch_k q) of
             Some results \<Rightarrow> results
           | None \<Rightarrow> (case cn_vault cn of None \<Rightarrow> [] | Some bv \<Rightarrow> retrieve_via_vault q bv)))"

definition retrieve_detailed :: "cone_query \<Rightarrow> cone_retriever \<Rightarrow> cone_result" where
  "retrieve_detailed q cn =
     (if cn_store cn = None \<and> cn_vault cn = None then \<lparr>cr_results = [], cr_stats = empty_stats\<rparr>
      else (let results = (case cn_store cn of
                             Some _ \<Rightarrow> retrieve_via_store q cn
                           | None \<Rightarrow> (case cn_vault cn of None \<Rightarrow> [] | Some bv \<Rightarrow> retrieve_via_vault q bv));
                permitted = filter (\<lambda>r. permissions_satisfied (sr_required_permissions r)
                                          (cq_granted_permissions q)) results;
                returned = slice_to (cq_top_k q) permitted
            in \<lparr>cr_results = returned,
                cr_stats = empty_stats\<lparr>cs_recalled := length results,
                  cs_permission_filtered := length results - length permitted,
                  cs_returned := length returned\<rparr>\<rparr>))"

section \<open>The context is a tier store\<close>

definition context_tier :: "agent_tool_context \<Rightarrow> string \<Rightarrow> tool_context_tier option" where
  "context_tier cx n = map_option ce_tier (dget (cx_contexts cx) n)"

definition context_essential :: "agent_tool_context \<Rightarrow> string \<Rightarrow> bool" where
  "context_essential cx n = (case dget (cx_contexts cx) n of None \<Rightarrow> False | Some c \<Rightarrow> ce_essential c)"

lemma context_recycle_get:
  "dget (cx_contexts (snd (context_recycle k cx))) n =
     map_option (\<lambda>c. if ce_tier c = HOT \<and> \<not> ce_essential c \<and>
         context_idle (cx_current_turn cx) (case k of None \<Rightarrow> cx_recycle_after_turns cx | Some t \<Rightarrow> t) c
       then c\<lparr>ce_tier := WARM\<rparr> else c) (dget (cx_contexts cx) n)"
  by (simp add: context_recycle_def Let_def)

lemma set_hot_get:
  "dget (cx_contexts (set_hot name cx)) n =
     map_option (\<lambda>c. if n = name then c\<lparr>ce_tier := HOT\<rparr> else c) (dget (cx_contexts cx) n)"
  by (simp add: set_hot_def)

lemma promote_get:
  assumes "dget (cx_contexts cx) m = Some c"
  shows "\<exists>c'. dget (cx_contexts (snd (promote n cx))) m = Some c' \<and> ce_essential c' = ce_essential c \<and>
    (ce_tier c' = ce_tier c \<or> m = n \<and> ce_tier c' = HOT \<or>
     ce_tier c = HOT \<and> \<not> ce_essential c \<and> ce_tier c' = WARM) \<and>
    (m = n \<and> get_entry n (cx_vault cx) \<noteq> None \<longrightarrow> ce_tier c' = HOT)"
proof (cases "get_entry n (cx_vault cx)")
  case None
  with assms show ?thesis by (simp add: promote_def)
next
  case (Some e)
  define cx1 where "cx1 = (if dget (cx_contexts cx) n = None
      then cx\<lparr>cx_contexts := dset n (new_context_entry n) (cx_contexts cx)\<rparr> else cx)"
  have c1: "dget (cx_contexts cx1) m = Some c" using assms by (auto simp: cx1_def)
  have p: "snd (promote n cx) = (if get_tier n cx1 = HOT then cx1
      else set_hot n (if cx_max_hot_tools cx1 \<le> int (hot_count cx1)
                      then snd (context_recycle (Some 1) cx1) else cx1))"
    using Some by (simp add: promote_def cx1_def Let_def)
  show ?thesis
  proof (cases "get_tier n cx1 = HOT")
    case True
    with c1 p show ?thesis by (auto simp: get_tier_def)
  next
    case False
    with c1 p show ?thesis
      by (auto simp: set_hot_get context_recycle_get get_tier_def)
  qed
qed

lemma context_recycle_tier:
  "context_tier (snd (context_recycle k cx)) m = context_tier cx m \<or>
   context_tier cx m = Some HOT \<and> \<not> context_essential cx m \<and>
   context_tier (snd (context_recycle k cx)) m = Some WARM"
  by (cases "dget (cx_contexts cx) m")
    (auto simp: context_tier_def context_essential_def context_recycle_get)

lemmas context_tier_defs = context_tier_def context_essential_def demote_def context_record_usage_def
  advance_turn_def Let_def

interpretation cts: tier_store context_tier context_essential "\<lambda>n cx. snd (promote n cx)"
  "\<lambda>n cx. snd (demote n cx)" "\<lambda>k cx. snd (context_recycle (Some k) cx)" context_record_usage advance_turn
proof
  fix s m t n
  assume "context_tier s m = Some t"
  then obtain c where c: "dget (cx_contexts s) m = Some c" "ce_tier c = t"
    by (auto simp: context_tier_def)
  from promote_get [OF c(1), of n] c(2)
  show "\<exists>t'. context_tier (snd (promote n s)) m = Some t' \<and>
      (t' = t \<or> m = n \<and> t' = HOT \<or> t = HOT \<and> \<not> context_essential s m \<and> t' = WARM)"
    and "context_essential (snd (promote n s)) m = context_essential s m"
    by (auto simp: context_tier_def context_essential_def c(1))
next
  fix s m k
  show "context_tier (snd (context_recycle (Some k) s)) m = context_tier s m \<or>
      context_tier s m = Some HOT \<and> \<not> context_essential s m \<and>
      context_tier (snd (context_recycle (Some k) s)) m = Some WARM" by (rule context_recycle_tier)
  show "context_essential (snd (context_recycle (Some k) s)) m = context_essential s m"
    by (cases "dget (cx_contexts s) m") (simp_all add: context_essential_def context_recycle_get)
qed (auto simp: context_tier_defs split: option.splits)

section \<open>Properties\<close>

text \<open>
  Essential tools are never recycled, in the vault and in an agent's context: whatever
  promotions, demotions, recycling rounds, uses and turns follow, an essential tool that is HOT
  stays HOT; and a tool that has left COLD never becomes COLD again.
\<close>

theorem essential_tools_stay_hot:
  "(vault_tier v n = Some HOT \<and> vault_essential v n \<longrightarrow>
      vault_tier (fold vts.tier_step ops v) n = Some HOT) \<and>
   (context_tier cx n = Some HOT \<and> context_essential cx n \<longrightarrow>
      context_tier (fold cts.tier_step ops cx) n = Some HOT) \<and>
   (context_tier cx n \<in> {Some HOT, Some WARM} \<longrightarrow>
      context_tier (fold cts.tier_step ops cx) n \<in> {Some HOT, Some WARM})"
proof (intro conjI impI)
  show "vault_tier v n = Some HOT \<and> vault_essential v n \<Longrightarrow>
      vault_tier (fold vts.tier_step ops v) n = Some HOT" using vts.essential_stays_hot by blast
  show "context_tier cx n = Some HOT \<and> context_essential cx n \<Longrightarrow>
      context_tier (fold cts.tier_step ops cx) n = Some HOT" using cts.essential_stays_hot by blast
  assume "context_tier cx n \<in> {Some HOT, Some WARM}"
  then obtain t where t: "context_tier cx n = Some t" "t \<noteq> COLD" by auto
  from cts.never_cold_again [OF t, of ops] show "context_tier (fold cts.tier_step ops cx) n \<in> {Some HOT, Some WARM}"
    by (metis insertCI tool_context_tier.exhaust)
qed

definition demo_context :: agent_tool_context where
  "demo_context = register_tool ''mail'' HOT True (register_tool ''calc'' HOT False
     (new_tool_context ''ag'' new_vault 20 3))"

theorem essential_tools_stay_hot_witness:
  "context_tier (fold cts.tier_step [NextTurn, Recycle 1, Demote ''mail''] demo_context) ''mail'' = Some HOT \<and>
   context_tier (snd (context_recycle (Some 1) (advance_turn demo_context))) ''calc'' = Some WARM \<and>
   vault_tier (fold vts.tier_step [Recycle 0] (put_entry ''m'' ((new_tool_entry ''m'' (demo_definition [] [] []))
     \<lparr>te_tier := HOT, te_essential := True\<rparr>) new_vault)) ''m'' = Some HOT"
proof (intro conjI)
  show "context_tier (fold cts.tier_step [NextTurn, Recycle 1, Demote ''mail''] demo_context) ''mail'' = Some HOT"
    by (rule essential_tools_stay_hot [THEN conjunct2, THEN conjunct1, THEN mp])
      (simp add: demo_context_def register_tool_def context_tier_def context_essential_def)
  show "context_tier (snd (context_recycle (Some 1) (advance_turn demo_context))) ''calc'' = Some WARM"
    by code_simp
  show "vault_tier (fold vts.tier_step [Recycle 0] (put_entry ''m'' ((new_tool_entry ''m'' (demo_definition [] [] []))
     \<lparr>te_tier := HOT, te_essential := True\<rparr>) new_vault)) ''m'' = Some HOT"
    by (rule essential_tools_stay_hot [THEN conjunct1, THEN mp]) (simp add: vault_tier_def vault_essential_def)
qed

text \<open>
  The two recycling routines agree: when the entries of a vault and of a context (at the same
  turn) have the same names, tiers, essential flags and last uses, recycling with one threshold
  returns the same names and leaves the same tiers.
\<close>

theorem recycle_agrees:
  assumes "map (\<lambda>(n, e). (n, te_tier e, te_essential e, te_last_used_turn e)) (tv_entries v) =
      map (\<lambda>(n, c). (n, ce_tier c, ce_essential c, ce_last_used_turn c)) (cx_contexts cx)"
    and "tv_current_turn v = cx_current_turn cx"
  shows "fst (vault_recycle k v) = fst (context_recycle (Some k) cx) \<and>
    map (\<lambda>(n, e). (n, te_tier e)) (tv_entries (snd (vault_recycle k v))) =
    map (\<lambda>(n, c). (n, ce_tier c)) (cx_contexts (snd (context_recycle (Some k) cx)))"
proof -
  have "map fst (filter (\<lambda>(_, e). te_tier e = HOT \<and> \<not> te_essential e \<and> vault_idle t k e) es) =
        map fst (filter (\<lambda>(_, c). ce_tier c = HOT \<and> \<not> ce_essential c \<and> context_idle t k c) cs) \<and>
      map (\<lambda>(n, e). (n, te_tier e)) (dmap (\<lambda>_ e. if te_tier e = HOT \<and> \<not> te_essential e \<and> vault_idle t k e
          then e\<lparr>te_tier := WARM\<rparr> else e) es) =
      map (\<lambda>(n, c). (n, ce_tier c)) (dmap (\<lambda>_ c. if ce_tier c = HOT \<and> \<not> ce_essential c \<and> context_idle t k c
          then c\<lparr>ce_tier := WARM\<rparr> else c) cs)"
    if "map (\<lambda>(n, e). (n, te_tier e, te_essential e, te_last_used_turn e)) es =
      map (\<lambda>(n, c). (n, ce_tier c, ce_essential c, ce_last_used_turn c)) cs"
    for t :: int and es :: "(string, tool_entry) dict" and cs :: "(string, context_entry) dict"
    using that
  proof (induction es arbitrary: cs)
    case Nil
    then show ?case by (simp add: dmap_def)
  next
    case (Cons p es)
    then obtain q qs where "cs = q # qs" by (cases cs) auto
    with Cons show ?case
      by (cases p; cases q) (auto simp: dmap_def vault_idle_def context_idle_def)
  qed
  from this [OF assms(1), of "cx_current_turn cx"] assms(2) show ?thesis
    by (simp add: vault_recycle_def context_recycle_def Let_def)
qed

theorem recycle_agrees_witness:
  "fst (vault_recycle 0 (put_entry ''m'' ((new_tool_entry ''m'' (demo_definition [] [] []))\<lparr>te_tier := HOT\<rparr>)
     new_vault)) =
   fst (context_recycle (Some 0) (register_tool ''m'' HOT False (new_tool_context [] new_vault 20 3)))"
  by (rule recycle_agrees [THEN conjunct1])
    (simp_all add: put_entry_def new_vault_def new_tool_entry_def register_tool_def new_tool_context_def
      new_context_entry_def)

text \<open>
  The limit on HOT tools is not enforced: when no HOT tool is idle, promoting a COLD or WARM
  tool at or above the limit succeeds and leaves more HOT tools than before, without recycling
  any.
\<close>

theorem promote_exceeds_limit:
  assumes "wf_dict (cx_contexts cx)" and "get_entry n (cx_vault cx) \<noteq> None"
    and "dget (cx_contexts cx) n = Some c" and "ce_tier c \<noteq> HOT"
    and "\<forall>m d. dget (cx_contexts cx) m = Some d \<and> ce_tier d = HOT \<longrightarrow>
      ce_essential d \<or> ce_last_used_turn d = cx_current_turn cx \<and> 0 \<le> cx_current_turn cx"
  shows "fst (promote n cx) \<and> hot_count (snd (promote n cx)) = Suc (hot_count cx)"
proof -
  have idle: "\<not> (ce_tier d = HOT \<and> \<not> ce_essential d \<and> context_idle (cx_current_turn cx) 1 d)"
    if "(m, d) \<in> set (cx_contexts cx)" for m d
  proof -
    have "dget (cx_contexts cx) m = Some d" using dget_mem [OF assms(1)] that by blast
    with assms(5) have "ce_tier d = HOT \<Longrightarrow> ce_essential d \<or>
        ce_last_used_turn d = cx_current_turn cx \<and> 0 \<le> cx_current_turn cx" by blast
    then show ?thesis by (auto simp: context_idle_def)
  qed
  have "dmap (\<lambda>_ d. if ce_tier d = HOT \<and> \<not> ce_essential d \<and> context_idle (cx_current_turn cx) 1 d
      then d\<lparr>ce_tier := WARM\<rparr> else d) (cx_contexts cx) = cx_contexts cx"
    unfolding dmap_def by (rule map_idI) (use idle in \<open>auto split: if_splits\<close>)
  then have rec: "snd (context_recycle (Some 1) cx) = cx" by (simp add: context_recycle_def Let_def)
  have p: "promote n cx = (True, set_hot n cx)"
    using assms(2-4) rec by (auto simp: promote_def Let_def get_tier_def)
  have h: "hot_count (cx\<lparr>cx_contexts := dmap (\<lambda>m c. if m = n then c\<lparr>ce_tier := HOT\<rparr> else c) d\<rparr>) =
      Suc (length (filter (\<lambda>c. ce_tier c = HOT) (dvals d)))"
    if "wf_dict d" "dget d n = Some c" for d :: "(string, context_entry) dict"
    using that
  proof (induction d)
    case (Cons q d)
    obtain k x where q: "q = (k, x)" by (cases q)
    have same: "dmap (\<lambda>m c. if m = n then c\<lparr>ce_tier := HOT\<rparr> else c) d = d" if "n \<notin> fst ` set d"
      using that unfolding dmap_def by (intro map_idI) force
    show ?case
    proof (cases "k = n")
      case True
      then have "n \<notin> fst ` set d" "x = c" using Cons.prems by (auto simp: q wf_dict_def)
      with same assms(4) True show ?thesis by (simp add: q hot_count_def dmap_def)
    next
      case False
      with Cons show ?thesis by (simp add: q hot_count_def dmap_def wf_dict_def)
    qed
  qed simp
  show ?thesis unfolding p using h [OF assms(1,3)] by (simp add: set_hot_def hot_count_def)
qed

theorem promote_exceeds_limit_witness:
  "hot_count (snd (promote ''m'' (register_tool ''a'' HOT True (register_tool ''m'' COLD False
     (new_tool_context [] (put_entry ''m'' (new_tool_entry ''m'' (demo_definition [] [] [])) new_vault) 1 3))))) = 2"
proof -
  let ?cx = "register_tool ''a'' HOT True (register_tool ''m'' COLD False
     (new_tool_context [] (put_entry ''m'' (new_tool_entry ''m'' (demo_definition [] [] [])) new_vault) 1 3))"
  have c: "cx_contexts ?cx = [(''m'', new_context_entry ''m''),
      (''a'', (new_context_entry ''a'')\<lparr>ce_tier := HOT, ce_essential := True\<rparr>)]"
    by (simp add: register_tool_def new_tool_context_def new_context_entry_def)
  have "hot_count (snd (promote ''m'' ?cx)) = Suc (hot_count ?cx)"
    by (rule promote_exceeds_limit [where c = "new_context_entry ''m''", THEN conjunct2])
      (auto simp: c wf_dict_def new_context_entry_def, simp add: register_tool_def new_tool_context_def)
  then show ?thesis by (simp add: hot_count_def c new_context_entry_def)
qed

lemma cone_result:
  assumes "0 \<le> cq_top_k q" and "r \<in> set (cr_results (retrieve_detailed q cn))"
  shows "int (length (cr_results (retrieve_detailed q cn))) \<le> cq_top_k q \<and>
    permissions_satisfied (sr_required_permissions r) (cq_granted_permissions q) \<and>
    (cn_store cn = None \<longrightarrow> within_bounds q r \<and>
       (\<forall>be v. cn_vault cn = Some (be, v) \<and> vb_store_search be = None \<longrightarrow>
          from_entry v (cq_exclude_names q) r))"
proof -
  let ?res = "(case cn_store cn of Some _ \<Rightarrow> retrieve_via_store q cn
      | None \<Rightarrow> (case cn_vault cn of None \<Rightarrow> [] | Some bv \<Rightarrow> retrieve_via_vault q bv))"
  let ?perm = "filter (\<lambda>r. permissions_satisfied (sr_required_permissions r) (cq_granted_permissions q)) ?res"
  have e: "cr_results (retrieve_detailed q cn) = slice_to (cq_top_k q) ?perm"
    using assms(2) by (auto simp: retrieve_detailed_def Let_def split: if_splits)
  have len: "int (length (slice_to (cq_top_k q) ?perm)) \<le> cq_top_k q"
    using length_slice_to [OF assms(1), of ?perm] assms(1) by linarith
  have mem: "r \<in> set ?perm" using assms(2) set_slice_to [of "cq_top_k q" ?perm] unfolding e by blast
  have "within_bounds q r \<and> (\<forall>be v. cn_vault cn = Some (be, v) \<and> vb_store_search be = None \<longrightarrow>
      from_entry v (cq_exclude_names q) r)" if n: "cn_store cn = None"
  proof (cases "cn_vault cn")
    case None
    with mem n show ?thesis by simp
  next
    case (Some bv)
    with mem n obtain rs where s: "vault_search (fst bv) (cq_query q) (fetch_k q) (cq_min_score q)
        (cq_exclude_names q) (snd bv) = Some rs" and r: "r \<in> set rs" "within_bounds q r"
      by (cases "vault_search (fst bv) (cq_query q) (fetch_k q) (cq_min_score q) (cq_exclude_names q) (snd bv)")
        (auto simp: retrieve_via_vault_def)
    have "0 \<le> fetch_k q" using assms(1) by (simp add: fetch_k_def)
    with Some s r show ?thesis
      by (cases bv) (auto simp: vault_search_def split: option.splits
          intro: keyword_search_from memory_search_from)
  qed
  with e len mem show ?thesis by auto
qed

text \<open>
  The cone: every result satisfies the permission bound, and there are at most \<open>top_k\<close> of
  them. Without a store, every result also comes from a tool of the vault that is not HOT and not
  excluded, its risk is not above the ceiling and its lineage is not excluded.
\<close>

theorem cone_sound:
  assumes "0 \<le> cq_top_k q" and "r \<in> set (cr_results (retrieve_detailed q cn))"
  shows "int (length (cr_results (retrieve_detailed q cn))) \<le> cq_top_k q \<and>
    permissions_satisfied (sr_required_permissions r) (cq_granted_permissions q) \<and>
    (cn_store cn = None \<longrightarrow> within_bounds q r \<and>
       (\<forall>be v. cn_vault cn = Some (be, v) \<and> vb_store_search be = None \<longrightarrow>
          from_entry v (cq_exclude_names q) r))"
  using cone_result [OF assms] .

theorem cone_sound_witness:
  "\<exists>r. cr_results (retrieve_detailed \<lparr>cq_query = ''mail'', cq_tags = [], cq_risk_ceiling = ''high'',
       cq_granted_permissions = Some [''net:smtp''], cq_exclude_names = [], cq_exclude_lineages = [],
       cq_top_k = 2, cq_min_score = 1 / 3\<rparr> \<lparr>cn_store = None, cn_vault = Some (demo_backends, demo_vault)\<rparr>) = [r] \<and>
     permissions_satisfied (sr_required_permissions r) (Some [''net:smtp''])"
proof -
  let ?q = "\<lparr>cq_query = ''mail'', cq_tags = [], cq_risk_ceiling = ''high'',
       cq_granted_permissions = Some [''net:smtp''], cq_exclude_names = [], cq_exclude_lineages = [],
       cq_top_k = 2, cq_min_score = 1 / 3\<rparr>"
  let ?cn = "\<lparr>cn_store = None, cn_vault = Some (demo_backends, demo_vault)\<rparr>"
  have e: "\<exists>e. tv_entries demo_vault = [(''mail'', e)] \<and> te_embedding e = [1] \<and> te_tier e = COLD \<and>
      te_risk_level e = ''high'' \<and> te_required_permissions e = [''net:smtp'']"
    by (simp add: demo_vault_def add_tool_def prepare_entry_def Let_def put_entry_def new_vault_def
        new_tool_entry_def demo_backends_def generate_embedding_def get_entry_def demo_definition_def)
  then obtain r where r: "cr_results (retrieve_detailed ?q ?cn) = [r]"
    by (auto simp: retrieve_detailed_def retrieve_via_vault_def vault_search_def demo_backends_def
        memory_search_def Let_def result_of_entry_def sort_desc_def slice_to_def fetch_k_def
        within_bounds_def permissions_satisfied_def)
  with cone_sound [of ?q r ?cn] show ?thesis by auto
qed

end
