(* ===== verification/Gateway.thy ===== *)
theory Gateway
  imports Prelude "HOL-Library.Multiset"
begin

text \<open>
  \<open>youmi/gateway\<close>: the task models (\<open>models.py\<close>), the registry with its eviction
  (\<open>registry.py\<close>), the event hub (\<open>events.py\<close>), the queue (\<open>queue.py\<close>), the worker pool
  (\<open>worker.py\<close>) and the service (\<open>service.py\<close>). Times and generated ids are arguments. The
  record objects that the source shares are values here: a worker writes a record to the registry
  in the same uninterrupted step in which it changes it, so no reader can tell.
\<close>

section \<open>Models\<close>

datatype task_status = QUEUED | RUNNING | COMPLETED | FAILED | CANCELLED

definition finished :: "task_status \<Rightarrow> bool" where
  "finished s \<longleftrightarrow> s \<in> {COMPLETED, FAILED, CANCELLED}"

record task_record =
  tk_task_id :: string
  tk_task :: string
  tk_tenant :: string
  tk_metadata :: "(string, json) dict"
  tk_status :: task_status
  tk_result :: string
  tk_error :: string
  tk_iterations :: int
  tk_tool_calls :: "string list"
  tk_worker_id :: string
  tk_created_at :: rat
  tk_started_at :: "rat option"
  tk_finished_at :: "rat option"

definition new_task_record :: "string \<Rightarrow> string \<Rightarrow> string \<Rightarrow> (string, json) dict \<Rightarrow> rat \<Rightarrow> task_record" where
  "new_task_record task_id task tenant metadata now =
     \<lparr>tk_task_id = task_id, tk_task = task, tk_tenant = tenant, tk_metadata = metadata,
      tk_status = QUEUED, tk_result = [], tk_error = [], tk_iterations = 0, tk_tool_calls = [],
      tk_worker_id = [], tk_created_at = now, tk_started_at = None, tk_finished_at = None\<rparr>"

text \<open>\<open>round(x, 2)\<close>: half to even, on exact values.\<close>

definition round2 :: "rat \<Rightarrow> rat" where
  "round2 x =
     (let y = x * 100; f = \<lfloor>y\<rfloor>; d = y - of_int f
      in of_int (if d < 1 / 2 \<or> (d = 1 / 2 \<and> even f) then f else f + 1) / 100)"

definition duration_ms :: "rat \<Rightarrow> task_record \<Rightarrow> rat option" where
  "duration_ms now r =
     (case tk_started_at r of
        None \<Rightarrow> None
      | Some start \<Rightarrow>
          (let end = (case tk_finished_at r of None \<Rightarrow> now | Some t \<Rightarrow> t)
           in Some (round2 ((end - start) * 1000))))"

section \<open>The registry\<close>

record task_registry =
  rg_records :: "(string, task_record) dict"
  rg_max :: int

definition new_registry :: "int \<Rightarrow> task_registry" where
  "new_registry max_records = \<lparr>rg_records = [], rg_max = max_records\<rparr>"

text \<open>The loop of \<open>_evict_if_needed\<close>, oldest record first.\<close>

fun evict :: "int \<Rightarrow> (string, task_record) dict \<Rightarrow> (string, task_record) dict" where
  "evict overflow [] = []"
| "evict overflow ((k, r) # d) =
     (if overflow \<le> 0 then (k, r) # d
      else if finished (tk_status r) then evict (overflow - 1) d
      else (k, r) # evict overflow d)"

definition registry_put :: "task_record \<Rightarrow> task_registry \<Rightarrow> task_registry" where
  "registry_put r rg =
     (let d = dset (tk_task_id r) r (rg_records rg) in
      rg\<lparr>rg_records :=
        (if rg_max rg \<le> 0 \<or> int (length d) \<le> rg_max rg then d
         else evict (int (length d) - rg_max rg) d)\<rparr>)"

definition registry_get :: "string \<Rightarrow> task_registry \<Rightarrow> task_record option" where
  "registry_get task_id rg = dget (rg_records rg) task_id"

definition registry_list :: "string option \<Rightarrow> task_status option \<Rightarrow> int \<Rightarrow> task_registry \<Rightarrow> task_record list" where
  "registry_list tenant status limit rg =
     (let rs = rev (dvals (rg_records rg));
          rs = (case tenant of None \<Rightarrow> rs | Some t \<Rightarrow> filter (\<lambda>r. tk_tenant r = t) rs);
          rs = (case status of None \<Rightarrow> rs | Some s \<Rightarrow> filter (\<lambda>r. tk_status r = s) rs)
      in if 0 < limit then slice_to limit rs else rs)"

definition registry_stats :: "task_registry \<Rightarrow> nat \<times> (task_status \<Rightarrow> nat)" where
  "registry_stats rg =
     (length (rg_records rg), \<lambda>s. length (filter (\<lambda>r. tk_status r = s) (dvals (rg_records rg))))"

section \<open>The event hub\<close>

text \<open>A task update event is the snapshot of the record; \<open>None\<close> on a stream ends it.\<close>

record task_event =
  te_ts :: rat
  te_record :: task_record
  te_duration_ms :: "rat option"

definition task_update_event :: "rat \<Rightarrow> task_record \<Rightarrow> task_event" where
  "task_update_event now r = \<lparr>te_ts = now, te_record = r, te_duration_ms = duration_ms now r\<rparr>"

record event_hub =
  hb_subscribers :: "(string, nat list) dict"
  hb_closed :: "string list"
  hb_queues :: "nat \<Rightarrow> task_event option list"
  hb_next :: nat

definition new_event_hub :: event_hub where
  "new_event_hub = \<lparr>hb_subscribers = [], hb_closed = [], hb_queues = (\<lambda>_. []), hb_next = 0\<rparr>"

definition subscribers_of :: "string \<Rightarrow> event_hub \<Rightarrow> nat list" where
  "subscribers_of task_id h = (case dget (hb_subscribers h) task_id of None \<Rightarrow> [] | Some qs \<Rightarrow> qs)"

definition send :: "task_event option \<Rightarrow> nat list \<Rightarrow> event_hub \<Rightarrow> event_hub" where
  "send ev qs h = h\<lparr>hb_queues := (\<lambda>q. if q \<in> set qs then hb_queues h q @ [ev] else hb_queues h q)\<rparr>"

definition hub_publish :: "string \<Rightarrow> task_event \<Rightarrow> event_hub \<Rightarrow> event_hub" where
  "hub_publish task_id ev h = send (Some ev) (subscribers_of task_id h) h"

definition hub_close :: "string \<Rightarrow> event_hub \<Rightarrow> event_hub" where
  "hub_close task_id h =
     (send None (subscribers_of task_id h) h)
       \<lparr>hb_closed := List.insert task_id (hb_closed h),
        hb_subscribers := ddel task_id (hb_subscribers h)\<rparr>"

text \<open>\<open>None\<close> is the empty stream; otherwise the new queue of the subscription.\<close>

definition hub_subscribe :: "string \<Rightarrow> event_hub \<Rightarrow> nat option \<times> event_hub" where
  "hub_subscribe task_id h =
     (if task_id \<in> set (hb_closed h) then (None, h)
      else (Some (hb_next h),
            h\<lparr>hb_subscribers := dset task_id (subscribers_of task_id h @ [hb_next h]) (hb_subscribers h),
              hb_next := Suc (hb_next h)\<rparr>))"

text \<open>\<open>_remove\<close>, when a stream ends or is closed by its reader.\<close>

definition hub_remove :: "string \<Rightarrow> nat \<Rightarrow> event_hub \<Rightarrow> event_hub" where
  "hub_remove task_id q h =
     (case dget (hb_subscribers h) task_id of
        None \<Rightarrow> h
      | Some qs \<Rightarrow>
          if qs = [] then h
          else (let qs = remove1 q qs in
                h\<lparr>hb_subscribers := (if qs = [] then ddel task_id (hb_subscribers h)
                                     else dset task_id qs (hb_subscribers h))\<rparr>))"

definition subscriber_count :: "string \<Rightarrow> event_hub \<Rightarrow> nat" where
  "subscriber_count task_id h = length (subscribers_of task_id h)"

section \<open>The queue\<close>

text \<open>
  The contract of \<open>TaskQueue\<close> as the workers use it: first in, first out, and a count of the
  tasks taken or waiting that \<open>task_done\<close> decreases (\<open>join\<close> waits for it to be zero).
\<close>

locale task_queue =
  fixes items :: "'q \<Rightarrow> 'r list" and pending :: "'q \<Rightarrow> nat"
    and put :: "'r \<Rightarrow> 'q \<Rightarrow> 'q" and get :: "'q \<Rightarrow> ('r \<times> 'q) option" and task_done :: "'q \<Rightarrow> 'q"
  assumes put_items: "items (put r q) = items q @ [r]" "pending (put r q) = Suc (pending q)"
    and get_None: "get q = None \<longleftrightarrow> items q = []"
    and get_Some: "get q = Some (r, q') \<Longrightarrow> items q = r # items q' \<and> pending q' = pending q"
    and done_items: "items (task_done q) = items q" "pending (task_done q) = pending q - 1"
begin

fun get_n :: "nat \<Rightarrow> 'q \<Rightarrow> 'r list \<times> 'q" where
  "get_n 0 q = ([], q)"
| "get_n (Suc n) q =
     (case get q of None \<Rightarrow> ([], q) | Some (r, q') \<Rightarrow> (let (rs, q'') = get_n n q' in (r # rs, q'')))"

lemma put_all: "items (fold put rs q) = items q @ rs \<and> pending (fold put rs q) = pending q + length rs"
  by (induction rs arbitrary: q) (auto simp: put_items)

lemma get_all: "fst (get_n (length (items q)) q) = items q"
proof (induction "length (items q)" arbitrary: q)
  case 0
  then show ?case by simp
next
  case (Suc n)
  then obtain r q' where g: "get q = Some (r, q')" using get_None [of q] by (cases "get q") auto
  from get_Some [OF g] have i: "items q = r # items q'" by blast
  with Suc have "fst (get_n (length (items q')) q') = items q'" by simp
  with g i show ?case by (simp add: case_prod_unfold)
qed

lemma fifo: "items q = [] \<Longrightarrow> fst (get_n (length rs) (fold put rs q)) = rs"
  using get_all [of "fold put rs q"] put_all [of rs q] by simp

end

record 'r memory_queue =
  mq_items :: "'r list"
  mq_unfinished :: nat

definition new_queue :: "'r memory_queue" where
  "new_queue = \<lparr>mq_items = [], mq_unfinished = 0\<rparr>"

definition queue_put :: "'r \<Rightarrow> 'r memory_queue \<Rightarrow> 'r memory_queue" where
  "queue_put r q = q\<lparr>mq_items := mq_items q @ [r], mq_unfinished := Suc (mq_unfinished q)\<rparr>"

definition queue_get :: "'r memory_queue \<Rightarrow> ('r \<times> 'r memory_queue) option" where
  "queue_get q = (case mq_items q of [] \<Rightarrow> None | r # rs \<Rightarrow> Some (r, q\<lparr>mq_items := rs\<rparr>))"

definition queue_task_done :: "'r memory_queue \<Rightarrow> 'r memory_queue" where
  "queue_task_done q = q\<lparr>mq_unfinished := mq_unfinished q - 1\<rparr>"

definition queue_joined :: "'r memory_queue \<Rightarrow> bool" where
  "queue_joined q \<longleftrightarrow> mq_unfinished q = 0"

definition qsize :: "'r memory_queue \<Rightarrow> nat" where
  "qsize q = length (mq_items q)"

interpretation mq: task_queue mq_items mq_unfinished queue_put queue_get queue_task_done
  by unfold_locales (auto simp: queue_put_def queue_get_def queue_task_done_def split: list.splits)

section \<open>Service and workers\<close>

record task_outcome =
  oc_output :: string
  oc_error :: string
  oc_iterations :: int
  oc_tool_calls :: "string list"

definition oc_success :: "task_outcome \<Rightarrow> bool" where
  "oc_success o' \<longleftrightarrow> oc_error o' = []"

text \<open>How \<open>executor.execute\<close> ends: an outcome, or an exception (its text).\<close>

datatype execution = Outcome task_outcome | ExecutorRaised string

definition outcome_of :: "execution \<Rightarrow> task_outcome" where
  "outcome_of e =
     (case e of
        Outcome o' \<Rightarrow> o'
      | ExecutorRaised exc \<Rightarrow> \<lparr>oc_output = [], oc_error = exc, oc_iterations = 0, oc_tool_calls = []\<rparr>)"

text \<open>The workers that have taken a record and not finished it.\<close>

record gateway =
  gw_registry :: task_registry
  gw_events :: event_hub
  gw_queue :: "task_record memory_queue"
  gw_running :: "(string, task_record) dict"

definition new_gateway :: "int \<Rightarrow> gateway" where
  "new_gateway max_records = \<lparr>gw_registry = new_registry max_records, gw_events = new_event_hub,
     gw_queue = new_queue, gw_running = []\<rparr>"

definition publish_record :: "rat \<Rightarrow> task_record \<Rightarrow> gateway \<Rightarrow> gateway" where
  "publish_record now r g =
     g\<lparr>gw_registry := registry_put r (gw_registry g),
       gw_events := hub_publish (tk_task_id r) (task_update_event now r) (gw_events g)\<rparr>"

text \<open>\<open>GatewayService.submit\<close>: \<open>fresh\<close> is the generated id, used unless the caller gives one.\<close>

definition submit :: "string \<Rightarrow> rat \<Rightarrow> string \<Rightarrow> string \<Rightarrow> (string, json) dict \<Rightarrow> string option \<Rightarrow>
    gateway \<Rightarrow> task_record \<times> gateway" where
  "submit fresh now task tenant metadata task_id g =
     (let tid = (case task_id of None \<Rightarrow> fresh | Some t \<Rightarrow> if t \<noteq> [] then t else fresh);
          r = new_task_record tid task (if tenant \<noteq> [] then tenant else ''default'') metadata now;
          g = publish_record now r g
      in (r, g\<lparr>gw_queue := queue_put r (gw_queue g)\<rparr>))"

text \<open>The first part of \<open>_run_worker\<close>/\<open>_execute\<close>: take a record and mark it RUNNING.\<close>

definition worker_begin :: "string \<Rightarrow> rat \<Rightarrow> gateway \<Rightarrow> gateway option" where
  "worker_begin w now g =
     (if dget (gw_running g) w \<noteq> None then None
      else (case queue_get (gw_queue g) of
              None \<Rightarrow> None
            | Some (r, q) \<Rightarrow>
                (let r = r\<lparr>tk_status := RUNNING, tk_started_at := Some now, tk_worker_id := w\<rparr> in
                 Some ((publish_record now r g)
                   \<lparr>gw_queue := q, gw_running := dset w r (gw_running g)\<rparr>))))"

definition finish_record :: "task_outcome \<Rightarrow> rat \<Rightarrow> task_record \<Rightarrow> task_record" where
  "finish_record o' now r =
     r\<lparr>tk_result := oc_output o', tk_error := oc_error o', tk_iterations := oc_iterations o',
       tk_tool_calls := oc_tool_calls o', tk_finished_at := Some now,
       tk_status := (if oc_success o' then COMPLETED else FAILED)\<rparr>"

text \<open>The second part: write the outcome, publish, close the stream, \<open>task_done\<close>.\<close>

definition worker_finish :: "string \<Rightarrow> execution \<Rightarrow> rat \<Rightarrow> gateway \<Rightarrow> gateway option" where
  "worker_finish w e now g =
     (case dget (gw_running g) w of
        None \<Rightarrow> None
      | Some r0 \<Rightarrow>
          (let r = finish_record (outcome_of e) now r0; g1 = publish_record now r g in
           Some (g1\<lparr>gw_events := hub_close (tk_task_id r) (gw_events g1),
                    gw_queue := queue_task_done (gw_queue g1),
                    gw_running := ddel w (gw_running g)\<rparr>)))"

text \<open>The worker is cancelled while its task runs: only \<open>task_done\<close> is called.\<close>

definition worker_cancel :: "string \<Rightarrow> gateway \<Rightarrow> gateway option" where
  "worker_cancel w g =
     (case dget (gw_running g) w of
        None \<Rightarrow> None
      | Some _ \<Rightarrow> Some (g\<lparr>gw_queue := queue_task_done (gw_queue g), gw_running := ddel w (gw_running g)\<rparr>))"

text \<open>\<open>WorkerPool.stop(drain=False)\<close>: all workers are cancelled.\<close>

definition stop_now :: "gateway \<Rightarrow> gateway" where
  "stop_now g = fold (\<lambda>w g. case worker_cancel w g of None \<Rightarrow> g | Some g' \<Rightarrow> g') (dkeys (gw_running g)) g"

definition subscribe_task :: "string \<Rightarrow> gateway \<Rightarrow> nat option \<times> gateway" where
  "subscribe_task task_id g =
     (let (q, h) = hub_subscribe task_id (gw_events g) in (q, g\<lparr>gw_events := h\<rparr>))"

definition get_task :: "string \<Rightarrow> gateway \<Rightarrow> task_record option" where
  "get_task task_id g = registry_get task_id (gw_registry g)"

text \<open>Interleaved submissions, workers and readers; submitted ids are new.\<close>

record gateway_run =
  gr_gateway :: gateway
  gr_submitted :: "string list"
  gr_done :: "string list"

inductive gateway_step :: "gateway_run \<Rightarrow> gateway_run \<Rightarrow> bool" where
  submitted: "submit fresh now task tenant md tid (gr_gateway s) = (r, g) \<Longrightarrow>
     tk_task_id r \<notin> set (gr_submitted s) \<Longrightarrow>
     gateway_step s (s\<lparr>gr_gateway := g, gr_submitted := tk_task_id r # gr_submitted s\<rparr>)"
| began: "worker_begin w now (gr_gateway s) = Some g \<Longrightarrow> gateway_step s (s\<lparr>gr_gateway := g\<rparr>)"
| ended: "worker_finish w e now (gr_gateway s) = Some g \<Longrightarrow>
     dget (gw_running (gr_gateway s)) w = Some r \<Longrightarrow>
     gateway_step s (s\<lparr>gr_gateway := g, gr_done := tk_task_id r # gr_done s\<rparr>)"
| subscribed: "subscribe_task tid (gr_gateway s) = (q, g) \<Longrightarrow>
     gateway_step s (s\<lparr>gr_gateway := g\<rparr>)"

inductive gateway_reach :: "int \<Rightarrow> gateway_run \<Rightarrow> bool" for max_records where
  start: "gateway_reach max_records \<lparr>gr_gateway = new_gateway max_records, gr_submitted = [], gr_done = []\<rparr>"
| step: "gateway_reach max_records s \<Longrightarrow> gateway_step s s' \<Longrightarrow> gateway_reach max_records s'"

inductive_cases gateway_stepE: "gateway_step s s'"

end
