(* ===== verification/GatewayProps.thy ===== *)
theory GatewayProps
  imports Gateway
begin

text \<open>
  What holds of the gateway in every interleaving of submissions, workers and readers: each
  submitted task is in exactly one place (queue, worker, finished), its registry entry agrees, and
  the streams of a task end exactly once, with its final state.
\<close>

section \<open>Eviction\<close>

abbreviation unfinished :: "string \<times> task_record \<Rightarrow> bool" where
  "unfinished p \<equiv> \<not> finished (tk_status (snd p))"

lemma evict_split:
  "\<exists>d1 d2. d = d1 @ d2 \<and> evict n d = filter unfinished d1 @ d2 \<and>
     int (length (filter (\<lambda>p. finished (tk_status (snd p))) d1)) \<le> max n 0 \<and>
     (int (length (filter (\<lambda>p. finished (tk_status (snd p))) d1)) = max n 0 \<or>
      (d2 = [] \<and> list_all unfinished (evict n d)))"
proof (induction n d rule: evict.induct)
  case (1 n)
  show ?case by (rule exI [of _ "[]"]) simp
next
  case (2 n k r d)
  show ?case
  proof (cases "n \<le> 0")
    case True
    then show ?thesis by (intro exI [of _ "[]"] exI [of _ "(k, r) # d"]) simp
  next
    case n: False
    show ?thesis
    proof (cases "finished (tk_status r)")
      case True
      with "2.IH"(1) n obtain d1 d2 where I: "d = d1 @ d2" "evict (n - 1) d = filter unfinished d1 @ d2"
        "int (length (filter (\<lambda>p. finished (tk_status (snd p))) d1)) \<le> max (n - 1) 0"
        "int (length (filter (\<lambda>p. finished (tk_status (snd p))) d1)) = max (n - 1) 0 \<or>
         (d2 = [] \<and> list_all unfinished (evict (n - 1) d))" by blast
      with n True show ?thesis by (intro exI [of _ "(k, r) # d1"] exI [of _ d2]) auto
    next
      case False
      with "2.IH"(2) n obtain d1 d2 where I: "d = d1 @ d2" "evict n d = filter unfinished d1 @ d2"
        "int (length (filter (\<lambda>p. finished (tk_status (snd p))) d1)) \<le> max n 0"
        "int (length (filter (\<lambda>p. finished (tk_status (snd p))) d1)) = max n 0 \<or>
         (d2 = [] \<and> list_all unfinished (evict n d))" by blast
      with n False show ?thesis by (intro exI [of _ "(k, r) # d1"] exI [of _ d2]) auto
    qed
  qed
qed

lemma evict_subset: "p \<in> set (evict n d) \<Longrightarrow> p \<in> set d"
  by (induction n d rule: evict.induct) (auto split: if_splits)

lemma evict_unfinished: "p \<in> set d \<Longrightarrow> unfinished p \<Longrightarrow> p \<in> set (evict n d)"
  by (induction n d rule: evict.induct) auto

lemma evict_wf: "wf_dict d \<Longrightarrow> wf_dict (evict n d)"
proof (induction n d rule: evict.induct)
  case (2 n k r d)
  have "k \<notin> fst ` set (evict n d)" if "k \<notin> fst ` set d" for n
    using that by (auto dest: evict_subset)
  with 2 show ?case by (auto simp: wf_dict_def)
qed simp

definition registry_ok :: "task_registry \<Rightarrow> bool" where
  "registry_ok rg \<longleftrightarrow> wf_dict (rg_records rg) \<and>
     (\<forall>k r. dget (rg_records rg) k = Some r \<longrightarrow> tk_task_id r = k)"

lemma put_records:
  "rg_records (registry_put r rg) = dset (tk_task_id r) r (rg_records rg) \<or>
   (\<exists>n. rg_records (registry_put r rg) = evict n (dset (tk_task_id r) r (rg_records rg)))"
  by (auto simp: registry_put_def Let_def)

lemma registry_put_get:
  assumes "registry_ok rg" and "registry_get k (registry_put r rg) = Some x"
  shows "if k = tk_task_id r then x = r else registry_get k rg = Some x"
proof -
  let ?d = "dset (tk_task_id r) r (rg_records rg)"
  have wf: "wf_dict ?d" using assms(1) by (simp add: registry_ok_def)
  have "dget ?d k = Some x"
    using assms(2) put_records [of r rg] evict_subset [of "(k, x)"] dget_mem [OF wf]
      dget_mem [OF evict_wf [OF wf]] by (auto simp: registry_get_def)
  then show ?thesis by (auto simp: registry_get_def split: if_splits)
qed

lemma registry_put_unfinished:
  assumes "registry_ok rg"
    and "if k = tk_task_id r then x = r else registry_get k rg = Some x" and "\<not> finished (tk_status x)"
  shows "registry_get k (registry_put r rg) = Some x"
proof -
  let ?d = "dset (tk_task_id r) r (rg_records rg)"
  have wf: "wf_dict ?d" using assms(1) by (simp add: registry_ok_def)
  have "dget ?d k = Some x" using assms(2) by (auto simp: registry_get_def split: if_splits)
  then have "(k, x) \<in> set ?d" using dget_mem [OF wf] by blast
  then have "(k, x) \<in> set (evict n ?d)" for n using evict_unfinished assms(3) by fastforce
  then have "dget (evict n ?d) k = Some x" for n using dget_mem [OF evict_wf [OF wf]] by blast
  with \<open>dget ?d k = Some x\<close> put_records [of r rg] show ?thesis by (auto simp: registry_get_def)
qed

lemma registry_put_ok: "registry_ok rg \<Longrightarrow> registry_ok (registry_put r rg)"
proof -
  assume ok: "registry_ok rg"
  have "wf_dict (rg_records (registry_put r rg))"
    using put_records [of r rg] ok evict_wf by (auto simp: registry_ok_def)
  moreover have "tk_task_id x = k" if "dget (rg_records (registry_put r rg)) k = Some x" for k x
    using registry_put_get [OF ok, of k r x] that ok
    by (auto simp: registry_get_def registry_ok_def split: if_splits)
  ultimately show ?thesis by (simp add: registry_ok_def)
qed

section \<open>The hub\<close>

lemma send_fields [observers]:
  "hb_subscribers (send ev qs h) = hb_subscribers h" "hb_closed (send ev qs h) = hb_closed h"
  "hb_next (send ev qs h) = hb_next h"
  "hb_queues (send ev qs h) q = (if q \<in> set qs then hb_queues h q @ [ev] else hb_queues h q)"
  by (simp_all add: send_def)

lemma hub_publish_fields [observers]:
  "subscribers_of t (hub_publish t' ev h) = subscribers_of t h"
  "hb_closed (hub_publish t' ev h) = hb_closed h" "hb_next (hub_publish t' ev h) = hb_next h"
  "hb_queues (hub_publish t' ev h) q =
     (if q \<in> set (subscribers_of t' h) then hb_queues h q @ [Some ev] else hb_queues h q)"
  by (simp_all add: hub_publish_def subscribers_of_def observers)

lemma hub_close_fields [observers]:
  "subscribers_of t (hub_close t' h) = (if t = t' then [] else subscribers_of t h)"
  "set (hb_closed (hub_close t' h)) = insert t' (set (hb_closed h))"
  "hb_next (hub_close t' h) = hb_next h"
  "hb_queues (hub_close t' h) q =
     (if q \<in> set (subscribers_of t' h) then hb_queues h q @ [None] else hb_queues h q)"
  by (simp_all add: hub_close_def subscribers_of_def observers)

text \<open>
  Open queues have not been ended, ended ones are in no list; a queue subscribes to one task, and
  its events are of that task.
\<close>

definition hub_ok :: "event_hub \<Rightarrow> bool" where
  "hub_ok h \<longleftrightarrow>
     (\<forall>t q. q \<in> set (subscribers_of t h) \<longrightarrow> q < hb_next h \<and> None \<notin> set (hb_queues h q)) \<and>
     (\<forall>t t' q. q \<in> set (subscribers_of t h) \<and> q \<in> set (subscribers_of t' h) \<longrightarrow> t = t') \<and>
     (\<forall>t. t \<in> set (hb_closed h) \<longrightarrow> subscribers_of t h = []) \<and>
     (\<forall>q. hb_next h \<le> q \<longrightarrow> hb_queues h q = []) \<and>
     (\<forall>q. None \<notin> set (butlast (hb_queues h q)))"

lemma hub_okD:
  assumes "hub_ok h"
  shows "q \<in> set (subscribers_of t h) \<Longrightarrow> q < hb_next h"
    and "q \<in> set (subscribers_of t h) \<Longrightarrow> None \<notin> set (hb_queues h q)"
    and "q \<in> set (subscribers_of t h) \<Longrightarrow> q \<in> set (subscribers_of t' h) \<Longrightarrow> t = t'"
    and "t \<in> set (hb_closed h) \<Longrightarrow> subscribers_of t h = []"
    and "hb_next h \<le> q \<Longrightarrow> hb_queues h q = []"
    and "None \<notin> set (butlast (hb_queues h q))"
  using assms unfolding hub_ok_def by blast+

lemma hub_okI:
  assumes "\<And>t q. q \<in> set (subscribers_of t h) \<Longrightarrow> q < hb_next h \<and> None \<notin> set (hb_queues h q)"
    and "\<And>t t' q. q \<in> set (subscribers_of t h) \<Longrightarrow> q \<in> set (subscribers_of t' h) \<Longrightarrow> t = t'"
    and "\<And>t. t \<in> set (hb_closed h) \<Longrightarrow> subscribers_of t h = []"
    and "\<And>q. hb_next h \<le> q \<Longrightarrow> hb_queues h q = []"
    and "\<And>q. None \<notin> set (butlast (hb_queues h q))"
  shows "hub_ok h"
  using assms unfolding hub_ok_def by blast

lemma hub_ok_new: "hub_ok new_event_hub"
  by (simp add: hub_ok_def new_event_hub_def subscribers_of_def)

lemma hub_fresh_queue: "hub_ok h \<Longrightarrow> hb_next h \<le> q \<Longrightarrow> q \<notin> set (subscribers_of t h)"
  using hub_okD(1) by fastforce

lemma hub_ok_publish:
  assumes h: "hub_ok h"
  shows "hub_ok (hub_publish t ev h)"
proof (rule hub_okI, unfold hub_publish_fields)
  show "None \<notin> set (butlast (if q \<in> set (subscribers_of t h) then hb_queues h q @ [Some ev]
      else hb_queues h q))" for q
    using hub_okD(2,6) [OF h] by (simp add: butlast_append)
  show "t = t'" if "q \<in> set (subscribers_of t h)" "q \<in> set (subscribers_of t' h)" for t t' q
    using hub_okD(3) [OF h] that by blast
qed (use hub_okD [OF h] hub_fresh_queue [OF h] in auto)

lemma hub_ok_close:
  assumes h: "hub_ok h"
  shows "hub_ok (hub_close t h)"
proof (rule hub_okI, unfold hub_close_fields)
  show "None \<notin> set (butlast (if q \<in> set (subscribers_of t h) then hb_queues h q @ [None]
      else hb_queues h q))" for q
    using hub_okD(2,6) [OF h] by (simp add: butlast_append)
  show "t1 = t2" if "q \<in> set (if t1 = t then [] else subscribers_of t1 h)"
    "q \<in> set (if t2 = t then [] else subscribers_of t2 h)" for t1 t2 q
    using hub_okD(3) [OF h, of q t1 t2] that by (auto split: if_splits)
  show "q < hb_next h \<and> None \<notin> set (if q \<in> set (subscribers_of t h) then hb_queues h q @ [None]
      else hb_queues h q)" if q: "q \<in> set (if t1 = t then [] else subscribers_of t1 h)" for t1 q
  proof -
    have "t1 \<noteq> t" "q \<in> set (subscribers_of t1 h)" using q by (auto split: if_splits)
    moreover from this have "q \<notin> set (subscribers_of t h)" using hub_okD(3) [OF h] by blast
    ultimately show ?thesis using hub_okD(1,2) [OF h] by auto
  qed
qed (use hub_okD [OF h] hub_fresh_queue [OF h] in \<open>auto split: if_splits\<close>)

lemma subscribers_of_subscribe:
  "subscribers_of t (snd (hub_subscribe t' h)) =
     (if t = t' \<and> t' \<notin> set (hb_closed h) then subscribers_of t h @ [hb_next h] else subscribers_of t h)"
  by (simp add: hub_subscribe_def subscribers_of_def)

lemma hub_ok_subscribe:
  assumes h: "hub_ok h"
  shows "hub_ok (snd (hub_subscribe t h))"
proof (cases "t \<in> set (hb_closed h)")
  case True
  with h show ?thesis by (simp add: hub_subscribe_def)
next
  case False
  have f: "hb_next (snd (hub_subscribe t h)) = Suc (hb_next h)"
    "hb_queues (snd (hub_subscribe t h)) = hb_queues h"
    "hb_closed (snd (hub_subscribe t h)) = hb_closed h"
    using False by (simp_all add: hub_subscribe_def)
  have new: "hb_next h \<notin> set (subscribers_of t' h)" for t' using hub_fresh_queue [OF h] by blast
  have e: "hb_queues h (hb_next h) = []" using hub_okD(5) [OF h] by blast
  show ?thesis
  proof (rule hub_okI, unfold subscribers_of_subscribe f)
    show "q < Suc (hb_next h) \<and> None \<notin> set (hb_queues h q)"
      if "q \<in> set (if t1 = t \<and> t \<notin> set (hb_closed h) then subscribers_of t1 h @ [hb_next h]
        else subscribers_of t1 h)" for t1 q
      using that hub_okD(1,2) [OF h, of q t1] e by (auto split: if_splits)
    show "t1 = t2"
      if "q \<in> set (if t1 = t \<and> t \<notin> set (hb_closed h) then subscribers_of t1 h @ [hb_next h]
        else subscribers_of t1 h)"
        "q \<in> set (if t2 = t \<and> t \<notin> set (hb_closed h) then subscribers_of t2 h @ [hb_next h]
        else subscribers_of t2 h)" for t1 t2 q
      using that hub_okD(3) [OF h, of q t1 t2] new by (auto split: if_splits)
    show "(if t1 = t \<and> t \<notin> set (hb_closed h) then subscribers_of t1 h @ [hb_next h]
        else subscribers_of t1 h) = []" if "t1 \<in> set (hb_closed h)" for t1
      using that hub_okD(4) [OF h] by auto
  qed (use hub_okD(5,6) [OF h] in auto)
qed

section \<open>The invariant\<close>

definition gateway_inv :: "gateway_run \<Rightarrow> bool" where
  "gateway_inv s \<longleftrightarrow>
     (let g = gr_gateway s; rg = gw_registry g; running = gw_running g; items = mq_items (gw_queue g) in
      registry_ok rg \<and> hub_ok (gw_events g) \<and> wf_dict running \<and> distinct (gr_submitted s) \<and>
      mset (map tk_task_id items) + mset (map tk_task_id (dvals running)) + mset (gr_done s) =
        mset (gr_submitted s) \<and>
      (\<forall>r \<in> set items. tk_status r = QUEUED \<and> registry_get (tk_task_id r) rg = Some r) \<and>
      (\<forall>w r. dget running w = Some r \<longrightarrow>
         tk_status r = RUNNING \<and> tk_worker_id r = w \<and> registry_get (tk_task_id r) rg = Some r) \<and>
      (\<forall>k r. registry_get k rg = Some r \<longrightarrow>
         k \<in> set (gr_submitted s) \<and> (finished (tk_status r) \<longleftrightarrow> k \<in> set (gr_done s))) \<and>
      set (hb_closed (gw_events g)) = set (gr_done s) \<and>
      mq_unfinished (gw_queue g) = length items + length running)"

lemma gateway_inv_start:
  "gateway_inv \<lparr>gr_gateway = new_gateway n, gr_submitted = [], gr_done = []\<rparr>"
  by (simp add: gateway_inv_def new_gateway_def new_registry_def registry_ok_def hub_ok_new
      new_queue_def registry_get_def Let_def) (simp add: new_event_hub_def)

text \<open>The ids in the three places are pairwise different.\<close>

lemma inv_disjoint:
  assumes "mset xs + mset ys + mset zs = mset (ts :: string list)" and "distinct ts"
  shows "distinct xs" and "distinct ys" and "set xs \<inter> set ys = {}" and "set xs \<inter> set zs = {}"
    and "set ys \<inter> set zs = {}" and "set ts = set xs \<union> set ys \<union> set zs"
proof -
  have m: "mset (xs @ ys @ zs) = mset ts" using assms(1) by (simp add: add.assoc)
  then have "distinct (xs @ ys @ zs)" using mset_eq_imp_distinct_iff [OF m] assms(2) by blast
  then show "distinct xs" and "distinct ys" and "set xs \<inter> set ys = {}" and "set xs \<inter> set zs = {}"
    and "set ys \<inter> set zs = {}" by auto
  show "set ts = set xs \<union> set ys \<union> set zs" using mset_eq_setD [OF m] by auto
qed

lemma publish_record_fields [observers]:
  "gw_registry (publish_record now r g) = registry_put r (gw_registry g)"
  "gw_events (publish_record now r g) = hub_publish (tk_task_id r) (task_update_event now r) (gw_events g)"
  "gw_queue (publish_record now r g) = gw_queue g" "gw_running (publish_record now r g) = gw_running g"
  by (simp_all add: publish_record_def)

lemma dvals_dset_fresh:
  "dget d w = None \<Longrightarrow> mset (map f (dvals (dset w r d))) = mset (map f (dvals d)) + {#f r#}"
  by (induction d) (auto split: if_splits)

lemma ddel_fresh: "k \<notin> fst ` set d \<Longrightarrow> ddel k d = d"
  by (induction d) auto

lemma mset_dvals_del:
  "wf_dict d \<Longrightarrow> dget d w = Some r \<Longrightarrow> mset (map f (dvals (ddel w d))) + {#f r#} = mset (map f (dvals d))"
proof (induction d)
  case (Cons p d)
  obtain k x where p: "p = (k, x)" by (cases p)
  with Cons ddel_fresh [of k d] show ?case by (auto simp: wf_dict_def)
qed simp

lemma gateway_invD:
  assumes "gateway_inv s"
  shows "registry_ok (gw_registry (gr_gateway s))" and "hub_ok (gw_events (gr_gateway s))"
    and "wf_dict (gw_running (gr_gateway s))" and "distinct (gr_submitted s)"
    and "mset (map tk_task_id (mq_items (gw_queue (gr_gateway s)))) +
      mset (map tk_task_id (dvals (gw_running (gr_gateway s)))) + mset (gr_done s) = mset (gr_submitted s)"
    and "r \<in> set (mq_items (gw_queue (gr_gateway s))) \<Longrightarrow>
      tk_status r = QUEUED \<and> registry_get (tk_task_id r) (gw_registry (gr_gateway s)) = Some r"
    and "dget (gw_running (gr_gateway s)) w = Some r \<Longrightarrow> tk_status r = RUNNING \<and> tk_worker_id r = w \<and>
      registry_get (tk_task_id r) (gw_registry (gr_gateway s)) = Some r"
    and "registry_get k (gw_registry (gr_gateway s)) = Some r \<Longrightarrow>
      k \<in> set (gr_submitted s) \<and> (finished (tk_status r) \<longleftrightarrow> k \<in> set (gr_done s))"
    and "set (hb_closed (gw_events (gr_gateway s))) = set (gr_done s)"
    and "mq_unfinished (gw_queue (gr_gateway s)) =
      length (mq_items (gw_queue (gr_gateway s))) + length (gw_running (gr_gateway s))"
  using assms unfolding gateway_inv_def Let_def by blast+

lemma gateway_invI:
  assumes "registry_ok (gw_registry (gr_gateway s))" and "hub_ok (gw_events (gr_gateway s))"
    and "wf_dict (gw_running (gr_gateway s))" and "distinct (gr_submitted s)"
    and "mset (map tk_task_id (mq_items (gw_queue (gr_gateway s)))) +
      mset (map tk_task_id (dvals (gw_running (gr_gateway s)))) + mset (gr_done s) = mset (gr_submitted s)"
    and "\<And>r. r \<in> set (mq_items (gw_queue (gr_gateway s))) \<Longrightarrow>
      tk_status r = QUEUED \<and> registry_get (tk_task_id r) (gw_registry (gr_gateway s)) = Some r"
    and "\<And>w r. dget (gw_running (gr_gateway s)) w = Some r \<Longrightarrow> tk_status r = RUNNING \<and> tk_worker_id r = w \<and>
      registry_get (tk_task_id r) (gw_registry (gr_gateway s)) = Some r"
    and "\<And>k r. registry_get k (gw_registry (gr_gateway s)) = Some r \<Longrightarrow>
      k \<in> set (gr_submitted s) \<and> (finished (tk_status r) \<longleftrightarrow> k \<in> set (gr_done s))"
    and "set (hb_closed (gw_events (gr_gateway s))) = set (gr_done s)"
    and "mq_unfinished (gw_queue (gr_gateway s)) =
      length (mq_items (gw_queue (gr_gateway s))) + length (gw_running (gr_gateway s))"
  shows "gateway_inv s"
  using assms unfolding gateway_inv_def Let_def by blast

lemma inv_places:
  assumes "gateway_inv s"
  defines "g \<equiv> gr_gateway s"
  shows "set (gr_submitted s) = tk_task_id ` set (mq_items (gw_queue g)) \<union>
      tk_task_id ` set (dvals (gw_running g)) \<union> set (gr_done s)"
    and "distinct (map tk_task_id (mq_items (gw_queue g)))"
    and "distinct (map tk_task_id (dvals (gw_running g)))"
    and "tk_task_id ` set (mq_items (gw_queue g)) \<inter> tk_task_id ` set (dvals (gw_running g)) = {}"
    and "tk_task_id ` set (mq_items (gw_queue g)) \<inter> set (gr_done s) = {}"
    and "tk_task_id ` set (dvals (gw_running g)) \<inter> set (gr_done s) = {}"
  using inv_disjoint [OF gateway_invD(5) [OF assms(1)] gateway_invD(4) [OF assms(1)]]
  unfolding g_def set_map [symmetric] by (simp_all only:)

lemma inv_done_distinct: "gateway_inv s \<Longrightarrow> distinct (gr_done s)"
proof -
  assume I: "gateway_inv s"
  let ?xs = "map tk_task_id (mq_items (gw_queue (gr_gateway s)))"
  let ?ys = "map tk_task_id (dvals (gw_running (gr_gateway s)))"
  have "mset (?xs @ ?ys @ gr_done s) = mset (gr_submitted s)"
    using gateway_invD(5) [OF I] by (simp add: add.assoc)
  then have "distinct (?xs @ ?ys @ gr_done s)"
    using mset_eq_imp_distinct_iff gateway_invD(4) [OF I] by blast
  then show ?thesis by simp
qed

lemma image_neq: "y \<notin> f ` A \<Longrightarrow> x \<in> A \<Longrightarrow> f x \<noteq> y"
  by auto

lemma disjoint_image_neq: "f ` A \<inter> f ` B = {} \<Longrightarrow> x \<in> A \<Longrightarrow> y \<in> B \<Longrightarrow> f x \<noteq> f y"
  by auto

text \<open>Putting a record of another task, or a newer state of the same task, keeps the entries of the
  unfinished tasks.\<close>

lemma put_keeps:
  "registry_ok rg \<Longrightarrow> registry_get (tk_task_id x) rg = Some x \<Longrightarrow> tk_task_id x \<noteq> tk_task_id r \<Longrightarrow>
   \<not> finished (tk_status x) \<Longrightarrow> registry_get (tk_task_id x) (registry_put r rg) = Some x"
  by (rule registry_put_unfinished) simp_all

lemma put_new:
  "registry_ok rg \<Longrightarrow> \<not> finished (tk_status r) \<Longrightarrow> registry_get (tk_task_id r) (registry_put r rg) = Some r"
  by (rule registry_put_unfinished) simp_all

lemma queued_not_finished [simp]: "\<not> finished QUEUED" "\<not> finished RUNNING"
  by (simp_all add: finished_def)

lemma inv_submit:
  assumes I: "gateway_inv s" and sub: "submit fresh now task tenant md tid (gr_gateway s) = (r, g)"
    and new: "tk_task_id r \<notin> set (gr_submitted s)"
  shows "gateway_inv (s\<lparr>gr_gateway := g, gr_submitted := tk_task_id r # gr_submitted s\<rparr>)"
proof -
  let ?g = "gr_gateway s"
  have r: "tk_status r = QUEUED" and g: "g = (publish_record now r ?g)\<lparr>gw_queue := queue_put r (gw_queue ?g)\<rparr>"
    using sub by (auto simp: submit_def Let_def new_task_record_def observers)
  have fields: "gw_registry g = registry_put r (gw_registry ?g)"
    "gw_events g = hub_publish (tk_task_id r) (task_update_event now r) (gw_events ?g)"
    "mq_items (gw_queue g) = mq_items (gw_queue ?g) @ [r]"
    "mq_unfinished (gw_queue g) = Suc (mq_unfinished (gw_queue ?g))" "gw_running g = gw_running ?g"
    by (simp_all add: g observers queue_put_def)
  note D = gateway_invD [OF I]
  have other: "tk_task_id x \<noteq> tk_task_id r"
    if "x \<in> set (mq_items (gw_queue ?g)) \<or> x \<in> set (dvals (gw_running ?g))" for x
    using that new image_neq [of "tk_task_id r" tk_task_id] unfolding inv_places(1) [OF I] by blast
  show ?thesis
  proof (rule gateway_invI, simp_all add: fields)
    show "registry_ok (registry_put r (gw_registry ?g))" by (rule registry_put_ok [OF D(1)])
    show "hub_ok (hub_publish (tk_task_id r) (task_update_event now r) (gw_events ?g))"
      by (rule hub_ok_publish [OF D(2)])
    show "tk_status x = QUEUED \<and> registry_get (tk_task_id x) (registry_put r (gw_registry ?g)) = Some x"
      if "x = r \<or> x \<in> set (mq_items (gw_queue ?g))" for x
      using that
    proof
      assume "x = r"
      with put_new [OF D(1), of r] r show ?thesis by simp
    next
      assume x: "x \<in> set (mq_items (gw_queue ?g))"
      with D(6) [OF x] other [of x] put_keeps [OF D(1), of x r] show ?thesis by simp
    qed
    show "tk_status x = RUNNING \<and> tk_worker_id x = w \<and>
        registry_get (tk_task_id x) (registry_put r (gw_registry ?g)) = Some x"
      if "dget (gw_running ?g) w = Some x" for w x
    proof -
      have "x \<in> set (dvals (gw_running ?g))" using that dvals_dget [OF D(3)] by blast
      with D(7) [OF that] other [of x] put_keeps [OF D(1), of x r] show ?thesis by simp
    qed
    show "(k = tk_task_id r \<or> k \<in> set (gr_submitted s)) \<and> (finished (tk_status x) \<longleftrightarrow> k \<in> set (gr_done s))"
      if "registry_get k (registry_put r (gw_registry ?g)) = Some x" for k x
    proof (cases "k = tk_task_id r")
      case True
      have "tk_task_id r \<notin> set (gr_done s)" using new unfolding inv_places(1) [OF I] by blast
      with True registry_put_get [OF D(1) that] r show ?thesis by simp
    next
      case False
      with registry_put_get [OF D(1) that] D(8) show ?thesis by simp
    qed
  qed (use D new in \<open>simp_all add: observers add.commute add.left_commute\<close>)
qed

lemma inv_begin:
  assumes I: "gateway_inv s" and b: "worker_begin w now (gr_gateway s) = Some g"
  shows "gateway_inv (s\<lparr>gr_gateway := g\<rparr>)"
proof -
  let ?g = "gr_gateway s"
  from b obtain r0 q where idle: "dget (gw_running ?g) w = None"
    and get: "queue_get (gw_queue ?g) = Some (r0, q)"
    by (auto simp: worker_begin_def split: if_splits option.splits)
  define r where "r = r0\<lparr>tk_status := RUNNING, tk_started_at := Some now, tk_worker_id := w\<rparr>"
  have r: "tk_status r = RUNNING" "tk_task_id r = tk_task_id r0" "tk_worker_id r = w"
    by (simp_all add: r_def)
  have items: "mq_items (gw_queue ?g) = r0 # mq_items q" "mq_unfinished q = mq_unfinished (gw_queue ?g)"
    using mq.get_Some [OF get] by simp_all
  have g: "g = (publish_record now r ?g)\<lparr>gw_queue := q, gw_running := dset w r (gw_running ?g)\<rparr>"
    using b idle get by (simp add: worker_begin_def r_def Let_def)
  have fields: "gw_registry g = registry_put r (gw_registry ?g)"
    "gw_events g = hub_publish (tk_task_id r) (task_update_event now r) (gw_events ?g)"
    "gw_queue g = q" "gw_running g = dset w r (gw_running ?g)"
    by (simp_all add: g observers)
  have sel: "gr_gateway (s\<lparr>gr_gateway := g\<rparr>) = g" "gr_submitted (s\<lparr>gr_gateway := g\<rparr>) = gr_submitted s"
    "gr_done (s\<lparr>gr_gateway := g\<rparr>) = gr_done s" by simp_all
  note D = gateway_invD [OF I]
  have ids: "mset (map tk_task_id (dvals (dset w r (gw_running ?g)))) =
      mset (map tk_task_id (dvals (gw_running ?g))) + {#tk_task_id r0#}"
    using dvals_dset_fresh [OF idle, of tk_task_id r] by (simp only: r(2))
  have notdone: "tk_task_id r0 \<notin> set (gr_done s)"
    using inv_places(5) [OF I] by (auto simp: items)
  have otherq: "tk_task_id x \<noteq> tk_task_id r" if "x \<in> set (mq_items q)" for x
    using inv_places(2) [OF I] that r(2) by (auto simp: items image_iff)
  have otherr: "tk_task_id x \<noteq> tk_task_id r" if "x \<in> set (dvals (gw_running ?g))" for x
    using disjoint_image_neq [OF inv_places(4) [OF I], of r0 x] that r(2) by (simp add: items)
  show ?thesis
  proof (rule gateway_invI, unfold sel fields)
    show "registry_ok (registry_put r (gw_registry ?g))" by (rule registry_put_ok [OF D(1)])
    show "hub_ok (hub_publish (tk_task_id r) (task_update_event now r) (gw_events ?g))"
      by (rule hub_ok_publish [OF D(2)])
    show "wf_dict (dset w r (gw_running ?g))" using D(3) by simp
    show "distinct (gr_submitted s)" by (rule D(4))
    show "mset (map tk_task_id (mq_items q)) + mset (map tk_task_id (dvals (dset w r (gw_running ?g)))) +
        mset (gr_done s) = mset (gr_submitted s)"
      unfolding ids using D(5) by (simp add: items ac_simps)
    show "tk_status x = QUEUED \<and> registry_get (tk_task_id x) (registry_put r (gw_registry ?g)) = Some x"
      if x: "x \<in> set (mq_items q)" for x
    proof -
      have "x \<in> set (mq_items (gw_queue ?g))" using x by (simp add: items)
      from D(6) [OF this] otherq [OF x] put_keeps [OF D(1), of x r] show ?thesis by simp
    qed
    show "tk_status x = RUNNING \<and> tk_worker_id x = v \<and>
        registry_get (tk_task_id x) (registry_put r (gw_registry ?g)) = Some x"
      if "dget (dset w r (gw_running ?g)) v = Some x" for v x
    proof (cases "v = w")
      case True
      with that r put_new [OF D(1), of r] show ?thesis by simp
    next
      case False
      with that have v: "dget (gw_running ?g) v = Some x" by simp
      then have "x \<in> set (dvals (gw_running ?g))" using dvals_dget [OF D(3)] by blast
      with D(7) [OF v] otherr [of x] put_keeps [OF D(1), of x r] show ?thesis by simp
    qed
    show "k \<in> set (gr_submitted s) \<and> (finished (tk_status x) \<longleftrightarrow> k \<in> set (gr_done s))"
      if "registry_get k (registry_put r (gw_registry ?g)) = Some x" for k x
    proof (cases "k = tk_task_id r")
      case True
      have "tk_task_id r0 \<in> set (gr_submitted s)" unfolding inv_places(1) [OF I] by (simp add: items)
      with True registry_put_get [OF D(1) that] r notdone show ?thesis by simp
    next
      case False
      with registry_put_get [OF D(1) that] D(8) show ?thesis by simp
    qed
    show "set (hb_closed (hub_publish (tk_task_id r) (task_update_event now r) (gw_events ?g))) = set (gr_done s)"
      using D(9) by (simp add: observers)
    show "mq_unfinished q = length (mq_items q) + length (dset w r (gw_running ?g))"
      using D(10) idle by (simp add: items length_dset) (simp add: dget_None_iff)
  qed
qed

lemma inv_finish:
  assumes I: "gateway_inv s" and f: "worker_finish w e now (gr_gateway s) = Some g"
    and r0: "dget (gw_running (gr_gateway s)) w = Some r0"
  shows "gateway_inv (s\<lparr>gr_gateway := g, gr_done := tk_task_id r0 # gr_done s\<rparr>)"
proof -
  let ?g = "gr_gateway s"
  define r where "r = finish_record (outcome_of e) now r0"
  have r: "finished (tk_status r)" "tk_task_id r = tk_task_id r0"
    by (simp_all add: r_def finish_record_def finished_def)
  have fields: "gw_registry g = registry_put r (gw_registry ?g)"
    "gw_events g = hub_close (tk_task_id r0) (hub_publish (tk_task_id r0) (task_update_event now r) (gw_events ?g))"
    "gw_queue g = queue_task_done (gw_queue ?g)" "gw_running g = ddel w (gw_running ?g)"
    using f r0 by (auto simp: worker_finish_def Let_def r_def observers finish_record_def)
  let ?s' = "s\<lparr>gr_gateway := g, gr_done := tk_task_id r0 # gr_done s\<rparr>"
  have sel: "gr_gateway ?s' = g" "gr_submitted ?s' = gr_submitted s"
    "gr_done ?s' = tk_task_id r0 # gr_done s" by simp_all
  note D = gateway_invD [OF I]
  have q: "mq_items (queue_task_done (gw_queue ?g)) = mq_items (gw_queue ?g)"
    "mq_unfinished (queue_task_done (gw_queue ?g)) = mq_unfinished (gw_queue ?g) - 1"
    by (simp_all add: mq.done_items)
  have ids: "mset (map tk_task_id (dvals (ddel w (gw_running ?g)))) + {#tk_task_id r0#} =
      mset (map tk_task_id (dvals (gw_running ?g)))"
    by (rule mset_dvals_del [OF D(3) r0])
  have len: "Suc (length (ddel w (gw_running ?g))) = length (gw_running ?g)"
    using arg_cong [OF ids, of size] by simp
  have run: "r0 \<in> set (dvals (gw_running ?g))" using r0 dvals_dget [OF D(3)] by blast
  have otherq: "tk_task_id x \<noteq> tk_task_id r" if "x \<in> set (mq_items (gw_queue ?g))" for x
    using disjoint_image_neq [OF inv_places(4) [OF I] that run] r(2) by simp
  have otherr: "tk_task_id x \<noteq> tk_task_id r" if "dget (gw_running ?g) v = Some x" "v \<noteq> w" for v x
  proof
    assume "tk_task_id x = tk_task_id r"
    moreover have "registry_get (tk_task_id x) (gw_registry ?g) = Some x" "tk_worker_id x = v"
      using D(7) [OF that(1)] by blast+
    moreover have "registry_get (tk_task_id r0) (gw_registry ?g) = Some r0" "tk_worker_id r0 = w"
      using D(7) [OF r0] by blast+
    ultimately show False using r(2) that(2) by (metis option.inject)
  qed
  show ?thesis
  proof (rule gateway_invI, unfold sel fields q)
    show "registry_ok (registry_put r (gw_registry ?g))" by (rule registry_put_ok [OF D(1)])
    show "hub_ok (hub_close (tk_task_id r0) (hub_publish (tk_task_id r0) (task_update_event now r) (gw_events ?g)))"
      by (intro hub_ok_close hub_ok_publish D(2))
    show "wf_dict (ddel w (gw_running ?g))" using D(3) by simp
    show "distinct (gr_submitted s)" by (rule D(4))
    show "mset (map tk_task_id (mq_items (gw_queue ?g))) + mset (map tk_task_id (dvals (ddel w (gw_running ?g)))) +
        mset (tk_task_id r0 # gr_done s) = mset (gr_submitted s)"
      using D(5) unfolding ids [symmetric] by (simp add: ac_simps)
    show "tk_status x = QUEUED \<and> registry_get (tk_task_id x) (registry_put r (gw_registry ?g)) = Some x"
      if x: "x \<in> set (mq_items (gw_queue ?g))" for x
      using D(6) [OF x] otherq [OF x] put_keeps [OF D(1), of x r] by simp
    show "tk_status x = RUNNING \<and> tk_worker_id x = v \<and>
        registry_get (tk_task_id x) (registry_put r (gw_registry ?g)) = Some x"
      if "dget (ddel w (gw_running ?g)) v = Some x" for v x
    proof -
      from that have v: "dget (gw_running ?g) v = Some x" "v \<noteq> w" by (auto split: if_splits)
      from D(7) [OF v(1)] otherr [OF v] put_keeps [OF D(1), of x r] show ?thesis by simp
    qed
    show "k \<in> set (gr_submitted s) \<and> (finished (tk_status x) \<longleftrightarrow> k \<in> set (tk_task_id r0 # gr_done s))"
      if "registry_get k (registry_put r (gw_registry ?g)) = Some x" for k x
    proof (cases "k = tk_task_id r")
      case True
      have "tk_task_id r0 \<in> set (gr_submitted s)" unfolding inv_places(1) [OF I] using run by blast
      with True registry_put_get [OF D(1) that] r show ?thesis by simp
    next
      case False
      with registry_put_get [OF D(1) that] D(8) r(2) show ?thesis by simp
    qed
    show "set (hb_closed (hub_close (tk_task_id r0) (hub_publish (tk_task_id r0) (task_update_event now r)
        (gw_events ?g)))) = set (tk_task_id r0 # gr_done s)"
      using D(9) by (simp add: observers)
    show "mq_unfinished (gw_queue ?g) - 1 =
        length (mq_items (gw_queue ?g)) + length (ddel w (gw_running ?g))"
      using D(10) len by simp
  qed
qed

lemma inv_subscribe:
  assumes I: "gateway_inv s" and sub: "subscribe_task tid (gr_gateway s) = (q, g)"
  shows "gateway_inv (s\<lparr>gr_gateway := g\<rparr>)"
proof -
  have g: "g = (gr_gateway s)\<lparr>gw_events := snd (hub_subscribe tid (gw_events (gr_gateway s)))\<rparr>"
    using sub by (auto simp: subscribe_task_def case_prod_unfold Let_def)
  note D = gateway_invD [OF I]
  have "hb_closed (snd (hub_subscribe tid (gw_events (gr_gateway s)))) = hb_closed (gw_events (gr_gateway s))"
    by (simp add: hub_subscribe_def)
  with D hub_ok_subscribe [OF D(2), of tid] show ?thesis
    by (intro gateway_invI) (simp_all add: g)
qed

lemma gateway_reach_inv: "gateway_reach n s \<Longrightarrow> gateway_inv s"
proof (induction rule: gateway_reach.induct)
  case start
  show ?case by (rule gateway_inv_start)
next
  case (step s s')
  from step.hyps(2) step.IH show ?case
    by (cases rule: gateway_step.cases) (auto intro: inv_submit inv_begin inv_finish inv_subscribe)
qed

lemma done_record_step:
  assumes I: "gateway_inv s" and st: "gateway_step s s'" and k: "k \<in> set (gr_done s)"
  shows "k \<in> set (gr_done s') \<and>
    (get_task k (gr_gateway s') = get_task k (gr_gateway s) \<or> get_task k (gr_gateway s') = None)"
proof -
  note D = gateway_invD [OF I]
  have put: "registry_get k (registry_put r (gw_registry (gr_gateway s))) = get_task k (gr_gateway s) \<or>
      registry_get k (registry_put r (gw_registry (gr_gateway s))) = None" if "tk_task_id r \<noteq> k" for r
    using registry_put_get [OF D(1), of k r] that
    by (cases "registry_get k (registry_put r (gw_registry (gr_gateway s)))") (auto simp: get_task_def)
  show ?thesis
    using st
  proof (cases rule: gateway_step.cases)
    case (submitted fresh now task tenant md tid r g)
    have "k \<in> set (gr_submitted s)" using k unfolding inv_places(1) [OF I] by blast
    with submitted(3) have "tk_task_id r \<noteq> k" by auto
    moreover have "gw_registry g = registry_put r (gw_registry (gr_gateway s))"
      using submitted(2) by (auto simp: submit_def Let_def observers)
    ultimately show ?thesis using put [of r] k by (simp add: submitted(1) get_task_def)
  next
    case (began w now g)
    then obtain r q where get: "queue_get (gw_queue (gr_gateway s)) = Some (r, q)"
      by (auto simp: worker_begin_def split: if_splits option.splits)
    let ?r = "r\<lparr>tk_status := RUNNING, tk_started_at := Some now, tk_worker_id := w\<rparr>"
    have "gw_registry g = registry_put ?r (gw_registry (gr_gateway s))"
      using began(2) get by (auto simp: worker_begin_def Let_def observers split: if_splits)
    moreover have "tk_task_id ?r \<noteq> k"
      using inv_places(5) [OF I] k mq.get_Some [OF get] by auto
    ultimately show ?thesis using put [of ?r] k by (simp add: began(1) get_task_def)
  next
    case (ended w e now g r)
    have "r \<in> set (dvals (gw_running (gr_gateway s)))" using ended(3) dvals_dget [OF D(3)] by blast
    then have "tk_task_id r \<noteq> k" using inv_places(6) [OF I] k by blast
    moreover have "gw_registry g = registry_put (finish_record (outcome_of e) now r) (gw_registry (gr_gateway s))"
      using ended(2,3) by (auto simp: worker_finish_def Let_def observers)
    ultimately show ?thesis using put [of "finish_record (outcome_of e) now r"] k
      by (simp add: ended(1) get_task_def finish_record_def)
  next
    case (subscribed tid q g)
    then show ?thesis using k
      by (auto simp: subscribe_task_def get_task_def case_prod_unfold Let_def)
  qed
qed

lemma stop_now_fold:
  "gw_events (fold (\<lambda>w g. case worker_cancel w g of None \<Rightarrow> g | Some g' \<Rightarrow> g') ws g) = gw_events g \<and>
   gw_registry (fold (\<lambda>w g. case worker_cancel w g of None \<Rightarrow> g | Some g' \<Rightarrow> g') ws g) = gw_registry g \<and>
   (\<forall>w. dget (gw_running (fold (\<lambda>w g. case worker_cancel w g of None \<Rightarrow> g | Some g' \<Rightarrow> g') ws g)) w =
      (if w \<in> set ws then None else dget (gw_running g) w))"
proof (induction ws arbitrary: g)
  case (Cons w ws)
  show ?case
    by (cases "dget (gw_running g) w") (use Cons in \<open>auto simp: worker_cancel_def\<close>)
qed simp

section \<open>Properties\<close>

text \<open>
  Eviction. Writing a record never drops a record of an unfinished task; nothing is dropped
  without a positive limit; and with one, either the registry is within the limit afterwards or it
  holds no finished record. What is dropped are the oldest finished records: the records after the
  write are the old ones with the finished ones of some prefix removed.
\<close>

theorem registry_eviction:
  assumes "registry_ok rg"
  shows "(\<forall>k x. (if k = tk_task_id r then x = r else registry_get k rg = Some x) \<and>
      \<not> finished (tk_status x) \<longrightarrow> registry_get k (registry_put r rg) = Some x) \<and>
    (rg_max rg \<le> 0 \<longrightarrow> rg_records (registry_put r rg) = dset (tk_task_id r) r (rg_records rg)) \<and>
    (0 < rg_max rg \<longrightarrow> int (length (rg_records (registry_put r rg))) \<le> rg_max rg \<or>
       list_all unfinished (rg_records (registry_put r rg))) \<and>
    (\<exists>d1 d2. dset (tk_task_id r) r (rg_records rg) = d1 @ d2 \<and>
       rg_records (registry_put r rg) = filter unfinished d1 @ d2)"
proof (intro conjI)
  let ?d = "dset (tk_task_id r) r (rg_records rg)"
  let ?n = "int (length ?d) - rg_max rg"
  show "\<forall>k x. (if k = tk_task_id r then x = r else registry_get k rg = Some x) \<and>
      \<not> finished (tk_status x) \<longrightarrow> registry_get k (registry_put r rg) = Some x"
    using registry_put_unfinished [OF assms] by blast
  show "rg_max rg \<le> 0 \<longrightarrow> rg_records (registry_put r rg) = ?d" by (simp add: registry_put_def Let_def)
  from evict_split [of ?d ?n] obtain d1 d2 where s: "?d = d1 @ d2" "evict ?n ?d = filter unfinished d1 @ d2"
    "int (length (filter (\<lambda>p. finished (tk_status (snd p))) d1)) = max ?n 0 \<or>
     (d2 = [] \<and> list_all unfinished (evict ?n ?d))" by blast
  have "int (length (evict ?n ?d)) \<le> rg_max rg \<or> list_all unfinished (evict ?n ?d)"
    if "rg_max rg < int (length ?d)"
  proof (rule disjCI)
    assume "\<not> list_all unfinished (evict ?n ?d)"
    with s(3) that have "int (length (filter (\<lambda>p. finished (tk_status (snd p))) d1)) = ?n" by auto
    moreover have "length d1 = length (filter (\<lambda>p. finished (tk_status (snd p))) d1) + length (filter unfinished d1)"
      by (rule count_filter_partition)
    moreover have "length ?d = length d1 + length d2" by (simp add: s(1))
    ultimately show "int (length (evict ?n ?d)) \<le> rg_max rg" unfolding s(2) by simp
  qed
  then have ev: "rg_max rg < int (length ?d) \<Longrightarrow>
      int (length (evict ?n ?d)) \<le> rg_max rg \<or> list_all unfinished (evict ?n ?d)" .
  show "0 < rg_max rg \<longrightarrow> int (length (rg_records (registry_put r rg))) \<le> rg_max rg \<or>
       list_all unfinished (rg_records (registry_put r rg))"
  proof
    assume pos: "0 < rg_max rg"
    show "int (length (rg_records (registry_put r rg))) \<le> rg_max rg \<or>
       list_all unfinished (rg_records (registry_put r rg))"
    proof (cases "rg_max rg < int (length ?d)")
      case True
      then have "rg_records (registry_put r rg) = evict ?n ?d"
        using pos by (simp add: registry_put_def Let_def)
      then show ?thesis using ev [OF True] by (simp only:)
    next
      case False
      then have "rg_records (registry_put r rg) = ?d" by (simp add: registry_put_def Let_def)
      with False show ?thesis by simp
    qed
  qed
  show "\<exists>d1 d2. ?d = d1 @ d2 \<and> rg_records (registry_put r rg) = filter unfinished d1 @ d2"
  proof (cases "rg_max rg \<le> 0 \<or> int (length ?d) \<le> rg_max rg")
    case True
    then have "rg_records (registry_put r rg) = ?d" by (auto simp: registry_put_def Let_def)
    then show ?thesis by (intro exI [of _ "[]"] exI [of _ ?d]) simp
  next
    case False
    then have "0 < rg_max rg" "rg_max rg < int (length ?d)" by linarith+
    then have "rg_records (registry_put r rg) = evict ?n ?d" by (simp add: registry_put_def Let_def)
    then have "rg_records (registry_put r rg) = filter unfinished d1 @ d2" by (rule trans [OF _ s(2)])
    then show ?thesis by (intro exI conjI) (rule s(1))
  qed
qed

definition demo_task :: "string \<Rightarrow> task_status \<Rightarrow> task_record" where
  "demo_task tid st = (new_task_record tid ''t'' ''default'' [] 0)\<lparr>tk_status := st\<rparr>"

theorem registry_eviction_witness:
  "registry_get ''a'' (registry_put (demo_task ''c'' QUEUED)
     \<lparr>rg_records = [(''a'', demo_task ''a'' RUNNING), (''b'', demo_task ''b'' FAILED)], rg_max = 2\<rparr>) =
   Some (demo_task ''a'' RUNNING)"
proof -
  have "registry_ok \<lparr>rg_records = [(''a'', demo_task ''a'' RUNNING), (''b'', demo_task ''b'' FAILED)], rg_max = 2\<rparr>"
    by (auto simp: registry_ok_def wf_dict_def demo_task_def new_task_record_def split: if_splits)
  from registry_eviction [OF this, of "demo_task ''c'' QUEUED"] show ?thesis
    by (simp add: registry_get_def demo_task_def new_task_record_def)
qed


text \<open>A gateway with one finished, one running and one queued task.\<close>

definition demo_run :: gateway_run where
  "demo_run =
     (let g1 = snd (submit ''x'' 1 ''t'' [] [] (Some ''a'') (new_gateway 10));
          g2 = snd (submit ''x'' 2 ''t'' [] [] (Some ''b'') g1)
      in \<lparr>gr_gateway = the (worker_begin ''w0'' 3 g2), gr_submitted = [''b'', ''a''], gr_done = []\<rparr>)"

lemma demo_run_reach: "gateway_reach 10 demo_run"
proof -
  let ?g1 = "snd (submit ''x'' 1 ''t'' [] [] (Some ''a'') (new_gateway 10))"
  let ?g2 = "snd (submit ''x'' 2 ''t'' [] [] (Some ''b'') ?g1)"
  let ?s0 = "\<lparr>gr_gateway = new_gateway 10, gr_submitted = [], gr_done = []\<rparr>"
  let ?s1 = "?s0\<lparr>gr_gateway := ?g1, gr_submitted := [''a'']\<rparr>"
  let ?s2 = "?s1\<lparr>gr_gateway := ?g2, gr_submitted := [''b'', ''a'']\<rparr>"
  have id: "tk_task_id (fst (submit ''x'' 1 ''t'' [] [] (Some ''a'') (new_gateway 10))) = ''a''"
    "tk_task_id (fst (submit ''x'' 2 ''t'' [] [] (Some ''b'') ?g1)) = ''b''"
    by (simp_all add: submit_def Let_def new_task_record_def)
  have "gateway_step ?s0 ?s1"
    using gateway_step.submitted [of "''x''" 1 "''t''" "[]" "[]" "Some ''a''" ?s0, OF prod.collapse [symmetric]] id
    by simp
  then have 1: "gateway_reach 10 ?s1" by (rule gateway_reach.step [OF gateway_reach.start])
  have "gateway_step ?s1 ?s2"
    using gateway_step.submitted [of "''x''" 2 "''t''" "[]" "[]" "Some ''b''" ?s1, OF prod.collapse [symmetric]] id
    by simp
  then have 2: "gateway_reach 10 ?s2" by (rule gateway_reach.step [OF 1])
  have b: "worker_begin ''w0'' 3 ?g2 \<noteq> None"
    by (simp add: worker_begin_def submit_def Let_def observers queue_put_def queue_get_def new_gateway_def
        new_queue_def)
  then have "worker_begin ''w0'' 3 (gr_gateway ?s2) = Some (the (worker_begin ''w0'' 3 ?g2))" by simp
  from gateway_step.began [OF this] have "gateway_step ?s2 demo_run" by (simp add: demo_run_def Let_def)
  then show ?thesis by (rule gateway_reach.step [OF 2])
qed




text \<open>
  Stopping without draining strands the readers: after \<open>stop(drain=False)\<close> no worker holds a
  task, yet the record of a task that was running still says RUNNING, and its open streams got no
  end mark and stay registered.
\<close>

theorem stop_strands_streams:
  assumes "gateway_reach n s" and "dget (gw_running (gr_gateway s)) w = Some r"
    and "q \<in> set (subscribers_of (tk_task_id r) (gw_events (gr_gateway s)))"
  shows "(\<forall>v. dget (gw_running (stop_now (gr_gateway s))) v = None) \<and>
    get_task (tk_task_id r) (stop_now (gr_gateway s)) = Some r \<and> tk_status r = RUNNING \<and>
    None \<notin> set (hb_queues (gw_events (stop_now (gr_gateway s))) q) \<and>
    q \<in> set (subscribers_of (tk_task_id r) (gw_events (stop_now (gr_gateway s))))"
proof -
  have I: "gateway_inv s" by (rule gateway_reach_inv [OF assms(1)])
  note D = gateway_invD [OF I]
  have "dget (gw_running (stop_now (gr_gateway s))) v = None" for v
    using stop_now_fold [of "dkeys (gw_running (gr_gateway s))" "gr_gateway s"]
      dget_None_iff [of "gw_running (gr_gateway s)" v] unfolding stop_now_def by (metis (no_types, lifting))
  moreover have "gw_events (stop_now (gr_gateway s)) = gw_events (gr_gateway s)"
    "gw_registry (stop_now (gr_gateway s)) = gw_registry (gr_gateway s)"
    unfolding stop_now_def using stop_now_fold by blast+
  ultimately show ?thesis using D(7) [OF assms(2)] hub_okD(2) [OF D(2) assms(3)] assms(3)
    by (simp add: get_task_def)
qed

definition demo_subscribed :: gateway_run where
  "demo_subscribed = demo_run\<lparr>gr_gateway := snd (subscribe_task ''a'' (gr_gateway demo_run))\<rparr>"

lemma demo_subscribed_reach: "gateway_reach 10 demo_subscribed"
  unfolding demo_subscribed_def
  by (rule gateway_reach.step [OF demo_run_reach gateway_step.subscribed]) (rule prod.collapse [symmetric])

theorem stop_strands_streams_witness:
  "\<exists>r. get_task ''a'' (stop_now (gr_gateway demo_subscribed)) = Some r \<and> tk_status r = RUNNING \<and>
     None \<notin> set (hb_queues (gw_events (stop_now (gr_gateway demo_subscribed))) 0)"
proof -
  have "\<exists>r. dget (gw_running (gr_gateway demo_subscribed)) ''w0'' = Some r \<and> tk_task_id r = ''a''"
    by (simp add: demo_subscribed_def demo_run_def Let_def worker_begin_def submit_def observers queue_put_def
        queue_get_def new_gateway_def new_queue_def subscribe_task_def case_prod_unfold new_task_record_def)
  then obtain r where r: "dget (gw_running (gr_gateway demo_subscribed)) ''w0'' = Some r" "tk_task_id r = ''a''"
    by blast
  have "0 \<in> set (subscribers_of (tk_task_id r) (gw_events (gr_gateway demo_subscribed)))"
    by (simp add: r(2) demo_subscribed_def demo_run_def Let_def worker_begin_def submit_def observers queue_put_def
        queue_get_def new_gateway_def new_queue_def subscribe_task_def case_prod_unfold new_task_record_def
        hub_subscribe_def subscribers_of_def hub_publish_def send_def new_event_hub_def)
  from stop_strands_streams [OF demo_subscribed_reach r(1) this] r(2) show ?thesis by auto
qed

text \<open>
  A task id that was closed once never streams again: a task submitted under it is registered as
  QUEUED, but every subscription to it is an empty stream.
\<close>

theorem resubmitted_id_has_no_stream:
  assumes "k \<in> set (hb_closed (gw_events g))" and "k \<noteq> []" and "registry_ok (gw_registry g)"
  shows "(let (r, g') = submit fresh now task tenant md (Some k) g in
    get_task k g' = Some r \<and> tk_status r = QUEUED \<and> fst (subscribe_task k g') = None)"
  using assms put_new [OF assms(3), of "new_task_record k task (if tenant \<noteq> [] then tenant else ''default'') md now"]
  by (simp add: submit_def Let_def get_task_def observers subscribe_task_def hub_subscribe_def new_task_record_def)

theorem resubmitted_id_has_no_stream_witness:
  "fst (subscribe_task ''a'' (snd (submit ''x'' 1 ''t'' [] [] (Some ''a'')
     ((new_gateway 10)\<lparr>gw_events := hub_close ''a'' new_event_hub\<rparr>)))) = None"
  using resubmitted_id_has_no_stream [of "''a''" "(new_gateway 10)\<lparr>gw_events := hub_close ''a'' new_event_hub\<rparr>"
      "''x''" 1 "''t''" "[]" "[]"]
  by (simp add: observers new_gateway_def new_registry_def registry_ok_def case_prod_unfold Let_def)

end
