(* ===== verification/MasterExec.thy ===== *)
theory MasterExec
  imports Gateway Strings
begin

text \<open>
  \<open>MasterTaskExecutor\<close> of \<open>youmi/gateway/executor.py\<close>: tasks of several workers run on master agents,
  one at a time under a lock, with one master for all tenants or one per tenant made by a factory.
  Master agents are numbered in the order in which the factory makes them; what the executor calls
  on them is written to a log. A task is cut where it suspends: while an asynchronous factory makes
  its master, while it waits for the lock, and while its chat turn runs.
\<close>

datatype master_call = Reset nat | Chat nat nat | Destroy nat

text \<open>Where a task is: the master being made, waiting for the lock, running, returned,
  or left by an exception (a cancellation, or a result that cannot be converted).\<close>

datatype phase = Creating | Waiting nat | Running nat | Returned task_outcome | Unwound

datatype factory = NoFactory | SyncFactory | AsyncFactory

record master_executor =
  me_master :: "nat option"
  me_factory :: factory
  me_reset :: bool
  me_per_tenant :: "(string, nat) dict"
  me_executed_any :: bool
  me_created :: "string list"
  me_tasks :: "(nat, string \<times> phase) dict"
  me_log :: "master_call list"

text \<open>
  \<open>__init__\<close> raises without a master and without a factory. A given master has number 0 and counts
  as made (for no tenant in particular); \<open>me_created\<close> has the tenant of each master made.
\<close>

definition new_master_executor :: "bool \<Rightarrow> factory \<Rightarrow> bool \<Rightarrow> master_executor option" where
  "new_master_executor has_master factory reset =
     (if \<not> has_master \<and> factory = NoFactory then None
      else Some \<lparr>me_master = (if has_master then Some 0 else None), me_factory = factory, me_reset = reset,
        me_per_tenant = [], me_executed_any = False, me_created = (if has_master then [''default''] else []),
        me_tasks = [], me_log = []\<rparr>)"

definition error_outcome :: "string \<Rightarrow> task_outcome" where
  "error_outcome e = \<lparr>oc_output = [], oc_error = e, oc_iterations = 0, oc_tool_calls = []\<rparr>"

definition set_phase :: "nat \<Rightarrow> string \<Rightarrow> phase \<Rightarrow> master_executor \<Rightarrow> master_executor" where
  "set_phase k tenant ph x = x\<lparr>me_tasks := dset k (tenant, ph) (me_tasks x)\<rparr>"

text \<open>The factory returns a master or raises.\<close>

definition made_master :: "nat \<Rightarrow> string \<Rightarrow> string option \<Rightarrow> master_executor \<Rightarrow> master_executor" where
  "made_master k tenant raised x =
     (case raised of
        Some exc \<Rightarrow> set_phase k tenant (Returned (error_outcome (''no master: '' @ exc))) x
      | None \<Rightarrow>
          (let m = length (me_created x) in
           set_phase k tenant (Waiting m)
             (x\<lparr>me_created := me_created x @ [tenant], me_per_tenant := dset tenant m (me_per_tenant x)\<rparr>)))"

text \<open>\<open>execute\<close> up to its first suspension: \<open>_master_for\<close>. \<open>None\<close>: the task number is taken.\<close>

definition exec_begin :: "nat \<Rightarrow> string \<Rightarrow> string option \<Rightarrow> master_executor \<Rightarrow> master_executor option" where
  "exec_begin k tenant0 raised x =
     (let tenant = (if tenant0 \<noteq> [] then tenant0 else ''default'') in
      if dget (me_tasks x) k \<noteq> None then None
      else (case me_factory x of
              NoFactory \<Rightarrow>
                (case me_master x of
                   None \<Rightarrow> Some (set_phase k tenant (Returned (error_outcome ''no master'')) x)
                 | Some m \<Rightarrow> Some (set_phase k tenant (Waiting m) x))
            | SyncFactory \<Rightarrow>
                (case dget (me_per_tenant x) tenant of
                   Some m \<Rightarrow> Some (set_phase k tenant (Waiting m) x)
                 | None \<Rightarrow> Some (made_master k tenant raised x))
            | AsyncFactory \<Rightarrow>
                (case dget (me_per_tenant x) tenant of
                   Some m \<Rightarrow> Some (set_phase k tenant (Waiting m) x)
                 | None \<Rightarrow> Some (set_phase k tenant Creating x))))"

text \<open>The awaited factory call ends.\<close>

definition exec_made :: "nat \<Rightarrow> string option \<Rightarrow> master_executor \<Rightarrow> master_executor option" where
  "exec_made k raised x =
     (case dget (me_tasks x) k of
        Some (tenant, Creating) \<Rightarrow> Some (made_master k tenant raised x)
      | _ \<Rightarrow> None)"

fun running_phase :: "phase \<Rightarrow> bool" where
  "running_phase (Running m) = True"
| "running_phase _ = False"

definition locked :: "master_executor \<Rightarrow> bool" where
  "locked x \<longleftrightarrow> list_ex (\<lambda>(_, _, ph). running_phase ph) (me_tasks x)"

text \<open>The lock is free and the task takes it: \<open>_safe_reset\<close> and the start of \<open>chat_turn\<close>. A reset that
  raises is ignored, so the log only has that it was called.\<close>

definition exec_run :: "nat \<Rightarrow> master_executor \<Rightarrow> master_executor option" where
  "exec_run k x =
     (case dget (me_tasks x) k of
        Some (tenant, Waiting m) \<Rightarrow>
          if locked x then None
          else Some (set_phase k tenant (Running m)
                 (x\<lparr>me_executed_any := True,
                    me_log := me_log x @ (if me_reset x \<and> me_executed_any x then [Reset m] else []) @
                      [Chat m k]\<rparr>))
      | _ \<Rightarrow> None)"

text \<open>\<open>_to_outcome\<close>: \<open>None\<close> when \<open>int()\<close> or the iteration raises, which the executor does not catch.\<close>

definition str_or_empty :: "(json \<Rightarrow> string) \<Rightarrow> json option \<Rightarrow> string" where
  "str_or_empty py_str v =
     (case v of None \<Rightarrow> [] | Some (JStr s) \<Rightarrow> s | Some j \<Rightarrow> if falsy j then [] else py_str j)"

definition py_text :: "(json \<Rightarrow> string) \<Rightarrow> json \<Rightarrow> string" where
  "py_text py_str j = (case j of JStr s \<Rightarrow> s | _ \<Rightarrow> py_str j)"

definition to_outcome :: "(json \<Rightarrow> string) \<Rightarrow> json \<Rightarrow> task_outcome option" where
  "to_outcome py_str result =
     (case result of
        JObj d \<Rightarrow>
          (let iterations = (case dget d ''iterations'' of
                 None \<Rightarrow> Some 0
               | Some j \<Rightarrow> if falsy j then Some 0 else
                   (case j of JNum n \<Rightarrow> Some (if 0 \<le> n then \<lfloor>n\<rfloor> else \<lceil>n\<rceil>) | JBool b \<Rightarrow> Some 1
                    | JStr s \<Rightarrow> parse_int s | _ \<Rightarrow> None));
               tool_calls = (case dget d ''tool_calls'' of
                 None \<Rightarrow> Some []
               | Some j \<Rightarrow> if falsy j then Some [] else
                   (case j of JList l \<Rightarrow> Some (map (py_text py_str) l) | JObj e \<Rightarrow> Some (dkeys e)
                    | JStr s \<Rightarrow> Some (map (\<lambda>c. [c]) s) | _ \<Rightarrow> None))
           in case (iterations, tool_calls) of
                (Some i, Some ts) \<Rightarrow> Some \<lparr>oc_output = str_or_empty py_str (dget d ''response''),
                   oc_error = str_or_empty py_str (dget d ''error''), oc_iterations = i, oc_tool_calls = ts\<rparr>
              | _ \<Rightarrow> None)
      | _ \<Rightarrow> Some \<lparr>oc_output = str_or_empty py_str (Some result), oc_error = [], oc_iterations = 0,
                   oc_tool_calls = []\<rparr>)"

text \<open>The chat turn ends, by an exception (\<open>Inl\<close>) or with a result; the lock is released.\<close>

definition chat_outcome :: "(json \<Rightarrow> string) \<Rightarrow> string + json \<Rightarrow> task_outcome option" where
  "chat_outcome py_str e =
     (case e of Inl exc \<Rightarrow> Some (error_outcome exc) | Inr result \<Rightarrow> to_outcome py_str result)"

definition exec_end :: "nat \<Rightarrow> (json \<Rightarrow> string) \<Rightarrow> string + json \<Rightarrow> master_executor \<Rightarrow> master_executor option" where
  "exec_end k py_str e x =
     (case dget (me_tasks x) k of
        Some (tenant, Running m) \<Rightarrow>
          Some (set_phase k tenant (case chat_outcome py_str e of Some oc \<Rightarrow> Returned oc | None \<Rightarrow> Unwound) x)
      | _ \<Rightarrow> None)"

text \<open>The worker of a task is cancelled; \<open>async with\<close> releases the lock.\<close>

definition exec_cancel :: "nat \<Rightarrow> master_executor \<Rightarrow> master_executor option" where
  "exec_cancel k x =
     (case dget (me_tasks x) k of
        None \<Rightarrow> None
      | Some (_, Returned _) \<Rightarrow> None
      | Some (tenant, _) \<Rightarrow> Some (set_phase k tenant Unwound x))"

definition tenants :: "master_executor \<Rightarrow> string list" where
  "tenants x = dkeys (me_per_tenant x)"

definition aclose :: "master_executor \<Rightarrow> master_executor" where
  "aclose x = x\<lparr>me_log := me_log x @
     map Destroy (rev (remdups (rev (dvals (me_per_tenant x) @ (case me_master x of None \<Rightarrow> [] | Some m \<Rightarrow> [m])))))\<rparr>"

text \<open>Any interleaving of tasks.\<close>

inductive exec_step :: "master_executor \<Rightarrow> master_executor \<Rightarrow> bool" where
  begun: "exec_begin k tenant raised x = Some x' \<Longrightarrow> exec_step x x'"
| made: "exec_made k raised x = Some x' \<Longrightarrow> exec_step x x'"
| running: "exec_run k x = Some x' \<Longrightarrow> exec_step x x'"
| ended: "exec_end k py_str e x = Some x' \<Longrightarrow> exec_step x x'"
| cancelled: "exec_cancel k x = Some x' \<Longrightarrow> exec_step x x'"

inductive exec_reach :: "factory \<Rightarrow> bool \<Rightarrow> master_executor \<Rightarrow> bool" for factory reset where
  start: "new_master_executor has_master factory reset = Some x \<Longrightarrow> exec_reach factory reset x"
| step: "exec_reach factory reset x \<Longrightarrow> exec_step x x' \<Longrightarrow> exec_reach factory reset x'"

inductive_cases exec_stepE: "exec_step x x'"

section \<open>Invariants\<close>

fun uses :: "phase \<Rightarrow> nat option" where
  "uses (Waiting m) = Some m"
| "uses (Running m) = Some m"
| "uses _ = None"

definition own_master :: "master_executor \<Rightarrow> string \<Rightarrow> nat \<Rightarrow> bool" where
  "own_master x tenant m \<longleftrightarrow> me_factory x = NoFactory \<or> m < length (me_created x) \<and> me_created x ! m = tenant"

definition one_running :: "master_executor \<Rightarrow> bool" where
  "one_running x \<longleftrightarrow> (\<forall>k t ph k' t' ph'. dget (me_tasks x) k = Some (t, ph) \<and> dget (me_tasks x) k' = Some (t', ph') \<and>
     running_phase ph \<and> running_phase ph' \<longrightarrow> k = k')"

definition masters_ok :: "master_executor \<Rightarrow> bool" where
  "masters_ok x \<longleftrightarrow>
     (\<forall>k t ph m. dget (me_tasks x) k = Some (t, ph) \<and> uses ph = Some m \<longrightarrow> own_master x t m) \<and>
     (\<forall>t m. dget (me_per_tenant x) t = Some m \<longrightarrow> own_master x t m) \<and>
     (\<forall>m k. Chat m k \<in> set (me_log x) \<longrightarrow> (\<exists>t ph. dget (me_tasks x) k = Some (t, ph) \<and> own_master x t m))"

definition log_of :: "(nat \<times> nat) list \<Rightarrow> master_call list" where
  "log_of rest = concat (map (\<lambda>(m, k). [Reset m, Chat m k]) rest)"

definition clean_log :: "master_executor \<Rightarrow> bool" where
  "clean_log x \<longleftrightarrow>
     (if me_executed_any x then \<exists>m k rest. me_log x = Chat m k # log_of rest else me_log x = [])"

definition exec_inv :: "master_executor \<Rightarrow> bool" where
  "exec_inv x \<longleftrightarrow> wf_dict (me_tasks x) \<and> wf_dict (me_per_tenant x) \<and> one_running x \<and> masters_ok x \<and> (me_reset x \<longrightarrow> clean_log x)"

lemma masters_okI:
  assumes "\<And>k t ph m. dget (me_tasks x) k = Some (t, ph) \<Longrightarrow> uses ph = Some m \<Longrightarrow> own_master x t m"
    and "\<And>t m. dget (me_per_tenant x) t = Some m \<Longrightarrow> own_master x t m"
    and "\<And>m k. Chat m k \<in> set (me_log x) \<Longrightarrow> \<exists>t ph. dget (me_tasks x) k = Some (t, ph) \<and> own_master x t m"
  shows "masters_ok x"
  using assms unfolding masters_ok_def by blast

lemma masters_okD:
  assumes "masters_ok x"
  shows "dget (me_tasks x) k = Some (t, ph) \<Longrightarrow> uses ph = Some m \<Longrightarrow> own_master x t m"
    and "dget (me_per_tenant x) t = Some m \<Longrightarrow> own_master x t m"
    and "Chat m k \<in> set (me_log x) \<Longrightarrow> \<exists>t ph. dget (me_tasks x) k = Some (t, ph) \<and> own_master x t m"
  using assms unfolding masters_ok_def by blast+

lemma exec_invD:
  assumes "exec_inv x"
  shows "wf_dict (me_tasks x)" and "one_running x" and "masters_ok x" and "me_reset x \<Longrightarrow> clean_log x"
    and "wf_dict (me_per_tenant x)"
  using assms by (simp_all add: exec_inv_def)

lemma locked_iff: "wf_dict (me_tasks x) \<Longrightarrow>
  locked x \<longleftrightarrow> (\<exists>k t ph. dget (me_tasks x) k = Some (t, ph) \<and> running_phase ph)"
  by (auto simp: locked_def list_ex_iff dget_mem)

lemma set_phase_fields [simp]:
  "me_master (set_phase k t ph x) = me_master x" "me_factory (set_phase k t ph x) = me_factory x"
  "me_reset (set_phase k t ph x) = me_reset x" "me_per_tenant (set_phase k t ph x) = me_per_tenant x"
  "me_executed_any (set_phase k t ph x) = me_executed_any x" "me_created (set_phase k t ph x) = me_created x"
  "me_log (set_phase k t ph x) = me_log x"
  "me_tasks (set_phase k t ph x) = dset k (t, ph) (me_tasks x)"
  by (simp_all add: set_phase_def)

lemma own_master_set_phase [simp]: "own_master (set_phase k t ph x) = own_master x"
  by (simp add: own_master_def fun_eq_iff)

text \<open>Setting a phase that does not run, for a task that is new or keeps its tenant.\<close>

lemma set_phase_inv:
  assumes inv: "exec_inv x" and task: "\<forall>t' ph'. dget (me_tasks x) k = Some (t', ph') \<longrightarrow> t' = t"
    and idle: "\<not> running_phase ph" and own: "\<forall>m. uses ph = Some m \<longrightarrow> own_master x t m"
  shows "exec_inv (set_phase k t ph x)"
proof -
  note i = exec_invD [OF inv] and m = masters_okD [OF exec_invD(3) [OF inv]]
  have "one_running (set_phase k t ph x)"
    using i(2) idle by (auto simp: one_running_def split: if_splits)
  moreover have "masters_ok (set_phase k t ph x)"
  proof (rule masters_okI)
    show "own_master (set_phase k t ph x) t' n"
      if "dget (me_tasks (set_phase k t ph x)) k' = Some (t', ph')" "uses ph' = Some n" for k' t' ph' n
      using that own m(1) [of k' t' ph' n] by (auto split: if_splits)
    show "own_master (set_phase k t ph x) t' n" if "dget (me_per_tenant (set_phase k t ph x)) t' = Some n" for t' n
      using that m(2) [of t' n] by simp
    show "\<exists>t' ph'. dget (me_tasks (set_phase k t ph x)) k' = Some (t', ph') \<and> own_master (set_phase k t ph x) t' n"
      if "Chat n k' \<in> set (me_log (set_phase k t ph x))" for n k'
      using that m(3) [of n k'] task by auto
  qed
  ultimately show ?thesis using i by (simp add: exec_inv_def clean_log_def)
qed

lemma made_master_inv:
  assumes inv: "exec_inv x" and task: "\<forall>t' ph'. dget (me_tasks x) k = Some (t', ph') \<longrightarrow> t' = t"
  shows "exec_inv (made_master k t raised x)"
proof (cases raised)
  case (Some exc)
  with set_phase_inv [OF assms] show ?thesis by (simp add: made_master_def)
next
  case None
  let ?y = "x\<lparr>me_created := me_created x @ [t], me_per_tenant := dset t (length (me_created x)) (me_per_tenant x)\<rparr>"
  have mono: "own_master x t' m \<Longrightarrow> own_master ?y t' m" for t' m
    by (auto simp: own_master_def nth_append)
  have "own_master ?y t (length (me_created x))" by (simp add: own_master_def)
  moreover from this have "masters_ok ?y"
    using masters_okD [OF exec_invD(3) [OF inv]] mono
    by (intro masters_okI) (auto split: if_splits, blast)
  then have "exec_inv ?y"
    using exec_invD [OF inv] by (simp add: exec_inv_def one_running_def clean_log_def)
  ultimately show ?thesis
    using set_phase_inv [of ?y k t "Waiting (length (me_created x))"] task None
    by (simp add: made_master_def Let_def)
qed

lemma exec_run_inv:
  assumes inv: "exec_inv x" and run: "exec_run k x = Some x'"
  shows "exec_inv x'"
proof -
  from run obtain t m where k: "dget (me_tasks x) k = Some (t, Waiting m)" and free: "\<not> locked x"
    and x': "x' = set_phase k t (Running m) (x\<lparr>me_executed_any := True,
        me_log := me_log x @ (if me_reset x \<and> me_executed_any x then [Reset m] else []) @ [Chat m k]\<rparr>)"
    by (auto simp: exec_run_def split: option.splits prod.splits phase.splits if_splits)
  have wf: "wf_dict (me_tasks x)" using inv by (simp add: exec_inv_def)
  note mo = masters_okD [OF exec_invD(3) [OF inv]]
  have own: "own_master x t m" using mo(1) [OF k] by simp
  have same: "own_master x' = own_master x" by (simp add: x' own_master_def fun_eq_iff)
  have "one_running x'"
    using free unfolding locked_iff [OF wf] by (auto simp: one_running_def x' split: if_splits)
  moreover have "masters_ok x'"
  proof (rule masters_okI; unfold same)
    show "own_master x t' n" if "dget (me_tasks x') k' = Some (t', ph')" "uses ph' = Some n" for k' t' ph' n
      using that own mo(1) [of k' t' ph' n] by (auto simp: x' split: if_splits)
    show "own_master x t' n" if "dget (me_per_tenant x') t' = Some n" for t' n
      using that mo(2) [of t' n] by (simp add: x')
    show "\<exists>t' ph'. dget (me_tasks x') k' = Some (t', ph') \<and> own_master x t' n" if "Chat n k' \<in> set (me_log x')" for n k'
      using that own k mo(3) [of n k'] by (auto simp: x' split: if_splits)
  qed
  moreover have "clean_log x'" if "me_reset x"
  proof (cases "me_executed_any x")
    case True
    with inv that obtain m' k' rest where "me_log x = Chat m' k' # log_of rest"
      by (auto simp: exec_inv_def clean_log_def)
    with True that have "me_log x' = Chat m' k' # log_of (rest @ [(m, k)])" by (simp add: x' log_of_def)
    then show ?thesis by (auto simp: clean_log_def x')
  next
    case False
    with inv that have "me_log x' = Chat m k # log_of []" by (simp add: x' log_of_def exec_inv_def clean_log_def)
    then show ?thesis by (auto simp: clean_log_def x')
  qed
  ultimately show ?thesis using inv by (simp add: exec_inv_def x')
qed

lemma exec_begin_inv:
  assumes inv: "exec_inv x" and "exec_begin k tenant raised x = Some x'"
  shows "exec_inv x'"
proof -
  have per: "own_master x t m" if "dget (me_per_tenant x) t = Some m" for t m
    using inv that by (auto simp: exec_inv_def masters_ok_def)
  have none: "\<forall>t' ph'. dget (me_tasks x) k = Some (t', ph') \<longrightarrow> t' = t" for t
    using assms(2) by (simp add: exec_begin_def Let_def split: if_splits)
  have nof: "me_factory x = NoFactory \<Longrightarrow> own_master x t m" for t m by (simp add: own_master_def)
  show ?thesis using assms(2) per nof
    by (auto simp: exec_begin_def Let_def split: if_splits factory.splits option.splits
        intro!: set_phase_inv [OF inv none] made_master_inv [OF inv none])
qed

lemma master_inv_step:
  assumes inv: "exec_inv x" and "exec_step x x'"
  shows "exec_inv x'"
  using assms(2)
proof cases
  case (begun k tenant raised)
  then show ?thesis by (rule exec_begin_inv [OF inv])
next
  case (made k raised)
  then obtain t where "dget (me_tasks x) k = Some (t, Creating)" "x' = made_master k t raised x"
    by (auto simp: exec_made_def split: option.splits phase.splits)
  then show ?thesis by (auto intro: made_master_inv [OF inv])
next
  case (running k)
  then show ?thesis by (rule exec_run_inv [OF inv])
next
  case (ended k py_str e)
  then obtain t m ph where "dget (me_tasks x) k = Some (t, Running m)" "x' = set_phase k t ph x"
    "ph = Unwound \<or> (\<exists>oc. ph = Returned oc)"
    by (auto simp: exec_end_def split: option.splits phase.splits)
  then show ?thesis by (auto intro!: set_phase_inv [OF inv])
next
  case (cancelled k)
  then obtain t ph where "dget (me_tasks x) k = Some (t, ph)" "x' = set_phase k t Unwound x"
    by (auto simp: exec_cancel_def split: option.splits phase.splits)
  then show ?thesis by (auto intro!: set_phase_inv [OF inv])
qed

lemma step_factory: "exec_step x x' \<Longrightarrow> me_factory x' = me_factory x \<and> me_reset x' = me_reset x"
  by (erule exec_stepE)
    (auto simp: exec_begin_def exec_made_def exec_run_def exec_end_def exec_cancel_def made_master_def Let_def
      split: if_splits option.splits factory.splits phase.splits)

lemma exec_reach_inv: "exec_reach factory reset x \<Longrightarrow> exec_inv x \<and> me_factory x = factory \<and> me_reset x = reset"
proof (induction rule: exec_reach.induct)
  case (start has_master x)
  then show ?case
    by (auto simp: new_master_executor_def exec_inv_def one_running_def masters_ok_def clean_log_def split: if_splits)
next
  case (step x x')
  with master_inv_step step_factory show ?case by blast
qed

section \<open>Properties\<close>

text \<open>
  C32: The executor's promises, under any interleaving of its tasks: at most one task runs at a time; in
  factory mode a master only ever runs tasks of one tenant; and with \<open>reset_between_tasks\<close> every
  chat turn but the very first comes right after a reset of the master it uses.
\<close>

theorem master_executor_isolates:
  assumes "exec_reach factory reset x"
  shows "(\<forall>k k' t t' m m'. dget (me_tasks x) k = Some (t, Running m) \<and>
        dget (me_tasks x) k' = Some (t', Running m') \<longrightarrow> k = k') \<and>
    (factory \<noteq> NoFactory \<longrightarrow> (\<forall>m k k'. Chat m k \<in> set (me_log x) \<and> Chat m k' \<in> set (me_log x) \<longrightarrow>
        map_option fst (dget (me_tasks x) k) = map_option fst (dget (me_tasks x) k'))) \<and>
    (reset \<longrightarrow> me_log x = [] \<or> (\<exists>m k rest. me_log x = Chat m k # log_of rest))"
proof (intro conjI allI impI)
  note i = exec_reach_inv [OF assms]
  note inv = exec_invD [OF conjunct1 [OF i]]
  show "k = k'" if "dget (me_tasks x) k = Some (t, Running m) \<and> dget (me_tasks x) k' = Some (t', Running m')"
    for k k' t t' m m'
    using that inv(2) unfolding one_running_def by (metis running_phase.simps(1))
  show "map_option fst (dget (me_tasks x) k) = map_option fst (dget (me_tasks x) k')"
    if "factory \<noteq> NoFactory" "Chat m k \<in> set (me_log x) \<and> Chat m k' \<in> set (me_log x)" for m k k'
    using that i masters_okD(3) [OF inv(3), of m k] masters_okD(3) [OF inv(3), of m k']
    by (auto simp: own_master_def)
  show "me_log x = [] \<or> (\<exists>m k rest. me_log x = Chat m k # log_of rest)" if reset
  proof -
    have "clean_log x" by (rule inv(4)) (use i that in simp)
    then show ?thesis by (auto simp: clean_log_def split: if_splits)
  qed
qed

theorem master_executor_isolates_witness:
  "\<exists>x :: master_executor. me_log x = [Chat 0 0, Reset 1, Chat 1 1] \<and> (\<exists>m k rest. me_log x = Chat m k # log_of rest)"
proof -
  define x0 where "x0 = the (new_master_executor False SyncFactory True)"
  define x1 where "x1 = the (exec_begin 0 ''a'' None x0)"
  define x2 where "x2 = the (exec_begin 1 ''b'' None x1)"
  define x3 where "x3 = the (exec_run 0 x2)"
  define x4 where "x4 = the (exec_end 0 (\<lambda>_. []) (Inr (JObj [(''response'', JStr ''ok'')])) x3)"
  define x5 where "x5 = the (exec_run 1 x4)"
  note defs = x0_def x1_def x2_def x3_def x4_def x5_def
  have s0: "new_master_executor False SyncFactory True = Some x0" unfolding defs by code_simp
  have s1: "exec_begin 0 ''a'' None x0 = Some x1" unfolding defs by code_simp
  have s2: "exec_begin 1 ''b'' None x1 = Some x2" unfolding defs by code_simp
  have s3: "exec_run 0 x2 = Some x3" unfolding defs by code_simp
  have s4: "exec_end 0 (\<lambda>_. []) (Inr (JObj [(''response'', JStr ''ok'')])) x3 = Some x4" unfolding defs by code_simp
  have s5: "exec_run 1 x4 = Some x5" unfolding defs by code_simp
  have l: "me_log x5 = [Chat 0 0, Reset 1, Chat 1 1]" unfolding defs by code_simp
  have r: "exec_reach SyncFactory True x5"
    by (rule exec_reach.step [OF exec_reach.step [OF exec_reach.step [OF exec_reach.step [OF exec_reach.step
        [OF exec_reach.start [OF s0] begun [OF s1]] begun [OF s2]] running [OF s3]] ended [OF s4]] running [OF s5]])
  from master_executor_isolates [OF r, THEN conjunct2, THEN conjunct2, THEN mp, OF TrueI] l
  have "\<exists>m k rest. me_log x5 = Chat m k # log_of rest" by simp
  with l show ?thesis by blast
qed



text \<open>
  The look-up and the creation of a tenant's master are not atomic: when two tasks of a tenant both
  wait for an asynchronous factory, each gets a master of its own, so the tenant's conversation is
  split; the first master is forgotten, and closing the executor does not destroy it.
\<close>

theorem factory_race_leaks_master:
  assumes "exec_reach AsyncFactory reset x" and "me_master x = None"
    and "dget (me_tasks x) k = Some (t, Creating)" and "dget (me_tasks x) j = Some (t, Creating)" and "j \<noteq> k"
    and "exec_made k None x = Some x1" and "exec_made j None x1 = Some x2"
  shows "\<exists>m m'. m \<noteq> m' \<and> dget (me_tasks x2) k = Some (t, Waiting m) \<and> dget (me_tasks x2) j = Some (t, Waiting m') \<and>
    m \<notin> set (dvals (me_per_tenant x2)) \<and> (Destroy m \<notin> set (me_log x) \<longrightarrow> Destroy m \<notin> set (me_log (aclose x2)))"
proof -
  let ?m = "length (me_created x)"
  have x1: "x1 = made_master k t None x" using assms(3,6) by (simp add: exec_made_def)
  have x2: "x2 = made_master j t None x1" using assms(4,5,7) by (simp add: exec_made_def x1 made_master_def Let_def)
  have inv: "exec_inv x" "me_factory x = AsyncFactory" using exec_reach_inv [OF assms(1)] by simp_all
  have bound: "m < ?m" if "dget (me_per_tenant x) t' = Some m" for t' m
    using masters_okD(2) [OF exec_invD(3) [OF inv(1)] that] inv(2) by (simp add: own_master_def)
  have per: "me_per_tenant x2 = dset t (Suc ?m) (dset t ?m (me_per_tenant x))"
    by (simp add: x2 x1 made_master_def Let_def)
  have "?m \<notin> set (dvals (me_per_tenant x2))"
  proof
    assume "?m \<in> set (dvals (me_per_tenant x2))"
    moreover have "wf_dict (me_per_tenant x2)" using exec_invD(5) [OF inv(1)] by (simp add: per)
    ultimately have "\<exists>t'. dget (me_per_tenant x2) t' = Some ?m" by (simp only: dvals_dget)
    then obtain t' where "dget (me_per_tenant x2) t' = Some ?m" ..
    with bound [of t' ?m] show False by (auto simp: per split: if_splits)
  qed
  moreover have "me_master x2 = None" "me_log x2 = me_log x"
    using assms(2) by (simp_all add: x2 x1 made_master_def Let_def)
  moreover have "dget (me_tasks x2) k = Some (t, Waiting ?m) \<and> dget (me_tasks x2) j = Some (t, Waiting (Suc ?m))"
    using assms(5) by (simp add: x2 x1 made_master_def Let_def)
  ultimately show ?thesis by (intro exI [of _ ?m] exI [of _ "Suc ?m"]) (auto simp: aclose_def)
qed

theorem factory_race_leaks_master_witness:
  "\<exists>(x :: master_executor) m m'. m \<noteq> m' \<and> dget (me_tasks x) 0 = Some (''a'', Waiting m) \<and> dget (me_tasks x) 1 = Some (''a'', Waiting m') \<and>
     m \<notin> set (dvals (me_per_tenant x))"
proof -
  define x0 where "x0 = the (new_master_executor False AsyncFactory True)"
  define x1 where "x1 = the (exec_begin 0 ''a'' None x0)"
  define x2 where "x2 = the (exec_begin 1 ''a'' None x1)"
  define x3 where "x3 = the (exec_made 0 None x2)"
  define x4 where "x4 = the (exec_made 1 None x3)"
  note defs = x0_def x1_def x2_def x3_def x4_def
  have s0: "new_master_executor False AsyncFactory True = Some x0" unfolding defs by code_simp
  have s1: "exec_begin 0 ''a'' None x0 = Some x1" unfolding defs by code_simp
  have s2: "exec_begin 1 ''a'' None x1 = Some x2" unfolding defs by code_simp
  have s3: "exec_made 0 None x2 = Some x3" unfolding defs by code_simp
  have s4: "exec_made 1 None x3 = Some x4" unfolding defs by code_simp
  have t: "me_master x2 = None" "dget (me_tasks x2) 0 = Some (''a'', Creating)" "dget (me_tasks x2) 1 = Some (''a'', Creating)"
    unfolding defs by code_simp+
  have r: "exec_reach AsyncFactory True x2"
    by (rule exec_reach.step [OF exec_reach.step [OF exec_reach.start [OF s0] begun [OF s1]] begun [OF s2]])
  have "(1::nat) \<noteq> 0" by simp
  from factory_race_leaks_master [OF r t this s3 s4] obtain m m' where
    "m \<noteq> m'" "dget (me_tasks x4) 0 = Some (''a'', Waiting m)" "dget (me_tasks x4) 1 = Some (''a'', Waiting m')"
    "m \<notin> set (dvals (me_per_tenant x4))" by (elim exE conjE)
  then show ?thesis by blast
qed

end
