(* ===== verification/Memory.thy ===== *)
theory Memory
  imports Strings
begin

text \<open>
  \<open>youmi/memory/strategies\<close>: the three memory strategies (full, summary, long/short term) behind
  the contract of the abstract class \<open>MemoryStrategy\<close> (the locale \<open>memory_strategy\<close>), and their
  keyword search. A call of the LLM is an argument of the operation that makes it: a function from
  the prompt to its answer, \<open>None\<close> when the call raises. A prompt template is the function that
  fills it in. The labels that the code writes in Chinese are written in English.
\<close>

section \<open>The contract and the keyword search: \<open>strategies/base.py\<close>\<close>

record mem_message =
  mm_role :: string
  mm_content :: string

definition message_score :: "string \<Rightarrow> mem_message \<Rightarrow> nat" where
  "message_score q m =
     (let content = lower (mm_content m) in
      length (filter (\<lambda>word. is_substring word content) (split_ws q)) +
      (if is_substring q content then 2 else 0))"

definition message_search :: "mem_message list \<Rightarrow> string \<Rightarrow> int \<Rightarrow> mem_message list" where
  "message_search ms query top_k =
     (let q = strip (lower query) in
      if q = [] then []
      else map fst (filter (\<lambda>(m, s). 0 < s)
             (slice_to top_k (sort_desc snd (map (\<lambda>m. (m, message_score q m)) ms)))))"

text \<open>
  What the framework expects of a strategy: it shows the LLM (\<open>context\<close>) only messages that it
  holds (\<open>held\<close>) or system messages of its own, and \<open>on_message\<close>, \<open>clear\<close> and
  \<open>on_session_end\<close> never make it hold a message it was not given.
\<close>

locale memory_strategy =
  fixes held :: "'s \<Rightarrow> mem_message list"
    and on_message :: "'r \<Rightarrow> mem_message \<Rightarrow> 's \<Rightarrow> 's"
    and get_context :: "'s \<Rightarrow> mem_message list"
    and wipe :: "'s \<Rightarrow> 's"
    and on_session_end :: "'r \<Rightarrow> 's \<Rightarrow> 's"
  assumes held_on_message: "set (held (on_message r m s)) \<subseteq> insert m (set (held s))"
    and held_wipe: "set (held (wipe s)) \<subseteq> set (held s)"
    and held_session_end: "set (held (on_session_end r s)) \<subseteq> set (held s)"
    and context_held: "m \<in> set (get_context s) \<Longrightarrow> mm_role m = ''system'' \<or> m \<in> set (held s)"

datatype 'r memory_op = Say 'r mem_message | Clear | EndSession 'r

fun said :: "'r memory_op \<Rightarrow> mem_message list" where
  "said (Say r m) = [m]"
| "said Clear = []"
| "said (EndSession r) = []"

context memory_strategy
begin

fun memory_step :: "'r memory_op \<Rightarrow> 's \<Rightarrow> 's" where
  "memory_step (Say r m) s = on_message r m s"
| "memory_step Clear s = wipe s"
| "memory_step (EndSession r) s = on_session_end r s"

lemma held_step: "set (held (memory_step x s)) \<subseteq> set (said x) \<union> set (held s)"
  using held_on_message held_wipe held_session_end by (cases x) auto

lemma held_run: "set (held (fold memory_step ops s)) \<subseteq> set (concat (map said ops)) \<union> set (held s)"
proof (induction ops arbitrary: s)
  case (Cons x ops)
  have "set (held (fold memory_step ops (memory_step x s))) \<subseteq>
      set (concat (map said ops)) \<union> set (held (memory_step x s))" by (rule Cons.IH)
  with held_step [of x s] show ?case by auto
qed simp

lemma nothing_invented:
  assumes "held s = []" and "m \<in> set (get_context (fold memory_step ops s))"
  shows "mm_role m = ''system'' \<or> m \<in> set (concat (map said ops))"
  using context_held [OF assms(2)] held_run [of ops s] assms(1) by auto

end

section \<open>Bounded lists\<close>

text \<open>\<open>xs.append(x); if len(xs) > n: xs = xs[-n:]\<close>, the eviction all strategies share.\<close>

definition push_bounded :: "int \<Rightarrow> 'a \<Rightarrow> 'a list \<Rightarrow> 'a list" where
  "push_bounded n x xs = (let xs = xs @ [x] in if n < int (length xs) then last_n n xs else xs)"

lemma set_last_n: "set (last_n n xs) \<subseteq> set xs"
  by (simp add: last_n_def slice_from_def set_drop_subset)

lemma set_push_bounded: "set (push_bounded n x xs) \<subseteq> insert x (set xs)"
  using set_last_n [of n "xs @ [x]"] by (auto simp: push_bounded_def Let_def)

lemma last_n_snoc: "0 < n \<Longrightarrow> last_n n (last_n n xs @ [x]) = last_n n (xs @ [x])"
  by (cases "length xs \<le> nat n") (auto simp: last_n_pos Suc_diff_le)

lemma push_bounded_last_n: "0 < n \<Longrightarrow> push_bounded n x (last_n n xs) = last_n n (xs @ [x])"
  using last_n_snoc [of n xs x] by (auto simp: push_bounded_def Let_def last_n_all)

lemma push_bounded_run: "0 < n \<Longrightarrow> fold (push_bounded n) ys (last_n n xs) = last_n n (xs @ ys)"
  by (induction ys arbitrary: xs) (simp_all add: push_bounded_last_n)

text \<open>A bound of 0 does not bound anything: \<open>xs[-0:]\<close> is the whole list.\<close>

lemma push_bounded_zero: "fold (push_bounded 0) ys xs = xs @ ys"
  by (induction ys arbitrary: xs) (simp_all add: push_bounded_def)

section \<open>Full memory: \<open>strategies/full.py\<close>\<close>

record full_memory =
  fm_max_messages :: int
  fm_messages :: "mem_message list"

definition new_full_memory :: "int \<Rightarrow> full_memory" where
  "new_full_memory max_messages = \<lparr>fm_max_messages = max_messages, fm_messages = []\<rparr>"

definition full_on_message :: "mem_message \<Rightarrow> full_memory \<Rightarrow> full_memory" where
  "full_on_message m s = s\<lparr>fm_messages := push_bounded (fm_max_messages s) m (fm_messages s)\<rparr>"

definition full_get_context :: "int option \<Rightarrow> full_memory \<Rightarrow> mem_message list" where
  "full_get_context limit s =
     last_n (case limit of None \<Rightarrow> int (length (fm_messages s)) | Some l \<Rightarrow> l) (fm_messages s)"

definition full_clear :: "full_memory \<Rightarrow> full_memory" where
  "full_clear s = s\<lparr>fm_messages := []\<rparr>"

definition full_search :: "string \<Rightarrow> int \<Rightarrow> full_memory \<Rightarrow> mem_message list" where
  "full_search query top_k s = message_search (fm_messages s) query top_k"

section \<open>Summary memory: \<open>strategies/summary.py\<close>\<close>

type_synonym llm_reply = "string \<Rightarrow> string option"

record summary_memory =
  sm_buffer_size :: int
  sm_summary_interval :: int
  sm_prompt :: "string \<Rightarrow> string"
  sm_max_total :: int
  sm_has_llm :: bool
  sm_messages :: "mem_message list"
  sm_summary :: "string option"

definition new_summary_memory :: "int \<Rightarrow> int \<Rightarrow> (string \<Rightarrow> string) \<Rightarrow> int \<Rightarrow> bool \<Rightarrow> summary_memory" where
  "new_summary_memory buffer_size interval prompt max_total has_llm =
     \<lparr>sm_buffer_size = buffer_size, sm_summary_interval = interval, sm_prompt = prompt,
      sm_max_total = max_total, sm_has_llm = has_llm, sm_messages = [], sm_summary = None\<rparr>"

definition newline :: string where "newline = [CHR 0x0A]"

text \<open>\<open>if self._summary\<close> is false for \<open>None\<close> and for the empty string.\<close>

definition has_summary :: "string option \<Rightarrow> bool" where
  "has_summary summary \<longleftrightarrow> summary \<noteq> None \<and> summary \<noteq> Some []"

definition conversation_text :: "mem_message list \<Rightarrow> string" where
  "conversation_text ms = join_with newline (map (\<lambda>m. mm_role m @ '': '' @ mm_content m) ms)"

definition text_to_summarize :: "string option \<Rightarrow> mem_message list \<Rightarrow> string" where
  "text_to_summarize summary ms =
     (if has_summary summary
      then ''[previous summary]'' @ newline @ the summary @ newline @ newline @
           ''[new conversation]'' @ newline @ conversation_text ms
      else conversation_text ms)"

definition generate_summary :: "llm_reply \<Rightarrow> bool \<Rightarrow> summary_memory \<Rightarrow> summary_memory" where
  "generate_summary reply force s =
     (if \<not> sm_has_llm s then s
      else if \<not> force \<and> int (length (sm_messages s)) \<le> sm_buffer_size s then s
      else (let to_summarize = (if force then sm_messages s else slice_to (- sm_buffer_size s) (sm_messages s));
                s = (case reply (sm_prompt s (text_to_summarize (sm_summary s) to_summarize)) of
                       None \<Rightarrow> s
                     | Some answer \<Rightarrow> s\<lparr>sm_summary := Some answer\<rparr>)
            in s\<lparr>sm_messages := (if force then [] else last_n (sm_buffer_size s) (sm_messages s))\<rparr>))"

definition summary_on_message :: "llm_reply \<Rightarrow> mem_message \<Rightarrow> summary_memory \<Rightarrow> summary_memory" where
  "summary_on_message reply m s =
     (let s = s\<lparr>sm_messages := push_bounded (sm_max_total s) m (sm_messages s)\<rparr> in
      if sm_has_llm s \<and> sm_summary_interval s \<le> int (length (sm_messages s))
      then generate_summary reply False s else s)"

definition summary_message :: "string option \<Rightarrow> mem_message list" where
  "summary_message summary =
     (if has_summary summary
      then [\<lparr>mm_role = ''system'', mm_content = ''[summary of the conversation]'' @ newline @ the summary\<rparr>]
      else [])"

definition summary_get_context :: "summary_memory \<Rightarrow> mem_message list" where
  "summary_get_context s = summary_message (sm_summary s) @ last_n (sm_buffer_size s) (sm_messages s)"

definition summary_clear :: "summary_memory \<Rightarrow> summary_memory" where
  "summary_clear s = s\<lparr>sm_messages := [], sm_summary := None\<rparr>"

definition summary_search :: "string \<Rightarrow> int \<Rightarrow> summary_memory \<Rightarrow> mem_message list" where
  "summary_search query top_k s = message_search (summary_message (sm_summary s) @ sm_messages s) query top_k"

definition summary_session_end :: "llm_reply \<Rightarrow> summary_memory \<Rightarrow> summary_memory" where
  "summary_session_end reply s =
     (if sm_has_llm s \<and> sm_messages s \<noteq> [] then generate_summary reply True s else s)"

section \<open>Long and short term memory: \<open>strategies/lstm.py\<close>\<close>

record lstm_memory =
  lm_keywords :: "string list"
  lm_max_short :: int
  lm_max_long :: int
  lm_prompt :: "string \<Rightarrow> string"
  lm_has_llm :: bool
  lm_short :: "mem_message list"
  lm_long :: "mem_message list"

definition new_lstm_memory :: "string list \<Rightarrow> int \<Rightarrow> int \<Rightarrow> (string \<Rightarrow> string) \<Rightarrow> bool \<Rightarrow> lstm_memory" where
  "new_lstm_memory keywords max_short max_long prompt has_llm =
     \<lparr>lm_keywords = keywords, lm_max_short = max_short, lm_max_long = max_long, lm_prompt = prompt,
      lm_has_llm = has_llm, lm_short = [], lm_long = []\<rparr>"

datatype memory_kind = LongTerm | ShortTerm

definition classify :: "llm_reply \<Rightarrow> mem_message \<Rightarrow> lstm_memory \<Rightarrow> memory_kind" where
  "classify reply m s =
     (let by_keyword = (if \<exists>k \<in> set (lm_keywords s). is_substring (lower k) (lower (mm_content m))
                        then LongTerm else ShortTerm)
      in if lm_has_llm s
         then (case reply (lm_prompt s (mm_content m)) of
                 None \<Rightarrow> by_keyword
               | Some result \<Rightarrow> if is_substring ''long_term'' (lower (strip result)) then LongTerm else ShortTerm)
         else by_keyword)"

definition lstm_on_message :: "llm_reply \<Rightarrow> mem_message \<Rightarrow> lstm_memory \<Rightarrow> lstm_memory" where
  "lstm_on_message reply m s =
     (case classify reply m s of
        LongTerm \<Rightarrow> s\<lparr>lm_long := push_bounded (lm_max_long s) m (lm_long s)\<rparr>
      | ShortTerm \<Rightarrow> s\<lparr>lm_short := push_bounded (lm_max_short s) m (lm_short s)\<rparr>)"

definition lstm_get_context :: "int option \<Rightarrow> int option \<Rightarrow> lstm_memory \<Rightarrow> mem_message list" where
  "lstm_get_context long_limit short_limit s =
     (let long = (case long_limit of None \<Rightarrow> int (length (lm_long s)) | Some l \<Rightarrow> l);
          short = (case short_limit of None \<Rightarrow> int (length (lm_short s)) | Some l \<Rightarrow> l)
      in (if lm_long s \<noteq> []
          then [\<lparr>mm_role = ''system'',
                 mm_content = ''[long-term memory]'' @ newline @
                   join_with newline (map (\<lambda>e. ''- '' @ mm_content e) (last_n long (lm_long s)))\<rparr>]
          else []) @ last_n short (lm_short s))"

definition lstm_clear :: "lstm_memory \<Rightarrow> lstm_memory" where
  "lstm_clear s = s\<lparr>lm_short := []\<rparr>"

definition lstm_clear_all :: "lstm_memory \<Rightarrow> lstm_memory" where
  "lstm_clear_all s = s\<lparr>lm_short := [], lm_long := []\<rparr>"

definition lstm_session_end :: "lstm_memory \<Rightarrow> lstm_memory" where
  "lstm_session_end s = s\<lparr>lm_short := []\<rparr>"

definition lstm_search :: "string \<Rightarrow> int \<Rightarrow> lstm_memory \<Rightarrow> mem_message list" where
  "lstm_search query top_k s =
     (let lt_hits = message_search (lm_long s) query top_k in
      if top_k \<le> int (length lt_hits) then lt_hits
      else lt_hits @ message_search (lm_short s) query (top_k - int (length lt_hits)))"

section \<open>The three strategies keep the contract\<close>

interpretation fms: memory_strategy fm_messages "\<lambda>_. full_on_message" "full_get_context limit" full_clear "\<lambda>_ s. s"
proof unfold_locales
  show "m \<in> set (full_get_context limit s) \<Longrightarrow> mm_role m = ''system'' \<or> m \<in> set (fm_messages s)" for m s
    using set_last_n by (fastforce simp: full_get_context_def)
qed (simp_all add: full_on_message_def full_clear_def set_push_bounded)

lemma generate_summary_held: "set (sm_messages (generate_summary reply force s)) \<subseteq> set (sm_messages s)"
  using set_last_n by (fastforce simp: generate_summary_def Let_def split: option.splits if_splits)

lemma summary_on_message_held:
  "set (sm_messages (summary_on_message reply m s)) \<subseteq> insert m (set (sm_messages s))"
proof -
  let ?s = "s\<lparr>sm_messages := push_bounded (sm_max_total s) m (sm_messages s)\<rparr>"
  have "set (sm_messages ?s) \<subseteq> insert m (set (sm_messages s))" using set_push_bounded [of "sm_max_total s" m "sm_messages s"] by simp
  moreover have "set (sm_messages (generate_summary reply False ?s)) \<subseteq> set (sm_messages ?s)"
    by (rule generate_summary_held)
  ultimately show ?thesis unfolding summary_on_message_def Let_def by (auto split: if_splits)
qed

interpretation sms: memory_strategy sm_messages summary_on_message summary_get_context summary_clear summary_session_end
proof unfold_locales
  show "m \<in> set (summary_get_context s) \<Longrightarrow> mm_role m = ''system'' \<or> m \<in> set (sm_messages s)" for m s
    using set_last_n by (fastforce simp: summary_get_context_def summary_message_def split: if_splits)
qed (simp_all add: summary_on_message_held summary_clear_def summary_session_end_def generate_summary_held)

definition lstm_held :: "lstm_memory \<Rightarrow> mem_message list" where
  "lstm_held s = lm_long s @ lm_short s"

interpretation lms: memory_strategy lstm_held lstm_on_message "lstm_get_context ll sl" lstm_clear "\<lambda>_. lstm_session_end"
proof unfold_locales
  show "set (lstm_held (lstm_on_message r m s)) \<subseteq> insert m (set (lstm_held s))" for r m s
    using set_push_bounded [of "lm_max_long s" m "lm_long s"] set_push_bounded [of "lm_max_short s" m "lm_short s"]
    by (auto simp: lstm_held_def lstm_on_message_def split: memory_kind.split)
  show "m \<in> set (lstm_get_context ll sl s) \<Longrightarrow> mm_role m = ''system'' \<or> m \<in> set (lstm_held s)" for m s
    using set_last_n by (fastforce simp: lstm_get_context_def lstm_held_def Let_def split: if_splits)
qed (auto simp: lstm_held_def lstm_clear_def lstm_session_end_def)

section \<open>Search\<close>

lemma message_search_scores:
  assumes "r = message_search ms query top_k" and "0 \<le> top_k"
  shows "int (length r) \<le> top_k \<and> set r \<subseteq> set ms \<and>
    (\<forall>m \<in> set r. 0 < message_score (strip (lower query)) m) \<and>
    sorted_wrt (\<lambda>a b. message_score (strip (lower query)) b \<le> message_score (strip (lower query)) a) r"
proof (cases "strip (lower query) = []")
  case True
  with assms show ?thesis by (simp add: message_search_def)
next
  case False
  let ?q = "strip (lower query)"
  let ?scored = "map (\<lambda>m. (m, message_score ?q m)) ms"
  let ?top = "slice_to top_k (sort_desc snd ?scored)"
  let ?hits = "filter (\<lambda>(m, s). 0 < s) ?top"
  have r: "r = map fst ?hits" using False assms(1) by (simp add: message_search_def Let_def)
  have sub: "set ?hits \<subseteq> set ?scored"
    using set_slice_to [of top_k "sort_desc snd ?scored"] by auto
  have score: "snd p = message_score ?q (fst p)" if "p \<in> set ?hits" for p using sub that by auto
  have "length ?hits \<le> length ?top" by (rule length_filter_le)
  with length_slice_to [OF assms(2), of "sort_desc snd ?scored"] assms(2)
  have len: "int (length ?hits) \<le> top_k" by linarith
  have "sorted_wrt (\<lambda>a b. snd b \<le> snd a) ?hits"
    by (intro sorted_wrt_filter) (simp add: slice_to_def sorted_wrt_take sort_desc_sorted)
  then have "sorted_wrt (\<lambda>a b. message_score ?q (fst b) \<le> message_score ?q (fst a)) ?hits"
    by (rule sorted_wrt_mono_rel [rotated]) (use score in auto)
  with r len sub show ?thesis by (auto simp: sorted_wrt_map)
qed

lemma message_search_complete:
  assumes "m \<in> set ms" and "strip (lower query) \<noteq> []"
    and "0 < message_score (strip (lower query)) m" and "int (length ms) \<le> top_k"
  shows "m \<in> set (message_search ms query top_k)"
proof -
  let ?q = "strip (lower query)"
  let ?scored = "map (\<lambda>m. (m, message_score ?q m)) ms"
  have "slice_to top_k (sort_desc snd ?scored) = sort_desc snd ?scored"
    using assms(4) by (simp add: slice_to_def)
  then have "(m, message_score ?q m) \<in> set (filter (\<lambda>(m, s). 0 < s) (slice_to top_k (sort_desc snd ?scored)))"
    using assms(1,3) by auto
  then show ?thesis using assms(2) by (force simp: message_search_def Let_def)
qed

section \<open>What each strategy holds\<close>

lemma full_run_fields:
  "fm_max_messages (fold full_on_message ms s) = fm_max_messages s"
  "fm_messages (fold full_on_message ms s) = fold (push_bounded (fm_max_messages s)) ms (fm_messages s)"
  by (induction ms arbitrary: s) (simp_all add: full_on_message_def)

text \<open>One message with the LLM answering \<open>answer p\<close> to the prompt \<open>p\<close>.\<close>

definition summary_chain :: "(string \<Rightarrow> string) \<Rightarrow> (string \<Rightarrow> string) \<Rightarrow> mem_message list list \<Rightarrow> string option" where
  "summary_chain answer prompt batches =
     fold (\<lambda>batch old. Some (answer (prompt (text_to_summarize old batch)))) batches None"

lemma summary_chain_snoc:
  "summary_chain answer prompt (bs @ [b]) =
     Some (answer (prompt (text_to_summarize (summary_chain answer prompt bs) b)))"
  by (simp add: summary_chain_def)

definition covers :: "(string \<Rightarrow> string) \<Rightarrow> mem_message list \<Rightarrow> mem_message list list \<Rightarrow> summary_memory \<Rightarrow> bool" where
  "covers answer history batches s \<longleftrightarrow>
     history = concat batches @ sm_messages s \<and> sm_summary s = summary_chain answer (sm_prompt s) batches \<and>
     int (length (sm_messages s)) < sm_summary_interval s"

definition summary_config_ok :: "summary_memory \<Rightarrow> bool" where
  "summary_config_ok s \<longleftrightarrow> sm_has_llm s \<and> 0 < sm_buffer_size s \<and>
     sm_buffer_size s < sm_summary_interval s \<and> sm_summary_interval s \<le> sm_max_total s"

lemma summary_config_kept [simp]:
  "sm_buffer_size (summary_on_message reply m s) = sm_buffer_size s"
  "sm_summary_interval (summary_on_message reply m s) = sm_summary_interval s"
  "sm_max_total (summary_on_message reply m s) = sm_max_total s"
  "sm_has_llm (summary_on_message reply m s) = sm_has_llm s"
  "sm_prompt (summary_on_message reply m s) = sm_prompt s"
  by (auto simp: summary_on_message_def generate_summary_def Let_def split: option.split)

text \<open>A configuration for which a message below the interval is just appended, and one that
  reaches it summarises all but the last \<open>buffer_size\<close> messages.\<close>

lemma summary_on_message_cases:
  assumes "summary_config_ok s" and "int (length (sm_messages s)) < sm_summary_interval s"
  shows "summary_on_message reply m s =
    (let s = s\<lparr>sm_messages := sm_messages s @ [m]\<rparr> in
     if int (length (sm_messages s)) < sm_summary_interval s then s
     else (case reply (sm_prompt s (text_to_summarize (sm_summary s) (slice_to (- sm_buffer_size s) (sm_messages s)))) of
             None \<Rightarrow> s | Some answer \<Rightarrow> s\<lparr>sm_summary := Some answer\<rparr>)
          \<lparr>sm_messages := last_n (sm_buffer_size s) (sm_messages s)\<rparr>)"
proof -
  have "push_bounded (sm_max_total s) m (sm_messages s) = sm_messages s @ [m]"
    using assms by (simp add: push_bounded_def summary_config_ok_def)
  with assms show ?thesis
    by (auto simp: summary_on_message_def generate_summary_def Let_def summary_config_ok_def split: option.split)
qed

lemma covers_step:
  assumes ok: "summary_config_ok s" and c: "covers answer history batches s"
  shows "\<exists>batches'. covers answer (history @ [m]) batches' (summary_on_message (\<lambda>p. Some (answer p)) m s)"
proof -
  let ?ms = "sm_messages s @ [m]"
  have len: "int (length (sm_messages s)) < sm_summary_interval s" using c by (simp add: covers_def)
  note step = summary_on_message_cases [OF ok len, of "\<lambda>p. Some (answer p)" m]
  show ?thesis
  proof (cases "int (length ?ms) < sm_summary_interval s")
    case True
    then have "covers answer (history @ [m]) batches (summary_on_message (\<lambda>p. Some (answer p)) m s)"
      using c by (simp add: step covers_def)
    then show ?thesis ..
  next
    case False
    let ?batch = "slice_to (- sm_buffer_size s) ?ms"
    have "0 < sm_buffer_size s" using ok by (simp add: summary_config_ok_def)
    then have split: "?batch @ last_n (sm_buffer_size s) ?ms = ?ms"
      and l: "length (last_n (sm_buffer_size s) ?ms) \<le> nat (sm_buffer_size s)"
      by (rule slice_split, simp add: length_last_n)
    have "int (length (last_n (sm_buffer_size s) ?ms)) < sm_summary_interval s"
      using l ok unfolding summary_config_ok_def by linarith
    with False c split have "covers answer (history @ [m]) (batches @ [?batch]) (summary_on_message (\<lambda>p. Some (answer p)) m s)"
      by (simp add: step covers_def summary_chain_snoc Let_def)
    then show ?thesis ..
  qed
qed

lemma covers_run:
  assumes "summary_config_ok s" and "covers answer history batches s"
  shows "\<exists>batches'. covers answer (history @ ms) batches' (fold (summary_on_message (\<lambda>p. Some (answer p))) ms s)"
  using assms
proof (induction ms arbitrary: s history batches)
  case (Cons m ms)
  from covers_step [OF Cons.prems, of m] obtain batches'
    where "covers answer (history @ [m]) batches' (summary_on_message (\<lambda>p. Some (answer p)) m s)" ..
  from Cons.IH [OF _ this] Cons.prems(1) show ?case by (simp add: summary_config_ok_def)
qed auto

text \<open>The messages of a run that long term memory is to keep, and the short ones since the last clear.\<close>

definition is_long :: "lstm_memory \<Rightarrow> llm_reply \<Rightarrow> mem_message \<Rightarrow> bool" where
  "is_long s reply m \<longleftrightarrow> classify reply m s = LongTerm"

fun log_long :: "lstm_memory \<Rightarrow> llm_reply memory_op \<Rightarrow> mem_message list \<Rightarrow> mem_message list" where
  "log_long s (Say reply m) acc = (if is_long s reply m then acc @ [m] else acc)"
| "log_long s Clear acc = acc"
| "log_long s (EndSession reply) acc = acc"

fun log_short :: "lstm_memory \<Rightarrow> llm_reply memory_op \<Rightarrow> mem_message list \<Rightarrow> mem_message list" where
  "log_short s (Say reply m) acc = (if is_long s reply m then acc else acc @ [m])"
| "log_short s Clear acc = []"
| "log_short s (EndSession reply) acc = []"

lemma memory_kind_cases: "k \<noteq> LongTerm \<longleftrightarrow> k = ShortTerm"
  by (cases k) auto

lemma lstm_step_fields:
  "is_long (lms.memory_step x s) = is_long s"
  "lm_max_long (lms.memory_step x s) = lm_max_long s" "lm_max_short (lms.memory_step x s) = lm_max_short s"
  by (cases x; auto simp: lstm_on_message_def lstm_clear_def lstm_session_end_def is_long_def fun_eq_iff
      classify_def split: memory_kind.split)+

lemma log_is_long: "is_long s' = is_long s \<Longrightarrow> log_long s' x = log_long s x \<and> log_short s' x = log_short s x"
  by (cases x) (auto simp: fun_eq_iff)

lemma lstm_step_log:
  assumes "0 < lm_max_long s" and "0 < lm_max_short s"
    and "lm_long s = last_n (lm_max_long s) ll" and "lm_short s = last_n (lm_max_short s) sl"
  shows "lm_long (lms.memory_step x s) = last_n (lm_max_long s) (log_long s x ll) \<and>
    lm_short (lms.memory_step x s) = last_n (lm_max_short s) (log_short s x sl)"
  using assms
  by (cases x) (auto simp: lstm_on_message_def is_long_def lstm_clear_def lstm_session_end_def memory_kind_cases
      push_bounded_last_n last_n_all split: memory_kind.split)

lemma lstm_run_log:
  assumes "0 < lm_max_long s" and "0 < lm_max_short s"
    and "lm_long s = last_n (lm_max_long s) ll" and "lm_short s = last_n (lm_max_short s) sl"
  shows "lm_long (fold lms.memory_step ops s) = last_n (lm_max_long s) (fold (log_long s) ops ll) \<and>
    lm_short (fold lms.memory_step ops s) = last_n (lm_max_short s) (fold (log_short s) ops sl)"
  using assms
proof (induction ops arbitrary: s ll sl)
  case (Cons x ops)
  let ?s = "lms.memory_step x s"
  have logs: "log_long ?s = log_long s" "log_short ?s = log_short s"
    using log_is_long [OF lstm_step_fields(1) [of x s]] by (auto simp: fun_eq_iff)
  from lstm_step_log [OF Cons.prems, of x]
  have "lm_long ?s = last_n (lm_max_long ?s) (log_long s x ll)" "lm_short ?s = last_n (lm_max_short ?s) (log_short s x sl)"
    by (simp_all add: lstm_step_fields)
  from Cons.IH [OF _ _ this] Cons.prems(1,2) logs show ?case by (simp add: lstm_step_fields)
qed simp

section \<open>Properties\<close>

text \<open>
  No strategy invents a message: whatever is said to it, cleared and ended, every message in the
  context that the full, summary or long/short term memory gives the LLM is a system message of
  the strategy or one of the messages it was given.
\<close>

theorem memory_never_invents:
  "(m \<in> set (full_get_context limit (fold (fms.memory_step) fops (new_full_memory n))) \<longrightarrow>
      mm_role m = ''system'' \<or> m \<in> set (concat (map said fops))) \<and>
   (m \<in> set (summary_get_context (fold sms.memory_step ops (new_summary_memory b i p t h))) \<longrightarrow>
      mm_role m = ''system'' \<or> m \<in> set (concat (map said ops))) \<and>
   (m \<in> set (lstm_get_context ll sl (fold lms.memory_step ops (new_lstm_memory k ms ml q h))) \<longrightarrow>
      mm_role m = ''system'' \<or> m \<in> set (concat (map said ops)))"
  using fms.nothing_invented [of "new_full_memory n" m limit fops]
    sms.nothing_invented [of "new_summary_memory b i p t h" m ops]
    lms.nothing_invented [of "new_lstm_memory k ms ml q h" m ll sl ops]
  by (simp add: new_full_memory_def new_summary_memory_def new_lstm_memory_def lstm_held_def)

theorem memory_never_invents_witness:
  "\<lparr>mm_role = ''user'', mm_content = ''hi''\<rparr> \<in> set (full_get_context None (fold fms.memory_step
      [Say () \<lparr>mm_role = ''user'', mm_content = ''hi''\<rparr>] (new_full_memory 2))) \<and>
   \<lparr>mm_role = ''user'', mm_content = ''hi''\<rparr> \<in> set (concat (map said [Say () \<lparr>mm_role = ''user'', mm_content = ''hi''\<rparr>]))"
proof -
  let ?m = "\<lparr>mm_role = ''user'', mm_content = ''hi''\<rparr>"
  have "?m \<in> set (full_get_context None (fold fms.memory_step [Say () ?m] (new_full_memory 2)))"
    by (simp add: full_get_context_def full_on_message_def new_full_memory_def push_bounded_def last_n_def slice_from_def)
  with memory_never_invents [of ?m None "[Say () ?m]" 2 "[]" 0 0 id 0 False None None "[]" 0 0 id]
  show ?thesis by auto
qed

text \<open>
  Full memory is a window: with a positive bound it holds exactly the last \<open>max_messages\<close> messages
  in order, and a positive \<open>limit\<close> gives the last of those.
\<close>

theorem full_memory_window:
  assumes "0 < n" and "0 < l"
  shows "fm_messages (fold full_on_message ms (new_full_memory n)) = last_n n ms \<and>
    full_get_context None (fold full_on_message ms (new_full_memory n)) = last_n n ms \<and>
    full_get_context (Some l) (fold full_on_message ms (new_full_memory n)) = last_n (min n l) ms"
proof -
  have f: "fm_messages (fold full_on_message ms (new_full_memory n)) = last_n n ms"
    using push_bounded_run [OF assms(1), of ms "[]"]
    by (simp add: full_run_fields new_full_memory_def last_n_all assms(1) less_imp_le)
  have "length ms - (length ms - nat n) - nat l + (length ms - nat n) = length ms - min (nat n) (nat l)"
    by (cases "nat n \<le> length ms"; cases "nat l \<le> nat n") (simp_all add: min_def)
  moreover have "min (nat n) (nat l) = nat (min n l)" by (simp add: min_def nat_le_eq_zle assms(1) less_imp_le)
  ultimately have "last_n l (last_n n ms) = last_n (min n l) ms"
    using assms by (simp add: last_n_pos add.commute)
  with f show ?thesis by (simp add: full_get_context_def last_n_all)
qed

theorem full_memory_window_witness:
  "fm_messages (fold full_on_message [\<lparr>mm_role = ''user'', mm_content = ''a''\<rparr>, \<lparr>mm_role = ''user'', mm_content = ''b''\<rparr>]
     (new_full_memory 1)) = [\<lparr>mm_role = ''user'', mm_content = ''b''\<rparr>]"
  using full_memory_window [of 1 1 "[\<lparr>mm_role = ''user'', mm_content = ''a''\<rparr>, \<lparr>mm_role = ''user'', mm_content = ''b''\<rparr>]"]
  by (simp add: last_n_pos)

text \<open>
  C35: Summaries cover the history. With an LLM that always answers and
  \<open>0 < buffer_size < summary_interval \<le> max_messages\<close>, the messages said so far are the summarised
  batches followed by the messages held, fewer than the interval, and the summary is the chain of
  answers, each made from the previous summary and the next batch.
\<close>

theorem summary_covers_history:
  assumes "0 < b" and "b < i" and "i \<le> t"
  shows "\<exists>batches.
    (let s = fold (summary_on_message (\<lambda>p. Some (answer p))) ms (new_summary_memory b i prompt t True) in
     ms = concat batches @ sm_messages s \<and> sm_summary s = summary_chain answer prompt batches \<and>
     int (length (sm_messages s)) < i)"
proof -
  let ?s = "new_summary_memory b i prompt t True"
  have "summary_config_ok ?s" "covers answer [] [] ?s"
    using assms by (simp_all add: summary_config_ok_def covers_def new_summary_memory_def summary_chain_def)
  from covers_run [OF this, of ms] obtain batches
    where c: "covers answer ms batches (fold (summary_on_message (\<lambda>p. Some (answer p))) ms ?s)" by auto
  have "sm_prompt (fold (summary_on_message r) ms s) = sm_prompt s \<and>
      sm_summary_interval (fold (summary_on_message r) ms s) = sm_summary_interval s" for r s
    by (induction ms arbitrary: s) simp_all
  with c show ?thesis by (auto simp: covers_def new_summary_memory_def Let_def)
qed

theorem summary_covers_history_witness:
  "\<exists>batches. replicate 5 \<lparr>mm_role = ''user'', mm_content = ''a''\<rparr> = concat batches @
     sm_messages (fold (summary_on_message (\<lambda>p. Some ''s'')) (replicate 5 \<lparr>mm_role = ''user'', mm_content = ''a''\<rparr>)
       (new_summary_memory 1 3 id 10 True))"
  using summary_covers_history [of 1 3 10 "\<lambda>_. ''s''" "replicate 5 \<lparr>mm_role = ''user'', mm_content = ''a''\<rparr>" id]
  by (auto simp: Let_def)

text \<open>
  A failed summary call loses messages: when the LLM raises at the end of a session, the strategy
  drops all messages it holds and keeps the old summary, so with no summary yet the next session
  starts with nothing.
\<close>

theorem failed_summary_loses_session:
  assumes "sm_has_llm s"
  shows "sm_messages (summary_session_end (\<lambda>_. None) s) = [] \<and>
    sm_summary (summary_session_end (\<lambda>_. None) s) = sm_summary s \<and>
    (sm_summary s = None \<longrightarrow> summary_get_context (summary_session_end (\<lambda>_. None) s) = [])"
  using assms
  by (auto simp: summary_session_end_def generate_summary_def summary_get_context_def summary_message_def
      has_summary_def last_n_def slice_from_def)

theorem failed_summary_loses_session_witness:
  "summary_get_context (summary_session_end (\<lambda>_. None)
     ((new_summary_memory 2 4 id 10 True)\<lparr>sm_messages := [\<lparr>mm_role = ''user'', mm_content = ''a''\<rparr>]\<rparr>)) = []"
  using failed_summary_loses_session
    [of "(new_summary_memory 2 4 id 10 True)\<lparr>sm_messages := [\<lparr>mm_role = ''user'', mm_content = ''a''\<rparr>]\<rparr>"]
  by (simp add: new_summary_memory_def)

text \<open>
  Long and short term memory partition what is said: after any run with positive bounds, long term
  memory holds the last \<open>max_long\<close> messages classified as long term, over all sessions, and short
  term memory the last \<open>max_short\<close> of the others since the last clear or end of a session.
\<close>

theorem lstm_partition:
  assumes "0 < ml" and "0 < ms"
  shows "(let s0 = new_lstm_memory k ms ml q h; s = fold lms.memory_step ops s0 in
     lm_long s = last_n ml (fold (log_long s0) ops []) \<and> lm_short s = last_n ms (fold (log_short s0) ops []))"
  using lstm_run_log [of "new_lstm_memory k ms ml q h" "[]" "[]" ops] assms
  by (simp add: new_lstm_memory_def last_n_all less_imp_le)

theorem lstm_partition_witness:
  "(let s = fold lms.memory_step [Say (\<lambda>_. None) \<lparr>mm_role = ''user'', mm_content = ''Remember me''\<rparr>, EndSession (\<lambda>_. None)]
       (new_lstm_memory [''remember''] 5 5 id False) in
    lm_long s = [\<lparr>mm_role = ''user'', mm_content = ''Remember me''\<rparr>] \<and> lm_short s = [])"
proof -
  have "is_long (new_lstm_memory [''remember''] 5 5 id False) (\<lambda>_. None) \<lparr>mm_role = ''user'', mm_content = ''Remember me''\<rparr>"
    by code_simp
  then show ?thesis
    using lstm_partition [of 5 5 "[''remember'']" id False
      "[Say (\<lambda>_. None) \<lparr>mm_role = ''user'', mm_content = ''Remember me''\<rparr>, EndSession (\<lambda>_. None)]"]
    by (simp add: last_n_all)
qed

text \<open>
  The keyword search returns at most \<open>top_k\<close> messages of the memory, all of which match the query,
  best match first; when the memory has at most \<open>top_k\<close> messages it returns every match.
\<close>

theorem message_search_correct:
  assumes "0 \<le> top_k" and "strip (lower query) \<noteq> []"
  shows "(let r = message_search ms query top_k; score = message_score (strip (lower query)) in
    int (length r) \<le> top_k \<and> set r \<subseteq> {m \<in> set ms. 0 < score m} \<and>
    sorted_wrt (\<lambda>a b. score b \<le> score a) r \<and>
    (int (length ms) \<le> top_k \<longrightarrow> set r = {m \<in> set ms. 0 < score m}))"
  using message_search_scores [OF refl assms(1), of ms query] message_search_complete [OF _ assms(2), of _ ms top_k]
  by (auto simp: Let_def)

theorem message_search_correct_witness:
  "message_search [\<lparr>mm_role = ''user'', mm_content = ''cat''\<rparr>, \<lparr>mm_role = ''user'', mm_content = ''a dog''\<rparr>] ''Dog'' 2 =
     [\<lparr>mm_role = ''user'', mm_content = ''a dog''\<rparr>] \<and>
   int (length (message_search [\<lparr>mm_role = ''user'', mm_content = ''cat''\<rparr>, \<lparr>mm_role = ''user'', mm_content = ''a dog''\<rparr>] ''Dog'' 1)) \<le> 1"
proof
  show "message_search [\<lparr>mm_role = ''user'', mm_content = ''cat''\<rparr>, \<lparr>mm_role = ''user'', mm_content = ''a dog''\<rparr>] ''Dog'' 2 =
     [\<lparr>mm_role = ''user'', mm_content = ''a dog''\<rparr>]" by code_simp
  have "strip (lower ''Dog'') \<noteq> []" by code_simp
  from message_search_correct [OF _ this, of 1] show
    "int (length (message_search [\<lparr>mm_role = ''user'', mm_content = ''cat''\<rparr>, \<lparr>mm_role = ''user'', mm_content = ''a dog''\<rparr>] ''Dog'' 1)) \<le> 1"
    by (simp add: Let_def)
qed

end
