(* ===== verification/Compaction.thy ===== *)
theory Compaction
  imports Memory
begin

text \<open>
  \<open>youmi/memory/compaction.py\<close> and its use in \<open>Agent._observe\<close> (\<open>core/agent.py\<close>): token estimates,
  the test whether a conversation must be compacted, and the compaction itself. Messages are the
  dictionaries of the OpenAI format. The LLM is a function from the prompt to its answer (\<open>None\<close>
  when it raises); Python's \<open>str()\<close> of a JSON value and the prompt template are arguments.
\<close>

section \<open>Messages in the OpenAI format\<close>

type_synonym chat_message = "(string, json) dict"

text \<open>\<open>msg.get("role")\<close>, and \<open>msg.get("content", "")\<close> where only a non-empty text counts.\<close>

definition is_system :: "chat_message \<Rightarrow> bool" where
  "is_system m \<longleftrightarrow> dget m ''role'' = Some (JStr ''system'')"

definition content_of :: "chat_message \<Rightarrow> string" where
  "content_of m = (case dget m ''content'' of Some (JStr s) \<Rightarrow> s | _ \<Rightarrow> [])"

definition role_or :: "string \<Rightarrow> chat_message \<Rightarrow> string" where
  "role_or d m = (case dget m ''role'' of Some (JStr s) \<Rightarrow> s | _ \<Rightarrow> d)"

section \<open>Token estimates\<close>

text \<open>\<open>max(1, int(len(text) / 3.5))\<close>.\<close>

definition estimate_tokens :: "string \<Rightarrow> nat" where
  "estimate_tokens t = (if t = [] then 0 else max 1 (2 * length t div 7))"

definition message_tokens :: "(json \<Rightarrow> string) \<Rightarrow> chat_message \<Rightarrow> nat" where
  "message_tokens py_str m =
     estimate_tokens (content_of m) + 4 +
     (case dget m ''tool_calls'' of None \<Rightarrow> 0 | Some v \<Rightarrow> estimate_tokens (py_str v))"

definition estimate_messages_tokens :: "(json \<Rightarrow> string) \<Rightarrow> chat_message list \<Rightarrow> nat" where
  "estimate_messages_tokens py_str ms = sum_list (map (message_tokens py_str) ms)"

section \<open>The compactor\<close>

record compactor =
  cp_max_tokens :: int
  cp_reserve_ratio :: rat
  cp_keep_recent :: int
  cp_has_llm :: bool
  cp_prompt :: "string \<Rightarrow> string \<Rightarrow> string"
  cp_summary :: "string option"
  cp_count :: nat
  cp_tokens_compacted :: nat

definition new_compactor :: "int \<Rightarrow> rat \<Rightarrow> int \<Rightarrow> bool \<Rightarrow> (string \<Rightarrow> string \<Rightarrow> string) \<Rightarrow> compactor" where
  "new_compactor max_tokens ratio keep_recent has_llm prompt =
     \<lparr>cp_max_tokens = max_tokens, cp_reserve_ratio = ratio, cp_keep_recent = keep_recent,
      cp_has_llm = has_llm, cp_prompt = prompt, cp_summary = None, cp_count = 0, cp_tokens_compacted = 0\<rparr>"

text \<open>\<open>int(max_tokens * ratio)\<close> truncates; both factors are positive here.\<close>

definition needs_compaction :: "(json \<Rightarrow> string) \<Rightarrow> chat_message list \<Rightarrow> compactor \<Rightarrow> bool" where
  "needs_compaction py_str ms c \<longleftrightarrow>
     0 < cp_max_tokens c \<and>
     \<lfloor>of_int (cp_max_tokens c) * cp_reserve_ratio c\<rfloor> \<le> int (estimate_messages_tokens py_str ms)"

definition compaction_prompt :: "chat_message list \<Rightarrow> compactor \<Rightarrow> string" where
  "compaction_prompt ms c =
     (let conversation = join_with newline (map (\<lambda>m. role_or ''?'' m @ '': '' @ content_of m)
            (filter (\<lambda>m. content_of m \<noteq> []) ms));
          previous = (if has_summary (cp_summary c)
            then ''previous summary:'' @ newline @ the (cp_summary c) @ newline @ newline else [])
      in cp_prompt c previous conversation)"

definition generate_compaction_summary :: "llm_reply \<Rightarrow> chat_message list \<Rightarrow> compactor \<Rightarrow> string option" where
  "generate_compaction_summary reply ms c =
     (if \<not> cp_has_llm c then None
      else (case reply (compaction_prompt ms c) of
              None \<Rightarrow> None
            | Some result \<Rightarrow> if result \<noteq> [] then Some (strip result) else None))"

definition summary_chat_message :: "string \<Rightarrow> chat_message" where
  "summary_chat_message summary =
     [(''role'', JStr ''system''), (''content'', JStr (''[summary of compacted history]'' @ newline @ summary))]"

definition maybe_compact :: "(json \<Rightarrow> string) \<Rightarrow> llm_reply \<Rightarrow> chat_message list \<Rightarrow> compactor \<Rightarrow>
    chat_message list \<times> compactor" where
  "maybe_compact py_str reply ms c =
     (if \<not> needs_compaction py_str ms c then (ms, c)
      else (let system_msgs = filter is_system ms; non_system_msgs = filter (\<lambda>m. \<not> is_system m) ms in
            if int (length non_system_msgs) \<le> cp_keep_recent c then (ms, c)
            else (let to_compact = slice_to (- cp_keep_recent c) non_system_msgs;
                      to_keep = last_n (cp_keep_recent c) non_system_msgs;
                      compacted_tokens = estimate_messages_tokens py_str to_compact
                  in case generate_compaction_summary reply to_compact c of
                       Some summary \<Rightarrow>
                         (system_msgs @ [summary_chat_message summary] @ to_keep,
                          c\<lparr>cp_summary := Some summary, cp_count := cp_count c + 1,
                            cp_tokens_compacted := cp_tokens_compacted c + compacted_tokens\<rparr>)
                     | None \<Rightarrow> (system_msgs @ to_keep, c\<lparr>cp_count := cp_count c + 1\<rparr>))))"

definition reset_compactor :: "compactor \<Rightarrow> compactor" where
  "reset_compactor c = c\<lparr>cp_summary := None, cp_count := 0, cp_tokens_compacted := 0\<rparr>"

text \<open>
  \<open>_observe\<close> compacts a copy of the agent's conversation for the next call of the LLM and leaves the
  conversation as it is. One turn of the ReAct loop observes and then appends the messages of the
  turn; the arguments give the reply of the LLM to the summary prompt and those messages.
\<close>

definition observe_turn :: "(json \<Rightarrow> string) \<Rightarrow> llm_reply \<times> chat_message list \<Rightarrow>
    chat_message list \<times> compactor \<Rightarrow> chat_message list \<times> compactor" where
  "observe_turn py_str turn st =
     (fst st @ snd turn, snd (maybe_compact py_str (fst turn) (fst st) (snd st)))"

text \<open>The use that the class documents: the compacted conversation replaces the old one.\<close>

definition replace_turn :: "(json \<Rightarrow> string) \<Rightarrow> llm_reply \<times> chat_message list \<Rightarrow>
    chat_message list \<times> compactor \<Rightarrow> chat_message list \<times> compactor" where
  "replace_turn py_str turn st = maybe_compact py_str (fst turn) (fst st @ snd turn) (snd st)"

section \<open>Lemmas\<close>

lemma is_system_summary [simp]: "is_system (summary_chat_message summary)"
  by (simp add: is_system_def summary_chat_message_def)

lemma tokens_append [simp]:
  "estimate_messages_tokens py_str (ms @ ns) =
     estimate_messages_tokens py_str ms + estimate_messages_tokens py_str ns"
  by (simp add: estimate_messages_tokens_def)

lemma tokens_partition:
  "estimate_messages_tokens py_str (filter P ms) \<le> estimate_messages_tokens py_str ms"
  by (induction ms) (auto simp: estimate_messages_tokens_def)

lemma message_tokens_pos: "4 \<le> message_tokens py_str m"
  by (simp add: message_tokens_def)

lemma filter_last_n: "filter (\<lambda>m. \<not> P m) (last_n n (filter (\<lambda>m. \<not> P m) ms)) = last_n n (filter (\<lambda>m. \<not> P m) ms)"
  "filter P (last_n n (filter (\<lambda>m. \<not> P m) ms)) = []"
  using set_last_n [of n "filter (\<lambda>m. \<not> P m) ms"] by (auto simp: filter_id_conv filter_empty_conv)

definition compacts :: "(json \<Rightarrow> string) \<Rightarrow> chat_message list \<Rightarrow> compactor \<Rightarrow> bool" where
  "compacts py_str ms c \<longleftrightarrow> needs_compaction py_str ms c \<and>
     cp_keep_recent c < int (length (filter (\<lambda>m. \<not> is_system m) ms))"

lemma maybe_compact_idle: "\<not> compacts py_str ms c \<Longrightarrow> maybe_compact py_str reply ms c = (ms, c)"
  by (auto simp: maybe_compact_def compacts_def Let_def)

lemma maybe_compact_done:
  assumes "compacts py_str ms c"
  obtains summary where
    "fst (maybe_compact py_str reply ms c) = filter is_system ms @ map summary_chat_message summary @
       last_n (cp_keep_recent c) (filter (\<lambda>m. \<not> is_system m) ms)"
    "cp_count (snd (maybe_compact py_str reply ms c)) = cp_count c + 1"
    "length summary \<le> 1"
    "cp_has_llm c \<and> (\<forall>p. reply p \<noteq> None \<and> reply p \<noteq> Some []) \<longrightarrow> length summary = 1"
proof (cases "generate_compaction_summary reply (slice_to (- cp_keep_recent c) (filter (\<lambda>m. \<not> is_system m) ms)) c")
  case None
  then have "\<not> (cp_has_llm c \<and> (\<forall>p. reply p \<noteq> None \<and> reply p \<noteq> Some []))"
    by (auto simp: generate_compaction_summary_def split: option.splits if_splits)
  with None assms that [of "[]"] show ?thesis
    by (simp add: maybe_compact_def compacts_def Let_def)
next
  case (Some t)
  with assms that [of "[t]"] show ?thesis
    by (simp add: maybe_compact_def compacts_def Let_def)
qed

lemma maybe_compact_config [simp]:
  "cp_max_tokens (snd (maybe_compact py_str reply ms c)) = cp_max_tokens c"
  "cp_reserve_ratio (snd (maybe_compact py_str reply ms c)) = cp_reserve_ratio c"
  "cp_keep_recent (snd (maybe_compact py_str reply ms c)) = cp_keep_recent c"
  "cp_has_llm (snd (maybe_compact py_str reply ms c)) = cp_has_llm c"
  by (auto simp: maybe_compact_def Let_def split: option.split)

lemma needs_compaction_config:
  "needs_compaction py_str ms (snd (maybe_compact py_str reply ns c)) = needs_compaction py_str ms c"
  "compacts py_str ms (snd (maybe_compact py_str reply ns c)) = compacts py_str ms c"
  by (simp_all add: needs_compaction_def compacts_def)

lemma needs_compaction_mono:
  "needs_compaction py_str ms c \<Longrightarrow>
   estimate_messages_tokens py_str ms \<le> estimate_messages_tokens py_str ns \<Longrightarrow> needs_compaction py_str ns c"
  by (auto simp: needs_compaction_def)

lemma compacts_append: "compacts py_str ms c \<Longrightarrow> compacts py_str (ms @ ns) c"
  by (auto simp: compacts_def elim: needs_compaction_mono)

lemma last_n_drop: "0 < n \<Longrightarrow> \<exists>xs. ms = xs @ last_n n ms"
  using slice_split by metis

section \<open>Properties\<close>

text \<open>
  C34: What a compaction keeps: either nothing changes, or every system message is kept, followed by at
  most one summary, and of the other messages exactly the last \<open>keep_recent\<close> in their order, at
  least one being dropped; so the conversation never gets longer. With an LLM that answers there is
  exactly one summary.
\<close>

theorem compaction_keeps_recent:
  assumes "0 < cp_keep_recent c"
  shows "maybe_compact py_str reply ms c = (ms, c) \<or>
    (\<exists>summary. let (ms', c') = maybe_compact py_str reply ms c;
                   keep = last_n (cp_keep_recent c) (filter (\<lambda>m. \<not> is_system m) ms)
     in ms' = filter is_system ms @ map summary_chat_message summary @ keep \<and>
        length summary \<le> 1 \<and> int (length keep) = cp_keep_recent c \<and>
        length keep < length (filter (\<lambda>m. \<not> is_system m) ms) \<and> length ms' \<le> length ms \<and>
        cp_count c' = cp_count c + 1 \<and>
        (cp_has_llm c \<and> (\<forall>p. reply p \<noteq> None \<and> reply p \<noteq> Some []) \<longrightarrow> length summary = 1))"
proof (cases "compacts py_str ms c")
  case True
  let ?keep = "last_n (cp_keep_recent c) (filter (\<lambda>m. \<not> is_system m) ms)"
  have k: "int (length ?keep) = cp_keep_recent c"
    using True assms unfolding length_last_n [OF assms] compacts_def by linarith
  obtain summary where
    s: "fst (maybe_compact py_str reply ms c) = filter is_system ms @ map summary_chat_message summary @ ?keep"
      "cp_count (snd (maybe_compact py_str reply ms c)) = cp_count c + 1" "length summary \<le> 1"
      "cp_has_llm c \<and> (\<forall>p. reply p \<noteq> None \<and> reply p \<noteq> Some []) \<longrightarrow> length summary = 1"
    by (rule maybe_compact_done [OF True, of reply]) (erule (3) that)
  have "length ?keep < length (filter (\<lambda>m. \<not> is_system m) ms)" using True k by (simp add: compacts_def)
  moreover have "length ms = length (filter is_system ms) + length (filter (\<lambda>m. \<not> is_system m) ms)"
    by (rule count_filter_partition)
  ultimately show ?thesis using s k by (intro disjI2 exI [of _ summary]) (auto simp: case_prod_unfold Let_def)
qed (simp add: maybe_compact_idle)

definition demo_chat :: "string \<Rightarrow> string \<Rightarrow> chat_message" where
  "demo_chat role content = [(''role'', JStr role), (''content'', JStr content)]"

definition demo_compactor :: compactor where
  "demo_compactor = new_compactor 10 (1/2) 1 True (\<lambda>previous conversation. previous @ conversation)"

definition demo_conversation :: "chat_message list" where
  "demo_conversation = [demo_chat ''system'' ''s'', demo_chat ''user'' ''a'', demo_chat ''assistant'' ''b'']"

lemma demo_compacts: "compacts (\<lambda>_. []) demo_conversation demo_compactor"
  by code_simp

theorem compaction_keeps_recent_witness:
  "\<exists>summary. fst (maybe_compact (\<lambda>_. []) (\<lambda>_. Some ''x'') demo_conversation demo_compactor) =
     [demo_chat ''system'' ''s''] @ map summary_chat_message summary @ [demo_chat ''assistant'' ''b''] \<and>
   length summary = 1"
proof -
  have "cp_count (snd (maybe_compact (\<lambda>_. []) (\<lambda>_. Some ''x'') demo_conversation demo_compactor)) = 1"
      "cp_count demo_compactor = 0"
    by code_simp+
  moreover have "last_n (cp_keep_recent demo_compactor) (filter (\<lambda>m. \<not> is_system m) demo_conversation) =
      [demo_chat ''assistant'' ''b'']" "filter is_system demo_conversation = [demo_chat ''system'' ''s'']"
    "0 < cp_keep_recent demo_compactor" "cp_has_llm demo_compactor" by code_simp+
  ultimately show ?thesis
    using compaction_keeps_recent [of demo_compactor "\<lambda>_. []" "\<lambda>_. Some ''x''" demo_conversation]
    by (auto simp: Let_def case_prod_unfold)
qed

text \<open>
  Used as documented (the result replaces the conversation), summaries pile up: with an LLM that
  always answers, every compaction adds a system message and none ever goes away, although each
  summary already contains the previous one; and once the system messages alone reach the
  threshold, the result of every compaction needs compaction again.
\<close>

theorem compaction_accumulates:
  assumes "cp_has_llm c" and "\<forall>turn \<in> set turns. \<forall>p. fst turn p \<noteq> None \<and> fst turn p \<noteq> Some []"
    and "\<forall>turn \<in> set turns. filter is_system (snd turn) = []"
  shows "(let (ms', c') = fold (replace_turn py_str) turns (ms, c) in
    length (filter is_system ms') + cp_count c = length (filter is_system ms) + cp_count c' \<and>
    (\<exists>added. filter is_system ms' = filter is_system ms @ added) \<and>
    (needs_compaction py_str (filter is_system ms) c \<longrightarrow> needs_compaction py_str ms' c'))"
  using assms
proof (induction turns arbitrary: ms c)
  case Nil
  then show ?case by (auto elim: needs_compaction_mono simp: tokens_partition)
next
  case (Cons turn turns)
  let ?ms = "fst (replace_turn py_str turn (ms, c))" and ?c = "snd (replace_turn py_str turn (ms, c))"
  have sys: "filter is_system (ms @ snd turn) = filter is_system ms" using Cons.prems(3) by simp
  have r: "\<forall>p. fst turn p \<noteq> None \<and> fst turn p \<noteq> Some []" using Cons.prems(2) by simp
  have step: "length (filter is_system ?ms) + cp_count c = length (filter is_system ms) + cp_count ?c \<and>
      (\<exists>added. filter is_system ?ms = filter is_system ms @ added)"
  proof (cases "compacts py_str (ms @ snd turn) c")
    case True
    obtain summary where
      d: "fst (maybe_compact py_str (fst turn) (ms @ snd turn) c) =
          filter is_system (ms @ snd turn) @ map summary_chat_message summary @
          last_n (cp_keep_recent c) (filter (\<lambda>m. \<not> is_system m) (ms @ snd turn))"
        "cp_count (snd (maybe_compact py_str (fst turn) (ms @ snd turn) c)) = cp_count c + 1"
        "length summary \<le> 1"
        "cp_has_llm c \<and> (\<forall>p. fst turn p \<noteq> None \<and> fst turn p \<noteq> Some []) \<longrightarrow> length summary = 1"
      by (rule maybe_compact_done [OF True, of "fst turn"]) (erule (3) that)
    have "filter is_system ?ms = filter is_system ms @ map summary_chat_message summary"
      unfolding replace_turn_def fst_conv snd_conv d(1) sys filter_append [of is_system] filter_last_n(2)
      using Cons.prems(3) by (simp add: filter_map comp_def)
    with d(2,4) Cons.prems(1) r show ?thesis by (simp add: replace_turn_def)
  qed (use sys in \<open>simp add: replace_turn_def maybe_compact_idle\<close>)
  then obtain added where a: "filter is_system ?ms = filter is_system ms @ added" by blast
  have nc: "needs_compaction py_str ns ?c = needs_compaction py_str ns c" for ns
    by (simp add: replace_turn_def needs_compaction_config)
  have "cp_has_llm ?c" using Cons.prems(1) by (simp add: replace_turn_def)
  moreover have "needs_compaction py_str (filter is_system ms) c \<Longrightarrow> needs_compaction py_str (filter is_system ?ms) c"
    unfolding a by (erule needs_compaction_mono) simp
  ultimately show ?case using Cons.IH [of ?c ?ms] Cons.prems(2,3) step a nc
    by (auto simp: case_prod_unfold Let_def)
qed

theorem compaction_accumulates_witness:
  "(let (ms', c') = fold (replace_turn (\<lambda>_. [])) [(\<lambda>_. Some ''x'', []), (\<lambda>_. Some ''y'', [demo_chat ''user'' ''c''])]
      (demo_conversation, demo_compactor) in
    length (filter is_system ms') = 1 + cp_count c' \<and> cp_count c' = 2)"
proof -
  let ?turns = "[(\<lambda>_. Some ''x'', []), (\<lambda>_. Some ''y'', [demo_chat ''user'' ''c''])] :: (llm_reply \<times> chat_message list) list"
  have c: "cp_count (snd (fold (replace_turn (\<lambda>_. [])) ?turns (demo_conversation, demo_compactor))) = 2"
    by code_simp
  have "cp_has_llm demo_compactor" "\<forall>turn \<in> set ?turns. filter is_system (snd turn) = []"
    "cp_count demo_compactor = 0" "length (filter is_system demo_conversation) = 1" by code_simp+
  with compaction_accumulates [of demo_compactor ?turns "\<lambda>_. []" demo_conversation] c
  show ?thesis by (simp add: case_prod_unfold Let_def)
qed

text \<open>
  The agent compacts again in every turn: \<open>_observe\<close> compacts a copy and never the conversation
  itself, so from the first turn in which it must be compacted on, each later turn makes another
  summary of everything but the last messages, merged into a summary that already contains it.
\<close>

theorem agent_recompacts_every_turn:
  assumes "compacts py_str ms c"
  shows "(let (ms', c') = fold (observe_turn py_str) turns (ms, c) in
    ms' = ms @ concat (map snd turns) \<and> cp_count c' = cp_count c + length turns)"
  using assms
proof (induction turns arbitrary: ms c)
  case (Cons turn turns)
  let ?c = "snd (maybe_compact py_str (fst turn) ms c)"
  have "compacts py_str (ms @ snd turn) ?c"
    using compacts_append [OF Cons.prems] by (simp add: needs_compaction_config)
  from Cons.IH [OF this] maybe_compact_done [OF Cons.prems, of "fst turn"] show ?case
    by (auto simp: observe_turn_def case_prod_unfold Let_def)
qed simp

theorem agent_recompacts_every_turn_witness:
  "cp_count (snd (fold (observe_turn (\<lambda>_. [])) (replicate 3 (\<lambda>_. None, [demo_chat ''user'' ''c'']))
     (demo_conversation, demo_compactor))) = 3"
  using agent_recompacts_every_turn [OF demo_compacts, of "replicate 3 (\<lambda>_. None, [demo_chat ''user'' ''c''])"]
  by (simp add: case_prod_unfold Let_def demo_compactor_def new_compactor_def)

end
