(* ===== verification/Sessions.thy ===== *)
theory Sessions
  imports Compaction
begin

text \<open>
  \<open>youmi/memory/backends\<close> and the session part of \<open>youmi/memory/memory.py\<close>: message records, the
  two persistence back ends (tables of SQLite and JSON files per agent) and the manager that saves
  and restores sessions. What SQL promises of the statements used is written out: a primary key,
  \<open>ON CONFLICT DO UPDATE\<close>, rows of a session in the order of their ids; a transaction that fails
  changes nothing. Writing and reading a JSON text gives back the value. The locale
  \<open>session_store\<close> is the abstract class \<open>PersistenceBackend\<close>, specified by a map from session ids
  to sessions; both back ends refine it.
\<close>

section \<open>Message records: \<open>backends/base.py\<close>\<close>

record message_record =
  mr_role :: string
  mr_content :: string
  mr_raw_data :: "(string, json) dict"

definition extra_keys :: "string list" where
  "extra_keys = [''tool_calls'', ''tool_call_id'', ''name'', ''function_call'']"

text \<open>The entries of \<open>d\<close> under the extra keys, in the order in which the code copies them.\<close>

definition extras :: "(string, json) dict \<Rightarrow> (string, json) dict" where
  "extras d = concat (map (\<lambda>k. case dget d k of None \<Rightarrow> [] | Some v \<Rightarrow> [(k, v)]) extra_keys)"

definition to_openai_message :: "message_record \<Rightarrow> chat_message" where
  "to_openai_message r =
     [(''role'', JStr (mr_role r)), (''content'', JStr (mr_content r))] @ extras (mr_raw_data r)"

text \<open>\<open>None\<close>: the record is rejected by its types (the role or the content is not a string).\<close>

definition from_openai_message :: "chat_message \<Rightarrow> message_record option" where
  "from_openai_message m =
     (let role = (case dget m ''role'' of None \<Rightarrow> Some ''user'' | Some (JStr r) \<Rightarrow> Some r | Some _ \<Rightarrow> None);
          content = (case dget m ''content'' of None \<Rightarrow> Some []
                     | Some v \<Rightarrow> if falsy v then Some [] else (case v of JStr s \<Rightarrow> Some s | _ \<Rightarrow> None))
      in case (role, content) of
           (Some r, Some c) \<Rightarrow> Some \<lparr>mr_role = r, mr_content = c, mr_raw_data = extras m\<rparr>
         | _ \<Rightarrow> None)"

record session_record =
  sn_session_id :: string
  sn_agent_id :: string
  sn_tenant :: string
  sn_created_at :: rat
  sn_updated_at :: rat
  sn_metadata :: "(string, json) dict"

text \<open>\<open>PersistenceBackend\<close>: the operations a back end offers.\<close>

record 's persistence =
  ps_save :: "string \<Rightarrow> string \<Rightarrow> chat_message list \<Rightarrow> (string, json) dict \<Rightarrow> string \<Rightarrow> rat \<Rightarrow> 's \<Rightarrow> 's option"
  ps_load :: "string \<Rightarrow> 's \<Rightarrow> chat_message list"
  ps_list :: "string \<Rightarrow> string option \<Rightarrow> 's \<Rightarrow> session_record list"
  ps_latest :: "string \<Rightarrow> string option \<Rightarrow> 's \<Rightarrow> session_record option"
  ps_delete :: "string \<Rightarrow> 's \<Rightarrow> 's"

definition head_of :: "'a list \<Rightarrow> 'a option" where
  "head_of xs = (case xs of [] \<Rightarrow> None | x # _ \<Rightarrow> Some x)"

section \<open>The SQLite back end: \<open>backends/sqlite_backend.py\<close>\<close>

record sql_store =
  sq_sessions :: "(string, session_record) dict"
  sq_messages :: "(string \<times> message_record) list"

definition new_sql_store :: sql_store where
  "new_sql_store = \<lparr>sq_sessions = [], sq_messages = []\<rparr>"

definition sql_save :: "string \<Rightarrow> string \<Rightarrow> chat_message list \<Rightarrow> (string, json) dict \<Rightarrow> string \<Rightarrow> rat \<Rightarrow>
    sql_store \<Rightarrow> sql_store option" where
  "sql_save sid aid messages metadata tenant now s =
     (let row = (case dget (sq_sessions s) sid of
                   None \<Rightarrow> \<lparr>sn_session_id = sid, sn_agent_id = aid, sn_tenant = tenant, sn_created_at = now,
                            sn_updated_at = now, sn_metadata = metadata\<rparr>
                 | Some old \<Rightarrow> old\<lparr>sn_updated_at := now, sn_metadata := metadata\<rparr>)
      in map_option (\<lambda>records.
           s\<lparr>sq_sessions := dset sid row (sq_sessions s),
             sq_messages := filter (\<lambda>(i, _). i \<noteq> sid) (sq_messages s) @ map (Pair sid) records\<rparr>)
         (those (map from_openai_message messages)))"

definition sql_load :: "string \<Rightarrow> sql_store \<Rightarrow> chat_message list" where
  "sql_load sid s = map (\<lambda>(_, r). to_openai_message r) (filter (\<lambda>(i, _). i = sid) (sq_messages s))"

definition or_default_session :: "session_record \<Rightarrow> session_record" where
  "or_default_session r = (if sn_tenant r = [] then r\<lparr>sn_tenant := ''default''\<rparr> else r)"

definition sql_list :: "string \<Rightarrow> string option \<Rightarrow> sql_store \<Rightarrow> session_record list" where
  "sql_list aid tenant s =
     map or_default_session (sort_desc sn_updated_at
       (filter (\<lambda>r. sn_agent_id r = aid \<and> (case tenant of None \<Rightarrow> True | Some t \<Rightarrow> sn_tenant r = t))
         (dvals (sq_sessions s))))"

definition sql_delete :: "string \<Rightarrow> sql_store \<Rightarrow> sql_store" where
  "sql_delete sid s =
     s\<lparr>sq_messages := filter (\<lambda>(i, _). i \<noteq> sid) (sq_messages s), sq_sessions := ddel sid (sq_sessions s)\<rparr>"

definition sql_backend :: "sql_store persistence" where
  "sql_backend = \<lparr>ps_save = sql_save, ps_load = sql_load, ps_list = sql_list,
     ps_latest = (\<lambda>aid tenant s. head_of (sql_list aid tenant s)), ps_delete = sql_delete\<rparr>"

section \<open>The file back end: \<open>backends/file_backend.py\<close>\<close>

record file_session = session_record +
  fs_messages :: "message_record list"

text \<open>The file of each agent directory, in the order in which the directories are listed.\<close>

type_synonym file_store = "(string, (string, file_session) dict) dict"

definition agent_data :: "string \<Rightarrow> file_store \<Rightarrow> (string, file_session) dict" where
  "agent_data aid s = (case dget s aid of None \<Rightarrow> [] | Some d \<Rightarrow> d)"

definition file_save :: "string \<Rightarrow> string \<Rightarrow> chat_message list \<Rightarrow> (string, json) dict \<Rightarrow> string \<Rightarrow> rat \<Rightarrow>
    file_store \<Rightarrow> file_store option" where
  "file_save sid aid messages metadata tenant now s =
     (let data = agent_data aid s;
          existing = dget data sid;
          created_at = (case existing of None \<Rightarrow> now | Some e \<Rightarrow> sn_created_at e);
          tenant_value = (case existing of None \<Rightarrow> tenant | Some e \<Rightarrow> sn_tenant e)
      in map_option (\<lambda>records.
           dset aid (dset sid \<lparr>sn_session_id = sid, sn_agent_id = aid, sn_tenant = tenant_value,
             sn_created_at = created_at, sn_updated_at = now, sn_metadata = metadata, fs_messages = records\<rparr> data) s)
         (those (map from_openai_message messages)))"

fun find_session :: "string \<Rightarrow> file_store \<Rightarrow> file_session option" where
  "find_session sid [] = None"
| "find_session sid ((_, data) # rest) =
     (case dget data sid of None \<Rightarrow> find_session sid rest | Some e \<Rightarrow> Some e)"

definition file_load :: "string \<Rightarrow> file_store \<Rightarrow> chat_message list" where
  "file_load sid s =
     (case find_session sid s of None \<Rightarrow> [] | Some e \<Rightarrow> map to_openai_message (fs_messages e))"

definition file_list :: "string \<Rightarrow> string option \<Rightarrow> file_store \<Rightarrow> session_record list" where
  "file_list aid tenant s =
     sort_desc sn_updated_at (map session_record.truncate
       (filter (\<lambda>e. case tenant of None \<Rightarrow> True | Some t \<Rightarrow> sn_tenant e = t) (dvals (agent_data aid s))))"

fun file_delete :: "string \<Rightarrow> file_store \<Rightarrow> file_store" where
  "file_delete sid [] = []"
| "file_delete sid ((aid, data) # rest) =
     (if dget data sid \<noteq> None then (aid, ddel sid data) # rest else (aid, data) # file_delete sid rest)"

definition file_backend :: "file_store persistence" where
  "file_backend = \<lparr>ps_save = file_save, ps_load = file_load, ps_list = file_list,
     ps_latest = (\<lambda>aid tenant s. head_of (file_list aid tenant s)), ps_delete = file_delete\<rparr>"

section \<open>The manager: \<open>MemoryManager\<close> of \<open>memory/memory.py\<close>\<close>

record 's manager =
  mg_agent_id :: string
  mg_tenant :: string
  mg_persistence :: "'s persistence option"
  mg_session_id :: string

definition new_manager :: "string \<Rightarrow> string \<Rightarrow> 's persistence option \<Rightarrow> 's manager" where
  "new_manager aid tenant ps =
     \<lparr>mg_agent_id = aid, mg_tenant = (if tenant = [] then ''default'' else tenant), mg_persistence = ps,
      mg_session_id = []\<rparr>"

text \<open>\<open>fresh\<close> is the random id of a new session.\<close>

definition start_session :: "string \<Rightarrow> string \<Rightarrow> 's manager \<Rightarrow> 's manager" where
  "start_session fresh sid mg = mg\<lparr>mg_session_id := (if sid \<noteq> [] then sid else fresh)\<rparr>"

definition adopt :: "string \<Rightarrow> chat_message list \<Rightarrow> 's manager \<Rightarrow> chat_message list option \<times> 's manager" where
  "adopt sid messages mg = (if messages \<noteq> [] then (Some messages, mg\<lparr>mg_session_id := sid\<rparr>) else (None, mg))"

definition restore_session :: "string \<Rightarrow> 's \<Rightarrow> 's manager \<Rightarrow> chat_message list option \<times> 's manager" where
  "restore_session sid s mg =
     (case mg_persistence mg of
        None \<Rightarrow> (None, mg)
      | Some ps \<Rightarrow>
          if sid \<noteq> [] then adopt sid (ps_load ps sid s) mg
          else (case ps_latest ps (mg_agent_id mg) (Some (mg_tenant mg)) s of
                  None \<Rightarrow> (None, mg)
                | Some r \<Rightarrow> adopt (sn_session_id r) (ps_load ps (sn_session_id r) s) mg))"

text \<open>\<open>None\<close>: the back end raised.\<close>

definition save_session :: "string \<Rightarrow> rat \<Rightarrow> chat_message list \<Rightarrow> string \<Rightarrow> 's \<times> 's manager \<Rightarrow> ('s \<times> 's manager) option" where
  "save_session fresh now messages sid st =
     (case st of (s, mg) \<Rightarrow>
        (case mg_persistence mg of
           None \<Rightarrow> Some (s, mg)
         | Some ps \<Rightarrow>
             (let sid1 = (if sid \<noteq> [] then sid else mg_session_id mg);
                  mg = (if sid1 = [] then start_session fresh [] mg else mg);
                  sid2 = (if sid1 = [] then mg_session_id mg else sid1)
              in map_option (\<lambda>s. (s, mg)) (ps_save ps sid2 (mg_agent_id mg) messages [] (mg_tenant mg) now s))))"

section \<open>The specification both back ends refine\<close>

definition saved_session :: "file_session option \<Rightarrow> string \<Rightarrow> string \<Rightarrow> message_record list \<Rightarrow>
    (string, json) dict \<Rightarrow> string \<Rightarrow> rat \<Rightarrow> file_session" where
  "saved_session old sid aid records metadata tenant now =
     \<lparr>sn_session_id = sid, sn_agent_id = aid,
      sn_tenant = (case old of None \<Rightarrow> tenant | Some e \<Rightarrow> sn_tenant e),
      sn_created_at = (case old of None \<Rightarrow> now | Some e \<Rightarrow> sn_created_at e),
      sn_updated_at = now, sn_metadata = metadata, fs_messages = records\<rparr>"

definition owned :: "file_session option \<Rightarrow> string \<Rightarrow> bool" where
  "owned old aid \<longleftrightarrow> (case old of None \<Rightarrow> True | Some e \<Rightarrow> sn_agent_id e = aid)"

definition listed :: "(string \<Rightarrow> file_session option) \<Rightarrow> string \<Rightarrow> string option \<Rightarrow> session_record set" where
  "listed m aid tenant = {session_record.truncate e | e sid. m sid = Some e \<and> sn_agent_id e = aid \<and>
     (case tenant of None \<Rightarrow> True | Some t \<Rightarrow> sn_tenant e = t)}"

locale session_store =
  fixes ps :: "'s persistence" and abs_of :: "'s \<Rightarrow> string \<Rightarrow> file_session option" and inv :: "'s \<Rightarrow> bool"
  assumes save_None: "those (map from_openai_message ms) = None \<Longrightarrow> ps_save ps sid aid ms md tn now s = None"
    and save_Some: "inv s \<Longrightarrow> owned (abs_of s sid) aid \<Longrightarrow> tn \<noteq> [] \<Longrightarrow>
      those (map from_openai_message ms) = Some records \<Longrightarrow>
      \<exists>s'. ps_save ps sid aid ms md tn now s = Some s' \<and> inv s' \<and>
        abs_of s' = (abs_of s)(sid \<mapsto> saved_session (abs_of s sid) sid aid records md tn now)"
    and load_abs: "inv s \<Longrightarrow> ps_load ps sid s =
      (case abs_of s sid of None \<Rightarrow> [] | Some e \<Rightarrow> map to_openai_message (fs_messages e))"
    and list_abs: "inv s \<Longrightarrow> set (ps_list ps aid tenant s) = listed (abs_of s) aid tenant"
    and list_sorted: "inv s \<Longrightarrow> sorted_wrt (\<lambda>a b. sn_updated_at b \<le> sn_updated_at a) (ps_list ps aid tenant s)"
    and latest_list: "ps_latest ps aid tenant s = head_of (ps_list ps aid tenant s)"
    and delete_abs: "inv s \<Longrightarrow> inv (ps_delete ps sid s) \<and> abs_of (ps_delete ps sid s) = (abs_of s)(sid := None)"
    and abs_key: "inv s \<Longrightarrow> abs_of s sid = Some e \<Longrightarrow> sn_session_id e = sid \<and> sn_tenant e \<noteq> []"

datatype session_op =
  Save string string "chat_message list" "(string, json) dict" string rat
| Delete string

text \<open>The operations on the specification; a save that raises changes nothing.\<close>

fun spec_step :: "session_op \<Rightarrow> (string \<Rightarrow> file_session option) \<Rightarrow> string \<Rightarrow> file_session option" where
  "spec_step (Save sid aid ms md tn now) m =
     (case those (map from_openai_message ms) of
        None \<Rightarrow> m | Some records \<Rightarrow> m(sid \<mapsto> saved_session (m sid) sid aid records md tn now))"
| "spec_step (Delete sid) m = m(sid := None)"

fun admissible :: "session_op list \<Rightarrow> (string \<Rightarrow> file_session option) \<Rightarrow> bool" where
  "admissible [] m \<longleftrightarrow> True"
| "admissible (Save sid aid ms md tn now # ops) m \<longleftrightarrow>
     owned (m sid) aid \<and> tn \<noteq> [] \<and> admissible ops (spec_step (Save sid aid ms md tn now) m)"
| "admissible (Delete sid # ops) m \<longleftrightarrow> admissible ops (spec_step (Delete sid) m)"

text \<open>The same operations on a back end.\<close>

fun store_step :: "'s persistence \<Rightarrow> session_op \<Rightarrow> 's \<Rightarrow> 's" where
  "store_step ps (Save sid aid ms md tn now) s =
     (case ps_save ps sid aid ms md tn now s of None \<Rightarrow> s | Some s' \<Rightarrow> s')"
| "store_step ps (Delete sid) s = ps_delete ps sid s"

context session_store
begin

lemma step_refines:
  assumes "inv s" and "admissible (x # ops) (abs_of s)"
  shows "inv (store_step ps x s) \<and> abs_of (store_step ps x s) = spec_step x (abs_of s) \<and>
    admissible ops (abs_of (store_step ps x s))"
proof (cases x)
  case (Save sid aid ms md tn now)
  then have o: "owned (abs_of s sid) aid" "tn \<noteq> []" "admissible ops (spec_step x (abs_of s))"
    using assms(2) by simp_all
  show ?thesis
  proof (cases "those (map from_openai_message ms)")
    case None
    with Save o(3) save_None [OF None] assms(1) show ?thesis by simp
  next
    case (Some records)
    from save_Some [OF assms(1) o(1,2) Some, of md now] o(3) Save Some show ?thesis by auto
  qed
next
  case (Delete sid)
  with assms delete_abs [OF assms(1), of sid] show ?thesis by simp
qed

lemma run_refines:
  assumes "inv s" and "admissible ops (abs_of s)"
  shows "inv (fold (store_step ps) ops s) \<and> abs_of (fold (store_step ps) ops s) = fold spec_step ops (abs_of s)"
  using assms
proof (induction ops arbitrary: s)
  case (Cons x ops)
  from step_refines [OF Cons.prems] have a: "inv (store_step ps x s)"
    and b: "abs_of (store_step ps x s) = spec_step x (abs_of s)"
    and c: "admissible ops (abs_of (store_step ps x s))" by blast+
  from Cons.IH [OF a c] b show ?case by simp
qed simp

lemma load_run:
  assumes "inv s" and "admissible ops (abs_of s)"
  shows "ps_load ps sid (fold (store_step ps) ops s) =
    (case fold spec_step ops (abs_of s) sid of None \<Rightarrow> [] | Some e \<Rightarrow> map to_openai_message (fs_messages e))"
  using run_refines [OF assms] load_abs by simp

lemma list_run:
  assumes "inv s" and "admissible ops (abs_of s)"
  shows "set (ps_list ps aid tenant (fold (store_step ps) ops s)) = listed (fold spec_step ops (abs_of s)) aid tenant"
  using run_refines [OF assms] list_abs by simp

lemma load_saved:
  assumes "inv s" and "owned (abs_of s sid) aid" and "tn \<noteq> []"
    and "those (map from_openai_message ms) = Some records"
  shows "\<exists>s'. ps_save ps sid aid ms md tn now s = Some s' \<and> inv s' \<and>
    ps_load ps sid s' = map to_openai_message records \<and>
    (\<forall>other. other \<noteq> sid \<longrightarrow> ps_load ps other s' = ps_load ps other s)"
  using save_Some [OF assms, of md now] load_abs assms(1) by (auto simp: saved_session_def)

text \<open>The latest session of an agent and a tenant belongs to both and no other of theirs is newer.\<close>

lemma latest_correct:
  assumes "inv s" and "ps_latest ps aid (Some tn) s = Some r"
  shows "(\<exists>e. abs_of s (sn_session_id r) = Some e \<and> r = session_record.truncate e) \<and>
    sn_agent_id r = aid \<and> sn_tenant r = tn \<and>
    (\<forall>r' \<in> listed (abs_of s) aid (Some tn). sn_updated_at r' \<le> sn_updated_at r)"
proof -
  from assms(2) obtain rest where l: "ps_list ps aid (Some tn) s = r # rest"
    by (auto simp: latest_list head_of_def split: list.splits)
  then have m: "listed (abs_of s) aid (Some tn) = set (r # rest)"
    using list_abs [OF assms(1), of aid "Some tn"] by simp
  then have "r \<in> listed (abs_of s) aid (Some tn)" by simp
  then obtain e sid where e: "r = session_record.truncate e" "abs_of s sid = Some e" "sn_agent_id e = aid"
      "sn_tenant e = tn" by (auto simp: listed_def)
  moreover from e abs_key [OF assms(1) e(2)] have "sn_session_id r = sid" "sn_agent_id r = aid" "sn_tenant r = tn"
    by (simp_all add: session_record.truncate_def)
  moreover have "\<forall>r' \<in> set (r # rest). sn_updated_at r' \<le> sn_updated_at r"
    using list_sorted [OF assms(1), of aid "Some tn"] l by auto
  ultimately show ?thesis unfolding m by blast
qed

end

section \<open>SQLite refines it\<close>

definition sql_inv :: "sql_store \<Rightarrow> bool" where
  "sql_inv s \<longleftrightarrow> wf_dict (sq_sessions s) \<and>
     (\<forall>sid r. dget (sq_sessions s) sid = Some r \<longrightarrow> sn_session_id r = sid \<and> sn_tenant r \<noteq> []) \<and>
     fst ` set (sq_messages s) \<subseteq> set (dkeys (sq_sessions s))"

definition messages_of :: "string \<Rightarrow> sql_store \<Rightarrow> message_record list" where
  "messages_of sid s = map snd (filter (\<lambda>(i, _). i = sid) (sq_messages s))"

definition with_messages :: "session_record \<Rightarrow> message_record list \<Rightarrow> file_session" where
  "with_messages r ms = session_record.extend r (file_session.fields ms)"

lemma with_messages_fields [simp]:
  "sn_session_id (with_messages r ms) = sn_session_id r" "sn_agent_id (with_messages r ms) = sn_agent_id r"
  "sn_tenant (with_messages r ms) = sn_tenant r" "sn_created_at (with_messages r ms) = sn_created_at r"
  "sn_updated_at (with_messages r ms) = sn_updated_at r" "sn_metadata (with_messages r ms) = sn_metadata r"
  "fs_messages (with_messages r ms) = ms" "session_record.truncate (with_messages r ms) = r"
  by (simp_all add: with_messages_def session_record.extend_def file_session.fields_def session_record.truncate_def)

definition sql_abs :: "sql_store \<Rightarrow> string \<Rightarrow> file_session option" where
  "sql_abs s sid = map_option (\<lambda>r. with_messages r (messages_of sid s)) (dget (sq_sessions s) sid)"

lemma filter_pairs: "filter (\<lambda>(i, _). i = sid') (map (Pair sid) xs) = (if sid' = sid then map (Pair sid) xs else [])"
  "filter (\<lambda>(i, _). i \<noteq> sid) (map (Pair sid) xs) = []"
  by (induction xs) auto

lemma messages_of_saved:
  "messages_of sid' (s\<lparr>sq_sessions := d, sq_messages := filter (\<lambda>(i, _). i \<noteq> sid) (sq_messages s) @ map (Pair sid) records\<rparr>) =
     (if sid' = sid then records else messages_of sid' s)"
proof -
  have "filter (\<lambda>(i, _). i = sid') (filter (\<lambda>(i, _). i \<noteq> sid) (sq_messages s)) =
      (if sid' = sid then [] else filter (\<lambda>(i, _). i = sid') (sq_messages s))"
    by (induction "sq_messages s") (auto simp: filter_empty_conv intro: filter_cong)
  then show ?thesis by (simp add: messages_of_def filter_pairs comp_def)
qed

lemma sql_inv_parts:
  assumes "sql_inv s"
  shows "wf_dict (sq_sessions s)"
    and "dget (sq_sessions s) sid = Some r \<Longrightarrow> sn_session_id r = sid \<and> sn_tenant r \<noteq> []"
    and "fst ` set (sq_messages s) \<subseteq> fst ` set (sq_sessions s)"
  using assms by (auto simp: sql_inv_def)

lemma sql_save_refines:
  assumes inv: "sql_inv s" and own: "owned (sql_abs s sid) aid" and "tn \<noteq> []"
    and recs: "those (map from_openai_message ms) = Some records"
  shows "\<exists>s'. sql_save sid aid ms md tn now s = Some s' \<and> sql_inv s' \<and>
    sql_abs s' = (sql_abs s)(sid \<mapsto> saved_session (sql_abs s sid) sid aid records md tn now)"
proof -
  let ?row = "case dget (sq_sessions s) sid of
      None \<Rightarrow> \<lparr>sn_session_id = sid, sn_agent_id = aid, sn_tenant = tn, sn_created_at = now,
               sn_updated_at = now, sn_metadata = md\<rparr>
    | Some old \<Rightarrow> old\<lparr>sn_updated_at := now, sn_metadata := md\<rparr>"
  let ?s = "s\<lparr>sq_sessions := dset sid ?row (sq_sessions s),
      sq_messages := filter (\<lambda>(i, _). i \<noteq> sid) (sq_messages s) @ map (Pair sid) records\<rparr>"
  note p = sql_inv_parts [OF inv]
  have row: "sn_session_id ?row = sid \<and> sn_tenant ?row \<noteq> [] \<and>
      with_messages ?row records = saved_session (sql_abs s sid) sid aid records md tn now"
  proof (cases "dget (sq_sessions s) sid")
    case None
    with assms(3) show ?thesis
      by (simp add: saved_session_def sql_abs_def with_messages_def session_record.extend_def file_session.fields_def)
  next
    case (Some old)
    with p(2) [OF Some] own show ?thesis
      by (simp add: saved_session_def sql_abs_def with_messages_def session_record.extend_def
          file_session.fields_def owned_def)
  qed
  have "sql_inv ?s"
    using p row by (auto simp: sql_inv_def split: if_splits)
  moreover have "sql_abs ?s = (sql_abs s)(sid \<mapsto> with_messages ?row records)"
    by (rule ext) (simp add: sql_abs_def messages_of_saved)
  ultimately show ?thesis using row recs by (simp add: sql_save_def Let_def)
qed

lemma sql_list_refines:
  assumes "sql_inv s"
  shows "set (sql_list aid tenant s) = listed (sql_abs s) aid tenant" (is "?L = ?R")
proof -
  note p = sql_inv_parts [OF assms]
  have rows: "r \<in> set (dvals (sq_sessions s)) \<longleftrightarrow> (\<exists>sid. dget (sq_sessions s) sid = Some r)" for r
    by (rule dvals_dget [OF p(1)])
  have id: "or_default_session r = r" if "r \<in> set (dvals (sq_sessions s))" for r
    using that rows p(2) by (auto simp: or_default_session_def)
  have "?L = {r \<in> set (dvals (sq_sessions s)). sn_agent_id r = aid \<and>
      (case tenant of None \<Rightarrow> True | Some t \<Rightarrow> sn_tenant r = t)}"
    using id by (force simp: sql_list_def)
  also have "\<dots> = ?R"
  proof (intro set_eqI iffI)
    fix r assume r: "r \<in> {r \<in> set (dvals (sq_sessions s)). sn_agent_id r = aid \<and>
      (case tenant of None \<Rightarrow> True | Some t \<Rightarrow> sn_tenant r = t)}"
    then obtain sid where "dget (sq_sessions s) sid = Some r" using rows by blast
    then have "sql_abs s sid = Some (with_messages r (messages_of sid s))" by (simp add: sql_abs_def)
    with r show "r \<in> ?R" unfolding listed_def
      by (intro CollectI exI [of _ "with_messages r (messages_of sid s)"] exI [of _ sid])
        (simp split: option.split_asm option.split)
  next
    fix r assume "r \<in> ?R"
    then obtain e sid where e: "r = session_record.truncate e" "sql_abs s sid = Some e" "sn_agent_id e = aid"
      "case tenant of None \<Rightarrow> True | Some t \<Rightarrow> sn_tenant e = t" unfolding listed_def by blast
    then obtain r' where "dget (sq_sessions s) sid = Some r'" "e = with_messages r' (messages_of sid s)"
      by (auto simp: sql_abs_def)
    with e rows show "r \<in> {r \<in> set (dvals (sq_sessions s)). sn_agent_id r = aid \<and>
      (case tenant of None \<Rightarrow> True | Some t \<Rightarrow> sn_tenant r = t)}" by (auto split: option.splits)
  qed
  finally show ?thesis .
qed

lemma sorted_or_default:
  "sorted_wrt (\<lambda>a b. sn_updated_at b \<le> sn_updated_at a) (sql_list aid tenant s)"
  unfolding sql_list_def sorted_wrt_map
  by (rule sorted_wrt_mono_rel [OF _ sort_desc_sorted]) (simp add: or_default_session_def)

lemma messages_of_deleted:
  "messages_of sid' (s\<lparr>sq_messages := filter (\<lambda>(i, _). i \<noteq> sid) (sq_messages s), sq_sessions := d\<rparr>) =
     (if sid' = sid then [] else messages_of sid' s)"
  using messages_of_saved [where sid' = sid' and s = s and d = d and sid = sid and records = "[]"] by (simp add: messages_of_def)

lemma messages_of_fresh:
  assumes "sql_inv s" and "dget (sq_sessions s) sid = None"
  shows "messages_of sid s = []"
proof -
  have "sid \<notin> fst ` set (sq_messages s)"
    using sql_inv_parts(3) [OF assms(1)] assms(2) by (auto simp: map_of_eq_None_iff)
  then show ?thesis by (auto simp: messages_of_def filter_empty_conv image_iff)
qed

lemma sql_load_messages: "sql_load sid s = map to_openai_message (messages_of sid s)"
  by (simp add: sql_load_def messages_of_def case_prod_unfold)

interpretation sql: session_store sql_backend sql_abs sql_inv
proof unfold_locales
  show "ps_save sql_backend sid aid ms md tn now s = None" if "those (map from_openai_message ms) = None"
    for ms sid aid md tn now s using that by (simp add: sql_backend_def sql_save_def Let_def)
  show "\<exists>s'. ps_save sql_backend sid aid ms md tn now s = Some s' \<and> sql_inv s' \<and>
      sql_abs s' = (sql_abs s)(sid \<mapsto> saved_session (sql_abs s sid) sid aid records md tn now)"
    if "sql_inv s" "owned (sql_abs s sid) aid" "tn \<noteq> []" "those (map from_openai_message ms) = Some records"
    for s sid aid tn ms records md now
    using sql_save_refines [OF that] by (simp add: sql_backend_def)
  show "ps_load sql_backend sid s =
      (case sql_abs s sid of None \<Rightarrow> [] | Some e \<Rightarrow> map to_openai_message (fs_messages e))" if "sql_inv s" for s sid
    using messages_of_fresh [OF that, of sid]
    by (auto simp: sql_backend_def sql_load_messages sql_abs_def split: option.split)
  show "set (ps_list sql_backend aid tenant s) = listed (sql_abs s) aid tenant" if "sql_inv s" for s aid tenant
    using sql_list_refines [OF that] by (simp add: sql_backend_def)
  show "sorted_wrt (\<lambda>a b. sn_updated_at b \<le> sn_updated_at a) (ps_list sql_backend aid tenant s)" for aid tenant s
    using sorted_or_default by (simp add: sql_backend_def)
  show "ps_latest sql_backend aid tenant s = head_of (ps_list sql_backend aid tenant s)" for aid tenant s
    by (simp add: sql_backend_def)
  show "sql_inv (ps_delete sql_backend sid s) \<and> sql_abs (ps_delete sql_backend sid s) = (sql_abs s)(sid := None)"
    if "sql_inv s" for sid s
  proof
    show "sql_inv (ps_delete sql_backend sid s)"
      using sql_inv_parts [OF that] by (auto simp: sql_backend_def sql_delete_def sql_inv_def split: if_splits)
    show "sql_abs (ps_delete sql_backend sid s) = (sql_abs s)(sid := None)"
      by (rule ext) (simp add: sql_backend_def sql_delete_def sql_abs_def messages_of_deleted)
  qed
  show "sn_session_id e = sid \<and> sn_tenant e \<noteq> []" if "sql_inv s" "sql_abs s sid = Some e" for s sid e
    using sql_inv_parts(2) [OF that(1), of sid] that(2) by (auto simp: sql_abs_def)
qed

section \<open>Files refine it\<close>

definition file_inv :: "file_store \<Rightarrow> bool" where
  "file_inv s \<longleftrightarrow> wf_dict s \<and>
     (\<forall>aid d. dget s aid = Some d \<longrightarrow> wf_dict d \<and>
        (\<forall>sid e. dget d sid = Some e \<longrightarrow> sn_session_id e = sid \<and> sn_agent_id e = aid \<and> sn_tenant e \<noteq> [])) \<and>
     (\<forall>aid d aid' d' sid. dget s aid = Some d \<longrightarrow> dget s aid' = Some d' \<longrightarrow>
        dget d sid \<noteq> None \<longrightarrow> dget d' sid \<noteq> None \<longrightarrow> aid = aid')"

lemma find_session_None: "find_session sid s = None \<longleftrightarrow> (\<forall>(aid, d) \<in> set s. dget d sid = None)"
  by (induction sid s rule: find_session.induct) (auto split: option.splits)

lemma find_session_Some: "find_session sid s = Some e \<Longrightarrow> \<exists>aid d. (aid, d) \<in> set s \<and> dget d sid = Some e"
  by (induction sid s rule: find_session.induct) (auto split: option.splits)

lemma file_inv_parts:
  assumes "file_inv s"
  shows "wf_dict s" and "wf_dict (agent_data aid s)"
    and "dget (agent_data aid s) sid = Some e \<Longrightarrow> sn_session_id e = sid \<and> sn_agent_id e = aid \<and> sn_tenant e \<noteq> []"
  using assms by (auto simp: file_inv_def agent_data_def split: option.splits)

lemma file_inv_unique:
  "file_inv s \<Longrightarrow> dget s aid = Some d \<Longrightarrow> dget s aid' = Some d' \<Longrightarrow>
   dget d sid \<noteq> None \<Longrightarrow> dget d' sid \<noteq> None \<Longrightarrow> aid = aid'"
  unfolding file_inv_def by blast

lemma find_session_iff:
  assumes "file_inv s"
  shows "find_session sid s = Some e \<longleftrightarrow> (\<exists>aid. dget (agent_data aid s) sid = Some e)"
proof
  assume "find_session sid s = Some e"
  then obtain aid d where a: "(aid, d) \<in> set s" "dget d sid = Some e" using find_session_Some by blast
  from a(1) have "dget s aid = Some d" using dget_mem [OF file_inv_parts(1) [OF assms], of aid d] by simp
  with a(2) have "dget (agent_data aid s) sid = Some e"
    by (simp add: agent_data_def)
  then show "\<exists>aid. dget (agent_data aid s) sid = Some e" ..
next
  assume "\<exists>aid. dget (agent_data aid s) sid = Some e"
  then obtain aid d where d: "dget s aid = Some d" "dget d sid = Some e"
    by (auto simp: agent_data_def split: option.splits)
  have "find_session sid s \<noteq> None"
  proof
    assume "find_session sid s = None"
    with map_of_SomeD [OF d(1)] have "dget d sid = None" by (fastforce simp only: find_session_None prod.case)
    with d(2) show False by simp
  qed
  then obtain e' where e': "find_session sid s = Some e'" by auto
  then obtain aid' d' where "dget s aid' = Some d'" "dget d' sid = Some e'"
    using find_session_Some dget_mem [OF file_inv_parts(1) [OF assms]] by blast
  with d have "aid' = aid" by (intro file_inv_unique [OF assms]) auto
  with d \<open>dget s aid' = Some d'\<close> \<open>dget d' sid = Some e'\<close> e' show "find_session sid s = Some e" by simp
qed

lemma find_session_agent:
  assumes "file_inv s" and "find_session sid s = Some e"
  shows "dget (agent_data (sn_agent_id e) s) sid = Some e"
  using assms find_session_iff [OF assms(1)] file_inv_parts(3) [OF assms(1)] by metis

lemma agent_data_dset: "agent_data aid' (dset aid d s) = (if aid' = aid then d else agent_data aid' s)"
  by (simp add: agent_data_def)

lemma file_invI:
  assumes "wf_dict s" and "\<And>aid. wf_dict (agent_data aid s)"
    and "\<And>aid sid e. dget (agent_data aid s) sid = Some e \<Longrightarrow> sn_session_id e = sid \<and> sn_agent_id e = aid \<and> sn_tenant e \<noteq> []"
    and "\<And>aid aid' sid. dget (agent_data aid s) sid \<noteq> None \<Longrightarrow> dget (agent_data aid' s) sid \<noteq> None \<Longrightarrow> aid = aid'"
  shows "file_inv s"
  unfolding file_inv_def
proof (intro conjI allI impI assms(1))
  fix aid d assume d: "dget s aid = Some d"
  then have a: "agent_data aid s = d" by (simp add: agent_data_def)
  show "wf_dict d" using assms(2) [of aid] a by simp
  fix sid e assume "dget d sid = Some e"
  with assms(3) [of aid sid e] a show "sn_session_id e = sid" "sn_agent_id e = aid" "sn_tenant e \<noteq> []" by simp_all
next
  fix aid d aid' d' sid
  assume "dget s aid = Some d" "dget s aid' = Some d'" "dget d sid \<noteq> None" "dget d' sid \<noteq> None"
  with assms(4) [of aid sid aid'] show "aid = aid'" by (simp add: agent_data_def)
qed

lemma file_inv_unique_data:
  assumes "file_inv s" and "dget (agent_data aid s) sid \<noteq> None" and "dget (agent_data aid' s) sid \<noteq> None"
  shows "aid = aid'"
proof -
  from assms(2,3) obtain d d' where "dget s aid = Some d" "dget s aid' = Some d'"
    by (auto simp: agent_data_def split: option.splits)
  with assms(2,3) show ?thesis by (intro file_inv_unique [OF assms(1), of aid d aid' d' sid]) (simp_all add: agent_data_def)
qed

lemma file_abs_eqI:
  assumes "file_inv s'" and "\<And>sid e. (\<exists>aid. dget (agent_data aid s') sid = Some e) \<longleftrightarrow> m sid = Some e"
  shows "(\<lambda>sid. find_session sid s') = m"
proof
  fix sid
  have "find_session sid s' = Some e \<longleftrightarrow> m sid = Some e" for e
    using find_session_iff [OF assms(1)] assms(2) by simp
  then show "find_session sid s' = m sid" by (metis option.exhaust)
qed

lemma file_save_refines:
  assumes inv: "file_inv s" and own: "owned (find_session sid s) aid" and tn: "tn \<noteq> []"
    and recs: "those (map from_openai_message ms) = Some records"
  shows "\<exists>s'. file_save sid aid ms md tn now s = Some s' \<and> file_inv s' \<and>
    (\<lambda>i. find_session i s') = (\<lambda>i. find_session i s)(sid \<mapsto> saved_session (find_session sid s) sid aid records md tn now)"
proof -
  let ?data = "agent_data aid s"
  let ?e = "saved_session (find_session sid s) sid aid records md tn now"
  let ?s = "dset aid (dset sid ?e ?data) s"
  have mine: "find_session sid s = dget ?data sid"
  proof (cases "find_session sid s")
    case None
    with find_session_iff [OF inv, of sid] show ?thesis by (metis option.exhaust)
  next
    case (Some e)
    with own find_session_agent [OF inv Some] show ?thesis by (simp add: owned_def)
  qed
  have e: "sn_session_id ?e = sid \<and> sn_agent_id ?e = aid \<and> sn_tenant ?e \<noteq> []"
    using tn file_inv_parts(3) [OF inv, of aid sid] by (auto simp: saved_session_def mine split: option.split)
  have data: "dget (agent_data a ?s) i = (if a = aid \<and> i = sid then Some ?e else dget (agent_data a s) i)" for a i
    by (simp add: agent_data_dset)
  have other: "a = aid" if "dget (agent_data a s) sid \<noteq> None" for a
  proof -
    from that obtain e' where "dget (agent_data a s) sid = Some e'" by auto
    then have "find_session sid s = Some e'" using find_session_iff [OF inv] by blast
    then have "dget ?data sid \<noteq> None" unfolding mine by (metis option.distinct(1))
    with that show ?thesis by (rule file_inv_unique_data [OF inv])
  qed
  have inv': "file_inv ?s"
  proof (rule file_invI)
    show "wf_dict ?s" "wf_dict (agent_data a ?s)" for a
      using file_inv_parts(1,2) [OF inv] by (auto simp: agent_data_dset)
    show "sn_session_id e' = i \<and> sn_agent_id e' = a \<and> sn_tenant e' \<noteq> []"
      if "dget (agent_data a ?s) i = Some e'" for a i e'
      using that e file_inv_parts(3) [OF inv, of a i e'] unfolding data by (auto split: if_splits)
    show "a = b" if "dget (agent_data a ?s) i \<noteq> None" "dget (agent_data b ?s) i \<noteq> None" for a b i
    proof (cases "i = sid")
      case True
      with that other show ?thesis unfolding data by metis
    next
      case False
      with that show ?thesis unfolding data by (intro file_inv_unique_data [OF inv, of a i b]) simp_all
    qed
  qed
  have "(\<lambda>i. find_session i ?s) = (\<lambda>i. find_session i s)(sid \<mapsto> ?e)"
  proof (rule file_abs_eqI [OF inv'])
    fix i e'
    show "(\<exists>a. dget (agent_data a ?s) i = Some e') \<longleftrightarrow> ((\<lambda>i. find_session i s)(sid \<mapsto> ?e)) i = Some e'"
      using find_session_iff [OF inv, of i e'] other unfolding data by auto
  qed
  moreover have "file_save sid aid ms md tn now s = Some ?s"
    using recs by (simp add: file_save_def Let_def mine saved_session_def)
  ultimately show ?thesis using inv' by blast
qed

lemma file_delete_None: "find_session sid s = None \<Longrightarrow> file_delete sid s = s"
  by (induction sid s rule: file_delete.induct) (auto split: option.splits)

lemma file_delete_keys: "dkeys (file_delete sid s) = dkeys s"
  by (induction sid s rule: file_delete.induct) auto

lemma file_delete_data:
  assumes "wf_dict s" and "\<And>a. dget (agent_data a s) sid \<noteq> None \<Longrightarrow> a = aid"
  shows "agent_data a (file_delete sid s) = ddel sid (agent_data a s)"
  using assms
proof (induction sid s rule: file_delete.induct)
  case (1 sid)
  then show ?case by (simp add: agent_data_def)
next
  case (2 sid b data rest)
  have wf: "wf_dict rest" "dget rest b = None" using "2.prems"(1) by (auto simp: wf_dict_def map_of_eq_None_iff)
  have gone: "ddel sid d = d" if "dget d sid = None" for d :: "(string, file_session) dict"
    using that by (intro delete_id) (simp add: map_of_eq_None_iff)
  show ?case
  proof (cases "dget data sid = None")
    case True
    have "dget (agent_data a' rest) sid \<noteq> None \<Longrightarrow> a' = aid" for a'
      using "2.prems"(2) [of a'] wf(2) by (cases "a' = b") (simp_all add: agent_data_def)
    from "2.IH" [OF _ wf(1) this] True gone [OF True] show ?thesis by (simp add: agent_data_def)
  next
    case False
    then have b: "b = aid" using "2.prems"(2) [of b] by (simp add: agent_data_def)
    show ?thesis
    proof (cases "a = b")
      case True
      with False show ?thesis by (simp add: agent_data_def)
    next
      case other: False
      then have eq: "agent_data a ((b, data) # rest) = agent_data a rest" by (simp add: agent_data_def)
      have "dget (agent_data a rest) sid = None"
        using "2.prems"(2) [of a] other b unfolding eq by (rule_tac ccontr) blast
      from gone [OF this] False other show ?thesis by (simp add: agent_data_def)
    qed
  qed
qed

lemma file_delete_refines:
  assumes inv: "file_inv s"
  shows "file_inv (file_delete sid s) \<and> (\<lambda>i. find_session i (file_delete sid s)) = (\<lambda>i. find_session i s)(sid := None)"
proof -
  obtain aid where only: "\<And>a. dget (agent_data a s) sid \<noteq> None \<Longrightarrow> a = aid"
    using file_inv_unique_data [OF inv] by metis
  have data: "agent_data a (file_delete sid s) = ddel sid (agent_data a s)" for a
    by (rule file_delete_data [OF file_inv_parts(1) [OF inv] only])
  have inv': "file_inv (file_delete sid s)"
  proof (rule file_invI)
    show "wf_dict (file_delete sid s)" "wf_dict (agent_data a (file_delete sid s))" for a
      using file_inv_parts(1,2) [OF inv] by (simp_all add: data wf_dict_def [of "file_delete sid s"]
          file_delete_keys wf_dict_def [of s, symmetric])
    show "sn_session_id e = i \<and> sn_agent_id e = a \<and> sn_tenant e \<noteq> []"
      if "dget (agent_data a (file_delete sid s)) i = Some e" for a i e
      using that file_inv_parts(3) [OF inv, of a i e] by (simp add: data split: if_splits)
    show "a = b" if "dget (agent_data a (file_delete sid s)) i \<noteq> None" "dget (agent_data b (file_delete sid s)) i \<noteq> None"
      for a b i
      using that by (intro file_inv_unique_data [OF inv, of a i b]) (simp_all add: data split: if_splits)
  qed
  moreover have "(\<lambda>i. find_session i (file_delete sid s)) = (\<lambda>i. find_session i s)(sid := None)"
    by (rule file_abs_eqI [OF inv']) (auto simp: data find_session_iff [OF inv] split: if_splits)
  ultimately show ?thesis ..
qed

lemma file_list_refines:
  assumes "file_inv s"
  shows "set (file_list aid tenant s) = listed (\<lambda>i. find_session i s) aid tenant"
proof -
  have "find_session sid s = Some e \<and> sn_agent_id e = aid \<longleftrightarrow> dget (agent_data aid s) sid = Some e" for sid e
    using find_session_iff [OF assms] find_session_agent [OF assms] file_inv_parts(3) [OF assms] by metis
  then have "listed (\<lambda>i. find_session i s) aid tenant =
      {session_record.truncate e | e. e \<in> set (dvals (agent_data aid s)) \<and>
        (case tenant of None \<Rightarrow> True | Some t \<Rightarrow> sn_tenant e = t)}"
    unfolding listed_def dvals_dget [OF file_inv_parts(2) [OF assms]] by blast
  then show ?thesis by (auto simp: file_list_def)
qed

interpretation fb: session_store file_backend "\<lambda>s sid. find_session sid s" file_inv
proof unfold_locales
  show "ps_save file_backend sid aid ms md tn now s = None" if "those (map from_openai_message ms) = None"
    for ms sid aid md tn now s using that by (simp add: file_backend_def file_save_def Let_def)
  show "\<exists>s'. ps_save file_backend sid aid ms md tn now s = Some s' \<and> file_inv s' \<and>
      (\<lambda>i. find_session i s') = (\<lambda>i. find_session i s)(sid \<mapsto> saved_session (find_session sid s) sid aid records md tn now)"
    if "file_inv s" "owned (find_session sid s) aid" "tn \<noteq> []" "those (map from_openai_message ms) = Some records"
    for s sid aid tn ms records md now
    using file_save_refines [OF that] by (simp add: file_backend_def)
  show "ps_load file_backend sid s =
      (case find_session sid s of None \<Rightarrow> [] | Some e \<Rightarrow> map to_openai_message (fs_messages e))" for s sid
    by (simp add: file_backend_def file_load_def)
  show "set (ps_list file_backend aid tenant s) = listed (\<lambda>i. find_session i s) aid tenant"
    if "file_inv s" for s aid tenant
    using file_list_refines [OF that] by (simp add: file_backend_def)
  show "sorted_wrt (\<lambda>a b. sn_updated_at b \<le> sn_updated_at a) (ps_list file_backend aid tenant s)" for aid tenant s
    by (simp add: file_backend_def file_list_def sort_desc_sorted)
  show "ps_latest file_backend aid tenant s = head_of (ps_list file_backend aid tenant s)" for aid tenant s
    by (simp add: file_backend_def)
  show "file_inv (ps_delete file_backend sid s) \<and>
      (\<lambda>i. find_session i (ps_delete file_backend sid s)) = (\<lambda>i. find_session i s)(sid := None)"
    if "file_inv s" for sid s
    using file_delete_refines [OF that] by (simp add: file_backend_def)
  show "sn_session_id e = sid \<and> sn_tenant e \<noteq> []" if "file_inv s" "find_session sid s = Some e" for s sid e
    using file_inv_parts(3) [OF that(1) find_session_agent [OF that]] by simp
qed

lemma head_of_newest:
  assumes xs: "sorted_wrt (\<lambda>a b. sn_updated_at b \<le> sn_updated_at a) xs"
    and ys: "sorted_wrt (\<lambda>a b. sn_updated_at b \<le> sn_updated_at a) ys" and eq: "set xs = set ys"
  shows "map_option sn_updated_at (head_of xs) = map_option sn_updated_at (head_of ys)"
proof (cases xs)
  case Nil
  with eq show ?thesis by simp
next
  case (Cons a as)
  with eq obtain b bs where b: "ys = b # bs" by (cases ys) auto
  from xs Cons eq b have "sn_updated_at b \<le> sn_updated_at a" by (metis list.set_intros(1) order_refl set_ConsD sorted_wrt.simps(2))
  moreover from ys Cons eq b have "sn_updated_at a \<le> sn_updated_at b" by (metis list.set_intros(1) order_refl set_ConsD sorted_wrt.simps(2))
  ultimately show ?thesis using Cons b by (simp add: head_of_def)
qed

section \<open>Message records again\<close>

lemma dget_extras: "dget (extras d) k = (if k \<in> set extra_keys then dget d k else None)"
  by (auto simp: extras_def extra_keys_def split: option.split)

lemma extras_cong: "(\<And>k. k \<in> set extra_keys \<Longrightarrow> dget d k = dget e k) \<Longrightarrow> extras d = extras e"
  unfolding extras_def by (intro arg_cong [of _ _ concat] map_cong) auto

lemma extras_to_openai: "extras (to_openai_message r) = extras (mr_raw_data r)"
  by (rule extras_cong) (auto simp: to_openai_message_def dget_extras extra_keys_def)

lemma extras_extras: "extras (extras d) = extras d"
  by (rule extras_cong) (simp add: dget_extras)

lemma from_openai_raw: "from_openai_message m = Some r \<Longrightarrow> mr_raw_data r = extras m"
  by (auto simp: from_openai_message_def Let_def split: option.splits)

lemma from_to_openai:
  assumes "from_openai_message m = Some r"
  shows "from_openai_message (to_openai_message r) = Some r"
proof -
  have "extras (to_openai_message r) = mr_raw_data r"
    using from_openai_raw [OF assms] by (simp add: extras_to_openai extras_extras)
  moreover have "dget (to_openai_message r) ''role'' = Some (JStr (mr_role r))"
    "dget (to_openai_message r) ''content'' = Some (JStr (mr_content r))" by (simp_all add: to_openai_message_def)
  ultimately show ?thesis by (cases r) (auto simp: from_openai_message_def Let_def falsy_def)
qed

lemma those_from_to_openai:
  "those (map from_openai_message ms) = Some records \<Longrightarrow>
   those (map from_openai_message (map to_openai_message records)) = Some records"
proof (induction ms arbitrary: records)
  case (Cons m ms)
  then obtain r rs where "from_openai_message m = Some r" "those (map from_openai_message ms) = Some rs" "records = r # rs"
    by (auto split: option.splits)
  with Cons.IH [of rs] from_to_openai show ?case by simp
qed simp

section \<open>Properties\<close>

text \<open>
  A message survives the store: whatever is stored of a message is given back with its role
  (\<open>user\<close> if it had none), its text (empty if it had none) and exactly its tool calls, tool call id,
  name and function call; and storing the result again stores the same record. A message whose role
  or content is neither missing, nor a string, nor an empty value, is rejected.
\<close>

theorem message_roundtrip:
  "(case from_openai_message m of
      None \<Rightarrow> (\<exists>v. dget m ''role'' = Some v \<and> (\<forall>s. v \<noteq> JStr s)) \<or>
              (\<exists>v. dget m ''content'' = Some v \<and> \<not> falsy v \<and> (\<forall>s. v \<noteq> JStr s))
    | Some r \<Rightarrow>
        dget (to_openai_message r) ''role'' = Some (case dget m ''role'' of None \<Rightarrow> JStr ''user'' | Some v \<Rightarrow> v) \<and>
        content_of (to_openai_message r) = content_of m \<and>
        (\<forall>k \<in> set extra_keys. dget (to_openai_message r) k = dget m k) \<and>
        from_openai_message (to_openai_message r) = Some r)"
proof (cases "from_openai_message m")
  case None
  then show ?thesis
    by (auto simp: from_openai_message_def Let_def split: option.splits json.splits if_splits)
next
  case (Some r)
  have role: "dget (to_openai_message r) ''role'' = Some (case dget m ''role'' of None \<Rightarrow> JStr ''user'' | Some v \<Rightarrow> v)"
    using Some by (auto simp: to_openai_message_def from_openai_message_def Let_def split: option.splits json.splits)
  have content: "content_of (to_openai_message r) = content_of m"
    using Some by (auto simp: content_of_def to_openai_message_def from_openai_message_def Let_def falsy_def
        split: option.splits json.splits if_splits)
  have "dget (to_openai_message r) k = dget m k" if "k \<in> set extra_keys" for k
    using that from_openai_raw [OF Some]
    by (auto simp: to_openai_message_def dget_extras extra_keys_def)
  with Some role content from_to_openai [OF Some] show ?thesis by simp
qed

theorem message_roundtrip_witness:
  "from_openai_message [(''role'', JStr ''assistant''), (''content'', JNull), (''tool_calls'', JList [])] \<noteq> None \<and>
   (\<forall>r. from_openai_message [(''role'', JStr ''assistant''), (''content'', JNull), (''tool_calls'', JList [])] = Some r \<longrightarrow>
     dget (to_openai_message r) ''tool_calls'' = Some (JList []))"
proof -
  let ?m = "[(''role'', JStr ''assistant''), (''content'', JNull), (''tool_calls'', JList [])]"
  have "from_openai_message ?m = Some \<lparr>mr_role = ''assistant'', mr_content = [], mr_raw_data = [(''tool_calls'', JList [])]\<rparr>"
    by code_simp
  with message_roundtrip [of ?m] show ?thesis by (simp add: extra_keys_def)
qed

text \<open>
  C33: The two back ends are interchangeable: after the same operations from an empty store, as long as
  a session id is only ever used by one agent and tenants are not empty, they load the same
  messages for every session, list the same sessions for every agent and tenant, and agree on
  whether an agent and tenant has a latest session and when it was updated.
\<close>

theorem backends_agree:
  assumes "admissible ops Map.empty"
  shows "(let s = fold (store_step sql_backend) ops new_sql_store; f = fold (store_step file_backend) ops [] in
    sql_load sid s = file_load sid f \<and> set (sql_list aid tenant s) = set (file_list aid tenant f) \<and>
    map_option sn_updated_at (ps_latest sql_backend aid tenant s) =
      map_option sn_updated_at (ps_latest file_backend aid tenant f))"
proof -
  let ?s = "fold (store_step sql_backend) ops new_sql_store" and ?f = "fold (store_step file_backend) ops []"
  have s: "sql_inv new_sql_store" "sql_abs new_sql_store = Map.empty"
    by (simp_all add: sql_inv_def new_sql_store_def sql_abs_def fun_eq_iff)
  have f: "file_inv []" "(\<lambda>sid. find_session sid []) = Map.empty" by (simp_all add: file_inv_def)
  have ok: "admissible ops (sql_abs new_sql_store)" "admissible ops (\<lambda>sid. find_session sid [])"
    using assms by (simp_all add: s(2))
  note rs = sql.run_refines [OF s(1) ok(1)] and rf = fb.run_refines [OF f(1) ok(2)]
  have load: "sql_load sid ?s = file_load sid ?f"
    using sql.load_run [OF s(1) ok(1), of sid] fb.load_run [OF f(1) ok(2), of sid]
    unfolding s(2) f(2) by (simp add: sql_backend_def file_backend_def)
  have lists: "set (sql_list aid tenant ?s) = set (file_list aid tenant ?f)"
    using sql.list_run [OF s(1) ok(1), of aid tenant] fb.list_run [OF f(1) ok(2), of aid tenant]
    unfolding s(2) f(2) by (simp add: sql_backend_def file_backend_def)
  have "map_option sn_updated_at (head_of (sql_list aid tenant ?s)) = map_option sn_updated_at (head_of (file_list aid tenant ?f))"
    by (rule head_of_newest [OF sorted_or_default _ lists]) (simp add: file_list_def sort_desc_sorted)
  with load lists show ?thesis by (simp add: Let_def sql_backend_def file_backend_def)
qed

definition demo_session_ops :: "session_op list" where
  "demo_session_ops =
     [Save ''s1'' ''a'' [demo_chat ''user'' ''hi''] [] ''t'' 1, Save ''s2'' ''b'' [demo_chat ''user'' ''yo''] [] ''t'' 2,
      Save ''s1'' ''a'' [demo_chat ''user'' ''bye''] [] ''u'' 3, Delete ''s2'']"

lemma demo_session_ops_admissible: "admissible demo_session_ops Map.empty"
  by code_simp

theorem backends_agree_witness:
  "sql_load ''s1'' (fold (store_step sql_backend) demo_session_ops new_sql_store) = [demo_chat ''user'' ''bye''] \<and>
   sql_load ''s1'' (fold (store_step sql_backend) demo_session_ops new_sql_store) =
     file_load ''s1'' (fold (store_step file_backend) demo_session_ops [])"
proof
  show "sql_load ''s1'' (fold (store_step sql_backend) demo_session_ops new_sql_store) = [demo_chat ''user'' ''bye'']"
    by code_simp
  show "sql_load ''s1'' (fold (store_step sql_backend) demo_session_ops new_sql_store) =
     file_load ''s1'' (fold (store_step file_backend) demo_session_ops [])"
    using backends_agree [OF demo_session_ops_admissible, of "''s1''" "''a''" None] by (simp add: Let_def)
qed

lemma new_manager_tenant: "mg_tenant (new_manager aid tenant ps) \<noteq> []"
  by (simp add: new_manager_def)

context session_store
begin

lemma manager_roundtrip:
  assumes "inv s" and "mg_persistence mg = Some ps" and "mg_tenant mg \<noteq> []" and "sid \<noteq> []"
    and "owned (abs_of s sid) (mg_agent_id mg)" and "those (map from_openai_message ms) = Some records" and "ms \<noteq> []"
  shows "\<exists>s' mg'. save_session fresh now ms sid (s, mg) = Some (s', mg') \<and>
    restore_session sid s' mg' = (Some (map to_openai_message records), mg'\<lparr>mg_session_id := sid\<rparr>)"
proof -
  from load_saved [OF assms(1,5,3,6), of "[]" now] obtain s' where
    s': "ps_save ps sid (mg_agent_id mg) ms [] (mg_tenant mg) now s = Some s'"
      "ps_load ps sid s' = map to_openai_message records" by blast
  have "records \<noteq> []" using assms(6,7) by (cases ms) (auto split: option.splits)
  with s' assms(2,4) show ?thesis by (simp add: save_session_def restore_session_def adopt_def)
qed

lemma auto_restore_own:
  assumes "inv s" and "mg_persistence mg = Some ps" and "restore_session [] s mg = (Some ms, mg')"
  shows "\<exists>e. abs_of s (mg_session_id mg') = Some e \<and> sn_agent_id e = mg_agent_id mg \<and>
    sn_tenant e = mg_tenant mg \<and> ms = map to_openai_message (fs_messages e)"
proof -
  from assms(2,3) obtain r where r: "ps_latest ps (mg_agent_id mg) (Some (mg_tenant mg)) s = Some r"
    "ms = ps_load ps (sn_session_id r) s" "mg_session_id mg' = sn_session_id r"
    by (auto simp: restore_session_def adopt_def split: option.splits if_splits)
  from latest_correct [OF assms(1) r(1)] r(2,3) load_abs [OF assms(1)] show ?thesis
    by (auto simp: session_record.truncate_def)
qed

end

text \<open>
  Saving a session and restoring it by its id gives back the saved messages (in the form in which
  they are stored), with either back end, for a session that is new or already the agent's.
\<close>

theorem session_save_restore:
  assumes "those (map from_openai_message ms) = Some records" and "ms \<noteq> []" and "sid \<noteq> []"
  shows "(sql_inv s \<and> owned (sql_abs s sid) aid \<longrightarrow>
      (\<exists>s' mg'. save_session fresh now ms sid (s, new_manager aid tn (Some sql_backend)) = Some (s', mg') \<and>
        fst (restore_session sid s' mg') = Some (map to_openai_message records))) \<and>
    (file_inv f \<and> owned (find_session sid f) aid \<longrightarrow>
      (\<exists>f' mg'. save_session fresh now ms sid (f, new_manager aid tn (Some file_backend)) = Some (f', mg') \<and>
        fst (restore_session sid f' mg') = Some (map to_openai_message records)))"
proof -
  have m: "mg_persistence (new_manager aid tn ps) = Some ps'" "mg_agent_id (new_manager aid tn ps) = aid"
    if "ps = Some ps'" for ps :: "'s persistence option" and ps' using that by (simp_all add: new_manager_def)
  show ?thesis
    using sql.manager_roundtrip [of s "new_manager aid tn (Some sql_backend)" sid ms records fresh now]
      fb.manager_roundtrip [of f "new_manager aid tn (Some file_backend)" sid ms records fresh now]
      assms new_manager_tenant
    by (auto simp: new_manager_def split: if_splits)
qed

theorem session_save_restore_witness:
  "\<exists>s' mg'. save_session ''f'' 1 [demo_chat ''user'' ''hi''] ''s1'' (new_sql_store, new_manager ''a'' [] (Some sql_backend)) =
     Some (s', mg') \<and> fst (restore_session ''s1'' s' mg') = Some [demo_chat ''user'' ''hi'']"
proof -
  have r: "those (map from_openai_message [demo_chat ''user'' ''hi'']) =
      Some [\<lparr>mr_role = ''user'', mr_content = ''hi'', mr_raw_data = []\<rparr>]" by code_simp
  have m: "map to_openai_message [\<lparr>mr_role = ''user'', mr_content = ''hi'', mr_raw_data = []\<rparr>] = [demo_chat ''user'' ''hi'']"
    by code_simp
  have "sql_inv new_sql_store" "owned (sql_abs new_sql_store ''s1'') ''a''"
    by (simp_all add: sql_inv_def new_sql_store_def sql_abs_def owned_def)
  with session_save_restore [OF r, of "''s1''" new_sql_store "''a''"] m show ?thesis by (simp only: list.distinct simp_thms)
qed

text \<open>
  Restoring the latest session only ever gives a session of the manager's own agent and tenant.
\<close>

theorem auto_restore_isolated:
  assumes "sql_inv s" and "restore_session [] s (new_manager aid tn (Some sql_backend)) = (Some ms, mg')"
  shows "\<exists>e. sql_abs s (mg_session_id mg') = Some e \<and> sn_agent_id e = aid \<and>
    sn_tenant e = (if tn = [] then ''default'' else tn) \<and> ms = map to_openai_message (fs_messages e)"
  using sql.auto_restore_own [OF assms(1) _ assms(2)] by (auto simp: new_manager_def split: if_splits)

definition demo_sql :: sql_store where
  "demo_sql = fold (store_step sql_backend) [Save ''s1'' ''a'' [demo_chat ''user'' ''hi''] [] ''t'' 1] new_sql_store"

lemma demo_sql_inv: "sql_inv demo_sql"
proof -
  have "sql_inv new_sql_store" by (simp add: sql_inv_def new_sql_store_def)
  moreover have "admissible [Save ''s1'' ''a'' [demo_chat ''user'' ''hi''] [] ''t'' 1] (sql_abs new_sql_store)"
    by (simp add: sql_abs_def new_sql_store_def owned_def)
  ultimately show ?thesis unfolding demo_sql_def using sql.run_refines by blast
qed

theorem auto_restore_isolated_witness:
  "fst (restore_session [] demo_sql (new_manager ''a'' ''t'' (Some sql_backend))) = Some [demo_chat ''user'' ''hi''] \<and>
   (\<exists>e sid. sql_abs demo_sql sid = Some e \<and> sn_tenant e = ''t'')"
proof -
  obtain ms mg' where r: "restore_session [] demo_sql (new_manager ''a'' ''t'' (Some sql_backend)) = (ms, mg')"
    by fastforce
  have f: "fst (restore_session [] demo_sql (new_manager ''a'' ''t'' (Some sql_backend))) = Some [demo_chat ''user'' ''hi'']"
    by code_simp
  with r have "restore_session [] demo_sql (new_manager ''a'' ''t'' (Some sql_backend)) = (Some [demo_chat ''user'' ''hi''], mg')"
    by simp
  from auto_restore_isolated [OF demo_sql_inv this] f show ?thesis by auto
qed

text \<open>
  Restoring by id does not look at the tenant: every manager, of whatever agent and tenant, gets the
  messages of any session whose id it names, and adopts that session as its own.
\<close>

theorem restore_by_id_ignores_tenant:
  assumes "sql_inv s" and "sql_abs s sid = Some e" and "fs_messages e \<noteq> []" and "sid \<noteq> []"
  shows "restore_session sid s (new_manager aid tn (Some sql_backend)) =
    (Some (map to_openai_message (fs_messages e)), (new_manager aid tn (Some sql_backend))\<lparr>mg_session_id := sid\<rparr>)"
  using sql.load_abs [OF assms(1), of sid] assms(2-4)
  by (simp add: restore_session_def new_manager_def adopt_def)

theorem restore_by_id_ignores_tenant_witness:
  "fst (restore_session ''s1'' demo_sql (new_manager ''x'' ''other'' (Some sql_backend))) = Some [demo_chat ''user'' ''hi'']"
proof -
  let ?e = "\<lparr>sn_session_id = ''s1'', sn_agent_id = ''a'', sn_tenant = ''t'', sn_created_at = 1, sn_updated_at = 1,
      sn_metadata = [], fs_messages = [\<lparr>mr_role = ''user'', mr_content = ''hi'', mr_raw_data = []\<rparr>]\<rparr>"
  have e: "sql_abs demo_sql ''s1'' = Some ?e" by code_simp
  have "map to_openai_message (fs_messages ?e) = [demo_chat ''user'' ''hi'']" by code_simp
  with restore_by_id_ignores_tenant [OF demo_sql_inv e, of "''x''" "''other''"] show ?thesis by simp
qed

end
