(* ===== verification/Prompt.thy ===== *)
theory Prompt
  imports Strings "HOL-Library.Multiset"
begin

text \<open>
  \<open>youmi/core/prompt.py\<close>: the layers of a system prompt and their assembly within a token budget.
  Token counts depend on the share of Chinese characters of a text; \<open>cjk\<close> says which characters
  these are. The text that marks a truncated layer is given in English.
\<close>

section \<open>Token estimates\<close>

definition prompt_tokens :: "(char \<Rightarrow> bool) \<Rightarrow> string \<Rightarrow> nat" where
  "prompt_tokens cjk t =
     (if t = [] then 0
      else (let chinese = length (filter cjk t); total = length t in
            if total < 2 * chinese then max 1 (total div 2)
            else if total < 10 * chinese then max 1 (total div 3)
            else max 1 (total div 4)))"

section \<open>Layers\<close>

record prompt_layer =
  pl_name :: string
  pl_content :: string
  pl_priority :: nat
  pl_token_budget :: nat

definition valid_layer :: "prompt_layer \<Rightarrow> bool" where
  "valid_layer l \<longleftrightarrow> pl_priority l \<le> 100"

definition layer_tokens :: "(char \<Rightarrow> bool) \<Rightarrow> prompt_layer \<Rightarrow> nat" where
  "layer_tokens cjk l = prompt_tokens cjk (pl_content l)"

text \<open>The assembler is its list of layers, in the order in which they were added.\<close>

type_synonym assembler = "prompt_layer list"

definition add_layer :: "prompt_layer \<Rightarrow> assembler \<Rightarrow> assembler" where
  "add_layer l ls = filter (\<lambda>x. pl_name x \<noteq> pl_name l) ls @ [l]"

definition remove_layer :: "string \<Rightarrow> assembler \<Rightarrow> bool \<times> assembler" where
  "remove_layer name ls =
     (let kept = filter (\<lambda>x. pl_name x \<noteq> name) ls in (length kept < length ls, kept))"

definition get_layer :: "string \<Rightarrow> assembler \<Rightarrow> prompt_layer option" where
  "get_layer name ls = find (\<lambda>l. pl_name l = name) ls"

definition sorted_layers :: "assembler \<Rightarrow> prompt_layer list" where
  "sorted_layers ls = sort_key pl_priority ls"

definition total_layer_tokens :: "(char \<Rightarrow> bool) \<Rightarrow> assembler \<Rightarrow> nat" where
  "total_layer_tokens cjk ls = sum_list (map (layer_tokens cjk) ls)"

definition from_system_prompt :: "string \<Rightarrow> prompt_layer list \<Rightarrow> assembler" where
  "from_system_prompt prompt extra =
     fold add_layer extra
       (if prompt \<noteq> []
        then add_layer \<lparr>pl_name = ''base'', pl_content = prompt, pl_priority = 0, pl_token_budget = 0\<rparr> []
        else [])"

section \<open>Assembly\<close>

definition blank_line :: string where
  "blank_line = [CHR 0x0A, CHR 0x0A]"

definition join_layers :: "prompt_layer list \<Rightarrow> string" where
  "join_layers ls =
     join_with blank_line (map (\<lambda>l. strip (pl_content l)) (filter (\<lambda>l. strip (pl_content l) \<noteq> []) ls))"

text \<open>The tokens counted for a layer: never more than its own budget, when it has one.\<close>

definition counted_tokens :: "(char \<Rightarrow> bool) \<Rightarrow> prompt_layer \<Rightarrow> nat" where
  "counted_tokens cjk l =
     (let tokens = layer_tokens cjk l in
      if 0 < pl_token_budget l \<and> pl_token_budget l < tokens then pl_token_budget l else tokens)"

definition truncation_mark :: string where
  "truncation_mark = CHR 0x0A # ''[... truncated ...]''"

definition truncate_layer :: "nat \<Rightarrow> nat \<Rightarrow> prompt_layer \<Rightarrow> prompt_layer" where
  "truncate_layer remaining tokens l =
     l\<lparr>pl_content := take (length (pl_content l) * remaining div tokens) (pl_content l) @ truncation_mark\<rparr>"

text \<open>The loop that gives out the remaining budget; layers of priority 0 do not count here.\<close>

fun fit_layers :: "(prompt_layer \<times> nat) list \<Rightarrow> int \<Rightarrow> prompt_layer list" where
  "fit_layers [] remaining = []"
| "fit_layers ((l, tokens) # ps) remaining =
     (if pl_priority l = 0 then l # fit_layers ps remaining
      else if remaining \<le> 0 then fit_layers ps remaining
      else if int tokens \<le> remaining then l # fit_layers ps (remaining - int tokens)
      else truncate_layer (nat remaining) tokens l # fit_layers ps 0)"

definition chosen_layers :: "(char \<Rightarrow> bool) \<Rightarrow> int \<Rightarrow> assembler \<Rightarrow> prompt_layer list" where
  "chosen_layers cjk max_tokens ls =
     (let processed = map (\<lambda>l. (l, counted_tokens cjk l)) (sorted_layers ls);
          total = sum_list (map snd processed)
      in if max_tokens \<le> 0 \<or> int total \<le> max_tokens then sorted_layers ls
         else (let reserved = sum_list (map snd (filter (\<lambda>(l, _). pl_priority l = 0) processed))
               in fit_layers processed (max_tokens - int reserved)))"

definition assemble :: "(char \<Rightarrow> bool) \<Rightarrow> int \<Rightarrow> assembler \<Rightarrow> string" where
  "assemble cjk max_tokens ls = (if ls = [] then [] else join_layers (chosen_layers cjk max_tokens ls))"

section \<open>Lemmas\<close>

lemma add_layer_names:
  "distinct (map pl_name ls) \<Longrightarrow> distinct (map pl_name (add_layer l ls))"
  by (auto simp: add_layer_def distinct_map inj_on_def)

lemma from_system_prompt_names: "distinct (map pl_name (from_system_prompt prompt extra))"
proof -
  have "distinct (map pl_name (fold add_layer extra ls))" if "distinct (map pl_name ls)" for ls
    using that by (induction extra arbitrary: ls) (simp_all add: add_layer_names)
  then show ?thesis by (simp add: from_system_prompt_def add_layer_def)
qed

lemma get_layer_add:
  "get_layer name (add_layer l ls) = (if name = pl_name l then Some l else get_layer name ls)"
  by (induction ls) (auto simp: get_layer_def add_layer_def)

text \<open>Sorting puts the layers of priority 0 first.\<close>

lemma sorted_split:
  "sorted_layers ls = filter (\<lambda>l. pl_priority l = 0) ls @ filter (\<lambda>l. pl_priority l \<noteq> 0) (sorted_layers ls)"
proof -
  have s: "ys = filter (\<lambda>l. pl_priority l = 0) ys @ filter (\<lambda>l. pl_priority l \<noteq> 0) ys"
    if "sorted (map pl_priority ys)" for ys :: "prompt_layer list"
    using that
  proof (induction ys)
    case (Cons y ys)
    show ?case
    proof (cases "pl_priority y = 0")
      case False
      with Cons.prems have "filter (\<lambda>l. pl_priority l = 0) ys = []" by (auto simp: filter_empty_conv)
      with Cons False show ?thesis by simp
    qed (use Cons in simp)
  qed simp
  have "filter (\<lambda>l. pl_priority l = 0) (sorted_layers ls) = filter (\<lambda>l. pl_priority l = 0) ls"
    using sort_key_stable [of pl_priority 0 ls] by (simp add: sorted_layers_def)
  with s [of "sorted_layers ls"] show ?thesis by (simp add: sorted_layers_def)
qed

lemma fit_layers_base:
  "list_all (\<lambda>(l, _). pl_priority l = 0) ps \<Longrightarrow> fit_layers (ps @ qs) r = map fst ps @ fit_layers qs r"
  by (induction ps) (auto split: prod.splits)

lemma fit_layers_spent:
  "list_all (\<lambda>(l, _). pl_priority l \<noteq> 0) ps \<Longrightarrow> r \<le> 0 \<Longrightarrow> fit_layers ps r = []"
  by (induction ps r rule: fit_layers.induct) auto

text \<open>The layers above priority 0 that fit: a prefix of them in full, then at most one truncated.\<close>

lemma fit_layers_prefix:
  assumes "\<forall>l \<in> set ls. pl_priority l \<noteq> 0" and "0 \<le> r"
  shows "\<exists>n cut. fit_layers (map (\<lambda>l. (l, f l)) ls) r = take n ls @ cut \<and>
    int (sum_list (map f (take n ls))) \<le> r \<and>
    (cut = [] \<or> (\<exists>k. n < length ls \<and> cut = [(ls ! n)\<lparr>pl_content := take k (pl_content (ls ! n)) @ truncation_mark\<rparr>]))"
  using assms
proof (induction ls arbitrary: r)
  case Nil
  then show ?case by simp
next
  case (Cons l ls)
  then have p: "pl_priority l \<noteq> 0" "\<forall>l \<in> set ls. pl_priority l \<noteq> 0" by simp_all
  have spent: "fit_layers (map (\<lambda>l. (l, f l)) ls) s = []" if "s \<le> 0" for s
    by (rule fit_layers_spent) (use p(2) that in \<open>auto simp: list_all_iff\<close>)
  consider (none) "r \<le> 0" | (fits) "0 < r" "int (f l) \<le> r" | (cut) "0 < r" "r < int (f l)" by linarith
  then show ?case
  proof cases
    case none
    with p spent [of r] show ?thesis
      using \<open>0 \<le> r\<close> by (intro exI [where x = 0] exI [where x = "[]"]) simp
  next
    case fits
    then have "0 \<le> r - int (f l)" by simp
    from Cons.IH [OF p(2) this] obtain n cut where
      n: "fit_layers (map (\<lambda>l. (l, f l)) ls) (r - int (f l)) = take n ls @ cut"
      "int (sum_list (map f (take n ls))) \<le> r - int (f l)"
      "cut = [] \<or> (\<exists>k. n < length ls \<and> cut = [(ls ! n)\<lparr>pl_content := take k (pl_content (ls ! n)) @ truncation_mark\<rparr>])"
      by blast
    with p fits show ?thesis
      by (intro exI [where x = "Suc n"] exI [where x = cut]) simp
  next
    case cut
    with p spent [of 0] show ?thesis
      by (intro exI [where x = 0] exI [where x = "[truncate_layer (nat r) (f l) l]"])
        (auto simp: truncate_layer_def)
  qed
qed

section \<open>Properties\<close>

text \<open>
  What a prompt that exceeds the budget keeps. The layers of priority 0 are all there in full and
  come first; the others follow by priority, a prefix of them in full whose counted tokens fit into
  what is left of the budget, then at most one layer cut to a prefix of its text, and nothing
  after it.
\<close>

theorem assemble_by_priority:
  assumes "0 < max_tokens" and "max_tokens < int (sum_list (map (counted_tokens cjk) ls))"
    and "base = filter (\<lambda>l. pl_priority l = 0) ls"
    and "rest = filter (\<lambda>l. pl_priority l \<noteq> 0) (sorted_layers ls)"
    and "left = max_tokens - int (sum_list (map (counted_tokens cjk) base))" and "0 \<le> left"
  shows "\<exists>n cut. assemble cjk max_tokens ls = join_layers (base @ take n rest @ cut) \<and>
    int (sum_list (map (counted_tokens cjk) (take n rest))) \<le> left \<and>
    (cut = [] \<or> (\<exists>k. n < length rest \<and>
       cut = [(rest ! n)\<lparr>pl_content := take k (pl_content (rest ! n)) @ truncation_mark\<rparr>]))"
proof -
  let ?c = "counted_tokens cjk" and ?pair = "map (\<lambda>l. (l, counted_tokens cjk l))"
  have split: "sorted_layers ls = base @ rest" using sorted_split [of ls] assms(3,4) by simp
  have "mset (sorted_layers ls) = mset ls" by (simp add: sorted_layers_def)
  then have total: "sum_list (map ?c (sorted_layers ls)) = sum_list (map ?c ls)"
    by (metis mset_map sum_mset_sum_list)
  have base0: "filter (\<lambda>(l, _). pl_priority l = 0) (?pair (sorted_layers ls)) = ?pair base"
    unfolding split map_append filter_append
    by (auto simp: assms(3,4) filter_map o_def filter_empty_conv)
  have "chosen_layers cjk max_tokens ls = fit_layers (?pair base @ ?pair rest) left"
    using assms(1,2,5) total base0 by (simp add: chosen_layers_def Let_def o_def) (simp add: split)
  also have "\<dots> = base @ fit_layers (?pair rest) left"
    by (subst fit_layers_base) (auto simp: list_all_iff assms(3) o_def)
  finally have chosen: "chosen_layers cjk max_tokens ls = base @ fit_layers (?pair rest) left" .
  have ne: "ls \<noteq> []" using assms(1,2) by auto
  have "\<forall>l \<in> set rest. pl_priority l \<noteq> 0" by (simp add: assms(4))
  from fit_layers_prefix [OF this assms(6), of ?c] obtain n cut where
    fit: "fit_layers (?pair rest) left = take n rest @ cut" and out: "int (sum_list (map ?c (take n rest))) \<le> left"
      "cut = [] \<or> (\<exists>k. n < length rest \<and> cut = [(rest ! n)\<lparr>pl_content := take k (pl_content (rest ! n)) @ truncation_mark\<rparr>])"
    by blast
  have "assemble cjk max_tokens ls = join_layers (base @ take n rest @ cut)"
    using ne by (simp add: assemble_def chosen fit)
  with out show ?thesis by blast
qed

definition demo_layers :: assembler where
  "demo_layers = [\<lparr>pl_name = ''task'', pl_content = ''abcdefgh'', pl_priority = 60, pl_token_budget = 0\<rparr>,
     \<lparr>pl_name = ''base'', pl_content = ''You'', pl_priority = 0, pl_token_budget = 0\<rparr>]"

theorem assemble_by_priority_witness:
  "\<exists>n cut. assemble (\<lambda>_. False) 2 demo_layers =
      join_layers (filter (\<lambda>l. pl_priority l = 0) demo_layers @
        take n (filter (\<lambda>l. pl_priority l \<noteq> 0) (sorted_layers demo_layers)) @ cut)"
proof -
  have "sum_list (map (counted_tokens (\<lambda>_. False)) demo_layers) = 3" by code_simp
  moreover have "sum_list (map (counted_tokens (\<lambda>_. False)) (filter (\<lambda>l. pl_priority l = 0) demo_layers)) = 1"
    by code_simp
  ultimately show ?thesis
    using assemble_by_priority [of 2 "\<lambda>_. False" demo_layers, OF _ _ refl refl refl] by auto
qed

text \<open>
  A layer's own token budget limits only what is counted, not what is said: a layer with a budget
  of one token is assembled in full, however long its text is, even when the whole prompt may take
  only one token.
\<close>

theorem layer_budget_not_enforced:
  assumes "strip c = c" and "c \<noteq> []"
  shows "assemble cjk 1 [\<lparr>pl_name = n, pl_content = c, pl_priority = p, pl_token_budget = 1\<rparr>] = c"
proof -
  let ?l = "\<lparr>pl_name = n, pl_content = c, pl_priority = p, pl_token_budget = 1\<rparr>"
  have "counted_tokens cjk ?l \<le> 1" by (simp add: counted_tokens_def Let_def)
  then have "chosen_layers cjk 1 [?l] = [?l]" by (simp add: chosen_layers_def Let_def sorted_layers_def)
  with assms show ?thesis by (simp add: assemble_def join_layers_def)
qed

theorem layer_budget_not_enforced_witness:
  "assemble (\<lambda>_. False) 1 [\<lparr>pl_name = ''warm_tools'', pl_content = ''a very long list of tools'',
      pl_priority = 45, pl_token_budget = 1\<rparr>] = ''a very long list of tools''"
  by (rule layer_budget_not_enforced) code_simp+

text \<open>
  Adding a layer replaces the one of the same name and leaves the others; removing reports whether
  it was there.
\<close>

theorem layers_are_a_map:
  "get_layer name (add_layer l ls) = (if name = pl_name l then Some l else get_layer name ls) \<and>
   get_layer name (snd (remove_layer other ls)) = (if name = other then None else get_layer name ls) \<and>
   (fst (remove_layer other ls) \<longleftrightarrow> get_layer other ls \<noteq> None)"
proof (intro conjI)
  show "get_layer name (snd (remove_layer other ls)) = (if name = other then None else get_layer name ls)"
    unfolding get_layer_def remove_layer_def Let_def snd_conv by (induction ls) auto
  show "fst (remove_layer other ls) \<longleftrightarrow> get_layer other ls \<noteq> None"
  proof (cases "get_layer other ls")
    case None
    then have "filter (\<lambda>x. pl_name x \<noteq> other) ls = ls"
      by (simp add: get_layer_def find_None_iff filter_id_conv)
    with None show ?thesis by (simp add: remove_layer_def Let_def)
  next
    case (Some l)
    then have "l \<in> set ls" "pl_name l = other" by (auto simp: get_layer_def find_Some_iff)
    with Some show ?thesis
      using length_filter_less [of l ls "\<lambda>x. pl_name x \<noteq> other"] by (simp add: remove_layer_def Let_def)
  qed
qed (rule get_layer_add)

end
