(* ===== verification/ToolExec.thy ===== *)
theory ToolExec
  imports Hooks Resilience Vault Compaction
begin

text \<open>
  \<open>youmi/core/tool_executor.py\<close> and \<open>ToolRegistry\<close> of \<open>core/tool.py\<close>: how an agent executes one
  tool call. The call passes the hooks, the tool's circuit breaker and a timeout, and is then
  dispatched to the MCP bridge or to the registry. The bridge, the handlers, the memory and the
  report to the guardian are arguments: the environment of a call says how each of them ends.
\<close>

section \<open>How an awaited call ends\<close>

text \<open>
  \<open>Fails cls msg\<close> is an exception with its class and text, \<open>TimesOut\<close> the point at which
  \<open>asyncio.wait_for\<close> cancels the dispatch (a bridge that raises \<open>TimeoutError\<close> itself ends in the
  same way), \<open>IsCancelled\<close> the cancellation of the agent. The last two pass every
  \<open>except Exception\<close> of the dispatch.
\<close>

datatype 'v awaited = Done 'v | Fails string string | TimesOut | IsCancelled

definition and_then :: "'a awaited \<times> 's \<Rightarrow> ('a \<Rightarrow> 's \<Rightarrow> 'b awaited \<times> 's) \<Rightarrow> 'b awaited \<times> 's" where
  "and_then r k = (case r of (Done v, s) \<Rightarrow> k v s | (Fails c e, s) \<Rightarrow> (Fails c e, s)
     | (TimesOut, s) \<Rightarrow> (TimesOut, s) | (IsCancelled, s) \<Rightarrow> (IsCancelled, s))"

lemma and_then_simps [simp]:
  "and_then (Done v, s) k = k v s"
  "and_then (Fails c e, s) k = (Fails c e, s)"
  "and_then (TimesOut, s) k = (TimesOut, s)"
  "and_then (IsCancelled, s) k = (IsCancelled, s)"
  by (simp_all add: and_then_def)

section \<open>\<open>ToolRegistry\<close>\<close>

record 'f tool_registry =
  rg_definitions :: "(string, tool_definition) dict"
  rg_handlers :: "(string, 'f) dict"

definition new_tool_registry :: "'f tool_registry" where
  "new_tool_registry = \<lparr>rg_definitions = [], rg_handlers = []\<rparr>"

definition registry_register :: "tool_definition \<Rightarrow> 'f \<Rightarrow> 'f tool_registry \<Rightarrow> 'f tool_registry" where
  "registry_register d h r =
     r\<lparr>rg_definitions := dset (td_name d) d (rg_definitions r), rg_handlers := dset (td_name d) h (rg_handlers r)\<rparr>"

definition registry_unregister :: "string \<Rightarrow> 'f tool_registry \<Rightarrow> 'f tool_registry" where
  "registry_unregister name r =
     r\<lparr>rg_definitions := ddel name (rg_definitions r), rg_handlers := ddel name (rg_handlers r)\<rparr>"

definition get_definition :: "string \<Rightarrow> 'f tool_registry \<Rightarrow> tool_definition option" where
  "get_definition name r = dget (rg_definitions r) name"

definition registry_contains :: "string \<Rightarrow> 'f tool_registry \<Rightarrow> bool" where
  "registry_contains name r \<longleftrightarrow> name \<in> set (dkeys (rg_definitions r))"

definition registry_tool_names :: "'f tool_registry \<Rightarrow> string list" where
  "registry_tool_names r = dkeys (rg_definitions r)"

definition registry_openai_tools :: "'f tool_registry \<Rightarrow> json list" where
  "registry_openai_tools r = map to_openai_function_schema (dvals (rg_definitions r))"

definition unregistered_text :: "string \<Rightarrow> string" where
  "unregistered_text name = ''tool '' @ name @ '' is not registered''"

definition failure_text :: "string \<Rightarrow> string \<Rightarrow> string" where
  "failure_text name e = ''tool '' @ name @ '' failed: '' @ e"

text \<open>\<open>execute\<close>: \<open>call h args\<close> is what the handler does; the keys of both tables agree, see below.\<close>

definition registry_execute :: "('f \<Rightarrow> json \<Rightarrow> json awaited) \<Rightarrow> string \<Rightarrow> json \<Rightarrow> 'f tool_registry \<Rightarrow> json awaited" where
  "registry_execute call name args r =
     (case dget (rg_handlers r) name of
        None \<Rightarrow> Fails ''KeyError'' (unregistered_text name)
      | Some h \<Rightarrow> call h args)"

definition registry_ok :: "'f tool_registry \<Rightarrow> bool" where
  "registry_ok r \<longleftrightarrow> dkeys (rg_handlers r) = dkeys (rg_definitions r)"

lemma new_tool_registry_ok [simp]: "registry_ok new_tool_registry"
  by (simp add: registry_ok_def new_tool_registry_def)

lemma register_ok [preserved]: "registry_ok r \<Longrightarrow> registry_ok (registry_register d h r)"
  by (simp add: registry_ok_def registry_register_def dkeys_dset)

lemma unregister_ok [preserved]: "registry_ok r \<Longrightarrow> registry_ok (registry_unregister name r)"
  by (simp add: registry_ok_def registry_unregister_def dkeys_ddel)

section \<open>Results, state and environment\<close>

record action_result =
  ax_success :: bool
  ax_output :: json
  ax_error :: "string option"

definition succeeded :: "string \<Rightarrow> action_result" where
  "succeeded out = \<lparr>ax_success = True, ax_output = JStr out, ax_error = None\<rparr>"

definition failed :: "string \<Rightarrow> action_result" where
  "failed e = \<lparr>ax_success = False, ax_output = JNull, ax_error = Some e\<rparr>"

text \<open>
  What an agent has for its tool calls. \<open>tu_dumps\<close> is \<open>json.dumps\<close>, \<open>tu_show_s\<close> and
  \<open>tu_open_text\<close> format a number of seconds and the text of a \<open>CircuitOpenError\<close>.
\<close>

record ('f, 'h) tool_setup =
  tu_agent_id :: string
  tu_agent_name :: string
  tu_hooks :: "'h hook_registry"
  tu_has_bridge :: bool
  tu_vault :: "tool_vault option"
  tu_registry :: "'f tool_registry"
  tu_guardian :: string
  tu_default_timeout :: rat
  tu_dumps :: "json \<Rightarrow> string"
  tu_show_s :: "rat \<Rightarrow> string"
  tu_open_text :: "circuit_open_error \<Rightarrow> string"

record 'f call_env =
  ce_bridge :: "string \<Rightarrow> json \<Rightarrow> (string \<times> bool) awaited"
  ce_handler :: "'f \<Rightarrow> json \<Rightarrow> json awaited"
  ce_memory :: "unit awaited"
  ce_report :: "unit awaited"
  ce_late_report :: "unit awaited"
  ce_before :: rat
  ce_after :: rat

text \<open>
  The state that calls change: the conversation, the breakers of all tools, what was given to the
  memory (role and content), the reports to the guardian and the audit log (tool, success, error).
\<close>

record tool_state =
  tx_conversation :: "chat_message list"
  tx_breakers :: breaker_registry
  tx_memory :: "(string \<times> string) list"
  tx_reports :: "(string \<times> string) list"
  tx_audit :: "(string \<times> bool \<times> string) list"

definition tool_message :: "string \<Rightarrow> string \<Rightarrow> chat_message" where
  "tool_message call_id content =
     [(''role'', JStr ''tool''), (''tool_call_id'', JStr call_id), (''content'', JStr content)]"

definition say :: "chat_message \<Rightarrow> tool_state \<Rightarrow> tool_state" where
  "say m st = st\<lparr>tx_conversation := tx_conversation st @ [m]\<rparr>"

definition error_json :: "('f, 'h) tool_setup \<Rightarrow> string \<Rightarrow> string" where
  "error_json U msg = tu_dumps U (JObj [(''error'', JStr msg)])"

section \<open>\<open>_dispatch_tool\<close>\<close>

text \<open>\<open>_auto_report_tool_error\<close> swallows exceptions, but not a cancellation.\<close>

definition auto_report :: "('f, 'h) tool_setup \<Rightarrow> unit awaited \<Rightarrow> string \<Rightarrow> string \<Rightarrow> tool_state \<Rightarrow>
    unit awaited \<times> tool_state" where
  "auto_report U outcome name msg st =
     (if tu_guardian U = [] then (Done (), st)
      else (case outcome of Fails _ _ \<Rightarrow> Done () | _ \<Rightarrow> outcome,
            st\<lparr>tx_reports := tx_reports st @ [(name, msg)]\<rparr>))"

text \<open>\<open>self._memory.on_message("tool", ...)\<close>: role and content; a call that does not end leaves no entry.\<close>

definition remember :: "unit awaited \<Rightarrow> string \<Rightarrow> string \<Rightarrow> tool_state \<Rightarrow> unit awaited \<times> tool_state" where
  "remember outcome role content st =
     (outcome, case outcome of Done _ \<Rightarrow> st\<lparr>tx_memory := tx_memory st @ [(role, content)]\<rparr> | _ \<Rightarrow> st)"

definition dispatch_bridge :: "('f, 'h) tool_setup \<Rightarrow> 'f call_env \<Rightarrow> string \<Rightarrow> json \<Rightarrow> string \<Rightarrow> tool_state \<Rightarrow>
    action_result awaited \<times> tool_state" where
  "dispatch_bridge U env name args call_id st =
     and_then (ce_bridge env name args, st) (\<lambda>(text, is_error) st.
       let st = say (tool_message call_id text) st in
       if is_error
       then and_then (auto_report U (ce_report env) name text st) (\<lambda>_ st. (Done (failed text), st))
       else and_then (remember (ce_memory env) ''tool'' text st) (\<lambda>_ st. (Done (succeeded text), st)))"

text \<open>A reply that reports the failure \<open>msg\<close>, as the registry path sends it.\<close>

definition reply_failure :: "('f, 'h) tool_setup \<Rightarrow> 'f call_env \<Rightarrow> string \<Rightarrow> string \<Rightarrow> string \<Rightarrow> tool_state \<Rightarrow>
    action_result awaited \<times> tool_state" where
  "reply_failure U env name call_id msg st =
     and_then (auto_report U (ce_report env) name msg (say (tool_message call_id (error_json U msg)) st))
       (\<lambda>_ st. (Done (failed msg), st))"

text \<open>The body of the \<open>try\<close> of the registry path.\<close>

definition try_handler :: "('f, 'h) tool_setup \<Rightarrow> 'f call_env \<Rightarrow> string \<Rightarrow> json \<Rightarrow> string \<Rightarrow> tool_state \<Rightarrow>
    action_result awaited \<times> tool_state" where
  "try_handler U env name args call_id st =
     and_then (registry_execute (ce_handler env) name args (tu_registry U), st) (\<lambda>result st.
       let text = (case result of JStr s \<Rightarrow> s | _ \<Rightarrow> tu_dumps U result) in
       and_then (remember (ce_memory env) ''tool'' text (say (tool_message call_id text) st))
         (\<lambda>_ st. (Done (succeeded text), st)))"

definition dispatch_registry :: "('f, 'h) tool_setup \<Rightarrow> 'f call_env \<Rightarrow> string \<Rightarrow> json \<Rightarrow> string \<Rightarrow> tool_state \<Rightarrow>
    action_result awaited \<times> tool_state" where
  "dispatch_registry U env name args call_id st =
     (if \<not> registry_contains name (tu_registry U)
      then reply_failure U env name call_id (unregistered_text name) st
      else (case try_handler U env name args call_id st of
              (Fails _ e, st) \<Rightarrow> reply_failure U env name call_id (failure_text name e) st
            | r \<Rightarrow> r))"

definition dispatch_tool :: "('f, 'h) tool_setup \<Rightarrow> 'f call_env \<Rightarrow> string \<Rightarrow> json \<Rightarrow> string \<Rightarrow> tool_state \<Rightarrow>
    action_result awaited \<times> tool_state" where
  "dispatch_tool U env name args call_id st =
     (if tu_has_bridge U then dispatch_bridge U env name args call_id st
      else dispatch_registry U env name args call_id st)"

section \<open>\<open>_do_execute_tool\<close>: breaker, timeout, audit\<close>

text \<open>\<open>_resolve_tool_timeout_s\<close>: the vault's definition, then the registry's, then the default.\<close>

definition resolve_tool_timeout :: "('f, 'h) tool_setup \<Rightarrow> string \<Rightarrow> rat" where
  "resolve_tool_timeout U name =
     (let definitions =
            (case tu_vault U of None \<Rightarrow> [] | Some v \<Rightarrow>
               (case get_entry name v of None \<Rightarrow> [] | Some e \<Rightarrow> [te_definition e])) @
            (case get_definition name (tu_registry U) of None \<Rightarrow> [] | Some d \<Rightarrow> [d])
      in case filter (\<lambda>d. td_timeout_s d \<noteq> None \<and> td_timeout_s d \<noteq> Some 0) definitions of
           [] \<Rightarrow> tu_default_timeout U
         | d # _ \<Rightarrow> the (td_timeout_s d))"

definition tool_breaker :: "string \<Rightarrow> string" where
  "tool_breaker name = ''tool:'' @ name"

definition set_breaker :: "string \<Rightarrow> breaker \<Rightarrow> tool_state \<Rightarrow> tool_state" where
  "set_breaker name b st =
     st\<lparr>tx_breakers := (tx_breakers st)\<lparr>br_breakers := dset (tool_breaker name) b (br_breakers (tx_breakers st))\<rparr>\<rparr>"

text \<open>The breaker object of the tool is changed in place.\<close>

definition update_breaker :: "string \<Rightarrow> (breaker \<Rightarrow> breaker) \<Rightarrow> tool_state \<Rightarrow> tool_state" where
  "update_breaker name f st =
     (case dget (br_breakers (tx_breakers st)) (tool_breaker name) of
        None \<Rightarrow> st | Some b \<Rightarrow> set_breaker name (f b) st)"

definition audit_call :: "string \<Rightarrow> bool \<Rightarrow> string \<Rightarrow> tool_state \<Rightarrow> tool_state" where
  "audit_call name success e st = st\<lparr>tx_audit := tx_audit st @ [(name, success, take 500 e)]\<rparr>"

definition settle_call :: "'f call_env \<Rightarrow> string \<Rightarrow> action_result \<Rightarrow> tool_state \<Rightarrow>
    action_result awaited \<times> tool_state" where
  "settle_call env name action st =
     (let st = update_breaker name (if ax_success action then record_success else record_failure (ce_after env)) st
      in (Done action,
          audit_call name (ax_success action) (case ax_error action of None \<Rightarrow> [] | Some e \<Rightarrow> e) st))"

definition timeout_text :: "('f, 'h) tool_setup \<Rightarrow> string \<Rightarrow> string" where
  "timeout_text U name =
     ''tool '' @ name @ '' timed out (>'' @ tu_show_s U (resolve_tool_timeout U name) @ ''s)''"

definition do_execute_tool :: "('f, 'h) tool_setup \<Rightarrow> 'f call_env \<Rightarrow> string \<Rightarrow> json \<Rightarrow> string \<Rightarrow> tool_state \<Rightarrow>
    action_result awaited \<times> tool_state" where
  "do_execute_tool U env name args call_id st =
     (let (b, reg) = get_breaker (tool_breaker name) None (tx_breakers st);
          st = st\<lparr>tx_breakers := reg\<rparr>
      in case before_call (ce_before env) b of
           (Inl exc, b) \<Rightarrow>
             (let e = tu_open_text U exc in
              (Done (failed e),
               say (tool_message call_id (error_json U e)) (audit_call name False e (set_breaker name b st))))
         | (Inr _, b) \<Rightarrow>
             (case dispatch_tool U env name args call_id (set_breaker name b st) of
                (Done action, st) \<Rightarrow> settle_call env name action st
              | (TimesOut, st) \<Rightarrow>
                  (let e = timeout_text U name;
                       st = say (tool_message call_id (error_json U e)) st
                   in case auto_report U (ce_late_report env) name e st of
                        (IsCancelled, st) \<Rightarrow> (IsCancelled, st)
                      | (_, st) \<Rightarrow> settle_call env name (failed e) st)
              | (Fails c e, st) \<Rightarrow>
                  (Fails c e, audit_call name False (c @ '': '' @ e)
                     (update_breaker name (record_failure (ce_after env)) st))
              | (IsCancelled, st) \<Rightarrow> (IsCancelled, st)))"

section \<open>\<open>_execute_tool_call\<close>: the hooks\<close>

text \<open>
  A \<open>HookContext\<close> takes only a dictionary of arguments: anything else is a validation error.
  Handlers get a context of their own, so what they write to it is lost.
\<close>

definition tool_hook_context :: "hook_type \<Rightarrow> ('f, 'h) tool_setup \<Rightarrow> string \<Rightarrow> json \<Rightarrow> json \<Rightarrow> hook_context option" where
  "tool_hook_context ht U name args result =
     (case args of
        JObj d \<Rightarrow> Some ((new_hook_context ht (tu_agent_id U) (tu_agent_name U))
                    \<lparr>hc_tool_name := name, hc_tool_arguments := d, hc_tool_result := result\<rparr>)
      | _ \<Rightarrow> None)"

definition result_for_hook :: "action_result \<Rightarrow> json" where
  "result_for_hook a =
     (if ax_success a then ax_output a else (case ax_error a of None \<Rightarrow> JNull | Some e \<Rightarrow> JStr e))"

definition after_hooks :: "'h hook_behaviour \<Rightarrow> ('f, 'h) tool_setup \<Rightarrow> string \<Rightarrow> json \<Rightarrow> action_result \<Rightarrow> tool_state \<Rightarrow>
    action_result awaited \<times> tool_state" where
  "after_hooks beh U name args action st =
     (if has_hooks (tu_hooks U) AFTER_TOOL_CALL
      then (case tool_hook_context AFTER_TOOL_CALL U name args (result_for_hook action) of
              None \<Rightarrow> (Fails ''ValidationError'' ''tool_arguments'', st)
            | Some ctx \<Rightarrow>
                (let ignored = invoke beh AFTER_TOOL_CALL ctx (tu_hooks U) in (Done action, st)))
      else (Done action, st))"

definition modified_arguments :: "hook_decision \<Rightarrow> json \<Rightarrow> json" where
  "modified_arguments d args =
     (if hd_decision d = MODIFY
      then (case dget (hd_modified_data d) ''tool_arguments'' of None \<Rightarrow> args | Some v \<Rightarrow> v) else args)"

definition execute_tool_call :: "'h hook_behaviour \<Rightarrow> ('f, 'h) tool_setup \<Rightarrow> 'f call_env \<Rightarrow> string \<Rightarrow> json \<Rightarrow> string \<Rightarrow>
    tool_state \<Rightarrow> action_result awaited \<times> tool_state" where
  "execute_tool_call beh U env name args call_id st =
     (if has_hooks (tu_hooks U) BEFORE_TOOL_CALL
      then (case tool_hook_context BEFORE_TOOL_CALL U name args JNull of
              None \<Rightarrow> (Fails ''ValidationError'' ''tool_arguments'', st)
            | Some ctx \<Rightarrow>
                (let d = fst (invoke beh BEFORE_TOOL_CALL ctx (tu_hooks U)) in
                 if hd_decision d = BLOCK then (Done (failed (''tool call blocked: '' @ hd_reason d)), st)
                 else (let args = modified_arguments d args in
                       and_then (do_execute_tool U env name args call_id st) (after_hooks beh U name args))))
      else and_then (do_execute_tool U env name args call_id st) (after_hooks beh U name args))"

text \<open>\<open>Agent._act\<close> for a tool call: every exception becomes a failed result.\<close>

definition act_tool_call :: "'h hook_behaviour \<Rightarrow> ('f, 'h) tool_setup \<Rightarrow> 'f call_env \<Rightarrow> string \<Rightarrow> json \<Rightarrow> string \<Rightarrow>
    tool_state \<Rightarrow> action_result awaited \<times> tool_state" where
  "act_tool_call beh U env name args call_id st =
     (case execute_tool_call beh U env name args call_id st of
        (Fails c e, st) \<Rightarrow> (Done (failed e), st)
      | (TimesOut, st) \<Rightarrow> (Done (failed []), st)
      | r \<Rightarrow> r)"

section \<open>Lemmas\<close>

lemma say_fields [simp]:
  "tx_conversation (say m st) = tx_conversation st @ [m]" "tx_breakers (say m st) = tx_breakers st"
  "tx_memory (say m st) = tx_memory st" "tx_audit (say m st) = tx_audit st" "tx_reports (say m st) = tx_reports st"
  by (simp_all add: say_def)

lemma auto_report_fields [simp]:
  "tx_conversation (snd (auto_report U o1 n msg st)) = tx_conversation st"
  "tx_breakers (snd (auto_report U o1 n msg st)) = tx_breakers st"
  "tx_memory (snd (auto_report U o1 n msg st)) = tx_memory st"
  "tx_audit (snd (auto_report U o1 n msg st)) = tx_audit st"
  by (simp_all add: auto_report_def)

lemma auto_report_never_fails: "fst (auto_report U o1 n msg st) \<noteq> Fails c e"
  by (simp add: auto_report_def split: awaited.splits)

lemma remember_fields [simp]:
  "tx_conversation (snd (remember o1 n r st)) = tx_conversation st"
  "tx_breakers (snd (remember o1 n r st)) = tx_breakers st"
  "tx_audit (snd (remember o1 n r st)) = tx_audit st"
  "fst (remember o1 n r st) = o1"
  by (simp_all add: remember_def split: awaited.splits)

lemma update_breaker_fields [simp]:
  "tx_conversation (update_breaker n f st) = tx_conversation st"
  "tx_memory (update_breaker n f st) = tx_memory st" "tx_audit (update_breaker n f st) = tx_audit st"
  "tx_conversation (set_breaker n b st) = tx_conversation st"
  "tx_memory (set_breaker n b st) = tx_memory st" "tx_audit (set_breaker n b st) = tx_audit st"
  by (simp_all add: update_breaker_def set_breaker_def split: option.splits)

lemma audit_call_fields [simp]:
  "tx_conversation (audit_call n s e st) = tx_conversation st" "tx_memory (audit_call n s e st) = tx_memory st"
  "tx_breakers (audit_call n s e st) = tx_breakers st"
  "tx_audit (audit_call n s e st) = tx_audit st @ [(n, s, take 500 e)]"
  by (simp_all add: audit_call_def)

text \<open>What a sequence of awaits keeps, and what it never does.\<close>

lemma and_then_keeps:
  "P (snd r) \<Longrightarrow> (\<And>v s. P s \<Longrightarrow> P (snd (k v s))) \<Longrightarrow> P (snd (and_then r k))"
  by (cases r) (simp add: and_then_def split: awaited.splits)

lemma and_then_cases:
  obtains (went_on) v where "fst r = Done v" "and_then r k = k v (snd r)"
  | (failed) c e where "fst r = Fails c e" "and_then r k = (Fails c e, snd r)"
  | (timed_out) "fst r = TimesOut" "and_then r k = (TimesOut, snd r)"
  | (cancelled) "fst r = IsCancelled" "and_then r k = (IsCancelled, snd r)"
  by (cases r; cases "fst r") auto

lemmas dispatch_defs = dispatch_tool_def dispatch_bridge_def dispatch_registry_def try_handler_def
  reply_failure_def

lemma dispatch_keeps:
  assumes say: "\<And>c st. P st \<Longrightarrow> P (say (tool_message call_id c) st)"
    and rep: "\<And>o1 n m st. P st \<Longrightarrow> P (snd (auto_report U o1 n m st))"
    and mem: "\<And>o1 n r st. P st \<Longrightarrow> P (snd (remember o1 n r st))"
    and start: "P st"
  shows "P (snd (dispatch_tool U env name args call_id st))"
proof -
  have b: "P (snd (dispatch_bridge U env name args call_id st))"
    unfolding dispatch_bridge_def Let_def
  proof (rule and_then_keeps, simp add: start, clarify)
    fix out is_error s assume "P s"
    from say [OF this] have s': "P (say (tool_message call_id out) s)" .
    have r: "P (snd (and_then (auto_report U (ce_report env) name out (say (tool_message call_id out) s))
        (\<lambda>_ st. (Done (failed out), st))))"
      by (rule and_then_keeps) (simp_all add: rep [OF s'])
    have m: "P (snd (and_then (remember (ce_memory env) ''tool'' out (say (tool_message call_id out) s))
        (\<lambda>_ st. (Done (succeeded out), st))))"
      by (rule and_then_keeps) (simp_all add: mem [OF s'])
    from r m show "P (snd (if is_error
        then and_then (auto_report U (ce_report env) name out (say (tool_message call_id out) s))
          (\<lambda>_ st. (Done (failed out), st))
        else and_then (remember (ce_memory env) ''tool'' out (say (tool_message call_id out) s))
          (\<lambda>_ st. (Done (succeeded out), st))))" by simp
  qed
  have f: "P (snd (reply_failure U env name call_id m s))" if "P s" for m s
    unfolding reply_failure_def by (rule and_then_keeps) (simp_all add: that say rep)
  have t: "P (snd (try_handler U env name args call_id st))"
    unfolding try_handler_def Let_def
    by (rule and_then_keeps, simp add: start) (rule and_then_keeps, rule mem, rule say, assumption, simp)
  have "P (snd (dispatch_registry U env name args call_id st))"
    using t f start by (auto simp: dispatch_registry_def split: prod.split awaited.split)
  with b show ?thesis by (simp add: dispatch_tool_def)
qed

lemma dispatch_frame [simp]:
  "tx_breakers (snd (dispatch_tool U env name args call_id st)) = tx_breakers st"
  "tx_audit (snd (dispatch_tool U env name args call_id st)) = tx_audit st"
  by (rule dispatch_keeps [where P = "\<lambda>s. tx_breakers s = tx_breakers st"]; simp)
    (rule dispatch_keeps [where P = "\<lambda>s. tx_audit s = tx_audit st"]; simp)

section \<open>Every call gets its reply\<close>

lemma auto_report_done:
  "o1 \<noteq> TimesOut \<Longrightarrow> o1 \<noteq> IsCancelled \<Longrightarrow> auto_report U o1 n m st = (Done (), snd (auto_report U o1 n m st))"
  by (cases o1) (simp_all add: auto_report_def)

lemma remember_done: "o1 = Done () \<Longrightarrow> remember o1 n r st = (Done (), snd (remember o1 n r st))"
  by (simp add: remember_def)

text \<open>
  The environment of a call that nobody cancels: the bridge answers or is timed out, a handler may
  also raise, the memory takes the result, and reporting a failure is not cut off.
\<close>

definition orderly :: "('f, 'h) tool_setup \<Rightarrow> 'f call_env \<Rightarrow> string \<Rightarrow> json \<Rightarrow> bool" where
  "orderly U env name args \<longleftrightarrow>
     (if tu_has_bridge U
      then (case ce_bridge env name args of Done _ \<Rightarrow> True | TimesOut \<Rightarrow> True | _ \<Rightarrow> False)
      else registry_execute (ce_handler env) name args (tu_registry U) \<noteq> IsCancelled) \<and>
     ce_memory env = Done () \<and> ce_report env \<noteq> TimesOut \<and> ce_report env \<noteq> IsCancelled \<and>
     ce_late_report env \<noteq> IsCancelled"

text \<open>The reply \<open>c\<close> that goes with the result \<open>a\<close> of a call.\<close>

definition reply_of :: "('f, 'h) tool_setup \<Rightarrow> action_result \<Rightarrow> string \<Rightarrow> bool" where
  "reply_of U a c \<longleftrightarrow> a = succeeded c \<or> (\<exists>e. a = failed e \<and> (c = e \<or> c = error_json U e))"

lemma reply_failure_done:
  assumes "ce_report env \<noteq> TimesOut" "ce_report env \<noteq> IsCancelled"
  shows "\<exists>st'. reply_failure U env name call_id m st = (Done (failed m), st') \<and>
    tx_conversation st' = tx_conversation st @ [tool_message call_id (error_json U m)]"
  unfolding reply_failure_def by (subst auto_report_done [OF assms]) simp

lemma dispatch_orderly:
  assumes "orderly U env name args"
  shows "\<exists>r st'. dispatch_tool U env name args call_id st = (r, st') \<and>
    (r = TimesOut \<and> tx_conversation st' = tx_conversation st \<or>
     (\<exists>a c. r = Done a \<and> reply_of U a c \<and>
        tx_conversation st' = tx_conversation st @ [tool_message call_id c]))"
proof (cases "tu_has_bridge U")
  case True
  show ?thesis
  proof (cases "ce_bridge env name args")
    case (Done p)
    obtain c err where p: "p = (c, err)" by (cases p)
    show ?thesis
    proof (cases err)
      case True
      with Done p \<open>tu_has_bridge U\<close> show ?thesis
        using auto_report_done [of "ce_report env" U name c "say (tool_message call_id c) st"] assms
        by (auto simp: dispatch_tool_def dispatch_bridge_def Let_def orderly_def reply_of_def)
          (metis and_then_simps(1) auto_report_fields(1) say_fields(1))
    next
      case False
      with Done p \<open>tu_has_bridge U\<close> show ?thesis
        using remember_done [of "ce_memory env" "''tool''" c "say (tool_message call_id c) st"] assms
        by (auto simp: dispatch_tool_def dispatch_bridge_def Let_def orderly_def reply_of_def remember_def)
    qed
  qed (use True assms in \<open>simp_all add: orderly_def dispatch_tool_def dispatch_bridge_def\<close>)
next
  case False
  from assms have rep: "ce_report env \<noteq> TimesOut" "ce_report env \<noteq> IsCancelled" and mem: "ce_memory env = Done ()"
    by (simp_all add: orderly_def)
  show ?thesis
  proof (cases "registry_contains name (tu_registry U)")
    case here: True
    show ?thesis
    proof (cases "registry_execute (ce_handler env) name args (tu_registry U)")
      case (Done v)
      with False here mem show ?thesis
        by (auto simp: dispatch_tool_def dispatch_registry_def try_handler_def remember_def Let_def reply_of_def)
    next
      case (Fails c e)
      with False here show ?thesis
        using reply_failure_done [OF rep, of U name call_id "failure_text name e" st]
        by (fastforce simp: dispatch_tool_def dispatch_registry_def try_handler_def reply_of_def)
    qed (use False here assms in \<open>simp_all add: dispatch_tool_def dispatch_registry_def try_handler_def orderly_def\<close>)
  next
    case absent: False
    with False show ?thesis
      using reply_failure_done [OF rep, of U name call_id "unregistered_text name" st]
      by (fastforce simp: dispatch_tool_def dispatch_registry_def reply_of_def)
  qed
qed

lemma settle_call_fields [simp]:
  "fst (settle_call env name a st) = Done a"
  "tx_conversation (snd (settle_call env name a st)) = tx_conversation st"
  "tx_memory (snd (settle_call env name a st)) = tx_memory st"
  "tx_audit (snd (settle_call env name a st)) = tx_audit st @
     [(name, ax_success a, take 500 (case ax_error a of None \<Rightarrow> [] | Some e \<Rightarrow> e))]"
  by (simp_all add: settle_call_def Let_def)

text \<open>The breaker that a call of the tool finds.\<close>

definition breaker_of :: "string \<Rightarrow> tool_state \<Rightarrow> breaker" where
  "breaker_of name st = fst (get_breaker (tool_breaker name) None (tx_breakers st))"

text \<open>\<open>do_execute_tool\<close>, one equation for each way a call can go.\<close>

definition with_breaker :: "string \<Rightarrow> breaker \<Rightarrow> tool_state \<Rightarrow> tool_state" where
  "with_breaker name b st =
     set_breaker name b (st\<lparr>tx_breakers := snd (get_breaker (tool_breaker name) None (tx_breakers st))\<rparr>)"

lemma with_breaker_fields [simp]:
  "tx_conversation (with_breaker name b st) = tx_conversation st" "tx_memory (with_breaker name b st) = tx_memory st"
  "tx_audit (with_breaker name b st) = tx_audit st" "tx_reports (with_breaker name b st) = tx_reports st"
  "breaker_of name (with_breaker name b st) = b"
  by (simp_all add: with_breaker_def set_breaker_def breaker_of_def get_breaker_def)

lemma get_breaker_None:
  "get_breaker n None r =
     (case dget (br_breakers r) n of None \<Rightarrow> (new_breaker n (br_default_config r),
        r\<lparr>br_breakers := dset n (new_breaker n (br_default_config r)) (br_breakers r)\<rparr>) | Some b \<Rightarrow> (b, r))"
  by (simp add: get_breaker_def Let_def split: option.split)

lemma do_execute_rejected:
  "before_call (ce_before env) (breaker_of name st) = (Inl exc, b) \<Longrightarrow>
   do_execute_tool U env name args call_id st =
     (Done (failed (tu_open_text U exc)),
      say (tool_message call_id (error_json U (tu_open_text U exc)))
        (audit_call name False (tu_open_text U exc) (with_breaker name b st)))"
  by (cases "get_breaker (tool_breaker name) None (tx_breakers st)")
    (simp add: do_execute_tool_def breaker_of_def with_breaker_def Let_def)

lemma do_execute_admitted:
  assumes "before_call (ce_before env) (breaker_of name st) = (Inr (), b)"
    and "dispatch_tool U env name args call_id (with_breaker name b st) = (r, st')"
  shows "do_execute_tool U env name args call_id st =
    (case r of
       Done a \<Rightarrow> settle_call env name a st'
     | TimesOut \<Rightarrow>
         (let e = timeout_text U name; st1 = say (tool_message call_id (error_json U e)) st' in
          case auto_report U (ce_late_report env) name e st1 of
            (IsCancelled, st2) \<Rightarrow> (IsCancelled, st2)
          | (_, st2) \<Rightarrow> settle_call env name (failed e) st2)
     | Fails c e \<Rightarrow> (Fails c e, audit_call name False (c @ '': '' @ e)
                       (update_breaker name (record_failure (ce_after env)) st'))
     | IsCancelled \<Rightarrow> (IsCancelled, st'))"
  using assms
  by (cases "get_breaker (tool_breaker name) None (tx_breakers st)"; cases r)
    (simp_all add: do_execute_tool_def breaker_of_def with_breaker_def)

text \<open>
  Whatever happens, a tool call only appends replies under its own id to the conversation.
\<close>

definition only_replies :: "string \<Rightarrow> chat_message list \<Rightarrow> chat_message list \<Rightarrow> bool" where
  "only_replies cid ms ms' \<longleftrightarrow> (\<exists>cs. ms' = ms @ map (tool_message cid) cs)"

lemma only_replies_refl [simp]: "only_replies cid ms ms"
  by (simp add: only_replies_def)

lemma only_replies_snoc [intro]: "only_replies cid ms ms' \<Longrightarrow> only_replies cid ms (ms' @ [tool_message cid c])"
  unfolding only_replies_def by (metis append_assoc list.simps(8,9) map_append)

lemma dispatch_only_replies:
  "only_replies cid (tx_conversation st) (tx_conversation (snd (dispatch_tool U env name args cid st)))"
  by (rule dispatch_keeps [where P = "\<lambda>s. only_replies cid (tx_conversation st) (tx_conversation s)"]) auto

lemma do_execute_only_replies:
  "only_replies cid (tx_conversation st) (tx_conversation (snd (do_execute_tool U env name args cid st)))"
proof (cases "before_call (ce_before env) (breaker_of name st)")
  case (Pair x b)
  show ?thesis
  proof (cases x)
    case (Inl exc)
    with Pair show ?thesis by (auto simp: do_execute_rejected)
  next
    case (Inr u)
    with Pair have adm: "before_call (ce_before env) (breaker_of name st) = (Inr (), b)" by simp
    obtain r st1 where d: "dispatch_tool U env name args cid (with_breaker name b st) = (r, st1)" by fastforce
    have o1: "only_replies cid (tx_conversation st) (tx_conversation st1)"
      using dispatch_only_replies [of cid "with_breaker name b st" U env name args] by (simp add: d)
    show ?thesis
    proof (cases r)
      case TimesOut
      let ?st2 = "say (tool_message cid (error_json U (timeout_text U name))) st1"
      obtain ro st3 where rep: "auto_report U (ce_late_report env) name (timeout_text U name) ?st2 = (ro, st3)" by fastforce
      then have "tx_conversation st3 = tx_conversation ?st2" by (metis auto_report_fields(1) snd_conv)
      with o1 rep TimesOut do_execute_admitted [OF adm d] show ?thesis
        by (cases ro) (auto simp: Let_def)
    qed (use o1 do_execute_admitted [OF adm d] in auto)
  qed
qed

lemma and_then_snd: "snd (and_then r k) = (case fst r of Done v \<Rightarrow> snd (k v (snd r)) | _ \<Rightarrow> snd r)"
  by (cases r; cases "fst r") auto

lemma after_hooks_state [simp]: "snd (after_hooks beh U name args a st) = st"
  by (simp add: after_hooks_def split: option.split)

lemma act_only_replies:
  "only_replies cid (tx_conversation st) (tx_conversation (snd (act_tool_call beh U env name args cid st)))"
proof -
  have "only_replies cid (tx_conversation st) (tx_conversation (snd (execute_tool_call beh U env name args cid st)))"
    using do_execute_only_replies [of cid st U env name]
    by (auto simp: execute_tool_call_def Let_def and_then_snd split: option.split awaited.split)
  then show ?thesis
    by (cases "execute_tool_call beh U env name args cid st"; cases "fst (execute_tool_call beh U env name args cid st)")
      (auto simp: act_tool_call_def)
qed

lemma act_ends:
  obtains (acted) a st' where "act_tool_call beh U env name args cid st = (Done a, st')"
  | (cancelled) st' where "act_tool_call beh U env name args cid st = (IsCancelled, st')"
proof -
  obtain r st' where "execute_tool_call beh U env name args cid st = (r, st')" by fastforce
  then show ?thesis by (cases r) (auto intro: that simp: act_tool_call_def)
qed

lemma do_execute_orderly:
  assumes "orderly U env name args"
  shows "\<exists>a c st'. do_execute_tool U env name args call_id st = (Done a, st') \<and> reply_of U a c \<and>
    tx_conversation st' = tx_conversation st @ [tool_message call_id c]"
proof (cases "before_call (ce_before env) (breaker_of name st)")
  case (Pair x b)
  show ?thesis
  proof (cases x)
    case (Inl exc)
    with Pair show ?thesis by (simp add: do_execute_rejected reply_of_def) blast
  next
    case (Inr u)
    obtain r st1 where d: "dispatch_tool U env name args call_id (with_breaker name b st) = (r, st1)"
      and out: "r = TimesOut \<and> tx_conversation st1 = tx_conversation st \<or>
        (\<exists>a c. r = Done a \<and> reply_of U a c \<and> tx_conversation st1 = tx_conversation st @ [tool_message call_id c])"
      using dispatch_orderly [OF assms, of call_id "with_breaker name b st"] by auto
    note run = do_execute_admitted [OF _ d, unfolded Pair Inr, simplified]
    from out show ?thesis
    proof
      assume t: "r = TimesOut \<and> tx_conversation st1 = tx_conversation st"
      have late: "auto_report U (ce_late_report env) name (timeout_text U name) s \<noteq> (IsCancelled, s')" for s s'
        using assms by (simp add: auto_report_def orderly_def split: awaited.splits)
      show ?thesis
        by (rule exI [where x = "failed (timeout_text U name)"],
            rule exI [where x = "error_json U (timeout_text U name)"])
          (use t late auto_report_fields(1) in \<open>auto simp: run reply_of_def Let_def prod_eq_iff split: prod.split awaited.split\<close>)
    next
      assume "\<exists>a c. r = Done a \<and> reply_of U a c \<and>
        tx_conversation st1 = tx_conversation st @ [tool_message call_id c]"
      then show ?thesis by (auto simp: run prod_eq_iff)
    qed
  qed
qed


definition demo_tool :: tool_definition where
  "demo_tool = \<lparr>td_name = ''echo'', td_description = [], td_parameters = [], td_version = ''1.0.0'',
     td_language = ''python'', td_runtime = [], td_risk_level = ''low'', td_required_permissions = [],
     td_timeout_s = None\<rparr>"

definition demo_setup :: "bool \<Rightarrow> (nat, nat) tool_setup" where
  "demo_setup bridge = \<lparr>tu_agent_id = ''a'', tu_agent_name = ''A'', tu_hooks = new_hook_registry,
     tu_has_bridge = bridge, tu_vault = None, tu_registry = registry_register demo_tool 7 new_tool_registry,
     tu_guardian = ''g'', tu_default_timeout = 180,
     tu_dumps = (\<lambda>j. case j of JObj [(k, JStr m)] \<Rightarrow> k @ '': '' @ m | _ \<Rightarrow> ''json''),
     tu_show_s = (\<lambda>_. ''180''), tu_open_text = (\<lambda>_. ''open'')\<rparr>"

definition demo_env :: "json awaited \<Rightarrow> (string \<times> bool) awaited \<Rightarrow> unit awaited \<Rightarrow> nat call_env" where
  "demo_env h b m = \<lparr>ce_bridge = (\<lambda>_ _. b), ce_handler = (\<lambda>_ _. h), ce_memory = m, ce_report = Done (),
     ce_late_report = Done (), ce_before = 1, ce_after = 2\<rparr>"

definition demo_state :: tool_state where
  "demo_state = \<lparr>tx_conversation = [], tx_breakers = new_breaker_registry None, tx_memory = [],
     tx_reports = [], tx_audit = []\<rparr>"

lemmas demo_defs = demo_tool_def demo_setup_def demo_env_def demo_state_def orderly_def
  registry_register_def new_tool_registry_def registry_execute_def


lemma dget_breakers_fields [simp]:
  "dget (br_breakers (tx_breakers (set_breaker name b st))) k =
     (if k = tool_breaker name then Some b else dget (br_breakers (tx_breakers st)) k)"
  "br_default_config (tx_breakers (set_breaker name b st)) = br_default_config (tx_breakers st)"
  by (simp_all add: set_breaker_def)

lemma update_breaker_get [simp]:
  "dget (br_breakers (tx_breakers (update_breaker name f st))) k =
     (if k = tool_breaker name then map_option f (dget (br_breakers (tx_breakers st)) k)
      else dget (br_breakers (tx_breakers st)) k)"
  "br_default_config (tx_breakers (update_breaker name f st)) = br_default_config (tx_breakers st)"
  by (auto simp: update_breaker_def split: option.splits)

lemma with_breaker_get [simp]:
  "dget (br_breakers (tx_breakers (with_breaker name b st))) k =
     (if k = tool_breaker name then Some b else dget (br_breakers (tx_breakers st)) k)"
  "br_default_config (tx_breakers (with_breaker name b st)) = br_default_config (tx_breakers st)"
  by (auto simp: with_breaker_def get_breaker_None split: option.splits)

lemma settle_call_breakers [simp]:
  "tx_breakers (snd (settle_call env name a st)) =
     tx_breakers (update_breaker name (if ax_success a then record_success else record_failure (ce_after env)) st)"
  by (simp add: settle_call_def Let_def)

lemma tool_breaker_eq [simp]: "tool_breaker m = tool_breaker n \<longleftrightarrow> m = n"
  by (simp add: tool_breaker_def)

text \<open>How an admitted call ends, on the fields that the dispatch does not touch.\<close>

lemma admitted_accounting:
  assumes "before_call (ce_before env) (breaker_of name st) = (Inr (), b)"
    and "do_execute_tool U env name args call_id st = (r, st')"
  shows "r = IsCancelled \<and> tx_audit st' = tx_audit st \<and>
      dget (br_breakers (tx_breakers st')) = (\<lambda>k. if k = tool_breaker name then Some b else dget (br_breakers (tx_breakers st)) k) \<or>
    r \<noteq> IsCancelled \<and> r \<noteq> TimesOut \<and> (\<exists>e. tx_audit st' = tx_audit st @ [(name, \<exists>a. r = Done a \<and> ax_success a, take 500 e)]) \<and>
      dget (br_breakers (tx_breakers st')) = (\<lambda>k. if k = tool_breaker name
        then Some ((if \<exists>a. r = Done a \<and> ax_success a then record_success else record_failure (ce_after env)) b)
        else dget (br_breakers (tx_breakers st)) k)"
proof -
  obtain r1 st1 where d: "dispatch_tool U env name args call_id (with_breaker name b st) = (r1, st1)" by fastforce
  have f: "tx_breakers st1 = tx_breakers (with_breaker name b st)" "tx_audit st1 = tx_audit st"
    using dispatch_frame [of U env name args call_id "with_breaker name b st"] by (simp_all add: d)
  note run = do_execute_admitted [OF assms(1) d]
  show ?thesis
  proof (cases r1)
    case (Done a)
    with run assms(2) f have "r = Done a" "st' = snd (settle_call env name a st1)" by (auto simp: prod_eq_iff)
    with f show ?thesis by (auto simp: fun_eq_iff)
  next
    case (Fails c e)
    with run assms(2) have "r = Fails c e" "st' = audit_call name False (c @ '': '' @ e)
        (update_breaker name (record_failure (ce_after env)) st1)" by auto
    with f show ?thesis by (auto simp: fun_eq_iff simp del: take_append)
  next
    case TimesOut
    define e st2 where "e = timeout_text U name" and
      "st2 = say (tool_message call_id (error_json U e)) st1"
    obtain ro st3 where rep: "auto_report U (ce_late_report env) name e st2 = (ro, st3)" by fastforce
    have f3: "tx_breakers st3 = tx_breakers st1" "tx_audit st3 = tx_audit st"
      using auto_report_fields [of U "ce_late_report env" name e st2] f unfolding rep by (simp_all add: st2_def)
    from run TimesOut assms(2) rep have out: "(r, st') =
        (case ro of IsCancelled \<Rightarrow> (IsCancelled, st3) | _ \<Rightarrow> settle_call env name (failed e) st3)"
      by (simp add: Let_def e_def st2_def split: awaited.splits)
    show ?thesis
    proof (cases "ro = IsCancelled")
      case True
      with out f f3 show ?thesis by (auto simp: fun_eq_iff)
    next
      case False
      with out have "r = Done (failed e)" "st' = snd (settle_call env name (failed e) st3)"
        by (auto simp: prod_eq_iff split: awaited.splits)
      with f f3 show ?thesis by (auto simp: fun_eq_iff failed_def)
    qed
  next
    case IsCancelled
    with run assms(2) f show ?thesis by (auto simp: fun_eq_iff)
  qed
qed

text \<open>
  Accounting of a tool call. Whatever the environment does, a call that is not cancelled leaves
  exactly one audit entry, which says success exactly when the call succeeded and holds at most 500
  characters of the error, and a cancelled one leaves none; and no call ever touches the circuit
  breaker of another tool.
\<close>

theorem tool_call_accounting:
  assumes "do_execute_tool U env name args call_id st = (r, st')"
  shows "(\<forall>m. m \<noteq> name \<longrightarrow> dget (br_breakers (tx_breakers st')) (tool_breaker m) =
        dget (br_breakers (tx_breakers st)) (tool_breaker m)) \<and>
    (if r = IsCancelled then tx_audit st' = tx_audit st
     else \<exists>e. length e \<le> 500 \<and> tx_audit st' = tx_audit st @ [(name, \<exists>a. r = Done a \<and> ax_success a, e)])"
proof (cases "before_call (ce_before env) (breaker_of name st)")
  case (Pair x b)
  show ?thesis
  proof (cases x)
    case (Inl exc)
    with Pair assms have "r = Done (failed (tu_open_text U exc))"
      "st' = say (tool_message call_id (error_json U (tu_open_text U exc)))
        (audit_call name False (tu_open_text U exc) (with_breaker name b st))"
      by (simp_all add: do_execute_rejected)
    then show ?thesis by (auto simp: failed_def intro: exI [where x = "take 500 (tu_open_text U exc)"])
  next
    case (Inr u)
    with Pair admitted_accounting [OF _ assms, of b] show ?thesis
      by (auto simp: intro!: exI [where x = "take 500 _"])
  qed
qed

theorem tool_call_accounting_witness:
  "\<exists>r st'. do_execute_tool (demo_setup True) (demo_env (Done JNull) (Fails ''OSError'' ''gone'') (Done ()))
       ''echo'' (JObj []) ''c1'' demo_state = (r, st') \<and>
     (\<exists>e. length e \<le> 500 \<and> tx_audit st' = tx_audit demo_state @ [(''echo'', False, e)])"
proof -
  let ?run = "do_execute_tool (demo_setup True) (demo_env (Done JNull) (Fails ''OSError'' ''gone'') (Done ()))
       ''echo'' (JObj []) ''c1'' demo_state"
  have "fst ?run = Fails ''OSError'' ''gone''"
    by (simp add: do_execute_tool_def get_breaker_None demo_defs new_breaker_registry_def new_breaker_def
        default_breaker_config_def breaker_defs dispatch_defs split: prod.split option.split)
  then obtain st' where run: "?run = (Fails ''OSError'' ''gone'', st')" by (metis prod.collapse)
  from tool_call_accounting [OF run] run show ?thesis by simp
qed

section \<open>A failing tool is cut off\<close>

text \<open>A call of the tool whose dispatch fails whatever the state is.\<close>

definition call_fails :: "('f, 'h) tool_setup \<Rightarrow> string \<Rightarrow> 'f call_env \<times> json \<times> string \<Rightarrow> bool" where
  "call_fails U name = (\<lambda>(env, args, cid). \<forall>st.
     (case fst (dispatch_tool U env name args cid st) of
        Done a \<Rightarrow> \<not> ax_success a | Fails _ _ \<Rightarrow> True
      | TimesOut \<Rightarrow> ce_late_report env \<noteq> IsCancelled | IsCancelled \<Rightarrow> False))"

definition run_calls :: "('f, 'h) tool_setup \<Rightarrow> string \<Rightarrow> ('f call_env \<times> json \<times> string) list \<Rightarrow> tool_state \<Rightarrow> tool_state" where
  "run_calls U name = fold (\<lambda>(env, args, cid) st. snd (do_execute_tool U env name args cid st))"

lemma breaker_of_Some: "dget (br_breakers (tx_breakers st)) (tool_breaker name) = Some b \<Longrightarrow> breaker_of name st = b"
  by (simp add: breaker_of_def get_breaker_None)

lemma failing_call_breaker:
  assumes "call_fails U name (env, args, cid)" and "cb_state (breaker_of name st) = CLOSED"
  shows "breaker_of name (snd (do_execute_tool U env name args cid st)) =
    record_failure (ce_after env) (breaker_of name st)"
proof -
  let ?b = "breaker_of name st"
  have adm: "before_call (ce_before env) ?b = (Inr (), ?b)" using assms(2) by (simp add: before_call_def)
  obtain r1 st1 where d: "dispatch_tool U env name args cid (with_breaker name ?b st) = (r1, st1)" by fastforce
  obtain r st' where run: "do_execute_tool U env name args cid st = (r, st')" by fastforce
  have bad: "case r1 of Done a \<Rightarrow> \<not> ax_success a | Fails _ _ \<Rightarrow> True
      | TimesOut \<Rightarrow> ce_late_report env \<noteq> IsCancelled | IsCancelled \<Rightarrow> False"
    using assms(1) d unfolding call_fails_def by (metis (no_types, lifting) case_prod_conv fst_conv)
  have no: "auto_report U (ce_late_report env) n m s \<noteq> (IsCancelled, s')" if "r1 = TimesOut" for n m s s'
    using bad that by (simp add: auto_report_def split: awaited.splits)
  have "r \<noteq> IsCancelled \<and> \<not> (\<exists>a. r = Done a \<and> ax_success a)"
    using run bad no unfolding do_execute_admitted [OF adm d]
    by (cases r1) (auto simp: settle_call_def Let_def failed_def split: prod.splits awaited.splits)
  with admitted_accounting [OF adm run]
  have "dget (br_breakers (tx_breakers st')) (tool_breaker name) = Some (record_failure (ce_after env) ?b)"
    by auto
  with run show ?thesis by (simp add: breaker_of_Some)
qed

lemma closed_failures:
  "cb_state b = CLOSED \<Longrightarrow> bc_enabled (cb_config b) \<Longrightarrow>
   cb_failure_count b + length ts < bc_failure_threshold (cb_config b) \<Longrightarrow>
   fold record_failure ts b =
     b\<lparr>cb_failure_count := cb_failure_count b + length ts, cb_total_failure := cb_total_failure b + length ts\<rparr>"
proof (induction ts arbitrary: b)
  case (Cons t ts)
  then have "record_failure t b =
      b\<lparr>cb_failure_count := Suc (cb_failure_count b), cb_total_failure := Suc (cb_total_failure b)\<rparr>"
    by (simp add: breaker_defs)
  with Cons.prems Cons.IH [of "record_failure t b"] show ?case by simp
qed simp

lemma failing_calls_breaker:
  assumes "list_all (call_fails U name) cs" and "cb_state (breaker_of name st) = CLOSED"
    and "bc_enabled (cb_config (breaker_of name st))"
    and "cb_failure_count (breaker_of name st) + length cs \<le> bc_failure_threshold (cb_config (breaker_of name st))"
  shows "breaker_of name (run_calls U name cs st) =
    fold record_failure (map (\<lambda>x. ce_after (fst x)) cs) (breaker_of name st)"
  using assms
proof (induction cs arbitrary: st)
  case Nil
  then show ?case by (simp add: run_calls_def)
next
  case (Cons x cs)
  obtain env args cid where x: "x = (env, args, cid)" by (cases x)
  let ?st = "snd (do_execute_tool U env name args cid st)"
  have b: "breaker_of name ?st = record_failure (ce_after env) (breaker_of name st)"
    using Cons.prems by (intro failing_call_breaker) (simp_all add: x)
  show ?case
  proof (cases cs)
    case Nil
    with b show ?thesis by (simp add: run_calls_def x)
  next
    case (Cons y ys)
    with Cons.prems b have "cb_state (breaker_of name ?st) = CLOSED" "cb_config (breaker_of name ?st) = cb_config (breaker_of name st)"
      "cb_failure_count (breaker_of name ?st) = Suc (cb_failure_count (breaker_of name st))"
      by (simp_all add: breaker_defs)
    with Cons.IH [of ?st] Cons.prems b show ?thesis by (simp add: run_calls_def x)
  qed
qed

text \<open>
  C39: A failing tool is cut off. After as many failures in a row as the breaker's threshold allows,
  a further call of that tool within the recovery timeout is answered with the error of the open
  breaker: the tool is not run, nothing reaches the memory or the guardian, and the reply is the
  same whatever the tool would do.
\<close>

theorem failing_tool_cut_off:
  assumes "cb_state (breaker_of name st) = CLOSED" and "cb_failure_count (breaker_of name st) = 0"
    and "cb_config (breaker_of name st) = c" and "bc_enabled c" and "valid_breaker_config c"
    and "length cs = bc_failure_threshold c" and "list_all (call_fails U name) cs"
    and "elapsed = ce_before env - ce_after (fst (last cs))" and "elapsed < bc_recovery_timeout_s c"
    and "e = tu_open_text U (CircuitOpenError (cb_name (breaker_of name (run_calls U name cs st)))
                               (bc_recovery_timeout_s c - elapsed))"
  shows "\<exists>st'. do_execute_tool U env name args cid (run_calls U name cs st) = (Done (failed e), st') \<and>
    tx_conversation st' = tx_conversation (run_calls U name cs st) @ [tool_message cid (error_json U e)] \<and>
    tx_memory st' = tx_memory (run_calls U name cs st) \<and> tx_reports st' = tx_reports (run_calls U name cs st)"
proof -
  let ?t = "\<lambda>x :: 'a call_env \<times> json \<times> string. ce_after (fst x)" and ?b = "breaker_of name st"
  let ?b' = "breaker_of name (run_calls U name cs st)"
  have len: "0 < length cs" using assms(5,6) by (simp add: valid_breaker_config_def)
  then obtain ds x where cs: "cs = ds @ [x]" by (metis length_greater_0_conv rev_exhaust)
  have "?b' = fold record_failure (map ?t cs) ?b"
    by (rule failing_calls_breaker) (use assms in simp_all)
  also have "\<dots> = record_failure (?t x) (fold record_failure (map ?t ds) ?b)" by (simp add: cs)
  also have "fold record_failure (map ?t ds) ?b =
      ?b\<lparr>cb_failure_count := length ds, cb_total_failure := cb_total_failure ?b + length ds\<rparr>"
    using closed_failures [of ?b "map ?t ds"] assms(1-6) by (simp add: cs)
  finally have b': "cb_state ?b' = OPEN" "cb_opened_at ?b' = ?t x" "cb_config ?b' = c"
    using assms(1-6) by (simp_all add: breaker_defs cs)
  have "before_call (ce_before env) ?b' = (Inl (CircuitOpenError (cb_name ?b') (bc_recovery_timeout_s c - elapsed)),
      ?b'\<lparr>cb_rejected := cb_rejected ?b' + 1\<rparr>)"
    using b' assms(4,8,9) by (cases x) (simp add: before_call_def Let_def cs)
  from do_execute_rejected [OF this, of U args cid] assms(10) show ?thesis
    by (simp add: audit_call_def)
qed

lemma demo_failing: "call_fails (demo_setup False) ''echo'' (demo_env (Fails ''ValueError'' ''bad'') TimesOut m, args, cid)"
  by (simp add: call_fails_def dispatch_defs auto_report_def demo_defs registry_contains_def failed_def)

theorem failing_tool_cut_off_witness:
  "\<exists>st'. do_execute_tool (demo_setup False) (demo_env (Done (JStr ''fine'')) TimesOut (Done ())) ''echo'' (JObj []) ''c6''
       (run_calls (demo_setup False) ''echo''
         (replicate 5 (demo_env (Fails ''ValueError'' ''bad'') TimesOut (Done ()), JObj [], ''c'')) demo_state) =
     (Done (failed ''open''), st')"
proof -
  have b: "breaker_of ''echo'' demo_state = new_breaker (tool_breaker ''echo'') default_breaker_config"
    by (simp add: breaker_of_def demo_state_def get_breaker_None new_breaker_registry_def)
  let ?cs = "replicate 5 (demo_env (Fails ''ValueError'' ''bad'') TimesOut (Done ()), JObj [], ''c'')"
  let ?env = "demo_env (Done (JStr ''fine'')) TimesOut (Done ())"
  have "\<exists>st'. do_execute_tool (demo_setup False) ?env ''echo'' (JObj []) ''c6''
      (run_calls (demo_setup False) ''echo'' ?cs demo_state) = (Done (failed ''open''), st') \<and>
    tx_conversation st' = tx_conversation (run_calls (demo_setup False) ''echo'' ?cs demo_state) @
      [tool_message ''c6'' (error_json (demo_setup False) ''open'')] \<and>
    tx_memory st' = tx_memory (run_calls (demo_setup False) ''echo'' ?cs demo_state) \<and>
    tx_reports st' = tx_reports (run_calls (demo_setup False) ''echo'' ?cs demo_state)"
  proof (rule failing_tool_cut_off [where c = default_breaker_config and elapsed = "-1"])
    show "list_all (call_fails (demo_setup False) ''echo'') ?cs"
      by (simp add: list_all_iff demo_failing)
  qed (simp_all add: b new_breaker_def default_breaker_config_def valid_breaker_config_def demo_env_def demo_setup_def)
  then show ?thesis by blast
qed

section \<open>Calls without a reply, and with two\<close>

text \<open>
  A call can stay without its reply. When a \<open>before_tool_call\<close> hook blocks it, or the bridge
  raises, the agent goes on with a failed result and the conversation is unchanged: the assistant
  message that made the call is followed by no tool message with its id.
\<close>

theorem unanswered_calls:
  "(\<forall>ctx. has_hooks (tu_hooks U) BEFORE_TOOL_CALL \<longrightarrow>
      tool_hook_context BEFORE_TOOL_CALL U name args JNull = Some ctx \<longrightarrow>
      hd_decision (fst (invoke beh BEFORE_TOOL_CALL ctx (tu_hooks U))) = BLOCK \<longrightarrow>
      (\<exists>e. act_tool_call beh U env name args cid st = (Done (failed e), st))) \<and>
   (\<not> has_hooks (tu_hooks U) BEFORE_TOOL_CALL \<longrightarrow> tu_has_bridge U \<longrightarrow> ce_bridge env name args = Fails c e \<longrightarrow>
      cb_state (breaker_of name st) = CLOSED \<longrightarrow>
      (\<exists>st'. act_tool_call beh U env name args cid st = (Done (failed e), st') \<and>
         tx_conversation st' = tx_conversation st))"
proof (intro conjI allI impI)
  fix ctx
  assume "has_hooks (tu_hooks U) BEFORE_TOOL_CALL" "tool_hook_context BEFORE_TOOL_CALL U name args JNull = Some ctx"
    "hd_decision (fst (invoke beh BEFORE_TOOL_CALL ctx (tu_hooks U))) = BLOCK"
  then show "\<exists>e. act_tool_call beh U env name args cid st = (Done (failed e), st)"
    by (auto simp: act_tool_call_def execute_tool_call_def Let_def intro: exI)
next
  assume h: "\<not> has_hooks (tu_hooks U) BEFORE_TOOL_CALL" "tu_has_bridge U" "ce_bridge env name args = Fails c e"
    "cb_state (breaker_of name st) = CLOSED"
  from h(4) have adm: "before_call (ce_before env) (breaker_of name st) = (Inr (), breaker_of name st)"
    by (simp add: before_call_def)
  have "dispatch_tool U env name args cid (with_breaker name (breaker_of name st) st) =
      (Fails c e, with_breaker name (breaker_of name st) st)"
    using h by (simp add: dispatch_defs)
  from do_execute_admitted [OF adm this] h(1)
  show "\<exists>st'. act_tool_call beh U env name args cid st = (Done (failed e), st') \<and>
         tx_conversation st' = tx_conversation st"
    by (simp add: act_tool_call_def execute_tool_call_def)
qed

definition blocking :: "(nat, nat) tool_setup" where
  "blocking = (demo_setup True)\<lparr>tu_hooks := register_hook
     \<lparr>he_hook_type = BEFORE_TOOL_CALL, he_handler = 0, he_priority = 0, he_plugin_name = []\<rparr> new_hook_registry\<rparr>"

theorem unanswered_calls_witness:
  "(\<exists>e. act_tool_call (\<lambda>_ ctx. (ctx, Some (block_because ''no''))) blocking (demo_env (Done JNull) TimesOut (Done ()))
       ''echo'' (JObj []) ''c1'' demo_state = (Done (failed e), demo_state)) \<and>
   (\<exists>st'. act_tool_call (\<lambda>_ ctx. (ctx, None)) (demo_setup True) (demo_env (Done JNull) (Fails ''OSError'' ''gone'') (Done ()))
       ''echo'' (JObj []) ''c1'' demo_state = (Done (failed ''gone''), st') \<and> tx_conversation st' = [])"
proof
  let ?beh = "\<lambda>_ ctx. (ctx, Some (block_because ''no''))"
  have "has_hooks (tu_hooks blocking) BEFORE_TOOL_CALL"
    "\<exists>ctx. tool_hook_context BEFORE_TOOL_CALL blocking ''echo'' (JObj []) JNull = Some ctx \<and>
       hd_decision (fst (invoke ?beh BEFORE_TOOL_CALL ctx (tu_hooks blocking))) = BLOCK"
    by (simp_all add: blocking_def has_hooks_def register_hook_def new_hook_registry_def tool_hook_context_def
        invoke_def block_because_def)
  then show "\<exists>e. act_tool_call ?beh blocking (demo_env (Done JNull) TimesOut (Done ()))
       ''echo'' (JObj []) ''c1'' demo_state = (Done (failed e), demo_state)"
    using conjunct1 [OF unanswered_calls, of blocking "''echo''" "JObj []" ?beh] by blast
  show "\<exists>st'. act_tool_call (\<lambda>_ ctx. (ctx, None)) (demo_setup True) (demo_env (Done JNull) (Fails ''OSError'' ''gone'') (Done ()))
       ''echo'' (JObj []) ''c1'' demo_state = (Done (failed ''gone''), st') \<and> tx_conversation st' = []"
    using conjunct2 [OF unanswered_calls, of "demo_setup True" "demo_env (Done JNull) (Fails ''OSError'' ''gone'') (Done ())"
        "''echo''" "JObj []" "''OSError''" "''gone''" demo_state "\<lambda>_ ctx. (ctx, None)" "''c1''"]
    by (simp add: demo_defs has_hooks_def new_hook_registry_def breaker_of_def get_breaker_None
        new_breaker_registry_def new_breaker_def)
qed

text \<open>
  A call that succeeded can be answered twice and counted as a failure. When the bridge has
  returned the tool's text but the time runs out while the memory takes it in, the conversation
  gets the text and then a timeout error under the same call id, and the result, the breaker and
  the audit log say that the tool failed; the registry path does the same when the memory raises.
\<close>

theorem late_failure_answers_twice:
  assumes "cb_state (breaker_of name st) = CLOSED" and "ce_late_report env \<noteq> IsCancelled"
    and "if tu_has_bridge U then ce_bridge env name args = Done (t, False) \<and> ce_memory env = TimesOut
         else registry_contains name (tu_registry U) \<and> ce_memory env = Fails c e \<and>
           registry_execute (ce_handler env) name args (tu_registry U) = Done (JStr t) \<and>
           ce_report env \<noteq> TimesOut \<and> ce_report env \<noteq> IsCancelled"
  shows "\<exists>msg st'. do_execute_tool U env name args cid st = (Done (failed msg), st') \<and>
    tx_conversation st' = tx_conversation st @ [tool_message cid t, tool_message cid (error_json U msg)] \<and>
    breaker_of name st' = record_failure (ce_after env) (breaker_of name st)"
proof -
  let ?b = "breaker_of name st"
  have adm: "before_call (ce_before env) ?b = (Inr (), ?b)" using assms(1) by (simp add: before_call_def)
  let ?st = "say (tool_message cid t) (with_breaker name ?b st)"
  have "\<exists>msg st'. do_execute_tool U env name args cid st = (Done (failed msg), st') \<and>
      tx_conversation st' = tx_conversation st @ [tool_message cid t, tool_message cid (error_json U msg)]"
  proof (cases "tu_has_bridge U")
    case True
    with assms(3) have "dispatch_tool U env name args cid (with_breaker name ?b st) = (TimesOut, ?st)"
      by (simp add: dispatch_defs remember_def Let_def)
    note run = do_execute_admitted [OF adm this]
    let ?m = "timeout_text U name" and ?st1 = "say (tool_message cid (error_json U (timeout_text U name))) ?st"
    obtain ro st2 where rep: "auto_report U (ce_late_report env) name ?m ?st1 = (ro, st2)" by fastforce
    then have "ro \<noteq> IsCancelled" "tx_conversation st2 = tx_conversation ?st1"
      using assms(2) auto_report_fields(1) [of U "ce_late_report env" name ?m ?st1]
      by (auto simp: auto_report_def split: awaited.splits if_splits)
    with run rep show ?thesis
      by (intro exI [where x = ?m]) (auto simp: Let_def prod_eq_iff split: awaited.splits)
  next
    case False
    with assms(3) have "try_handler U env name args cid (with_breaker name ?b st) = (Fails c e, ?st)"
      by (simp add: try_handler_def remember_def Let_def)
    with False assms(3) obtain st1 where
      "dispatch_tool U env name args cid (with_breaker name ?b st) = (Done (failed (failure_text name e)), st1)"
      "tx_conversation st1 = tx_conversation st @ [tool_message cid t, tool_message cid (error_json U (failure_text name e))]"
      using reply_failure_done [of env U name cid "failure_text name e" ?st]
      by (auto simp: dispatch_tool_def dispatch_registry_def)
    with do_execute_admitted [OF adm this(1)] show ?thesis
      by (intro exI [where x = "failure_text name e"]) (auto simp: prod_eq_iff)
  qed
  then obtain msg st' where run: "do_execute_tool U env name args cid st = (Done (failed msg), st')"
    and conv: "tx_conversation st' = tx_conversation st @ [tool_message cid t, tool_message cid (error_json U msg)]"
    by blast
  have "dget (br_breakers (tx_breakers st')) (tool_breaker name) = Some (record_failure (ce_after env) ?b)"
    using admitted_accounting [OF adm run] by (auto simp: failed_def)
  with run conv show ?thesis by (auto simp: breaker_of_Some)
qed

theorem late_failure_answers_twice_witness:
  "\<exists>msg st'. do_execute_tool (demo_setup True) (demo_env (Done JNull) (Done (''sent'', False)) TimesOut) ''echo'' (JObj []) ''c1''
       demo_state = (Done (failed msg), st') \<and>
     tx_conversation st' = [tool_message ''c1'' ''sent'', tool_message ''c1'' (error_json (demo_setup True) msg)]"
  using late_failure_answers_twice [of "''echo''" demo_state "demo_env (Done JNull) (Done (''sent'', False)) TimesOut"
      "demo_setup True" "JObj []" "''sent''" c e "''c1''"]
  by (auto simp: demo_defs breaker_of_def get_breaker_None new_breaker_registry_def new_breaker_def)

section \<open>Hooks, timeouts and cancellation\<close>

text \<open>
  The hooks after a tool call decide nothing: two behaviours of the handlers that answer alike before
  calls give the same results, although the class documents that a handler may modify the result.
\<close>

theorem after_hooks_decide_nothing:
  assumes "\<And>ctx. fst (invoke beh BEFORE_TOOL_CALL ctx (tu_hooks U)) = fst (invoke beh' BEFORE_TOOL_CALL ctx (tu_hooks U))"
  shows "act_tool_call beh U env name args cid st = act_tool_call beh' U env name args cid st"
proof -
  have "after_hooks beh U name a = after_hooks beh' U name a" for a
    by (simp add: fun_eq_iff after_hooks_def split: option.split)
  with assms have "execute_tool_call beh U env name args cid st = execute_tool_call beh' U env name args cid st"
    by (simp add: execute_tool_call_def Let_def split: option.split)
  then show ?thesis by (simp add: act_tool_call_def)
qed

text \<open>
  The timeout of a call: the one the tool declares in the vault, else the one it declares in the
  agent's registry, else the default; a declared timeout of 0 counts as none.
\<close>

lemma resolve_tool_timeout_cases:
  "(tu_vault U = Some v \<longrightarrow> get_entry name v = Some e \<longrightarrow> td_timeout_s (te_definition e) = Some t \<longrightarrow> t \<noteq> 0 \<longrightarrow>
      resolve_tool_timeout U name = t) \<and>
   (tu_vault U = None \<longrightarrow> get_definition name (tu_registry U) = Some d \<longrightarrow> td_timeout_s d = Some t \<longrightarrow> t \<noteq> 0 \<longrightarrow>
      resolve_tool_timeout U name = t) \<and>
   (tu_vault U = None \<longrightarrow> get_definition name (tu_registry U) = None \<longrightarrow>
      resolve_tool_timeout U name = tu_default_timeout U)"
  by (simp add: resolve_tool_timeout_def)

text \<open>
  A call that is cancelled while the breaker is half-open keeps its slot: the breaker is left as
  the admission left it.
\<close>

lemma cancelled_call_keeps_slot:
  assumes "cb_state (breaker_of name st) = HALF_OPEN" and "bc_enabled (cb_config (breaker_of name st))"
    and "do_execute_tool U env name args cid st = (IsCancelled, st')"
  shows "cb_half_open_in_flight (breaker_of name st') = cb_half_open_in_flight (breaker_of name st) + 1"
proof -
  obtain x b where adm: "before_call (ce_before env) (breaker_of name st) = (x, b)" by fastforce
  with assms have "x = Inr ()" by (cases x) (auto simp: do_execute_rejected)
  with adm admitted_accounting [OF _ assms(3), of b]
  have "dget (br_breakers (tx_breakers st')) (tool_breaker name) = Some b" by auto
  with adm assms(1,2) \<open>x = Inr ()\<close> show ?thesis
    by (auto simp: breaker_of_Some breaker_defs split: if_splits)
qed

end
