(* ===== verification/AgentLoop.thy ===== *)
theory AgentLoop
  imports Prompt ToolExec
begin

text \<open>
  \<open>youmi/core/agent.py\<close> and \<open>core/models.py\<close>: the ReAct loop of an agent. A turn observes the
  conversation (prompt layers, hooks, compaction), asks the LLM, executes the first tool call it
  asks for and reflects; \<open>run\<close> repeats this until the LLM answers in plain text, an exception
  escapes or the turns are used up, \<open>chat_turn\<close> does the same within a dialogue. The LLM, the hooks
  of subclasses, the self check and the parsing of tool calls out of plain text are arguments: the
  environment of each turn says how its external calls end.
\<close>

section \<open>Status\<close>

datatype agent_status = CREATED | IDLE | RUNNING | WAITING | COMPLETED | FAILED | DESTROYED

definition is_terminal :: "agent_status \<Rightarrow> bool" where
  "is_terminal s \<longleftrightarrow> s \<in> {COMPLETED, FAILED, DESTROYED}"

definition is_active :: "agent_status \<Rightarrow> bool" where
  "is_active s \<longleftrightarrow> s \<in> {RUNNING, WAITING}"

section \<open>Replies of the LLM\<close>

record tool_call =
  tc_id :: string
  tc_name :: string
  tc_arguments :: string

record llm_response =
  rs_content :: string
  rs_tool_calls :: "tool_call list"

definition tool_call_json :: "tool_call \<Rightarrow> json" where
  "tool_call_json tc =
     JObj [(''id'', JStr (tc_id tc)), (''type'', JStr ''function''),
       (''function'', JObj [(''name'', JStr (tc_name tc)), (''arguments'', JStr (tc_arguments tc))])]"

text \<open>\<open>LLMResponse.raw_message\<close>.\<close>

definition raw_message :: "llm_response \<Rightarrow> chat_message" where
  "raw_message r =
     [(''role'', JStr ''assistant''),
      (''content'', if rs_content r \<noteq> [] then JStr (rs_content r) else JNull)] @
     (if rs_tool_calls r \<noteq> [] then [(''tool_calls'', JList (map tool_call_json (rs_tool_calls r)))] else [])"

section \<open>The agent and its environment\<close>

text \<open>
  \<open>au_loads\<close> is \<open>json.loads\<close> (\<open>None\<close> when it raises), \<open>au_text_calls\<close> is
  \<open>_parse_text_tool_calls\<close>, which searches a text for calls of the given tools.
\<close>

record ('f, 'h) agent_setup =
  au_tools :: "('f, 'h) tool_setup"
  au_hooks :: "'h hook_behaviour"
  au_max_iterations :: nat
  au_system_prompt :: string
  au_max_context_tokens :: int
  au_has_llm :: bool
  au_loads :: "string \<Rightarrow> json option"
  au_text_calls :: "string \<Rightarrow> string list \<Rightarrow> tool_call list"
  au_py_str :: "json \<Rightarrow> string"
  au_cjk :: "char \<Rightarrow> bool"

text \<open>
  \<open>tn_warm\<close>: the summary lines of the tools that the bridge reports as warm after it has advanced
  its turn and recycled idle tools (\<open>None\<close> without a bridge that has a context or a vault).
\<close>

record 'f turn_env =
  tn_warm :: "string list option"
  tn_summary :: llm_reply
  tn_llm :: "chat_message list \<Rightarrow> llm_response awaited"
  tn_call :: "'f call_env"
  tn_memory :: "unit awaited"

record agent =
  am_status :: agent_status
  am_iteration :: nat
  am_failures :: nat
  am_budget_sent :: bool
  am_compactor :: "compactor option"
  am_assembler :: "assembler option"
  am_chat_ready :: bool
  am_tools :: tool_state

abbreviation conversation :: "agent \<Rightarrow> chat_message list" where
  "conversation a \<equiv> tx_conversation (am_tools a)"

definition append_message :: "chat_message \<Rightarrow> agent \<Rightarrow> agent" where
  "append_message m a = a\<lparr>am_tools := say m (am_tools a)\<rparr>"

definition chat_text :: "string \<Rightarrow> string \<Rightarrow> chat_message" where
  "chat_text role content = [(''role'', JStr role), (''content'', JStr content)]"

section \<open>Initialization and destruction\<close>

text \<open>
  \<open>initialize\<close>: the memory, the automatic restoring of a session (\<open>Done None\<close> when it is off or
  finds none), the registration of a pending provider with \<open>on_initialize\<close>; \<open>None\<close>: wrong status.
\<close>

definition initialize :: "('f, 'h) agent_setup \<Rightarrow> unit awaited \<Rightarrow> chat_message list option awaited \<Rightarrow> unit awaited \<Rightarrow>
    agent \<Rightarrow> (unit awaited \<times> agent) option" where
  "initialize A memory restored on_initialize a =
     (if am_status a \<noteq> CREATED then None
      else Some (and_then (memory, a) (\<lambda>_ a. and_then (restored, a) (\<lambda>_ a. and_then (on_initialize, a) (\<lambda>_ a.
             (Done (), a\<lparr>am_assembler := Some (from_system_prompt (au_system_prompt A) []), am_status := IDLE\<rparr>))))))"

definition system_messages :: "string \<Rightarrow> chat_message list" where
  "system_messages prompt = (if prompt \<noteq> [] then [chat_text ''system'' prompt] else [])"

text \<open>\<open>_ensure_chat_initialized\<close>, where \<open>init\<close> is how \<open>initialize\<close> goes if it has to be called.\<close>

definition ensure_chat :: "('f, 'h) agent_setup \<Rightarrow> (agent \<Rightarrow> unit awaited \<times> agent) \<Rightarrow> agent \<Rightarrow> unit awaited \<times> agent" where
  "ensure_chat A init a =
     (if am_chat_ready a then (Done (), a)
      else and_then (if am_status a = CREATED then init a else (Done (), a)) (\<lambda>_ a.
        (Done (), a\<lparr>am_tools := (am_tools a)\<lparr>tx_conversation := system_messages (au_system_prompt A)\<rparr>,
           am_chat_ready := True,
           am_status := (if am_status a \<in> {IDLE, RUNNING} then am_status a else IDLE)\<rparr>)))"

definition destroy :: "unit awaited \<Rightarrow> agent \<Rightarrow> unit awaited \<times> agent" where
  "destroy on_destroy a =
     (if am_status a = DESTROYED then (Done (), a)
      else and_then (on_destroy, a) (\<lambda>_ a. (Done (), a\<lparr>am_status := DESTROYED\<rparr>)))"

section \<open>Observe\<close>

text \<open>\<open>_refresh_warm_tools_layer\<close>.\<close>

definition refresh_warm :: "string list option \<Rightarrow> agent \<Rightarrow> agent" where
  "refresh_warm warm a =
     (case (warm, am_assembler a) of
        (Some summaries, Some ls) \<Rightarrow>
          a\<lparr>am_assembler := Some (if summaries \<noteq> []
            then add_layer \<lparr>pl_name = ''warm_tools'',
                   pl_content = ''[warm tools]'' @ newline @ join_with newline summaries,
                   pl_priority = 45, pl_token_budget = 512\<rparr> ls
            else snd (remove_layer ''warm_tools'' ls))\<rparr>
      | _ \<Rightarrow> a)"

text \<open>More than one layer: the system message is assembled anew.\<close>

definition with_prompt :: "('f, 'h) agent_setup \<Rightarrow> agent \<Rightarrow> chat_message list" where
  "with_prompt A a =
     (case am_assembler a of
        Some ls \<Rightarrow>
          (case conversation a of
             m # ms \<Rightarrow> if 1 < length ls \<and> is_system m
                       then chat_text ''system'' (assemble (au_cjk A) (au_max_context_tokens A div 4) ls) # ms
                       else m # ms
           | [] \<Rightarrow> [])
      | None \<Rightarrow> conversation a)"

text \<open>The messages a hook decision puts in place of \<open>ms\<close>; \<open>None\<close> if they are not messages.\<close>

definition messages_of_json :: "json \<Rightarrow> chat_message list option" where
  "messages_of_json j =
     (case j of JList xs \<Rightarrow> those (map (\<lambda>x. case x of JObj d \<Rightarrow> Some d | _ \<Rightarrow> None) xs) | _ \<Rightarrow> None)"

definition modified_messages :: "hook_decision \<Rightarrow> chat_message list \<Rightarrow> chat_message list option" where
  "modified_messages d ms =
     (if hd_decision d = MODIFY
      then (case dget (hd_modified_data d) ''messages'' of None \<Rightarrow> Some ms | Some v \<Rightarrow> messages_of_json v)
      else Some ms)"

definition message_hook :: "('f, 'h) agent_setup \<Rightarrow> hook_type \<Rightarrow> chat_message list \<Rightarrow> hook_decision" where
  "message_hook A ht ms =
     fst (invoke (au_hooks A) ht
       ((new_hook_context ht (tu_agent_id (au_tools A)) (tu_agent_name (au_tools A)))
          \<lparr>hc_messages := map JObj ms\<rparr>) (tu_hooks (au_tools A)))"

text \<open>\<open>invoke\<close> passes when there is no hook, so the test for hooks needs no branch of its own.\<close>

definition observe :: "('f, 'h) agent_setup \<Rightarrow> 'f turn_env \<Rightarrow> agent \<Rightarrow> chat_message list option \<times> agent" where
  "observe A env a =
     (let ms = with_prompt A a in
      case modified_messages (message_hook A BEFORE_PROMPT_BUILD ms) ms of
        None \<Rightarrow> (None, a)
      | Some ms \<Rightarrow>
          (case am_compactor a of
             None \<Rightarrow> (Some ms, a)
           | Some c \<Rightarrow>
               (let (ms', c') = maybe_compact (au_py_str A) (tn_summary env) ms c in
                (Some ms', a\<lparr>am_compactor := Some c'\<rparr>))))"

section \<open>Think\<close>

datatype thought = CallTool string json string | Respond string

definition last_user :: "chat_message list \<Rightarrow> string" where
  "last_user ms =
     (case find (\<lambda>m. dget m ''role'' = Some (JStr ''user'')) (rev ms) of None \<Rightarrow> [] | Some m \<Rightarrow> content_of m)"

text \<open>The first call of a list: its arguments are parsed, and are empty if that fails.\<close>

definition first_call :: "('f, 'h) agent_setup \<Rightarrow> tool_call \<Rightarrow> thought" where
  "first_call A tc =
     CallTool (tc_name tc) (case au_loads A (tc_arguments tc) of None \<Rightarrow> JObj [] | Some v \<Rightarrow> v) (tc_id tc)"

definition thought_of :: "('f, 'h) agent_setup \<Rightarrow> llm_response \<Rightarrow> thought" where
  "thought_of A r =
     (case rs_tool_calls r of
        tc # _ \<Rightarrow> first_call A tc
      | [] \<Rightarrow>
          (let names = registry_tool_names (tu_registry (au_tools A)) in
           if names \<noteq> [] \<and> rs_content r \<noteq> []
           then (case au_text_calls A (rs_content r) names of
                   tc # _ \<Rightarrow> first_call A tc | [] \<Rightarrow> Respond (rs_content r))
           else Respond (rs_content r)))"

definition think :: "('f, 'h) agent_setup \<Rightarrow> 'f turn_env \<Rightarrow> chat_message list \<Rightarrow> agent \<Rightarrow> thought awaited \<times> agent" where
  "think A env ms a =
     (if \<not> au_has_llm A then (Done (Respond (''[no LLM client] received: '' @ last_user ms)), a)
      else
        (let d = message_hook A BEFORE_MODEL_CALL ms in
         if hd_decision d = BLOCK then (Done (Respond (''[model call blocked] '' @ hd_reason d)), a)
         else (case modified_messages d ms of
                 None \<Rightarrow> (Fails ''TypeError'' ''messages'', a)
               | Some ms \<Rightarrow>
                   and_then (tn_llm env ms, a)
                     (\<lambda>r a. (Done (thought_of A r), append_message (raw_message r) a)))))"

section \<open>Reminders\<close>

datatype reminder = TooManyFailures nat | BudgetLow nat nat

definition reminder_text :: "reminder \<Rightarrow> string" where
  "reminder_text r =
     (case r of
        TooManyFailures n \<Rightarrow> ''[system] '' @ show_nat n @ '' tool calls failed in a row; stop and conclude.''
      | BudgetLow k n \<Rightarrow> ''[system] turn '' @ show_nat k @ ''/'' @ show_nat n @ ''; few are left, conclude.'')"

definition inject_reminders :: "nat \<Rightarrow> bool \<Rightarrow> agent \<Rightarrow> reminder list \<times> agent" where
  "inject_reminders max_iterations success a =
     (let (rs, a) =
            (if success then ([], a\<lparr>am_failures := 0\<rparr>)
             else (let n = am_failures a + 1 in
                   if 3 \<le> n then ([TooManyFailures n], a\<lparr>am_failures := 0\<rparr>) else ([], a\<lparr>am_failures := n\<rparr>)));
          (bs, a) =
            (if int max_iterations - int (am_iteration a) \<le> 2 \<and> \<not> am_budget_sent a
             then ([BudgetLow (am_iteration a) max_iterations], a\<lparr>am_budget_sent := True\<rparr>) else ([], a))
      in (rs @ bs, fold (\<lambda>r. append_message (chat_text ''user'' (reminder_text r))) (rs @ bs) a))"

section \<open>A turn\<close>

text \<open>How a turn ends; an exception keeps the answer that was already given.\<close>

datatype turn_end = GoOn | Answer string | Broke string string "string option" | Stopped

definition act :: "('f, 'h) agent_setup \<Rightarrow> 'f turn_env \<Rightarrow> string \<Rightarrow> json \<Rightarrow> string \<Rightarrow> agent \<Rightarrow> action_result awaited \<times> agent" where
  "act A env name args call_id a =
     (case act_tool_call (au_hooks A) (au_tools A) (tn_call env) name args call_id (am_tools a) of
        (r, st) \<Rightarrow> (r, a\<lparr>am_tools := st\<rparr>))"

definition remember_text :: "unit awaited \<Rightarrow> string \<Rightarrow> string \<Rightarrow> agent \<Rightarrow> unit awaited \<times> agent" where
  "remember_text outcome role content a =
     (case remember outcome role content (am_tools a) of (r, st) \<Rightarrow> (r, a\<lparr>am_tools := st\<rparr>))"

definition begin_turn :: "'f turn_env \<Rightarrow> agent \<Rightarrow> agent" where
  "begin_turn env a = refresh_warm (tn_warm env) (a\<lparr>am_iteration := am_iteration a + 1\<rparr>)"

text \<open>One pass of the loop of \<open>run\<close>. A \<open>TimeoutError\<close> is an exception like any other here.\<close>

definition run_turn :: "('f, 'h) agent_setup \<Rightarrow> 'f turn_env \<Rightarrow> agent \<Rightarrow> turn_end \<times> agent" where
  "run_turn A env a =
     (case observe A env (begin_turn env a) of
        (None, a) \<Rightarrow> (Broke ''TypeError'' ''messages'' None, a)
      | (Some ms, a) \<Rightarrow>
          (case think A env ms a of
             (Fails c e, a) \<Rightarrow> (Broke c e None, a)
           | (TimesOut, a) \<Rightarrow> (Broke ''TimeoutError'' [] None, a)
           | (IsCancelled, a) \<Rightarrow> (Stopped, a)
           | (Done (CallTool name args call_id), a) \<Rightarrow>
               (case act A env name args call_id a of
                  (Done r, a) \<Rightarrow> (GoOn, snd (inject_reminders (au_max_iterations A) (ax_success r) a))
                | (_, a) \<Rightarrow> (Stopped, a))
           | (Done (Respond out), a) \<Rightarrow>
               (if out = [] then (Answer out, a\<lparr>am_status := COMPLETED\<rparr>)
                else (case remember_text (tn_memory env) ''assistant'' out a of
                        (Done _, a) \<Rightarrow> (Answer out, a\<lparr>am_status := COMPLETED\<rparr>)
                      | (Fails c e, a) \<Rightarrow> (Broke c e (Some out), a)
                      | (TimesOut, a) \<Rightarrow> (Broke ''TimeoutError'' [] (Some out), a)
                      | (IsCancelled, a) \<Rightarrow> (Stopped, a)))))"

section \<open>\<open>run\<close>\<close>

record task_result =
  rt_status :: agent_status
  rt_output :: "string option"
  rt_iterations :: nat
  rt_error :: "(string \<times> string) option"

text \<open>\<open>TaskResult.success\<close>.\<close>

definition rt_success :: "task_result \<Rightarrow> bool" where
  "rt_success r \<longleftrightarrow> rt_status r = COMPLETED"

text \<open>
  What surrounds the loop: \<open>on_start\<close>, the self check (the capabilities it finds missing, if the LLM
  says that the tools do not suffice), the requests for tools it then makes, the memory of the
  task, \<open>on_stop\<close> and the end of the memory's session.
\<close>

record run_env =
  rv_on_start :: "unit awaited"
  rv_missing :: "string list option awaited"
  rv_requests :: "unit awaited"
  rv_memory :: "unit awaited"
  rv_on_stop :: "unit awaited"
  rv_session_end :: "unit awaited"

datatype run_end = NotIdle | Escaped string string | RunCancelled | Finished task_result

definition max_output :: "nat \<Rightarrow> string" where
  "max_output n = ''reached the maximum of '' @ show_nat n @ '' turns; the task may be unfinished''"

text \<open>The \<open>while\<close> loop with its \<open>else\<close>: \<open>n\<close> turns are left, the environments are numbered by turn.\<close>

fun run_loop :: "('f, 'h) agent_setup \<Rightarrow> (nat \<Rightarrow> 'f turn_env) \<Rightarrow> nat \<Rightarrow> agent \<Rightarrow> turn_end \<times> agent" where
  "run_loop A envs 0 a = (Answer (max_output (au_max_iterations A)), a\<lparr>am_status := COMPLETED\<rparr>)"
| "run_loop A envs (Suc n) a =
     (case run_turn A (envs (am_iteration a)) a of
        (GoOn, a) \<Rightarrow> run_loop A envs n a
      | r \<Rightarrow> r)"

definition self_check_layer :: "string list \<Rightarrow> prompt_layer" where
  "self_check_layer missing =
     \<lparr>pl_name = ''task_self_check'', pl_content = ''[self check] missing: '' @ join_with '', '' missing,
      pl_priority = 70, pl_token_budget = 0\<rparr>"

definition self_check :: "string list option \<Rightarrow> agent \<Rightarrow> agent" where
  "self_check missing a =
     (case (missing, am_assembler a) of
        (Some (x # xs), Some ls) \<Rightarrow> a\<lparr>am_assembler := Some (add_layer (self_check_layer (x # xs)) ls)\<rparr>
      | _ \<Rightarrow> a)"

definition initial_conversation :: "string \<Rightarrow> string \<Rightarrow> chat_message list" where
  "initial_conversation prompt task = system_messages prompt @ [chat_text ''user'' task]"

text \<open>Everything before the \<open>try\<close>.\<close>

definition run_prelude :: "('f, 'h) agent_setup \<Rightarrow> run_env \<Rightarrow> string \<Rightarrow> agent \<Rightarrow> unit awaited \<times> agent" where
  "run_prelude A rv task a =
     (let a = a\<lparr>am_status := RUNNING, am_iteration := 0\<rparr> in
      and_then (rv_on_start rv, a) (\<lambda>_ a.
      and_then (rv_missing rv, a) (\<lambda>missing a.
      let a = self_check missing a in
      and_then (case missing of Some (_ # _) \<Rightarrow> rv_requests rv | _ \<Rightarrow> Done (), a) (\<lambda>_ a.
      let a = a\<lparr>am_tools := (am_tools a)\<lparr>tx_conversation := initial_conversation (au_system_prompt A) task\<rparr>\<rparr> in
      and_then (remember_text (rv_memory rv) ''user'' task a) (\<lambda>_ a.
      (Done (), a\<lparr>am_failures := 0, am_budget_sent := False\<rparr>))))))"

definition as_end :: "unit awaited \<Rightarrow> run_end \<Rightarrow> run_end" where
  "as_end r k = (case r of Done _ \<Rightarrow> k | Fails c e \<Rightarrow> Escaped c e | TimesOut \<Rightarrow> Escaped ''TimeoutError'' []
     | IsCancelled \<Rightarrow> RunCancelled)"

definition finish_run :: "run_env \<Rightarrow> string option \<Rightarrow> (string \<times> string) option \<Rightarrow> agent \<Rightarrow> run_end" where
  "finish_run rv out err a =
     as_end (rv_on_stop rv) (as_end (rv_session_end rv)
       (Finished \<lparr>rt_status = am_status a, rt_output = out, rt_iterations = am_iteration a, rt_error = err\<rparr>))"

definition run :: "('f, 'h) agent_setup \<Rightarrow> run_env \<Rightarrow> (nat \<Rightarrow> 'f turn_env) \<Rightarrow> string \<Rightarrow> agent \<Rightarrow> run_end \<times> agent" where
  "run A rv envs task a =
     (if am_status a \<noteq> IDLE then (NotIdle, a)
      else (case run_prelude A rv task a of
              (Done _, a) \<Rightarrow>
                (case run_loop A envs (au_max_iterations A) a of
                   (Answer out, a) \<Rightarrow> (finish_run rv (Some out) None a, a)
                 | (Broke c e out, a) \<Rightarrow>
                     (let a = a\<lparr>am_status := FAILED\<rparr> in (finish_run rv out (Some (c, e)) a, a))
                 | (_, a) \<Rightarrow> (RunCancelled, a\<lparr>am_status := IDLE\<rparr>))
            | (r, a) \<Rightarrow> (as_end r RunCancelled, a)))"

section \<open>\<open>chat_turn\<close>\<close>

record chat_reply =
  cr_response :: string
  cr_iterations :: nat
  cr_tool_calls :: "string list"
  cr_error :: "(string \<times> string) option"

text \<open>One pass of its loop: no reminders, the result of the call is dropped, the answer is not remembered yet.\<close>

definition chat_step :: "('f, 'h) agent_setup \<Rightarrow> 'f turn_env \<Rightarrow> agent \<Rightarrow> turn_end \<times> string list \<times> agent" where
  "chat_step A env a =
     (case observe A env (refresh_warm (tn_warm env) a) of
        (None, a) \<Rightarrow> (Broke ''TypeError'' ''messages'' None, [], a)
      | (Some ms, a) \<Rightarrow>
          (case think A env ms a of
             (Fails c e, a) \<Rightarrow> (Broke c e None, [], a)
           | (TimesOut, a) \<Rightarrow> (Broke ''TimeoutError'' [] None, [], a)
           | (IsCancelled, a) \<Rightarrow> (Stopped, [], a)
           | (Done (CallTool name args call_id), a) \<Rightarrow>
               (case act A env name args call_id a of
                  (Done _, a) \<Rightarrow> (GoOn, [name], a) | (_, a) \<Rightarrow> (Stopped, [name], a))
           | (Done (Respond out), a) \<Rightarrow> (Answer out, [], a)))"

fun chat_loop :: "('f, 'h) agent_setup \<Rightarrow> 'f turn_env list \<Rightarrow> agent \<Rightarrow> turn_end \<times> nat \<times> string list \<times> agent" where
  "chat_loop A [] a = (Answer ''reached the maximum of turns; the reply may be incomplete'', 0, [], a)"
| "chat_loop A (env # envs) a =
     (case chat_step A env a of
        (GoOn, names, a) \<Rightarrow>
          (case chat_loop A envs a of (r, n, rest, a) \<Rightarrow> (r, Suc n, names @ rest, a))
      | (r, names, a) \<Rightarrow> (r, 1, names, a))"

definition error_text :: "string \<Rightarrow> string \<Rightarrow> string" where
  "error_text c e = ''error: '' @ c @ '': '' @ e"

text \<open>\<open>chat_turn\<close> of an initialized agent; there are \<open>max_iterations\<close> environments.\<close>

definition chat_turn :: "('f, 'h) agent_setup \<Rightarrow> unit awaited \<Rightarrow> unit awaited \<Rightarrow> 'f turn_env list \<Rightarrow> string \<Rightarrow>
    agent \<Rightarrow> chat_reply awaited \<times> agent" where
  "chat_turn A user_memory reply_memory envs message a =
     and_then (remember_text user_memory ''user'' message (append_message (chat_text ''user'' message) a)) (\<lambda>_ a.
       case chat_loop A envs a of
         (Stopped, n, names, a) \<Rightarrow> (IsCancelled, a)
       | (r, n, names, a) \<Rightarrow>
           (let (text, err) = (case r of Answer t \<Rightarrow> (t, None) | Broke c e _ \<Rightarrow> (error_text c e, Some (c, e))
                                 | _ \<Rightarrow> ([], None))
            in and_then (if text \<noteq> [] then remember_text reply_memory ''assistant'' text a else (Done (), a))
                 (\<lambda>_ a. (Done \<lparr>cr_response = text, cr_iterations = n, cr_tool_calls = names, cr_error = err\<rparr>,
                         a\<lparr>am_status := IDLE\<rparr>))))"

section \<open>Frames\<close>

text \<open>What the phases of a turn leave alone, and how they extend the conversation.\<close>

lemma append_message_fields [simp]:
  "am_status (append_message m a) = am_status a" "am_iteration (append_message m a) = am_iteration a"
  "am_failures (append_message m a) = am_failures a" "am_budget_sent (append_message m a) = am_budget_sent a"
  "conversation (append_message m a) = conversation a @ [m]"
  by (simp_all add: append_message_def)

lemma fold_append_message [simp]:
  "am_status (fold (\<lambda>r. append_message (f r)) rs a) = am_status a"
  "am_iteration (fold (\<lambda>r. append_message (f r)) rs a) = am_iteration a"
  "am_failures (fold (\<lambda>r. append_message (f r)) rs a) = am_failures a"
  "am_budget_sent (fold (\<lambda>r. append_message (f r)) rs a) = am_budget_sent a"
  "conversation (fold (\<lambda>r. append_message (f r)) rs a) = conversation a @ map f rs"
  by (induction rs arbitrary: a) simp_all

lemma begin_turn_fields [simp]:
  "am_status (begin_turn env a) = am_status a" "am_iteration (begin_turn env a) = am_iteration a + 1"
  "conversation (begin_turn env a) = conversation a"
  by (simp_all add: begin_turn_def refresh_warm_def split: option.splits)

lemma refresh_warm_fields [simp]:
  "am_status (refresh_warm w a) = am_status a" "am_iteration (refresh_warm w a) = am_iteration a"
  "conversation (refresh_warm w a) = conversation a"
  by (simp_all add: refresh_warm_def split: option.splits)

lemma observe_fields [simp]:
  "am_status (snd (observe A env a)) = am_status a" "am_iteration (snd (observe A env a)) = am_iteration a"
  "conversation (snd (observe A env a)) = conversation a"
  by (simp_all add: observe_def Let_def split: option.splits prod.splits)

lemma think_fields [simp]:
  "am_status (snd (think A env ms a)) = am_status a" "am_iteration (snd (think A env ms a)) = am_iteration a"
  by (simp_all add: think_def Let_def and_then_snd split: option.splits awaited.splits)

lemma act_fields [simp]:
  "am_status (snd (act A env n args cid a)) = am_status a" "am_iteration (snd (act A env n args cid a)) = am_iteration a"
  by (simp_all add: act_def split: prod.split)

lemma remember_text_fields [simp]:
  "am_status (snd (remember_text o1 r t a)) = am_status a" "am_iteration (snd (remember_text o1 r t a)) = am_iteration a"
  "conversation (snd (remember_text o1 r t a)) = conversation a"
  "fst (remember_text o1 r t a) = o1"
  using remember_fields [of o1 r t "am_tools a"]
  by (cases "remember o1 r t (am_tools a)"; simp add: remember_text_def)+

lemma inject_fields [simp]:
  "am_status (snd (inject_reminders n s a)) = am_status a" "am_iteration (snd (inject_reminders n s a)) = am_iteration a"
  "conversation (snd (inject_reminders n s a)) =
     conversation a @ map (\<lambda>r. chat_text ''user'' (reminder_text r)) (fst (inject_reminders n s a))"
  by (simp_all add: inject_reminders_def Let_def)

text \<open>A turn, from the thought of the LLM on.\<close>

lemma run_turn_cases:
  obtains (unreadable) a1 where "run_turn A env a = (Broke ''TypeError'' ''messages'' None, a1)"
      "am_status a1 = am_status a" "am_iteration a1 = am_iteration a + 1" "conversation a1 = conversation a"
  | (no_thought) ms a1 r a2 where "observe A env (begin_turn env a) = (Some ms, a1)" "think A env ms a1 = (r, a2)"
      "run_turn A env a = ((case r of Fails c e \<Rightarrow> Broke c e None | TimesOut \<Rightarrow> Broke ''TimeoutError'' [] None | _ \<Rightarrow> Stopped), a2)"
      "\<And>t. r \<noteq> Done t"
  | (called) ms a1 name args cid a2 r a3 where "observe A env (begin_turn env a) = (Some ms, a1)"
      "think A env ms a1 = (Done (CallTool name args cid), a2)" "act A env name args cid a2 = (Done r, a3)"
      "run_turn A env a = (GoOn, snd (inject_reminders (au_max_iterations A) (ax_success r) a3))"
  | (cancelled) ms a1 name args cid a2 a3 where "observe A env (begin_turn env a) = (Some ms, a1)"
      "think A env ms a1 = (Done (CallTool name args cid), a2)" "act A env name args cid a2 = (IsCancelled, a3)"
      "run_turn A env a = (Stopped, a3)"
  | (answered) ms a1 out a2 a3 where "observe A env (begin_turn env a) = (Some ms, a1)"
      "think A env ms a1 = (Done (Respond out), a2)" "conversation a3 = conversation a2" "am_iteration a3 = am_iteration a2"
      "run_turn A env a = (Answer out, a3)" "am_status a3 = COMPLETED"
  | (forgotten) ms a1 out a2 a3 where "observe A env (begin_turn env a) = (Some ms, a1)"
      "think A env ms a1 = (Done (Respond out), a2)" "a3 = snd (remember_text (tn_memory env) ''assistant'' out a2)"
      "run_turn A env a = ((case tn_memory env of Fails c e \<Rightarrow> Broke c e (Some out)
        | TimesOut \<Rightarrow> Broke ''TimeoutError'' [] (Some out) | _ \<Rightarrow> Stopped), a3)" "tn_memory env \<noteq> Done ()"
proof -
  obtain o1 a1 where o1: "observe A env (begin_turn env a) = (o1, a1)" by fastforce
  show ?thesis
  proof (cases o1)
    case None
    with o1 show ?thesis
      using observe_fields [of A env "begin_turn env a"] by (intro unreadable [of a1]) (simp_all add: run_turn_def)
  next
    case (Some ms)
    obtain r a2 where t: "think A env ms a1 = (r, a2)" by fastforce
    show ?thesis
    proof (cases r)
      case (Done th)
      show ?thesis
      proof (cases th)
        case (CallTool name args cid)
        obtain q a3 where act: "act A env name args cid a2 = (q, a3)" by fastforce
        have "(\<exists>x. q = Done x) \<or> q = IsCancelled"
          using act_ends [of "au_hooks A" "au_tools A" "tn_call env" name args cid "am_tools a2"] act
          by (auto simp: act_def split: prod.splits)
        then show ?thesis
        proof
          assume "\<exists>x. q = Done x"
          with o1 Some t Done CallTool act show ?thesis by (auto simp: run_turn_def intro: called)
        next
          assume "q = IsCancelled"
          with o1 Some t Done CallTool act show ?thesis by (auto simp: run_turn_def intro: cancelled)
        qed
      next
        case (Respond out)
        obtain a3 where m: "remember_text (tn_memory env) ''assistant'' out a2 = (tn_memory env, a3)"
          by (metis prod.collapse remember_text_fields(4))
        have f: "conversation a3 = conversation a2" "am_iteration a3 = am_iteration a2"
          using remember_text_fields [of "tn_memory env" "''assistant''" out a2] by (simp_all add: m)
        show ?thesis
        proof (cases "out = [] \<or> tn_memory env = Done ()")
          case True
          with o1 Some t Done Respond m f show ?thesis
            by (intro answered [of ms a1 out a2 "(if out = [] then a2 else a3)\<lparr>am_status := COMPLETED\<rparr>"])
              (auto simp: run_turn_def)
        next
          case False
          with o1 Some t Done Respond m show ?thesis
            by (intro forgotten [of ms a1 out a2 a3]) (auto simp: run_turn_def split: awaited.splits)
        qed
      qed
    qed (use o1 Some t in \<open>auto simp: run_turn_def intro: no_thought\<close>)
  qed
qed

lemma run_turn_frame:
  assumes "run_turn A env a = (r, a')"
  shows "am_iteration a' = am_iteration a + 1"
    and "am_status a' = (case r of Answer _ \<Rightarrow> COMPLETED | _ \<Rightarrow> am_status a)"
proof -
  have t: "am_status a2 = am_status a" "am_iteration a2 = am_iteration a + 1"
    if "observe A env (begin_turn env a) = (x, a1)" "think A env ms a1 = (y, a2)" for x a1 ms y a2
    using that observe_fields [of A env "begin_turn env a"] think_fields [of A env ms a1] by simp_all
  have "am_iteration a' = am_iteration a + 1 \<and> am_status a' = (case r of Answer _ \<Rightarrow> COMPLETED | _ \<Rightarrow> am_status a)"
  proof (cases rule: run_turn_cases [of A env a])
    case (unreadable a1)
    with assms show ?thesis by auto
  next
    case (no_thought ms a1 r1 a2)
    with assms t [OF no_thought(1,2)] show ?thesis by (cases r1) auto
  next
    case (called ms a1 name args cid a2 r1 a3)
    with assms t [OF called(1,2)] act_fields [of A env name args cid a2] show ?thesis by auto
  next
    case (cancelled ms a1 name args cid a2 a3)
    with assms t [OF cancelled(1,2)] act_fields [of A env name args cid a2] show ?thesis by auto
  next
    case (answered ms a1 out a2 a3)
    with assms t [OF answered(1,2)] show ?thesis by auto
  next
    case (forgotten ms a1 out a2 a3)
    with assms t [OF forgotten(1,2)] show ?thesis by (cases "tn_memory env") auto
  qed
  then show "am_iteration a' = am_iteration a + 1"
    "am_status a' = (case r of Answer _ \<Rightarrow> COMPLETED | _ \<Rightarrow> am_status a)" by simp_all
qed

lemma run_loop_frame:
  assumes "run_loop A envs n a = (r, a')"
  shows "am_iteration a' \<le> am_iteration a + n \<and> (0 < n \<longrightarrow> am_iteration a < am_iteration a') \<and> r \<noteq> GoOn \<and>
    am_status a' = (case r of Answer _ \<Rightarrow> COMPLETED | _ \<Rightarrow> am_status a)"
  using assms
proof (induction n arbitrary: a)
  case (Suc n)
  obtain r1 a1 where turn: "run_turn A (envs (am_iteration a)) a = (r1, a1)" by fastforce
  note f = run_turn_frame [OF turn]
  show ?case
  proof (cases "r1 = GoOn")
    case True
    with Suc.prems turn have "run_loop A envs n a1 = (r, a')" by simp
    with Suc.IH [OF this] f True show ?thesis by (cases r) auto
  next
    case False
    with Suc.prems turn have "r = r1" "a' = a1" by (auto split: turn_end.splits)
    with f False show ?thesis by auto
  qed
qed auto

lemma run_prelude_frame:
  assumes "run_prelude A rv task a = (r, a')"
  shows "am_status a' = RUNNING \<and> am_iteration a' = 0"
proof -
  have sc: "am_status (self_check m b) = am_status b" "am_iteration (self_check m b) = am_iteration b" for m b
    by (simp_all add: self_check_def split: option.splits list.splits)
  from assms have "a' = snd (run_prelude A rv task a)" by simp
  then show ?thesis
    by (simp add: run_prelude_def Let_def and_then_snd sc split: awaited.splits)
qed


definition demo_agent_setup :: "nat \<Rightarrow> (nat, nat) agent_setup" where
  "demo_agent_setup n = \<lparr>au_tools = demo_setup False, au_hooks = (\<lambda>_ ctx. (ctx, None)), au_max_iterations = n,
     au_system_prompt = [], au_max_context_tokens = 4000, au_has_llm = True, au_loads = (\<lambda>_. None),
     au_text_calls = (\<lambda>_ _. []), au_py_str = (\<lambda>_. []), au_cjk = (\<lambda>_. False)\<rparr>"

definition demo_turn :: "llm_response awaited \<Rightarrow> nat turn_env" where
  "demo_turn r = \<lparr>tn_warm = None, tn_summary = (\<lambda>_. None), tn_llm = (\<lambda>_. r),
     tn_call = demo_env (Done (JStr ''fine'')) TimesOut (Done ()), tn_memory = Done ()\<rparr>"

definition demo_agent :: agent where
  "demo_agent = \<lparr>am_status = IDLE, am_iteration = 0, am_failures = 0, am_budget_sent = False, am_compactor = None,
     am_assembler = None, am_chat_ready = False, am_tools = demo_state\<rparr>"

definition quiet_run :: run_env where
  "quiet_run = \<lparr>rv_on_start = Done (), rv_missing = Done None, rv_requests = Done (), rv_memory = Done (),
     rv_on_stop = Done (), rv_session_end = Done ()\<rparr>"

lemmas demo_agent_defs = demo_agent_setup_def demo_turn_def demo_agent_def quiet_run_def

text \<open>Without hooks every hook decision passes.\<close>

lemma no_hooks [simp]: "tu_hooks (au_tools A) = new_hook_registry \<Longrightarrow> message_hook A ht ms = pass_through"
  by (simp add: message_hook_def invoke_def new_hook_registry_def)

lemma modified_pass [simp]: "modified_messages pass_through ms = Some ms"
  by (simp add: modified_messages_def pass_through_def)

lemma observe_plain:
  assumes "tu_hooks (au_tools A) = new_hook_registry"
  shows "\<exists>ms a'. observe A env a = (Some ms, a') \<and> conversation a' = conversation a \<and> am_status a' = am_status a"
  using assms observe_fields [of A env a]
  by (simp add: observe_def Let_def split: option.splits prod.splits)

lemma think_plain:
  assumes "tu_hooks (au_tools A) = new_hook_registry" and "au_has_llm A"
  shows "think A env ms a = and_then (tn_llm env ms, a) (\<lambda>r a. (Done (thought_of A r), append_message (raw_message r) a))"
  using assms by (simp add: think_def Let_def) (simp add: pass_through_def)


text \<open>
  Running out of turns is reported as success. When the LLM asks for a tool in every turn, the
  run ends after \<open>max_iterations\<close> turns with the status COMPLETED, no error, and an output that only
  says that the task may be unfinished; \<open>success\<close> of the result is true.
\<close>

theorem exhausted_run_reports_success:
  assumes "am_status a = IDLE" and "run_prelude A rv task a = (Done (), a0)"
    and "\<And>k b. fst (run_turn A (envs k) b) = GoOn"
    and "rv_on_stop rv = Done ()" and "rv_session_end rv = Done ()"
  shows "\<exists>r a'. run A rv envs task a = (Finished r, a') \<and> rt_success r \<and> rt_error r = None \<and>
    rt_iterations r = au_max_iterations A \<and> rt_output r = Some (max_output (au_max_iterations A))"
proof -
  have loop: "\<exists>b'. run_loop A envs n b = (Answer (max_output (au_max_iterations A)), b') \<and>
      am_iteration b' = am_iteration b + n \<and> am_status b' = COMPLETED" for n b
  proof (induction n arbitrary: b)
    case (Suc n)
    obtain b1 where t: "run_turn A (envs (am_iteration b)) b = (GoOn, b1)"
      using assms(3) [of "am_iteration b" b] by (metis prod.collapse)
    from Suc [of b1] run_turn_frame(1) [OF t] t show ?case by auto
  qed simp
  from loop [of "au_max_iterations A" a0] obtain b' where
    "run_loop A envs (au_max_iterations A) a0 = (Answer (max_output (au_max_iterations A)), b')"
    "am_iteration b' = au_max_iterations A" "am_status b' = COMPLETED"
    using run_prelude_frame [OF assms(2)] by auto
  with assms show ?thesis
    by (simp add: run_def finish_run_def as_end_def rt_success_def)
qed

text \<open>
  An exception before the loop leaves the agent running for ever: when \<open>on_start\<close>, the requests
  for tools or the memory of the task raises, or the run is cancelled there, the exception escapes with
  the status RUNNING, and every later run of the agent is refused.
\<close>

theorem early_exception_leaves_running:
  assumes "am_status a = IDLE" and "run_prelude A rv task a = (p, a1)" and "p \<noteq> Done ()"
  shows "run A rv envs task a = (as_end p RunCancelled, a1) \<and> am_status a1 = RUNNING \<and>
    run A rv' envs' task' a1 = (NotIdle, a1)"
  using assms run_prelude_frame [OF assms(2)] by (cases p) (auto simp: run_def)

theorem early_exception_leaves_running_witness:
  "\<exists>a1. run (demo_agent_setup 2) (quiet_run\<lparr>rv_on_start := Fails ''OSError'' ''x''\<rparr>) (\<lambda>_. demo_turn TimesOut) ''t'' demo_agent
      = (Escaped ''OSError'' ''x'', a1) \<and>
    run (demo_agent_setup 2) quiet_run (\<lambda>_. demo_turn TimesOut) ''t'' a1 = (NotIdle, a1)"
proof -
  let ?rv = "quiet_run\<lparr>rv_on_start := Fails ''OSError'' ''x''\<rparr>"
  obtain a1 where p: "run_prelude (demo_agent_setup 2) ?rv ''t'' demo_agent = (Fails ''OSError'' ''x'', a1)"
    by (simp add: run_prelude_def quiet_run_def)
  have "am_status demo_agent = IDLE" by (simp add: demo_agent_def)
  from early_exception_leaves_running [OF this p, of "\<lambda>_. demo_turn TimesOut" quiet_run "\<lambda>_. demo_turn TimesOut" "''t''"]
  show ?thesis by (auto simp: as_end_def)
qed

lemma act_conversation: "only_replies cid (conversation a) (conversation (snd (act A env n args cid a)))"
  using act_only_replies [of cid "am_tools a" "au_hooks A" "au_tools A" "tn_call env" n args]
  by (cases "act_tool_call (au_hooks A) (au_tools A) (tn_call env) n args cid (am_tools a)") (simp add: act_def)

lemma act_orderly:
  assumes "tu_hooks (au_tools A) = new_hook_registry" and "orderly (au_tools A) (tn_call env) n args"
  shows "\<exists>r a'. act A env n args cid a = (Done r, a')"
proof -
  have "\<not> has_hooks (tu_hooks (au_tools A)) ht" for ht by (simp add: assms(1) has_hooks_def new_hook_registry_def)
  with do_execute_orderly [OF assms(2), of cid "am_tools a"] show ?thesis
    by (auto simp: act_def act_tool_call_def execute_tool_call_def after_hooks_def)
qed

text \<open>A turn in which the LLM answers with tool calls in the native format.\<close>

lemma native_turn:
  assumes "tu_hooks (au_tools A) = new_hook_registry" and "au_has_llm A" and "\<And>ms. tn_llm env ms = Done r"
    and "rs_tool_calls r = tc # tcs"
  shows "\<exists>e a' cs rs. run_turn A env a = (e, a') \<and> (e = GoOn \<or> e = Stopped) \<and>
    conversation a' = conversation a @ raw_message r # map (tool_message (tc_id tc)) cs @
      map (\<lambda>r. chat_text ''user'' (reminder_text r)) rs \<and>
    ((\<forall>n args. orderly (au_tools A) (tn_call env) n args) \<longrightarrow> e = GoOn)"
proof -
  obtain ms a1 where o1: "observe A env (begin_turn env a) = (Some ms, a1)" "conversation a1 = conversation a"
    using observe_plain [OF assms(1), of env "begin_turn env a"] by auto
  obtain args where th: "thought_of A r = CallTool (tc_name tc) args (tc_id tc)"
    by (simp add: thought_of_def first_call_def assms(4))
  let ?a2 = "append_message (raw_message r) a1"
  have think: "think A env ms a1 = (Done (CallTool (tc_name tc) args (tc_id tc)), ?a2)"
    using assms(3) by (simp add: think_plain [OF assms(1,2)] th)
  obtain q a3 where act: "act A env (tc_name tc) args (tc_id tc) ?a2 = (q, a3)" by fastforce
  obtain cs where c3: "conversation a3 = conversation a @ raw_message r # map (tool_message (tc_id tc)) cs"
    using act_conversation [of "tc_id tc" ?a2 A env "tc_name tc" args] by (auto simp: act o1 only_replies_def)
  have q: "(\<exists>x. q = Done x) \<or> q = IsCancelled"
    using act_ends [of "au_hooks A" "au_tools A" "tn_call env" "tc_name tc" args "tc_id tc" "am_tools ?a2"] act
    by (auto simp: act_def split: prod.splits)
  then show ?thesis
  proof
    assume "\<exists>x. q = Done x"
    then obtain x where x: "q = Done x" by blast
    let ?inj = "inject_reminders (au_max_iterations A) (ax_success x) a3"
    from x o1 think act have "run_turn A env a = (GoOn, snd ?inj)" by (simp add: run_turn_def)
    then show ?thesis
      by (intro exI [where x = GoOn] exI [where x = "snd ?inj"] exI [where x = cs] exI [where x = "fst ?inj"])
        (simp add: c3)
  next
    assume c: "q = IsCancelled"
    with act have no: "\<not> orderly (au_tools A) (tn_call env) (tc_name tc) args"
      using act_orderly [OF assms(1), of env "tc_name tc" args "tc_id tc" ?a2] by auto
    from c o1 think act have "run_turn A env a = (Stopped, a3)" by (simp add: run_turn_def)
    with c3 no show ?thesis by (intro exI [where x = Stopped] exI [where x = a3] exI [where x = cs] exI [where x = "[]"]) auto
  qed
qed

definition echo_call :: "string \<Rightarrow> tool_call" where
  "echo_call cid = \<lparr>tc_id = cid, tc_name = ''echo'', tc_arguments = []\<rparr>"

lemma demo_orderly: "orderly (au_tools (demo_agent_setup n)) (tn_call (demo_turn r)) m args"
  by (simp add: orderly_def demo_agent_setup_def demo_setup_def demo_turn_def demo_env_def registry_execute_def
      split: option.split)

theorem exhausted_run_reports_success_witness:
  "\<exists>r a'. run (demo_agent_setup 7) quiet_run
       (\<lambda>_. demo_turn (Done \<lparr>rs_content = [], rs_tool_calls = [echo_call ''c1'']\<rparr>)) ''t'' demo_agent = (Finished r, a') \<and>
     rt_success r \<and> rt_iterations r = 7"
proof -
  let ?A = "demo_agent_setup 7" and ?r = "\<lparr>rs_content = [], rs_tool_calls = [echo_call ''c1'']\<rparr>"
  have h: "tu_hooks (au_tools ?A) = new_hook_registry" "au_has_llm ?A"
    by (simp_all add: demo_agent_setup_def demo_setup_def)
  have go: "fst (run_turn ?A (demo_turn (Done ?r)) b) = GoOn" for b
    using native_turn [OF h, of "demo_turn (Done ?r)" ?r "echo_call ''c1''" "[]" b] demo_orderly
    by (auto simp: demo_turn_def)
  obtain a0 where p: "run_prelude ?A quiet_run ''t'' demo_agent = (Done (), a0)"
    by (simp add: run_prelude_def quiet_run_def Let_def remember_text_def remember_def)
  have i: "am_status demo_agent = IDLE" by (simp add: demo_agent_def)
  have "\<exists>r a'. run ?A quiet_run (\<lambda>_. demo_turn (Done ?r)) ''t'' demo_agent = (Finished r, a') \<and> rt_success r \<and>
      rt_error r = None \<and> rt_iterations r = au_max_iterations ?A \<and> rt_output r = Some (max_output (au_max_iterations ?A))"
    by (rule exhausted_run_reports_success [OF i p go]) (simp_all add: quiet_run_def)
  then show ?thesis by (auto simp: demo_agent_setup_def)
qed

text \<open>
  Only the first of several tool calls is executed and answered. When the LLM answers with the
  calls \<open>tc # tcs\<close>, the assistant message with all of them enters the conversation, but every tool
  message the turn adds carries the id of \<open>tc\<close>: the other calls never get a reply.
\<close>

theorem only_first_call_answered:
  assumes "tu_hooks (au_tools A) = new_hook_registry" and "au_has_llm A" and "\<And>ms. tn_llm env ms = Done r"
    and "rs_tool_calls r = tc # tcs" and "run_turn A env a = (e, a')"
  shows "raw_message r \<in> set (conversation a') \<and>
    (\<forall>m \<in> set (conversation a'). m \<in> set (conversation a) \<or> m = raw_message r \<or>
       dget m ''role'' = Some (JStr ''user'') \<or> dget m ''tool_call_id'' = Some (JStr (tc_id tc)))"
proof -
  obtain cs rs where "conversation a' = conversation a @ raw_message r # map (tool_message (tc_id tc)) cs @
      map (\<lambda>r. chat_text ''user'' (reminder_text r)) rs"
    using native_turn [OF assms(1-4), of a] assms(5) by auto
  then show ?thesis by (auto simp: tool_message_def chat_text_def)
qed

theorem only_first_call_answered_witness:
  "\<exists>e a'. run_turn (demo_agent_setup 7)
       (demo_turn (Done \<lparr>rs_content = [], rs_tool_calls = [echo_call ''c1'', echo_call ''c2'']\<rparr>)) demo_agent = (e, a') \<and>
     raw_message \<lparr>rs_content = [], rs_tool_calls = [echo_call ''c1'', echo_call ''c2'']\<rparr> \<in> set (conversation a') \<and>
     (\<forall>m \<in> set (conversation a'). dget m ''tool_call_id'' \<noteq> Some (JStr ''c2''))"
proof -
  let ?r = "\<lparr>rs_content = [], rs_tool_calls = [echo_call ''c1'', echo_call ''c2'']\<rparr>" and ?A = "demo_agent_setup 7"
  obtain e a' where t: "run_turn ?A (demo_turn (Done ?r)) demo_agent = (e, a')" by fastforce
  have h: "tu_hooks (au_tools ?A) = new_hook_registry" "au_has_llm ?A" "\<And>ms. tn_llm (demo_turn (Done ?r)) ms = Done ?r"
    "rs_tool_calls ?r = echo_call ''c1'' # [echo_call ''c2'']"
    by (simp_all add: demo_agent_setup_def demo_setup_def demo_turn_def)
  obtain cs rs where "conversation a' = conversation demo_agent @ raw_message ?r #
      map (tool_message (tc_id (echo_call ''c1''))) cs @ map (\<lambda>r. chat_text ''user'' (reminder_text r)) rs"
    using native_turn [OF h, of demo_agent] t by auto
  then have "\<forall>m \<in> set (conversation a'). dget m ''tool_call_id'' \<noteq> Some (JStr ''c2'')"
    by (auto simp: tool_message_def chat_text_def echo_call_def demo_agent_def demo_state_def raw_message_def)
  with t only_first_call_answered [OF h t] show ?thesis by blast
qed

section \<open>The protocol of tool messages\<close>

text \<open>The ids of the calls that a message makes, and the id that a tool message answers.\<close>

definition called_ids :: "chat_message \<Rightarrow> string list" where
  "called_ids m =
     (case dget m ''tool_calls'' of
        Some (JList xs) \<Rightarrow>
          List.map_filter (\<lambda>x. case x of JObj d \<Rightarrow> (case dget d ''id'' of Some (JStr i) \<Rightarrow> Some i | _ \<Rightarrow> None) | _ \<Rightarrow> None) xs
      | _ \<Rightarrow> [])"

definition answered_id :: "chat_message \<Rightarrow> string option" where
  "answered_id m = (case dget m ''tool_call_id'' of Some (JStr i) \<Rightarrow> Some i | _ \<Rightarrow> None)"

text \<open>Every tool message answers a call of an earlier message; \<open>ids\<close> are the calls made before \<open>ms\<close>.\<close>

fun replies_ok :: "string list \<Rightarrow> chat_message list \<Rightarrow> bool" where
  "replies_ok ids [] = True"
| "replies_ok ids (m # ms) =
     ((case answered_id m of None \<Rightarrow> True | Some i \<Rightarrow> i \<in> set ids) \<and> replies_ok (ids @ called_ids m) ms)"

lemma replies_ok_append:
  "replies_ok ids (ms @ ms') \<longleftrightarrow> replies_ok ids ms \<and> replies_ok (ids @ concat (map called_ids ms)) ms'"
  by (induction ms arbitrary: ids) auto

lemma chat_text_ids [simp]: "called_ids (chat_text r c) = []" "answered_id (chat_text r c) = None"
  by (simp_all add: called_ids_def answered_id_def chat_text_def)

lemma tool_message_ids [simp]: "called_ids (tool_message i c) = []" "answered_id (tool_message i c) = Some i"
  by (simp_all add: called_ids_def answered_id_def tool_message_def)

lemma raw_message_ids [simp]: "called_ids (raw_message r) = map tc_id (rs_tool_calls r)" "answered_id (raw_message r) = None"
  by (simp_all add: called_ids_def answered_id_def raw_message_def tool_call_json_def List.map_filter_def o_def)

lemma replies_ok_texts:
  "replies_ok ids (map (\<lambda>r. chat_text ''user'' (f r)) rs)"
  "i \<in> set ids \<Longrightarrow> replies_ok ids (map (tool_message i) cs)"
  by (induction rs) (simp_all, induction cs, simp_all)

text \<open>What a turn appends: nothing, the LLM's message, or that message with the replies to its first call.\<close>

lemma turn_extends:
  assumes "run_turn A env a = (e, a')" and "\<And>t ns. au_text_calls A t ns = []"
  shows "\<exists>ms. conversation a' = conversation a @ ms \<and> (\<forall>ids. replies_ok ids ms)"
proof -
  have th: "(conversation a2 = conversation a \<and> (\<forall>n x i. t \<noteq> CallTool n x i)) \<or>
      (\<exists>r. conversation a2 = conversation a @ [raw_message r] \<and>
         (\<forall>n x i. t = CallTool n x i \<longrightarrow> i \<in> set (map tc_id (rs_tool_calls r))))"
    if "observe A env (begin_turn env a) = (Some ms, a1)" "think A env ms a1 = (Done t, a2)" for ms a1 t a2
  proof -
    have c: "conversation a1 = conversation a" using observe_fields(3) [of A env "begin_turn env a"] that(1) by simp
    have f: "i \<in> set (map tc_id (rs_tool_calls r))" if "thought_of A r = CallTool n x i" for r n x i
      using that assms(2) by (auto simp: thought_of_def first_call_def Let_def split: list.splits if_splits)
    have "t = Respond u \<and> a2 = a1 \<or> (\<exists>r. t = thought_of A r \<and> a2 = append_message (raw_message r) a1)" if "t = Respond u" for u
      using \<open>think A env ms a1 = (Done t, a2)\<close> that
      by (auto simp: think_def Let_def and_then_def split: if_splits option.splits awaited.splits) metis
    moreover have "\<exists>r. t = thought_of A r \<and> a2 = append_message (raw_message r) a1" if "t = CallTool n x i" for n x i
      using \<open>think A env ms a1 = (Done t, a2)\<close> that
      by (auto simp: think_def Let_def and_then_def split: if_splits option.splits awaited.splits) metis
    moreover note c
    ultimately show ?thesis
    proof (cases t)
      case (CallTool n x i)
      with \<open>\<And>n x i. t = CallTool n x i \<Longrightarrow> _\<close> obtain r where "thought_of A r = CallTool n x i"
        "a2 = append_message (raw_message r) a1" by metis
      with f [of r n x i] c CallTool show ?thesis by auto
    qed auto
  qed
  have nt: "conversation a2 = conversation a"
    if "observe A env (begin_turn env a) = (Some ms, a1)" "think A env ms a1 = (r, a2)" "\<And>t. r \<noteq> Done t" for ms a1 r a2
    using that observe_fields(3) [of A env "begin_turn env a"]
    by (auto simp: think_def Let_def and_then_def split: if_splits option.splits awaited.splits)
  show ?thesis
  proof (cases rule: run_turn_cases [of A env a])
    case (unreadable a1)
    with assms(1) show ?thesis by auto
  next
    case (no_thought ms a1 r a2)
    with assms(1) nt [OF no_thought(1,2,4)] show ?thesis by auto
  next
    case (called ms a1 name args cid a2 r a3)
    from th [OF called(1,2)] obtain q where q: "conversation a2 = conversation a @ [raw_message q]"
      "cid \<in> set (map tc_id (rs_tool_calls q))" by auto
    obtain cs where cs: "conversation a3 = conversation a2 @ map (tool_message cid) cs"
      using act_conversation [of cid a2 A env name args] called(3) by (auto simp: only_replies_def)
    let ?inj = "inject_reminders (au_max_iterations A) (ax_success r) a3"
    have "a' = snd ?inj" using called(4) assms(1) by simp
    then have "conversation a' = conversation a @ (raw_message q # map (tool_message cid) cs @
        map (\<lambda>r. chat_text ''user'' (reminder_text r)) (fst ?inj))"
      using q cs by simp
    moreover have "replies_ok ids (raw_message q # map (tool_message cid) cs @
        map (\<lambda>r. chat_text ''user'' (reminder_text r)) (fst ?inj))" for ids
      using q(2) replies_ok_texts by (simp add: replies_ok_append)
    ultimately show ?thesis by blast
  next
    case (cancelled ms a1 name args cid a2 a3)
    from th [OF cancelled(1,2)] obtain q where q: "conversation a2 = conversation a @ [raw_message q]"
      "cid \<in> set (map tc_id (rs_tool_calls q))" by auto
    obtain cs where cs: "conversation a3 = conversation a2 @ map (tool_message cid) cs"
      using act_conversation [of cid a2 A env name args] cancelled(3) by (auto simp: only_replies_def)
    have "a' = a3" using cancelled(4) assms(1) by simp
    then have "conversation a' = conversation a @ (raw_message q # map (tool_message cid) cs)" using q cs by simp
    moreover have "replies_ok ids (raw_message q # map (tool_message cid) cs)" for ids
      using q(2) replies_ok_texts by simp
    ultimately show ?thesis by blast
  next
    case (answered ms a1 out a2 a3)
    with assms(1) have "a' = a3" by simp
    with th [OF answered(1,2)] answered(3) show ?thesis by auto
  next
    case (forgotten ms a1 out a2 a3)
    with assms(1) have "a' = a3" by simp
    with th [OF forgotten(1,2)] forgotten(3) show ?thesis by auto
  qed
qed

lemma run_loop_extends:
  assumes "run_loop A envs n a = (e, a')" and "\<And>t ns. au_text_calls A t ns = []"
  shows "\<exists>ms. conversation a' = conversation a @ ms \<and> (\<forall>ids. replies_ok ids ms)"
  using assms(1)
proof (induction n arbitrary: a)
  case (Suc n)
  obtain r a1 where t: "run_turn A (envs (am_iteration a)) a = (r, a1)" by fastforce
  from turn_extends [OF t assms(2)] obtain ms where ms: "conversation a1 = conversation a @ ms" "\<And>ids. replies_ok ids ms"
    by blast
  show ?case
  proof (cases "r = GoOn")
    case True
    with Suc.prems t have "run_loop A envs n a1 = (e, a')" by simp
    from Suc.IH [OF this] ms show ?thesis by (auto simp: replies_ok_append)
  next
    case False
    with Suc.prems t have "a' = a1" by (auto split: turn_end.splits)
    with ms show ?thesis by blast
  qed
qed auto



text \<open>
  A tool call found in the text of an answer breaks the protocol: the assistant message has no
  tool calls, but its reply is a tool message.
\<close>

theorem text_call_breaks_protocol:
  assumes "tu_hooks (au_tools A) = new_hook_registry" and "au_has_llm A" and "\<And>ms. tn_llm env ms = Done r"
    and "rs_tool_calls r = []" and "rs_content r \<noteq> []"
    and "registry_tool_names (tu_registry (au_tools A)) \<noteq> []"
    and "au_text_calls A (rs_content r) (registry_tool_names (tu_registry (au_tools A))) = tc # tcs"
    and "\<And>n args. orderly (au_tools A) (tn_call env) n args"
    and "\<And>m. m \<in> set (conversation a) \<Longrightarrow> tc_id tc \<notin> set (called_ids m)"
  shows "\<exists>a'. run_turn A env a = (GoOn, a') \<and> \<not> replies_ok [] (conversation a')"
proof -
  obtain ms a1 where o1: "observe A env (begin_turn env a) = (Some ms, a1)" "conversation a1 = conversation a"
    using observe_plain [OF assms(1), of env "begin_turn env a"] by auto
  obtain args where th: "thought_of A r = CallTool (tc_name tc) args (tc_id tc)"
    using assms(4-7) by (simp add: thought_of_def first_call_def)
  let ?a2 = "append_message (raw_message r) a1"
  have think: "think A env ms a1 = (Done (CallTool (tc_name tc) args (tc_id tc)), ?a2)"
    using assms(3) by (simp add: think_plain [OF assms(1,2)] th)
  have nh: "\<not> has_hooks (tu_hooks (au_tools A)) ht" for ht by (simp add: assms(1) has_hooks_def new_hook_registry_def)
  obtain x c st where act: "do_execute_tool (au_tools A) (tn_call env) (tc_name tc) args (tc_id tc) (am_tools ?a2) = (Done x, st)"
    "tx_conversation st = conversation ?a2 @ [tool_message (tc_id tc) c]"
  proof -
    obtain o2 st where run: "do_execute_tool (au_tools A) (tn_call env) (tc_name tc) args (tc_id tc) (am_tools ?a2) = (o2, st)"
      by fastforce
    show ?thesis
      using do_execute_orderly [OF assms(8), of "tc_name tc" args "tc_id tc" "am_tools ?a2"] run that by auto
  qed
  let ?a3 = "?a2\<lparr>am_tools := st\<rparr>" and ?inj = "\<lambda>b. inject_reminders (au_max_iterations A) b"
  have "act A env (tc_name tc) args (tc_id tc) ?a2 = (Done x, ?a3)"
    using act(1) nh by (simp add: act_def act_tool_call_def execute_tool_call_def after_hooks_def)
  with o1 think have "run_turn A env a = (GoOn, snd (?inj (ax_success x) ?a3))" by (simp add: run_turn_def)
  moreover have "\<not> replies_ok [] (conversation (snd (?inj (ax_success x) ?a3)))"
    using act(2) o1 assms(4,9) by (auto simp: replies_ok_append)
  ultimately show ?thesis by blast
qed

theorem text_call_breaks_protocol_witness:
  "\<exists>a'. run_turn ((demo_agent_setup 7)\<lparr>au_text_calls := (\<lambda>_ _. [echo_call ''call_text_echo''])\<rparr>)
       (demo_turn (Done \<lparr>rs_content = ''echo({})'', rs_tool_calls = []\<rparr>)) demo_agent = (GoOn, a') \<and>
     \<not> replies_ok [] (conversation a')"
proof (rule text_call_breaks_protocol [where r = "\<lparr>rs_content = ''echo({})'', rs_tool_calls = []\<rparr>"
      and tc = "echo_call ''call_text_echo''" and tcs = "[]"])
  fix n args
  show "orderly (au_tools ((demo_agent_setup 7)\<lparr>au_text_calls := (\<lambda>_ _. [echo_call ''call_text_echo''])\<rparr>))
     (tn_call (demo_turn (Done \<lparr>rs_content = ''echo({})'', rs_tool_calls = []\<rparr>))) n args"
    using demo_orderly [of 7] by simp
qed (simp_all add: demo_agent_setup_def demo_setup_def demo_turn_def registry_tool_names_def registry_register_def
    new_tool_registry_def dkeys_dset demo_agent_def demo_state_def)

section \<open>When reminders come\<close>

text \<open>The turns of a run that call tools, by their success, with the reminders injected after each.\<close>

fun remind_turns :: "nat \<Rightarrow> bool list \<Rightarrow> agent \<Rightarrow> reminder list list \<times> agent" where
  "remind_turns n [] a = ([], a)"
| "remind_turns n (s # ss) a =
     (let (rs, a) = inject_reminders n s (a\<lparr>am_iteration := am_iteration a + 1\<rparr>);
          (rss, a) = remind_turns n ss a
      in (rs # rss, a))"

text \<open>The lengths of the maximal runs of failures, the first of which already has length \<open>k\<close>.\<close>

fun failure_runs :: "nat \<Rightarrow> bool list \<Rightarrow> nat list" where
  "failure_runs k [] = [k]"
| "failure_runs k (s # ss) = (if s then k # failure_runs 0 ss else failure_runs (Suc k) ss)"

definition is_failure_reminder :: "reminder \<Rightarrow> bool" where
  "is_failure_reminder r \<longleftrightarrow> (case r of TooManyFailures _ \<Rightarrow> True | BudgetLow _ _ \<Rightarrow> False)"

lemma inject_counters:
  "inject_reminders n s a = (rs, a') \<Longrightarrow>
     am_failures a' = (if s \<or> 3 \<le> am_failures a + 1 then 0 else am_failures a + 1) \<and>
     length (filter is_failure_reminder rs) = (if \<not> s \<and> 3 \<le> am_failures a + 1 then 1 else 0) \<and>
     length (filter (\<lambda>r. \<not> is_failure_reminder r) rs) =
       (if int n - int (am_iteration a) \<le> 2 \<and> \<not> am_budget_sent a then 1 else 0) \<and>
     am_budget_sent a' = (am_budget_sent a \<or> int n - int (am_iteration a) \<le> 2) \<and>
     am_iteration a' = am_iteration a \<and> (\<forall>k. TooManyFailures k \<in> set rs \<longrightarrow> k = am_failures a + 1)"
  by (auto simp: inject_reminders_def Let_def is_failure_reminder_def split: if_splits)

lemma div3_step: "k mod 3 = f \<Longrightarrow> Suc k div 3 = k div 3 + (if (3::nat) \<le> f + 1 then 1 else 0)"
  "k mod 3 = f \<Longrightarrow> Suc k mod 3 = (if (3::nat) \<le> f + 1 then 0 else f + 1)" for k f :: nat
  by (auto simp: div_Suc mod_Suc)

lemma failure_reminders_count:
  assumes "remind_turns n ss a = (rss, a')" and "k mod 3 = am_failures a"
  shows "length (filter is_failure_reminder (concat rss)) + k div 3 = sum_list (map (\<lambda>m. m div 3) (failure_runs k ss))"
  using assms
proof (induction ss arbitrary: a rss k a')
  case (Cons s ss)
  let ?a = "a\<lparr>am_iteration := am_iteration a + 1\<rparr>"
  obtain rs a1 where i: "inject_reminders n s ?a = (rs, a1)" by fastforce
  obtain rss1 a2 where r: "remind_turns n ss a1 = (rss1, a2)" by fastforce
  from Cons.prems(1) i r have rss: "rss = rs # rss1" by simp
  note c = inject_counters [OF i]
  show ?case
  proof (cases s)
    case True
    with c Cons.IH [OF r, of 0] show ?thesis by (simp add: rss)
  next
    case False
    have "Suc k mod 3 = am_failures a1" using c False div3_step(2) [OF Cons.prems(2)] by simp
    from Cons.IH [OF r this] c False div3_step(1) [OF Cons.prems(2)] show ?thesis by (auto simp: rss)
  qed
qed auto

lemma budget_reminders_count:
  assumes "remind_turns n ss a = (rss, a')"
  shows "length (filter (\<lambda>r. \<not> is_failure_reminder r) (concat rss)) =
    (if ss \<noteq> [] \<and> \<not> am_budget_sent a \<and> int n - int (am_iteration a + length ss) \<le> 2 then 1 else 0)"
  using assms
proof (induction ss arbitrary: a rss a')
  case (Cons s ss)
  let ?a = "a\<lparr>am_iteration := am_iteration a + 1\<rparr>"
  obtain rs a1 where i: "inject_reminders n s ?a = (rs, a1)" by fastforce
  obtain rss1 a2 where r: "remind_turns n ss a1 = (rss1, a2)" by fastforce
  from Cons.prems i r have rss: "rss = rs # rss1" by simp
  from inject_counters [OF i] Cons.IH [OF r] show ?case by (cases "ss = []") (auto simp: rss)
qed auto

lemma failure_reminders_say_three:
  assumes "remind_turns n ss a = (rss, a')" and "am_failures a < 3" and "TooManyFailures k \<in> set (concat rss)"
  shows "k = 3"
  using assms
proof (induction ss arbitrary: a rss a')
  case (Cons s ss)
  let ?a = "a\<lparr>am_iteration := am_iteration a + 1\<rparr>"
  obtain rs a1 where i: "inject_reminders n s ?a = (rs, a1)" by fastforce
  obtain rss1 a2 where r: "remind_turns n ss a1 = (rss1, a2)" by fastforce
  from Cons.prems i r have rss: "rss = rs # rss1" by simp
  have c: "am_failures a1 < 3" using inject_counters [OF i] Cons.prems(2) by auto
  show ?case
  proof (cases "TooManyFailures k \<in> set rs")
    case True
    then have "is_failure_reminder (TooManyFailures k)" "filter is_failure_reminder rs \<noteq> []"
      by (auto simp: is_failure_reminder_def filter_empty_conv intro: bexI [of _ "TooManyFailures k"])
    with True inject_counters [OF i] Cons.prems(2) show ?thesis by (auto split: if_splits)
  next
    case False
    with Cons.prems(3) Cons.IH [OF r c] show ?thesis by (auto simp: rss)
  qed
qed auto

text \<open>
  When reminders come. Over the turns of a run that call tools, the reminder about failures comes
  once for every three failures in a row, counted anew after it and after a success (so a run of
  \<open>m\<close> failures gives \<open>m div 3\<close> of them, each speaking of three); the reminder about the budget comes at
  most once, in the first turn that leaves at most two.
\<close>

theorem reminders_when_due:
  assumes "remind_turns n ss a = (rss, a')" and "am_failures a = 0" and "\<not> am_budget_sent a"
    and "am_iteration a = 0"
  shows "length (filter is_failure_reminder (concat rss)) = sum_list (map (\<lambda>m. m div 3) (failure_runs 0 ss)) \<and>
    (\<forall>k. TooManyFailures k \<in> set (concat rss) \<longrightarrow> k = 3) \<and>
    length (filter (\<lambda>r. \<not> is_failure_reminder r) (concat rss)) =
      (if ss \<noteq> [] \<and> n \<le> length ss + 2 then 1 else 0)"
  using failure_reminders_count [OF assms(1), of 0] budget_reminders_count [OF assms(1)]
    failure_reminders_say_three [OF assms(1)] assms(2-4)
  by auto

theorem reminders_when_due_witness:
  "map length (fst (remind_turns 9 [False, False, False, True, False, False, False] demo_agent)) = [0, 0, 1, 0, 0, 0, 2] \<and>
   length (filter is_failure_reminder (concat (fst (remind_turns 9 [False, False, False, True, False, False, False] demo_agent)))) = 2"
proof -
  obtain rss a' where r: "remind_turns 9 [False, False, False, True, False, False, False] demo_agent = (rss, a')" by fastforce
  have d: "am_failures demo_agent = 0" "\<not> am_budget_sent demo_agent" "am_iteration demo_agent = 0"
    by (simp_all add: demo_agent_def)
  have "map length (fst (remind_turns 9 [False, False, False, True, False, False, False] demo_agent)) = [0, 0, 1, 0, 0, 0, 2]"
    by code_simp
  with reminders_when_due [OF r d] r show ?thesis by simp
qed

section \<open>A turn of a dialogue\<close>

lemma chat_loop_spec:
  assumes "chat_loop A envs a = (r, n, names, a')"
  shows "n \<le> length envs \<and> r \<noteq> GoOn \<and> length names \<le> n \<and> (envs \<noteq> [] \<longrightarrow> 1 \<le> n)"
  using assms
proof (induction envs arbitrary: a r n names a')
  case (Cons env envs)
  obtain q ns a1 where s: "chat_step A env a = (q, ns, a1)" by (metis prod_cases3)
  have l: "length ns \<le> 1"
    using s by (auto simp: chat_step_def split: prod.splits option.splits awaited.splits thought.splits)
  show ?case
  proof (cases "q = GoOn")
    case True
    obtain r' n' ns' a2 where c: "chat_loop A envs a1 = (r', n', ns', a2)" by (metis prod_cases4)
    with Cons.prems s True have "r = r'" "n = Suc n'" "names = ns @ ns'" by auto
    with Cons.IH [OF c] l show ?thesis by auto
  next
    case False
    with Cons.prems s have "r = q" "n = 1" "names = ns" by (auto split: turn_end.splits)
    with l False show ?thesis by auto
  qed
qed auto

text \<open>
  What a chat turn returns. A chat turn that returns a reply has made between one and
  \<open>max_iterations\<close> iterations and at most one tool call in each, reports an error only together with a
  text that says so, and leaves the agent idle whatever its status was.
\<close>

theorem chat_turn_outcome:
  assumes "chat_turn A um rm envs msg a = (Done q, a')" and "length envs = au_max_iterations A"
    and "0 < au_max_iterations A"
  shows "1 \<le> cr_iterations q \<and> cr_iterations q \<le> au_max_iterations A \<and>
    length (cr_tool_calls q) \<le> cr_iterations q \<and> am_status a' = IDLE \<and>
    (\<forall>c e. cr_error q = Some (c, e) \<longrightarrow> cr_response q = error_text c e)"
proof -
  obtain o1 b where m: "remember_text um ''user'' msg (append_message (chat_text ''user'' msg) a) = (o1, b)" by fastforce
  with assms(1) have o1: "o1 = Done ()" by (cases o1) (auto simp: chat_turn_def)
  obtain r n names a1 where l: "chat_loop A envs b = (r, n, names, a1)" by (metis prod_cases4)
  define f where "f w = snd (remember_text rm ''assistant'' w a1)" for w
  have k: "remember_text rm ''assistant'' w a1 = (rm, f w)" for w
    by (rule prod_eqI) (simp_all add: f_def)
  have run: "chat_turn A um rm envs msg a = (case r of Stopped \<Rightarrow> (IsCancelled, a1) | _ \<Rightarrow>
      (let (w, err) = (case r of Answer t \<Rightarrow> (t, None) | Broke c e _ \<Rightarrow> (error_text c e, Some (c, e)) | _ \<Rightarrow> ([], None))
       in and_then (if w \<noteq> [] then (rm, f w) else (Done (), a1))
            (\<lambda>_ b. (Done \<lparr>cr_response = w, cr_iterations = n, cr_tool_calls = names, cr_error = err\<rparr>,
                    b\<lparr>am_status := IDLE\<rparr>))))"
    by (cases r) (simp_all add: chat_turn_def m o1 l k)
  have fin: "q = \<lparr>cr_response = w, cr_iterations = n, cr_tool_calls = names, cr_error = err\<rparr> \<and> am_status a' = IDLE"
    if "(Done q, a') = and_then (if w \<noteq> [] then (rm, f w) else (Done (), a1))
            (\<lambda>_ b. (Done \<lparr>cr_response = w, cr_iterations = n, cr_tool_calls = names, cr_error = err\<rparr>,
                    b\<lparr>am_status := IDLE\<rparr>))" for w err
    using that by (cases "w = []"; cases rm) auto
  show ?thesis
  proof (cases r)
    case (Answer t)
    with fin [of t None] run assms chat_loop_spec [OF l] show ?thesis by auto
  next
    case (Broke c e x)
    with fin [of "error_text c e" "Some (c, e)"] run assms chat_loop_spec [OF l] show ?thesis by auto
  qed (use run assms chat_loop_spec [OF l] in auto)
qed

theorem chat_turn_outcome_witness:
  "\<exists>q a'. chat_turn (demo_agent_setup 2) (Done ()) (Done ()) (replicate 2 (demo_turn (Fails ''HTTPError'' ''500''))) ''hi'' demo_agent
      = (Done q, a') \<and> cr_error q = Some (''HTTPError'', ''500'') \<and> am_status a' = IDLE"
proof -
  let ?run = "chat_turn (demo_agent_setup 2) (Done ()) (Done ()) (replicate 2 (demo_turn (Fails ''HTTPError'' ''500''))) ''hi'' demo_agent"
  have c: "(case fst ?run of Done q \<Rightarrow> cr_error q | _ \<Rightarrow> None) = Some (''HTTPError'', ''500'')" by code_simp
  then obtain q a' where run: "?run = (Done q, a')" by (cases ?run; cases "fst ?run") auto
  have l: "length (replicate 2 (demo_turn (Fails ''HTTPError'' ''500''))) = au_max_iterations (demo_agent_setup 2)"
    "0 < au_max_iterations (demo_agent_setup 2)" by (simp_all add: demo_agent_setup_def)
  from chat_turn_outcome [OF run l] c run show ?thesis by auto
qed

end
