(* ===== verification/McpServer.thy ===== *)
theory McpServer
  imports ToolExec
begin

text \<open>
  \<open>youmi/mcp/protocol.py\<close>, \<open>provider.py\<close>, \<open>server.py\<close> and \<open>client.py\<close>: providers of tools, the
  server that routes \<open>tools/list\<close> and \<open>tools/call\<close> to them, and the in-process client. Handlers
  are names; the argument \<open>call\<close> of the operations that run one gives its result as text, or the
  text of the exception it raises. Providers are the local ones; their \<open>initialize\<close> and \<open>shutdown\<close>
  do nothing.
\<close>

section \<open>Protocol\<close>

record mcp_tool_info =
  mi_name :: string
  mi_description :: string
  mi_input_schema :: json
  mi_provider_id :: string

text \<open>\<open>MCPToolResult\<close> with its one text item, and its error flag.\<close>

record mcp_tool_result =
  mr_text :: string
  mr_is_error :: bool

definition mcp_success :: "string \<Rightarrow> mcp_tool_result" where
  "mcp_success t = \<lparr>mr_text = t, mr_is_error = False\<rparr>"

definition mcp_failure :: "string \<Rightarrow> mcp_tool_result" where
  "mcp_failure m = \<lparr>mr_text = m, mr_is_error = True\<rparr>"

datatype mcp_payload = ToolList "mcp_tool_info list" | CallResult mcp_tool_result

record mcp_error =
  me_code :: int
  me_message :: string

record mcp_request =
  mq_id :: string
  mq_method :: string
  mq_name :: string
  mq_arguments :: json

record mcp_response =
  mp_id :: string
  mp_body :: "mcp_error + mcp_payload"

definition tool_not_found_code :: int where "tool_not_found_code = -32001"

section \<open>\<open>LocalFunctionProvider\<close>\<close>

record local_provider =
  lp_provider_id :: string
  lp_origin :: string
  lp_tools :: "string tool_registry"

type_synonym handler_run = "string \<Rightarrow> json \<Rightarrow> string + string"

definition new_provider :: "string \<Rightarrow> string \<Rightarrow> local_provider" where
  "new_provider pid origin = \<lparr>lp_provider_id = pid, lp_origin = origin, lp_tools = new_tool_registry\<rparr>"

definition provider_register :: "tool_definition \<Rightarrow> string \<Rightarrow> local_provider \<Rightarrow> local_provider" where
  "provider_register d h p = p\<lparr>lp_tools := registry_register d h (lp_tools p)\<rparr>"

definition provider_unregister :: "string \<Rightarrow> local_provider \<Rightarrow> local_provider" where
  "provider_unregister name p = p\<lparr>lp_tools := registry_unregister name (lp_tools p)\<rparr>"

definition provider_names :: "local_provider \<Rightarrow> string list" where
  "provider_names p = registry_tool_names (lp_tools p)"

definition parameters_schema :: "tool_definition \<Rightarrow> json" where
  "parameters_schema d =
     (case to_openai_function_schema d of
        JObj o1 \<Rightarrow> (case dget o1 ''function'' of
                      Some (JObj f) \<Rightarrow> (case dget f ''parameters'' of Some s \<Rightarrow> s | None \<Rightarrow> JNull)
                    | _ \<Rightarrow> JNull)
      | _ \<Rightarrow> JNull)"

definition get_tools :: "local_provider \<Rightarrow> mcp_tool_info list" where
  "get_tools p = map (\<lambda>d. \<lparr>mi_name = td_name d, mi_description = td_description d,
     mi_input_schema = parameters_schema d, mi_provider_id = lp_provider_id p\<rparr>) (dvals (rg_definitions (lp_tools p)))"

definition provider_execute :: "handler_run \<Rightarrow> string \<Rightarrow> json \<Rightarrow> local_provider \<Rightarrow> mcp_tool_result" where
  "provider_execute call name args p =
     (case dget (rg_handlers (lp_tools p)) name of
        None \<Rightarrow> mcp_failure (''tool '' @ name @ '' not found in provider '' @ lp_provider_id p)
      | Some h \<Rightarrow> (case call h args of Inl e \<Rightarrow> mcp_failure (''tool raised: '' @ e) | Inr t \<Rightarrow> mcp_success t))"

text \<open>
  \<open>update_tool_description\<close>. The parameter objects are shared with the old definition, which is
  replaced, so the new definition is all there is to see of it.
\<close>

definition update_description :: "string \<Rightarrow> string option \<Rightarrow> (string, string) dict \<Rightarrow> local_provider \<Rightarrow> bool \<times> local_provider" where
  "update_description name description param_descriptions p =
     (case get_definition name (lp_tools p) of
        None \<Rightarrow> (False, p)
      | Some d \<Rightarrow>
          (let d = (case description of None \<Rightarrow> d | Some t \<Rightarrow> d\<lparr>td_description := t\<rparr>);
               d = d\<lparr>td_parameters := map (\<lambda>q. case dget param_descriptions (tp_name q) of None \<Rightarrow> q
                      | Some t \<Rightarrow> q\<lparr>tp_description := t\<rparr>) (td_parameters d)\<rparr>
           in (True, p\<lparr>lp_tools := (lp_tools p)\<lparr>rg_definitions := dset name d (rg_definitions (lp_tools p))\<rparr>\<rparr>)))"

section \<open>\<open>MCPServer\<close>\<close>

record mcp_server =
  ms_providers :: "(string, local_provider) dict"
  ms_routes :: "(string, string) dict"
  ms_started :: bool
  ms_call_count :: nat
  ms_error_count :: nat
  ms_vault :: "tool_vault option"

definition new_server :: "tool_vault option \<Rightarrow> mcp_server" where
  "new_server v = \<lparr>ms_providers = [], ms_routes = [], ms_started = False, ms_call_count = 0,
     ms_error_count = 0, ms_vault = v\<rparr>"

definition unregister_provider :: "string \<Rightarrow> mcp_server \<Rightarrow> mcp_server" where
  "unregister_provider pid s =
     (case dget (ms_providers s) pid of
        None \<Rightarrow> s
      | Some p \<Rightarrow> s\<lparr>ms_providers := ddel pid (ms_providers s),
                    ms_routes := fold (\<lambda>t. ddel (mi_name t)) (get_tools p) (ms_routes s)\<rparr>)"

definition as_tool_provider :: "local_provider \<Rightarrow> tool_provider" where
  "as_tool_provider p =
     \<lparr>tpv_provider_id = lp_provider_id p, tpv_definitions = rg_definitions (lp_tools p),
      tpv_handlers = rg_handlers (lp_tools p), tpv_origin = Some (lp_origin p)\<rparr>"

definition register_provider :: "vault_backends \<Rightarrow> local_provider \<Rightarrow> string list option \<Rightarrow> mcp_server \<Rightarrow> mcp_server" where
  "register_provider be p essential s =
     (let pid = lp_provider_id p;
          s = (if dget (ms_providers s) pid \<noteq> None then unregister_provider pid s else s)
      in s\<lparr>ms_providers := dset pid p (ms_providers s),
           ms_routes := fold (\<lambda>t. dset (mi_name t) pid) (get_tools p) (ms_routes s),
           ms_vault := map_option (add_tools_from_provider be (as_tool_provider p) essential None) (ms_vault s)\<rparr>)"

definition list_tools :: "mcp_server \<Rightarrow> mcp_tool_info list" where
  "list_tools s = concat (map get_tools (dvals (ms_providers s)))"

text \<open>
  \<open>_handle_call_tool\<close>: \<open>Inl\<close> when the routed provider is gone, the \<open>KeyError\<close> of its identifier.
\<close>

definition handle_call :: "handler_run \<Rightarrow> string \<Rightarrow> json \<Rightarrow> mcp_server \<Rightarrow> (string + (mcp_error + mcp_payload)) \<times> mcp_server" where
  "handle_call call name args s0 =
     (let s = s0\<lparr>ms_call_count := ms_call_count s0 + 1\<rparr> in
      case dget (ms_routes s) name of
        None \<Rightarrow> (Inr (Inl \<lparr>me_code = tool_not_found_code,
                           me_message = ''tool '' @ name @ '' not found (registered: '' @
                             join_with '', '' (dkeys (ms_routes s)) @ '')''\<rparr>),
                 s\<lparr>ms_error_count := ms_error_count s + 1\<rparr>)
      | Some pid \<Rightarrow>
          (case dget (ms_providers s) pid of
             None \<Rightarrow> (Inl pid, s)
           | Some p \<Rightarrow>
               (let r = provider_execute call name args p in
                (Inr (Inr (CallResult r)),
                 if mr_is_error r then s\<lparr>ms_error_count := ms_error_count s + 1\<rparr> else s))))"

definition handle :: "handler_run \<Rightarrow> mcp_request \<Rightarrow> mcp_server \<Rightarrow> mcp_response \<times> mcp_server" where
  "handle call q s =
     (if mq_method q = ''tools/list'' then (\<lparr>mp_id = mq_id q, mp_body = Inr (ToolList (list_tools s))\<rparr>, s)
      else if mq_method q = ''tools/call'' then
        (case handle_call call (mq_name q) (mq_arguments q) s of
           (Inr body, s) \<Rightarrow> (\<lparr>mp_id = mq_id q, mp_body = body\<rparr>, s)
         | (Inl pid, s) \<Rightarrow>
             (\<lparr>mp_id = mq_id q, mp_body = Inl \<lparr>me_code = -32603, me_message = ''internal error: '' @ pid\<rparr>\<rparr>, s))
      else (\<lparr>mp_id = mq_id q, mp_body = Inl \<lparr>me_code = -32601, me_message = ''unknown method: '' @ mq_method q\<rparr>\<rparr>, s))"

text \<open>The direct call; \<open>None\<close>: \<open>KeyError\<close>.\<close>

definition server_call_tool :: "handler_run \<Rightarrow> string \<Rightarrow> json \<Rightarrow> mcp_server \<Rightarrow> mcp_tool_result option" where
  "server_call_tool call name args s =
     (case dget (ms_routes s) name of
        None \<Rightarrow> Some (mcp_failure (''tool '' @ name @ '' not found''))
      | Some pid \<Rightarrow> map_option (provider_execute call name args) (dget (ms_providers s) pid))"

definition server_openai_tools :: "mcp_server \<Rightarrow> json list" where
  "server_openai_tools s =
     (case ms_vault s of
        Some v \<Rightarrow> vault_openai_tools v
      | None \<Rightarrow> concat (map (\<lambda>p. registry_openai_tools (lp_tools p)) (dvals (ms_providers s))))"

definition server_warm_summaries :: "mcp_server \<Rightarrow> (string \<times> string \<times> string) list" where
  "server_warm_summaries s = (case ms_vault s of None \<Rightarrow> [] | Some v \<Rightarrow> vault_warm_summaries v)"

definition server_update_description :: "string \<Rightarrow> string option \<Rightarrow> (string, string) dict \<Rightarrow> mcp_server \<Rightarrow> bool \<times> mcp_server" where
  "server_update_description name description params s =
     (case dget (ms_routes s) name of
        None \<Rightarrow> (False, s)
      | Some pid \<Rightarrow>
          (case dget (ms_providers s) pid of
             None \<Rightarrow> (False, s)
           | Some p \<Rightarrow> (case update_description name description params p of
                          (ok, p) \<Rightarrow> (ok, s\<lparr>ms_providers := dset pid p (ms_providers s)\<rparr>))))"

definition server_tool_definition :: "string \<Rightarrow> mcp_server \<Rightarrow> tool_definition option" where
  "server_tool_definition name s =
     (case dget (ms_routes s) name of
        None \<Rightarrow> None
      | Some pid \<Rightarrow> (case dget (ms_providers s) pid of None \<Rightarrow> None | Some p \<Rightarrow> get_definition name (lp_tools p)))"

definition server_start :: "mcp_server \<Rightarrow> mcp_server" where
  "server_start s = s\<lparr>ms_started := True\<rparr>"

definition server_stop :: "mcp_server \<Rightarrow> mcp_server" where
  "server_stop s = (fold unregister_provider (dkeys (ms_providers s)) s)\<lparr>ms_started := False\<rparr>"

section \<open>\<open>MCPClient\<close>\<close>

definition client_list_tools :: "handler_run \<Rightarrow> string \<Rightarrow> mcp_server \<Rightarrow> mcp_tool_info list \<times> mcp_server" where
  "client_list_tools call rid s =
     (case handle call \<lparr>mq_id = rid, mq_method = ''tools/list'', mq_name = [], mq_arguments = JObj []\<rparr> s of
        (r, s) \<Rightarrow> (case mp_body r of Inr (ToolList ts) \<Rightarrow> (ts, s) | _ \<Rightarrow> ([], s)))"

definition client_call_tool :: "handler_run \<Rightarrow> string \<Rightarrow> string \<Rightarrow> json \<Rightarrow> mcp_server \<Rightarrow> mcp_tool_result \<times> mcp_server" where
  "client_call_tool call rid name args s =
     (case handle call \<lparr>mq_id = rid, mq_method = ''tools/call'', mq_name = name, mq_arguments = args\<rparr> s of
        (r, s) \<Rightarrow> (case mp_body r of
                     Inl e \<Rightarrow> (mcp_failure (''MCP error ['' @ show_int (me_code e) @ '']: '' @ me_message e), s)
                   | Inr (CallResult t) \<Rightarrow> (t, s)
                   | Inr _ \<Rightarrow> (mcp_failure ''empty result'', s)))"

section \<open>Connecting an agent\<close>

text \<open>
  The provider that \<open>Agent.connect_mcp\<close> builds from the agent's registry and the built-in tools
  (an argument), and the registry, into which the built-in tools are copied.
\<close>

definition connect_mcp :: "string \<Rightarrow> string tool_registry option \<Rightarrow> string tool_registry \<Rightarrow>
    local_provider \<times> string tool_registry" where
  "connect_mcp pid builtin reg =
     (let p = fold (\<lambda>(name, d) p. case dget (rg_handlers reg) name of None \<Rightarrow> p | Some h \<Rightarrow> provider_register d h p)
                (rg_definitions reg) (new_provider pid ''generated'')
      in case builtin of
           None \<Rightarrow> (p, reg)
         | Some b \<Rightarrow>
             fold (\<lambda>(name, d) (p, reg).
               if dget (rg_definitions (lp_tools p)) name \<noteq> None then (p, reg)
               else (case dget (rg_handlers b) name of
                       None \<Rightarrow> (p, reg)
                     | Some h \<Rightarrow> (provider_register d h p, registry_register d h reg)))
             (rg_definitions b) (p, reg))"

text \<open>
  \<open>Agent.register_tool\<close> on a connected agent: the function goes to the registry and to the provider
  object, which the server holds already when the agent is initialized.
\<close>

definition agent_register_tool :: "tool_definition \<Rightarrow> string \<Rightarrow> string \<Rightarrow> string tool_registry \<times> mcp_server \<Rightarrow>
    string tool_registry \<times> mcp_server" where
  "agent_register_tool d h pid rs =
     (registry_register d h (fst rs),
      (snd rs)\<lparr>ms_providers := dmap (\<lambda>k p. if k = pid then provider_register d h p else p) (ms_providers (snd rs))\<rparr>)"

section \<open>The invariant of the routes\<close>

definition provider_ok :: "local_provider \<Rightarrow> bool" where
  "provider_ok p \<longleftrightarrow> registry_ok (lp_tools p) \<and> wf_dict (rg_definitions (lp_tools p)) \<and>
     (\<forall>n d. dget (rg_definitions (lp_tools p)) n = Some d \<longrightarrow> td_name d = n)"

text \<open>
  \<open>home\<close> says which provider a tool belongs to. Exactly the tools of the registered providers are
  routed, each to its provider.
\<close>

definition server_inv :: "(string \<Rightarrow> string) \<Rightarrow> mcp_server \<Rightarrow> bool" where
  "server_inv home s \<longleftrightarrow> wf_dict (ms_providers s) \<and>
     (\<forall>pid p. dget (ms_providers s) pid = Some p \<longrightarrow> lp_provider_id p = pid \<and> provider_ok p \<and>
        (\<forall>n \<in> set (provider_names p). home n = pid)) \<and>
     (\<forall>n pid. dget (ms_routes s) n = Some pid \<longleftrightarrow>
        (\<exists>p. dget (ms_providers s) pid = Some p \<and> n \<in> set (provider_names p)))"

datatype server_op =
  RegisterProvider vault_backends local_provider "string list option"
| UnregisterProvider string
| Handle handler_run mcp_request
| UpdateDescription string "string option" "(string, string) dict"
| StartServer
| StopServer

fun server_step :: "server_op \<Rightarrow> mcp_server \<Rightarrow> mcp_server" where
  "server_step (RegisterProvider be p ess) s = register_provider be p ess s"
| "server_step (UnregisterProvider pid) s = unregister_provider pid s"
| "server_step (Handle call q) s = snd (handle call q s)"
| "server_step (UpdateDescription n d ps) s = snd (server_update_description n d ps s)"
| "server_step StartServer s = server_start s"
| "server_step StopServer s = server_stop s"

definition server_op_ok :: "(string \<Rightarrow> string) \<Rightarrow> server_op \<Rightarrow> bool" where
  "server_op_ok home x \<longleftrightarrow>
     (case x of
        RegisterProvider be p ess \<Rightarrow> provider_ok p \<and> (\<forall>n \<in> set (provider_names p). home n = lp_provider_id p)
      | _ \<Rightarrow> True)"

lemma new_provider_ok [simp]: "provider_ok (new_provider pid origin)"
  by (simp add: provider_ok_def new_provider_def new_tool_registry_def registry_ok_def)

lemma provider_register_ok [preserved]: "provider_ok p \<Longrightarrow> provider_ok (provider_register d h p)"
  by (simp add: provider_ok_def provider_register_def register_ok) (simp add: registry_register_def)

lemma provider_unregister_ok [preserved]: "provider_ok p \<Longrightarrow> provider_ok (provider_unregister n p)"
  by (simp add: provider_ok_def provider_unregister_def unregister_ok) (simp add: registry_unregister_def)

lemma tool_names: "provider_ok p \<Longrightarrow> map mi_name (get_tools p) = provider_names p"
proof -
  assume p: "provider_ok p"
  have "map td_name (dvals d) = dkeys d" if "\<forall>n x. (n, x) \<in> set d \<longrightarrow> td_name x = n" for d :: "(string, tool_definition) dict"
    using that by (induction d) auto
  with p show ?thesis
    by (auto simp: get_tools_def provider_names_def registry_tool_names_def provider_ok_def dget_mem o_def)
qed

lemma fold_add_routes:
  "dget (fold (\<lambda>t. dset (mi_name t) pid) ts r) n = (if n \<in> set (map mi_name ts) then Some pid else dget r n)"
  by (induction ts arbitrary: r) auto

lemma fold_del_routes:
  "dget (fold (\<lambda>t. ddel (mi_name t)) ts r) n = (if n \<in> set (map mi_name ts) then None else dget r n)"
  by (induction ts arbitrary: r) auto

lemma server_inv_provider:
  assumes "server_inv home s" and "dget (ms_providers s) pid = Some p"
  shows "lp_provider_id p = pid" "provider_ok p" "n \<in> set (provider_names p) \<Longrightarrow> home n = pid"
  using assms by (auto simp: server_inv_def)

lemma server_inv_route:
  "server_inv home s \<Longrightarrow> dget (ms_routes s) n = Some pid \<longleftrightarrow>
     (\<exists>p. dget (ms_providers s) pid = Some p \<and> n \<in> set (provider_names p))"
  by (simp add: server_inv_def)

lemma unregister_inv:
  assumes "server_inv home s"
  shows "server_inv home (unregister_provider pid s)"
proof (cases "dget (ms_providers s) pid")
  case None
  with assms show ?thesis by (simp add: unregister_provider_def)
next
  case (Some p)
  note p = server_inv_provider [OF assms Some]
  have r: "dget (ms_routes (unregister_provider pid s)) n =
      (if n \<in> set (provider_names p) then None else dget (ms_routes s) n)" for n
    using Some by (simp add: unregister_provider_def fold_del_routes tool_names [OF p(2)])
  have g: "dget (ms_providers (unregister_provider pid s)) k = (if k = pid then None else dget (ms_providers s) k)" for k
    using Some by (simp add: unregister_provider_def)
  have w: "wf_dict (ms_providers (unregister_provider pid s))"
    using assms Some by (simp add: unregister_provider_def server_inv_def)
  show ?thesis
    unfolding server_inv_def g r
  proof (intro conjI allI impI)
    show "wf_dict (ms_providers (unregister_provider pid s))" by (rule w)
  next
    fix k q assume "(if k = pid then None else dget (ms_providers s) k) = Some q"
    then have "dget (ms_providers s) k = Some q" by (simp split: if_splits)
    from server_inv_provider [OF assms this]
    show "lp_provider_id q = k" "provider_ok q" "\<forall>n \<in> set (provider_names q). home n = k" by blast+
  next
    fix n k
    show "((if n \<in> set (provider_names p) then None else dget (ms_routes s) n) = Some k) =
        (\<exists>q. (if k = pid then None else dget (ms_providers s) k) = Some q \<and> n \<in> set (provider_names q))"
    proof (cases "n \<in> set (provider_names p)")
      case True
      with p(3) have "home n = pid" by simp
      with server_inv_provider(3) [OF assms] True show ?thesis by (auto split: if_splits)
    next
      case False
      with Some server_inv_route [OF assms, of n k] show ?thesis by auto
    qed
  qed
qed

lemma unregister_gone: "server_inv home s \<Longrightarrow> dget (ms_providers (unregister_provider pid s)) pid = None"
  by (simp add: unregister_provider_def split: option.split)

lemma register_inv:
  assumes "server_inv home s" and "provider_ok p" and "\<forall>n \<in> set (provider_names p). home n = lp_provider_id p"
  shows "server_inv home (register_provider be p ess s)"
proof -
  let ?pid = "lp_provider_id p"
  define s1 where "s1 = (if dget (ms_providers s) ?pid \<noteq> None then unregister_provider ?pid s else s)"
  have i: "server_inv home s1" using assms(1) by (simp add: s1_def unregister_inv)
  have gone: "dget (ms_providers s1) ?pid = None" using unregister_gone [OF assms(1)] by (simp add: s1_def)
  let ?s = "register_provider be p ess s"
  have s': "ms_providers ?s = dset ?pid p (ms_providers s1)"
    "ms_routes ?s = fold (\<lambda>t. dset (mi_name t) ?pid) (get_tools p) (ms_routes s1)"
    by (simp_all add: register_provider_def s1_def Let_def)
  have r: "dget (ms_routes ?s) n = (if n \<in> set (provider_names p) then Some ?pid else dget (ms_routes s1) n)" for n
    by (simp add: s' fold_add_routes tool_names [OF assms(2)])
  have g: "dget (ms_providers ?s) k = (if k = ?pid then Some p else dget (ms_providers s1) k)" for k
    by (simp add: s')
  show ?thesis
    unfolding server_inv_def g r
  proof (intro conjI allI impI)
    show "wf_dict (ms_providers ?s)" using i by (simp add: server_inv_def s')
  next
    fix k q assume "(if k = ?pid then Some p else dget (ms_providers s1) k) = Some q"
    then show "lp_provider_id q = k" "provider_ok q" "\<forall>n \<in> set (provider_names q). home n = k"
      using assms server_inv_provider [OF i, of k q] by (auto split: if_splits)
  next
    fix n k
    show "((if n \<in> set (provider_names p) then Some ?pid else dget (ms_routes s1) n) = Some k) =
        (\<exists>q. (if k = ?pid then Some p else dget (ms_providers s1) k) = Some q \<and> n \<in> set (provider_names q))"
    proof (cases "n \<in> set (provider_names p)")
      case True
      with assms(3) have "home n = ?pid" by simp
      with True server_inv_provider(3) [OF i] show ?thesis by auto
    next
      case False
      with gone server_inv_route [OF i, of n k] show ?thesis by auto
    qed
  qed
qed

lemma fold_unregister_inv: "server_inv home s \<Longrightarrow> server_inv home (fold unregister_provider pids s)"
  by (induction pids arbitrary: s) (simp_all add: unregister_inv)

lemma server_inv_cong:
  "ms_providers s' = ms_providers s \<Longrightarrow> ms_routes s' = ms_routes s \<Longrightarrow> server_inv home s' = server_inv home s"
  by (simp add: server_inv_def)

lemma handle_fields: "ms_providers (snd (handle call q s)) = ms_providers s" "ms_routes (snd (handle call q s)) = ms_routes s"
  by (auto simp: handle_def handle_call_def Let_def split: option.splits prod.splits sum.splits)

lemma update_provider_fields:
  "lp_provider_id (snd (update_description n d ps p)) = lp_provider_id p"
  "set (provider_names (snd (update_description n d ps p))) = set (provider_names p)"
  "provider_ok p \<Longrightarrow> provider_ok (snd (update_description n d ps p))"
  by (auto simp: update_description_def Let_def provider_names_def registry_tool_names_def get_definition_def
      provider_ok_def registry_ok_def dkeys_dset dget_None_iff dget_key split: option.splits)

lemma update_inv:
  assumes i: "server_inv home s"
  shows "server_inv home (snd (server_update_description n d ps s))"
proof (cases "\<exists>pid p. dget (ms_routes s) n = Some pid \<and> dget (ms_providers s) pid = Some p")
  case False
  then have "snd (server_update_description n d ps s) = s"
    by (auto simp: server_update_description_def split: option.splits)
  with i show ?thesis by simp
next
  case True
  then obtain pid p where r: "dget (ms_routes s) n = Some pid" and p: "dget (ms_providers s) pid = Some p" by blast
  let ?p = "snd (update_description n d ps p)"
  have e: "snd (server_update_description n d ps s) = s\<lparr>ms_providers := dset pid ?p (ms_providers s)\<rparr>"
    using r p by (simp add: server_update_description_def split: prod.split)
  note ok = server_inv_provider [OF i p] and f = update_provider_fields [where n = n and d = d and ps = ps and p = p]
  show ?thesis unfolding e using i ok f by (simp add: server_inv_def p)
qed

lemma server_step_inv: "server_inv home s \<Longrightarrow> server_op_ok home x \<Longrightarrow> server_inv home (server_step x s)"
  by (cases x) (simp_all add: register_inv unregister_inv update_inv server_op_ok_def server_start_def
      server_stop_def handle_fields fold_unregister_inv cong: server_inv_cong)

interpretation srv: invariant_system "\<lambda>s. \<exists>v. s = new_server v" server_step "server_op_ok home"
  "server_inv home" for home
  by unfold_locales (auto simp: server_step_inv, simp add: new_server_def server_inv_def)

lemma server_inv_members:
  "server_inv home s \<Longrightarrow> p \<in> snd ` set (ms_providers s) \<longleftrightarrow> (\<exists>pid. dget (ms_providers s) pid = Some p)"
  using dvals_dget [of "ms_providers s" p] by (simp add: server_inv_def)

lemma route_of_tool:
  assumes "server_inv home s"
  shows "dget (ms_routes s) n = (if \<exists>p \<in> set (dvals (ms_providers s)). n \<in> set (provider_names p)
     then Some (home n) else None)"
proof (cases "dget (ms_routes s) n")
  case None
  with server_inv_route [OF assms, of n] have "\<not> (\<exists>pid p. dget (ms_providers s) pid = Some p \<and> n \<in> set (provider_names p))"
    by simp
  with None show ?thesis by (simp add: server_inv_members [OF assms] Bex_def) blast
next
  case (Some pid)
  with server_inv_route [OF assms, of n pid] obtain p
    where "dget (ms_providers s) pid = Some p" "n \<in> set (provider_names p)" by blast
  with server_inv_provider(3) [OF assms] have "home n = pid"
    "\<exists>p. p \<in> set (dvals (ms_providers s)) \<and> n \<in> set (provider_names p)"
    by (auto simp: server_inv_members [OF assms])
  with Some show ?thesis by auto
qed

lemma listed_names:
  assumes "server_inv home s"
  shows "mi_name ` set (list_tools s) = (\<Union>p \<in> set (dvals (ms_providers s)). set (provider_names p))"
proof -
  have "mi_name ` set (get_tools p) = set (provider_names p)" if "p \<in> set (dvals (ms_providers s))" for p
  proof -
    from that assms have "provider_ok p"
      by (auto simp: server_inv_members [OF assms] dest: server_inv_provider(2) [OF assms])
    then show ?thesis by (metis tool_names list.set_map)
  qed
  then show ?thesis by (fastforce simp: list_tools_def image_UN)
qed

section \<open>Properties\<close>

text \<open>
  The server is a router: after any run of registrations (of well-formed providers, each tool
  at one home), removals, requests, description updates, start and stop, a call through the client
  of a tool that the server lists is executed by the provider that is its home, once, the direct
  call gives the same result, and a call of any other tool is answered with the not-found error;
  no request ends in an internal error.
\<close>

theorem client_call_reaches_home:
  assumes "list_all (server_op_ok home) ops" and "s = fold server_step ops (new_server v)"
  shows "(if n \<in> mi_name ` set (list_tools s)
     then \<exists>p. dget (ms_providers s) (home n) = Some p \<and> n \<in> set (provider_names p) \<and>
        fst (client_call_tool call rid n args s) = provider_execute call n args p \<and>
        server_call_tool call n args s = Some (provider_execute call n args p)
     else mr_is_error (fst (client_call_tool call rid n args s)) \<and>
        mp_body (fst (handle call \<lparr>mq_id = rid, mq_method = ''tools/call'', mq_name = n, mq_arguments = args\<rparr> s)) \<in>
          {Inl \<lparr>me_code = tool_not_found_code, me_message = m\<rparr> | m. True}) \<and>
    (\<forall>q m. mp_body (fst (handle call q s)) \<noteq> Inl \<lparr>me_code = -32603, me_message = m\<rparr>)"
proof -
  have i: "server_inv home s" unfolding assms(2) by (rule srv.inv_reachable [OF _ assms(1)]) blast
  have kerr: "\<exists>b. fst (handle_call call m a s) = Inr b \<and> (\<forall>t. b \<noteq> Inl \<lparr>me_code = -32603, me_message = t\<rparr>)" for m a
    using server_inv_route [OF i, of m]
    by (auto simp: handle_call_def Let_def tool_not_found_code_def split: option.splits)
  have "mp_body (fst (handle call q s)) \<noteq> Inl \<lparr>me_code = -32603, me_message = m\<rparr>" for q m
  proof (cases "mq_method q = ''tools/call''")
    case True
    with kerr [of "mq_name q" "mq_arguments q"] show ?thesis
      by (auto simp: handle_def split: prod.split)
  qed (simp add: handle_def)
  moreover have "\<exists>p. dget (ms_providers s) (home n) = Some p \<and> n \<in> set (provider_names p) \<and>
      fst (client_call_tool call rid n args s) = provider_execute call n args p \<and>
      server_call_tool call n args s = Some (provider_execute call n args p)" if "n \<in> mi_name ` set (list_tools s)"
  proof -
    have r: "dget (ms_routes s) n = Some (home n)"
      using that by (simp add: route_of_tool [OF i] listed_names [OF i])
    with server_inv_route [OF i] obtain p
      where p: "dget (ms_providers s) (home n) = Some p" "n \<in> set (provider_names p)" by blast
    with r show ?thesis
      by (auto simp: client_call_tool_def handle_def handle_call_def Let_def server_call_tool_def)
  qed
  moreover have "mr_is_error (fst (client_call_tool call rid n args s)) \<and>
      mp_body (fst (handle call \<lparr>mq_id = rid, mq_method = ''tools/call'', mq_name = n, mq_arguments = args\<rparr> s)) \<in>
        {Inl \<lparr>me_code = tool_not_found_code, me_message = m\<rparr> | m. True}" if "n \<notin> mi_name ` set (list_tools s)"
  proof -
    have "dget (ms_routes s) n = None"
      using that by (simp add: route_of_tool [OF i] listed_names [OF i])
    then show ?thesis
      by (auto simp: client_call_tool_def handle_def handle_call_def Let_def mcp_failure_def)
  qed
  ultimately show ?thesis by auto
qed

definition calc_provider :: "string \<Rightarrow> local_provider" where
  "calc_provider pid = provider_register (demo_definition ''calc'' [] []) ''add'' (new_provider pid ''builtin'')"

theorem client_call_reaches_home_witness:
  "fst (client_call_tool (\<lambda>h a. Inr h) ''r1'' ''calc'' (JObj [])
     (fold server_step [StartServer, RegisterProvider demo_backends (calc_provider ''local'') None] (new_server None))) =
   mcp_success ''add''"
proof -
  let ?ops = "[StartServer, RegisterProvider demo_backends (calc_provider ''local'') None]"
  have names: "provider_names (calc_provider ''local'') = [''calc'']"
    by (simp add: calc_provider_def provider_register_def registry_register_def provider_names_def
        registry_tool_names_def new_provider_def new_tool_registry_def demo_definition_def)
  have ok: "list_all (server_op_ok (\<lambda>_. ''local'')) ?ops"
    by (simp add: server_op_ok_def names)
      (simp add: calc_provider_def provider_register_ok, simp add: provider_register_def new_provider_def)
  let ?s = "fold server_step ?ops (new_server None)"
  have l: "''calc'' \<in> mi_name ` set (list_tools ?s)"
    by code_simp
  from client_call_reaches_home [OF ok refl, of "''calc''" None "\<lambda>h a. Inr h" "''r1''" "JObj []"] l
  obtain p where p: "dget (ms_providers ?s) ''local'' = Some p"
    "fst (client_call_tool (\<lambda>h a. Inr h) ''r1'' ''calc'' (JObj []) ?s) = provider_execute (\<lambda>h a. Inr h) ''calc'' (JObj []) p"
    by auto
  have "dget (ms_providers ?s) ''local'' = Some (calc_provider ''local'')"
    by code_simp
  with p(1) have "p = calc_provider ''local''" by simp
  moreover have "provider_execute (\<lambda>h a. Inr h) ''calc'' (JObj []) (calc_provider ''local'') = mcp_success ''add''"
    by code_simp
  ultimately show ?thesis using p(2) by simp
qed

text \<open>
  Two agents that connect with one provider identifier (the default of \<open>connect_mcp\<close> is a
  constant): initializing the second one removes every tool of the first that it does not have.
\<close>

lemma same_provider_id_evicts:
  assumes "server_inv home s" and "provider_ok p" and "provider_ok q"
    and "\<forall>n \<in> set (provider_names p). home n = lp_provider_id p"
    and "lp_provider_id q = lp_provider_id p"
    and "n \<in> set (provider_names p)" and "n \<notin> set (provider_names q)"
  shows "dget (ms_routes (register_provider be p ess s)) n = Some (lp_provider_id p) \<and>
    mr_is_error (fst (client_call_tool call rid n args
      (register_provider be' q ess' (register_provider be p ess s))))"
proof -
  let ?s = "register_provider be p ess s"
  have i: "server_inv home ?s" by (rule register_inv [OF assms(1,2,4)])
  have p: "dget (ms_providers ?s) (lp_provider_id p) = Some p" by (simp add: register_provider_def Let_def)
  with server_inv_route [OF i, of n "lp_provider_id p"] assms(6)
  have r: "dget (ms_routes ?s) n = Some (lp_provider_id p)" by simp
  have "dget (ms_routes (unregister_provider (lp_provider_id p) ?s)) n = None"
    using p assms(6) by (simp add: unregister_provider_def fold_del_routes tool_names [OF assms(2)])
  then have "dget (ms_routes (register_provider be' q ess' ?s)) n = None"
    using p assms(5,7) by (simp add: register_provider_def [of be' q] Let_def fold_add_routes tool_names [OF assms(3)])
  with r show ?thesis
    by (simp add: client_call_tool_def handle_def handle_call_def Let_def mcp_failure_def)
qed

text \<open>
  When two providers offer a tool of the same name, removing one of them removes the route of the
  other: the tool is still listed, and calls of it are answered with not found.
\<close>

lemma unregister_breaks_shared_tool:
  assumes "wf_dict (ms_providers s)"
    and "dget (ms_providers s) a = Some p" and "provider_ok p" and "n \<in> set (provider_names p)"
    and "dget (ms_providers s) b = Some q" and "provider_ok q" and "n \<in> set (provider_names q)" and "a \<noteq> b"
  shows "n \<in> mi_name ` set (list_tools (unregister_provider a s)) \<and>
    mr_is_error (fst (client_call_tool call rid n args (unregister_provider a s)))"
proof
  have "dget (ms_providers (unregister_provider a s)) b = Some q"
    using assms(2,5,8) by (simp add: unregister_provider_def)
  moreover have "wf_dict (ms_providers (unregister_provider a s))"
    using assms(1,2) by (simp add: unregister_provider_def)
  ultimately have "q \<in> set (dvals (ms_providers (unregister_provider a s)))" by (metis dvals_dget)
  moreover have "n \<in> mi_name ` set (get_tools q)"
    using assms(7) tool_names [OF assms(6)] by (metis list.set_map)
  ultimately show "n \<in> mi_name ` set (list_tools (unregister_provider a s))"
    by (fastforce simp: list_tools_def)
next
  have "dget (ms_routes (unregister_provider a s)) n = None"
    using assms(2,4) by (simp add: unregister_provider_def fold_del_routes tool_names [OF assms(3)])
  then show "mr_is_error (fst (client_call_tool call rid n args (unregister_provider a s)))"
    by (simp add: client_call_tool_def handle_def handle_call_def Let_def mcp_failure_def)
qed

text \<open>
  A tool that is registered on a connected agent after its initialization is listed, but no call
  of it reaches the handler.
\<close>

lemma late_tool_not_callable:
  assumes "server_inv home s" and "dget (ms_providers s) pid = Some p"
    and "\<forall>q \<in> set (dvals (ms_providers s)). td_name d \<notin> set (provider_names q)"
  shows "td_name d \<in> mi_name ` set (list_tools (snd (agent_register_tool d h pid (reg, s)))) \<and>
    mr_is_error (fst (client_call_tool call rid (td_name d) args (snd (agent_register_tool d h pid (reg, s)))))"
proof
  let ?s = "snd (agent_register_tool d h pid (reg, s))"
  let ?p = "provider_register d h p"
  have wf: "wf_dict (ms_providers s)" using assms(1) by (simp add: server_inv_def)
  have "dget (ms_providers ?s) pid = Some ?p" using assms(2) by (simp add: agent_register_tool_def)
  moreover have "wf_dict (ms_providers ?s)" using wf by (simp add: agent_register_tool_def wf_dict_def)
  ultimately have m: "?p \<in> set (dvals (ms_providers ?s))" by (metis dvals_dget)
  have "provider_ok ?p" by (intro provider_register_ok server_inv_provider(2) [OF assms(1,2)])
  moreover have "td_name d \<in> set (provider_names ?p)"
    by (simp add: provider_names_def registry_tool_names_def provider_register_def registry_register_def
        dkeys_dset del: set_map)
  ultimately have "td_name d \<in> mi_name ` set (get_tools ?p)" by (metis tool_names list.set_map)
  with m show "td_name d \<in> mi_name ` set (list_tools ?s)" by (fastforce simp: list_tools_def)
next
  have "dget (ms_routes s) (td_name d) = None" using assms(3) by (simp add: route_of_tool [OF assms(1)])
  then show "mr_is_error (fst (client_call_tool call rid (td_name d) args (snd (agent_register_tool d h pid (reg, s)))))"
    by (simp add: client_call_tool_def handle_def handle_call_def Let_def mcp_failure_def agent_register_tool_def)
qed

text \<open>With a vault, the schemas do not see a repaired description: the vault keeps its own definition.\<close>

lemma vault_hides_repair:
  "ms_vault s = Some v \<Longrightarrow>
   server_openai_tools (snd (server_update_description n (Some t) [] s)) = server_openai_tools s"
  by (auto simp: server_openai_tools_def server_update_description_def split: option.split prod.split)

lemma connect_mcp_ok [simp, preserved]: "provider_ok (fst (connect_mcp pid builtin reg))"
proof -
  have a: "provider_ok (fold (\<lambda>(name, d) p. case dget hs name of None \<Rightarrow> p | Some h \<Rightarrow> provider_register d h p) ds p)"
    if "provider_ok p" for hs ds p
    using that by (induction ds arbitrary: p) (auto simp: provider_register_ok split: option.split)
  have b: "provider_ok (fst (fold (\<lambda>(name, d) (p, reg).
      if dget (rg_definitions (lp_tools p)) name \<noteq> None then (p, reg)
      else (case dget hs name of None \<Rightarrow> (p, reg)
            | Some h \<Rightarrow> (provider_register d h p, registry_register d h reg))) ds x))"
    if "provider_ok (fst x)" for hs ds x
    using that by (induction ds arbitrary: x) (auto simp: provider_register_ok split: option.split prod.split)
  show ?thesis
    unfolding connect_mcp_def Let_def
    by (cases builtin) (simp_all only: option.case fst_conv a b new_provider_ok)
qed

end
