(* ===== verification/Confirm.thy ===== *)
theory Confirm
  imports Strings ToolModels
begin

text \<open>
  \<open>youmi/mcp/confirm.py\<close>: the confirmers that decide whether a candidate of a tool search is used.
  What a callback or the LLM answers is an argument, and so is the JSON parser.
\<close>

record confirm_decision =
  cd_confirmed :: bool
  cd_reason :: string

definition decision_of :: "bool \<Rightarrow> string \<Rightarrow> confirm_decision" where
  "decision_of ok why = \<lparr>cd_confirmed = ok, cd_reason = why\<rparr>"

text \<open>How a callback ends: it raises (class name), or returns a decision or a truth value.\<close>

datatype confirm_outcome = ConfirmRaises string | Decides confirm_decision | SaysBool bool

type_synonym confirmer = "tool_search_result \<Rightarrow> string \<Rightarrow> confirm_outcome"

definition auto_confirm :: confirmer where
  "auto_confirm c query = Decides (decision_of True ''auto'')"

definition call_confirmer :: "confirmer \<Rightarrow> tool_search_result \<Rightarrow> string \<Rightarrow> confirm_decision" where
  "call_confirmer f c query =
     (case f c query of
        ConfirmRaises cls \<Rightarrow> decision_of False (''confirmer_error: '' @ cls)
      | Decides d \<Rightarrow> d
      | SaysBool b \<Rightarrow> decision_of b [])"

section \<open>\<open>LLMConfirmer\<close>\<close>

definition find_char :: "char \<Rightarrow> string \<Rightarrow> nat option" where
  "find_char c s = (let n = length (takeWhile (\<lambda>x. x \<noteq> c) s) in if n < length s then Some n else None)"

definition rfind_char :: "char \<Rightarrow> string \<Rightarrow> nat option" where
  "rfind_char c s = map_option (\<lambda>n. length s - 1 - n) (find_char c (rev s))"

text \<open>
  \<open>_extract_json_object\<close>; \<open>parse\<close> is \<open>json.loads\<close>, \<open>None\<close> when it raises. The result on the left is
  the class of the exception.
\<close>

definition extract_json_object :: "(string \<Rightarrow> json option) \<Rightarrow> string \<Rightarrow> string + (string, json) dict" where
  "extract_json_object parse t =
     (case (find_char (CHR 0x7B) t, rfind_char (CHR 0x7D) t) of
        (Some a, Some b) \<Rightarrow>
          if b \<le> a then Inl ''ValueError''
          else (case parse (drop a (take (b + 1) t)) of
                  None \<Rightarrow> Inl ''JSONDecodeError''
                | Some (JObj d) \<Rightarrow> Inr d
                | Some _ \<Rightarrow> Inl ''ValueError'')
      | _ \<Rightarrow> Inl ''ValueError'')"

record llm_confirmer =
  lc_min_confidence :: rat
  lc_parse :: "string \<Rightarrow> json option"
  lc_float :: "json \<Rightarrow> string + rat"
  lc_str :: "json \<Rightarrow> string"

definition new_llm_confirmer :: "(string \<Rightarrow> json option) \<Rightarrow> (json \<Rightarrow> string + rat) \<Rightarrow> (json \<Rightarrow> string) \<Rightarrow> rat \<Rightarrow> llm_confirmer" where
  "new_llm_confirmer parse fl st m =
     \<lparr>lc_min_confidence = min 1 (max 0 m), lc_parse = parse, lc_float = fl, lc_str = st\<rparr>"

text \<open>
  The verdict in an answer: suitable, confidence and reason, or the class of the exception. \<open>content\<close>
  is the LLM's text, or the class of the exception the call raised.
\<close>

definition llm_verdict :: "llm_confirmer \<Rightarrow> string + string \<Rightarrow> string + (bool \<times> rat \<times> string)" where
  "llm_verdict l content =
     (case content of
        Inl cls \<Rightarrow> Inl cls
      | Inr t \<Rightarrow>
          (case extract_json_object (lc_parse l) (strip t) of
             Inl cls \<Rightarrow> Inl cls
           | Inr d \<Rightarrow>
               (let suitable = (case dget d ''suitable'' of None \<Rightarrow> False | Some v \<Rightarrow> \<not> falsy v);
                    reason = take 200 (case dget d ''reason'' of None \<Rightarrow> [] | Some v \<Rightarrow> lc_str l v)
                in case (case dget d ''confidence'' of None \<Rightarrow> Inr (1 / 2) | Some v \<Rightarrow> lc_float l v) of
                     Inl cls \<Rightarrow> Inl cls
                   | Inr conf \<Rightarrow> Inr (suitable, conf, reason))))"

definition llm_confirm :: "llm_confirmer \<Rightarrow> string + string \<Rightarrow> confirm_decision" where
  "llm_confirm l content =
     (case llm_verdict l content of
        Inl cls \<Rightarrow> decision_of True (''llm_confirm_error: '' @ cls)
      | Inr (suitable, conf, reason) \<Rightarrow>
          (let ok = (suitable \<and> lc_min_confidence l \<le> conf)
           in decision_of ok (if reason = [] then (if ok then ''llm accept'' else ''llm reject'') else reason)))"

text \<open>The LLM confirmer as a confirmer: \<open>chat\<close> answers the prompt for a candidate.\<close>

definition llm_confirmer_of :: "llm_confirmer \<Rightarrow> (tool_search_result \<Rightarrow> string \<Rightarrow> string + string) \<Rightarrow> confirmer" where
  "llm_confirmer_of l chat c query = Decides (llm_confirm l (chat c query))"

section \<open>Properties\<close>

text \<open>
  The confirmers fail in opposite directions: a callback that raises rejects the candidate; an LLM
  confirmer whose call, parsing or conversion fails accepts it. Otherwise the LLM confirmer accepts
  exactly the suitable candidates of sufficient confidence, and every decision has a reason.
\<close>

theorem llm_confirm_correct:
  "(case llm_verdict l content of
      Inl cls \<Rightarrow> cd_confirmed (llm_confirm l content)
    | Inr (suitable, conf, reason) \<Rightarrow>
        (cd_confirmed (llm_confirm l content) \<longleftrightarrow> suitable \<and> lc_min_confidence l \<le> conf)) \<and>
   cd_reason (llm_confirm l content) \<noteq> [] \<and>
   cd_confirmed (call_confirmer (llm_confirmer_of l (\<lambda>_ _. Inl cls)) c query) \<and>
   \<not> cd_confirmed (call_confirmer (\<lambda>_ _. ConfirmRaises cls) c query)"
  by (auto simp: llm_confirm_def llm_verdict_def decision_of_def call_confirmer_def llm_confirmer_of_def Let_def
      split: sum.split prod.split)

text \<open>The object that is parsed is a factor of the text that starts and ends with braces.\<close>

lemma find_charD: "find_char c s = Some n \<Longrightarrow> n < length s \<and> s ! n = c"
  by (auto simp: find_char_def Let_def split: if_splits dest: nth_length_takeWhile)

lemma rfind_charD: "rfind_char c s = Some n \<Longrightarrow> n < length s \<and> s ! n = c"
  by (auto simp: rfind_char_def rev_nth dest!: find_charD)

end
