(* ===== verification/Bridge.thy ===== *)
theory Bridge
  imports ToolContext McpServer Confirm
begin

text \<open>
  \<open>youmi/mcp/bridge.py\<close>: the bridge of one agent to the MCP server. It checks permissions, forwards
  calls, and runs the discovery protocol: search, reject, audit and load. The answers of the
  embedding client and of the store, the forms of numbers and JSON texts and the generated
  identifiers are the environment \<open>bridge_env\<close>. The agent's context keeps its own copy of the vault:
  the bridge never writes to the vault while it has a context. Python sets are lists.
\<close>

section \<open>State and environment\<close>

record bridge_env =
  be_call :: handler_run
  be_rid :: string
  be_backends :: vault_backends
  be_store_cone :: "(cone_query \<Rightarrow> int \<Rightarrow> tool_search_result list option) option"
  be_str :: "json \<Rightarrow> string"
  be_wide :: "string \<Rightarrow> bool"
  be_round :: "rat \<Rightarrow> rat"
  be_dumps :: "json \<Rightarrow> string"
  be_fresh :: "audit_gate \<Rightarrow> string \<times> string"

record tool_bridge =
  br_agent_id :: string
  br_allowed_tools :: "string list option"
  br_call_count :: nat
  br_vault :: "tool_vault option"
  br_context :: "agent_tool_context option"
  br_cone :: "cone_retriever option"
  br_audit_gate :: "audit_gate option"
  br_rejected_tools :: "string list"
  br_active_lineages :: "(string, string) dict"
  br_last_search_query :: string
  br_reject_count :: nat
  br_confirmer :: "confirmer option"
  br_search_meta_tool :: bool

definition search_new_tools_name :: string where
  "search_new_tools_name = ''search_new_tools''"

definition new_bridge :: "string \<Rightarrow> string list option \<Rightarrow> bool \<Rightarrow> tool_bridge" where
  "new_bridge agent_id allowed meta =
     \<lparr>br_agent_id = agent_id, br_allowed_tools = (if allowed = Some [] then None else allowed), br_call_count = 0,
      br_vault = None, br_context = None, br_cone = None, br_audit_gate = None, br_rejected_tools = [],
      br_active_lineages = [], br_last_search_query = [], br_reject_count = 0, br_confirmer = None,
      br_search_meta_tool = meta\<rparr>"

definition set_audit_gate :: "audit_gate option \<Rightarrow> tool_bridge \<Rightarrow> tool_bridge" where
  "set_audit_gate g b = b\<lparr>br_audit_gate := g\<rparr>"

definition set_confirmer :: "confirmer option \<Rightarrow> tool_bridge \<Rightarrow> tool_bridge" where
  "set_confirmer f b = b\<lparr>br_confirmer := f\<rparr>"

text \<open>
  \<open>_get_cone\<close>: an injected retriever, or one over the current vault and its store. The code keeps
  the latter after its first use; it holds a reference to the vault.
\<close>

definition get_cone :: "bridge_env \<Rightarrow> tool_bridge \<Rightarrow> cone_retriever option" where
  "get_cone env b =
     (case br_cone b of
        Some cn \<Rightarrow> Some cn
      | None \<Rightarrow> map_option (\<lambda>v. \<lparr>cn_store = be_store_cone env, cn_vault = Some (be_backends env, v)\<rparr>) (br_vault b))"

section \<open>Permissions\<close>

definition check_permission :: "string \<Rightarrow> tool_bridge \<Rightarrow> bool" where
  "check_permission n b = (case br_allowed_tools b of None \<Rightarrow> True | Some ns \<Rightarrow> n \<in> set ns)"

definition add_allowed_tool :: "string \<Rightarrow> tool_bridge \<Rightarrow> tool_bridge" where
  "add_allowed_tool n b =
     b\<lparr>br_allowed_tools := Some (List.insert n (case br_allowed_tools b of None \<Rightarrow> [] | Some ns \<Rightarrow> ns))\<rparr>"

definition remove_allowed_tool :: "string \<Rightarrow> tool_bridge \<Rightarrow> tool_bridge" where
  "remove_allowed_tool n b = b\<lparr>br_allowed_tools := map_option (removeAll n) (br_allowed_tools b)\<rparr>"

text \<open>\<open>reset_tool_permissions\<close> of the agent; \<open>initial\<close> is the snapshot that \<open>connect_mcp\<close> took.\<close>

definition reset_tool_permissions :: "string list option \<Rightarrow> tool_bridge \<Rightarrow> tool_bridge" where
  "reset_tool_permissions initial b = b\<lparr>br_allowed_tools := initial\<rparr>"

definition visible_tool_names :: "tool_bridge \<Rightarrow> string list" where
  "visible_tool_names b =
     (case br_allowed_tools b of
        Some ns \<Rightarrow> ns
      | None \<Rightarrow> (case br_context b of
                   Some cx \<Rightarrow> hot_tool_names cx
                 | None \<Rightarrow> (case br_vault b of Some v \<Rightarrow> map te_tool_name (tools_in_tier HOT v) | None \<Rightarrow> [])))"

section \<open>Schemas and lists\<close>

definition schema_name :: "json \<Rightarrow> string option" where
  "schema_name s =
     (case s of
        JObj d \<Rightarrow> (case dget d ''function'' of
                     Some (JObj f) \<Rightarrow> (case dget f ''name'' of Some (JStr n) \<Rightarrow> Some n | _ \<Rightarrow> None)
                   | _ \<Rightarrow> None)
      | _ \<Rightarrow> None)"

text \<open>\<open>_search_new_tools_schema\<close>; \<open>description\<close> stands for its Chinese text, the parameters likewise.\<close>

definition meta_parameter :: "string \<Rightarrow> json" where
  "meta_parameter ty = JObj [(''type'', JStr ty), (''description'', JStr [])]"

definition search_new_tools_schema :: json where
  "search_new_tools_schema =
     JObj [(''type'', JStr ''function''),
       (''function'', JObj [(''name'', JStr search_new_tools_name), (''description'', JStr []),
          (''parameters'', JObj [(''type'', JStr ''object''),
             (''properties'', JObj [(''query'', meta_parameter ''string''), (''top_k'', meta_parameter ''integer''),
                (''load'', meta_parameter ''string''), (''reject'', meta_parameter ''string'')]),
             (''required'', JList [])])])]"

definition bridge_list_tools :: "bridge_env \<Rightarrow> tool_bridge \<Rightarrow> mcp_server \<Rightarrow> mcp_tool_info list" where
  "bridge_list_tools env b s =
     (let all_tools = fst (client_list_tools (be_call env) (be_rid env) s) in
      case br_allowed_tools b of None \<Rightarrow> all_tools | Some ns \<Rightarrow> filter (\<lambda>t. mi_name t \<in> set ns) all_tools)"

definition bridge_openai_tools :: "tool_bridge \<Rightarrow> mcp_server \<Rightarrow> json list" where
  "bridge_openai_tools b s =
     (let schemas = (case br_context b of
                       Some cx \<Rightarrow> to_openai_tools cx
                     | None \<Rightarrow> (case br_vault b of Some v \<Rightarrow> vault_openai_tools v | None \<Rightarrow> server_openai_tools s));
          result = (case br_allowed_tools b of
                      None \<Rightarrow> schemas
                    | Some ns \<Rightarrow> filter (\<lambda>x. (case schema_name x of None \<Rightarrow> [] | Some n \<Rightarrow> n) \<in> set ns) schemas)
      in if br_search_meta_tool b \<and> \<not> (\<exists>x \<in> set result. schema_name x = Some search_new_tools_name)
         then result @ [search_new_tools_schema] else result)"

text \<open>A warm summary: name, summary and, from a vault, the short summary.\<close>

definition bridge_warm_summaries :: "tool_bridge \<Rightarrow> (string \<times> string \<times> string option) list" where
  "bridge_warm_summaries b =
     (let summaries = (case br_context b of
                         Some cx \<Rightarrow> map (\<lambda>(n, t). (n, t, None)) (to_warm_summaries cx)
                       | None \<Rightarrow> (case br_vault b of
                                    Some v \<Rightarrow> map (\<lambda>(n, t, l2). (n, t, Some l2)) (vault_warm_summaries v)
                                  | None \<Rightarrow> []))
      in case br_allowed_tools b of None \<Rightarrow> summaries | Some ns \<Rightarrow> filter (\<lambda>x. fst x \<in> set ns) summaries)"

section \<open>Tiers\<close>

definition bridge_load_tool :: "string \<Rightarrow> tool_bridge \<Rightarrow> bool \<times> tool_bridge" where
  "bridge_load_tool n b =
     (case br_context b of
        Some cx \<Rightarrow> (case promote n cx of (ok, cx) \<Rightarrow> (ok, b\<lparr>br_context := Some cx\<rparr>))
      | None \<Rightarrow>
          (case br_vault b of
             None \<Rightarrow> (False, b)
           | Some v \<Rightarrow> (case load_tool n v of (e, v) \<Rightarrow> (e \<noteq> None, b\<lparr>br_vault := Some v\<rparr>))))"

definition use_tool :: "string \<Rightarrow> tool_bridge \<Rightarrow> tool_bridge" where
  "use_tool n b =
     (case br_context b of
        Some cx \<Rightarrow> b\<lparr>br_context := Some (context_record_usage n None cx)\<rparr>
      | None \<Rightarrow> (case br_vault b of Some v \<Rightarrow> b\<lparr>br_vault := Some (record_usage n None v)\<rparr> | None \<Rightarrow> b))"

definition recycle_tools :: "int \<Rightarrow> tool_bridge \<Rightarrow> string list \<times> tool_bridge" where
  "recycle_tools k b =
     (case br_context b of
        Some cx \<Rightarrow> (case context_recycle (Some k) cx of (ns, cx) \<Rightarrow> (ns, b\<lparr>br_context := Some cx\<rparr>))
      | None \<Rightarrow>
          (case br_vault b of
             None \<Rightarrow> ([], b)
           | Some v \<Rightarrow> (case vault_recycle k v of (ns, v) \<Rightarrow> (ns, b\<lparr>br_vault := Some v\<rparr>))))"

definition bridge_advance_turn :: "tool_bridge \<Rightarrow> int \<times> tool_bridge" where
  "bridge_advance_turn b =
     (case br_context b of
        Some cx \<Rightarrow> (let cx = advance_turn cx in (cx_current_turn cx, b\<lparr>br_context := Some cx\<rparr>))
      | None \<Rightarrow>
          (case br_vault b of
             None \<Rightarrow> (0, b)
           | Some v \<Rightarrow> (let v = vault_advance_turn v in (tv_current_turn v, b\<lparr>br_vault := Some v\<rparr>))))"

text \<open>\<open>attach_vault\<close>: the context is made once, with the defaults of \<open>AgentToolContext\<close>.\<close>

definition attach_vault :: "tool_vault \<Rightarrow> string list \<Rightarrow> tool_bridge \<Rightarrow> tool_bridge" where
  "attach_vault v essential_names b =
     (let b = b\<lparr>br_vault := Some v, br_cone := None\<rparr> in
      case br_context b of
        Some _ \<Rightarrow> b
      | None \<Rightarrow>
          (let restricted = (case br_allowed_tools b of None \<Rightarrow> [] | Some ns \<Rightarrow> ns);
               essential = List.union essential_names restricted;
               hot = (if restricted = [] then None else Some restricted)
           in b\<lparr>br_context := Some (init_tools (Some essential) hot (new_tool_context (br_agent_id b) v 20 3))\<rparr>))"

section \<open>Version lineages\<close>

definition lineage_of :: "string \<Rightarrow> tool_bridge \<Rightarrow> string" where
  "lineage_of n b =
     (case br_vault b of
        None \<Rightarrow> n
      | Some v \<Rightarrow> (case get_entry n v of Some e \<Rightarrow> if te_lineage_id e \<noteq> [] then te_lineage_id e else n | None \<Rightarrow> n))"

definition register_lineage :: "string \<Rightarrow> tool_bridge \<Rightarrow> tool_bridge" where
  "register_lineage n b =
     (let tool_id = (case br_vault b of
                       None \<Rightarrow> n
                     | Some v \<Rightarrow> (case get_entry n v of None \<Rightarrow> n | Some e \<Rightarrow> te_tool_name e @ ''@'' @ te_version e))
      in b\<lparr>br_active_lineages := dset (lineage_of n b) tool_id (br_active_lineages b)\<rparr>)"

definition reset_lineages :: "tool_bridge \<Rightarrow> tool_bridge" where
  "reset_lineages b = b\<lparr>br_active_lineages := []\<rparr>"

definition reject_search_result :: "string \<Rightarrow> tool_bridge \<Rightarrow> tool_bridge" where
  "reject_search_result n b = b\<lparr>br_rejected_tools := List.insert n (br_rejected_tools b)\<rparr>"

definition reset_rejected :: "tool_bridge \<Rightarrow> tool_bridge" where
  "reset_rejected b = b\<lparr>br_rejected_tools := []\<rparr>"

definition activate_tool :: "string \<Rightarrow> tool_bridge \<Rightarrow> bool \<times> tool_bridge" where
  "activate_tool n b =
     (let b = (if br_allowed_tools b \<noteq> None then add_allowed_tool n b else b);
          (promoted, b) = bridge_load_tool n b;
          b = use_tool n b
      in (promoted, register_lineage n (b\<lparr>br_rejected_tools := []\<rparr>)))"

text \<open>\<open>confirm_search_result\<close> is the activation with a log line.\<close>

definition confirm_search_result :: "string \<Rightarrow> tool_bridge \<Rightarrow> bool \<times> tool_bridge" where
  "confirm_search_result = activate_tool"

text \<open>\<open>inject_tool_context\<close>.\<close>

definition inject_one :: "string \<Rightarrow> nat \<times> tool_bridge \<Rightarrow> nat \<times> tool_bridge" where
  "inject_one n x =
     (case br_context (snd x) of
        None \<Rightarrow> (Suc (fst x), add_allowed_tool n (snd x))
      | Some cx \<Rightarrow>
          (case promote n cx of
             (ok, cx) \<Rightarrow> (let b = (snd x)\<lparr>br_context := Some cx\<rparr> in
                          if ok then (Suc (fst x), add_allowed_tool n b) else (fst x, b))))"

definition inject_tool_context :: "string list \<Rightarrow> tool_bridge \<Rightarrow> nat \<times> tool_bridge" where
  "inject_tool_context names b = fold inject_one names (0, b)"

section \<open>Loading a discovered tool\<close>

datatype reply_note = Hint | AllRejected nat | NothingFound

datatype search_reply =
  Candidates "(string \<times> rat \<times> string) list" reply_note
| Terminated nat
| Reused string
| PendingApproval string string audit_reason
| Loaded string bool
| Refused string

text \<open>The texts of the code are Chinese; these are their ASCII stand-ins.\<close>

definition reason_text :: "audit_reason \<Rightarrow> string" where
  "reason_text r =
     (case r of NoReason \<Rightarrow> []
      | MissingPermissions ps \<Rightarrow> ''misses permissions '' @ join_with '', '' ps
      | RiskAbove risk threshold \<Rightarrow> ''has risk '' @ risk @ '' above '' @ threshold)"

definition reply_json :: "search_reply \<Rightarrow> json" where
  "reply_json r =
     (case r of
        Candidates cs note \<Rightarrow>
          JObj [(''candidates'', JList (map (\<lambda>(n, score, summary).
                   JObj [(''name'', JStr n), (''score'', JNum score), (''summary'', JStr summary)]) cs)),
                (''total'', JNum (of_nat (length cs))),
                (case note of
                   Hint \<Rightarrow> (''hint'', JStr ''load or reject a candidate'')
                 | AllRejected k \<Rightarrow> (''message'', JStr (''all candidates rejected: '' @ show_nat k))
                 | NothingFound \<Rightarrow> (''message'', JStr ''no new tool found''))]
      | Terminated k \<Rightarrow>
          JObj [(''candidates'', JList []), (''total'', JNum 0), (''terminated'', JBool True),
                (''message'', JStr (show_nat k @ '' rejections, no such tool''))]
      | Reused tool_id \<Rightarrow> JObj [(''reused'', JStr tool_id), (''message'', JStr ''lineage already active'')]
      | PendingApproval n rid why \<Rightarrow>
          JObj [(''pending_approval'', JStr n), (''record_id'', JStr rid),
                (''message'', JStr (''tool '' @ n @ '' '' @ reason_text why))]
      | Loaded n promoted \<Rightarrow>
          JObj [(''loaded'', JStr n), (''promoted_hot'', JBool promoted), (''message'', JStr (''tool '' @ n @ '' loaded''))]
      | Refused _ \<Rightarrow> JNull)"

definition reply_result :: "bridge_env \<Rightarrow> search_reply \<Rightarrow> mcp_tool_result" where
  "reply_result env r = (case r of Refused m \<Rightarrow> mcp_failure m | _ \<Rightarrow> mcp_success (be_dumps env (reply_json r)))"

definition audit_candidate :: "string \<Rightarrow> tool_bridge \<Rightarrow> tool_search_result" where
  "audit_candidate n b =
     (case (case br_vault b of None \<Rightarrow> None | Some v \<Rightarrow> get_entry n v) of
        Some e \<Rightarrow>
          \<lparr>sr_tool_name = n, sr_definition = Some (te_definition e), sr_score = 1, sr_summary = te_summary e,
           sr_risk_level = te_risk_level e, sr_required_permissions = te_required_permissions e,
           sr_lineage_id = (if te_lineage_id e \<noteq> [] then te_lineage_id e else n)\<rparr>
      | None \<Rightarrow>
          \<lparr>sr_tool_name = n, sr_definition = None, sr_score = 1, sr_summary = [], sr_risk_level = ''low'',
           sr_required_permissions = [], sr_lineage_id = []\<rparr>)"

text \<open>A check of the gate (\<open>None\<close>: no gate), which may submit a request under a fresh identifier.\<close>

definition audit_check :: "bridge_env \<Rightarrow> tool_search_result \<Rightarrow> tool_bridge \<Rightarrow> audit_result option \<times> tool_bridge" where
  "audit_check env c b =
     (case br_audit_gate b of
        None \<Rightarrow> (None, b)
      | Some g \<Rightarrow>
          (case gate_check (fst (be_fresh env g)) (snd (be_fresh env g)) c (br_agent_id b) (br_allowed_tools b) g of
             (res, g) \<Rightarrow> (Some res, b\<lparr>br_audit_gate := Some g\<rparr>)))"

definition tool_exists :: "bridge_env \<Rightarrow> string \<Rightarrow> tool_bridge \<Rightarrow> mcp_server \<Rightarrow> bool" where
  "tool_exists env n b s \<longleftrightarrow>
     (case br_vault b of None \<Rightarrow> False | Some v \<Rightarrow> get_entry n v \<noteq> None) \<or>
     n \<in> mi_name ` set (fst (client_list_tools (be_call env) (be_rid env) s))"

definition load_discovered_tool :: "bridge_env \<Rightarrow> string \<Rightarrow> tool_bridge \<Rightarrow> mcp_server \<Rightarrow> search_reply \<times> tool_bridge" where
  "load_discovered_tool env n b s =
     (if \<not> tool_exists env n b s then (Refused (''tool '' @ n @ '' does not exist''), b)
      else
        (case dget (br_active_lineages b) (lineage_of n b) of
           Some active_id \<Rightarrow> (Reused active_id, b)
         | None \<Rightarrow>
             (let (audit, b) = audit_check env (audit_candidate n b) b in
              case map_option au_decision audit of
                Some audit_decision.BLOCK \<Rightarrow>
                  (Refused (''audit: tool '' @ n @ '' '' @ reason_text (au_reason (the audit))), reject_search_result n b)
              | Some MANUAL_REVIEW \<Rightarrow>
                  (PendingApproval n (au_record_id (the audit)) (au_reason (the audit)), b)
              | _ \<Rightarrow>
                  (let b = (if br_allowed_tools b \<noteq> None then add_allowed_tool n b else b);
                       (promoted, b) = activate_tool n b
                   in (Loaded n promoted, b\<lparr>br_reject_count := 0\<rparr>)))))"

section \<open>Searching\<close>

text \<open>\<open>str(arguments.get(key) or "").strip()\<close>, and \<open>int(arguments.get("top_k", 5))\<close> or 5 if it raises.\<close>

definition arg_text :: "bridge_env \<Rightarrow> string \<Rightarrow> (string, json) dict \<Rightarrow> string" where
  "arg_text env key args =
     strip (case dget args key of
              None \<Rightarrow> []
            | Some v \<Rightarrow> if falsy v then [] else (case v of JStr t \<Rightarrow> t | _ \<Rightarrow> be_str env v))"

definition arg_top_k :: "(string, json) dict \<Rightarrow> int" where
  "arg_top_k args =
     (case dget args ''top_k'' of
        None \<Rightarrow> 5
      | Some (JNum q) \<Rightarrow> (if q < 0 then - \<lfloor>- q\<rfloor> else \<lfloor>q\<rfloor>)
      | Some (JBool x) \<Rightarrow> (if x then 1 else 0)
      | Some (JStr t) \<Rightarrow> (case parse_int t of None \<Rightarrow> 5 | Some i \<Rightarrow> i)
      | Some _ \<Rightarrow> 5)"

definition bridge_query :: "string \<Rightarrow> string list \<Rightarrow> int \<Rightarrow> rat \<Rightarrow> tool_bridge \<Rightarrow> cone_query" where
  "bridge_query query exclude top_k min_score b =
     \<lparr>cq_query = query, cq_tags = [], cq_risk_ceiling = ''critical'',
      cq_granted_permissions = br_allowed_tools b, cq_exclude_names = exclude,
      cq_exclude_lineages = dkeys (br_active_lineages b), cq_top_k = top_k, cq_min_score = min_score\<rparr>"

definition cone_search :: "bridge_env \<Rightarrow> cone_query \<Rightarrow> tool_bridge \<Rightarrow> tool_search_result list" where
  "cone_search env q b = (case get_cone env b of None \<Rightarrow> [] | Some cn \<Rightarrow> cr_results (retrieve_detailed q cn))"

definition discover_tools :: "bridge_env \<Rightarrow> string \<Rightarrow> int \<Rightarrow> rat \<Rightarrow> string list \<Rightarrow> string \<Rightarrow> tool_bridge \<Rightarrow>
    (string \<times> rat \<times> string) list" where
  "discover_tools env query top_k min_score tags risk_ceiling b =
     map (\<lambda>r. (sr_tool_name r, sr_score r, sr_summary r))
       (cone_search env ((bridge_query query [] top_k min_score b)\<lparr>cq_tags := tags, cq_risk_ceiling := risk_ceiling\<rparr>) b)"

text \<open>The keyword fallback: a word counts when it is longer than two characters or has a wide one.\<close>

definition keyword_hit :: "bridge_env \<Rightarrow> string \<Rightarrow> mcp_tool_info \<Rightarrow> bool" where
  "keyword_hit env query t =
     list_ex (\<lambda>kw. (is_substring kw (lower (mi_description t)) \<or> is_substring kw (lower (mi_name t))) \<and>
                  (2 < length kw \<or> be_wide env kw)) (split_ws (lower query))"

definition keyword_candidates :: "bridge_env \<Rightarrow> string \<Rightarrow> string list \<Rightarrow> tool_bridge \<Rightarrow> mcp_server \<Rightarrow>
    (string \<times> rat \<times> string) list" where
  "keyword_candidates env query exclude b s =
     (if br_vault b = None \<and> br_allowed_tools b = None then []
      else map (\<lambda>t. (mi_name t, 1 / 2, take 100 (mi_description t)))
             (filter (\<lambda>t. mi_name t \<notin> set exclude \<and> keyword_hit env query t)
                (fst (client_list_tools (be_call env) (be_rid env) s))))"

definition search_exclude :: "tool_bridge \<Rightarrow> string list" where
  "search_exclude b = List.union (visible_tool_names b) (br_rejected_tools b)"

text \<open>The candidates of a search, by the cone and, when it finds none, by keywords.\<close>

definition search_candidates :: "bridge_env \<Rightarrow> string \<Rightarrow> int \<Rightarrow> tool_bridge \<Rightarrow> mcp_server \<Rightarrow> (string \<times> rat \<times> string) list" where
  "search_candidates env query top_k b s =
     (let exclude = search_exclude b;
          found = map (\<lambda>r. (sr_tool_name r, be_round env (sr_score r), sr_summary r))
                    (cone_search env (bridge_query query exclude top_k (1 / 5) b) b)
      in slice_to top_k (if found = [] then keyword_candidates env query exclude b s else found))"

definition no_query_text :: string where "no_query_text = ''argument error: one of query, load and reject is needed''"

definition no_search_text :: string where "no_search_text = ''argument error: reject needs a search first''"

text \<open>The search mode of \<open>_search_new_tools_impl\<close>.\<close>

definition search_mode :: "bridge_env \<Rightarrow> bool \<Rightarrow> (string, json) dict \<Rightarrow> tool_bridge \<Rightarrow> mcp_server \<Rightarrow> search_reply \<times> tool_bridge" where
  "search_mode env is_research args b s =
     (let query = arg_text env ''query'' args in
      if query = [] then (Refused no_query_text, b)
      else (let b = (if is_research then b else b\<lparr>br_reject_count := 0\<rparr>);
                b = b\<lparr>br_last_search_query := query\<rparr>;
                candidates = search_candidates env query (arg_top_k args) b s
            in (Candidates candidates
                  (if candidates \<noteq> [] then Hint
                   else if br_rejected_tools b \<noteq> [] then AllRejected (length (br_rejected_tools b))
                   else NothingFound), b)))"

definition count_call :: "tool_bridge \<Rightarrow> tool_bridge" where
  "count_call b = b\<lparr>br_call_count := br_call_count b + 1\<rparr>"

definition rejected_names :: "string \<Rightarrow> string list" where
  "rejected_names raw = filter (\<lambda>n. n \<noteq> []) (map strip (split_on (CHR 0x2C) raw))"

definition reject_and_research :: "bridge_env \<Rightarrow> string \<Rightarrow> (string, json) dict \<Rightarrow> tool_bridge \<Rightarrow> mcp_server \<Rightarrow>
    search_reply \<times> tool_bridge" where
  "reject_and_research env raw args b s =
     (let b = fold reject_search_result (rejected_names raw) b;
          b = b\<lparr>br_reject_count := br_reject_count b + 1\<rparr>
      in if 3 \<le> br_reject_count b then (Terminated (br_reject_count b), b)
         else (let q = arg_text env ''query'' args; query = (if q \<noteq> [] then q else br_last_search_query b)
               in if query = [] then (Refused no_search_text, b)
                  else search_mode env True [(''query'', JStr query)] (count_call b) s))"

definition search_new_tools :: "bridge_env \<Rightarrow> (string, json) dict \<Rightarrow> tool_bridge \<Rightarrow> mcp_server \<Rightarrow> search_reply \<times> tool_bridge" where
  "search_new_tools env args b s =
     (let b = count_call b; load = arg_text env ''load'' args; reject = arg_text env ''reject'' args
      in if load \<noteq> [] then load_discovered_tool env load b s
         else if reject \<noteq> [] then reject_and_research env reject args b s
         else search_mode env False args b s)"

section \<open>Calls\<close>

definition denied_text :: "string \<Rightarrow> string \<Rightarrow> string" where
  "denied_text agent_id n = ''permission denied: agent '' @ agent_id @ '' may not call '' @ n"

definition bridge_call_tool :: "bridge_env \<Rightarrow> string \<Rightarrow> (string, json) dict \<Rightarrow> tool_bridge \<times> mcp_server \<Rightarrow>
    mcp_tool_result \<times> tool_bridge \<times> mcp_server" where
  "bridge_call_tool env n args x =
     (let (b, s) = x in
      if n = search_new_tools_name \<and> br_search_meta_tool b
      then (case search_new_tools env args b s of (r, b) \<Rightarrow> (reply_result env r, b, s))
      else if \<not> check_permission n b then (mcp_failure (denied_text (br_agent_id b) n), b, s)
      else (case client_call_tool (be_call env) (be_rid env) n (JObj args) s of
              (r, s) \<Rightarrow> (r, use_tool n (count_call b), s)))"

section \<open>Search and confirm\<close>

fun confirm_candidates :: "bridge_env \<Rightarrow> confirmer \<Rightarrow> string \<Rightarrow> bool \<Rightarrow> tool_search_result list \<Rightarrow> tool_bridge \<Rightarrow>
    tool_search_result option \<times> tool_bridge" where
  "confirm_candidates env f query activate [] b = (None, b)"
| "confirm_candidates env f query activate (c # cs) b =
     (if cd_confirmed (call_confirmer f c query) then
        (let (audit, b) = audit_check env c b in
         case map_option au_decision audit of
           Some audit_decision.BLOCK \<Rightarrow> confirm_candidates env f query activate cs (reject_search_result (sr_tool_name c) b)
         | Some MANUAL_REVIEW \<Rightarrow> (Some c, reset_rejected b)
         | _ \<Rightarrow> (Some c, if activate then snd (confirm_search_result (sr_tool_name c) b) else reset_rejected b))
      else confirm_candidates env f query activate cs (reject_search_result (sr_tool_name c) b))"

fun confirm_rounds :: "nat \<Rightarrow> bridge_env \<Rightarrow> confirmer \<Rightarrow> string \<Rightarrow> bool \<Rightarrow> int \<Rightarrow> rat \<Rightarrow> tool_bridge \<Rightarrow>
    tool_search_result option \<times> tool_bridge" where
  "confirm_rounds 0 env f query activate top_k min_score b = (None, b)"
| "confirm_rounds (Suc k) env f query activate top_k min_score b =
     (let results = cone_search env (bridge_query query (search_exclude b) top_k min_score b) b in
      if results = [] then (None, b)
      else (case confirm_candidates env f query activate results b of
              (Some c, b) \<Rightarrow> (Some c, b)
            | (None, b) \<Rightarrow> confirm_rounds k env f query activate top_k min_score b))"

definition search_and_confirm :: "bridge_env \<Rightarrow> string \<Rightarrow> confirmer option \<Rightarrow> int \<Rightarrow> int \<Rightarrow> rat \<Rightarrow> bool \<Rightarrow> tool_bridge \<Rightarrow>
    tool_search_result option \<times> tool_bridge" where
  "search_and_confirm env query f max_retries top_k min_score activate b =
     (if br_vault b = None then (None, b)
      else (let f = (case f of Some f \<Rightarrow> f | None \<Rightarrow> (case br_confirmer b of Some f \<Rightarrow> f | None \<Rightarrow> auto_confirm))
            in confirm_rounds (nat (max 1 max_retries)) env f query activate top_k min_score b))"

end
