(* ===== verification/BridgeProps.thy ===== *)
theory BridgeProps
  imports Bridge
begin

text \<open>
  Properties of the tool bridge: what the audit gate lets through over every sequence of an agent's
  operations, what a search offers, how rejecting ends, and what search-and-confirm returns.
\<close>

section \<open>What the gate lets through\<close>

definition risk_of :: "tool_vault \<Rightarrow> string \<Rightarrow> (string \<times> string list) option" where
  "risk_of v n = map_option (\<lambda>e. (te_risk_level e, te_required_permissions e)) (get_entry n v)"

definition same_risks :: "tool_vault \<Rightarrow> tool_vault \<Rightarrow> bool" where
  "same_risks v v' \<longleftrightarrow> risk_of v' = risk_of v \<and> (wf_dict (tv_entries v) \<longrightarrow> wf_dict (tv_entries v'))"

text \<open>What the frame of an operation keeps: permissions, threshold, and the risks in the vault.\<close>

definition bridge_frame :: "tool_bridge \<Rightarrow> tool_bridge \<Rightarrow> bool" where
  "bridge_frame b b' \<longleftrightarrow> br_cone b' = br_cone b \<and> br_allowed_tools b' = br_allowed_tools b \<and>
     map_option ga_risk_threshold (br_audit_gate b') = map_option ga_risk_threshold (br_audit_gate b) \<and>
     rel_option same_risks (br_vault b) (br_vault b')"

lemma same_risks_refl [simp]: "same_risks v v"
  by (simp add: same_risks_def)

lemma same_risks_trans: "same_risks u v \<Longrightarrow> same_risks v w \<Longrightarrow> same_risks u w"
  by (simp add: same_risks_def)

lemma same_risks_put:
  "get_entry n v = Some e \<Longrightarrow> te_risk_level e' = te_risk_level e \<Longrightarrow>
   te_required_permissions e' = te_required_permissions e \<Longrightarrow> same_risks v (put_entry n e' v)"
  by (auto simp: same_risks_def risk_of_def fun_eq_iff) (simp add: put_entry_def)

lemma same_risks_tiers [simp]:
  "same_risks v (snd (load_tool n v))" "same_risks v (record_usage n t v)"
  "same_risks v (snd (vault_recycle k v))" "same_risks v (vault_advance_turn v)"
proof -
  show "same_risks v (snd (load_tool n v))"
    by (auto simp: load_tool_def Let_def intro: same_risks_put split: option.split)
  show "same_risks v (record_usage n t v)"
    by (auto simp: record_usage_def intro: same_risks_put split: option.split)
  have "risk_of (snd (vault_recycle k v)) n = risk_of v n" for n
    by (cases "get_entry n v") (auto simp: risk_of_def recycle_entry)
  then show "same_risks v (snd (vault_recycle k v))"
    by (auto simp: same_risks_def fun_eq_iff vault_recycle_def Let_def wf_dict_def)
  show "same_risks v (vault_advance_turn v)"
    by (simp add: same_risks_def fun_eq_iff risk_of_def advance_entry) (simp add: vault_advance_turn_def)
qed

lemma rel_option_same_risks [simp]: "rel_option same_risks v v"
  by (cases v) simp_all

lemma frame_refl [simp]: "bridge_frame b b"
  by (simp add: bridge_frame_def)

lemma frame_trans [trans]:
  assumes "bridge_frame a b" and "bridge_frame b c"
  shows "bridge_frame a c"
  using assms
  by (cases "br_vault a"; cases "br_vault b"; cases "br_vault c")
    (auto simp: bridge_frame_def intro: same_risks_trans)

lemma frame_tiers [simp]:
  "bridge_frame b (snd (bridge_load_tool n b))" "bridge_frame b (use_tool n b)"
  "bridge_frame b (snd (recycle_tools k b))" "bridge_frame b (snd (bridge_advance_turn b))"
proof -
  show "bridge_frame b (snd (bridge_load_tool n b))"
    using same_risks_tiers(1) [of _ n]
    by (auto simp: bridge_frame_def bridge_load_tool_def case_prod_unfold split: option.split)
  show "bridge_frame b (use_tool n b)"
    by (auto simp: bridge_frame_def use_tool_def split: option.split)
  show "bridge_frame b (snd (recycle_tools k b))"
    using same_risks_tiers(3) [of _ k]
    by (auto simp: bridge_frame_def recycle_tools_def case_prod_unfold split: option.split)
  show "bridge_frame b (snd (bridge_advance_turn b))"
    by (auto simp: bridge_frame_def bridge_advance_turn_def Let_def split: option.split)
qed

lemma frame_fields [simp]:
  "bridge_frame b (count_call b)" "bridge_frame b (reject_search_result n b)" "bridge_frame b (reset_rejected b)"
  "bridge_frame b (reset_lineages b)" "bridge_frame b (register_lineage n b)"
  "bridge_frame b (b\<lparr>br_reject_count := k\<rparr>)" "bridge_frame b (b\<lparr>br_last_search_query := q\<rparr>)"
  "bridge_frame b (b\<lparr>br_rejected_tools := ns\<rparr>)"
  by (simp_all add: bridge_frame_def count_call_def reject_search_result_def reset_rejected_def reset_lineages_def
      register_lineage_def Let_def)

lemma frame_rejects [simp]: "bridge_frame b (fold reject_search_result ns b)"
  by (induction ns arbitrary: b) (auto intro: frame_trans [OF frame_fields(2)])

lemma gate_threshold: "ga_risk_threshold (snd (gate_check rid now c agent granted g)) = ga_risk_threshold g"
  by (auto simp: gate_check_def Let_def observers case_prod_unfold split: option.split)

lemma frame_audit [simp]: "bridge_frame b (snd (audit_check env c b))"
  by (auto simp: bridge_frame_def audit_check_def gate_threshold case_prod_unfold split: option.split)

lemma gate_pass:
  assumes "au_decision (fst (gate_check rid now c agent granted g)) = audit_decision.PASS"
  shows "risk_rank (sr_risk_level c) \<le> risk_rank (ga_risk_threshold g) \<and>
    (\<forall>gs. granted = Some gs \<longrightarrow> set (sr_required_permissions c) \<subseteq> set gs)"
  using assms
  by (auto simp: gate_check_def Let_def case_prod_unfold missing_permissions_Nil split: option.splits if_splits)

lemma frame_search_mode [simp]: "bridge_frame b (snd (search_mode env research args b s))"
proof -
  have "bridge_frame b ((if research then b else b\<lparr>br_reject_count := 0\<rparr>)\<lparr>br_last_search_query := q\<rparr>)" for q
    by (rule frame_trans [OF _ frame_fields(7)]) simp
  then show ?thesis by (simp add: search_mode_def Let_def)
qed

lemma frame_reject_and_research [simp]: "bridge_frame b (snd (reject_and_research env raw args b s))"
proof -
  let ?b = "(fold reject_search_result (rejected_names raw) b)\<lparr>br_reject_count :=
      br_reject_count (fold reject_search_result (rejected_names raw) b) + 1\<rparr>"
  have "bridge_frame b ?b" by (rule frame_trans [OF frame_rejects frame_fields(6)])
  moreover have "bridge_frame ?b (snd (search_mode env True args' (count_call ?b) s))" for args'
    by (rule frame_trans [OF frame_fields(1) frame_search_mode])
  ultimately show ?thesis
    by (auto simp: reject_and_research_def Let_def intro: frame_trans)
qed

text \<open>
  A tool is cleared for a set of permissions when its risk is not above the threshold and the
  permissions it needs are granted; a tool without an entry in the vault has no risk on record.
\<close>

definition cleared :: "tool_vault \<Rightarrow> string \<Rightarrow> string set \<Rightarrow> string \<Rightarrow> bool" where
  "cleared v threshold granted n \<longleftrightarrow>
     (case get_entry n v of
        None \<Rightarrow> True
      | Some e \<Rightarrow> risk_rank (te_risk_level e) \<le> risk_rank threshold \<and> set (te_required_permissions e) \<subseteq> granted)"

definition audited :: "tool_vault \<Rightarrow> string \<Rightarrow> string list \<Rightarrow> tool_bridge \<Rightarrow> bool" where
  "audited v0 threshold initial b \<longleftrightarrow>
     br_cone b = None \<and> map_option ga_risk_threshold (br_audit_gate b) = Some threshold \<and>
     (\<exists>v. br_vault b = Some v \<and> wf_dict (tv_entries v) \<and> risk_of v = risk_of v0) \<and>
     (\<exists>ns. br_allowed_tools b = Some ns \<and> set initial \<subseteq> set ns \<and>
        (\<forall>n \<in> set ns. n \<in> set initial \<or> cleared v0 threshold (set ns) n))"

lemma cleared_risk: "cleared v t granted n \<longleftrightarrow>
    (case risk_of v n of None \<Rightarrow> True | Some (r, ps) \<Rightarrow> risk_rank r \<le> risk_rank t \<and> set ps \<subseteq> granted)"
  by (simp add: cleared_def risk_of_def split: option.split)

lemma cleared_mono: "cleared v t A n \<Longrightarrow> A \<subseteq> B \<Longrightarrow> cleared v t B n"
  by (auto simp: cleared_def split: option.splits)

lemma audited_frame: "audited v0 t ns b \<Longrightarrow> bridge_frame b b' \<Longrightarrow> audited v0 t ns b'"
  by (auto simp: audited_def bridge_frame_def same_risks_def option_rel_Some1)

lemma audited_add:
  assumes "audited v0 t ns b" and "\<And>al. br_allowed_tools b = Some al \<Longrightarrow> cleared v0 t (set al) n"
  shows "audited v0 t ns (add_allowed_tool n b)"
proof -
  from assms(1) obtain al where al: "br_allowed_tools b = Some al" "set ns \<subseteq> set al"
    "\<forall>n \<in> set al. n \<in> set ns \<or> cleared v0 t (set al) n" by (auto simp: audited_def)
  have "m \<in> set ns \<or> cleared v0 t (insert n (set al)) m" if "m \<in> insert n (set al)" for m
    using that assms(2) [OF al(1)] al(3) by (auto intro: cleared_mono)
  with assms(1) al show ?thesis by (auto simp: audited_def add_allowed_tool_def)
qed

lemma activate_frame:
  assumes "br_allowed_tools b \<noteq> None"
  shows "bridge_frame (add_allowed_tool n b) (snd (activate_tool n b))"
proof -
  let ?b = "add_allowed_tool n b"
  have "bridge_frame ?b (snd (bridge_load_tool n ?b))" by simp
  also have "bridge_frame \<dots> (use_tool n (snd (bridge_load_tool n ?b)))" by simp
  also have "bridge_frame \<dots> ((use_tool n (snd (bridge_load_tool n ?b)))\<lparr>br_rejected_tools := []\<rparr>)" by simp
  also have "bridge_frame \<dots> (register_lineage n ((use_tool n (snd (bridge_load_tool n ?b)))\<lparr>br_rejected_tools := []\<rparr>))"
    by simp
  finally show ?thesis using assms by (simp add: activate_tool_def Let_def case_prod_unfold)
qed

lemma audited_activate:
  assumes "audited v0 t ns b" and "\<And>al. br_allowed_tools b = Some al \<Longrightarrow> cleared v0 t (set al) n"
  shows "audited v0 t ns (snd (activate_tool n b))"
proof -
  have "br_allowed_tools b \<noteq> None" using assms(1) by (auto simp: audited_def)
  from audited_frame [OF audited_add [OF assms] activate_frame [OF this]] show ?thesis .
qed

text \<open>A candidate that carries the risk of its tool on record, and what a passed check says of it.\<close>

definition candidate_of :: "tool_vault \<Rightarrow> tool_search_result \<Rightarrow> bool" where
  "candidate_of v0 c \<longleftrightarrow>
     risk_of v0 (sr_tool_name c) \<in> {None, Some (sr_risk_level c, sr_required_permissions c)}"

lemma audit_check_pass:
  assumes "audited v0 t ns b" and "candidate_of v0 c"
  shows "\<exists>res. fst (audit_check env c b) = Some res \<and>
    (au_decision res = audit_decision.PASS \<longrightarrow>
      (\<forall>al. br_allowed_tools (snd (audit_check env c b)) = Some al \<longrightarrow> cleared v0 t (set al) (sr_tool_name c)))"
proof -
  from assms(1) obtain g where g: "br_audit_gate b = Some g" "ga_risk_threshold g = t"
    by (auto simp: audited_def)
  let ?r = "gate_check (fst (be_fresh env g)) (snd (be_fresh env g)) c (br_agent_id b) (br_allowed_tools b) g"
  have e: "audit_check env c b = (Some (fst ?r), b\<lparr>br_audit_gate := Some (snd ?r)\<rparr>)"
    using g(1) by (simp add: audit_check_def case_prod_unfold)
  have "cleared v0 t (set al) (sr_tool_name c)"
    if "au_decision (fst ?r) = audit_decision.PASS" "br_allowed_tools b = Some al" for al
    using gate_pass [OF that(1)] that(2) assms(2) g(2) by (auto simp: cleared_risk candidate_of_def)
  with e show ?thesis by auto
qed

lemma audit_candidate_of:
  assumes "audited v0 t ns b"
  shows "candidate_of v0 (audit_candidate n b)"
proof -
  from assms obtain v where v: "br_vault b = Some v" "risk_of v0 = risk_of v" by (auto simp: audited_def)
  show ?thesis
    unfolding candidate_of_def v(2) by (cases "get_entry n v") (simp_all add: audit_candidate_def v(1) risk_of_def)
qed

lemma audit_candidate_name [simp]: "sr_tool_name (audit_candidate n b) = n"
  by (simp add: audit_candidate_def split: option.split)

lemma load_audited:
  assumes "audited v0 t ns b"
  shows "audited v0 t ns (snd (load_discovered_tool env n b s))"
proof -
  let ?a = "audit_check env (audit_candidate n b) b"
  from audit_check_pass [OF assms audit_candidate_of [OF assms], of env n] obtain res where
    r: "fst ?a = Some res" and ok: "au_decision res = audit_decision.PASS \<Longrightarrow>
      br_allowed_tools (snd ?a) = Some al \<Longrightarrow> cleared v0 t (set al) n" for al by auto
  have i: "audited v0 t ns (snd ?a)" by (rule audited_frame [OF assms frame_audit])
  have act: "audited v0 t ns ((snd (activate_tool n (add_allowed_tool n (snd ?a))))\<lparr>br_reject_count := 0\<rparr>)"
    if "au_decision res = audit_decision.PASS"
  proof -
    have "audited v0 t ns (add_allowed_tool n (snd ?a))" by (rule audited_add [OF i ok [OF that]])
    moreover have "cleared v0 t (set al) n" if "br_allowed_tools (add_allowed_tool n (snd ?a)) = Some al" for al
    proof -
      from i obtain al' where al': "br_allowed_tools (snd ?a) = Some al'" by (auto simp: audited_def)
      with that have "set al' \<subseteq> set al" by (auto simp: add_allowed_tool_def)
      with ok [OF \<open>au_decision res = audit_decision.PASS\<close> al'] show ?thesis by (rule cleared_mono)
    qed
    ultimately show ?thesis by (intro audited_frame [OF audited_activate frame_fields(6)])
  qed
  have al: "br_allowed_tools (snd ?a) \<noteq> None" using i by (auto simp: audited_def)
  show ?thesis
  proof (cases "tool_exists env n b s \<and> dget (br_active_lineages b) (lineage_of n b) = None")
    case False
    with assms show ?thesis by (auto simp: load_discovered_tool_def split: option.split)
  next
    case True
    note T = this
    show ?thesis
    proof (cases "au_decision res")
      case PASS
      with T r al act show ?thesis
        by (simp add: load_discovered_tool_def Let_def case_prod_unfold)
    next
      case BLOCK
      with T r al audited_frame [OF i frame_fields(2)] show ?thesis
        by (simp add: load_discovered_tool_def Let_def case_prod_unfold)
    next
      case MANUAL_REVIEW
      with T r al i show ?thesis
        by (simp add: load_discovered_tool_def Let_def case_prod_unfold)
    qed
  qed
qed

text \<open>The environments without a persistent store: the search runs on the vault alone.\<close>

definition vault_only :: "bridge_env \<Rightarrow> bool" where
  "vault_only env \<longleftrightarrow> be_store_cone env = None \<and> vb_store_search (be_backends env) = None"

lemma cone_search_from:
  assumes "vault_only env" and "br_cone b = None" and "br_vault b = Some v" and "0 \<le> cq_top_k q"
    and "c \<in> set (cone_search env q b)"
  shows "within_bounds q c \<and> permissions_satisfied (sr_required_permissions c) (cq_granted_permissions q) \<and>
    from_entry v (cq_exclude_names q) c \<and> int (length (cone_search env q b)) \<le> cq_top_k q"
proof -
  let ?cn = "\<lparr>cn_store = None, cn_vault = Some (be_backends env, v)\<rparr>"
  have e: "cone_search env q b = cr_results (retrieve_detailed q ?cn)"
    using assms(1-3) by (simp add: cone_search_def get_cone_def vault_only_def)
  from cone_result [OF assms(4), of c ?cn] assms(1,5) show ?thesis by (simp add: e vault_only_def)
qed

lemma cone_search_candidates:
  assumes "audited v0 t ns b" and "vault_only env" and "0 \<le> cq_top_k q" and "c \<in> set (cone_search env q b)"
  shows "candidate_of v0 c"
proof -
  from assms(1) obtain v where v: "br_vault b = Some v" "wf_dict (tv_entries v)" "risk_of v0 = risk_of v" "br_cone b = None"
    by (auto simp: audited_def)
  from cone_search_from [OF assms(2) v(4,1) assms(3,4)] obtain e where
    "get_entry (sr_tool_name c) v = Some e" "te_risk_level e = sr_risk_level c"
    "te_required_permissions e = sr_required_permissions c"
    by (auto simp: from_entry_def get_entry_def dget_mem [OF v(2)])
  then show ?thesis unfolding candidate_of_def v(3) by (simp add: risk_of_def)
qed

lemma confirm_candidates_audited:
  assumes "audited v0 t ns b" and "\<forall>c \<in> set cs. candidate_of v0 c"
  shows "audited v0 t ns (snd (confirm_candidates env f query activate cs b))"
  using assms
proof (induction cs arbitrary: b)
  case (Cons c cs)
  let ?a = "audit_check env c b"
  have rej: "audited v0 t ns (snd (confirm_candidates env f query activate cs (reject_search_result (sr_tool_name c) b')))"
    if "audited v0 t ns b'" for b'
    using Cons.IH [OF audited_frame [OF that frame_fields(2)]] Cons.prems(2) by simp
  have "candidate_of v0 c" using Cons.prems(2) by simp
  from audit_check_pass [OF Cons.prems(1) this, of env] obtain res where
    r: "fst ?a = Some res" and ok: "au_decision res = audit_decision.PASS \<Longrightarrow>
      br_allowed_tools (snd ?a) = Some al \<Longrightarrow> cleared v0 t (set al) (sr_tool_name c)" for al by blast
  have i: "audited v0 t ns (snd ?a)" by (rule audited_frame [OF Cons.prems(1) frame_audit])
  show ?case
  proof (cases "cd_confirmed (call_confirmer f c query)")
    case False
    with rej [OF Cons.prems(1)] show ?thesis by simp
  next
    case C: True
    show ?thesis
    proof (cases "au_decision res")
      case PASS
      with audited_activate [OF i ok] have "audited v0 t ns (snd (activate_tool (sr_tool_name c) (snd ?a)))" by blast
      with C PASS r audited_frame [OF i frame_fields(3)] show ?thesis
        by (simp add: Let_def case_prod_unfold confirm_search_result_def)
    next
      case BLOCK
      with C r rej [OF i] show ?thesis by (simp add: Let_def case_prod_unfold)
    next
      case MANUAL_REVIEW
      with C r audited_frame [OF i frame_fields(3)] show ?thesis by (simp add: Let_def case_prod_unfold)
    qed
  qed
qed simp

lemma confirm_rounds_audited:
  assumes "audited v0 t ns b" and "vault_only env" and "0 \<le> top_k"
  shows "audited v0 t ns (snd (confirm_rounds k env f query activate top_k min_score b))"
  using assms(1)
proof (induction k arbitrary: b)
  case (Suc k)
  let ?q = "bridge_query query (search_exclude b) top_k min_score b"
  let ?c = "confirm_candidates env f query activate (cone_search env ?q b) b"
  have "audited v0 t ns (snd ?c)"
    using confirm_candidates_audited [OF Suc.prems] cone_search_candidates [OF Suc.prems assms(2), of ?q] assms(3)
    by (simp add: bridge_query_def)
  with Suc show ?case by (auto simp: Let_def case_prod_unfold split: option.split)
qed simp

section \<open>The bridge as a transition system\<close>

text \<open>What an agent does with its bridge and the server; granting tools is up to its owner.\<close>

datatype bridge_op =
  CallTool bridge_env string "(string, json) dict"
| SearchConfirm bridge_env string "confirmer option" int int rat bool
| RecycleTools int
| AdvanceTurn
| ResetLineages
| ResetRejected

fun bridge_step :: "bridge_op \<Rightarrow> tool_bridge \<times> mcp_server \<Rightarrow> tool_bridge \<times> mcp_server" where
  "bridge_step (CallTool env n args) x = snd (bridge_call_tool env n args x)"
| "bridge_step (SearchConfirm env query f k top_k ms act) x =
     (snd (search_and_confirm env query f k top_k ms act (fst x)), snd x)"
| "bridge_step (RecycleTools k) x = (snd (recycle_tools k (fst x)), snd x)"
| "bridge_step AdvanceTurn x = (snd (bridge_advance_turn (fst x)), snd x)"
| "bridge_step ResetLineages x = (reset_lineages (fst x), snd x)"
| "bridge_step ResetRejected x = (reset_rejected (fst x), snd x)"

definition bridge_op_ok :: "bridge_op \<Rightarrow> bool" where
  "bridge_op_ok x \<longleftrightarrow>
     (case x of
        SearchConfirm env query f k top_k ms act \<Rightarrow> vault_only env \<and> 0 \<le> top_k
      | _ \<Rightarrow> True)"

lemma search_new_tools_audited:
  assumes "audited v0 t ns b"
  shows "audited v0 t ns (snd (search_new_tools env args b s))"
proof -
  have c: "audited v0 t ns (count_call b)" by (rule audited_frame [OF assms frame_fields(1)])
  from load_audited [OF c] audited_frame [OF c frame_search_mode] audited_frame [OF c frame_reject_and_research]
  show ?thesis by (simp add: search_new_tools_def Let_def)
qed

lemma call_tool_audited:
  assumes "audited v0 t ns b"
  shows "audited v0 t ns (fst (snd (bridge_call_tool env n args (b, s))))"
proof -
  have "bridge_frame b (use_tool n (count_call b))" by (rule frame_trans [OF frame_fields(1) frame_tiers(2)])
  with assms search_new_tools_audited [OF assms, of env args s] show ?thesis
    by (auto simp: bridge_call_tool_def Let_def case_prod_unfold intro: audited_frame)
qed

lemma bridge_step_audited:
  assumes "audited v0 t ns (fst x)" and "bridge_op_ok y"
  shows "audited v0 t ns (fst (bridge_step y x))"
proof (cases y)
  case (CallTool env n args)
  with call_tool_audited [OF assms(1), of env n args "snd x"] show ?thesis by simp
next
  case (SearchConfirm env query f k top_k ms act)
  with assms confirm_rounds_audited [OF assms(1)] show ?thesis
    by (simp add: search_and_confirm_def bridge_op_ok_def)
qed (use assms in \<open>auto intro: audited_frame\<close>)

interpretation brg: invariant_system "\<lambda>x. audited v0 t ns (fst x)" bridge_step bridge_op_ok
  "\<lambda>x. audited v0 t ns (fst x)" for v0 t ns
  by unfold_locales (auto simp: bridge_step_audited)

section \<open>Properties\<close>


definition demo_env :: bridge_env where
  "demo_env = \<lparr>be_call = (\<lambda>h a. Inr h), be_rid = ''r'', be_backends = no_backends, be_store_cone = None,
     be_str = (\<lambda>_. []), be_wide = (\<lambda>_. False), be_round = (\<lambda>q. q), be_dumps = (\<lambda>_. []), be_fresh = (\<lambda>_. (''a1'', ''t''))\<rparr>"

text \<open>A vault with a harmless and a dangerous tool, and an agent that may call the first only.\<close>

definition two_tools :: tool_vault where
  "two_tools = fold (\<lambda>(n, risk). put_entry n ((new_tool_entry n (demo_definition n n risk))\<lparr>te_risk_level := risk\<rparr>))
     [(''calc'', ''low''), (''wipe'', ''critical''), (''mail'', ''low'')] new_vault"

definition demo_bridge :: tool_bridge where
  "demo_bridge = set_audit_gate (Some \<lparr>ga_approval_manager = None, ga_risk_threshold = ''medium'', ga_events = None\<rparr>)
     (attach_vault two_tools [] (new_bridge ''ag'' (Some [''calc'']) True))"

definition load_args :: "string \<Rightarrow> (string, json) dict" where
  "load_args n = [(''load'', JStr n)]"

definition demo_ops :: "bridge_op list" where
  "demo_ops = [CallTool demo_env ''search_new_tools'' (load_args ''wipe''),
     CallTool demo_env ''search_new_tools'' (load_args ''mail''), AdvanceTurn, RecycleTools 1]"


lemma search_candidates_excluded:
  assumes "vault_only env" and "br_cone b = None" and "0 \<le> top_k"
    and "(n, score, summary) \<in> set (search_candidates env query top_k b s)"
  shows "n \<notin> set (visible_tool_names b) \<and> n \<notin> set (br_rejected_tools b)"
proof -
  let ?q = "bridge_query query (search_exclude b) top_k (1 / 5) b"
  have mem: "(n, score, summary) \<in> set (map (\<lambda>r. (sr_tool_name r, be_round env (sr_score r), sr_summary r)) (cone_search env ?q b))
      \<or> (n, score, summary) \<in> set (keyword_candidates env query (search_exclude b) b s)"
    using assms(4) set_slice_to by (fastforce simp: search_candidates_def Let_def split: if_splits)
  have "n \<notin> set (search_exclude b)"
  proof (cases "(n, score, summary) \<in> set (keyword_candidates env query (search_exclude b) b s)")
    case True
    then show ?thesis by (auto simp: keyword_candidates_def split: if_splits)
  next
    case False
    with mem obtain r where r: "r \<in> set (cone_search env ?q b)" "sr_tool_name r = n" by auto
    then obtain v where v: "br_vault b = Some v"
      using assms(2) by (cases "br_vault b") (auto simp: cone_search_def get_cone_def)
    have "0 \<le> cq_top_k ?q" using assms(3) by (simp add: bridge_query_def)
    from cone_search_from [OF assms(1,2) v this r(1)] r(2) show ?thesis
      by (auto simp: from_entry_def bridge_query_def)
  qed
  then show ?thesis by (simp add: search_exclude_def)
qed

lemma length_search_candidates:
  assumes "0 \<le> k"
  shows "int (length (search_candidates env query k b s)) \<le> k"
proof -
  have "int (length (slice_to k xs)) \<le> k" for xs :: "(string \<times> rat \<times> string) list"
    using length_slice_to [OF assms, of xs] assms by linarith
  then show ?thesis unfolding search_candidates_def Let_def .
qed

lemma visible_cong:
  "br_allowed_tools b' = br_allowed_tools b \<Longrightarrow> br_context b' = br_context b \<Longrightarrow> br_vault b' = br_vault b \<Longrightarrow>
   visible_tool_names b' = visible_tool_names b"
  by (simp add: visible_tool_names_def cong: option.case_cong)

lemma search_mode_reply:
  assumes "vault_only env" and "br_cone b = None" and "0 \<le> arg_top_k args"
    and "search_mode env research args b s = (Candidates cs note, b')"
  shows "(\<forall>(n, score, summary) \<in> set cs. n \<notin> set (visible_tool_names b) \<and> n \<notin> set (br_rejected_tools b')) \<and>
    int (length cs) \<le> arg_top_k args \<and> (note = Hint \<longleftrightarrow> cs \<noteq> []) \<and> br_rejected_tools b' = br_rejected_tools b"
proof -
  let ?b = "(if research then b else b\<lparr>br_reject_count := 0\<rparr>)\<lparr>br_last_search_query := arg_text env ''query'' args\<rparr>"
  from assms(4) have cs: "cs = search_candidates env (arg_text env ''query'' args) (arg_top_k args) ?b s"
    and b': "b' = ?b" and nt: "note = (if cs \<noteq> [] then Hint
                   else if br_rejected_tools ?b \<noteq> [] then AllRejected (length (br_rejected_tools ?b)) else NothingFound)"
    by (auto simp: search_mode_def Let_def split: if_splits)
  have f: "br_cone ?b = None" "visible_tool_names ?b = visible_tool_names b" "br_rejected_tools ?b = br_rejected_tools b"
    using assms(2) by (auto intro!: visible_cong)
  have "int (length cs) \<le> arg_top_k args"
    unfolding cs by (rule length_search_candidates [OF assms(3)])
  moreover have "n \<notin> set (visible_tool_names b) \<and> n \<notin> set (br_rejected_tools b)"
    if "(n, score, summary) \<in> set cs" for n score summary
    using search_candidates_excluded [OF assms(1) f(1) assms(3)] that unfolding cs f(2,3) by blast
  moreover have "note = Hint \<longleftrightarrow> cs \<noteq> []" unfolding nt by simp
  moreover have "br_rejected_tools b' = br_rejected_tools b" unfolding b' by (rule f(3))
  ultimately show ?thesis by auto
qed

lemma fold_reject_fields:
  "br_allowed_tools (fold reject_search_result ns b) = br_allowed_tools b"
  "br_context (fold reject_search_result ns b) = br_context b" "br_vault (fold reject_search_result ns b) = br_vault b"
  "br_cone (fold reject_search_result ns b) = br_cone b" "br_reject_count (fold reject_search_result ns b) = br_reject_count b"
  "br_last_search_query (fold reject_search_result ns b) = br_last_search_query b"
  "set (br_rejected_tools (fold reject_search_result ns b)) = set (br_rejected_tools b) \<union> set ns"
  by (induction ns arbitrary: b) (auto simp: reject_search_result_def)

lemma research_fields:
  assumes "search_mode env True args b s = (r, b')"
  shows "r \<noteq> Terminated k" "br_reject_count b' = br_reject_count b" "br_rejected_tools b' = br_rejected_tools b"
  using assms by (auto simp: search_mode_def Let_def split: if_splits)

text \<open>
  A search (also the one that follows a rejection) offers only new tools: no candidate is
  visible to the agent already or has been rejected, there are at most \<open>top_k\<close> of them (five after a
  rejection), and the reply tells how to load them exactly when there are any.
\<close>

theorem search_offers_new_tools:
  assumes "vault_only env" and "br_cone b = None" and "0 \<le> arg_top_k args"
    and "search_new_tools env args b s = (Candidates cs note, b')"
  shows "(\<forall>(n, score, summary) \<in> set cs. n \<notin> set (visible_tool_names b) \<and> n \<notin> set (br_rejected_tools b')) \<and>
    int (length cs) \<le> max 5 (arg_top_k args) \<and> (note = Hint \<longleftrightarrow> cs \<noteq> [])"
proof (cases "arg_text env ''reject'' args = []")
  case True
  have noload: "arg_text env ''load'' args = []"
    using assms(4) by (auto simp: search_new_tools_def load_discovered_tool_def Let_def case_prod_unfold
        split: if_splits option.splits audit_decision.splits)
  have c: "br_cone (count_call b) = None" "visible_tool_names (count_call b) = visible_tool_names b"
    using assms(2) by (auto simp: count_call_def intro!: visible_cong)
  from noload True assms(4) have "search_mode env False args (count_call b) s = (Candidates cs note, b')"
    by (simp add: search_new_tools_def)
  from search_mode_reply [OF assms(1) c(1) assms(3) this] c(2) show ?thesis by auto
next
  case False
  have noload: "arg_text env ''load'' args = []"
    using assms(4) by (auto simp: search_new_tools_def load_discovered_tool_def Let_def case_prod_unfold
        split: if_splits option.splits audit_decision.splits)
  let ?b = "fold reject_search_result (rejected_names (arg_text env ''reject'' args)) (count_call b)"
  let ?b2 = "count_call (?b\<lparr>br_reject_count := br_reject_count ?b + 1\<rparr>)"
  from noload False assms(4) obtain q where s: "search_mode env True [(''query'', JStr q)] ?b2 s = (Candidates cs note, b')"
    by (auto simp: search_new_tools_def reject_and_research_def Let_def split: if_splits)
  have k: "arg_top_k [(''query'', JStr q)] = 5" by (simp add: arg_top_k_def)
  have c: "br_cone ?b2 = None" "visible_tool_names ?b2 = visible_tool_names b"
    using assms(2) by (auto simp: count_call_def fold_reject_fields intro!: visible_cong)
  from search_mode_reply [OF assms(1) c(1) _ s] c(2) show ?thesis unfolding k by auto
qed

definition query_args :: "string \<Rightarrow> (string, json) dict" where
  "query_args q = [(''query'', JStr q)]"

definition calc_server :: mcp_server where
  "calc_server = register_provider demo_backends (calc_provider ''local'') None (new_server None)"

theorem search_offers_new_tools_witness:
  "\<exists>cs b'. search_new_tools demo_env (query_args ''calc'') (new_bridge ''ag'' (Some [''mail'']) True) calc_server =
       (Candidates cs Hint, b') \<and> map fst cs = [''calc''] \<and>
     (\<forall>(n, score, summary) \<in> set cs. n \<notin> set (visible_tool_names (new_bridge ''ag'' (Some [''mail'']) True)))"
proof -
  let ?b = "new_bridge ''ag'' (Some [''mail'']) True"
  let ?r = "search_new_tools demo_env (query_args ''calc'') ?b calc_server"
  have c: "(case fst ?r of Candidates cs note \<Rightarrow> note = Hint \<and> map fst cs = [''calc''] | _ \<Rightarrow> False)" by code_simp
  have "\<exists>cs b'. r = (Candidates cs Hint, b') \<and> map fst cs = [n]"
    if "case fst r of Candidates cs note \<Rightarrow> note = Hint \<and> map fst cs = [n] | _ \<Rightarrow> False"
    for r :: "search_reply \<times> tool_bridge" and n
    using that by (cases r) (auto split: search_reply.splits)
  with c obtain cs b' where r: "?r = (Candidates cs Hint, b')" and m: "map fst cs = [''calc'']"
    by metis
  have "vault_only demo_env" by (simp add: vault_only_def demo_env_def no_backends_def)
  moreover have "br_cone ?b = None" by (simp add: new_bridge_def)
  moreover have "0 \<le> arg_top_k (query_args ''calc'')" by code_simp
  ultimately have "\<forall>(n, score, summary) \<in> set cs. n \<notin> set (visible_tool_names ?b) \<and> n \<notin> set (br_rejected_tools b')"
    using search_offers_new_tools [of demo_env ?b "query_args ''calc''" calc_server cs Hint b'] r by simp
  with r m show ?thesis by fastforce
qed

text \<open>
  Rejecting ends: each \<open>reject\<close> request adds its names to the rejected ones and counts once, and
  the third one in a row (and every later one) ends the search, whatever it names and whatever
  the vault holds.
\<close>

theorem third_rejection_ends:
  assumes "arg_text env ''load'' args = []" and "arg_text env ''reject'' args \<noteq> []"
    and "search_new_tools env args b s = (r, b')"
  shows "br_reject_count b' = Suc (br_reject_count b) \<and>
    set (br_rejected_tools b') = set (br_rejected_tools b) \<union> set (rejected_names (arg_text env ''reject'' args)) \<and>
    (2 \<le> br_reject_count b \<longleftrightarrow> r = Terminated (Suc (br_reject_count b))) \<and>
    (2 \<le> br_reject_count b \<longrightarrow> br_last_search_query b' = br_last_search_query b)"
proof -
  let ?names = "rejected_names (arg_text env ''reject'' args)"
  define b1 where "b1 = fold reject_search_result ?names (count_call b)"
  have b1: "br_reject_count b1 = br_reject_count b" "br_last_search_query b1 = br_last_search_query b"
    "set (br_rejected_tools b1) = set (br_rejected_tools b) \<union> set ?names"
    by (simp_all add: b1_def fold_reject_fields) (simp_all add: count_call_def)
  define b2 where "b2 = b1\<lparr>br_reject_count := br_reject_count b1 + 1\<rparr>"
  have b2: "br_reject_count b2 = Suc (br_reject_count b)" "br_last_search_query b2 = br_last_search_query b"
    "set (br_rejected_tools b2) = set (br_rejected_tools b) \<union> set ?names"
    by (simp_all add: b2_def b1)
  have "reject_and_research env (arg_text env ''reject'' args) args (count_call b) s = (r, b')"
    using assms by (simp add: search_new_tools_def)
  then have rr: "(if 3 \<le> br_reject_count b2 then (Terminated (br_reject_count b2), b2)
      else (let q = arg_text env ''query'' args; query = (if q \<noteq> [] then q else br_last_search_query b2)
            in if query = [] then (Refused no_search_text, b2)
               else search_mode env True [(''query'', JStr query)] (count_call b2) s)) = (r, b')"
    unfolding reject_and_research_def b1_def b2_def Let_def .
  show ?thesis
  proof (cases "3 \<le> br_reject_count b2")
    case True
    from rr have "(Terminated (br_reject_count b2), b2) = (r, b')" unfolding if_P [OF True] .
    then have e: "r = Terminated (br_reject_count b2)" "b' = b2" by (blast dest: prod.inject [THEN iffD1])+
    show ?thesis unfolding e using b2 True by simp
  next
    case False
    define q where "q = (let q = arg_text env ''query'' args in if q \<noteq> [] then q else br_last_search_query b2)"
    from rr False have "(if q = [] then (Refused no_search_text, b2)
        else search_mode env True [(''query'', JStr q)] (count_call b2) s) = (r, b')"
      unfolding q_def Let_def by (simp only: if_False)
    then have "(Refused no_search_text, b2) = (r, b') \<or> search_mode env True [(''query'', JStr q)] (count_call b2) s = (r, b')"
      by (cases "q = []") simp_all
    then have "(\<forall>k. r \<noteq> Terminated k) \<and> br_reject_count b' = br_reject_count b2 \<and> br_rejected_tools b' = br_rejected_tools b2"
    proof
      assume "search_mode env True [(''query'', JStr q)] (count_call b2) s = (r, b')"
      from research_fields [OF this] show ?thesis by (simp add: count_call_def)
    qed auto
    with False b2 show ?thesis by simp
  qed
qed

definition reject_args :: "string \<Rightarrow> (string, json) dict" where
  "reject_args names = [(''reject'', JStr names)]"

theorem third_rejection_ends_witness:
  "fst (search_new_tools demo_env (reject_args ''a, b'') (demo_bridge\<lparr>br_reject_count := 2\<rparr>) (new_server None)) = Terminated 3"
proof -
  let ?b = "demo_bridge\<lparr>br_reject_count := 2\<rparr>"
  have "arg_text demo_env ''load'' (reject_args ''a, b'') = []" by code_simp
  moreover have "arg_text demo_env ''reject'' (reject_args ''a, b'') \<noteq> []" by code_simp
  moreover obtain r b' where r: "search_new_tools demo_env (reject_args ''a, b'') ?b (new_server None) = (r, b')"
    by (cases "search_new_tools demo_env (reject_args ''a, b'') ?b (new_server None)")
  ultimately show ?thesis using third_rejection_ends [of demo_env "reject_args ''a, b''" ?b "new_server None" r b']
    by simp
qed

lemma audit_check_fields:
  "br_allowed_tools (snd (audit_check env c b)) = br_allowed_tools b"
  "br_context (snd (audit_check env c b)) = br_context b" "br_vault (snd (audit_check env c b)) = br_vault b"
  "br_rejected_tools (snd (audit_check env c b)) = br_rejected_tools b" "br_cone (snd (audit_check env c b)) = br_cone b"
  "br_active_lineages (snd (audit_check env c b)) = br_active_lineages b"
  by (simp_all add: audit_check_def case_prod_unfold split: option.split)

text \<open>What a search-and-confirm leaves alone while it finds nothing.\<close>

definition searching :: "tool_bridge \<Rightarrow> tool_bridge \<Rightarrow> bool" where
  "searching b b' \<longleftrightarrow> br_allowed_tools b' = br_allowed_tools b \<and> br_context b' = br_context b \<and>
     br_vault b' = br_vault b \<and> br_cone b' = br_cone b \<and> br_active_lineages b' = br_active_lineages b \<and>
     set (br_rejected_tools b) \<subseteq> set (br_rejected_tools b')"

lemma searching_steps:
  "searching b b" "searching b (snd (audit_check env c b))" "searching b (reject_search_result n b)"
  by (auto simp: searching_def audit_check_fields) (auto simp: reject_search_result_def)

lemma searching_trans: "searching a b \<Longrightarrow> searching b c \<Longrightarrow> searching a c"
  by (auto simp: searching_def)

lemma activate_clears: "br_rejected_tools (snd (activate_tool n b)) = []"
  by (simp add: activate_tool_def Let_def case_prod_unfold register_lineage_def)

lemma confirm_candidates_result:
  assumes "confirm_candidates env f query activate cs b = (r, b')"
  shows "(case r of
      None \<Rightarrow> searching b b' \<and> set (br_rejected_tools b') = set (br_rejected_tools b) \<union> sr_tool_name ` set cs
    | Some c \<Rightarrow> c \<in> set cs \<and> cd_confirmed (call_confirmer f c query) \<and> br_rejected_tools b' = [])"
  using assms
proof (induction cs arbitrary: b)
  case Nil
  then show ?case by (auto simp: searching_steps)
next
  case (Cons c cs)
  have rej: "(case r of
      None \<Rightarrow> searching b b' \<and> set (br_rejected_tools b') = set (br_rejected_tools b) \<union> sr_tool_name ` set (c # cs)
    | Some d \<Rightarrow> d \<in> set (c # cs) \<and> cd_confirmed (call_confirmer f d query) \<and> br_rejected_tools b' = [])"
    if "confirm_candidates env f query activate cs (reject_search_result (sr_tool_name c) b1) = (r, b')"
      "searching b b1" "br_rejected_tools b1 = br_rejected_tools b" for b1
  proof (cases r)
    case None
    with Cons.IH [OF that(1)] have "searching (reject_search_result (sr_tool_name c) b1) b'"
      "set (br_rejected_tools b') = set (br_rejected_tools (reject_search_result (sr_tool_name c) b1)) \<union> sr_tool_name ` set cs"
      by simp_all
    with None that(2,3) show ?thesis
      using searching_trans [OF that(2) searching_trans [OF searching_steps(3)]]
      by (auto simp: reject_search_result_def)
  next
    case (Some d)
    with Cons.IH [OF that(1)] show ?thesis by simp
  qed
  let ?a = "audit_check env c b"
  have b1: "searching b (snd ?a)" "br_rejected_tools (snd ?a) = br_rejected_tools b"
    by (rule searching_steps) (rule audit_check_fields)
  show ?case
  proof (cases "cd_confirmed (call_confirmer f c query)")
    case False
    with rej [OF _ searching_steps(1) refl] Cons.prems show ?thesis by simp
  next
    case C: True
    show ?thesis
    proof (cases "map_option au_decision (fst ?a) = Some audit_decision.BLOCK")
      case True
      with C Cons.prems have "confirm_candidates env f query activate cs (reject_search_result (sr_tool_name c) (snd ?a)) = (r, b')"
        by (auto simp: Let_def case_prod_unfold)
      from rej [OF this b1] show ?thesis .
    next
      case False
      with C Cons.prems have "r = Some c \<and> b' \<in> {reset_rejected (snd ?a), snd (activate_tool (sr_tool_name c) (snd ?a))}"
        by (auto simp: Let_def case_prod_unfold confirm_search_result_def split: option.splits audit_decision.splits if_splits)
      with C activate_clears show ?thesis by (auto simp: reset_rejected_def)
    qed
  qed
qed

lemma searching_exclude: "searching b b' \<Longrightarrow> set (search_exclude b) \<subseteq> set (search_exclude b')"
  unfolding searching_def search_exclude_def using visible_cong [of b' b] by auto

lemma cone_search_empty_vault: "br_vault b = None \<Longrightarrow> br_cone b = None \<Longrightarrow> cone_search env q b = []"
  by (simp add: cone_search_def get_cone_def)

lemma confirm_rounds_result:
  assumes "vault_only env" and "br_cone b = None" and "0 \<le> top_k"
    and "confirm_rounds k env f query activate top_k min_score b = (r, b')"
  shows "(case r of
      None \<Rightarrow> searching b b'
    | Some c \<Rightarrow> cd_confirmed (call_confirmer f c query) \<and> sr_tool_name c \<notin> set (search_exclude b) \<and>
        permissions_satisfied (sr_required_permissions c) (br_allowed_tools b) \<and> br_rejected_tools b' = [])"
  using assms(2,4)
proof (induction k arbitrary: b)
  case 0
  then show ?case by (auto simp: searching_steps)
next
  case (Suc k)
  let ?q = "bridge_query query (search_exclude b) top_k min_score b"
  let ?cs = "cone_search env ?q b"
  obtain d b1 where d: "confirm_candidates env f query activate ?cs b = (d, b1)"
    by (cases "confirm_candidates env f query activate ?cs b")
  note R = confirm_candidates_result [OF d]
  show ?case
  proof (cases "?cs = []")
    case True
    with Suc.prems show ?thesis by (auto simp: searching_steps)
  next
    case False
    show ?thesis
    proof (cases d)
      case None
      with R have s: "searching b b1" by simp
      then have "br_cone b1 = None" using Suc.prems(1) by (simp add: searching_def)
      moreover have "confirm_rounds k env f query activate top_k min_score b1 = (r, b')"
        using Suc.prems(2) False d None by simp
      ultimately have "(case r of
          None \<Rightarrow> searching b1 b'
        | Some c \<Rightarrow> cd_confirmed (call_confirmer f c query) \<and> sr_tool_name c \<notin> set (search_exclude b1) \<and>
            permissions_satisfied (sr_required_permissions c) (br_allowed_tools b1) \<and> br_rejected_tools b' = [])"
        by (rule Suc.IH)
      with s searching_exclude [OF s] searching_trans [OF s] show ?thesis
        by (cases r) (auto simp: searching_def)
    next
      case (Some c)
      with False d Suc.prems(2) have r: "r = Some c" "b' = b1" by simp_all
      from Some R have c: "c \<in> set ?cs" "cd_confirmed (call_confirmer f c query)" "br_rejected_tools b1 = []"
        by simp_all
      from c(1) False obtain v where v: "br_vault b = Some v"
        using cone_search_empty_vault [OF _ Suc.prems(1)] by (cases "br_vault b") auto
      have "0 \<le> cq_top_k ?q" using assms(3) by (simp add: bridge_query_def)
      from cone_search_from [OF assms(1) Suc.prems(1) v this c(1)] c r show ?thesis
        by (auto simp: bridge_query_def from_entry_def)
    qed
  qed
qed


text \<open>A vault whose vectors come from the client of \<open>demo_backends\<close>, for an agent that needs confirmation.\<close>

definition mail_bridge :: tool_bridge where
  "mail_bridge = (new_bridge ''ag'' (Some [''net:smtp'']) True)\<lparr>br_vault := Some demo_vault\<rparr>"



text \<open>The dialogue: load the tool, let it go unused for a turn, and ask for it again.\<close>

definition after_load :: tool_bridge where
  "after_load = fst (fold bridge_step [CallTool demo_env ''search_new_tools'' (load_args ''mail''), AdvanceTurn]
     (demo_bridge, new_server None))"


text \<open>Injecting tools into an agent without a whitelist (and without a context) takes all others away.\<close>

lemma inject_restricts:
  assumes "br_allowed_tools b = None" and "br_context b = None" and "names \<noteq> []"
  shows "check_permission m b \<and> (check_permission m (snd (inject_tool_context names b)) \<longleftrightarrow> m \<in> set names)"
proof -
  have f: "br_context (snd (fold inject_one ns (k, b'))) = None \<and>
      br_allowed_tools (snd (fold inject_one ns (k, b'))) =
        (if ns = [] then br_allowed_tools b'
         else br_allowed_tools (fold add_allowed_tool ns b'))"
    if "br_context b' = None" for ns k b'
    using that
  proof (induction ns arbitrary: k b')
    case (Cons n ns)
    have "br_context (add_allowed_tool n b') = None" using Cons.prems by (simp add: add_allowed_tool_def)
    from Cons.IH [OF this, of "Suc k"] Cons.prems show ?case by (simp add: inject_one_def)
  qed simp
  have a: "br_allowed_tools (fold add_allowed_tool ns b') = Some (fold List.insert ns al)"
    if "br_allowed_tools b' = Some al" for ns b' al
    using that by (induction ns arbitrary: b' al) (simp_all add: add_allowed_tool_def)
  have i: "set (fold List.insert ns al) = set ns \<union> set al" for ns al :: "string list"
    by (induction ns arbitrary: al) auto
  obtain n ns where names: "names = n # ns" using assms(3) by (cases names) auto
  have "br_allowed_tools (fold add_allowed_tool names b) = Some (fold List.insert ns [n])"
    unfolding names using a [of "add_allowed_tool n b" "[n]" ns] assms(1) by (simp add: add_allowed_tool_def)
  with f [OF assms(2), of names 0] assms(1,3) i [of ns "[n]"] names show ?thesis
    by (auto simp: check_permission_def inject_tool_context_def)
qed

text \<open>A search for something else keeps the tools rejected in an earlier search out of the results.\<close>

lemma rejections_persist:
  "br_rejected_tools (snd (search_mode env False args b s)) = br_rejected_tools b"
  by (simp add: search_mode_def Let_def)

end
