(* ===== verification/StoreMerge.thy ===== *)
theory StoreMerge
  imports Strings "HOL-Library.List_Lexorder" "HOL-Library.Char_ord"
begin

text \<open>
  The structural diff and the three-way merge of \<open>youmi/mcp/tool_store.py\<close> (\<open>_dict_diff\<close>,
  \<open>_merge_dicts\<close>), on JSON dictionaries. Equality is Python's \<open>==\<close>: dictionaries are equal whatever
  the order of their keys, and a truth value equals the number 0 or 1.
\<close>

section \<open>Python's equality\<close>

fun canon :: "json \<Rightarrow> json" where
  "canon (JBool b) = JNum (if b then 1 else 0)"
| "canon (JList xs) = JList (map canon xs)"
| "canon (JObj d) = JObj (sort_key fst (map (\<lambda>(k, v). (k, canon v)) d))"
| "canon v = v"

definition py_eq :: "json \<Rightarrow> json \<Rightarrow> bool" where
  "py_eq a b \<longleftrightarrow> canon a = canon b"

text \<open>\<open>==\<close> on values that may be the sentinel for a missing key.\<close>

definition same :: "json option \<Rightarrow> json option \<Rightarrow> bool" where
  "same a b \<longleftrightarrow> map_option canon a = map_option canon b"

lemma py_eq_refl [simp]: "py_eq a a" and py_eq_sym: "py_eq a b \<Longrightarrow> py_eq b a"
  and py_eq_trans: "py_eq a b \<Longrightarrow> py_eq b c \<Longrightarrow> py_eq a c"
  by (simp_all add: py_eq_def)

lemma same_refl [simp]: "same a a" and same_sym: "same a b \<longleftrightarrow> same b a"
  and same_trans: "same a b \<Longrightarrow> same b c \<Longrightarrow> same a c"
  by (auto simp: same_def)

lemma same_simps [simp]:
  "same (Some a) (Some b) = py_eq a b" "same None (Some a) = False" "same (Some a) None = False"
  by (simp_all add: same_def py_eq_def)

text \<open>Two dictionaries are equal exactly when they map every key to equal values.\<close>

lemma map_of_sorted: "distinct (map fst d) \<Longrightarrow> map_of (sort_key fst d) = map_of d"
  by (rule map_of_inject_set [THEN iffD2]) (simp_all add: distinct_map inj_on_def)

lemma sorted_dict_eq:
  fixes d e :: "(string \<times> json) list"
  assumes "distinct (map fst d)" and "distinct (map fst e)"
  shows "sort_key fst d = sort_key fst e \<longleftrightarrow> map_of d = map_of e"
proof
  assume "map_of d = map_of e"
  then have m: "map_of (sort_key fst d) = map_of (sort_key fst e)"
    by (simp add: map_of_sorted assms)
  have "set (map fst d) = set (map fst e)"
    using \<open>map_of d = map_of e\<close> by (metis dom_map_of_conv_image_fst list.set_map)
  then have k: "map fst (sort_key fst d) = map fst (sort_key fst e)"
    using assms by (intro sorted_distinct_set_unique) (simp_all add: distinct_map inj_on_def)
  have "x = map (\<lambda>k. (k, the (map_of x k))) (map fst x)" if "distinct (map fst x)" for x :: "(string \<times> json) list"
    unfolding map_map by (rule sym, rule map_idI) (auto simp: map_of_is_SomeI [OF that])
  from this [of "sort_key fst d"] this [of "sort_key fst e"] m k assms show "sort_key fst d = sort_key fst e"
    by (simp add: distinct_map inj_on_def)
next
  assume "sort_key fst d = sort_key fst e"
  with map_of_sorted [OF assms(1)] map_of_sorted [OF assms(2)] show "map_of d = map_of e" by simp
qed

lemma map_of_canon: "map_of (map (\<lambda>(k, v). (k, canon v)) d) k = map_option canon (map_of d k)"
  by (induction d) auto

lemma py_eq_dict:
  assumes "wf_dict d" and "wf_dict e"
  shows "py_eq (JObj d) (JObj e) \<longleftrightarrow> (\<forall>k. same (dget d k) (dget e k))"
proof -
  have "py_eq (JObj d) (JObj e) \<longleftrightarrow>
      map_of (map (\<lambda>(k, v). (k, canon v)) d) = map_of (map (\<lambda>(k, v). (k, canon v)) e)"
    unfolding py_eq_def canon.simps json.inject
    using assms by (intro sorted_dict_eq) (simp_all add: wf_dict_def o_def case_prod_unfold)
  then show ?thesis by (simp add: fun_eq_iff map_of_canon same_def)
qed

section \<open>The diff\<close>

record diff =
  df_added :: "(string, json) dict"
  df_removed :: "(string, json) dict"
  df_changed :: "(string, json) dict"

definition no_diff :: diff where
  "no_diff = \<lparr>df_added = [], df_removed = [], df_changed = []\<rparr>"

definition join_path :: "string \<Rightarrow> string \<Rightarrow> string" where
  "join_path prefix key = (if prefix \<noteq> [] then prefix @ ''.'' @ key else key)"

definition merge_diff :: "diff \<Rightarrow> diff \<Rightarrow> diff" where
  "merge_diff d e = \<lparr>df_added = dmerge (df_added d) (df_added e), df_removed = dmerge (df_removed d) (df_removed e),
     df_changed = dmerge (df_changed d) (df_changed e)\<rparr>"

definition diff_new :: "(string, json) dict \<Rightarrow> (string, json) dict \<Rightarrow> string \<Rightarrow> diff \<Rightarrow> diff" where
  "diff_new old new path acc =
     acc\<lparr>df_added := fold (\<lambda>(k, v) a. if dget old k = None then dset (join_path path k) v a else a) new (df_added acc)\<rparr>"

text \<open>The first loop, over the keys of \<open>old\<close>.\<close>

fun diff_old :: "(string, json) dict \<Rightarrow> (string, json) dict \<Rightarrow> string \<Rightarrow> diff \<Rightarrow> diff" where
  "diff_old [] new path acc = acc"
| "diff_old ((k, v) # old) new path acc =
     diff_old old new path
       (case dget new k of
          None \<Rightarrow> acc\<lparr>df_removed := dset (join_path path k) v (df_removed acc)\<rparr>
        | Some w \<Rightarrow>
            if py_eq v w then acc
            else (case v of
                    JObj a \<Rightarrow>
                      (case w of
                         JObj b \<Rightarrow> merge_diff acc (diff_new a b (join_path path k) (diff_old a b (join_path path k) no_diff))
                       | _ \<Rightarrow> acc\<lparr>df_changed := dset (join_path path k) (JList [v, w]) (df_changed acc)\<rparr>)
                  | _ \<Rightarrow> acc\<lparr>df_changed := dset (join_path path k) (JList [v, w]) (df_changed acc)\<rparr>))"

definition dict_diff :: "(string, json) dict \<Rightarrow> (string, json) dict \<Rightarrow> string \<Rightarrow> diff" where
  "dict_diff old new path = diff_new old new path (diff_old old new path no_diff)"

section \<open>The merge\<close>

text \<open>
  The values in a merged dictionary: one taken from a side, the sentinel object \<open>_MISSING\<close>, which the
  code can store, or a dictionary merged recursively.
\<close>

datatype merge_value = Value json | MissingObject | Merged "(string \<times> merge_value) list"

definition value_of :: "json option \<Rightarrow> merge_value" where
  "value_of x = (case x of None \<Rightarrow> MissingObject | Some v \<Rightarrow> Value v)"

definition put_option :: "string \<Rightarrow> json option \<Rightarrow> (string, merge_value) dict \<Rightarrow> (string, merge_value) dict" where
  "put_option k x m = (case x of None \<Rightarrow> ddel k m | Some v \<Rightarrow> dset k (Value v) m)"

definition all_keys :: "(string, json) dict \<Rightarrow> (string, json) dict \<Rightarrow> (string, json) dict \<Rightarrow> string list" where
  "all_keys b o' t = sort (remdups (dkeys b @ dkeys o' @ dkeys t))"

lemma dget_size: "dget d k = Some v \<Longrightarrow> size v < size (JObj d)"
  by (induction d) (auto split: if_splits)

function merge_dicts :: "(string, json) dict \<Rightarrow> (string, json) dict \<Rightarrow> (string, json) dict \<Rightarrow>
    (string, merge_value) dict \<times> string list" where
  "merge_dicts b ours t =
     fold (\<lambda>k mc.
        let (m, cs) = mc in
        if same (dget ours k) (dget t k) then (put_option k (dget ours k) m, cs)
        else if same (dget b k) (dget ours k) then (put_option k (dget t k) m, cs)
        else if same (dget b k) (dget t k) then (dset k (value_of (dget ours k)) m, cs)
        else (case dget b k of
                Some (JObj b') \<Rightarrow>
                  (case dget ours k of
                     Some (JObj o') \<Rightarrow>
                       (case dget t k of
                          Some (JObj t') \<Rightarrow>
                            (case merge_dicts b' o' t' of
                               (m', cs') \<Rightarrow> (dset k (Merged m') m, cs @ map (\<lambda>c. k @ ''.'' @ c) cs'))
                        | _ \<Rightarrow> (m, cs @ [k]))
                   | _ \<Rightarrow> (m, cs @ [k]))
              | _ \<Rightarrow> (m, cs @ [k])))
       (all_keys b ours t) (map (\<lambda>(k, v). (k, Value v)) ours, [])"
  by pat_completeness auto
termination
  by (relation "measure (\<lambda>(b, _, _). size (JObj b))") (auto dest: dget_size)

declare merge_dicts.simps [simp del]

section \<open>The diff is empty exactly on equal dictionaries\<close>

fun wf_json :: "json \<Rightarrow> bool" where
  "wf_json (JObj d) \<longleftrightarrow> wf_dict d \<and> (\<forall>p \<in> set d. wf_json (snd p))"
| "wf_json (JList xs) \<longleftrightarrow> (\<forall>x \<in> set xs. wf_json x)"
| "wf_json v \<longleftrightarrow> True"

lemma dmerge_Nil [simp]: "dmerge d e = [] \<longleftrightarrow> d = [] \<and> e = []"
proof (induction e arbitrary: d)
  case (Cons p e)
  then show ?case by (cases p) (simp add: update_nonempty)
qed simp

lemma diff_none_iff: "d = no_diff \<longleftrightarrow> df_added d = [] \<and> df_removed d = [] \<and> df_changed d = []"
  by (cases d) (simp add: no_diff_def)

lemma merge_diff_none: "merge_diff d e = no_diff \<longleftrightarrow> d = no_diff \<and> e = no_diff"
  unfolding diff_none_iff by (auto simp: merge_diff_def)

lemma record_diff [simp]:
  "acc\<lparr>df_removed := dset k v r\<rparr> \<noteq> no_diff" "acc\<lparr>df_changed := dset k v r\<rparr> \<noteq> no_diff"
  by (simp_all add: diff_none_iff update_nonempty)

lemma diff_new_none:
  "diff_new old new path acc = no_diff \<longleftrightarrow> acc = no_diff \<and> (\<forall>k \<in> set (dkeys new). dget old k \<noteq> None)"
proof -
  have "fold (\<lambda>(k, v) a. if dget old k = None then dset (join_path path k) v a else a) new a = [] \<longleftrightarrow>
      a = [] \<and> (\<forall>k \<in> set (dkeys new). dget old k \<noteq> None)" for a
  proof (induction new arbitrary: a)
    case (Cons p new)
    then show ?case by (cases p; cases "dget old (fst p)") (auto simp: update_nonempty)
  qed simp
  then show ?thesis unfolding diff_none_iff by (auto simp: diff_new_def)
qed

lemma diff_old_none:
  assumes "\<forall>p \<in> set old. wf_json (snd p)" and "wf_json (JObj new)"
  shows "diff_old old new path acc = no_diff \<longleftrightarrow>
    acc = no_diff \<and> (\<forall>(k, v) \<in> set old. same (Some v) (dget new k))"
  using assms
proof (induction old new path acc rule: diff_old.induct)
  case (2 k v old new path acc)
  let ?p = "join_path path k"
  have rest: "\<forall>p \<in> set old. wf_json (snd p)" using 2 by simp
  show ?case
  proof (cases "dget new k")
    case None
    with 2 rest show ?thesis by simp
  next
    case (Some w)
    have wfw: "wf_json w" using "2.prems"(2) Some map_of_SomeD [OF Some] by fastforce
    show ?thesis
    proof (cases "py_eq v w")
      case True
      with 2 Some rest show ?thesis by simp
    next
      case False
      have "\<not> same (Some v) (dget new k)" using False Some by simp
      moreover have "diff_old ((k, v) # old) new path acc \<noteq> no_diff"
      proof (cases "\<exists>a b. v = JObj a \<and> w = JObj b")
        case True
        then obtain a b where ab: "v = JObj a" "w = JObj b" by blast
        with "2.prems" wfw have wf: "\<forall>p \<in> set a. wf_json (snd p)" "wf_json (JObj b)" "wf_dict a" "wf_dict b" by auto
        let ?d = "diff_new a b ?p (diff_old a b ?p no_diff)"
        have "?d \<noteq> no_diff"
        proof
          assume "?d = no_diff"
          then have n: "diff_old a b ?p no_diff = no_diff" "\<forall>k \<in> set (dkeys b). dget a k \<noteq> None"
            by (simp_all add: diff_new_none)
          from "2.IH"(1) [OF Some False ab wf(1,2)] n(1)
          have all: "\<forall>(k, v) \<in> set a. same (Some v) (dget b k)" by simp
          have "same (dget a k) (dget b k)" for k
          proof (cases "dget a k")
            case None
            with n(2) have "k \<notin> set (dkeys b)" by blast
            then have "dget b k = None" by (simp only: dget_None_iff not_False_eq_True)
            with None show ?thesis by simp
          next
            case (Some x)
            with all show ?thesis using map_of_SomeD [OF Some] by fastforce
          qed
          with False ab py_eq_dict [OF wf(3,4)] show False by simp
        qed
        then have "merge_diff acc ?d \<noteq> no_diff" by (simp add: merge_diff_none)
        with "2.IH"(2) [OF rest "2.prems"(2)] show ?thesis
          using Some False ab by simp
      next
        case F: False
        then have e: "diff_old ((k, v) # old) new path acc =
            diff_old old new path (acc\<lparr>df_changed := dset ?p (JList [v, w]) (df_changed acc)\<rparr>)"
          using Some False by (cases v; cases w) auto
        have "(case dget new k of None \<Rightarrow> acc\<lparr>df_removed := dset ?p v (df_removed acc)\<rparr>
            | Some w \<Rightarrow> if py_eq v w then acc
              else (case v of JObj a \<Rightarrow> (case w of JObj b \<Rightarrow>
                       merge_diff acc (diff_new a b ?p (diff_old a b ?p no_diff))
                     | _ \<Rightarrow> acc\<lparr>df_changed := dset ?p (JList [v, w]) (df_changed acc)\<rparr>)
                   | _ \<Rightarrow> acc\<lparr>df_changed := dset ?p (JList [v, w]) (df_changed acc)\<rparr>)) =
            acc\<lparr>df_changed := dset ?p (JList [v, w]) (df_changed acc)\<rparr>"
          using Some False F by (cases v; cases w) auto
        with "2.IH"(2) [OF rest "2.prems"(2)] show ?thesis unfolding e by simp
      qed
      ultimately show ?thesis by auto
    qed
  qed
qed simp

lemma dict_diff_none:
  assumes "wf_json (JObj old)" and "wf_json (JObj new)"
  shows "dict_diff old new path = no_diff \<longleftrightarrow> py_eq (JObj old) (JObj new)"
proof -
  have wf: "wf_dict old" "wf_dict new" "\<forall>p \<in> set old. wf_json (snd p)" using assms by simp_all
  have "dict_diff old new path = no_diff \<longleftrightarrow>
      (\<forall>(k, v) \<in> set old. same (Some v) (dget new k)) \<and> (\<forall>k \<in> set (dkeys new). dget old k \<noteq> None)"
    by (simp add: dict_diff_def diff_new_none diff_old_none [OF wf(3) assms(2)])
  also have "\<dots> \<longleftrightarrow> (\<forall>k. same (dget old k) (dget new k))"
  proof
    assume a: "(\<forall>(k, v) \<in> set old. same (Some v) (dget new k)) \<and> (\<forall>k \<in> set (dkeys new). dget old k \<noteq> None)"
    show "\<forall>k. same (dget old k) (dget new k)"
    proof
      fix k show "same (dget old k) (dget new k)"
      proof (cases "dget old k")
        case None
        with a have "k \<notin> set (dkeys new)" by blast
        then have "dget new k = None" by (simp only: dget_None_iff not_False_eq_True)
        with None show ?thesis by simp
      next
        case (Some v)
        with a show ?thesis using map_of_SomeD [OF Some] by fastforce
      qed
    qed
  next
    assume a: "\<forall>k. same (dget old k) (dget new k)"
    have "same (Some v) (dget new k)" if "(k, v) \<in> set old" for k v
      using a that by (metis dget_mem [OF wf(1)])
    moreover have "dget old k \<noteq> None" if "k \<in> set (dkeys new)" for k
      using a that by (metis dget_None_iff same_def option.map_disc_iff)
    ultimately show "(\<forall>(k, v) \<in> set old. same (Some v) (dget new k)) \<and> (\<forall>k \<in> set (dkeys new). dget old k \<noteq> None)"
      by blast
  qed
  also have "\<dots> \<longleftrightarrow> py_eq (JObj old) (JObj new)" using py_eq_dict [OF wf(1,2)] by simp
  finally show ?thesis .
qed

section \<open>The merge, key by key\<close>

text \<open>The three values of a key when all of them are dictionaries.\<close>

fun dict_of :: "json option \<Rightarrow> (string, json) dict option" where
  "dict_of (Some (JObj d)) = Some d"
| "dict_of _ = None"

definition three_dicts :: "json option \<Rightarrow> json option \<Rightarrow> json option \<Rightarrow>
    ((string, json) dict \<times> (string, json) dict \<times> (string, json) dict) option" where
  "three_dicts b ours t =
     (case (dict_of b, dict_of ours, dict_of t) of (Some b', Some o', Some t') \<Rightarrow> Some (b', o', t') | _ \<Rightarrow> None)"

text \<open>The entry of a key after the merge, and the conflicts that it gives.\<close>

definition merged_at :: "json option \<Rightarrow> json option \<Rightarrow> json option \<Rightarrow> merge_value option" where
  "merged_at b ours t =
     (if same ours t then map_option Value ours
      else if same b ours then map_option Value t
      else if same b t then Some (value_of ours)
      else (case three_dicts b ours t of
              Some (b', o', t') \<Rightarrow> Some (Merged (fst (merge_dicts b' o' t')))
            | None \<Rightarrow> map_option Value ours))"

definition conflicts_at :: "string \<Rightarrow> json option \<Rightarrow> json option \<Rightarrow> json option \<Rightarrow> string list" where
  "conflicts_at k b ours t =
     (if same ours t \<or> same b ours \<or> same b t then []
      else (case three_dicts b ours t of
              Some (b', o', t') \<Rightarrow> map (\<lambda>c. k @ ''.'' @ c) (snd (merge_dicts b' o' t'))
            | None \<Rightarrow> [k]))"

definition merge_step :: "(string, json) dict \<Rightarrow> (string, json) dict \<Rightarrow> (string, json) dict \<Rightarrow> string \<Rightarrow>
    (string, merge_value) dict \<times> string list \<Rightarrow> (string, merge_value) dict \<times> string list" where
  "merge_step b ours t k = (\<lambda>(m, cs).
     (if same (dget ours k) (dget t k) then put_option k (dget ours k) m
      else if same (dget b k) (dget ours k) then put_option k (dget t k) m
      else if same (dget b k) (dget t k) then dset k (value_of (dget ours k)) m
      else (case three_dicts (dget b k) (dget ours k) (dget t k) of
              Some (b', o', t') \<Rightarrow> dset k (Merged (fst (merge_dicts b' o' t'))) m
            | None \<Rightarrow> m), cs @ conflicts_at k (dget b k) (dget ours k) (dget t k)))"

lemma merge_dicts_steps:
  "merge_dicts b ours t = fold (merge_step b ours t) (all_keys b ours t) (map (\<lambda>(k, v). (k, Value v)) ours, [])"
  unfolding merge_dicts.simps [of b ours t]
proof (rule fold_cong [OF refl refl], rule ext)
  fix k mc
  show "(let (m, cs) = mc in
        if same (dget ours k) (dget t k) then (put_option k (dget ours k) m, cs)
        else if same (dget b k) (dget ours k) then (put_option k (dget t k) m, cs)
        else if same (dget b k) (dget t k) then (dset k (value_of (dget ours k)) m, cs)
        else (case dget b k of
                Some (JObj b') \<Rightarrow>
                  (case dget ours k of
                     Some (JObj o') \<Rightarrow>
                       (case dget t k of
                          Some (JObj t') \<Rightarrow>
                            (case merge_dicts b' o' t' of
                               (m', cs') \<Rightarrow> (dset k (Merged m') m, cs @ map (\<lambda>c. k @ ''.'' @ c) cs'))
                        | _ \<Rightarrow> (m, cs @ [k]))
                   | _ \<Rightarrow> (m, cs @ [k]))
              | _ \<Rightarrow> (m, cs @ [k]))) = merge_step b ours t k mc"
    by (cases mc) (simp add: merge_step_def conflicts_at_def three_dicts_def split: option.split json.split prod.split)
qed

lemma merge_fold:
  assumes "distinct ks" and "\<forall>k \<in> set ks. dget m k = map_option Value (dget ours k)"
  shows "(\<forall>k. dget (fst (fold (merge_step b ours t) ks (m, cs))) k =
      (if k \<in> set ks then merged_at (dget b k) (dget ours k) (dget t k) else dget m k)) \<and>
    snd (fold (merge_step b ours t) ks (m, cs)) =
      cs @ concat (map (\<lambda>k. conflicts_at k (dget b k) (dget ours k) (dget t k)) ks)"
  using assms
proof (induction ks arbitrary: m cs)
  case (Cons k ks)
  obtain m1 cs1 where e: "merge_step b ours t k (m, cs) = (m1, cs1)" by (cases "merge_step b ours t k (m, cs)")
  have cs1: "cs1 = cs @ conflicts_at k (dget b k) (dget ours k) (dget t k)"
    using e by (simp add: merge_step_def)
  have mk: "dget m k = map_option Value (dget ours k)" using Cons.prems(2) by simp
  have "m1 = fst (merge_step b ours t k (m, cs))" using e by simp
  then have m1: "dget m1 j = (if j = k then merged_at (dget b k) (dget ours k) (dget t k) else dget m j)" for j
    using mk by (auto simp: merge_step_def merged_at_def put_option_def value_of_def split: option.split)
  have "\<forall>j \<in> set ks. dget m1 j = map_option Value (dget ours j)" using Cons.prems m1 by auto
  from Cons.IH [OF _ this, of cs1] Cons.prems(1) m1 cs1 e show ?case by auto
qed simp

lemma dget_values: "dget (map (\<lambda>(k, v). (k, Value v)) d) k = map_option Value (dget d k)"
  by (induction d) auto

lemma all_keys_mem: "k \<notin> set (all_keys b ours t) \<Longrightarrow> dget b k = None \<and> dget ours k = None \<and> dget t k = None"
  by (auto simp: all_keys_def dget_None_iff)

lemma merge_dicts_at:
  "dget (fst (merge_dicts b ours t)) k = merged_at (dget b k) (dget ours k) (dget t k)"
  "snd (merge_dicts b ours t) = concat (map (\<lambda>k. conflicts_at k (dget b k) (dget ours k) (dget t k)) (all_keys b ours t))"
proof -
  have d: "distinct (all_keys b ours t)" by (simp add: all_keys_def)
  note f = merge_fold [OF d, of "map (\<lambda>(k, v). (k, Value v)) ours" ours b t "[]"]
  from f show "snd (merge_dicts b ours t) = concat (map (\<lambda>k. conflicts_at k (dget b k) (dget ours k) (dget t k)) (all_keys b ours t))"
    by (simp add: merge_dicts_steps dget_values)
  show "dget (fst (merge_dicts b ours t)) k = merged_at (dget b k) (dget ours k) (dget t k)"
  proof (cases "k \<in> set (all_keys b ours t)")
    case True
    with f show ?thesis by (simp add: merge_dicts_steps dget_values)
  next
    case False
    with f all_keys_mem [OF False] show ?thesis by (simp add: merge_dicts_steps dget_values merged_at_def)
  qed
qed

lemma all_keys_swap: "all_keys b ours t = all_keys b t ours"
  unfolding all_keys_def
  by (rule sorted_distinct_set_unique) auto

lemma three_dicts_swap: "three_dicts b t ours = map_option (\<lambda>(x, y, z). (x, z, y)) (three_dicts b ours t)"
  by (simp add: three_dicts_def split: option.split)

lemma three_dictsD: "three_dicts b ours t = Some (b', o', t') \<Longrightarrow> b = Some (JObj b')"
  by (cases b rule: dict_of.cases) (auto simp: three_dicts_def split: option.splits)

lemma merge_conflicts_swap: "snd (merge_dicts b ours t) = snd (merge_dicts b t ours)"
proof (induction "size (JObj b)" arbitrary: b ours t rule: less_induct)
  case less
  have "conflicts_at k (dget b k) (dget ours k) (dget t k) = conflicts_at k (dget b k) (dget t k) (dget ours k)" for k
  proof (cases "three_dicts (dget b k) (dget ours k) (dget t k)")
    case None
    then show ?thesis using three_dicts_swap [of "dget b k" "dget t k" "dget ours k"]
      by (auto simp: conflicts_at_def same_sym)
  next
    case (Some x)
    obtain b' o' t' where x: "x = (b', o', t')" by (cases x)
    have "size (JObj b') < size (JObj b)" using three_dictsD [OF Some [unfolded x]] by (rule dget_size)
    from less [OF this, of o' t'] Some x three_dicts_swap [of "dget b k" "dget t k" "dget ours k"] show ?thesis
      by (auto simp: conflicts_at_def same_sym)
  qed
  then show ?case by (simp add: merge_dicts_at(2) all_keys_swap [of b ours t])
qed

section \<open>Properties\<close>

text \<open>
  The structural diff of two dictionaries is empty exactly when Python's \<open>==\<close> calls them equal,
  whatever the order of their keys, at every depth.
\<close>

theorem diff_empty_iff_equal:
  assumes "wf_json (JObj old)" and "wf_json (JObj new)"
  shows "dict_diff old new path = no_diff \<longleftrightarrow> py_eq (JObj old) (JObj new)"
  using dict_diff_none [OF assms] .

theorem diff_empty_iff_equal_witness:
  "dict_diff [(''a'', JNum 1), (''b'', JObj [(''x'', JNull), (''y'', JBool True)])]
             [(''b'', JObj [(''y'', JNum 1), (''x'', JNull)]), (''a'', JNum 1)] [] = no_diff"
  by (subst diff_empty_iff_equal) (simp_all add: wf_dict_def py_eq_def)

text \<open>
  The merge is a three-way merge: when it reports no conflict, every key that one side left as
  it was in the base gets the value of the other side (and is gone when the other side removed it,
  unless that is ours), a key changed in the same way on both sides gets that value, and a key
  changed on both sides holds dictionaries on all three, merged without conflict. The conflicts do
  not depend on which side is merged into which.
\<close>

theorem merge_three_way:
  assumes "merge_dicts b ours t = (m, [])"
  shows "(same (dget b k) (dget ours k) \<longrightarrow> rel_option (\<lambda>x v. \<exists>w. x = Value w \<and> py_eq w v) (dget m k) (dget t k)) \<and>
    (same (dget b k) (dget t k) \<and> dget ours k \<noteq> None \<longrightarrow> dget m k = map_option Value (dget ours k)) \<and>
    (same (dget ours k) (dget t k) \<longrightarrow> dget m k = map_option Value (dget ours k)) \<and>
    (\<not> same (dget b k) (dget ours k) \<and> \<not> same (dget b k) (dget t k) \<and> \<not> same (dget ours k) (dget t k) \<longrightarrow>
       (\<exists>b' o' t'. dget b k = Some (JObj b') \<and> dget ours k = Some (JObj o') \<and> dget t k = Some (JObj t') \<and>
          merge_dicts b' o' t' = (fst (merge_dicts b' o' t'), []) \<and>
          dget m k = Some (Merged (fst (merge_dicts b' o' t'))))) \<and>
    snd (merge_dicts b t ours) = []"
proof -
  have m: "dget m k = merged_at (dget b k) (dget ours k) (dget t k)"
    using merge_dicts_at(1) [of b ours t k] assms by simp
  have c: "conflicts_at k (dget b k) (dget ours k) (dget t k) = []"
  proof (cases "k \<in> set (all_keys b ours t)")
    case True
    with merge_dicts_at(2) [of b ours t] assms show ?thesis by simp
  next
    case False
    with all_keys_mem [OF False] show ?thesis by (simp add: conflicts_at_def)
  qed
  have "rel_option (\<lambda>x v. \<exists>w. x = Value w \<and> py_eq w v) (map_option Value x) y" if "same x y" for x y
    using that by (cases x; cases y) auto
  then have 1: "same (dget b k) (dget ours k) \<longrightarrow> rel_option (\<lambda>x v. \<exists>w. x = Value w \<and> py_eq w v) (dget m k) (dget t k)"
    unfolding m merged_at_def by auto
  have 2: "same (dget b k) (dget t k) \<and> dget ours k \<noteq> None \<longrightarrow> dget m k = map_option Value (dget ours k)"
  proof (intro impI, elim conjE)
    assume s: "same (dget b k) (dget t k)" and n: "dget ours k \<noteq> None"
    show "dget m k = map_option Value (dget ours k)"
    proof (cases "same (dget ours k) (dget t k)")
      case True
      then show ?thesis by (simp add: m merged_at_def)
    next
      case False
      with s have "\<not> same (dget b k) (dget ours k)" using same_trans same_sym by blast
      with False s n show ?thesis by (auto simp: m merged_at_def value_of_def)
    qed
  qed
  have 3: "\<exists>b' o' t'. dget b k = Some (JObj b') \<and> dget ours k = Some (JObj o') \<and> dget t k = Some (JObj t') \<and>
      merge_dicts b' o' t' = (fst (merge_dicts b' o' t'), []) \<and> dget m k = Some (Merged (fst (merge_dicts b' o' t')))"
    if n: "\<not> same (dget b k) (dget ours k)" "\<not> same (dget b k) (dget t k)" "\<not> same (dget ours k) (dget t k)"
  proof (cases "three_dicts (dget b k) (dget ours k) (dget t k)")
    case None
    with n c show ?thesis by (simp add: conflicts_at_def)
  next
    case (Some x)
    then obtain b' o' t' where x: "three_dicts (dget b k) (dget ours k) (dget t k) = Some (b', o', t')" by (cases x) auto
    have "dict_of v = Some d \<Longrightarrow> v = Some (JObj d)" for v d by (cases v rule: dict_of.cases) auto
    with x have d: "dget b k = Some (JObj b')" "dget ours k = Some (JObj o')" "dget t k = Some (JObj t')"
      by (auto simp: three_dicts_def split: option.splits)
    from n c x have "snd (merge_dicts b' o' t') = []" by (simp add: conflicts_at_def)
    moreover from n x have "dget m k = Some (Merged (fst (merge_dicts b' o' t')))" by (simp add: m merged_at_def)
    ultimately show ?thesis using d by (metis prod.collapse)
  qed
  have "snd (merge_dicts b t ours) = []" using merge_conflicts_swap [of b t ours] assms by simp
  with 1 2 3 show ?thesis by (simp add: m merged_at_def)
qed

theorem merge_three_way_witness:
  "\<exists>m. merge_dicts [(''a'', JNum 1), (''b'', JNum 2)] [(''a'', JNum 7), (''b'', JNum 2)]
       [(''a'', JNum 1), (''b'', JNum 2), (''c'', JNull)] = (m, []) \<and>
     dget m ''a'' = Some (Value (JNum 7)) \<and> dget m ''c'' = Some (Value JNull)"
proof -
  let ?r = "merge_dicts [(''a'', JNum 1), (''b'', JNum 2)] [(''a'', JNum 7), (''b'', JNum 2)]
       [(''a'', JNum 1), (''b'', JNum 2), (''c'', JNull)]"
  have s: "snd ?r = []" by code_simp
  then obtain m where m: "?r = (m, [])" by (cases ?r) simp
  have "dget m ''a'' = Some (Value (JNum 7))"
    using merge_three_way [OF m, of "''a''"] by (simp add: py_eq_def)
  moreover have "dget m ''c'' = Some (Value JNull)"
    using merge_three_way [OF m, of "''c''"] by (auto simp: option_rel_Some2 py_eq_def elim: canon.elims)
  ultimately show ?thesis using m by blast
qed

text \<open>
  Removing a key is treated differently on the two sides: when theirs removed a key that ours left
  alone it is removed; when ours removed a key that theirs left alone, the merged dictionary holds
  the internal sentinel object under that key, which no consumer can read.
\<close>

lemma removal_stores_sentinel:
  assumes "dget b k = Some v"
  shows "(dget ours k = Some v \<and> dget t k = None \<longrightarrow> dget (fst (merge_dicts b ours t)) k = None) \<and>
    (dget ours k = None \<and> dget t k = Some v \<longrightarrow> dget (fst (merge_dicts b ours t)) k = Some MissingObject)"
  using assms by (simp add: merge_dicts_at merged_at_def value_of_def)

end
