(* ===== verification/ToolStore.thy ===== *)
theory ToolStore
  imports ToolModels StoreMerge Vault
begin

text \<open>
  \<open>youmi/mcp/tool_store.py\<close>, the persistent store of tools with its version tree, and
  \<open>mcp/summary.py\<close>. A table is a list of rows in the order of their \<open>rowid\<close> (rows are only
  appended); a statement that raises leaves the store as it was. Definitions are stored as values
  instead of their JSON texts. The time stamp of an operation, the embedding client and the LLM of
  the summary generator are arguments. The vectors are those of the fallback table \<open>vec_tools\<close>; the
  KNN index of the sqlite-vec extension and the migration of old databases are not modelled.
\<close>

section \<open>Definitions as JSON\<close>

definition option_json :: "('a \<Rightarrow> json) \<Rightarrow> 'a option \<Rightarrow> json" where
  "option_json f x = (case x of None \<Rightarrow> JNull | Some v \<Rightarrow> f v)"

definition param_json :: "tool_parameter \<Rightarrow> json" where
  "param_json p =
     JObj [(''name'', JStr (tp_name p)), (''type'', JStr (tp_type p)), (''description'', JStr (tp_description p)),
       (''required'', JBool (tp_required p)), (''enum'', option_json (\<lambda>xs. JList (map JStr xs)) (tp_enum p)),
       (''default'', tp_default p), (''items'', option_json (\<lambda>j. j) (tp_items p))]"

text \<open>\<open>model_dump_json\<close>, and what \<open>json.loads\<close> makes of it.\<close>

definition definition_dict :: "tool_definition \<Rightarrow> (string, json) dict" where
  "definition_dict d =
     [(''name'', JStr (td_name d)), (''description'', JStr (td_description d)),
      (''parameters'', JList (map param_json (td_parameters d))), (''version'', JStr (td_version d)),
      (''language'', JStr (td_language d)), (''runtime'', JStr (td_runtime d)), (''risk_level'', JStr (td_risk_level d)),
      (''required_permissions'', JList (map JStr (td_required_permissions d))),
      (''timeout_s'', option_json JNum (td_timeout_s d))]"

fun str_value :: "json \<Rightarrow> string option" where
  "str_value (JStr s) = Some s"
| "str_value _ = None"

fun strs_value :: "json \<Rightarrow> string list option" where
  "strs_value (JList xs) = those (map str_value xs)"
| "strs_value _ = None"

definition field :: "(string, json) dict \<Rightarrow> string \<Rightarrow> 'a \<Rightarrow> (json \<Rightarrow> 'a option) \<Rightarrow> 'a option" where
  "field d key dflt f = (case dget d key of None \<Rightarrow> Some dflt | Some v \<Rightarrow> f v)"

definition optional :: "(json \<Rightarrow> 'a option) \<Rightarrow> json \<Rightarrow> 'a option option" where
  "optional f v = (if v = JNull then Some None else map_option Some (f v))"

text \<open>
  \<open>model_validate\<close>: absent fields take their defaults, a value of another type is refused. (Pydantic
  also converts some texts to numbers, which no stored definition needs.)
\<close>

fun param_of_json :: "json \<Rightarrow> tool_parameter option" where
  "param_of_json (JObj d) =
     (case (case dget d ''name'' of Some v \<Rightarrow> str_value v | None \<Rightarrow> None, field d ''type'' ''string'' str_value,
            field d ''description'' [] str_value,
            field d ''required'' True (\<lambda>v. case v of JBool b \<Rightarrow> Some b | _ \<Rightarrow> None),
            field d ''enum'' None (optional strs_value),
            field d ''items'' None (optional (\<lambda>v. case v of JObj _ \<Rightarrow> Some v | _ \<Rightarrow> None))) of
        (Some name, Some ty, Some desc, Some req, Some enum, Some items) \<Rightarrow>
          Some \<lparr>tp_name = name, tp_type = ty, tp_description = desc, tp_required = req, tp_enum = enum,
            tp_default = (case dget d ''default'' of None \<Rightarrow> JNull | Some v \<Rightarrow> v), tp_items = items\<rparr>
      | _ \<Rightarrow> None)"
| "param_of_json _ = None"

definition definition_of_dict :: "(string, json) dict \<Rightarrow> tool_definition option" where
  "definition_of_dict d =
     (case (case dget d ''name'' of Some v \<Rightarrow> str_value v | None \<Rightarrow> None, field d ''description'' [] str_value,
            field d ''parameters'' [] (\<lambda>v. case v of JList ps \<Rightarrow> those (map param_of_json ps) | _ \<Rightarrow> None),
            field d ''version'' ''0.0.1'' str_value, field d ''language'' ''python'' str_value,
            field d ''runtime'' ''python'' str_value, field d ''risk_level'' ''low'' str_value,
            field d ''required_permissions'' [] strs_value,
            field d ''timeout_s'' None (optional (\<lambda>v. case v of JNum q \<Rightarrow> Some q | _ \<Rightarrow> None))) of
        (Some name, Some desc, Some ps, Some version, Some language, Some runtime, Some risk, Some perms, Some timeout) \<Rightarrow>
          Some \<lparr>td_name = name, td_description = desc, td_parameters = ps, td_version = version,
            td_language = language, td_runtime = runtime, td_risk_level = risk, td_required_permissions = perms,
            td_timeout_s = timeout\<rparr>
      | _ \<Rightarrow> None)"

text \<open>\<open>model_validate\<close> of a merged dictionary: no field of a definition is a dictionary or the sentinel.\<close>

fun plain_value :: "string \<times> merge_value \<Rightarrow> (string \<times> json) option" where
  "plain_value (k, Value v) = Some (k, v)"
| "plain_value _ = None"

definition definition_of_merged :: "(string, merge_value) dict \<Rightarrow> tool_definition option" where
  "definition_of_merged m =
     (case those (map plain_value m) of None \<Rightarrow> None | Some d \<Rightarrow> definition_of_dict d)"

section \<open>Summaries\<close>

text \<open>\<open>SummaryGenerator\<close>: the LLM is a function of the level, the name and the text; \<open>None\<close> if it raises.\<close>

type_synonym summary_llm = "(bool \<Rightarrow> string \<Rightarrow> string \<Rightarrow> string option) option"

definition with_llm :: "string option \<Rightarrow> string \<Rightarrow> string" where
  "with_llm reply fallback =
     (case reply of None \<Rightarrow> fallback | Some t \<Rightarrow> if strip t \<noteq> [] then strip t else fallback)"

definition generate_l1 :: "summary_llm \<Rightarrow> string \<Rightarrow> string \<Rightarrow> string" where
  "generate_l1 llm name description =
     (let heuristic = strip (take 80 description) in
      case llm of
        None \<Rightarrow> heuristic
      | Some chat \<Rightarrow> if heuristic = [] then heuristic else with_llm (chat False name description) heuristic)"

definition generate_l2 :: "summary_llm \<Rightarrow> string \<Rightarrow> string \<Rightarrow> string" where
  "generate_l2 llm name summary =
     (let heuristic = strip (take 30 summary) in
      case llm of
        None \<Rightarrow> heuristic
      | Some chat \<Rightarrow> if heuristic = [] then heuristic else with_llm (chat True name summary) heuristic)"

section \<open>Tables\<close>

record tool_row =
  rw_tool_id :: string
  rw_tool_name :: string
  rw_version :: string
  rw_parent :: "string option"
  rw_provider_id :: string
  rw_summary :: string
  rw_definition :: tool_definition
  rw_language :: string
  rw_runtime :: string
  rw_essential :: bool
  rw_risk_level :: string
  rw_required_permissions :: "string list"
  rw_lineage_id :: string
  rw_summary_l2 :: string
  rw_branch :: string
  rw_is_head :: bool
  rw_diff_patch :: "diff option"
  rw_origin :: string
  rw_stage :: version_stage
  rw_created_at :: string
  rw_updated_at :: string

record changelog_row =
  cl_tool_id :: string
  cl_change_type :: string
  cl_description :: string
  cl_created_at :: string
  cl_source :: string

record tool_store =
  ts_rows :: "tool_row list"
  ts_changelogs :: "changelog_row list"
  ts_aliases :: "(string, string) dict"
  ts_tags :: "(string \<times> string) list"
  ts_dependencies :: "(string \<times> string \<times> string) list"
  ts_vectors :: "(string \<times> string, rat list) dict"

definition new_store :: tool_store where
  "new_store = \<lparr>ts_rows = [], ts_changelogs = [], ts_aliases = [], ts_tags = [], ts_dependencies = [], ts_vectors = []\<rparr>"

datatype store_error =
  ValueError string
| IntegrityError
| VersionConflict "string list"
| ValidationError

text \<open>
  The environment: time stamp, embedding client (\<open>None\<close>: none), cosine similarity (irrational, so an
  argument) and LLM.
\<close>

record store_env =
  se_now :: string
  se_embed :: "(string \<Rightarrow> rat list option) option"
  se_similarity :: "rat list \<Rightarrow> rat list \<Rightarrow> rat"
  se_llm :: summary_llm

text \<open>\<open>ORDER BY created_at DESC, rowid DESC LIMIT 1\<close>, and ascending.\<close>

definition newest :: "tool_row list \<Rightarrow> tool_row option" where
  "newest rows = fold (\<lambda>r best. case best of None \<Rightarrow> Some r
     | Some b \<Rightarrow> if rw_created_at b \<le> rw_created_at r then Some r else Some b) rows None"

definition oldest :: "tool_row list \<Rightarrow> tool_row option" where
  "oldest rows = fold (\<lambda>r best. case best of None \<Rightarrow> Some r
     | Some b \<Rightarrow> if rw_created_at r < rw_created_at b then Some r else Some b) rows None"

definition row_by_id :: "string \<Rightarrow> tool_store \<Rightarrow> tool_row option" where
  "row_by_id i st = List.find (\<lambda>r. rw_tool_id r = i) (ts_rows st)"

definition branch_rows :: "string \<Rightarrow> string \<Rightarrow> tool_store \<Rightarrow> tool_row list" where
  "branch_rows name branch st = filter (\<lambda>r. rw_tool_name r = name \<and> rw_branch r = branch) (ts_rows st)"

definition main_branch :: string where "main_branch = ''main''"

definition tool_key :: "string \<Rightarrow> string \<Rightarrow> string" where
  "tool_key name version = name @ ''@'' @ version"

text \<open>\<open>UPDATE tools SET is_head = 0 WHERE tool_name = ? AND branch = ? AND tool_id != ?\<close>.\<close>

definition demote_others :: "string \<Rightarrow> string \<Rightarrow> string \<Rightarrow> tool_row list \<Rightarrow> tool_row list" where
  "demote_others name branch i =
     map (\<lambda>r. if rw_tool_name r = name \<and> rw_branch r = branch \<and> rw_tool_id r \<noteq> i then r\<lparr>rw_is_head := False\<rparr> else r)"

section \<open>Vectors\<close>

definition write_vec :: "string \<Rightarrow> string \<Rightarrow> rat list \<Rightarrow> tool_store \<Rightarrow> tool_store" where
  "write_vec i level vec st = st\<lparr>ts_vectors := dset (i, level) vec (ts_vectors st)\<rparr>"

definition delete_vec :: "string \<Rightarrow> tool_store \<Rightarrow> tool_store" where
  "delete_vec i st = st\<lparr>ts_vectors := filter (\<lambda>p. fst (fst p) \<noteq> i) (ts_vectors st)\<rparr>"

text \<open>\<open>_embed_tool_row\<close>: the first failure ends it.\<close>

definition embed_text :: "string \<Rightarrow> string \<Rightarrow> string" where
  "embed_text name t = name @ '': '' @ t"

definition embed_row :: "store_env \<Rightarrow> string \<Rightarrow> string \<Rightarrow> string \<Rightarrow> string \<Rightarrow> tool_store \<Rightarrow> tool_store" where
  "embed_row env i name l1 l2 st =
     (case se_embed env of
        None \<Rightarrow> st
      | Some emb \<Rightarrow>
          (case emb (embed_text name l1) of
             None \<Rightarrow> st
           | Some v1 \<Rightarrow>
               (let st = write_vec i ''l1'' v1 st in
                if l2 = [] then st
                else (case emb (embed_text name l2) of None \<Rightarrow> st | Some v2 \<Rightarrow> write_vec i ''l2'' v2 st))))"

section \<open>Reading\<close>

text \<open>\<open>_row_to_entry\<close>; without an \<open>ORDER BY\<close>, the vector read is the first one written for the tool.\<close>

definition row_to_entry :: "tool_store \<Rightarrow> tool_row \<Rightarrow> tool_entry" where
  "row_to_entry st r =
     (let l1 = (if rw_summary r \<noteq> [] then rw_summary r else take 80 (td_description (rw_definition r)))
      in (new_tool_entry (rw_tool_name r) (rw_definition r))
           \<lparr>te_provider_id := rw_provider_id r, te_essential := rw_essential r,
            te_embedding := (case List.find (\<lambda>p. fst (fst p) = rw_tool_id r) (ts_vectors st) of
                               None \<Rightarrow> [] | Some p \<Rightarrow> snd p),
            te_summary := l1, te_summary_l2 := (if rw_summary_l2 r \<noteq> [] then rw_summary_l2 r else take 30 l1),
            te_tier := COLD, te_last_used_turn := -1, te_use_count := 0, te_version := rw_version r,
            te_language := rw_language r,
            te_risk_level := (if rw_risk_level r \<noteq> [] then rw_risk_level r else ''low''),
            te_required_permissions := rw_required_permissions r,
            te_lineage_id := (if rw_lineage_id r \<noteq> [] then rw_lineage_id r else rw_tool_name r),
            te_origin := origin_value (normalize_origin (Some (rw_origin r))), te_stage := rw_stage r\<rparr>)"

definition get_tool :: "string \<Rightarrow> string \<Rightarrow> tool_store \<Rightarrow> tool_entry option" where
  "get_tool name version st =
     map_option (row_to_entry st)
       (if version \<noteq> [] then row_by_id (tool_key name version) st else newest (branch_rows name main_branch st))"

definition get_latest_version :: "string \<Rightarrow> tool_store \<Rightarrow> tool_entry option" where
  "get_latest_version name st = get_tool name [] st"

text \<open>The rows of a lineage on the main branch, or, when there are none, those of the name.\<close>

definition lineage_rows :: "string \<Rightarrow> tool_store \<Rightarrow> tool_row list" where
  "lineage_rows lid st =
     (let rows = filter (\<lambda>r. rw_lineage_id r = lid \<and> rw_branch r = main_branch) (ts_rows st)
      in if rows \<noteq> [] then rows else branch_rows lid main_branch st)"

definition get_root_version :: "string \<Rightarrow> tool_store \<Rightarrow> tool_entry option" where
  "get_root_version lid st = map_option (row_to_entry st) (oldest (lineage_rows lid st))"

definition get_head_version :: "string \<Rightarrow> tool_store \<Rightarrow> tool_entry option" where
  "get_head_version lid st = map_option (row_to_entry st) (newest (lineage_rows lid st))"

definition head_rows :: "tool_store \<Rightarrow> tool_row list" where
  "head_rows st = filter (\<lambda>r. rw_branch r = main_branch \<and> rw_is_head r) (ts_rows st)"

definition stage_value :: "version_stage \<Rightarrow> string" where
  "stage_value s = (case s of Candidate \<Rightarrow> ''candidate'' | Stable \<Rightarrow> ''stable'')"

definition store_list_tools :: "string \<Rightarrow> string \<Rightarrow> tool_store \<Rightarrow> tool_entry list" where
  "store_list_tools stage origin st =
     map (row_to_entry st) (sort_key rw_tool_name
       (filter (\<lambda>r. (stage = [] \<or> stage_value (rw_stage r) = stage) \<and>
                   (origin = [] \<or> rw_origin r = origin_value (normalize_origin (Some origin)))) (head_rows st)))"

section \<open>Writing\<close>

definition name_rows :: "string \<Rightarrow> tool_store \<Rightarrow> tool_row list" where
  "name_rows name st = filter (\<lambda>r. rw_tool_name r = name) (ts_rows st)"

text \<open>\<open>upsert_tool\<close>: \<open>INSERT ... ON CONFLICT(tool_id) DO UPDATE\<close>, which leaves the head flag of an existing row alone.\<close>

definition upsert_version :: "tool_entry \<Rightarrow> string" where
  "upsert_version e =
     resolve_initial_version
       (Some (if te_version e \<noteq> [] then te_version e else td_version (te_definition e)))
       (Some (origin_value (normalize_origin (Some (te_origin e)))))"

definition on_conflict :: "tool_row \<Rightarrow> tool_row \<Rightarrow> tool_row" where
  "on_conflict new r =
     r\<lparr>rw_summary := rw_summary new, rw_definition := rw_definition new, rw_risk_level := rw_risk_level new,
       rw_required_permissions := rw_required_permissions new, rw_lineage_id := rw_lineage_id new,
       rw_summary_l2 := rw_summary_l2 new, rw_updated_at := rw_updated_at new\<rparr>"

definition insert_or_update :: "tool_row \<Rightarrow> tool_row list \<Rightarrow> tool_row list" where
  "insert_or_update new rows =
     (if \<exists>r \<in> set rows. rw_tool_id r = rw_tool_id new
      then map (\<lambda>r. if rw_tool_id r = rw_tool_id new then on_conflict new r else r) rows
      else rows @ [new])"

definition main_head :: "string \<Rightarrow> tool_store \<Rightarrow> tool_row option" where
  "main_head name st = newest (filter rw_is_head (branch_rows name main_branch st))"

definition upsert_row :: "store_env \<Rightarrow> tool_entry \<Rightarrow> tool_store \<Rightarrow> tool_row" where
  "upsert_row env e st =
     (let d = te_definition e; version = upsert_version e; name = te_tool_name e;
          head = main_head name st;
          summary = (if te_summary e \<noteq> [] then te_summary e else take 80 (td_description d))
      in \<lparr>rw_tool_id = tool_key name version, rw_tool_name = name, rw_version = version,
          rw_parent = (case head of Some h \<Rightarrow> Some (rw_tool_id h) | None \<Rightarrow> map_option rw_tool_id (newest (name_rows name st))),
          rw_provider_id = te_provider_id e, rw_summary = summary, rw_definition = d, rw_language = td_language d,
          rw_runtime = td_runtime d, rw_essential = te_essential e,
          rw_risk_level = (if td_risk_level d \<noteq> [] then td_risk_level d else ''low''),
          rw_required_permissions = td_required_permissions d,
          rw_lineage_id = (if te_lineage_id e \<noteq> [] then te_lineage_id e else name),
          rw_summary_l2 = (if te_summary_l2 e \<noteq> [] then te_summary_l2 e else generate_l2 (se_llm env) name summary),
          rw_branch = main_branch,
          rw_is_head = (case head of None \<Rightarrow> True
                          | Some h \<Rightarrow> \<not> (rw_version h \<noteq> [] \<and> 0 < compare_versions (rw_version h) version)),
          rw_diff_patch = None, rw_origin = origin_value (normalize_origin (Some (te_origin e))),
          rw_stage = stage_of version, rw_created_at = se_now env, rw_updated_at = se_now env\<rparr>)"

definition upsert_tool :: "store_env \<Rightarrow> tool_entry \<Rightarrow> tool_store \<Rightarrow> string \<times> tool_store" where
  "upsert_tool env e st =
     (let new = upsert_row env e st; i = rw_tool_id new;
          rows = insert_or_update new (ts_rows st);
          rows = (if rw_is_head new then demote_others (te_tool_name e) main_branch i rows else rows);
          st = st\<lparr>ts_rows := rows\<rparr>
      in (i, if te_embedding e \<noteq> [] then write_vec i ''l1'' (te_embedding e) st else st))"

definition delete_ids :: "string list \<Rightarrow> tool_store \<Rightarrow> tool_store" where
  "delete_ids ids st =
     \<lparr>ts_rows = filter (\<lambda>r. rw_tool_id r \<notin> set ids) (ts_rows st),
      ts_changelogs = filter (\<lambda>c. cl_tool_id c \<notin> set ids) (ts_changelogs st),
      ts_aliases = filter (\<lambda>(_, i). i \<notin> set ids) (ts_aliases st),
      ts_tags = filter (\<lambda>(i, _). i \<notin> set ids) (ts_tags st),
      ts_dependencies = filter (\<lambda>(i, j, _). i \<notin> set ids \<and> j \<notin> set ids) (ts_dependencies st),
      ts_vectors = ts_vectors (fold delete_vec ids st)\<rparr>"

definition delete_tool :: "string \<Rightarrow> string \<Rightarrow> tool_store \<Rightarrow> bool \<times> tool_store" where
  "delete_tool name version st =
     (if version \<noteq> [] then
        (let ids = map rw_tool_id (filter (\<lambda>r. rw_version r = version) (name_rows name st))
         in if ids = [] then (False, st) else (True, delete_ids ids st))
      else (True, delete_ids (map rw_tool_id (name_rows name st)) st))"

section \<open>Versions\<close>

text \<open>\<open>INSERT\<close> of a version and \<open>UPDATE\<close> of the head flags of its branch; \<open>None\<close>: the id exists.\<close>

definition commit_version :: "tool_row \<Rightarrow> tool_store \<Rightarrow> tool_store option" where
  "commit_version r st =
     (if row_by_id (rw_tool_id r) st \<noteq> None then None
      else Some (st\<lparr>ts_rows := demote_others (rw_tool_name r) (rw_branch r) (rw_tool_id r) (ts_rows st @ [r])\<rparr>))"

definition log_change :: "store_env \<Rightarrow> string \<Rightarrow> string \<Rightarrow> string \<Rightarrow> string \<Rightarrow> tool_store \<Rightarrow> tool_store" where
  "log_change env i change_type description source st =
     st\<lparr>ts_changelogs := ts_changelogs st @ [\<lparr>cl_tool_id = i, cl_change_type = change_type,
       cl_description = description, cl_created_at = se_now env, cl_source = source\<rparr>]\<rparr>"

definition bumped :: "string \<Rightarrow> string option \<Rightarrow> bump_type \<Rightarrow> string" where
  "bumped version kind bt = (if kind \<noteq> None \<and> kind \<noteq> Some [] then bump_for version kind else bump_version version bt)"

definition branch_key :: "string \<Rightarrow> string \<Rightarrow> string \<Rightarrow> string" where
  "branch_key name branch version =
     (if branch = main_branch then tool_key name version else name @ ''@'' @ branch @ ''/'' @ version)"

text \<open>The row that \<open>create_version\<close> inserts for the newest row of the branch.\<close>

definition version_row :: "store_env \<Rightarrow> string \<Rightarrow> tool_definition \<Rightarrow> bump_type \<Rightarrow> string \<Rightarrow> string option \<Rightarrow>
    tool_row \<Rightarrow> tool_row" where
  "version_row env name d bt branch kind old =
     (let version = bumped (rw_version old) kind bt; l1 = take 80 (td_description d)
      in \<lparr>rw_tool_id = branch_key name branch version, rw_tool_name = name, rw_version = version,
          rw_parent = Some (rw_tool_id old), rw_provider_id = rw_provider_id old, rw_summary = l1,
          rw_definition = d, rw_language = td_language d, rw_runtime = td_runtime d, rw_essential = rw_essential old,
          rw_risk_level = (if td_risk_level d \<noteq> [] then td_risk_level d else ''low''),
          rw_required_permissions = td_required_permissions d, rw_lineage_id = rw_lineage_id old,
          rw_summary_l2 = generate_l2 (se_llm env) name l1, rw_branch = branch, rw_is_head = True,
          rw_diff_patch = Some (dict_diff (definition_dict (rw_definition old)) (definition_dict d) []),
          rw_origin = rw_origin old, rw_stage = stage_of version, rw_created_at = se_now env,
          rw_updated_at = se_now env\<rparr>)"

definition create_version :: "store_env \<Rightarrow> string \<Rightarrow> tool_definition \<Rightarrow> string \<Rightarrow> bump_type \<Rightarrow> string \<Rightarrow>
    string option \<Rightarrow> tool_store \<Rightarrow> store_error + (string \<times> tool_store)" where
  "create_version env name d changelog bt branch kind st =
     (case newest (branch_rows name branch st) of
        None \<Rightarrow> Inl (ValueError ''not found'')
      | Some old \<Rightarrow>
          (let new = version_row env name d bt branch kind old; i = rw_tool_id new
           in case commit_version new st of
                None \<Rightarrow> Inl IntegrityError
              | Some st \<Rightarrow>
                  (let st = embed_row env i name (rw_summary new) (rw_summary_l2 new) st
                   in Inr (i, if changelog \<noteq> [] then log_change env i ''version_update'' changelog ''system'' st else st))))"

text \<open>The snapshot with which a branch starts.\<close>

definition branch_row :: "store_env \<Rightarrow> string \<Rightarrow> string \<Rightarrow> tool_row \<Rightarrow> tool_row" where
  "branch_row env name branch base =
     base\<lparr>rw_tool_id := name @ ''@'' @ branch @ ''/'' @ rw_version base, rw_parent := Some (rw_tool_id base),
       rw_branch := branch, rw_is_head := True, rw_diff_patch := Some no_diff, rw_created_at := se_now env,
       rw_updated_at := se_now env\<rparr>"

definition create_branch :: "store_env \<Rightarrow> string \<Rightarrow> string \<Rightarrow> string \<Rightarrow> tool_store \<Rightarrow>
    store_error + (string \<times> tool_store)" where
  "create_branch env name branch from_version st =
     (if branch = main_branch then Inl (ValueError ''reserved'')
      else if CHR ''/'' \<in> set branch \<or> CHR ''@'' \<in> set branch then Inl (ValueError ''invalid branch name'')
      else (case (if from_version \<noteq> []
                  then List.find (\<lambda>r. rw_version r = from_version) (branch_rows name main_branch st)
                  else newest (branch_rows name main_branch st)) of
              None \<Rightarrow> Inl (ValueError ''fork point not found'')
            | Some base \<Rightarrow>
                (let new = branch_row env name branch base; i = rw_tool_id new
                 in case commit_version new st of
                      None \<Rightarrow> Inl (ValueError ''branch already exists'')
                    | Some st \<Rightarrow> Inr (i, embed_row env i name (rw_summary base) (rw_summary_l2 base) st))))"

definition merge_log :: "string \<Rightarrow> string \<Rightarrow> string" where
  "merge_log source target = ''merge branch '' @ [CHR 0x27] @ source @ [CHR 0x27] @ '' into '' @ [CHR 0x27] @ target @ [CHR 0x27]"

definition merge_branch :: "store_env \<Rightarrow> string \<Rightarrow> string \<Rightarrow> string \<Rightarrow> tool_store \<Rightarrow>
    store_error + (string \<times> tool_store)" where
  "merge_branch env name source target st =
     (case (newest (branch_rows name source st), newest (branch_rows name target st)) of
        (Some theirs, Some ours) \<Rightarrow>
          (case (case oldest (branch_rows name source st) of None \<Rightarrow> None | Some r \<Rightarrow> rw_parent r) of
             None \<Rightarrow> Inl (ValueError ''no merge base'')
           | Some base_id \<Rightarrow>
               if base_id = [] then Inl (ValueError ''no merge base'')
               else (case row_by_id base_id st of
                       None \<Rightarrow> Inl (ValueError ''merge base not found'')
                     | Some base \<Rightarrow>
                         (case merge_dicts (definition_dict (rw_definition base)) (definition_dict (rw_definition ours))
                                 (definition_dict (rw_definition theirs)) of
                            (merged, conflicts) \<Rightarrow>
                              if conflicts \<noteq> [] then Inl (VersionConflict conflicts)
                              else (case definition_of_merged merged of
                                      None \<Rightarrow> Inl ValidationError
                                    | Some d \<Rightarrow> create_version env name d (merge_log source target) BumpMinor target None st))))
      | _ \<Rightarrow> Inl (ValueError ''branch not found''))"

definition rollback :: "store_env \<Rightarrow> string \<Rightarrow> string \<Rightarrow> tool_store \<Rightarrow> store_error + (string \<times> tool_store)" where
  "rollback env name to_version st =
     (case get_tool name to_version st of
        None \<Rightarrow> Inl (ValueError ''rollback target not found'')
      | Some target \<Rightarrow> create_version env name (te_definition target) (''rollback to '' @ to_version) BumpPatch main_branch None st)"

text \<open>The row of the promotion: the content of the newest version, the parent and origin of the flagged head.\<close>

definition promote_row :: "store_env \<Rightarrow> string \<Rightarrow> tool_entry \<Rightarrow> tool_row \<Rightarrow> tool_row" where
  "promote_row env name head parent =
     (let d = (te_definition head)\<lparr>td_version := STABLE_INITIAL_VERSION\<rparr>;
          summary = (if te_summary head \<noteq> [] then te_summary head else take 80 (td_description d))
      in \<lparr>rw_tool_id = tool_key name STABLE_INITIAL_VERSION, rw_tool_name = name, rw_version = STABLE_INITIAL_VERSION,
          rw_parent = Some (rw_tool_id parent), rw_provider_id = te_provider_id head, rw_summary = summary,
          rw_definition = d, rw_language = te_language head, rw_runtime = td_runtime (te_definition head),
          rw_essential = te_essential head, rw_risk_level = te_risk_level head,
          rw_required_permissions = te_required_permissions head,
          rw_lineage_id = (if te_lineage_id head \<noteq> [] then te_lineage_id head else name),
          rw_summary_l2 = (if te_summary_l2 head \<noteq> [] then te_summary_l2 head else take 30 summary),
          rw_branch = main_branch, rw_is_head = True,
          rw_diff_patch = Some (dict_diff (definition_dict (te_definition head)) (definition_dict d) []),
          rw_origin = origin_value (normalize_origin (Some (rw_origin parent))), rw_stage = Stable,
          rw_created_at = se_now env, rw_updated_at = se_now env\<rparr>)"

definition promote_log :: "string \<Rightarrow> string" where
  "promote_log evidence =
     ''promote to '' @ STABLE_INITIAL_VERSION @ (if evidence \<noteq> [] then '': '' @ evidence else [])"

definition promote_to_stable :: "store_env \<Rightarrow> string \<Rightarrow> string \<Rightarrow> tool_store \<Rightarrow> string option \<times> tool_store" where
  "promote_to_stable env name evidence st =
     (case get_head_version name st of
        None \<Rightarrow> (None, st)
      | Some head \<Rightarrow>
          if is_stable (te_version head) then (None, st)
          else (case main_head name st of
                  None \<Rightarrow> (None, st)
                | Some parent \<Rightarrow>
                    (let new = promote_row env name head parent; i = rw_tool_id new
                     in case commit_version new st of
                          None \<Rightarrow> (Some i, st)
                        | Some st \<Rightarrow>
                            (Some i, embed_row env i name (rw_summary new) (rw_summary_l2 new)
                               (log_change env i ''promote'' (promote_log evidence) ''system'' st)))))"

definition external_evidence :: string where
  "external_evidence = ''external: the first version is the stable 1.0.0''"

definition mark_external :: "store_env \<Rightarrow> string \<Rightarrow> tool_store \<Rightarrow> string option \<times> tool_store" where
  "mark_external env name st =
     (case get_head_version name st of
        None \<Rightarrow> (None, st)
      | Some head \<Rightarrow>
          (let st = st\<lparr>ts_rows := map (\<lambda>r. if rw_tool_name r = name then r\<lparr>rw_origin := origin_value External\<rparr> else r) (ts_rows st)\<rparr>
           in if \<not> is_stable (te_version head) then promote_to_stable env name external_evidence st
              else (Some (tool_key name (te_version head)), st)))"

section \<open>Version views\<close>

record tool_version =
  tv_version :: string
  tv_parent_version_id :: "string option"
  tv_definition :: tool_definition
  tv_created_at :: string
  tv_changelog :: string
  tv_branch :: string
  tv_is_head :: bool
  tv_diff_patch :: "diff option"
  tv_stage :: version_stage

definition version_view :: "tool_store \<Rightarrow> tool_row \<Rightarrow> tool_version" where
  "version_view st r =
     \<lparr>tv_version = rw_version r, tv_parent_version_id = rw_parent r, tv_definition = rw_definition r,
      tv_created_at = rw_created_at r,
      tv_changelog = join_with ''; '' (map cl_description
        (sort_key cl_created_at (filter (\<lambda>c. cl_tool_id c = rw_tool_id r) (ts_changelogs st)))),
      tv_branch = (if rw_branch r \<noteq> [] then rw_branch r else main_branch), tv_is_head = rw_is_head r,
      tv_diff_patch = rw_diff_patch r, tv_stage = stage_of (rw_version r)\<rparr>"

definition get_version_chain :: "string \<Rightarrow> tool_store \<Rightarrow> tool_version list" where
  "get_version_chain name st = map (version_view st) (rev (sort_key rw_created_at (branch_rows name main_branch st)))"

definition get_version_tree :: "string \<Rightarrow> tool_store \<Rightarrow> (string, tool_version list) dict" where
  "get_version_tree lid st =
     (let rows = filter (\<lambda>r. rw_lineage_id r = lid) (ts_rows st);
          rows = (if rows = [] then name_rows lid st else rows)
      in fold (\<lambda>v tree. dset (tv_branch v) ((case dget tree (tv_branch v) of None \<Rightarrow> [] | Some vs \<Rightarrow> vs) @ [v]) tree)
           (map (version_view st) (sort_key rw_created_at rows)) [])"

section \<open>Summaries, vectors and change logs of existing rows\<close>

definition add_changelog :: "store_env \<Rightarrow> string \<Rightarrow> string \<Rightarrow> string \<Rightarrow> string \<Rightarrow> tool_store \<Rightarrow>
    store_error + tool_store" where
  "add_changelog env name change_type description source st =
     (case newest (name_rows name st) of
        None \<Rightarrow> Inl (ValueError ''not found'')
      | Some r \<Rightarrow> Inr (log_change env (rw_tool_id r) change_type description source st))"

definition update_embedding :: "store_env \<Rightarrow> string \<Rightarrow> tool_store \<Rightarrow> tool_store" where
  "update_embedding env name st =
     (case newest (name_rows name st) of
        None \<Rightarrow> st
      | Some r \<Rightarrow> embed_row env (rw_tool_id r) name (rw_summary r) (rw_summary_l2 r) st)"

definition summarise :: "store_env \<Rightarrow> tool_row \<Rightarrow> tool_row" where
  "summarise env r =
     (let l1 = generate_l1 (se_llm env) (rw_tool_name r) (td_description (rw_definition r))
      in r\<lparr>rw_summary := l1, rw_summary_l2 := generate_l2 (se_llm env) (rw_tool_name r) l1, rw_updated_at := se_now env\<rparr>)"

definition rebuild_summaries :: "store_env \<Rightarrow> tool_store \<Rightarrow> nat \<times> tool_store" where
  "rebuild_summaries env st =
     (let rows = map (summarise env) (ts_rows st)
      in (length rows,
          fold (\<lambda>r. embed_row env (rw_tool_id r) (rw_tool_name r) (rw_summary r) (rw_summary_l2 r)) rows
            (st\<lparr>ts_rows := rows\<rparr>)))"

section \<open>Search\<close>

record cone =
  cn_exclude :: "string list"
  cn_tags :: "string list"
  cn_risk_ceiling :: string
  cn_exclude_lineages :: "string list"

definition cone_where :: "cone \<Rightarrow> tool_store \<Rightarrow> tool_row \<Rightarrow> bool" where
  "cone_where c st r \<longleftrightarrow>
     risk_rank (rw_risk_level r) \<le> risk_rank (cn_risk_ceiling c) \<and> rw_tool_name r \<notin> set (cn_exclude c) \<and>
     (cn_exclude_lineages c = [] \<or> rw_lineage_id r = [] \<or> rw_lineage_id r \<notin> set (cn_exclude_lineages c)) \<and>
     (cn_tags c = [] \<or> list_ex (\<lambda>(i, tag). i = rw_tool_id r \<and> tag \<in> set (cn_tags c)) (ts_tags st))"

text \<open>\<open>_make_search_result\<close>; \<open>None\<close>: the validation of the score raises.\<close>

definition make_search_result :: "tool_row \<Rightarrow> rat \<Rightarrow> tool_search_result option" where
  "make_search_result r score =
     (if 0 \<le> score \<and> score \<le> 1
      then Some \<lparr>sr_tool_name = rw_tool_name r, sr_definition = Some (rw_definition r), sr_score = score,
             sr_summary = (if rw_summary r \<noteq> [] then rw_summary r else take 80 (td_description (rw_definition r))),
             sr_risk_level = (if rw_risk_level r \<noteq> [] then rw_risk_level r else ''low''),
             sr_required_permissions = rw_required_permissions r,
             sr_lineage_id = (if rw_lineage_id r \<noteq> [] then rw_lineage_id r else rw_tool_name r)\<rparr>
      else None)"

text \<open>Sorting by descending score and the first \<open>top_k\<close>; \<open>None\<close> if a result raises.\<close>

definition ranked :: "int \<Rightarrow> (tool_row \<times> rat) list \<Rightarrow> tool_search_result list option" where
  "ranked top_k scored =
     map_option (\<lambda>rs. slice_to top_k (sort_desc sr_score rs))
       (those (map (\<lambda>(r, score). make_search_result r score) scored))"

definition row_score :: "string \<Rightarrow> tool_row \<Rightarrow> rat" where
  "row_score query r =
     (let query_tokens = tokens (lower query);
          text_tokens = tokens (lower (rw_tool_name r @ '' '' @ td_description (rw_definition r) @ '' '' @ rw_summary r));
          overlap = filter (\<lambda>t. t \<in> set text_tokens) query_tokens
      in of_nat (length overlap) / of_nat (max (length query_tokens) 1))"

definition store_keyword_search :: "string \<Rightarrow> int \<Rightarrow> cone \<Rightarrow> tool_store \<Rightarrow> tool_search_result list option" where
  "store_keyword_search query top_k c st =
     ranked top_k (map (\<lambda>r. (r, min (row_score query r) 1))
       (filter (\<lambda>r. 0 < row_score query r) (filter (cone_where c st) (head_rows st))))"

text \<open>The rows of a level that have a vector, in the order of the vector table.\<close>

definition vec_rows :: "string \<Rightarrow> cone \<Rightarrow> tool_store \<Rightarrow> (tool_row \<times> rat list) list" where
  "vec_rows level c st =
     List.map_filter (\<lambda>((i, l), vec). if l = level then
         (case row_by_id i st of None \<Rightarrow> None | Some r \<Rightarrow> if cone_where c st r then Some (r, vec) else None)
       else None) (ts_vectors st)"

definition json_search :: "store_env \<Rightarrow> rat list \<Rightarrow> int \<Rightarrow> rat \<Rightarrow> cone \<Rightarrow> string \<Rightarrow> tool_store \<Rightarrow>
    tool_search_result list option" where
  "json_search env query_vec top_k min_score c index_level st =
     (let level = (if index_level = ''l2'' then ''l2'' else ''l1''); rows = vec_rows level c st;
          rows = (if rows = [] \<and> level = ''l2'' then vec_rows ''l1'' c st else rows)
      in ranked top_k (filter (\<lambda>(_, score). min_score \<le> score)
           (map (\<lambda>(r, vec). (r, se_similarity env query_vec vec)) rows)))"

definition search_cone :: "store_env \<Rightarrow> string \<Rightarrow> int \<Rightarrow> rat \<Rightarrow> cone \<Rightarrow> string \<Rightarrow> tool_store \<Rightarrow>
    tool_search_result list option" where
  "search_cone env query top_k min_score c index_level st =
     (case (case se_embed env of None \<Rightarrow> None | Some emb \<Rightarrow> emb query) of
        None \<Rightarrow> store_keyword_search query top_k c st
      | Some query_vec \<Rightarrow> json_search env query_vec top_k min_score c index_level st)"

definition store_search :: "store_env \<Rightarrow> string \<Rightarrow> int \<Rightarrow> rat \<Rightarrow> string list \<Rightarrow> tool_store \<Rightarrow>
    tool_search_result list option" where
  "store_search env query top_k min_score exclude st =
     search_cone env query top_k min_score
       \<lparr>cn_exclude = exclude, cn_tags = [], cn_risk_ceiling = ''critical'', cn_exclude_lineages = []\<rparr> ''l1'' st"

section \<open>Aliases, tags and dependencies\<close>

definition add_alias :: "string \<Rightarrow> string \<Rightarrow> string \<Rightarrow> tool_store \<Rightarrow> store_error + tool_store" where
  "add_alias alias name version st =
     (if row_by_id (tool_key name version) st = None then Inl IntegrityError
      else Inr (st\<lparr>ts_aliases := dset alias (tool_key name version) (ts_aliases st)\<rparr>))"

definition resolve_alias :: "string \<Rightarrow> tool_store \<Rightarrow> tool_entry option" where
  "resolve_alias alias st =
     (case dget (ts_aliases st) alias of
        None \<Rightarrow> None
      | Some i \<Rightarrow> map_option (row_to_entry st) (row_by_id i st))"

definition add_tag :: "string \<Rightarrow> string \<Rightarrow> tool_store \<Rightarrow> tool_store" where
  "add_tag name tag st =
     (case newest (name_rows name st) of
        None \<Rightarrow> st
      | Some r \<Rightarrow> if (rw_tool_id r, tag) \<in> set (ts_tags st) then st
                  else st\<lparr>ts_tags := ts_tags st @ [(rw_tool_id r, tag)]\<rparr>)"

definition search_by_tags :: "string list \<Rightarrow> tool_store \<Rightarrow> tool_entry list" where
  "search_by_tags tags st =
     map (row_to_entry st) (sort_key rw_tool_name
       (filter (\<lambda>r. list_ex (\<lambda>(i, tag). i = rw_tool_id r \<and> tag \<in> set tags) (ts_tags st)) (ts_rows st)))"

definition add_dependency :: "string \<Rightarrow> string \<Rightarrow> string \<Rightarrow> tool_store \<Rightarrow> tool_store" where
  "add_dependency name depends_on dep_type st =
     (case (newest (name_rows name st), newest (name_rows depends_on st)) of
        (Some src, Some dst) \<Rightarrow>
          if list_ex (\<lambda>(i, j, _). i = rw_tool_id src \<and> j = rw_tool_id dst) (ts_dependencies st) then st
          else st\<lparr>ts_dependencies := ts_dependencies st @ [(rw_tool_id src, rw_tool_id dst, dep_type)]\<rparr>
      | _ \<Rightarrow> st)"

section \<open>Call paths\<close>

text \<open>
  \<open>mcp/version_router.py\<close>: the version a caller gets. The skill store is a lookup of the skill that
  a tool is bound to; \<open>None\<close> where none is injected.
\<close>

datatype call_path_source = SKILL | CROSS_DOMAIN | DIRECT

definition resolve_path :: "(string \<Rightarrow> bool) option \<Rightarrow> string \<Rightarrow> call_path_source \<Rightarrow> tool_store \<Rightarrow> tool_entry option" where
  "resolve_path skill_bound name source st =
     (if source = SKILL \<and> (case skill_bound of None \<Rightarrow> True | Some b \<Rightarrow> b name)
      then get_root_version name st else get_head_version name st)"

definition resolve_tool_id :: "(string \<Rightarrow> bool) option \<Rightarrow> string \<Rightarrow> call_path_source \<Rightarrow> tool_store \<Rightarrow> string option" where
  "resolve_tool_id skill_bound name source st =
     map_option (\<lambda>e. tool_key (te_tool_name e) (te_version e)) (resolve_path skill_bound name source st)"

end
