(* ===== verification/StoreInv.thy ===== *)
theory StoreInv
  imports ToolStore
begin

text \<open>
  The tables of the tool store: definitions survive their JSON form, the key of a row determines its
  name, branch and version, and every operation keeps the invariant of the tables (\<open>store_inv\<close>): keys
  are unique, a branch of a tool has at most one head, and what refers to a row refers to one that
  exists. \<open>sto\<close> interprets the interface of components as transition systems.
\<close>

section \<open>Round trip of definitions\<close>

lemma those_map_Some: "those (map (\<lambda>x. f (g x)) xs) = Some xs" if "\<And>x. x \<in> set xs \<Longrightarrow> f (g x) = Some x"
  using that by (induction xs) auto

lemma those_Some_map [simp]: "those (map Some xs) = Some xs"
  by (induction xs) auto

lemma str_value_JStr [simp]: "str_value \<circ> JStr = Some"
  by (simp add: fun_eq_iff)

text \<open>A parameter whose \<open>items\<close> is a dictionary, as pydantic's type \<open>dict | None\<close> demands.\<close>

definition param_ok :: "tool_parameter \<Rightarrow> bool" where
  "param_ok p \<longleftrightarrow> (case tp_items p of None \<Rightarrow> True | Some (JObj _) \<Rightarrow> True | _ \<Rightarrow> False)"

definition definition_ok :: "tool_definition \<Rightarrow> bool" where
  "definition_ok d \<longleftrightarrow> list_all param_ok (td_parameters d)"

lemma param_roundtrip: "param_ok p \<Longrightarrow> param_of_json (param_json p) = Some p"
  by (cases p) (auto simp: param_json_def param_ok_def field_def optional_def option_json_def split: option.splits json.splits)

lemma definition_roundtrip: "definition_ok d \<Longrightarrow> definition_of_dict (definition_dict d) = Some d"
proof -
  assume "definition_ok d"
  then have p: "those (map (\<lambda>p. param_of_json (param_json p)) (td_parameters d)) = Some (td_parameters d)"
    by (intro those_map_Some param_roundtrip) (simp add: definition_ok_def list_all_iff)
  show ?thesis
    by (cases d; use p in \<open>auto simp: definition_dict_def definition_of_dict_def field_def optional_def option_json_def o_def split: option.splits\<close>)
qed

section \<open>Rows\<close>

lemma newest_step: "fold (\<lambda>r best. case best of None \<Rightarrow> Some r
     | Some b \<Rightarrow> if rw_created_at b \<le> rw_created_at r then Some r else Some b) rows best = Some x \<Longrightarrow>
   x \<in> set rows \<or> best = Some x"
  by (induction rows arbitrary: best) (auto split: option.splits if_splits)

lemma newest_mem: "newest rows = Some r \<Longrightarrow> r \<in> set rows"
  unfolding newest_def by (drule newest_step) simp

lemma newest_append: "newest (rows @ [r]) = Some r" if "\<forall>x \<in> set rows. rw_created_at x \<le> rw_created_at r"
proof (cases "newest rows")
  case None
  then show ?thesis by (simp add: newest_def)
next
  case (Some b)
  with that newest_mem [OF Some] show ?thesis by (simp add: newest_def)
qed

lemma newest_None: "newest rows = None \<longleftrightarrow> rows = []"
proof -
  have "fold (\<lambda>r best. case best of None \<Rightarrow> Some r
     | Some b \<Rightarrow> if rw_created_at b \<le> rw_created_at r then Some r else Some b) rows (Some b) \<noteq> None" for b rows
    by (induction rows arbitrary: b) auto
  then show ?thesis by (cases rows) (auto simp: newest_def)
qed

text \<open>What an update may do to a row: everything but the identity, the content and the history of the row is kept.\<close>

lemma demote_fields [simp]:
  "map rw_tool_id (demote_others n b i rows) = map rw_tool_id rows"
  "map rw_definition (demote_others n b i rows) = map rw_definition rows"
  "map rw_version (demote_others n b i rows) = map rw_version rows"
  by (simp_all add: demote_others_def o_def if_distrib cong: if_cong)

lemma row_by_id_mem: "row_by_id i st = Some r \<Longrightarrow> r \<in> set (ts_rows st) \<and> rw_tool_id r = i"
  by (auto simp: row_by_id_def find_Some_iff)

lemma row_by_id_None: "row_by_id i st = None \<longleftrightarrow> i \<notin> rw_tool_id ` set (ts_rows st)"
  by (auto simp: row_by_id_def find_None_iff)

lemma row_by_id_unique:
  "distinct (map rw_tool_id (ts_rows st)) \<Longrightarrow> r \<in> set (ts_rows st) \<Longrightarrow> row_by_id (rw_tool_id r) st = Some r"
  unfolding row_by_id_def
proof (induction "ts_rows st" arbitrary: st)
  case (Cons x xs)
  from Cons(1) [of "st\<lparr>ts_rows := xs\<rparr>"] Cons(2) [symmetric] Cons(3,4) show ?case by auto
qed simp

section \<open>Keys\<close>

text \<open>The key of a row determines its name, branch and version: versions and branch names hold no separator.\<close>

definition key_char :: "char \<Rightarrow> bool" where
  "key_char c \<longleftrightarrow> c \<noteq> CHR ''@'' \<and> c \<noteq> CHR ''/''"

lemma key_char_simps: "is_space c \<Longrightarrow> key_char c" "is_digit c \<Longrightarrow> key_char c"
  by (auto simp: key_char_def is_space_def is_digit_def)

lemma digits_tail_chars: "digits_tail a cs = Some n \<Longrightarrow> list_all key_char cs"
  by (induction a cs rule: digits_tail.induct) (auto simp: key_char_simps split: if_splits list.splits, auto simp: key_char_def)

lemma parse_digits_chars: "parse_digits cs = Some n \<Longrightarrow> list_all key_char cs"
  by (cases cs) (auto simp: key_char_simps digits_tail_chars split: if_splits)

lemma strip_chars: "list_all key_char (strip s) \<Longrightarrow> list_all key_char s"
proof -
  have d: "list_all key_char (dropWhile is_space xs) \<Longrightarrow> list_all key_char xs" for xs
    by (induction xs) (auto simp: key_char_simps split: if_splits)
  assume "list_all key_char (strip s)"
  then show ?thesis unfolding strip_def list_all_rev by (auto dest!: d)
qed

lemma parse_int_chars: "parse_int s = Some n \<Longrightarrow> list_all key_char s"
  by (rule strip_chars)
    (auto simp: parse_int_def simp del: parse_digits.simps dest!: parse_digits_chars split: list.splits if_splits,
      auto simp: key_char_def)

lemma split_on_chars: "list_all (list_all key_char) (split_on (CHR ''.'') s) \<Longrightarrow> list_all key_char s"
proof (induction s)
  case (Cons x s)
  then show ?case by (auto simp: key_char_def split: if_splits list.splits)
qed simp

lemma valid_version_chars: "is_valid_semver v \<Longrightarrow> list_all key_char v"
  unfolding is_valid_semver_def
  by (rule strip_chars, rule split_on_chars)
    (auto simp: parse_semver_def dest!: parse_int_chars split: list.splits option.splits)

lemma show_int_chars [simp]: "list_all key_char (show_int i)"
  using show_nat_digits by (auto simp: show_int_def list_all_iff key_char_simps, auto simp: key_char_def key_char_simps)

lemma render_chars [simp]: "list_all key_char (render_semver a b c)"
  by (simp add: render_semver_def, auto simp: key_char_def)

lemma bumped_chars: "list_all key_char (bumped v kind bt)"
  by (simp add: bumped_def bump_for_def bump_version_def generated_initial_render Let_def
      split: option.split list.split bump_type.split)

lemma first_separator: "c \<notin> set xs \<Longrightarrow> c \<notin> set xs' \<Longrightarrow> xs @ c # ys = xs' @ c # ys' \<longleftrightarrow> xs = xs' \<and> ys = ys'"
proof (induction xs arbitrary: xs')
  case Nil
  then show ?case by (cases xs') auto
next
  case (Cons x xs)
  then show ?case by (cases xs') auto
qed

lemma last_separator:
  assumes "xs @ c # ys = xs' @ c # ys'" and "c \<notin> set ys" and "c \<notin> set ys'"
  shows "xs = xs' \<and> ys = ys'"
proof -
  have "rev (xs @ c # ys) = rev (xs' @ c # ys')" by (simp only: assms(1))
  then have "rev ys @ c # rev xs = rev ys' @ c # rev xs'" by simp
  with assms(2,3) first_separator [of c "rev ys" "rev ys'" "rev xs" "rev xs'"] show ?thesis by simp
qed

lemma branch_key_inj:
  assumes "branch_key n b v = branch_key n' b' v'"
    and "list_all key_char b" "list_all key_char v" "list_all key_char b'" "list_all key_char v'"
  shows "n = n' \<and> b = b' \<and> v = v'"
proof -
  define s where "s = (\<lambda>b v. if b = main_branch then v else b @ CHR ''/'' # v)"
  have k: "branch_key n b v = n @ CHR ''@'' # s b v" for n b v
    by (simp add: branch_key_def tool_key_def s_def)
  have c: "CHR ''@'' \<notin> set xs \<and> CHR ''/'' \<notin> set xs" if "list_all key_char xs" for xs
    using that by (induction xs) (auto simp: key_char_def)
  note a = assms(2-) [THEN c]
  have "CHR ''@'' \<notin> set (s b v)" "CHR ''@'' \<notin> set (s b' v')" using a by (simp_all add: s_def)
  with assms(1) last_separator [of n "CHR ''@''" "s b v" n' "s b' v'"] have "n = n'" "s b v = s b' v'"
    by (simp_all add: k)
  moreover have "b = b' \<and> v = v'"
  proof (cases "b = main_branch"; cases "b' = main_branch")
    assume "b = main_branch" "b' \<noteq> main_branch"
    with \<open>s b v = s b' v'\<close> have "v = b' @ CHR ''/'' # v'" by (simp add: s_def)
    with a show ?thesis by simp
  next
    assume "b \<noteq> main_branch" "b' = main_branch"
    with \<open>s b v = s b' v'\<close> have "v' = b @ CHR ''/'' # v" by (simp add: s_def)
    with a show ?thesis by simp
  next
    assume "b \<noteq> main_branch" "b' \<noteq> main_branch"
    with \<open>s b v = s b' v'\<close> a first_separator [of "CHR ''/''" b b' v v'] show ?thesis by (simp add: s_def)
  qed (use \<open>s b v = s b' v'\<close> in \<open>simp add: s_def\<close>)
  ultimately show ?thesis by simp
qed

section \<open>The invariant\<close>

definition row_ok :: "tool_row \<Rightarrow> bool" where
  "row_ok r \<longleftrightarrow> rw_tool_id r = branch_key (rw_tool_name r) (rw_branch r) (rw_version r) \<and>
     list_all key_char (rw_branch r) \<and> list_all key_char (rw_version r) \<and> rw_stage r = stage_of (rw_version r)"

definition row_ids :: "tool_store \<Rightarrow> string set" where
  "row_ids st = rw_tool_id ` set (ts_rows st)"

text \<open>At most one head per name and branch.\<close>

definition one_head :: "tool_row list \<Rightarrow> bool" where
  "one_head rows \<longleftrightarrow> (\<forall>r \<in> set rows. \<forall>s \<in> set rows. rw_is_head r \<and> rw_is_head s \<and>
     rw_tool_name r = rw_tool_name s \<and> rw_branch r = rw_branch s \<longrightarrow> rw_tool_id r = rw_tool_id s)"

lemma one_headD: "one_head rows \<Longrightarrow> r \<in> set rows \<Longrightarrow> s \<in> set rows \<Longrightarrow> rw_is_head r \<Longrightarrow> rw_is_head s \<Longrightarrow>
    rw_tool_name r = rw_tool_name s \<Longrightarrow> rw_branch r = rw_branch s \<Longrightarrow> rw_tool_id r = rw_tool_id s"
  unfolding one_head_def by blast

text \<open>The foreign keys: change logs, aliases, tags, dependencies and vectors belong to rows that exist.\<close>

definition referenced :: "tool_store \<Rightarrow> string set" where
  "referenced st = cl_tool_id ` set (ts_changelogs st) \<union> snd ` set (ts_aliases st) \<union> fst ` set (ts_tags st) \<union>
     fst ` set (ts_dependencies st) \<union> (\<lambda>p. fst (snd p)) ` set (ts_dependencies st) \<union>
     (\<lambda>p. fst (fst p)) ` set (ts_vectors st)"

definition references_ok :: "tool_store \<Rightarrow> bool" where
  "references_ok st \<longleftrightarrow> referenced st \<subseteq> row_ids st"

definition store_inv :: "tool_store \<Rightarrow> bool" where
  "store_inv st \<longleftrightarrow> distinct (map rw_tool_id (ts_rows st)) \<and> list_all row_ok (ts_rows st) \<and>
     one_head (ts_rows st) \<and> references_ok st"

lemma store_inv_new: "store_inv new_store"
  by (simp add: store_inv_def new_store_def one_head_def references_ok_def referenced_def)

lemma referenced_rows [simp]: "referenced (st\<lparr>ts_rows := rows\<rparr>) = referenced st"
  by (simp add: referenced_def)

lemma demote_mem: "r \<in> set (demote_others n b i rows) \<longleftrightarrow> (\<exists>s \<in> set rows. r =
    (if rw_tool_name s = n \<and> rw_branch s = b \<and> rw_tool_id s \<noteq> i then s\<lparr>rw_is_head := False\<rparr> else s))"
  by (simp only: demote_others_def set_map image_iff)

lemma demote_ids [simp]: "rw_tool_id ` set (demote_others n b i rows) = rw_tool_id ` set rows"
  by (metis demote_fields(1) list.set_map)

lemma demote_row_ok: "list_all row_ok rows \<Longrightarrow> list_all row_ok (demote_others n b i rows)"
proof -
  have "row_ok (if c then r\<lparr>rw_is_head := False\<rparr> else r) = row_ok r" for c r by (simp add: row_ok_def)
  then show "list_all row_ok rows \<Longrightarrow> list_all row_ok (demote_others n b i rows)"
    by (simp add: demote_others_def list.pred_map o_def)
qed

lemma demote_head: "r \<in> set (demote_others n b i rows) \<Longrightarrow> rw_is_head r \<Longrightarrow>
    r \<in> set rows \<and> (rw_tool_name r = n \<and> rw_branch r = b \<longrightarrow> rw_tool_id r = i)"
proof -
  assume "r \<in> set (demote_others n b i rows)" and h: "rw_is_head r"
  then obtain s where s: "s \<in> set rows"
      "r = (if rw_tool_name s = n \<and> rw_branch s = b \<and> rw_tool_id s \<noteq> i then s\<lparr>rw_is_head := False\<rparr> else s)"
    unfolding demote_mem by blast
  with h have "\<not> (rw_tool_name s = n \<and> rw_branch s = b \<and> rw_tool_id s \<noteq> i)" by (auto split: if_splits)
  with s show ?thesis by (simp only: if_False) auto
qed

text \<open>After the update at most the row \<open>i\<close> is a head of its branch, and the other branches are as before.\<close>

lemma demote_one_head:
  assumes "\<And>r s. r \<in> set rows \<Longrightarrow> s \<in> set rows \<Longrightarrow> rw_is_head r \<Longrightarrow> rw_is_head s \<Longrightarrow>
      rw_tool_name r = rw_tool_name s \<Longrightarrow> rw_branch r = rw_branch s \<Longrightarrow>
      \<not> (rw_tool_name r = n \<and> rw_branch r = b) \<Longrightarrow> rw_tool_id r = rw_tool_id s"
  shows "one_head (demote_others n b i rows)"
  unfolding one_head_def using demote_head assms by (metis (no_types))

lemma references_mono:
  "references_ok st \<Longrightarrow> referenced st' \<subseteq> referenced st \<union> row_ids st' \<Longrightarrow> row_ids st \<subseteq> row_ids st' \<Longrightarrow> references_ok st'"
  unfolding references_ok_def by blast

lemma commit_inv:
  assumes "store_inv st" and "row_ok r" and "commit_version r st = Some st'"
  shows "store_inv st'" and "rw_tool_id r \<in> row_ids st'"
proof -
  let ?rows = "demote_others (rw_tool_name r) (rw_branch r) (rw_tool_id r) (ts_rows st @ [r])"
  from assms(3) have fresh: "row_by_id (rw_tool_id r) st = None" and st': "st' = st\<lparr>ts_rows := ?rows\<rparr>"
    by (auto simp: commit_version_def split: if_splits)
  have "distinct (map rw_tool_id ?rows)" using assms(1) fresh by (simp add: store_inv_def row_by_id_None)
  moreover have "list_all row_ok ?rows" using assms(1,2) by (intro demote_row_ok) (simp add: store_inv_def)
  moreover have "one_head ?rows"
  proof (rule demote_one_head, goal_cases)
    case (1 a s)
    have "a \<in> set (ts_rows st)" "s \<in> set (ts_rows st)" using 1 by auto
    with 1 assms(1) show ?case unfolding store_inv_def one_head_def by blast
  qed
  moreover have "references_ok st'"
    by (rule references_mono [of st])
      (use assms(1) in \<open>simp_all add: store_inv_def st' row_ids_def subset_insertI Un_upper1 le_supI1 subset_insertI2\<close>)
  ultimately show "store_inv st'" by (simp add: store_inv_def st')
  show "rw_tool_id r \<in> row_ids st'" by (simp add: st' row_ids_def)
qed

lemma store_inv_refs:
  assumes "store_inv st" and "ts_rows st' = ts_rows st" and "referenced st' \<subseteq> referenced st \<union> row_ids st"
  shows "store_inv st'"
proof -
  have "references_ok st'"
    by (rule references_mono [of st]) (use assms in \<open>simp_all add: store_inv_def row_ids_def\<close>)
  with assms(1,2) show ?thesis by (simp add: store_inv_def)
qed

lemma write_vec_inv: "store_inv st \<Longrightarrow> i \<in> row_ids st \<Longrightarrow> store_inv (write_vec i l v st) \<and> row_ids (write_vec i l v st) = row_ids st"
proof -
  assume st: "store_inv st" and i: "i \<in> row_ids st"
  have "set (dset (i, l) v d) \<subseteq> insert ((i, l), v) (set d)" for d
    by (induction d) auto
  then have s: "(\<lambda>p. fst (fst p)) ` set (dset (i, l) v d) \<subseteq> insert i ((\<lambda>p. fst (fst p)) ` set d)" for d
    by fastforce
  have "store_inv (write_vec i l v st)"
    by (rule store_inv_refs [OF st]) (use i s [of "ts_vectors st"] in \<open>simp_all add: write_vec_def referenced_def, blast+\<close>)
  then show ?thesis by (simp add: write_vec_def row_ids_def)
qed

lemma embed_row_inv: "store_inv st \<Longrightarrow> i \<in> row_ids st \<Longrightarrow>
    store_inv (embed_row env i n l1 l2 st) \<and> row_ids (embed_row env i n l1 l2 st) = row_ids st"
  by (simp add: embed_row_def Let_def write_vec_inv split: option.split)

lemma log_change_inv: "store_inv st \<Longrightarrow> i \<in> row_ids st \<Longrightarrow>
    store_inv (log_change env i t d s st) \<and> row_ids (log_change env i t d s st) = row_ids st"
  by (rule conjI, erule store_inv_refs) (auto simp: log_change_def referenced_def row_ids_def)

lemma embed_row_rows [simp]: "ts_rows (embed_row env i n l1 l2 st) = ts_rows st"
  by (simp add: embed_row_def Let_def write_vec_def split: option.split)

lemma log_change_rows [simp]: "ts_rows (log_change env i t d s st) = ts_rows st"
  by (simp add: log_change_def)

text \<open>Updates that leave the key and the flags of the rows alone.\<close>

lemma map_rows_inv:
  assumes "store_inv st" and "\<And>r. rw_tool_id (f r) = rw_tool_id r" "\<And>r. rw_tool_name (f r) = rw_tool_name r"
    "\<And>r. rw_branch (f r) = rw_branch r" "\<And>r. rw_version (f r) = rw_version r"
    "\<And>r. rw_is_head (f r) = rw_is_head r" "\<And>r. rw_stage (f r) = rw_stage r"
  shows "store_inv (st\<lparr>ts_rows := map f (ts_rows st)\<rparr>)" and "row_ids (st\<lparr>ts_rows := map f (ts_rows st)\<rparr>) = row_ids st"
proof -
  have "row_ok (f r) = row_ok r" for r by (simp add: row_ok_def assms)
  then have "list_all row_ok (map f (ts_rows st))" using assms(1) by (simp add: store_inv_def list.pred_map o_def)
  moreover have "one_head (map f (ts_rows st))"
    unfolding one_head_def
  proof (intro ballI impI, elim conjE)
    fix r s
    assume "r \<in> set (map f (ts_rows st))" "s \<in> set (map f (ts_rows st))" and h: "rw_is_head r" "rw_is_head s"
      "rw_tool_name r = rw_tool_name s" "rw_branch r = rw_branch s"
    then obtain r' s' where rs: "r' \<in> set (ts_rows st)" "r = f r'" "s' \<in> set (ts_rows st)" "s = f s'" by auto
    with h have "rw_is_head r'" "rw_is_head s'" "rw_tool_name r' = rw_tool_name s'" "rw_branch r' = rw_branch s'"
      by (simp_all only: assms(2-))
    moreover have "one_head (ts_rows st)" using assms(1) by (simp add: store_inv_def)
    ultimately have "rw_tool_id r' = rw_tool_id s'" using rs(1,3) by (intro one_headD)
    then show "rw_tool_id r = rw_tool_id s" by (simp only: rs assms(2))
  qed
  moreover have "map rw_tool_id (map f (ts_rows st)) = map rw_tool_id (ts_rows st)" by (simp add: assms(2))
  moreover have r: "row_ids (st\<lparr>ts_rows := map f (ts_rows st)\<rparr>) = row_ids st"
    by (simp add: row_ids_def image_image assms(2))
  ultimately show "store_inv (st\<lparr>ts_rows := map f (ts_rows st)\<rparr>)"
    using assms(1) by (simp add: store_inv_def references_ok_def o_def assms(2))
  show "row_ids (st\<lparr>ts_rows := map f (ts_rows st)\<rparr>) = row_ids st" by (rule r)
qed

lemma upsert_row_fields:
  "rw_tool_id (upsert_row env e st) = tool_key (te_tool_name e) (upsert_version e)"
  "rw_tool_name (upsert_row env e st) = te_tool_name e" "rw_branch (upsert_row env e st) = main_branch"
  "rw_version (upsert_row env e st) = upsert_version e" "rw_definition (upsert_row env e st) = te_definition e"
  "rw_stage (upsert_row env e st) = stage_of (upsert_version e)"
  "rw_created_at (upsert_row env e st) = se_now env"
  "rw_is_head (upsert_row env e st) \<longleftrightarrow> (\<forall>h. main_head (te_tool_name e) st = Some h \<longrightarrow>
     \<not> (rw_version h \<noteq> [] \<and> 0 < compare_versions (rw_version h) (upsert_version e)))"
  by (simp_all add: upsert_row_def Let_def, simp split: option.split)

lemma main_chars [simp]: "list_all key_char main_branch"
  by (simp add: main_branch_def key_char_def)

lemma upsert_row_ok: "row_ok (upsert_row env e st)"
  by (simp add: row_ok_def upsert_row_fields branch_key_def upsert_version_def valid_version_chars resolve_valid)

lemma on_conflict_fields [simp]:
  "rw_tool_id (on_conflict n r) = rw_tool_id r" "rw_tool_name (on_conflict n r) = rw_tool_name r"
  "rw_branch (on_conflict n r) = rw_branch r" "rw_version (on_conflict n r) = rw_version r"
  "rw_is_head (on_conflict n r) = rw_is_head r" "rw_stage (on_conflict n r) = rw_stage r"
  "rw_created_at (on_conflict n r) = rw_created_at r"
  by (simp_all add: on_conflict_def)

text \<open>The head flags after an upsert: the row is the only head of its branch, or the flags are those before.\<close>

lemma main_head_mem: "main_head n st = Some h \<Longrightarrow>
    h \<in> set (ts_rows st) \<and> rw_is_head h \<and> rw_tool_name h = n \<and> rw_branch h = main_branch"
  unfolding main_head_def by (drule newest_mem) (simp add: branch_rows_def)

lemma insert_rows_inv:
  assumes "store_inv st" and "row_ok new" and "rw_branch new = main_branch"
    and st': "st' = st\<lparr>ts_rows := (if rw_is_head new
        then demote_others (rw_tool_name new) main_branch (rw_tool_id new) (insert_or_update new (ts_rows st))
        else insert_or_update new (ts_rows st))\<rparr>"
  shows "store_inv st' \<and> row_ids st' = insert (rw_tool_id new) (row_ids st)"
proof (cases "\<exists>r \<in> set (ts_rows st). rw_tool_id r = rw_tool_id new")
  case True
  let ?f = "\<lambda>r. if rw_tool_id r = rw_tool_id new then on_conflict new r else r"
  let ?st = "st\<lparr>ts_rows := map ?f (ts_rows st)\<rparr>"
  have upd: "insert_or_update new (ts_rows st) = map ?f (ts_rows st)"
    using True by (simp add: insert_or_update_def)
  have inv: "store_inv ?st" "row_ids ?st = row_ids st"
    by (rule map_rows_inv [OF assms(1)]; simp)+
  have ids: "insert (rw_tool_id new) (row_ids st) = row_ids st" 
    using True unfolding row_ids_def by (intro insert_absorb) (simp only: image_iff, metis)
  show ?thesis
  proof (cases "rw_is_head new")
    case False
    then show ?thesis using inv ids unfolding st' upd by simp
  next
    case h: True
    let ?rows = "demote_others (rw_tool_name new) main_branch (rw_tool_id new) (map ?f (ts_rows st))"
    have "one_head ?rows"
    proof (rule demote_one_head)
      have "one_head (map ?f (ts_rows st))" using inv(1) by (simp add: store_inv_def)
      then show "r \<in> set (map ?f (ts_rows st)) \<Longrightarrow> s \<in> set (map ?f (ts_rows st)) \<Longrightarrow> rw_is_head r \<Longrightarrow> rw_is_head s \<Longrightarrow>
          rw_tool_name r = rw_tool_name s \<Longrightarrow> rw_branch r = rw_branch s \<Longrightarrow> rw_tool_id r = rw_tool_id s" for r s
        by (rule one_headD)
    qed
    then have "store_inv (st\<lparr>ts_rows := ?rows\<rparr>)"
      using inv(1) by (simp add: store_inv_def demote_row_ok references_ok_def row_ids_def)
    moreover have "row_ids (st\<lparr>ts_rows := ?rows\<rparr>) = row_ids st" using inv(2) by (simp add: row_ids_def)
    ultimately show ?thesis using h ids unfolding st' upd by simp
  qed
next
  case False
  then have fresh: "row_by_id (rw_tool_id new) st = None" by (auto simp: row_by_id_None)
  have app: "insert_or_update new (ts_rows st) = ts_rows st @ [new]"
    using False by (simp add: insert_or_update_def)
  show ?thesis
  proof (cases "rw_is_head new")
    case True
    with fresh have "commit_version new st = Some st'"
      by (simp add: commit_version_def st' app assms(3))
    with commit_inv [OF assms(1,2)] show ?thesis using True by (simp add: st' app row_ids_def)
  next
    case f: False
    let ?st = "st\<lparr>ts_rows := ts_rows st @ [new]\<rparr>"
    have "one_head (ts_rows st @ [new])"
      unfolding one_head_def
    proof (intro ballI impI, elim conjE)
      fix r s
      assume "r \<in> set (ts_rows st @ [new])" "s \<in> set (ts_rows st @ [new])" and h: "rw_is_head r" "rw_is_head s"
        "rw_tool_name r = rw_tool_name s" "rw_branch r = rw_branch s"
      with f have "r \<in> set (ts_rows st)" "s \<in> set (ts_rows st)" by auto
      moreover have "one_head (ts_rows st)" using assms(1) by (simp add: store_inv_def)
      ultimately show "rw_tool_id r = rw_tool_id s" using h by (intro one_headD)
    qed
    moreover have "references_ok ?st"
      by (rule references_mono [of st]) (use assms(1) in \<open>auto simp: store_inv_def row_ids_def\<close>)
    ultimately have "store_inv ?st"
      using assms(1,2) fresh by (simp add: store_inv_def row_by_id_None)
    with f show ?thesis by (simp add: st' app row_ids_def)
  qed
qed

lemma upsert_inv: "store_inv st \<Longrightarrow> store_inv (snd (upsert_tool env e st)) \<and>
    rw_tool_id (upsert_row env e st) \<in> row_ids (snd (upsert_tool env e st))"
proof -
  assume st: "store_inv st"
  define n where "n = upsert_row env e st"
  define st1 where "st1 = st\<lparr>ts_rows := (if rw_is_head n
        then demote_others (rw_tool_name n) main_branch (rw_tool_id n) (insert_or_update n (ts_rows st))
        else insert_or_update n (ts_rows st))\<rparr>"
  have "store_inv st1 \<and> row_ids st1 = insert (rw_tool_id n) (row_ids st)"
    unfolding st1_def n_def by (rule insert_rows_inv [OF st upsert_row_ok upsert_row_fields(3) refl])
  then have "store_inv st1" "rw_tool_id n \<in> row_ids st1" by simp_all
  moreover have "snd (upsert_tool env e st) = (if te_embedding e \<noteq> [] then write_vec (rw_tool_id n) ''l1'' (te_embedding e) st1 else st1)"
    by (simp add: upsert_tool_def st1_def n_def upsert_row_fields(2) Let_def)
  ultimately show ?thesis using write_vec_inv [of st1 "rw_tool_id n"] by (simp add: n_def)
qed

lemma version_row_ok:
  "newest (branch_rows n b st) = Some old \<Longrightarrow> store_inv st \<Longrightarrow> row_ok (version_row env n d bt b kind old)"
proof -
  assume old: "newest (branch_rows n b st) = Some old" and "store_inv st"
  with newest_mem [OF old] have "row_ok old" "rw_branch old = b"
    by (auto simp: store_inv_def branch_rows_def list_all_iff)
  then show ?thesis by (auto simp: row_ok_def version_row_def Let_def bumped_chars)
qed

lemma version_row_fields [simp]:
  "rw_tool_name (version_row env n d bt b kind old) = n" "rw_branch (version_row env n d bt b kind old) = b"
  "rw_definition (version_row env n d bt b kind old) = d" "rw_parent (version_row env n d bt b kind old) = Some (rw_tool_id old)"
  "rw_is_head (version_row env n d bt b kind old)" "rw_created_at (version_row env n d bt b kind old) = se_now env"
  "rw_version (version_row env n d bt b kind old) = bumped (rw_version old) kind bt"
  "rw_tool_id (version_row env n d bt b kind old) = branch_key n b (bumped (rw_version old) kind bt)"
  by (simp_all add: version_row_def Let_def)

text \<open>What \<open>create_version\<close> does to the rows when it succeeds.\<close>

lemma create_version_rows:
  assumes "create_version env n d cl bt b kind st = Inr (i, st')"
  obtains old where "newest (branch_rows n b st) = Some old" and "i = branch_key n b (bumped (rw_version old) kind bt)"
    and "row_by_id i st = None"
    and "ts_rows st' = demote_others n b i (ts_rows st) @ [version_row env n d bt b kind old]"
    and "commit_version (version_row env n d bt b kind old) st = Some (st\<lparr>ts_rows := ts_rows st'\<rparr>)"
  using assms
  by (simp add: create_version_def Let_def commit_version_def demote_others_def split: option.splits if_splits) auto

lemma create_version_inv:
  assumes "store_inv st" and "create_version env n d cl bt b kind st = Inr (i, st')"
  shows "store_inv st'"
proof (cases "newest (branch_rows n b st)")
  case None
  with assms(2) show ?thesis by (simp add: create_version_def)
next
  case (Some old)
  let ?r = "version_row env n d bt b kind old"
  from assms(2) Some obtain st1 where c: "commit_version ?r st = Some st1"
    by (auto simp: create_version_def Let_def split: option.splits)
  define st2 where "st2 = embed_row env (rw_tool_id ?r) n (rw_summary ?r) (rw_summary_l2 ?r) st1"
  have "store_inv st2 \<and> rw_tool_id ?r \<in> row_ids st2"
    using commit_inv [OF assms(1) version_row_ok [OF Some assms(1)] c] unfolding st2_def
    by (simp add: embed_row_inv)
  moreover have "st' = (if cl \<noteq> [] then log_change env (rw_tool_id ?r) ''version_update'' cl ''system'' st2 else st2)"
    using assms(2) Some c by (auto simp: create_version_def Let_def st2_def)
  ultimately show ?thesis using log_change_inv by auto
qed

lemma create_branch_inv:
  assumes "store_inv st" and "create_branch env n b v st = Inr (i, st')"
  shows "store_inv st'"
proof -
  from assms(2) have b: "b \<noteq> main_branch" "CHR ''/'' \<notin> set b" "CHR ''@'' \<notin> set b"
    by (auto simp: create_branch_def split: if_splits)
  let ?rows = "branch_rows n main_branch st"
  let ?base = "if v \<noteq> [] then List.find (\<lambda>r. rw_version r = v) ?rows else newest ?rows"
  from assms(2) b obtain base where base: "?base = Some base"
    by (cases ?base) (simp_all add: create_branch_def)
  define r where "r = branch_row env n b base"
  from assms(2) b base obtain st1 where c: "commit_version r st = Some st1"
      and st': "st' = embed_row env (rw_tool_id r) n (rw_summary base) (rw_summary_l2 base) st1"
    by (simp add: create_branch_def r_def Let_def split: option.splits) auto
  from base have "base \<in> set ?rows" by (auto simp: find_Some_iff dest: newest_mem split: if_splits)
  then have "row_ok base" "rw_tool_name base = n"
    using assms(1) by (auto simp: store_inv_def branch_rows_def list_all_iff)
  moreover have "list_all key_char b" using b by (auto simp: list_all_iff key_char_def)
  ultimately have "row_ok r" using b(1) by (simp add: row_ok_def r_def branch_row_def branch_key_def)
  from commit_inv [OF assms(1) this c] show ?thesis by (simp add: st' embed_row_inv)
qed

lemma promote_inv: "store_inv st \<Longrightarrow> store_inv (snd (promote_to_stable env n ev st))"
proof -
  assume st: "store_inv st"
  have ok: "row_ok (promote_row env n h p)" for h p
    by (simp add: row_ok_def promote_row_def Let_def branch_key_def valid_version_chars is_valid_semver_def stage_of_def)
  have fin: "store_inv (snd (case commit_version r st of None \<Rightarrow> (Some i, st)
      | Some st \<Rightarrow> (Some i, embed_row env i n l1 l2 (log_change env i c ds s st))))"
    if "row_ok r" "i = rw_tool_id r" for r i l1 l2 c ds s
  proof (cases "commit_version r st")
    case (Some st1)
    from commit_inv [OF st that(1) Some] have "store_inv st1" "i \<in> row_ids st1" by (simp_all add: that(2))
    with log_change_inv [of st1 i] embed_row_inv [of "log_change env i c ds s st1" i] Some show ?thesis by simp
  qed (simp add: st)
  show ?thesis
    by (simp add: promote_to_stable_def Let_def st fin ok split: option.split)
qed

lemma mark_external_inv: "store_inv st \<Longrightarrow> store_inv (snd (mark_external env n st))"
proof -
  assume st: "store_inv st"
  let ?f = "\<lambda>r. if rw_tool_name r = n then r\<lparr>rw_origin := origin_value External\<rparr> else r"
  have "store_inv (st\<lparr>ts_rows := map ?f (ts_rows st)\<rparr>)"
    by (rule map_rows_inv [OF st]) simp_all
  with st show ?thesis
    by (simp add: mark_external_def Let_def promote_inv split: option.split)
qed

lemma delete_vecs: "ts_vectors (fold delete_vec ids st) = filter (\<lambda>p. fst (fst p) \<notin> set ids) (ts_vectors st)"
proof (induction ids arbitrary: st)
  case (Cons i ids)
  show ?case by (simp add: Cons) (auto simp: delete_vec_def intro: filter_cong)
qed simp

lemma one_head_filter: "one_head rows \<Longrightarrow> one_head (filter P rows)"
  unfolding one_head_def set_filter by blast

lemma referenced_mem:
  "c \<in> set (ts_changelogs st) \<Longrightarrow> cl_tool_id c \<in> referenced st"
  "(a, i) \<in> set (ts_aliases st) \<Longrightarrow> i \<in> referenced st"
  "(i, t) \<in> set (ts_tags st) \<Longrightarrow> i \<in> referenced st"
  "(i, j, k) \<in> set (ts_dependencies st) \<Longrightarrow> i \<in> referenced st"
  "(i, j, k) \<in> set (ts_dependencies st) \<Longrightarrow> j \<in> referenced st"
  "((i, l), v) \<in> set (ts_vectors st) \<Longrightarrow> i \<in> referenced st"
  using imageI [of "(a, i)" "set (ts_aliases st)" snd] imageI [of "(i, t)" "set (ts_tags st)" fst]
    imageI [of "(i, j, k)" "set (ts_dependencies st)" fst]
    imageI [of "(i, j, k)" "set (ts_dependencies st)" "\<lambda>p. fst (snd p)"]
    imageI [of "((i, l), v)" "set (ts_vectors st)" "\<lambda>p. fst (fst p)"]
  by (simp_all add: referenced_def)

lemma delete_ids_inv: "store_inv st \<Longrightarrow> store_inv (delete_ids ids st)"
proof -
  assume st: "store_inv st"
  have "one_head (ts_rows (delete_ids ids st))"
    using st one_head_filter by (simp add: store_inv_def delete_ids_def)
  moreover have "row_ids (delete_ids ids st) = row_ids st - set ids"
    by (auto simp: row_ids_def delete_ids_def)
  moreover have "referenced (delete_ids ids st) \<subseteq> referenced st - set ids"
  proof -
    have "referenced (delete_ids ids st) =
        cl_tool_id ` {c \<in> set (ts_changelogs st). cl_tool_id c \<notin> set ids} \<union>
        snd ` {(a, i) \<in> set (ts_aliases st). i \<notin> set ids} \<union> fst ` {(i, t) \<in> set (ts_tags st). i \<notin> set ids} \<union>
        fst ` {(i, j, t) \<in> set (ts_dependencies st). i \<notin> set ids \<and> j \<notin> set ids} \<union>
        (\<lambda>p. fst (snd p)) ` {(i, j, t) \<in> set (ts_dependencies st). i \<notin> set ids \<and> j \<notin> set ids} \<union>
        (\<lambda>p. fst (fst p)) ` {p \<in> set (ts_vectors st). fst (fst p) \<notin> set ids}"
      by (simp add: referenced_def delete_ids_def delete_vecs case_prod_unfold)
    then show ?thesis by (auto dest: referenced_mem)
  qed
  ultimately show ?thesis
    using st by (auto simp: store_inv_def references_ok_def delete_ids_def distinct_map_filter list_all_iff)
qed

lemma newest_name_id: "newest (name_rows n st) = Some r \<Longrightarrow> rw_tool_id r \<in> row_ids st"
  by (drule newest_mem) (simp add: name_rows_def row_ids_def)

lemma add_tag_inv: "store_inv st \<Longrightarrow> store_inv (add_tag n t st)"
  by (erule store_inv_refs)
    (auto simp: add_tag_def referenced_def dest!: newest_name_id split: option.splits)

lemma add_dependency_inv: "store_inv st \<Longrightarrow> store_inv (add_dependency n m t st)"
  by (erule store_inv_refs)
    (auto simp: add_dependency_def referenced_def dest!: newest_name_id split: option.splits)

lemma add_alias_inv: "store_inv st \<Longrightarrow> add_alias a n v st = Inr st' \<Longrightarrow> store_inv st'"
proof -
  assume st: "store_inv st" and a: "add_alias a n v st = Inr st'"
  then have "tool_key n v \<in> row_ids st" "st' = st\<lparr>ts_aliases := dset a (tool_key n v) (ts_aliases st)\<rparr>"
    by (simp_all add: add_alias_def row_by_id_None row_ids_def split: if_splits)
  moreover have "snd ` set (dset a (tool_key n v) d) \<subseteq> insert (tool_key n v) (snd ` set d)" for d
    by (induction d) auto
  note this [of "ts_aliases st"]
  ultimately show ?thesis
    by (intro store_inv_refs [OF st]) (auto simp: referenced_def)
qed

lemma rebuild_inv: "store_inv st \<Longrightarrow> store_inv (snd (rebuild_summaries env st))"
proof -
  assume st: "store_inv st"
  let ?st = "st\<lparr>ts_rows := map (summarise env) (ts_rows st)\<rparr>"
  have f: "store_inv ?st" "row_ids ?st = row_ids st"
    by (rule map_rows_inv [OF st]; simp add: summarise_def Let_def)+
  have "\<forall>r \<in> set rows. rw_tool_id r \<in> row_ids s \<Longrightarrow> store_inv s \<Longrightarrow>
      store_inv (fold (\<lambda>r. embed_row env (rw_tool_id r) (rw_tool_name r) (rw_summary r) (rw_summary_l2 r)) rows s)" for rows s
    by (induction rows arbitrary: s) (simp_all add: embed_row_inv)
  from this [OF _ f(1), of "ts_rows ?st"] show ?thesis
    by (simp add: rebuild_summaries_def Let_def row_ids_def)
qed

section \<open>The operations as a transition system\<close>

datatype store_op =
  Upsert store_env tool_entry
| CreateVersion store_env string tool_definition string bump_type string "string option"
| CreateBranch store_env string string string
| MergeBranch store_env string string string
| Rollback store_env string string
| PromoteTool store_env string string
| MarkExternal store_env string
| DeleteTool string string
| AddChangelog store_env string string string string
| UpdateEmbedding store_env string
| RebuildSummaries store_env
| AddAlias string string string
| AddTag string string
| AddDependency string string string

text \<open>An operation that raises leaves the store as it was.\<close>

definition keep :: "('a \<Rightarrow> tool_store) \<Rightarrow> tool_store \<Rightarrow> store_error + 'a \<Rightarrow> tool_store" where
  "keep f st r = (case r of Inl _ \<Rightarrow> st | Inr x \<Rightarrow> f x)"

fun store_step :: "store_op \<Rightarrow> tool_store \<Rightarrow> tool_store" where
  "store_step (Upsert env e) st = snd (upsert_tool env e st)"
| "store_step (CreateVersion env n d cl bt b kind) st = keep snd st (create_version env n d cl bt b kind st)"
| "store_step (CreateBranch env n b v) st = keep snd st (create_branch env n b v st)"
| "store_step (MergeBranch env n b t) st = keep snd st (merge_branch env n b t st)"
| "store_step (Rollback env n v) st = keep snd st (rollback env n v st)"
| "store_step (PromoteTool env n ev) st = snd (promote_to_stable env n ev st)"
| "store_step (MarkExternal env n) st = snd (mark_external env n st)"
| "store_step (DeleteTool n v) st = snd (delete_tool n v st)"
| "store_step (AddChangelog env n c d s) st = keep (\<lambda>s. s) st (add_changelog env n c d s st)"
| "store_step (UpdateEmbedding env n) st = update_embedding env n st"
| "store_step (RebuildSummaries env) st = snd (rebuild_summaries env st)"
| "store_step (AddAlias a n v) st = keep (\<lambda>s. s) st (add_alias a n v st)"
| "store_step (AddTag n t) st = add_tag n t st"
| "store_step (AddDependency n m t) st = add_dependency n m t st"

lemma keep_inv: "store_inv st \<Longrightarrow> (\<And>x. r = Inr x \<Longrightarrow> store_inv (f x)) \<Longrightarrow> store_inv (keep f st r)"
  by (simp add: keep_def split: sum.split)

text \<open>Merging and rolling back end in \<open>create_version\<close>.\<close>

lemma merge_branch_creates:
  assumes "merge_branch env n b t st = Inr (i, st')"
  obtains ours theirs first base_id base m d where "newest (branch_rows n t st) = Some ours"
    and "newest (branch_rows n b st) = Some theirs" and "oldest (branch_rows n b st) = Some first"
    and "rw_parent first = Some base_id" and "row_by_id base_id st = Some base"
    and "merge_dicts (definition_dict (rw_definition base)) (definition_dict (rw_definition ours))
           (definition_dict (rw_definition theirs)) = (m, [])"
    and "definition_of_merged m = Some d"
    and "create_version env n d (merge_log b t) BumpMinor t None st = Inr (i, st')"
  using assms unfolding merge_branch_def
  by (simp split: option.splits if_splits prod.splits)

lemma rollback_creates:
  assumes "rollback env n v st = Inr (i, st')"
  obtains e where "get_tool n v st = Some e"
    and "create_version env n (te_definition e) (''rollback to '' @ v) BumpPatch main_branch None st = Inr (i, st')"
  using assms unfolding rollback_def by (auto split: option.splits)

lemma store_step_inv: "store_inv st \<Longrightarrow> store_inv (store_step x st)"
proof (cases x)
  case (CreateVersion env n d cl bt b kind)
  have "store_inv (snd r)" if "store_inv st" "create_version env n d cl bt b kind st = Inr r" for r
    using that(2) by (cases r) (auto intro: create_version_inv [OF that(1)])
  then show "store_inv st \<Longrightarrow> ?thesis" unfolding CreateVersion store_step.simps by (intro keep_inv)
next
  case (CreateBranch env n b v)
  have "store_inv (snd r)" if "store_inv st" "create_branch env n b v st = Inr r" for r
    using that(2) by (cases r) (auto intro: create_branch_inv [OF that(1)])
  then show "store_inv st \<Longrightarrow> ?thesis" unfolding CreateBranch store_step.simps by (intro keep_inv)
next
  case (MergeBranch env n b t)
  have "store_inv (snd r)" if "store_inv st" "merge_branch env n b t st = Inr r" for r
    using that(2) by (cases r) (auto elim!: merge_branch_creates intro: create_version_inv [OF that(1)])
  then show "store_inv st \<Longrightarrow> ?thesis" unfolding MergeBranch store_step.simps by (intro keep_inv)
next
  case (Rollback env n v)
  have "store_inv (snd r)" if "store_inv st" "rollback env n v st = Inr r" for r
    using that(2) by (cases r) (auto elim!: rollback_creates intro: create_version_inv [OF that(1)])
  then show "store_inv st \<Longrightarrow> ?thesis" unfolding Rollback store_step.simps by (intro keep_inv)
next
  case (AddChangelog env n c d s)
  then show "store_inv st \<Longrightarrow> ?thesis"
    unfolding AddChangelog store_step.simps
    by (intro keep_inv) (auto simp: add_changelog_def log_change_inv newest_name_id split: option.splits)
next
  case (UpdateEmbedding env n)
  then show "store_inv st \<Longrightarrow> ?thesis"
    by (simp add: update_embedding_def embed_row_inv newest_name_id split: option.split)
next
  case (AddAlias a n v)
  then show "store_inv st \<Longrightarrow> ?thesis"
    unfolding AddAlias store_step.simps by (intro keep_inv) (auto intro: add_alias_inv)
next
  case (DeleteTool n v)
  then show "store_inv st \<Longrightarrow> ?thesis" by (simp add: delete_tool_def Let_def delete_ids_inv)
qed (simp_all add: upsert_inv promote_inv mark_external_inv rebuild_inv add_tag_inv add_dependency_inv)

interpretation sto: invariant_system "\<lambda>s. s = new_store" store_step "\<lambda>_. True" store_inv
  by unfold_locales (simp_all add: store_inv_new store_step_inv)

section \<open>A concrete store\<close>

definition demo_env :: "string \<Rightarrow> store_env" where
  "demo_env now = \<lparr>se_now = now, se_embed = None, se_similarity = (\<lambda>_ _. 0), se_llm = None\<rparr>"

definition store_definition :: "string \<Rightarrow> tool_definition" where
  "store_definition desc = \<lparr>td_name = ''t'', td_description = desc, td_parameters = [], td_version = ''0.0.1'',
     td_language = ''python'', td_runtime = ''python'', td_risk_level = ''low'', td_required_permissions = [],
     td_timeout_s = None\<rparr>"

definition store_entry :: "string \<Rightarrow> string \<Rightarrow> tool_entry" where
  "store_entry version desc = (new_tool_entry ''t'' (store_definition desc))\<lparr>te_version := version\<rparr>"

text \<open>A version, a patch, and a branch with a patch of its own.\<close>

definition demo_store :: tool_store where
  "demo_store = fold store_step
     [Upsert (demo_env ''1'') (store_entry ''1.0.0'' ''a''),
      CreateVersion (demo_env ''2'') ''t'' (store_definition ''b'') [] BumpPatch main_branch None,
      CreateBranch (demo_env ''3'') ''t'' ''dev'' [],
      CreateVersion (demo_env ''4'') ''t'' (store_definition ''c'') [] BumpPatch ''dev'' None] new_store"

definition demo_row :: "string \<Rightarrow> tool_row" where
  "demo_row i = the (row_by_id i demo_store)"

end
