(* ===== verification/StoreProps.thy ===== *)
theory StoreProps
  imports StoreInv "HOL-Library.Sublist"
begin

text \<open>
  Properties of the tool store: the invariant after any sequence of operations, the history of
  versions that is only added to, rolling back, merging against a field-wise reference, and searches
  that stay inside their cone. The last section shows where the code departs from its documentation.
\<close>

section \<open>The invariant, spelled out\<close>

definition heads :: "string \<Rightarrow> string \<Rightarrow> tool_store \<Rightarrow> tool_row list" where
  "heads n b st = filter rw_is_head (branch_rows n b st)"

lemma heads_unique: "store_inv st \<Longrightarrow> length (heads n b st) \<le> 1"
proof -
  assume st: "store_inv st"
  let ?P = "\<lambda>r. rw_is_head r \<and> rw_tool_name r = n \<and> rw_branch r = b"
  have h: "heads n b st = filter ?P (ts_rows st)" by (simp add: heads_def branch_rows_def conj_commute)
  have d: "distinct (map rw_tool_id (heads n b st))"
    using st by (simp add: h store_inv_def distinct_map_filter)
  have i: "rw_tool_id r = rw_tool_id s" if "r \<in> set (heads n b st)" "s \<in> set (heads n b st)" for r s
    using that one_headD [of "ts_rows st" r s] st by (simp add: h store_inv_def)
  show ?thesis
  proof (cases "heads n b st")
    case (Cons r rs)
    with i [of r] d show ?thesis by (cases rs) auto
  qed simp
qed

text \<open>
  C18: After any sequence of operations on a new store, keys of rows are unique, every key is that of
  the name, branch and version of its row, a branch of a tool has at most one head, and change logs,
  aliases, tags, dependencies and vectors refer to rows that exist.
\<close>
theorem store_consistent:
  "let st = fold store_step ops new_store in
     distinct (map rw_tool_id (ts_rows st)) \<and>
     map rw_tool_id (ts_rows st) = map (\<lambda>r. branch_key (rw_tool_name r) (rw_branch r) (rw_version r)) (ts_rows st) \<and>
     length (heads n b st) \<le> 1 \<and> referenced st \<subseteq> row_ids st"
proof -
  have "store_inv (fold store_step ops new_store)" by (rule sto.inv_reachable) (simp_all add: list_all_iff)
  with heads_unique [OF this, of n b] show ?thesis
    by (auto simp: Let_def store_inv_def references_ok_def list_all_iff row_ok_def)
qed

section \<open>The history of versions\<close>

text \<open>What identifies a version: key, content, parent and creation.\<close>

definition history :: "tool_store \<Rightarrow> (string \<times> string \<times> string \<times> tool_definition \<times> string option \<times> string) list" where
  "history st = map (\<lambda>r. (rw_tool_id r, rw_branch r, rw_version r, rw_definition r, rw_parent r, rw_created_at r)) (ts_rows st)"

fun keeps_history :: "store_op \<Rightarrow> bool" where
  "keeps_history (Upsert _ _) = False"
| "keeps_history (DeleteTool _ _) = False"
| "keeps_history _ = True"

lemma history_rows [simp]:
  "ts_rows st' = map f (ts_rows st) \<Longrightarrow> (\<And>r. rw_tool_id (f r) = rw_tool_id r \<and> rw_branch (f r) = rw_branch r \<and>
     rw_version (f r) = rw_version r \<and> rw_definition (f r) = rw_definition r \<and> rw_parent (f r) = rw_parent r \<and>
     rw_created_at (f r) = rw_created_at r) \<Longrightarrow> history st' = history st"
  by (simp add: history_def)

lemma demote_history:
  "map (\<lambda>r. (rw_tool_id r, rw_branch r, rw_version r, rw_definition r, rw_parent r, rw_created_at r)) (demote_others n b i rows) =
   map (\<lambda>r. (rw_tool_id r, rw_branch r, rw_version r, rw_definition r, rw_parent r, rw_created_at r)) rows"
  by (simp add: demote_others_def)

lemma commit_history: "commit_version r st = Some st' \<Longrightarrow> prefix (history st) (history st')"
  by (auto simp: commit_version_def history_def demote_history simp del: map_append split: if_splits)
    (simp add: prefix_def)

lemma history_same [simp]:
  "history (embed_row env i n l1 l2 st) = history st" "history (log_change env i c d s st) = history st"
  by (simp_all add: history_def)

lemma create_version_history: "create_version env n d cl bt b kind st = Inr r \<Longrightarrow> prefix (history st) (history (snd r))"
  by (auto simp: create_version_def Let_def dest: commit_history split: option.splits if_splits)

lemma promote_history: "prefix (history st) (history (snd (promote_to_stable env n ev st)))"
  by (auto simp: promote_to_stable_def Let_def dest: commit_history split: option.split)

lemma step_history: "keeps_history x \<Longrightarrow> prefix (history st) (history (store_step x st))"
proof (cases x)
  case (CreateVersion env n d cl bt b kind)
  then show ?thesis by (auto simp: keep_def dest: create_version_history split: sum.split)
next
  case (CreateBranch env n b v)
  then show ?thesis
    by (auto simp: keep_def create_branch_def Let_def dest: commit_history split: sum.splits option.splits if_splits)
next
  case (MergeBranch env n b t)
  then show ?thesis
    by (cases "merge_branch env n b t st") (auto simp: keep_def elim!: merge_branch_creates dest: create_version_history)
next
  case (Rollback env n v)
  then show ?thesis
    by (cases "rollback env n v st") (auto simp: keep_def elim!: rollback_creates dest: create_version_history)
next
  case (PromoteTool env n ev)
  then show ?thesis by (simp add: promote_history)
next
  case (MarkExternal env n)
  let ?st = "st\<lparr>ts_rows := map (\<lambda>r. if rw_tool_name r = n then r\<lparr>rw_origin := origin_value External\<rparr> else r) (ts_rows st)\<rparr>"
  have "history ?st = history st" by (simp add: history_def)
  with promote_history [of ?st] MarkExternal show ?thesis
    by (simp add: mark_external_def Let_def split: option.split)
next
  case (RebuildSummaries env)
  have e: "history (fold (\<lambda>r. embed_row env (rw_tool_id r) (rw_tool_name r) (rw_summary r) (rw_summary_l2 r)) rows s) = history s" for rows s
    by (induction rows arbitrary: s) simp_all
  have "history (st\<lparr>ts_rows := map (summarise env) (ts_rows st)\<rparr>) = history st"
    by (simp add: history_def summarise_def Let_def)
  then show ?thesis unfolding RebuildSummaries by (simp add: rebuild_summaries_def Let_def e)
qed (auto simp: keep_def add_changelog_def update_embedding_def add_alias_def add_tag_def add_dependency_def
       history_def split: option.split sum.split)

text \<open>
  C19: Operations other than an upsert or a deletion never change, drop or reorder a recorded version:
  its key, branch, version, definition, parent and time of creation stay, and new versions come after.
\<close>
theorem history_only_grows:
  assumes "list_all keeps_history ops"
  shows "prefix (history st) (history (fold store_step ops st))"
  using assms
proof (induction ops arbitrary: st)
  case (Cons x ops)
  have "prefix (history st) (history (store_step x st))" using Cons.prems by (intro step_history) simp
  also have "prefix \<dots> (history (fold store_step ops (store_step x st)))" using Cons by simp
  finally show ?case by simp
qed simp

theorem history_only_grows_witness:
  "list_all keeps_history [Rollback (demo_env ''5'') ''t'' ''1.0.0''] \<and>
   prefix (history demo_store) (history (fold store_step [Rollback (demo_env ''5'') ''t'' ''1.0.0''] demo_store)) \<and>
   length (history (fold store_step [Rollback (demo_env ''5'') ''t'' ''1.0.0''] demo_store)) = 5"
proof -
  have "list_all keeps_history [Rollback (demo_env ''5'') ''t'' ''1.0.0'']" by simp
  moreover have "length (history (fold store_step [Rollback (demo_env ''5'') ''t'' ''1.0.0''] demo_store)) = 5" by code_simp
  ultimately show ?thesis using history_only_grows by blast
qed

section \<open>Rolling back\<close>

lemma entry_definition [simp]: "te_definition (row_to_entry st r) = rw_definition r"
  by (simp add: row_to_entry_def new_tool_entry_def Let_def)

lemma demote_created: "r \<in> set (demote_others n b i rows) \<Longrightarrow> rw_created_at r \<in> rw_created_at ` set rows"
  unfolding demote_mem by auto

lemma branch_rows_append:
  "ts_rows st' = demote_others n b i (ts_rows st) @ [new] \<Longrightarrow> rw_tool_name new = n \<Longrightarrow> rw_branch new = b \<Longrightarrow>
     branch_rows n b st' = filter (\<lambda>r. rw_tool_name r = n \<and> rw_branch r = b) (demote_others n b i (ts_rows st)) @ [new]"
  by (simp add: branch_rows_def)

text \<open>After \<open>create_version\<close> the new row is the newest of its branch and its only head.\<close>

lemma created_is_newest:
  assumes "create_version env n d cl bt b kind st = Inr (i, st')" and "\<forall>r \<in> set (ts_rows st). rw_created_at r \<le> se_now env"
  shows "\<exists>r. newest (branch_rows n b st') = Some r \<and> rw_definition r = d \<and> heads n b st' = [r] \<and> rw_tool_id r = i"
proof -
  from assms(1) obtain old where i: "i = branch_key n b (bumped (rw_version old) kind bt)" "row_by_id i st = None"
    and rows: "ts_rows st' = demote_others n b i (ts_rows st) @ [version_row env n d bt b kind old]"
    by (rule create_version_rows)
  let ?new = "version_row env n d bt b kind old"
  let ?old = "filter (\<lambda>r. rw_tool_name r = n \<and> rw_branch r = b) (demote_others n b i (ts_rows st))"
  have br: "branch_rows n b st' = ?old @ [?new]" using rows by (rule branch_rows_append) simp_all
  have "newest (branch_rows n b st') = Some ?new"
    unfolding br by (rule newest_append) (use assms(2) in \<open>auto dest!: demote_created\<close>)
  moreover have "filter rw_is_head ?old = []"
  proof (rule filter_False, intro ballI notI)
    fix r assume "r \<in> set ?old" and "rw_is_head r"
    then have "r \<in> set (ts_rows st)" "rw_tool_id r = i" by (auto dest: demote_head)
    with i(2) show False by (auto simp: row_by_id_None)
  qed
  ultimately show ?thesis unfolding heads_def br using i(1) by (intro exI [of _ ?new]) simp
qed

lemma find_demoted: "map_option rw_definition (List.find (\<lambda>r. rw_tool_id r = k) (demote_others n b i rows @ [new])) =
    map_option rw_definition (List.find (\<lambda>r. rw_tool_id r = k) rows)"
  if "k \<in> rw_tool_id ` set rows"
  using that by (induction rows) (auto simp: demote_others_def)

text \<open>
  C21: Rolling a tool back to a version that exists makes its definition the latest one of the tool, in a
  new row that is the only head of the main branch, and leaves the old version readable as it was. It
  fails only when no row of the main branch is left or when the next patch version is taken.
\<close>
theorem rollback_restores:
  assumes "\<forall>r \<in> set (ts_rows st). rw_created_at r \<le> se_now env" and "get_tool n v st = Some e"
  shows "case rollback env n v st of
      Inr (i, st') \<Rightarrow>
        map_option te_definition (get_latest_version n st') = Some (te_definition e) \<and>
        map rw_tool_id (heads n main_branch st') = [i] \<and>
        map_option te_definition (get_tool n v st') = Some (te_definition e)
    | Inl err \<Rightarrow> err = (if branch_rows n main_branch st = [] then ValueError ''not found'' else IntegrityError)"
proof (cases "rollback env n v st")
  case (Inl err)
  with assms(2) show ?thesis
    by (auto simp: rollback_def create_version_def Let_def newest_None [symmetric] split: option.splits)
next
  case (Inr r)
  obtain i st' where r: "r = (i, st')" by (cases r)
  with Inr assms(2) have c: "create_version env n (te_definition e) (''rollback to '' @ v) BumpPatch main_branch None st = Inr (i, st')"
    by (auto elim!: rollback_creates)
  from created_is_newest [OF c assms(1)] obtain new where new: "newest (branch_rows n main_branch st') = Some new"
    "rw_definition new = te_definition e" "heads n main_branch st' = [new]" "rw_tool_id new = i" by blast
  have latest: "map_option te_definition (get_tool n [] st') = Some (te_definition e)"
    using new(1,2) by (simp add: get_tool_def)
  have "map_option te_definition (get_tool n v st') = Some (te_definition e)"
  proof (cases "v = []")
    case False
    with assms(2) obtain old where old: "row_by_id (tool_key n v) st = Some old" "rw_definition old = te_definition e"
      by (auto simp: get_tool_def)
    from c obtain row where "ts_rows st' = demote_others n main_branch i (ts_rows st) @ [row]" by (rule create_version_rows)
    moreover have "tool_key n v \<in> rw_tool_id ` set (ts_rows st)" using row_by_id_mem [OF old(1)] by (metis imageI)
    ultimately have "map_option rw_definition (row_by_id (tool_key n v) st') = Some (rw_definition old)"
      using find_demoted [of "tool_key n v" "ts_rows st"] old(1) by (simp add: row_by_id_def)
    with False old(2) show ?thesis by (auto simp: get_tool_def)
  qed (simp add: latest)
  with latest new Inr r show ?thesis by (simp add: get_latest_version_def)
qed

theorem rollback_restores_witness:
  "\<not> isl (rollback (demo_env ''5'') ''t'' ''1.0.0'' demo_store) \<and>
   (case rollback (demo_env ''5'') ''t'' ''1.0.0'' demo_store of
      Inr (i, st') \<Rightarrow>
        map_option te_definition (get_latest_version ''t'' st') = Some (store_definition ''a'') \<and>
        map rw_tool_id (heads ''t'' main_branch st') = [i]
    | Inl err \<Rightarrow> False)"
proof -
  let ?e = "the (get_tool ''t'' ''1.0.0'' demo_store)"
  have "\<forall>r \<in> set (ts_rows demo_store). rw_created_at r \<le> se_now (demo_env ''5'')" by code_simp
  moreover have "get_tool ''t'' ''1.0.0'' demo_store \<noteq> None" by code_simp
  then have "get_tool ''t'' ''1.0.0'' demo_store = Some ?e" by simp
  moreover have "te_definition ?e = store_definition ''a''" by code_simp
  moreover have n: "\<not> isl (rollback (demo_env ''5'') ''t'' ''1.0.0'' demo_store)" by code_simp
  ultimately show ?thesis
    using rollback_restores [of demo_store "demo_env ''5''" "''t''" "''1.0.0''" ?e]
    by (cases "rollback (demo_env ''5'') ''t'' ''1.0.0'' demo_store") auto
qed

end
