(* ===== verification/StoreMergeProps.thy ===== *)
theory StoreMergeProps
  imports StoreInv
begin

text \<open>
  Merging branches and searching. The dictionary merge of \<open>merge_branch\<close> is compared with a merge of
  tool definitions field by field; the results of a search satisfy the bounds of its cone.
\<close>

section \<open>A merge of definitions, field by field\<close>

definition pick :: "('a \<Rightarrow> 'a \<Rightarrow> bool) \<Rightarrow> 'a \<Rightarrow> 'a \<Rightarrow> 'a \<Rightarrow> 'a option" where
  "pick eq b ours t = (if eq ours t then Some ours else if eq b ours then Some t else if eq b t then Some ours else None)"

definition same_parameters :: "tool_parameter list \<Rightarrow> tool_parameter list \<Rightarrow> bool" where
  "same_parameters ps qs \<longleftrightarrow> py_eq (JList (map param_json ps)) (JList (map param_json qs))"

definition pick_field :: "(tool_definition \<Rightarrow> 'a) \<Rightarrow> tool_definition \<Rightarrow> tool_definition \<Rightarrow> tool_definition \<Rightarrow> 'a option" where
  "pick_field f b ours t = pick (=) (f b) (f ours) (f t)"

definition pick_parameters :: "tool_definition \<Rightarrow> tool_definition \<Rightarrow> tool_definition \<Rightarrow> tool_parameter list option" where
  "pick_parameters b ours t = pick same_parameters (td_parameters b) (td_parameters ours) (td_parameters t)"

text \<open>The fields on which the sides differ from the base and from each other, in the order of their names.\<close>

definition conflict_fields :: "tool_definition \<Rightarrow> tool_definition \<Rightarrow> tool_definition \<Rightarrow> string list" where
  "conflict_fields b ours t =
     map fst (filter snd
       [(''description'', pick_field td_description b ours t = None), (''language'', pick_field td_language b ours t = None),
        (''name'', pick_field td_name b ours t = None), (''parameters'', pick_parameters b ours t = None),
        (''required_permissions'', pick_field td_required_permissions b ours t = None),
        (''risk_level'', pick_field td_risk_level b ours t = None), (''runtime'', pick_field td_runtime b ours t = None),
        (''timeout_s'', pick_field td_timeout_s b ours t = None), (''version'', pick_field td_version b ours t = None)])"

definition merge_definitions :: "tool_definition \<Rightarrow> tool_definition \<Rightarrow> tool_definition \<Rightarrow> tool_definition" where
  "merge_definitions b ours t =
     \<lparr>td_name = the (pick_field td_name b ours t), td_description = the (pick_field td_description b ours t),
      td_parameters = the (pick_parameters b ours t), td_version = the (pick_field td_version b ours t),
      td_language = the (pick_field td_language b ours t), td_runtime = the (pick_field td_runtime b ours t),
      td_risk_level = the (pick_field td_risk_level b ours t),
      td_required_permissions = the (pick_field td_required_permissions b ours t),
      td_timeout_s = the (pick_field td_timeout_s b ours t)\<rparr>"

section \<open>The dictionary merge computes it\<close>

lemma py_eq_values [simp]:
  "py_eq (JStr a) (JStr b) \<longleftrightarrow> a = b"
  "py_eq (JList (map JStr xs)) (JList (map JStr ys)) \<longleftrightarrow> xs = ys"
  "py_eq (option_json JNum p) (option_json JNum q) \<longleftrightarrow> p = q"
proof -
  have "map (canon \<circ> JStr) xs = map (canon \<circ> JStr) ys \<longleftrightarrow> xs = ys"
    by (rule inj_map_eq_map) (simp add: inj_def)
  then show "py_eq (JList (map JStr xs)) (JList (map JStr ys)) \<longleftrightarrow> xs = ys" by (simp add: py_eq_def)
qed (auto simp: py_eq_def option_json_def split: option.splits)

text \<open>No field of a definition is a dictionary, so the merge never recurses.\<close>

lemma three_none: "dict_of b = None \<Longrightarrow> three_dicts b ours t = None"
  by (simp add: three_dicts_def)

lemma dict_of_option_json [simp]: "dict_of (Some (option_json JNum q)) = None"
  by (cases q) (simp_all add: option_json_def)

lemma merged_at_fields:
  assumes "dict_of (Some b) = None"
  shows "merged_at (Some b) (Some ours) (Some t) = Some (Value (case pick py_eq b ours t of None \<Rightarrow> ours | Some v \<Rightarrow> v))"
    and "conflicts_at k (Some b) (Some ours) (Some t) = (if pick py_eq b ours t = None then [k] else [])"
  using three_none [OF assms] by (simp_all add: merged_at_def conflicts_at_def pick_def value_of_def)

lemma pick_map: "pick py_eq (f b) (f ours) (f t) = map_option f (pick (\<lambda>x y. py_eq (f x) (f y)) b ours t)"
  by (simp add: pick_def)

lemma definition_keys: "dkeys (definition_dict d) =
    [''name'', ''description'', ''parameters'', ''version'', ''language'', ''runtime'', ''risk_level'',
     ''required_permissions'', ''timeout_s'']"
  by (simp add: definition_dict_def)

lemma definition_all_keys: "all_keys (definition_dict b) (definition_dict ours) (definition_dict t) =
    [''description'', ''language'', ''name'', ''parameters'', ''required_permissions'', ''risk_level'', ''runtime'',
     ''timeout_s'', ''version'']"
  unfolding all_keys_def definition_keys by code_simp

text \<open>The value of each field in the dictionary.\<close>

lemma definition_get:
  "dget (definition_dict d) ''name'' = Some (JStr (td_name d))"
  "dget (definition_dict d) ''description'' = Some (JStr (td_description d))"
  "dget (definition_dict d) ''parameters'' = Some (JList (map param_json (td_parameters d)))"
  "dget (definition_dict d) ''version'' = Some (JStr (td_version d))"
  "dget (definition_dict d) ''language'' = Some (JStr (td_language d))"
  "dget (definition_dict d) ''runtime'' = Some (JStr (td_runtime d))"
  "dget (definition_dict d) ''risk_level'' = Some (JStr (td_risk_level d))"
  "dget (definition_dict d) ''required_permissions'' = Some (JList (map JStr (td_required_permissions d)))"
  "dget (definition_dict d) ''timeout_s'' = Some (option_json JNum (td_timeout_s d))"
  by (simp_all add: definition_dict_def)

lemma pick_json:
  "pick py_eq (JStr a) (JStr b) (JStr c) = map_option JStr (pick (=) a b c)"
  "pick py_eq (JList (map JStr xs)) (JList (map JStr ys)) (JList (map JStr zs)) = map_option (\<lambda>x. JList (map JStr x)) (pick (=) xs ys zs)"
  "pick py_eq (option_json JNum p) (option_json JNum q) (option_json JNum r) = map_option (option_json JNum) (pick (=) p q r)"
  "pick py_eq (JList (map param_json ps)) (JList (map param_json qs)) (JList (map param_json rs)) =
     map_option (\<lambda>x. JList (map param_json x)) (pick same_parameters ps qs rs)"
  by (simp_all add: pick_def same_parameters_def)

lemma conflicts_json:
  "conflicts_at k (Some (JStr a)) (Some (JStr b)) (Some (JStr c)) = (if pick (=) a b c = None then [k] else [])"
  "conflicts_at k (Some (JList (map JStr xs))) (Some (JList (map JStr ys))) (Some (JList (map JStr zs))) =
     (if pick (=) xs ys zs = None then [k] else [])"
  "conflicts_at k (Some (option_json JNum p)) (Some (option_json JNum q)) (Some (option_json JNum r)) =
     (if pick (=) p q r = None then [k] else [])"
  "conflicts_at k (Some (JList (map param_json ps))) (Some (JList (map param_json qs))) (Some (JList (map param_json rs))) =
     (if pick same_parameters ps qs rs = None then [k] else [])"
  by (simp_all add: merged_at_fields pick_json)

lemma merged_json:
  "pick (=) a b c \<noteq> None \<Longrightarrow>
     merged_at (Some (JStr a)) (Some (JStr b)) (Some (JStr c)) = Some (Value (JStr (the (pick (=) a b c))))"
  "pick (=) xs ys zs \<noteq> None \<Longrightarrow>
     merged_at (Some (JList (map JStr xs))) (Some (JList (map JStr ys))) (Some (JList (map JStr zs))) =
       Some (Value (JList (map JStr (the (pick (=) xs ys zs)))))"
  "pick (=) p q r \<noteq> None \<Longrightarrow>
     merged_at (Some (option_json JNum p)) (Some (option_json JNum q)) (Some (option_json JNum r)) =
       Some (Value (option_json JNum (the (pick (=) p q r))))"
  "pick same_parameters ps qs rs \<noteq> None \<Longrightarrow>
     merged_at (Some (JList (map param_json ps))) (Some (JList (map param_json qs))) (Some (JList (map param_json rs))) =
       Some (Value (JList (map param_json (the (pick same_parameters ps qs rs)))))"
  by (auto simp: merged_at_fields pick_json)

lemma names_filter: "map fst (filter snd ((k, P) # xs)) = (if P then [k] else []) @ map fst (filter snd xs)"
  by simp

lemma merge_conflicts:
  "snd (merge_dicts (definition_dict b) (definition_dict ours) (definition_dict t)) = conflict_fields b ours t"
  unfolding merge_dicts_at definition_all_keys list.map definition_get conflicts_json conflict_fields_def
    names_filter pick_field_def pick_parameters_def
  by (simp only: concat.simps filter.simps list.map append_Nil2)

lemma definition_of_gets:
  assumes "\<And>k. k \<in> set (dkeys (definition_dict x)) \<Longrightarrow> dget d k = dget (definition_dict x) k"
  shows "definition_of_dict d = definition_of_dict (definition_dict x)"
  unfolding definition_of_dict_def field_def using assms by (simp add: definition_keys)

lemma merged_value:
  assumes "conflict_fields b ours t = []" and "k \<in> set (dkeys (definition_dict b))"
  shows "dget (fst (merge_dicts (definition_dict b) (definition_dict ours) (definition_dict t))) k =
    map_option Value (dget (definition_dict (merge_definitions b ours t)) k)"
proof -
  have n: "pick_field td_description b ours t \<noteq> None" "pick_field td_language b ours t \<noteq> None"
    "pick_field td_name b ours t \<noteq> None" "pick_parameters b ours t \<noteq> None"
    "pick_field td_required_permissions b ours t \<noteq> None" "pick_field td_risk_level b ours t \<noteq> None"
    "pick_field td_runtime b ours t \<noteq> None" "pick_field td_timeout_s b ours t \<noteq> None"
    "pick_field td_version b ours t \<noteq> None"
    using assms(1) unfolding conflict_fields_def names_filter by (simp_all split: if_splits)
  note m = n [unfolded pick_field_def pick_parameters_def]
  from assms(2) consider "k = ''name''" | "k = ''description''" | "k = ''parameters''" | "k = ''version''" | "k = ''language''"
    | "k = ''runtime''" | "k = ''risk_level''" | "k = ''required_permissions''" | "k = ''timeout_s''"
    unfolding definition_keys list.set insert_iff empty_iff by argo
  then show ?thesis
    by cases (simp_all only: merge_dicts_at definition_get merged_json m merge_definitions_def tool_definition.simps
        pick_field_def pick_parameters_def option.map not_False_eq_True)
qed

lemma merged_keys: "dget (fst (merge_dicts (definition_dict b) (definition_dict ours) (definition_dict t))) k = None"
  if "k \<notin> set (dkeys (definition_dict b))"
proof -
  have "dget (definition_dict d) k = None" for d
    using that unfolding dget_None_iff definition_keys .
  then show ?thesis by (simp add: merge_dicts_at merged_at_def)
qed

lemma merge_step_wf: "wf_dict (fst mc) \<Longrightarrow> wf_dict (fst (merge_step b ours t k mc))"
  by (cases mc) (simp add: merge_step_def put_option_def split: option.split)

lemma merge_dicts_wf: "wf_dict ours \<Longrightarrow> wf_dict (fst (merge_dicts b ours t))"
proof -
  assume "wf_dict ours"
  then have "wf_dict (fst (map (\<lambda>(k, v). (k, Value v)) ours, []))"
    by (simp add: wf_dict_def o_def case_prod_unfold)
  moreover have "wf_dict (fst mc) \<Longrightarrow> wf_dict (fst (fold (merge_step b ours t) ks mc))" for ks mc
    by (induction ks arbitrary: mc) (simp_all add: merge_step_wf)
  ultimately show ?thesis by (simp add: merge_dicts_steps)
qed

lemma those_plain:
  "\<forall>p \<in> set m. \<exists>v. snd p = Value v \<Longrightarrow> \<exists>d. those (map plain_value m) = Some d \<and> (\<forall>k. map_option Value (dget d k) = dget m k)"
proof (induction m)
  case (Cons p m)
  then obtain k v d where "p = (k, Value v)" and "those (map plain_value m) = Some d"
    and "\<forall>k. map_option Value (dget d k) = dget m k"
    by (cases p) auto
  then show ?case by simp
qed simp

lemma definition_wf [simp]: "wf_dict (definition_dict d)"
  by (simp add: wf_dict_def definition_keys)

lemma merged_definition:
  assumes "conflict_fields b ours t = []" and "definition_ok (merge_definitions b ours t)"
  shows "definition_of_merged (fst (merge_dicts (definition_dict b) (definition_dict ours) (definition_dict t))) =
    Some (merge_definitions b ours t)"
proof -
  let ?m = "fst (merge_dicts (definition_dict b) (definition_dict ours) (definition_dict t))"
  let ?x = "merge_definitions b ours t"
  have wf: "wf_dict ?m" by (simp add: merge_dicts_wf)
  have keys: "dkeys (definition_dict ?x) = dkeys (definition_dict b)" by (simp add: definition_keys)
  have "\<exists>v. w = Value v" if "(k, w) \<in> set ?m" for k w
  proof -
    have m: "dget ?m k = Some w" using that dget_mem [OF wf] by blast
    then have "k \<in> set (dkeys (definition_dict b))" using merged_keys by fastforce
    from merged_value [OF assms(1) this] m have "Some w = map_option Value (dget (definition_dict ?x) k)" by simp
    then show ?thesis by (cases "dget (definition_dict ?x) k") auto
  qed
  then obtain d where d: "those (map plain_value ?m) = Some d" "\<forall>k. map_option Value (dget d k) = dget ?m k"
    using those_plain [of ?m] by fastforce
  have "dget d k = dget (definition_dict ?x) k" if "k \<in> set (dkeys (definition_dict ?x))" for k
  proof -
    have "map_option Value (dget d k) = map_option Value (dget (definition_dict ?x) k)"
      using d(2) merged_value [OF assms(1)] that unfolding keys by simp
    then show ?thesis by (metis merge_value.inject(1) option.inj_map_strong)
  qed
  from definition_of_gets [OF this] definition_roundtrip [OF assms(2)] d(1) show ?thesis
    by (simp add: definition_of_merged_def)
qed

lemma merge_definition_ok: "definition_ok ours \<Longrightarrow> definition_ok t \<Longrightarrow> conflict_fields b ours t = [] \<Longrightarrow>
    definition_ok (merge_definitions b ours t)"
  by (auto simp: definition_ok_def merge_definitions_def pick_parameters_def pick_def conflict_fields_def split: if_splits)

text \<open>
  C20: Merging a branch of a tool is the three-way merge of its definitions field by field (parameters
  compared as JSON values): it raises exactly the fields that both sides changed to different values, and
  otherwise commits the field-wise merge as a new minor version of the target branch. In particular the
  merge of the dictionaries never leaves its placeholder for a missing key in a definition.
\<close>
theorem merge_branch_fieldwise:
  assumes "newest (branch_rows n t st) = Some ours" and "newest (branch_rows n b st) = Some theirs"
    and "oldest (branch_rows n b st) = Some first" and "rw_parent first = Some (rw_tool_id base)"
    and "row_by_id (rw_tool_id base) st = Some base" and "rw_tool_id base \<noteq> []"
    and "definition_ok (rw_definition ours)" and "definition_ok (rw_definition theirs)"
  shows "merge_branch env n b t st =
    (if conflict_fields (rw_definition base) (rw_definition ours) (rw_definition theirs) \<noteq> []
     then Inl (VersionConflict (conflict_fields (rw_definition base) (rw_definition ours) (rw_definition theirs)))
     else create_version env n (merge_definitions (rw_definition base) (rw_definition ours) (rw_definition theirs))
            (merge_log b t) BumpMinor t None st)"
proof -
  let ?B = "rw_definition base" and ?O = "rw_definition ours" and ?T = "rw_definition theirs"
  obtain m cs where m: "merge_dicts (definition_dict ?B) (definition_dict ?O) (definition_dict ?T) = (m, cs)"
    by (cases "merge_dicts (definition_dict ?B) (definition_dict ?O) (definition_dict ?T)")
  with merge_conflicts [of ?B ?O ?T] have cs: "cs = conflict_fields ?B ?O ?T" by simp
  have "definition_of_merged m = Some (merge_definitions ?B ?O ?T)" if "conflict_fields ?B ?O ?T = []"
    using merged_definition [OF that merge_definition_ok [OF assms(7,8) that]] m by simp
  then show ?thesis by (simp add: merge_branch_def assms m cs)
qed

theorem merge_branch_fieldwise_witness:
  "merge_branch (demo_env ''5'') ''t'' ''dev'' main_branch demo_store =
     create_version (demo_env ''5'') ''t'' (store_definition ''c'') (merge_log ''dev'' main_branch) BumpMinor main_branch None
       demo_store"
proof -
  have 1: "newest (branch_rows ''t'' main_branch demo_store) = Some (demo_row ''t@1.0.1'')" by code_simp
  have 2: "newest (branch_rows ''t'' ''dev'' demo_store) = Some (demo_row ''t@dev/1.0.2'')" by code_simp
  have 3: "oldest (branch_rows ''t'' ''dev'' demo_store) = Some (demo_row ''t@dev/1.0.1'')" by code_simp
  have 4: "rw_parent (demo_row ''t@dev/1.0.1'') = Some (rw_tool_id (demo_row ''t@1.0.1''))" by code_simp
  have 5: "row_by_id (rw_tool_id (demo_row ''t@1.0.1'')) demo_store = Some (demo_row ''t@1.0.1'')" by code_simp
  have 6: "rw_tool_id (demo_row ''t@1.0.1'') \<noteq> []" by code_simp
  have 7: "definition_ok (rw_definition (demo_row ''t@1.0.1''))" "definition_ok (rw_definition (demo_row ''t@dev/1.0.2''))"
    by code_simp+
  have 8: "conflict_fields (rw_definition (demo_row ''t@1.0.1'')) (rw_definition (demo_row ''t@1.0.1''))
      (rw_definition (demo_row ''t@dev/1.0.2'')) = []" by code_simp
  have 9: "merge_definitions (rw_definition (demo_row ''t@1.0.1'')) (rw_definition (demo_row ''t@1.0.1''))
      (rw_definition (demo_row ''t@dev/1.0.2'')) = store_definition ''c''" by code_simp
  show ?thesis
    unfolding merge_branch_fieldwise [OF 1 2 3 4 5 6 7] by (simp only: 8 9 simp_thms if_False)
qed

section \<open>Searches stay inside their cone\<close>

text \<open>A result reports a row of the store that satisfies the bounds of the cone.\<close>

definition reports :: "cone \<Rightarrow> tool_store \<Rightarrow> tool_search_result \<Rightarrow> tool_row \<Rightarrow> bool" where
  "reports c st res r \<longleftrightarrow> r \<in> set (ts_rows st) \<and> sr_tool_name res = rw_tool_name r \<and>
     sr_definition res = Some (rw_definition r) \<and> sr_required_permissions res = rw_required_permissions r \<and>
     risk_rank (sr_risk_level res) \<le> risk_rank (cn_risk_ceiling c) \<and> rw_tool_name r \<notin> set (cn_exclude c) \<and>
     (rw_lineage_id r = [] \<or> rw_lineage_id r \<notin> set (cn_exclude_lineages c)) \<and>
     (cn_tags c = [] \<or> (\<exists>tag \<in> set (cn_tags c). (rw_tool_id r, tag) \<in> set (ts_tags st)))"

lemma risk_or_low [simp]: "risk_rank (if l \<noteq> [] then l else ''low'') = risk_rank l"
  by (cases l) (simp_all, simp add: risk_rank_def risk_order_def)

lemma make_reports: "make_search_result r score = Some res \<Longrightarrow> cone_where c st r \<Longrightarrow> r \<in> set (ts_rows st) \<Longrightarrow> reports c st res r"
proof -
  assume m: "make_search_result r score = Some res" and c: "cone_where c st r" and r: "r \<in> set (ts_rows st)"
  from c have t: "cn_tags c = [] \<or> (\<exists>tag \<in> set (cn_tags c). (rw_tool_id r, tag) \<in> set (ts_tags st))"
    by (auto simp: cone_where_def list_ex_iff)
  from m have "sr_tool_name res = rw_tool_name r" "sr_definition res = Some (rw_definition r)"
      "sr_required_permissions res = rw_required_permissions r"
      "sr_risk_level res = (if rw_risk_level r \<noteq> [] then rw_risk_level r else ''low'')"
    unfolding make_search_result_def by (simp_all only: option.simps tool_search_result.simps split: if_split_asm) auto
  with c r t show ?thesis unfolding reports_def cone_where_def by auto
qed

lemma ranked_sound:
  assumes "ranked k scored = Some rs" and "0 \<le> k"
  shows "int (length rs) \<le> k \<and> sorted_wrt (\<lambda>a b. sr_score b \<le> sr_score a) rs \<and>
    (\<forall>res \<in> set rs. \<exists>(r, score) \<in> set scored. make_search_result r score = Some res)"
proof -
  from assms(1) obtain xs where xs: "those (map (\<lambda>(r, score). make_search_result r score) scored) = Some xs"
    and rs: "rs = slice_to k (sort_desc sr_score xs)" by (auto simp: ranked_def)
  have "\<exists>(r, score) \<in> set scored. make_search_result r score = Some res" if "res \<in> set rs" for res
  proof -
    from that rs set_slice_to [of k "sort_desc sr_score xs"] have "res \<in> set xs" by auto
    with those_Some [OF xs] have "Some res \<in> (\<lambda>(r, score). make_search_result r score) ` set scored" by simp
    then obtain p where "p \<in> set scored" "(case p of (r, score) \<Rightarrow> make_search_result r score) = Some res" by auto
    then show ?thesis by (intro bexI [of _ p]) (simp_all add: case_prod_unfold)
  qed
  moreover have "sorted_wrt (\<lambda>a b. sr_score b \<le> sr_score a) rs"
    unfolding rs by (intro slice_sorted sort_desc_sorted)
  moreover have "length rs \<le> nat k" unfolding rs by (rule length_slice_to [OF assms(2)])
  ultimately show ?thesis using assms(2) by (auto simp: le_nat_iff)
qed

lemma vec_rows_mem: "(r, v) \<in> set (vec_rows level c st) \<Longrightarrow> r \<in> set (ts_rows st) \<and> cone_where c st r"
  unfolding vec_rows_def List.map_filter_def
  by (auto split: if_splits option.splits dest: row_by_id_mem)

text \<open>
  A cone search of the store, by vectors or by keywords, returns at most \<open>top_k\<close> results in order of
  descending score, each for a row of the store whose risk is not above the ceiling, whose name and
  lineage are not excluded and which carries one of the tags asked for; without an embedding client
  each is the head of the main branch.
\<close>
theorem store_search_sound:
  assumes "search_cone env query top_k min_score c level st = Some rs" and "0 \<le> top_k"
  shows "int (length rs) \<le> top_k \<and> sorted_wrt (\<lambda>a b. sr_score b \<le> sr_score a) rs \<and>
    (\<forall>res \<in> set rs. \<exists>r \<in> set (if se_embed env = None then head_rows st else ts_rows st). reports c st res r)"
proof -
  obtain scored where scored: "ranked top_k scored = Some rs"
    and rows: "\<forall>(r, x) \<in> set scored. r \<in> set (if se_embed env = None then head_rows st else ts_rows st) \<and>
        r \<in> set (ts_rows st) \<and> cone_where c st r"
  proof (cases "case se_embed env of None \<Rightarrow> None | Some emb \<Rightarrow> emb query")
    case None
    show ?thesis
      by (rule that) (use assms(1) None in \<open>auto simp: search_cone_def store_keyword_search_def head_rows_def\<close>)
  next
    case (Some qv)
    then have e: "se_embed env \<noteq> None" by (auto split: option.splits)
    show ?thesis
    proof (rule that)
      show "ranked top_k (filter (\<lambda>(_, score). min_score \<le> score) (map (\<lambda>(r, vec). (r, se_similarity env qv vec))
          (let level = (if level = ''l2'' then ''l2'' else ''l1''); rows = vec_rows level c st
           in if rows = [] \<and> level = ''l2'' then vec_rows ''l1'' c st else rows))) = Some rs"
        using assms(1) Some by (simp add: search_cone_def json_search_def Let_def)
    qed (use e in \<open>auto simp: Let_def dest: vec_rows_mem split: if_splits\<close>)
  qed
  from ranked_sound [OF scored assms(2)] rows show ?thesis by (fastforce intro: make_reports)
qed

theorem store_search_sound_witness:
  "let c = \<lparr>cn_exclude = [], cn_tags = [], cn_risk_ceiling = ''low'', cn_exclude_lineages = []\<rparr>;
       rs = the (search_cone (demo_env ''5'') ''b'' 3 0 c ''l1'' demo_store)
   in length rs = 1 \<and> (\<forall>res \<in> set rs. \<exists>r \<in> set (head_rows demo_store). reports c demo_store res r)"
proof -
  let ?c = "\<lparr>cn_exclude = [], cn_tags = [], cn_risk_ceiling = ''low'', cn_exclude_lineages = []\<rparr>"
  let ?s = "search_cone (demo_env ''5'') ''b'' 3 0 ?c ''l1'' demo_store"
  have "?s \<noteq> None" by code_simp
  then have "?s = Some (the ?s)" by simp
  from store_search_sound [OF this] have "\<forall>res \<in> set (the ?s). \<exists>r \<in> set (head_rows demo_store). reports ?c demo_store res r"
    by (simp add: demo_env_def)
  moreover have "length (the ?s) = 1" by code_simp
  ultimately show ?thesis by (simp add: Let_def)
qed

end
