(* ===== verification/StoreFindings.thy ===== *)
theory StoreFindings
  imports StoreProps StoreMergeProps
begin

text \<open>
  Where the tool store departs from what its documentation says, each on a short run of operations:
  the head flag and the newest row disagree, the head can get lost, tags stay behind, and a second
  merge of a branch conflicts with the first.
\<close>

abbreviation run_store :: "store_op list \<Rightarrow> tool_store" where
  "run_store ops \<equiv> fold store_step ops new_store"

text \<open>The versions of the heads that \<open>list_tools\<close> returns.\<close>

definition listed :: "tool_store \<Rightarrow> string list" where
  "listed st = map te_version (store_list_tools [] [] st)"

definition any_cone :: cone where
  "any_cone = \<lparr>cn_exclude = [], cn_tags = [], cn_risk_ceiling = ''critical'', cn_exclude_lineages = []\<rparr>"

text \<open>
  A lower version that is upserted after 1.0.0 does not take the head flag, but \<open>get_latest_version\<close> and
  \<open>get_head_version\<close> return it, and the next \<open>create_version\<close> continues it and makes its successor the head.
\<close>

lemma lower_upsert_usurps:
  "let st = run_store [Upsert (demo_env ''1'') (store_entry ''1.0.0'' ''a''), Upsert (demo_env ''2'') (store_entry ''0.0.5'' ''b'')];
       st' = store_step (CreateVersion (demo_env ''3'') ''t'' (store_definition ''c'') [] BumpPatch main_branch None) st
   in listed st = [''1.0.0''] \<and> map_option te_version (get_head_version ''t'' st) = Some ''0.0.5'' \<and> listed st' = [''0.0.6'']"
  by code_simp

text \<open>After that, importing 1.0.0 again clears the flag of the head and sets none: the tool is listed no more.\<close>

lemma reupsert_loses_head:
  "listed (run_store [Upsert (demo_env ''1'') (store_entry ''1.0.0'' ''a''), Upsert (demo_env ''2'') (store_entry ''0.0.5'' ''b''),
     CreateVersion (demo_env ''3'') ''t'' (store_definition ''c'') [] BumpPatch main_branch None,
     Upsert (demo_env ''4'') (store_entry ''1.0.0'' ''a'')]) = []"
  by code_simp

text \<open>Deleting the head version leaves the older versions without a head.\<close>

lemma delete_head_unlists:
  "let st = run_store [Upsert (demo_env ''1'') (store_entry ''1.0.0'' ''a''),
         CreateVersion (demo_env ''2'') ''t'' (store_definition ''b'') [] BumpPatch main_branch None, DeleteTool ''t'' ''1.0.1'']
   in listed st = [] \<and> map_option te_version (get_latest_version ''t'' st) = Some ''1.0.0''"
  by code_simp

text \<open>Deleting all versions of a tool that does not exist reports success.\<close>

lemma delete_missing_succeeds: "fst (delete_tool n [] new_store)"
  by (simp add: delete_tool_def)

text \<open>
  A new version has none of the tags of the old one: the search by keywords, which looks at heads only,
  finds nothing for the tag, and the search by tags returns the old version.
\<close>

lemma tags_stay_behind:
  "let st = run_store [Upsert (demo_env ''1'') (store_entry ''1.0.0'' ''a''), AddTag ''t'' ''mail''];
       st' = store_step (CreateVersion (demo_env ''2'') ''t'' (store_definition ''b'') [] BumpPatch main_branch None) st;
       c = any_cone\<lparr>cn_tags := [''mail'']\<rparr>
   in length (filter (cone_where c st) (head_rows st)) = 1 \<and> filter (cone_where c st') (head_rows st') = [] \<and>
      map te_version (search_by_tags [''mail''] st') = [''1.0.0'']"
  by code_simp

text \<open>A tag added after a branch was created goes to the row of the branch.\<close>

lemma tag_goes_to_branch:
  "let st = run_store [Upsert (demo_env ''1'') (store_entry ''1.0.0'' ''a''), CreateBranch (demo_env ''2'') ''t'' ''dev'' [],
         AddTag ''t'' ''mail'']
   in ts_tags st = [(''t@dev/1.0.0'', ''mail'')] \<and> filter (cone_where (any_cone\<lparr>cn_tags := [''mail'']\<rparr>) st) (head_rows st) = []"
  by code_simp

text \<open>
  The base of a merge is always the point where the branch was forked: merging a branch that has not
  changed since it was merged conflicts with a later change of the target.
\<close>

lemma second_merge_conflicts:
  "let st = run_store [Upsert (demo_env ''1'') (store_entry ''1.0.0'' ''a''), CreateBranch (demo_env ''2'') ''t'' ''dev'' [],
         CreateVersion (demo_env ''3'') ''t'' (store_definition ''b'') [] BumpPatch ''dev'' None,
         MergeBranch (demo_env ''4'') ''t'' ''dev'' main_branch,
         CreateVersion (demo_env ''5'') ''t'' (store_definition ''c'') [] BumpPatch main_branch None]
   in (case merge_branch (demo_env ''6'') ''t'' ''dev'' main_branch st of
         Inl err \<Rightarrow> err = VersionConflict [''description''] | Inr _ \<Rightarrow> False) \<and>
      map_option rw_definition (newest (branch_rows ''t'' ''dev'' st)) = Some (store_definition ''b'')"
  by code_simp

text \<open>A branch that exists can be created again from another version; the snapshot becomes its head.\<close>

lemma branch_created_twice:
  "let st = run_store [Upsert (demo_env ''1'') (store_entry ''1.0.0'' ''a''), CreateBranch (demo_env ''2'') ''t'' ''dev'' [],
         CreateVersion (demo_env ''3'') ''t'' (store_definition ''b'') [] BumpPatch ''dev'' None,
         CreateVersion (demo_env ''4'') ''t'' (store_definition ''c'') [] BumpMinor main_branch None,
         CreateBranch (demo_env ''5'') ''t'' ''dev'' []]
   in map (\<lambda>r. (rw_version r, rw_definition r)) (heads ''t'' ''dev'' st) = [(''1.1.0'', store_definition ''c'')]"
  by code_simp

text \<open>
  The search by vectors is not restricted to heads: with a client that embeds every text, the vectors
  of all versions and branches compete, so one tool fills several results.
\<close>

lemma vector_search_finds_old_versions:
  "let env = (\<lambda>now. (demo_env now)\<lparr>se_embed := Some (\<lambda>_. Some [1])\<rparr>);
       st = run_store [Upsert (env ''1'') (store_entry ''1.0.0'' ''a''), UpdateEmbedding (env ''2'') ''t'',
         CreateVersion (env ''3'') ''t'' (store_definition ''b'') [] BumpPatch main_branch None]
   in map (rw_version \<circ> fst) (vec_rows ''l1'' any_cone st) = [''1.0.0'', ''1.0.1''] \<and> map rw_version (head_rows st) = [''1.0.1'']"
  by code_simp

text \<open>
  Promotion returns the key of an existing 1.0.0 without making it the head: the candidate stays the head.
\<close>

lemma promote_leaves_candidate:
  "let st = run_store [Upsert (demo_env ''1'') (store_entry ''1.0.0'' ''a''), Upsert (demo_env ''2'') (store_entry ''0.0.5'' ''b''),
         CreateVersion (demo_env ''3'') ''t'' (store_definition ''c'') [] BumpPatch main_branch None]
   in fst (promote_to_stable (demo_env ''4'') ''t'' [] st) = Some ''t@1.0.0'' \<and>
      listed (snd (promote_to_stable (demo_env ''4'') ''t'' [] st)) = [''0.0.6'']"
  by code_simp

text \<open>The version inside a stored definition is the one that was passed, not that of the row.\<close>

lemma definition_keeps_old_version:
  "map (\<lambda>r. (rw_version r, td_version (rw_definition r))) (head_rows demo_store) = [(''1.0.1'', ''0.0.1'')]"
  by code_simp

end
