(* ===== verification/Knowledge.thy ===== *)
theory Knowledge
  imports Strings Versioning
begin

text \<open>
  \<open>youmi/knowledge/models.py\<close>, \<open>global_memory.py\<close> and \<open>feedback.py\<close>: the knowledge base of tool
  experiences and the collector of human feedback. The table of entries is a list of rows in the order
  of their ids; rows with the same time of update keep that order in a listing (SQLite does not fix
  it). Clocks, entry ids, the embedding client and the cosine similarity are arguments. The KNN index
  of the sqlite-vec extension, the migration of old databases and \<open>stats\<close> are not modelled.
\<close>

section \<open>Entries\<close>

datatype knowledge_category = TOOL_EXPERIENCE | TASK_PATTERN | BUG_FIX | HUMAN_FEEDBACK

record knowledge_entry =
  ke_entry_id :: string
  ke_category :: knowledge_category
  ke_tool_name :: string
  ke_content :: string
  ke_embedding :: "rat list option"
  ke_source_task_id :: string
  ke_source_agent_id :: string
  ke_tenant :: string
  ke_success_rate :: rat
  ke_resolved :: bool
  ke_resolution :: string
  ke_metadata :: "(string, json) dict"
  ke_created_at :: rat
  ke_updated_at :: rat

record tool_knowledge =
  tk_tool_name :: string
  tk_best_practices :: "string list"
  tk_known_issues :: "string list"
  tk_resolved_issues :: "string list"
  tk_fix_history :: "string list"
  tk_human_feedback :: "string list"
  tk_entry_ids :: "string list"

definition knowledge_is_empty :: "tool_knowledge \<Rightarrow> bool" where
  "knowledge_is_empty k \<longleftrightarrow>
     tk_best_practices k = [] \<and> tk_known_issues k = [] \<and> tk_resolved_issues k = [] \<and> tk_fix_history k = [] \<and>
     tk_human_feedback k = []"

text \<open>The database that the views of all tenants share.\<close>

record knowledge_db =
  kd_entries :: "knowledge_entry list"
  kd_vectors :: "(string, rat list) dict"

definition empty_knowledge :: knowledge_db where
  "empty_knowledge = \<lparr>kd_entries = [], kd_vectors = []\<rparr>"

text \<open>A view: its tenant and what it is given from outside.\<close>

record memory_view =
  mv_tenant :: string
  mv_now :: rat
  mv_embed :: "(string \<Rightarrow> rat list option) option"
  mv_embed_many :: "string list \<Rightarrow> rat list list option"
  mv_similarity :: "rat list \<Rightarrow> rat list \<Rightarrow> rat"

definition default_tenant :: string where
  "default_tenant = ''default''"

definition clone_for_tenant :: "string \<Rightarrow> memory_view \<Rightarrow> memory_view" where
  "clone_for_tenant tenant mv = mv\<lparr>mv_tenant := (if tenant \<noteq> [] then tenant else default_tenant)\<rparr>"

section \<open>Writing\<close>

text \<open>\<open>INSERT ... ON CONFLICT(entry_id) DO UPDATE\<close>.\<close>

definition update_entry :: "knowledge_entry \<Rightarrow> knowledge_entry \<Rightarrow> knowledge_entry" where
  "update_entry new e =
     e\<lparr>ke_content := ke_content new, ke_resolved := ke_resolved new, ke_resolution := ke_resolution new,
       ke_success_rate := ke_success_rate new, ke_metadata := ke_metadata new, ke_updated_at := ke_updated_at new\<rparr>"

definition insert_entry :: "knowledge_entry \<Rightarrow> knowledge_db \<Rightarrow> knowledge_db" where
  "insert_entry e db =
     \<lparr>kd_entries = (if \<exists>x \<in> set (kd_entries db). ke_entry_id x = ke_entry_id e
         then map (\<lambda>x. if ke_entry_id x = ke_entry_id e then update_entry e x else x) (kd_entries db)
         else kd_entries db @ [e\<lparr>ke_embedding := None\<rparr>]),
      kd_vectors = (case ke_embedding e of None \<Rightarrow> kd_vectors db | Some v \<Rightarrow> dset (ke_entry_id e) v (kd_vectors db))\<rparr>"

definition add_experience :: "memory_view \<Rightarrow> string \<Rightarrow> string \<Rightarrow> string \<Rightarrow> knowledge_category \<Rightarrow> string \<Rightarrow> string \<Rightarrow>
    rat \<Rightarrow> (string, json) dict \<Rightarrow> knowledge_db \<Rightarrow> knowledge_entry \<times> knowledge_db" where
  "add_experience mv eid tool content category task agent rate metadata db =
     (let e = \<lparr>ke_entry_id = eid, ke_category = category, ke_tool_name = tool, ke_content = content,
                ke_embedding = (case mv_embed mv of None \<Rightarrow> None | Some f \<Rightarrow> f content),
                ke_source_task_id = task, ke_source_agent_id = agent, ke_tenant = mv_tenant mv,
                ke_success_rate = rate, ke_resolved = False, ke_resolution = [], ke_metadata = metadata,
                ke_created_at = mv_now mv, ke_updated_at = mv_now mv\<rparr>
      in (e, insert_entry e db))"

definition add_feedback :: "memory_view \<Rightarrow> string \<Rightarrow> string \<Rightarrow> string \<Rightarrow> string \<Rightarrow> string \<Rightarrow> string \<Rightarrow>
    knowledge_db \<Rightarrow> knowledge_entry \<times> knowledge_db" where
  "add_feedback mv eid tool feedback rating task agent db =
     add_experience mv eid tool feedback HUMAN_FEEDBACK task agent 0 [(''rating'', JStr rating)] db"

text \<open>\<open>batch_add\<close>: a vector for each entry that has none, in order, as far as the client gives them.\<close>

fun assign_vectors :: "knowledge_entry list \<Rightarrow> rat list list \<Rightarrow> knowledge_entry list" where
  "assign_vectors [] vs = []"
| "assign_vectors (e # es) vs =
     (if ke_embedding e \<noteq> None then e # assign_vectors es vs
      else (case vs of [] \<Rightarrow> e # assign_vectors es [] | v # vs \<Rightarrow> e\<lparr>ke_embedding := Some v\<rparr> # assign_vectors es vs))"

definition own_entry :: "memory_view \<Rightarrow> knowledge_entry \<Rightarrow> knowledge_entry" where
  "own_entry mv e = (if ke_tenant e = default_tenant then e\<lparr>ke_tenant := mv_tenant mv\<rparr> else e)"

definition batch_add :: "memory_view \<Rightarrow> knowledge_entry list \<Rightarrow> knowledge_db \<Rightarrow> string list \<times> knowledge_db" where
  "batch_add mv entries db =
     (let es = map (own_entry mv) entries;
          unembedded = filter (\<lambda>e. ke_embedding e = None) es;
          es = (if mv_embed mv = None \<or> unembedded = [] then es
                else (case mv_embed_many mv (map ke_content unembedded) of None \<Rightarrow> es | Some vs \<Rightarrow> assign_vectors es vs))
      in (map ke_entry_id es, fold insert_entry es db))"

section \<open>Reading\<close>

definition sql_limit :: "int \<Rightarrow> 'a list \<Rightarrow> 'a list" where
  "sql_limit k xs = (if k < 0 then xs else take (nat k) xs)"

definition get_knowledge_entry :: "memory_view \<Rightarrow> string \<Rightarrow> knowledge_db \<Rightarrow> knowledge_entry option" where
  "get_knowledge_entry mv eid db =
     List.find (\<lambda>e. ke_entry_id e = eid \<and> ke_tenant e = mv_tenant mv) (kd_entries db)"

definition list_entries :: "memory_view \<Rightarrow> string option \<Rightarrow> knowledge_category option \<Rightarrow> bool \<Rightarrow> int \<Rightarrow> knowledge_db \<Rightarrow>
    knowledge_entry list" where
  "list_entries mv tool category unresolved_only k db =
     sql_limit k (sort_desc ke_updated_at
       (filter (\<lambda>e. ke_tenant e = mv_tenant mv \<and> (tool = None \<or> tool = Some (ke_tool_name e)) \<and>
                   (category = None \<or> category = Some (ke_category e)) \<and> (unresolved_only \<longrightarrow> \<not> ke_resolved e))
          (kd_entries db)))"

text \<open>\<open>mark_resolved\<close>.\<close>

definition mark_resolved :: "memory_view \<Rightarrow> string \<Rightarrow> string \<Rightarrow> knowledge_db \<Rightarrow> knowledge_entry option \<times> knowledge_db" where
  "mark_resolved mv eid fx db =
     (if get_knowledge_entry mv eid db = None then (None, db)
      else (let db = db\<lparr>kd_entries := map (\<lambda>e. if ke_entry_id e = eid \<and> ke_tenant e = mv_tenant mv
                          then e\<lparr>ke_resolved := True, ke_resolution := fx, ke_updated_at := mv_now mv\<rparr> else e) (kd_entries db)\<rparr>
            in (get_knowledge_entry mv eid db, db)))"

definition delete_entry :: "memory_view \<Rightarrow> string \<Rightarrow> knowledge_db \<Rightarrow> bool \<times> knowledge_db" where
  "delete_entry mv eid db =
     (if get_knowledge_entry mv eid db = None then (False, db)
      else (True, \<lparr>kd_entries = filter (\<lambda>e. \<not> (ke_entry_id e = eid \<and> ke_tenant e = mv_tenant mv)) (kd_entries db),
                   kd_vectors = ddel eid (kd_vectors db)\<rparr>))"

definition word_hits :: "string \<Rightarrow> knowledge_entry \<Rightarrow> nat" where
  "word_hits query e = length (filter (\<lambda>w. is_substring w (lower (ke_content e))) (split_ws (lower query)))"

definition knowledge_keyword_search :: "knowledge_entry list \<Rightarrow> string \<Rightarrow> int \<Rightarrow> knowledge_entry list" where
  "knowledge_keyword_search entries query top_k =
     map fst (filter (\<lambda>(_, score). 0 < score)
       (slice_to top_k (sort_desc snd (map (\<lambda>e. (e, word_hits query e)) entries))))"

definition knowledge_json_search :: "memory_view \<Rightarrow> rat list \<Rightarrow> string option \<Rightarrow> int \<Rightarrow> knowledge_db \<Rightarrow> knowledge_entry list" where
  "knowledge_json_search mv query_vec tool top_k db =
     map fst (filter (\<lambda>(_, score). 1 / 10 < score)
       (slice_to top_k (sort_desc snd
          (map (\<lambda>e. (e, mv_similarity mv query_vec
                       (case dget (kd_vectors db) (ke_entry_id e) of None \<Rightarrow> [] | Some v \<Rightarrow> v)))
             (list_entries mv tool None False 1000 db)))))"

definition knowledge_search :: "memory_view \<Rightarrow> string \<Rightarrow> string option \<Rightarrow> int \<Rightarrow> knowledge_db \<Rightarrow> knowledge_entry list" where
  "knowledge_search mv query tool top_k db =
     (if strip query = [] then []
      else (let hits = (case (case mv_embed mv of None \<Rightarrow> None | Some f \<Rightarrow> f query) of
                          None \<Rightarrow> [] | Some qv \<Rightarrow> knowledge_json_search mv qv tool top_k db)
            in if hits \<noteq> [] then hits
               else knowledge_keyword_search (list_entries mv tool None False 1000 db) query top_k))"

section \<open>The knowledge of a tool\<close>

text \<open>The tags and the note of a fix are Chinese in the code; these are their ASCII stand-ins.\<close>

definition rated :: "knowledge_entry \<Rightarrow> string \<Rightarrow> bool" where
  "rated e rating \<longleftrightarrow> dget (ke_metadata e) ''rating'' = Some (JStr rating)"

definition feedback_text :: "knowledge_entry \<Rightarrow> string" where
  "feedback_text e = (if rated e ''positive'' then ''[positive] '' else ''[negative] '') @ ke_content e"

definition resolved_text :: "knowledge_entry \<Rightarrow> string" where
  "resolved_text e =
     (if ke_resolution e \<noteq> [] then ke_content e @ '' (fixed: '' @ ke_resolution e @ '')'' else ke_content e)"

definition learn :: "knowledge_entry \<Rightarrow> tool_knowledge \<Rightarrow> tool_knowledge" where
  "learn e k =
     (let k = k\<lparr>tk_entry_ids := tk_entry_ids k @ [ke_entry_id e]\<rparr> in
      if ke_category e = HUMAN_FEEDBACK then k\<lparr>tk_human_feedback := tk_human_feedback k @ [feedback_text e]\<rparr>
      else if ke_category e = BUG_FIX then k\<lparr>tk_fix_history := tk_fix_history k @ [ke_content e]\<rparr>
      else if ke_category e = TASK_PATTERN then k
      else if ke_resolved e then k\<lparr>tk_resolved_issues := tk_resolved_issues k @ [resolved_text e]\<rparr>
      else if 4 / 5 \<le> ke_success_rate e then k\<lparr>tk_best_practices := tk_best_practices k @ [ke_content e]\<rparr>
      else k\<lparr>tk_known_issues := tk_known_issues k @ [ke_content e]\<rparr>)"

definition no_knowledge :: "string \<Rightarrow> tool_knowledge" where
  "no_knowledge tool = \<lparr>tk_tool_name = tool, tk_best_practices = [], tk_known_issues = [], tk_resolved_issues = [],
     tk_fix_history = [], tk_human_feedback = [], tk_entry_ids = []\<rparr>"

definition get_tool_knowledge :: "memory_view \<Rightarrow> string \<Rightarrow> knowledge_db \<Rightarrow> tool_knowledge" where
  "get_tool_knowledge mv tool db = fold learn (list_entries mv (Some tool) None False 500 db) (no_knowledge tool)"

section \<open>Feedback\<close>

definition record_feedback :: "memory_view \<Rightarrow> string \<Rightarrow> string \<Rightarrow> string \<Rightarrow> string \<Rightarrow> string \<Rightarrow> string \<Rightarrow>
    knowledge_db \<Rightarrow> (knowledge_entry \<times> knowledge_db) option" where
  "record_feedback mv eid tool feedback rating task agent db =
     (if rating \<notin> {''positive'', ''negative''} then None
      else Some (add_feedback mv eid tool feedback rating task agent db))"

definition open_negative :: "knowledge_entry \<Rightarrow> bool" where
  "open_negative e \<longleftrightarrow> rated e ''negative'' \<and> \<not> ke_resolved e"

definition negative_feedback_count :: "memory_view \<Rightarrow> string \<Rightarrow> knowledge_db \<Rightarrow> nat" where
  "negative_feedback_count mv tool db =
     length (filter open_negative (list_entries mv (Some tool) (Some HUMAN_FEEDBACK) False 500 db))"

definition negative_counts :: "knowledge_entry list \<Rightarrow> (string, nat) dict" where
  "negative_counts es =
     fold (\<lambda>e c. dset (ke_tool_name e) ((case dget c (ke_tool_name e) of None \<Rightarrow> 0 | Some n \<Rightarrow> n) + 1) c)
       (filter open_negative es) []"

definition tools_over_threshold :: "memory_view \<Rightarrow> nat \<Rightarrow> knowledge_db \<Rightarrow> (string \<times> nat) list" where
  "tools_over_threshold mv threshold db =
     sort_desc snd (filter (\<lambda>(_, n). threshold \<le> n)
       (negative_counts (list_entries mv None (Some HUMAN_FEEDBACK) False 1000 db)))"

definition recent_feedback :: "memory_view \<Rightarrow> int \<Rightarrow> knowledge_db \<Rightarrow> knowledge_entry list" where
  "recent_feedback mv k db = list_entries mv None (Some HUMAN_FEEDBACK) False k db"

section \<open>Tenants\<close>

text \<open>What a tenant can see: its rows, in order.\<close>

definition tenant_rows :: "string \<Rightarrow> knowledge_db \<Rightarrow> knowledge_entry list" where
  "tenant_rows t db = filter (\<lambda>e. ke_tenant e = t) (kd_entries db)"

lemma find_filter: "List.find (\<lambda>x. Q x \<and> P x) xs = List.find Q (filter P xs)"
  by (induction xs) auto

lemma get_from_rows: "get_knowledge_entry mv eid db = List.find (\<lambda>e. ke_entry_id e = eid) (tenant_rows (mv_tenant mv) db)"
  by (simp add: get_knowledge_entry_def tenant_rows_def find_filter)

lemma list_from_rows: "list_entries mv tool cat u k db = sql_limit k (sort_desc ke_updated_at
    (filter (\<lambda>e. (tool = None \<or> tool = Some (ke_tool_name e)) \<and> (cat = None \<or> cat = Some (ke_category e)) \<and>
        (u \<longrightarrow> \<not> ke_resolved e)) (tenant_rows (mv_tenant mv) db)))"
  by (simp add: list_entries_def tenant_rows_def conj_commute conj_left_commute)

text \<open>The operations of the views.\<close>

datatype memory_op =
  AddExperience memory_view string string string knowledge_category string string rat "(string, json) dict"
| BatchAdd memory_view "knowledge_entry list"
| MarkResolved memory_view string string
| DeleteEntry memory_view string

fun memory_step :: "memory_op \<Rightarrow> knowledge_db \<Rightarrow> knowledge_db" where
  "memory_step (AddExperience mv eid tool content cat task agent rate meta) db =
     snd (add_experience mv eid tool content cat task agent rate meta db)"
| "memory_step (BatchAdd mv es) db = snd (batch_add mv es db)"
| "memory_step (MarkResolved mv eid fx) db = snd (mark_resolved mv eid fx db)"
| "memory_step (DeleteEntry mv eid) db = snd (delete_entry mv eid db)"

fun op_tenant :: "memory_op \<Rightarrow> string" where
  "op_tenant (AddExperience mv _ _ _ _ _ _ _ _) = mv_tenant mv"
| "op_tenant (BatchAdd mv _) = mv_tenant mv"
| "op_tenant (MarkResolved mv _ _) = mv_tenant mv"
| "op_tenant (DeleteEntry mv _) = mv_tenant mv"

text \<open>The ids that an operation writes.\<close>

fun written_ids :: "memory_op \<Rightarrow> string list" where
  "written_ids (AddExperience _ eid _ _ _ _ _ _ _) = [eid]"
| "written_ids (BatchAdd _ es) = map ke_entry_id es"
| "written_ids _ = []"

text \<open>An operation spares a tenant when it does not write its ids and no prepared entry names it.\<close>

definition spares :: "string \<Rightarrow> knowledge_db \<Rightarrow> memory_op \<Rightarrow> bool" where
  "spares t db x \<longleftrightarrow> op_tenant x \<noteq> t \<and> (\<forall>e \<in> set (tenant_rows t db). ke_entry_id e \<notin> set (written_ids x)) \<and>
     (case x of BatchAdd _ es \<Rightarrow> list_all (\<lambda>e. ke_tenant e \<noteq> t \<or> ke_tenant e = default_tenant) es | _ \<Rightarrow> True)"

lemma insert_other_tenant:
  assumes "ke_tenant e \<noteq> t" and "\<forall>x \<in> set (tenant_rows t db). ke_entry_id x \<noteq> ke_entry_id e"
  shows "tenant_rows t (insert_entry e db) = tenant_rows t db"
proof (cases "\<exists>x \<in> set (kd_entries db). ke_entry_id x = ke_entry_id e")
  case True
  have u: "ke_tenant (update_entry e x) = ke_tenant x" for x by (simp add: update_entry_def)
  have "filter (\<lambda>x. ke_tenant x = t) (map (\<lambda>x. if ke_entry_id x = ke_entry_id e then update_entry e x else x) xs) =
      filter (\<lambda>x. ke_tenant x = t) xs" if "\<forall>x \<in> set xs. ke_tenant x = t \<longrightarrow> ke_entry_id x \<noteq> ke_entry_id e" for xs
    using that by (induction xs) (auto simp: u)
  with assms(2) True show ?thesis by (simp add: insert_entry_def tenant_rows_def)
next
  case False
  then show ?thesis using assms(1) by (simp add: insert_entry_def tenant_rows_def)
qed

lemma inserts_other_tenant:
  assumes "\<forall>e \<in> set es. ke_tenant e \<noteq> t" and "\<forall>x \<in> set (tenant_rows t db). ke_entry_id x \<notin> set (map ke_entry_id es)"
  shows "tenant_rows t (fold insert_entry es db) = tenant_rows t db"
  using assms by (induction es arbitrary: db) (simp_all add: insert_other_tenant)

lemma assign_vectors_keeps:
  "map ke_tenant (assign_vectors es vs) = map ke_tenant es" "map ke_entry_id (assign_vectors es vs) = map ke_entry_id es"
  by (induction es vs rule: assign_vectors.induct) (auto split: list.split)

lemma own_entry_id [simp]: "ke_entry_id (own_entry mv e) = ke_entry_id e"
  by (simp add: own_entry_def)

lemma step_other_tenant:
  assumes "spares t db x"
  shows "tenant_rows t (memory_step x db) = tenant_rows t db"
proof (cases x)
  case (AddExperience mv eid tool content cat task agent rate meta)
  with assms show ?thesis
    by (simp add: add_experience_def Let_def spares_def) (rule insert_other_tenant, auto)
next
  case (BatchAdd mv es)
  define xs where "xs = (let es = map (own_entry mv) es; unembedded = filter (\<lambda>e. ke_embedding e = None) es
      in if mv_embed mv = None \<or> unembedded = [] then es
         else (case mv_embed_many mv (map ke_content unembedded) of None \<Rightarrow> es | Some vs \<Rightarrow> assign_vectors es vs))"
  have step: "memory_step x db = fold insert_entry xs db"
    using BatchAdd by (simp add: batch_add_def xs_def Let_def)
  have k: "map ke_tenant xs = map ke_tenant (map (own_entry mv) es) \<and> map ke_entry_id xs = map ke_entry_id es"
    unfolding xs_def Let_def
    by (auto simp: assign_vectors_keeps o_def split: option.split)
  have "ke_tenant e \<noteq> t" if "e \<in> set xs" for e
  proof -
    from k that have "ke_tenant e \<in> set (map ke_tenant (map (own_entry mv) es))" by (metis image_eqI list.set_map)
    with assms BatchAdd show ?thesis by (auto simp: spares_def own_entry_def list_all_iff split: if_splits)
  qed
  moreover have "\<forall>y \<in> set (tenant_rows t db). ke_entry_id y \<notin> set (map ke_entry_id xs)"
    using assms BatchAdd k by (simp add: spares_def)
  ultimately show ?thesis unfolding step by (intro inserts_other_tenant) simp_all
next
  case (MarkResolved mv eid fx)
  then have "mv_tenant mv \<noteq> t" using assms by (simp add: spares_def)
  then have "filter (\<lambda>e. ke_tenant e = t) (map (\<lambda>e. if ke_entry_id e = eid \<and> ke_tenant e = mv_tenant mv
      then e\<lparr>ke_resolved := True, ke_resolution := fx, ke_updated_at := mv_now mv\<rparr> else e) xs) =
      filter (\<lambda>e. ke_tenant e = t) xs" for xs :: "knowledge_entry list"
    by (induction xs) auto
  with MarkResolved show ?thesis by (simp add: mark_resolved_def Let_def tenant_rows_def)
next
  case (DeleteEntry mv eid)
  then have "mv_tenant mv \<noteq> t" using assms by (simp add: spares_def)
  then have "filter (\<lambda>e. ke_tenant e = t) (filter (\<lambda>e. \<not> (ke_entry_id e = eid \<and> ke_tenant e = mv_tenant mv)) xs) =
      filter (\<lambda>e. ke_tenant e = t) xs" for xs :: "knowledge_entry list"
    by (induction xs) auto
  with DeleteEntry show ?thesis by (simp add: delete_entry_def tenant_rows_def)
qed

fun all_spare :: "string \<Rightarrow> knowledge_db \<Rightarrow> memory_op list \<Rightarrow> bool" where
  "all_spare t db [] \<longleftrightarrow> True"
| "all_spare t db (x # xs) \<longleftrightarrow> spares t db x \<and> all_spare t (memory_step x db) xs"

text \<open>
  C31: Whatever other tenants add, resolve and delete, a tenant's view of the shared database stays the
  same: its entries, its listings and its knowledge of every tool. (Ids are assumed not to collide, and
  prepared entries of a batch not to name the tenant.)
\<close>
theorem knowledge_tenants_isolated:
  assumes "all_spare t db ops" and "mv_tenant mv = t"
  shows "tenant_rows t (fold memory_step ops db) = tenant_rows t db \<and>
    get_knowledge_entry mv eid (fold memory_step ops db) = get_knowledge_entry mv eid db \<and>
    list_entries mv tool cat u k (fold memory_step ops db) = list_entries mv tool cat u k db \<and>
    get_tool_knowledge mv n (fold memory_step ops db) = get_tool_knowledge mv n db"
proof -
  have "tenant_rows t (fold memory_step ops db) = tenant_rows t db"
    using assms(1) by (induction ops arbitrary: db) (simp_all add: step_other_tenant)
  then show ?thesis by (simp add: get_from_rows list_from_rows get_tool_knowledge_def assms(2))
qed

definition demo_view :: "string \<Rightarrow> rat \<Rightarrow> memory_view" where
  "demo_view tenant now = \<lparr>mv_tenant = tenant, mv_now = now, mv_embed = None, mv_embed_many = (\<lambda>_. None),
     mv_similarity = (\<lambda>_ _. 0)\<rparr>"

definition demo_knowledge :: knowledge_db where
  "demo_knowledge = fold memory_step
     [AddExperience (demo_view ''a'' 1) ''e1'' ''mail'' ''use the full address'' TOOL_EXPERIENCE [] [] 1 [],
      AddExperience (demo_view ''a'' 2) ''e2'' ''mail'' ''fails on lists'' TOOL_EXPERIENCE [] [] 0 [],
      AddExperience (demo_view ''b'' 3) ''e3'' ''mail'' ''slow'' TOOL_EXPERIENCE [] [] 0 []] empty_knowledge"

theorem knowledge_tenants_isolated_witness:
  "all_spare ''a'' demo_knowledge [MarkResolved (demo_view ''b'' 4) ''e1'' ''x'', DeleteEntry (demo_view ''b'' 5) ''e2''] \<and>
   get_tool_knowledge (demo_view ''a'' 9) ''mail'' (fold memory_step
     [MarkResolved (demo_view ''b'' 4) ''e1'' ''x'', DeleteEntry (demo_view ''b'' 5) ''e2''] demo_knowledge) =
   get_tool_knowledge (demo_view ''a'' 9) ''mail'' demo_knowledge \<and>
   map ke_entry_id (tenant_rows ''a'' demo_knowledge) = [''e1'', ''e2'']"
proof -
  let ?ops = "[MarkResolved (demo_view ''b'' 4) ''e1'' ''x'', DeleteEntry (demo_view ''b'' 5) ''e2'']"
  have 1: "all_spare ''a'' demo_knowledge ?ops" by code_simp
  have 2: "mv_tenant (demo_view ''a'' 9) = ''a''" by (simp add: demo_view_def)
  have "map ke_entry_id (tenant_rows ''a'' demo_knowledge) = [''e1'', ''e2'']" by code_simp
  with 1 knowledge_tenants_isolated [OF 1 2] show ?thesis by blast
qed

section \<open>What the knowledge of a tool consists of\<close>

definition open_experience :: "knowledge_entry \<Rightarrow> bool" where
  "open_experience e \<longleftrightarrow> ke_category e = TOOL_EXPERIENCE \<and> \<not> ke_resolved e"

lemma fold_learn:
  "fold learn es k =
     k\<lparr>tk_best_practices := tk_best_practices k @ map ke_content (filter (\<lambda>e. open_experience e \<and> 4 / 5 \<le> ke_success_rate e) es),
       tk_known_issues := tk_known_issues k @ map ke_content (filter (\<lambda>e. open_experience e \<and> \<not> 4 / 5 \<le> ke_success_rate e) es),
       tk_resolved_issues := tk_resolved_issues k @
         map resolved_text (filter (\<lambda>e. ke_category e = TOOL_EXPERIENCE \<and> ke_resolved e) es),
       tk_fix_history := tk_fix_history k @ map ke_content (filter (\<lambda>e. ke_category e = BUG_FIX) es),
       tk_human_feedback := tk_human_feedback k @ map feedback_text (filter (\<lambda>e. ke_category e = HUMAN_FEEDBACK) es),
       tk_entry_ids := tk_entry_ids k @ map ke_entry_id es\<rparr>"
proof (induction es arbitrary: k)
  case (Cons e es)
  show ?case unfolding fold.simps o_apply Cons
    by (cases "ke_category e") (simp_all add: learn_def open_experience_def Let_def)
qed simp

text \<open>
  The knowledge of a tool sorts its (at most 500 latest) entries: open experiences with a success
  rate of at least 0.8 are best practices, the other open ones known issues, resolved ones resolved
  issues, fixes the history and feedback the feedback; every entry is counted once.
\<close>
theorem tool_knowledge_sorted:
  "let es = list_entries mv (Some n) None False 500 db; k = get_tool_knowledge mv n db in
     tk_best_practices k = map ke_content (filter (\<lambda>e. open_experience e \<and> 4 / 5 \<le> ke_success_rate e) es) \<and>
     tk_known_issues k = map ke_content (filter (\<lambda>e. open_experience e \<and> \<not> 4 / 5 \<le> ke_success_rate e) es) \<and>
     tk_resolved_issues k = map resolved_text (filter (\<lambda>e. ke_category e = TOOL_EXPERIENCE \<and> ke_resolved e) es) \<and>
     tk_fix_history k = map ke_content (filter (\<lambda>e. ke_category e = BUG_FIX) es) \<and>
     tk_human_feedback k = map feedback_text (filter (\<lambda>e. ke_category e = HUMAN_FEEDBACK) es) \<and>
     tk_entry_ids k = map ke_entry_id es"
  by (simp add: get_tool_knowledge_def Let_def fold_learn no_knowledge_def)

text \<open>
  Feedback never becomes a best practice or a known issue of a tool, whatever its rating, although
  \<open>add_feedback\<close> says so.
\<close>

lemma feedback_not_practice:
  "let db = snd (add_feedback (demo_view ''a'' 1) ''f1'' ''mail'' ''great'' ''positive'' [] [] empty_knowledge);
       db = snd (add_feedback (demo_view ''a'' 2) ''f2'' ''mail'' ''wrong'' ''negative'' [] [] db);
       k = get_tool_knowledge (demo_view ''a'' 3) ''mail'' db
   in tk_best_practices k = [] \<and> tk_known_issues k = [] \<and>
      tk_human_feedback k = [''[negative] wrong'', ''[positive] great'']"
  by code_simp

text \<open>The listing of unresolved bugs lists best practices and feedback as well: whatever is not resolved.\<close>

lemma unresolved_lists_practices:
  "map ke_content (list_entries (demo_view ''a'' 9) (Some ''mail'') None True 100 demo_knowledge) =
     [''fails on lists'', ''use the full address'']"
  by code_simp

text \<open>
  A batch writes entries of other tenants, and an entry whose id exists overwrites the content of that
  entry in whatever tenant it is.
\<close>

lemma batch_crosses_tenants:
  "let e = (hd (kd_entries demo_knowledge))\<lparr>ke_content := ''overwritten'', ke_tenant := ''b''\<rparr>;
       db = snd (batch_add (demo_view ''b'' 9) [e] demo_knowledge)
   in map_option ke_content (get_knowledge_entry (demo_view ''a'' 9) ''e1'' db) = Some ''overwritten'' \<and>
      get_knowledge_entry (demo_view ''b'' 9) ''e1'' db = None"
  by code_simp

end
