(* ===== verification/Guardian.thy ===== *)
theory Guardian
  imports McpServer Approval ToolStore Knowledge
begin

text \<open>
  \<open>youmi/coordinator/tool_guardian.py\<close> and \<open>fix_strategies.py\<close>: the agent that collects reports on
  tools, repairs their descriptions, commits the repair to the tool store and to the knowledge base,
  and hands a tool that it cannot repair to a human; with the classification of errors of
  \<open>core/mcp_integration.py\<close>. The LLM, the git history, JSON texts, ids and the orders in which Python
  iterates over sets are arguments. The repairs are built from Chinese texts; the model has ASCII
  stand-ins. The tools through which an LLM operates the guardian are not modelled.
\<close>

section \<open>Reports\<close>

datatype tool_issue_type =
  UNCLEAR_DESCRIPTION | PARAMETER_BOUNDARY | MISSING_FEATURE | UNEXPECTED_BEHAVIOR | ERROR_HANDLING | OTHER

definition issue_value :: "tool_issue_type \<Rightarrow> string" where
  "issue_value t =
     (case t of UNCLEAR_DESCRIPTION \<Rightarrow> ''unclear_description'' | PARAMETER_BOUNDARY \<Rightarrow> ''parameter_boundary''
      | MISSING_FEATURE \<Rightarrow> ''missing_feature'' | UNEXPECTED_BEHAVIOR \<Rightarrow> ''unexpected_behavior''
      | ERROR_HANDLING \<Rightarrow> ''error_handling'' | OTHER \<Rightarrow> ''other'')"

record tool_issue_report =
  ir_report_id :: string
  ir_reporter :: string
  ir_tool_name :: string
  ir_issue_type :: tool_issue_type
  ir_error_message :: string
  ir_arguments :: "(string, json) dict"
  ir_suggestion :: string
  ir_timestamp :: string

text \<open>\<open>_classify_tool_error\<close>; its Chinese keywords never occur in an ASCII text.\<close>

definition has_keyword :: "string list \<Rightarrow> string \<Rightarrow> bool" where
  "has_keyword kws m = list_ex (\<lambda>kw. is_substring kw (lower m)) kws"

definition classify_tool_error :: "string \<Rightarrow> tool_issue_type" where
  "classify_tool_error m =
     (if has_keyword [''not found''] m then UNCLEAR_DESCRIPTION
      else if has_keyword [''boundary'', ''out of range'', ''invalid'', ''type error''] m then PARAMETER_BOUNDARY
      else if has_keyword [''not supported''] m then MISSING_FEATURE
      else if has_keyword [''timeout'', ''connection''] m then ERROR_HANDLING
      else UNEXPECTED_BEHAVIOR)"

record tool_modification =
  tm_tool_name :: string
  tm_report :: tool_issue_report
  tm_old_description :: string
  tm_new_description :: string
  tm_param_updates :: "(string, string) dict"
  tm_code_suggestion :: string

definition modification_dict :: "tool_modification \<Rightarrow> json" where
  "modification_dict m =
     JObj [(''tool_name'', JStr (tm_tool_name m)), (''reporter_agent_id'', JStr (ir_reporter (tm_report m))),
       (''issue_type'', JStr (issue_value (ir_issue_type (tm_report m)))),
       (''old_description'', JStr (tm_old_description m)), (''new_description'', JStr (tm_new_description m)),
       (''param_updates'', JObj (map (\<lambda>(k, v). (k, JStr v)) (tm_param_updates m))),
       (''code_suggestion'', JStr (tm_code_suggestion m)), (''timestamp'', JStr (ir_timestamp (tm_report m)))]"

record fix_evidence =
  fe_current_version :: string
  fe_version_history :: "(string \<times> string option \<times> string) list"
  fe_git_commits :: "string list"
  fe_reporter_agents :: "string list"

text \<open>A repair: the new description, the updates of parameters, the suggestion for the code.\<close>

type_synonym tool_fix = "string \<times> (string, string) dict \<times> string"

text \<open>What a reply of the LLM says once it is parsed; an absent field takes its default.\<close>

record llm_fix =
  lf_description :: "string option"
  lf_params :: "(string, string) dict"
  lf_code :: string

record guardian =
  gd_agent_id :: string
  gd_server :: mcp_server
  gd_memory :: "knowledge_db option"
  gd_store :: "tool_store option"
  gd_manager :: "approval_manager option"
  gd_reports :: "(string, tool_issue_report list) dict"
  gd_history :: "(string, tool_modification list) dict"
  gd_pending :: "tool_issue_report list"
  gd_attempts :: "(string, nat) dict"

record guardian_env =
  ge_view :: memory_view
  ge_entry_id :: "knowledge_db \<Rightarrow> string"
  ge_store_env :: store_env
  ge_git :: "string \<Rightarrow> string list"
  ge_fresh :: "approval_manager \<Rightarrow> string \<times> string"
  ge_llm :: "(string \<Rightarrow> string \<Rightarrow> tool_issue_report list \<Rightarrow> tool_issue_type \<Rightarrow> tool_knowledge option \<Rightarrow>
                fix_evidence \<Rightarrow> string option) option"
  ge_parse :: "string \<Rightarrow> llm_fix option"
  ge_dumps :: "json \<Rightarrow> string"
  ge_type_order :: "tool_issue_type list \<Rightarrow> tool_issue_type list"
  ge_text_order :: "string list \<Rightarrow> string list"

definition AUTO_FIX_MAX_ATTEMPTS :: nat where "AUTO_FIX_MAX_ATTEMPTS = 3"
definition EVIDENCE_HISTORY_LIMIT :: nat where "EVIDENCE_HISTORY_LIMIT = 5"

definition receive_report :: "tool_issue_report \<Rightarrow> guardian \<Rightarrow> guardian" where
  "receive_report r g =
     g\<lparr>gd_reports := dset (ir_tool_name r)
         ((case dget (gd_reports g) (ir_tool_name r) of None \<Rightarrow> [] | Some rs \<Rightarrow> rs) @ [r]) (gd_reports g),
       gd_pending := gd_pending g @ [r]\<rparr>"

section \<open>Repairs\<close>

text \<open>The texts that the rules append to a description.\<close>

definition unclear_text :: string where "unclear_text = ''[Guardian] known problem, common errors: ''"
definition boundary_text :: string where "boundary_text = ''[Guardian] parameter boundaries:''"
definition missing_text :: string where "missing_text = ''[Guardian] not supported: ''"
definition unexpected_text :: string where "unexpected_text = ''[Guardian] known unexpected behaviour: ''"
definition handling_text :: string where "handling_text = ''[Guardian] error handling: ''"
definition suggestion_text :: string where "suggestion_text = ''suggestions: ''"
definition memory_text :: string where "memory_text = ''[memory] known unresolved issues:''"
definition when_text :: string where "when_text = ''  - with ''"
definition may_text :: string where "may_text = '' may occur: ''"

definition newline :: string where "newline = [CHR 0x0A]"

definition error_list :: "guardian_env \<Rightarrow> string list \<Rightarrow> string" where
  "error_list env errors = join_with ''; '' (ge_text_order env (remdups (take 3 errors)))"

definition bullet_list :: "guardian_env \<Rightarrow> string list \<Rightarrow> string" where
  "bullet_list env errors = join_with newline (map (\<lambda>e. ''  - '' @ e) (ge_text_order env (remdups (take 5 errors))))"

text \<open>The parts of the suffix and the suggestion for the code, by the type of the issue.\<close>

definition rule_parts :: "guardian_env \<Rightarrow> tool_issue_type \<Rightarrow> tool_issue_report list \<Rightarrow> string list" where
  "rule_parts env ty reports =
     (let errors = map ir_error_message reports; suggestions = filter (\<lambda>s. s \<noteq> []) (map ir_suggestion reports) in
      case ty of
        UNCLEAR_DESCRIPTION \<Rightarrow>
          (newline @ newline @ unclear_text @ error_list env errors) #
            (if suggestions \<noteq> [] then [suggestion_text @ join_with ''; '' (take 2 suggestions)] else [])
      | PARAMETER_BOUNDARY \<Rightarrow>
          (newline @ newline @ boundary_text) #
            map (\<lambda>r. when_text @ ge_dumps env (JObj (ir_arguments r)) @ may_text @ ir_error_message r) (take 3 reports)
      | MISSING_FEATURE \<Rightarrow> [newline @ newline @ missing_text @ error_list env errors]
      | UNEXPECTED_BEHAVIOR \<Rightarrow> [newline @ newline @ unexpected_text @ error_list env errors]
      | ERROR_HANDLING \<Rightarrow> [newline @ newline @ handling_text @ error_list env errors]
      | OTHER \<Rightarrow> [])"

definition rule_code :: "guardian_env \<Rightarrow> tool_issue_type \<Rightarrow> string \<Rightarrow> tool_issue_report list \<Rightarrow> string" where
  "rule_code env ty tool reports =
     (if ty \<in> {MISSING_FEATURE, UNEXPECTED_BEHAVIOR, ERROR_HANDLING}
      then ''tool '' @ tool @ '':'' @ newline @ bullet_list env (map ir_error_message reports) else [])"

definition memory_parts :: "tool_knowledge option \<Rightarrow> string list \<Rightarrow> string list" where
  "memory_parts knowledge parts =
     (case knowledge of
        None \<Rightarrow> []
      | Some k \<Rightarrow>
          if knowledge_is_empty k then []
          else (let extra = filter (\<lambda>i. \<not> is_substring (take 60 i) (join_with newline parts)) (take 3 (tk_known_issues k))
                in if extra = [] then []
                   else [newline @ memory_text @ newline @ join_with newline (map (\<lambda>i. ''  - '' @ take 120 i) extra)]))"

text \<open>A part is appended unless the description has it already.\<close>

definition append_fresh :: "string \<Rightarrow> string list \<Rightarrow> string" where
  "append_fresh desc parts =
     (let fresh = filter (\<lambda>p. strip p \<noteq> [] \<and> \<not> is_substring (strip p) desc) parts
      in if fresh = [] then desc else desc @ join_with newline fresh)"

definition generate_fix_with_rules :: "guardian_env \<Rightarrow> string \<Rightarrow> string \<Rightarrow> tool_issue_report list \<Rightarrow> tool_issue_type \<Rightarrow>
    tool_knowledge option \<Rightarrow> tool_fix" where
  "generate_fix_with_rules env tool desc reports ty knowledge =
     (let parts = rule_parts env ty reports; parts = parts @ memory_parts knowledge parts
      in (append_fresh desc parts, [], rule_code env ty tool reports))"

text \<open>The code block around a reply is cut away before it is parsed.\<close>

definition fence :: string where "fence = ''```''"

definition strip_fences :: "string \<Rightarrow> string" where
  "strip_fences t =
     (let t = strip t;
          t = (if starts_with fence t
               then (if CHR 0x0A \<in> set t then tl (dropWhile (\<lambda>c. c \<noteq> CHR 0x0A) t) else drop 3 t) else t);
          t = (if drop (length t - 3) t = fence then take (length t - 3) t else t);
          t = (if starts_with ''json'' t then drop 4 t else t)
      in strip t)"

definition generate_fix :: "guardian_env \<Rightarrow> string \<Rightarrow> string \<Rightarrow> tool_issue_report list \<Rightarrow> tool_issue_type \<Rightarrow>
    tool_knowledge option \<Rightarrow> fix_evidence \<Rightarrow> tool_fix" where
  "generate_fix env tool desc reports ty knowledge evidence =
     (case (case ge_llm env of None \<Rightarrow> None
              | Some chat \<Rightarrow> (case chat tool desc reports ty knowledge evidence of None \<Rightarrow> None
                                | Some t \<Rightarrow> ge_parse env (strip_fences t))) of
        Some f \<Rightarrow> (case lf_description f of None \<Rightarrow> desc | Some d \<Rightarrow> d, lf_params f, lf_code f)
      | None \<Rightarrow> generate_fix_with_rules env tool desc reports ty knowledge)"

section \<open>Evidence, versions, memory, escalation\<close>

definition collect_evidence :: "guardian_env \<Rightarrow> string \<Rightarrow> tool_issue_report list \<Rightarrow> tool_definition \<Rightarrow> guardian \<Rightarrow> fix_evidence" where
  "collect_evidence env tool reports d g =
     \<lparr>fe_current_version = td_version d,
      fe_version_history =
        (case gd_store g of
           None \<Rightarrow> []
         | Some st \<Rightarrow> map (\<lambda>v. (tv_version v, tv_parent_version_id v, take 200 (tv_changelog v)))
                        (take EVIDENCE_HISTORY_LIMIT (get_version_chain tool st))),
      fe_git_commits = ge_git env tool,
      fe_reporter_agents = sort (remdups (filter (\<lambda>a. a \<noteq> []) (map ir_reporter reports)))\<rparr>"

text \<open>\<open>max(set(issue_types), key=issue_types.count)\<close>: the first of the most frequent types in the order of the set.\<close>

definition primary_type :: "guardian_env \<Rightarrow> tool_issue_report list \<Rightarrow> tool_issue_type" where
  "primary_type env reports =
     (let types = map ir_issue_type reports; n = (\<lambda>t. length (filter ((=) t) types))
      in case ge_type_order env (remdups types) of
           [] \<Rightarrow> OTHER
         | t # ts \<Rightarrow> foldl (\<lambda>best x. if n best < n x then x else best) t ts)"

definition fix_changelog :: "tool_issue_report \<Rightarrow> fix_evidence \<Rightarrow> string" where
  "fix_changelog r e =
     ''fix('' @ issue_value (ir_issue_type r) @ ''): '' @ take 80 (ir_error_message r) @ '' | base v'' @
     (if fe_current_version e \<noteq> [] then fe_current_version e else ''?'') @
     (case fe_git_commits e of [] \<Rightarrow> [] | c # _ \<Rightarrow> '' | last commit: '' @ take 80 c)"

definition fixed_definition :: "string \<Rightarrow> (string, string) dict \<Rightarrow> tool_definition \<Rightarrow> tool_definition" where
  "fixed_definition desc params d =
     d\<lparr>td_description := (if desc \<noteq> [] then desc else td_description d),
       td_parameters := map (\<lambda>p. case dget params (tp_name p) of None \<Rightarrow> p | Some t \<Rightarrow> p\<lparr>tp_description := t\<rparr>) (td_parameters d)\<rparr>"

text \<open>\<open>_commit_fix_version\<close>; an exception is caught.\<close>

definition commit_fix_version :: "guardian_env \<Rightarrow> string \<Rightarrow> string \<Rightarrow> (string, string) dict \<Rightarrow> tool_issue_report \<Rightarrow>
    fix_evidence \<Rightarrow> tool_store \<Rightarrow> string option \<times> tool_store" where
  "commit_fix_version env tool desc params r evidence st =
     (case get_head_version tool st of
        None \<Rightarrow> (None, st)
      | Some head \<Rightarrow>
          (case create_version (ge_store_env env) tool (fixed_definition desc params (te_definition head))
                  (fix_changelog r evidence) BumpPatch main_branch (Some (change_value Fix)) st of
             Inl _ \<Rightarrow> (None, st)
           | Inr (i, st) \<Rightarrow> (Some i, st)))"

definition fix_summary :: "tool_modification \<Rightarrow> string" where
  "fix_summary m =
     ''ToolGuardian fixed '' @ tm_tool_name m @
     (if tm_new_description m \<noteq> tm_old_description m then '': '' @ take 200 (tm_new_description m) else []) @
     (if tm_code_suggestion m \<noteq> [] then newline @ ''code: '' @ take 300 (tm_code_suggestion m) else [])"

definition persist_fix_to_memory :: "guardian_env \<Rightarrow> string \<Rightarrow> string \<Rightarrow> tool_modification \<Rightarrow> knowledge_db \<Rightarrow>
    (string \<times> nat) \<times> knowledge_db" where
  "persist_fix_to_memory env agent tool m db =
     (let eid = ge_entry_id env db; mv = ge_view env;
          db = snd (add_experience mv eid tool (fix_summary m) BUG_FIX [] agent 0
                 [(''issue_type'', JStr (issue_value (ir_issue_type (tm_report m)))),
                  (''reporter_agent_id'', JStr (ir_reporter (tm_report m))), (''modification'', modification_dict m)] db);
          db = snd (mark_resolved mv eid (fix_summary m) db);
          open_entries = list_entries mv (Some tool) None True 100 db
      in ((eid, length open_entries),
          fold (\<lambda>e db. snd (mark_resolved mv (ke_entry_id e) (fix_summary m) db)) open_entries db))"

definition escalation_reason :: "string \<Rightarrow> nat \<Rightarrow> tool_issue_report \<Rightarrow> string" where
  "escalation_reason tool attempts r =
     show_nat attempts @ '' repairs did not solve '' @ tool @ '': ['' @ issue_value (ir_issue_type r) @ ''] '' @
     take 160 (ir_error_message r)"

text \<open>\<open>record.reason = reason\<close> changes the stored record, not its copy in the audit log.\<close>

definition set_reason :: "string \<Rightarrow> string \<Rightarrow> approval_manager \<Rightarrow> approval_manager" where
  "set_reason rid reason m = m\<lparr>ap_records := dmap (\<lambda>k r. if k = rid then r\<lparr>ar_reason := reason\<rparr> else r) (ap_records m)\<rparr>"

definition escalate_to_human :: "guardian_env \<Rightarrow> string \<Rightarrow> string \<Rightarrow> tool_issue_report \<Rightarrow> nat \<Rightarrow> approval_manager \<Rightarrow>
    approval_record \<times> approval_manager" where
  "escalate_to_human env agent tool r attempts m =
     (case ge_fresh env m of
        (rid, now) \<Rightarrow>
          (case submit_request rid now agent tool None m of
             (rec, m) \<Rightarrow> (rec\<lparr>ar_reason := escalation_reason tool attempts r\<rparr>, set_reason rid (escalation_reason tool attempts r) m)))"

section \<open>Processing\<close>

record fix_result =
  fr_tool_name :: string
  fr_report_count :: nat
  fr_missing :: bool
  fr_description_updated :: bool
  fr_code_suggestion :: string
  fr_fix_attempts :: nat
  fr_retry_scheduled :: bool
  fr_escalated :: bool
  fr_fix_version :: "string option"
  fr_approval :: "approval_record option"
  fr_memory :: "(string \<times> nat) option"

definition tool_knowledge_for :: "guardian_env \<Rightarrow> string \<Rightarrow> guardian \<Rightarrow> tool_knowledge option" where
  "tool_knowledge_for env tool g = map_option (get_tool_knowledge (ge_view env) tool) (gd_memory g)"

definition attempts_of :: "string \<Rightarrow> guardian \<Rightarrow> nat" where
  "attempts_of tool g = (case dget (gd_attempts g) tool of None \<Rightarrow> 0 | Some n \<Rightarrow> n)"

text \<open>Steps 5 to 8: the server, the history of modifications and the knowledge base.\<close>

definition apply_fix :: "guardian_env \<Rightarrow> string \<Rightarrow> tool_issue_report \<Rightarrow> string \<Rightarrow> tool_fix \<Rightarrow> guardian \<Rightarrow>
    bool \<times> (string \<times> nat) option \<times> guardian" where
  "apply_fix env tool r old fx g =
     (case fx of (new, params, code) \<Rightarrow>
       (let (updated, server) = (if new \<noteq> [] \<and> new \<noteq> old then server_update_description tool (Some new) params (gd_server g)
                                 else (False, gd_server g));
            m = \<lparr>tm_tool_name = tool, tm_report = r, tm_old_description = old,
                 tm_new_description = (if new \<noteq> [] then new else old), tm_param_updates = params, tm_code_suggestion = code\<rparr>;
            g = g\<lparr>gd_server := server,
                  gd_history := dset tool ((case dget (gd_history g) tool of None \<Rightarrow> [] | Some ms \<Rightarrow> ms) @ [m]) (gd_history g)\<rparr>
        in if updated \<or> code \<noteq> []
           then (case gd_memory g of
                   None \<Rightarrow> (updated, None, g)
                 | Some db \<Rightarrow> (case persist_fix_to_memory env (gd_agent_id g) tool m db of
                                 (res, db) \<Rightarrow> (updated, Some res, g\<lparr>gd_memory := Some db\<rparr>)))
           else (updated, None, g)))"

definition fix_changes :: "string \<Rightarrow> tool_fix \<Rightarrow> bool" where
  "fix_changes old fx = (case fx of (new, params, code) \<Rightarrow> (new \<noteq> [] \<and> new \<noteq> old) \<or> params \<noteq> [] \<or> code \<noteq> [])"

definition process_tool_reports :: "guardian_env \<Rightarrow> string \<Rightarrow> tool_issue_report list \<Rightarrow> guardian \<Rightarrow> fix_result \<times> guardian" where
  "process_tool_reports env tool reports g =
     (let res = \<lparr>fr_tool_name = tool, fr_report_count = length reports, fr_missing = False, fr_description_updated = False,
                 fr_code_suggestion = [], fr_fix_attempts = 0, fr_retry_scheduled = False, fr_escalated = False,
                 fr_fix_version = None, fr_approval = None, fr_memory = None\<rparr> in
      case server_tool_definition tool (gd_server g) of
        None \<Rightarrow> (res\<lparr>fr_missing := True\<rparr>, g)
      | Some d \<Rightarrow>
          (let r = hd reports; old = td_description d; evidence = collect_evidence env tool reports d g;
               fx = generate_fix env tool old reports (primary_type env reports) (tool_knowledge_for env tool g) evidence;
               attempts = attempts_of tool g;
               (updated, memory, g) = apply_fix env tool r old fx g;
               res = res\<lparr>fr_description_updated := updated, fr_code_suggestion := snd (snd fx), fr_memory := memory,
                         fr_fix_attempts := attempts + 1\<rparr>
           in if fix_changes old fx then
                (let g = g\<lparr>gd_attempts := ddel tool (gd_attempts g)\<rparr> in
                 case gd_store g of
                   None \<Rightarrow> (res, g)
                 | Some st \<Rightarrow>
                     (case commit_fix_version env tool (if fst fx \<noteq> [] then fst fx else old) (fst (snd fx)) r evidence st of
                        (i, st) \<Rightarrow> (res\<lparr>fr_fix_version := i\<rparr>, g\<lparr>gd_store := Some st\<rparr>)))
              else if AUTO_FIX_MAX_ATTEMPTS \<le> attempts + 1 then
                (let g = g\<lparr>gd_attempts := ddel tool (gd_attempts g)\<rparr> in
                 case gd_manager g of
                   None \<Rightarrow> (res\<lparr>fr_escalated := True\<rparr>, g)
                 | Some m \<Rightarrow>
                     (case escalate_to_human env (gd_agent_id g) tool r (attempts + 1) m of
                        (rec, m) \<Rightarrow> (res\<lparr>fr_escalated := True, fr_approval := Some rec\<rparr>, g\<lparr>gd_manager := Some m\<rparr>)))
              else (res\<lparr>fr_retry_scheduled := True\<rparr>,
                    g\<lparr>gd_attempts := dset tool (attempts + 1) (gd_attempts g), gd_pending := gd_pending g @ reports\<rparr>)))"

text \<open>The batch by tools, in the order of their first reports.\<close>

definition group_reports :: "tool_issue_report list \<Rightarrow> (string, tool_issue_report list) dict" where
  "group_reports batch =
     fold (\<lambda>r d. dset (ir_tool_name r) ((case dget d (ir_tool_name r) of None \<Rightarrow> [] | Some rs \<Rightarrow> rs) @ [r]) d) batch []"

definition process_reports :: "guardian_env \<Rightarrow> int \<Rightarrow> guardian \<Rightarrow> fix_result list \<times> guardian" where
  "process_reports env batch_size g =
     fold (\<lambda>(tool, reports) (rs, g). case process_tool_reports env tool reports g of (r, g) \<Rightarrow> (rs @ [r], g))
       (group_reports (slice_to batch_size (gd_pending g)))
       ([], g\<lparr>gd_pending := slice_from batch_size (gd_pending g)\<rparr>)"

definition report_count :: "guardian \<Rightarrow> nat" where
  "report_count g = sum_list (map length (dvals (gd_reports g)))"

definition modification_count :: "guardian \<Rightarrow> nat" where
  "modification_count g = sum_list (map length (dvals (gd_history g)))"

end
