(* ===== verification/GuardianProps.thy ===== *)
theory GuardianProps
  imports Guardian StoreInv
begin

text \<open>
  What the guardian promises: the queue of pending reports empties after a bounded number of batches,
  no report leaves it without an outcome, a tool is tried at most three times before a human is asked,
  and an escalated tool has a record; and what the repairs do not promise.
\<close>

section \<open>One tool\<close>

text \<open>What becomes of the reports of a tool: they are dropped, repaired, queued again or escalated.\<close>

datatype fix_outcome = ToolMissing | Repaired | Retried | Escalated

definition planned_fix :: "guardian_env \<Rightarrow> string \<Rightarrow> tool_issue_report list \<Rightarrow> tool_definition \<Rightarrow> guardian \<Rightarrow> tool_fix" where
  "planned_fix env tool reports d g =
     generate_fix env tool (td_description d) reports (primary_type env reports) (tool_knowledge_for env tool g)
       (collect_evidence env tool reports d g)"

definition outcome_of :: "guardian_env \<Rightarrow> string \<Rightarrow> tool_issue_report list \<Rightarrow> guardian \<Rightarrow> fix_outcome" where
  "outcome_of env tool reports g =
     (case server_tool_definition tool (gd_server g) of
        None \<Rightarrow> ToolMissing
      | Some d \<Rightarrow>
          if fix_changes (td_description d) (planned_fix env tool reports d g) then Repaired
          else if AUTO_FIX_MAX_ATTEMPTS \<le> attempts_of tool g + 1 then Escalated else Retried)"

lemma apply_fix_keeps:
  "apply_fix env tool r old fx g = (u, mem, h) \<Longrightarrow>
     gd_attempts h = gd_attempts g \<and> gd_pending h = gd_pending g \<and> gd_reports h = gd_reports g \<and>
     gd_manager h = gd_manager g \<and> gd_store h = gd_store g \<and> gd_agent_id h = gd_agent_id g"
  by (auto simp: apply_fix_def Let_def split: prod.splits option.splits if_splits)

text \<open>The four branches, each with the state it leaves.\<close>

lemma process_branches:
  assumes d: "server_tool_definition tool (gd_server g) = Some d"
    and fx: "planned_fix env tool reports d g = fx"
    and h: "apply_fix env tool (hd reports) (td_description d) fx g = (u, mem, h)"
  shows "\<exists>res. fr_tool_name res = tool \<and> fr_report_count res = length reports \<and> \<not> fr_missing res \<and>
     fr_description_updated res = u \<and> fr_memory res = mem \<and> fr_fix_attempts res = attempts_of tool g + 1 \<and>
     \<not> fr_retry_scheduled res \<and> \<not> fr_escalated res \<and> fr_fix_version res = None \<and> fr_approval res = None \<and>
     fr_code_suggestion res = snd (snd fx) \<and>
     process_tool_reports env tool reports g =
       (if fix_changes (td_description d) fx then
          (let h = h\<lparr>gd_attempts := ddel tool (gd_attempts g)\<rparr> in
           case gd_store g of None \<Rightarrow> (res, h)
           | Some st \<Rightarrow>
               (case commit_fix_version env tool (if fst fx \<noteq> [] then fst fx else td_description d) (fst (snd fx)) (hd reports)
                        (collect_evidence env tool reports d g) st of
                  (i, st) \<Rightarrow> (res\<lparr>fr_fix_version := i\<rparr>, h\<lparr>gd_store := Some st\<rparr>)))
        else if AUTO_FIX_MAX_ATTEMPTS \<le> attempts_of tool g + 1 then
          (let h = h\<lparr>gd_attempts := ddel tool (gd_attempts g)\<rparr> in
           case gd_manager g of None \<Rightarrow> (res\<lparr>fr_escalated := True\<rparr>, h)
           | Some m \<Rightarrow>
               (case escalate_to_human env (gd_agent_id g) tool (hd reports) (attempts_of tool g + 1) m of
                  (rec, m) \<Rightarrow> (res\<lparr>fr_escalated := True, fr_approval := Some rec\<rparr>, h\<lparr>gd_manager := Some m\<rparr>)))
        else (res\<lparr>fr_retry_scheduled := True\<rparr>,
              h\<lparr>gd_attempts := dset tool (attempts_of tool g + 1) (gd_attempts g), gd_pending := gd_pending g @ reports\<rparr>))"
  using h apply_fix_keeps [OF h] fx [unfolded planned_fix_def]
  by (intro exI [where x = "\<lparr>fr_tool_name = tool, fr_report_count = length reports, fr_missing = False,
        fr_description_updated = u, fr_code_suggestion = snd (snd fx), fr_fix_attempts = attempts_of tool g + 1,
        fr_retry_scheduled = False, fr_escalated = False, fr_fix_version = None, fr_approval = None, fr_memory = mem\<rparr>"])
    (simp add: process_tool_reports_def d Let_def split: option.split prod.split)

lemma process_queue:
  "gd_pending (snd (process_tool_reports env tool reports g)) =
     gd_pending g @ (if outcome_of env tool reports g = Retried then reports else []) \<and>
   attempts_of t (snd (process_tool_reports env tool reports g)) =
     (if t \<noteq> tool then attempts_of t g
      else (case outcome_of env tool reports g of
              ToolMissing \<Rightarrow> attempts_of t g | Retried \<Rightarrow> attempts_of t g + 1 | _ \<Rightarrow> 0)) \<and>
   (let res = fst (process_tool_reports env tool reports g) in
     fr_tool_name res = tool \<and> fr_report_count res = length reports \<and>
     (fr_missing res \<longleftrightarrow> outcome_of env tool reports g = ToolMissing) \<and>
     (fr_retry_scheduled res \<longleftrightarrow> outcome_of env tool reports g = Retried) \<and>
     (fr_escalated res \<longleftrightarrow> outcome_of env tool reports g = Escalated) \<and>
     fr_fix_attempts res = (if outcome_of env tool reports g = ToolMissing then 0 else attempts_of tool g + 1))"
proof (cases "server_tool_definition tool (gd_server g)")
  case None
  then show ?thesis by (simp add: process_tool_reports_def outcome_of_def)
next
  case (Some d)
  define fx where "fx = planned_fix env tool reports d g"
  obtain u mem h where h: "apply_fix env tool (hd reports) (td_description d) fx g = (u, mem, h)" by (metis prod_cases3)
  note k = apply_fix_keeps [OF h]
  from process_branches [OF Some fx_def [symmetric] h] obtain res where
    r: "fr_tool_name res = tool" "fr_report_count res = length reports" "\<not> fr_missing res"
       "\<not> fr_retry_scheduled res" "\<not> fr_escalated res"
       "fr_fix_attempts res = attempts_of tool g + 1"
    and e: "process_tool_reports env tool reports g =
       (if fix_changes (td_description d) fx then
          (let h = h\<lparr>gd_attempts := ddel tool (gd_attempts g)\<rparr> in
           case gd_store g of None \<Rightarrow> (res, h)
           | Some st \<Rightarrow>
               (case commit_fix_version env tool (if fst fx \<noteq> [] then fst fx else td_description d) (fst (snd fx)) (hd reports)
                        (collect_evidence env tool reports d g) st of
                  (i, st) \<Rightarrow> (res\<lparr>fr_fix_version := i\<rparr>, h\<lparr>gd_store := Some st\<rparr>)))
        else if AUTO_FIX_MAX_ATTEMPTS \<le> attempts_of tool g + 1 then
          (let h = h\<lparr>gd_attempts := ddel tool (gd_attempts g)\<rparr> in
           case gd_manager g of None \<Rightarrow> (res\<lparr>fr_escalated := True\<rparr>, h)
           | Some m \<Rightarrow>
               (case escalate_to_human env (gd_agent_id g) tool (hd reports) (attempts_of tool g + 1) m of
                  (rec, m) \<Rightarrow> (res\<lparr>fr_escalated := True, fr_approval := Some rec\<rparr>, h\<lparr>gd_manager := Some m\<rparr>)))
        else (res\<lparr>fr_retry_scheduled := True\<rparr>,
              h\<lparr>gd_attempts := dset tool (attempts_of tool g + 1) (gd_attempts g), gd_pending := gd_pending g @ reports\<rparr>))"
    by blast
  have o: "outcome_of env tool reports g =
      (if fix_changes (td_description d) fx then Repaired
       else if AUTO_FIX_MAX_ATTEMPTS \<le> attempts_of tool g + 1 then Escalated else Retried)"
    by (simp add: outcome_of_def Some fx_def)
  show ?thesis
    unfolding o e using r k
    by (simp add: attempts_of_def Let_def prod.case_eq_if split: option.split)
qed

lemmas process_pending [simp] = process_queue [THEN conjunct1]
lemmas process_attempts = process_queue [THEN conjunct2, THEN conjunct1]
lemmas process_result = process_queue [THEN conjunct2, THEN conjunct2]

section \<open>A batch\<close>

lemma group_reports_snoc:
  "group_reports (b @ [r]) =
     dset (ir_tool_name r) ((case dget (group_reports b) (ir_tool_name r) of None \<Rightarrow> [] | Some rs \<Rightarrow> rs) @ [r]) (group_reports b)"
  by (simp add: group_reports_def)

lemma group_reports_wf: "wf_dict (group_reports b)"
  by (induction b rule: rev_induct) (simp_all add: group_reports_snoc, simp add: group_reports_def)

lemma dget_group_reports:
  "dget (group_reports b) t =
     (case filter (\<lambda>r. ir_tool_name r = t) b of [] \<Rightarrow> None | r # rs \<Rightarrow> Some (r # rs))"
proof (induction b rule: rev_induct)
  case (snoc r b)
  then show ?case by (auto simp: group_reports_snoc split: list.split)
qed (simp add: group_reports_def)

lemma group_reports_mem:
  "(t, rs) \<in> set (group_reports b) \<longleftrightarrow> rs \<noteq> [] \<and> rs = filter (\<lambda>r. ir_tool_name r = t) b"
  by (simp add: dget_mem [OF group_reports_wf, symmetric] dget_group_reports split: list.split) auto

lemma dset_snoc_size:
  "sum_list (map (\<lambda>x. length (snd x)) (dset k ((case dget d k of None \<Rightarrow> [] | Some rs \<Rightarrow> rs) @ [r]) d)) =
     Suc (sum_list (map (\<lambda>x. length (snd x)) d))"
  by (induction d) auto

lemma group_reports_size: "sum_list (map (\<lambda>x. length (snd x)) (group_reports b)) = length b"
  by (induction b rule: rev_induct) (simp_all add: group_reports_snoc dset_snoc_size, simp add: group_reports_def)

definition process_group :: "guardian_env \<Rightarrow> string \<times> tool_issue_report list \<Rightarrow> fix_result list \<times> guardian \<Rightarrow>
    fix_result list \<times> guardian" where
  "process_group env = (\<lambda>(tool, reports) (rs, g). case process_tool_reports env tool reports g of (r, g) \<Rightarrow> (rs @ [r], g))"

lemma process_group_simps [simp]:
  "fst (process_group env (t, rs) s) = fst s @ [fst (process_tool_reports env t rs (snd s))]"
  "snd (process_group env (t, rs) s) = snd (process_tool_reports env t rs (snd s))"
  by (simp_all add: process_group_def prod.case_eq_if)

lemma process_reports_fold:
  "process_reports env k g =
     fold (process_group env) (group_reports (slice_to k (gd_pending g))) ([], g\<lparr>gd_pending := slice_from k (gd_pending g)\<rparr>)"
  by (simp add: process_reports_def process_group_def)

text \<open>The work left: three for each report and one for each attempt that a tool of \<open>S\<close> has left.\<close>

definition work_left :: "string set \<Rightarrow> guardian \<Rightarrow> nat" where
  "work_left S g = 3 * length (gd_pending g) + (\<Sum>t \<in> S. 2 - attempts_of t g)"

lemma process_tool_work:
  assumes "finite S" "tool \<in> S" "reports \<noteq> []"
  shows "work_left S (snd (process_tool_reports env tool reports g)) < work_left S g + 3 * length reports"
proof -
  let ?g = "snd (process_tool_reports env tool reports g)"
  have l: "1 \<le> length reports" using assms(3) by (cases reports) auto
  have s: "(\<Sum>t \<in> S. 2 - attempts_of t h) = (2 - attempts_of tool h) + (\<Sum>t \<in> S - {tool}. 2 - attempts_of t h)" for h
    using assms by (simp add: sum.remove)
  have r: "(\<Sum>t \<in> S - {tool}. 2 - attempts_of t ?g) = (\<Sum>t \<in> S - {tool}. 2 - attempts_of t g)"
    by (rule sum.cong) (auto simp: process_attempts)
  have a: "outcome_of env tool reports g = Retried \<Longrightarrow> attempts_of tool g \<le> 1"
    by (auto simp: outcome_of_def AUTO_FIX_MAX_ATTEMPTS_def split: option.splits if_splits)
  show ?thesis unfolding work_left_def s r
    using a l by (cases "outcome_of env tool reports g") (auto simp: process_attempts)
qed

lemma fold_group_work:
  assumes "finite S" "\<forall>(t, rs) \<in> set gs. t \<in> S \<and> rs \<noteq> []"
  shows "work_left S (snd (fold (process_group env) gs s)) + length gs \<le>
    work_left S (snd s) + 3 * sum_list (map (\<lambda>x. length (snd x)) gs)"
  using assms(2)
proof (induction gs arbitrary: s)
  case (Cons x gs)
  obtain t rs where x: "x = (t, rs)" by fastforce
  have "work_left S (snd (process_group env x s)) < work_left S (snd s) + 3 * length rs"
    using Cons.prems process_tool_work [OF assms(1)] by (simp add: x)
  moreover have "work_left S (snd (fold (process_group env) gs (process_group env x s))) + length gs \<le>
      work_left S (snd (process_group env x s)) + 3 * sum_list (map (\<lambda>x. length (snd x)) gs)"
    using Cons by simp
  ultimately show ?case by (simp add: x)
qed simp

lemma fold_group_pending:
  "set (gd_pending (snd (fold (process_group env) gs s))) \<subseteq> set (gd_pending (snd s)) \<union> \<Union> (set ` set (dvals gs))"
proof (induction gs arbitrary: s)
  case (Cons x gs)
  obtain t rs where x: "x = (t, rs)" by fastforce
  have "set (gd_pending (snd (process_group env x s))) \<subseteq> set (gd_pending (snd s)) \<union> set rs"
    by (auto simp: x)
  then show ?case using Cons [of "process_group env x s"] by (fastforce simp: x)
qed simp

lemma slices: "slice_to k xs @ slice_from k xs = xs"
  by (simp add: slice_to_def slice_from_def)

lemma process_reports_pending: "set (gd_pending (snd (process_reports env k g))) \<subseteq> set (gd_pending g)"
proof -
  let ?b = "slice_to k (gd_pending g)"
  have "\<Union> (set ` set (dvals (group_reports ?b))) \<subseteq> set ?b" by (auto simp: group_reports_mem)
  moreover have "set ?b \<union> set (slice_from k (gd_pending g)) = set (gd_pending g)"
    by (metis set_append slices)
  ultimately show ?thesis
    unfolding process_reports_fold
    using fold_group_pending [of env "group_reports ?b" "([], g\<lparr>gd_pending := slice_from k (gd_pending g)\<rparr>)"]
    by (simp del: set_map) blast
qed

lemma process_reports_work:
  assumes "finite S" "ir_tool_name ` set (gd_pending g) \<subseteq> S" "1 \<le> k" "gd_pending g \<noteq> []"
  shows "work_left S (snd (process_reports env k g)) < work_left S g"
proof -
  let ?b = "slice_to k (gd_pending g)" and ?h = "g\<lparr>gd_pending := slice_from k (gd_pending g)\<rparr>"
  have b: "?b \<noteq> []" using assms(3,4) by (cases "gd_pending g") (auto simp: slice_to_def)
  have sub: "set ?b \<subseteq> set (gd_pending g)" by (rule set_slice_to)
  have "\<forall>(t, rs) \<in> set (group_reports ?b). t \<in> S \<and> rs \<noteq> []"
  proof (clarsimp simp: group_reports_mem)
    fix t assume "filter (\<lambda>r. ir_tool_name r = t) ?b \<noteq> []"
    then obtain r where "r \<in> set ?b" "ir_tool_name r = t" by (auto simp: filter_empty_conv)
    with sub assms(2) show "t \<in> S" by blast
  qed
  from fold_group_work [OF assms(1) this, of env "([], ?h)"]
  have "work_left S (snd (process_reports env k g)) + length (group_reports ?b) \<le> work_left S ?h + 3 * length ?b"
    by (simp add: process_reports_fold group_reports_size)
  moreover have "group_reports ?b \<noteq> []" using b group_reports_size [of ?b] by auto
  moreover have "length (gd_pending g) = length ?b + length (slice_from k (gd_pending g))"
    by (metis length_append slices)
  ultimately show ?thesis by (simp add: work_left_def attempts_of_def) (cases "group_reports ?b"; simp)
qed

section \<open>The queue empties\<close>

definition process_round :: "guardian_env \<times> int \<Rightarrow> guardian \<Rightarrow> guardian" where
  "process_round = (\<lambda>(env, k) g. snd (process_reports env k g))"

lemma process_round_idle: "gd_pending g = [] \<Longrightarrow> gd_pending (process_round x g) = []"
  by (simp add: process_round_def process_reports_def slice_to_def slice_from_def group_reports_def split: prod.split)

lemma rounds_idle: "gd_pending g = [] \<Longrightarrow> gd_pending (fold process_round xs g) = []"
  by (induction xs arbitrary: g) (simp_all add: process_round_idle)

lemma rounds_drain:
  assumes "finite S" "ir_tool_name ` set (gd_pending g) \<subseteq> S" "list_all (\<lambda>x. 1 \<le> snd x) xs" "work_left S g \<le> length xs"
  shows "gd_pending (fold process_round xs g) = []"
  using assms(2-)
proof (induction xs arbitrary: g)
  case Nil
  then show ?case by (simp add: work_left_def)
next
  case (Cons x xs)
  show ?case
  proof (cases "gd_pending g = []")
    case True
    then show ?thesis by (rule rounds_idle)
  next
    case False
    obtain env k where x: "x = (env, k)" by fastforce
    have "work_left S (process_round x g) < work_left S g"
      using Cons.prems False process_reports_work [OF assms(1)] by (simp add: x process_round_def)
    moreover have "ir_tool_name ` set (gd_pending (process_round x g)) \<subseteq> S"
      using Cons.prems(1) process_reports_pending [of env k g] by (auto simp: x process_round_def)
    ultimately show ?thesis using Cons by simp
  qed
qed

text \<open>
  C30: The guardian always finishes: whatever the LLM answers and whatever the sizes (at least one) of
  the batches, five rounds for each pending report empty the queue. Reports are queued again only while
  their tool has attempts left, although a repair gives it new attempts.
\<close>
theorem guardian_drains:
  assumes "list_all (\<lambda>x. 1 \<le> snd x) rounds" and "5 * length (gd_pending g) \<le> length rounds"
  shows "gd_pending (fold process_round rounds g) = []"
proof -
  let ?S = "ir_tool_name ` set (gd_pending g)"
  have "(\<Sum>t \<in> ?S. 2 - attempts_of t g) \<le> card ?S * 2"
    by (rule order_trans [OF sum_bounded_above [where K = 2]]) auto
  also have "\<dots> \<le> length (gd_pending g) * 2"
    by (intro mult_le_mono1 order_trans [OF card_image_le card_length]) simp
  finally have "work_left ?S g \<le> length rounds" using assms(2) by (simp add: work_left_def)
  then show ?thesis using assms(1) by (intro rounds_drain [where S = ?S]) auto
qed

section \<open>Every report has an outcome\<close>

definition requeued :: "(fix_result \<times> string \<times> tool_issue_report list) list \<Rightarrow> tool_issue_report list" where
  "requeued xs = concat (map (\<lambda>(res, _, reports). if fr_retry_scheduled res then reports else []) xs)"

definition sound_result :: "fix_result \<Rightarrow> bool" where
  "sound_result res \<longleftrightarrow>
     length (filter id [fr_missing res, fr_retry_scheduled res, fr_escalated res]) \<le> 1 \<and>
     (if fr_retry_scheduled res then fr_fix_attempts res < AUTO_FIX_MAX_ATTEMPTS else True) \<and>
     (if fr_escalated res then AUTO_FIX_MAX_ATTEMPTS \<le> fr_fix_attempts res else True)"

lemma process_sound: "sound_result (fst (process_tool_reports env t rs g))"
  using process_result [of env t rs g]
  by (cases "outcome_of env t rs g") (auto simp: sound_result_def outcome_of_def Let_def split: option.splits if_splits)

lemma fold_groups:
  "\<exists>rs. fst (fold (process_group env) gs s) = fst s @ rs \<and> map fr_tool_name rs = dkeys gs \<and>
     map fr_report_count rs = map (\<lambda>x. length (snd x)) gs \<and> list_all sound_result rs \<and>
     gd_pending (snd (fold (process_group env) gs s)) = gd_pending (snd s) @ requeued (zip rs gs)"
proof (induction gs arbitrary: s)
  case (Cons x gs)
  obtain t reports where x: "x = (t, reports)" by fastforce
  let ?r = "fst (process_tool_reports env t reports (snd s))"
  from Cons [of "process_group env x s"] obtain rs where
    "fst (fold (process_group env) gs (process_group env x s)) = fst s @ ?r # rs" "map fr_tool_name rs = dkeys gs"
    "map fr_report_count rs = map (\<lambda>x. length (snd x)) gs" "list_all sound_result rs"
    "gd_pending (snd (fold (process_group env) gs (process_group env x s))) =
       gd_pending (snd (process_group env x s)) @ requeued (zip rs gs)"
    by (auto simp: x)
  then show ?case
    using process_result [of env t reports "snd s"] process_sound [of env t reports "snd s"]
    by (intro exI [where x = "?r # rs"]) (auto simp: x Let_def requeued_def)
qed (simp add: requeued_def)

text \<open>
  Processing a batch gives one result for each tool that it names, with the number of its reports;
  a result says at most one of missing, queued again and escalated; a tool is queued again before its
  third attempt and escalated from then on; and the queue afterwards is what was beyond the batch,
  followed by exactly the reports of the tools queued again. No report is lost and none is doubled.
\<close>
theorem batch_accounts_for_reports:
  "let batch = slice_to k (gd_pending g); out = process_reports env k g; groups = group_reports batch in
     map fr_tool_name (fst out) = dkeys groups \<and>
     map fr_report_count (fst out) = map (\<lambda>t. length (filter (\<lambda>r. ir_tool_name r = t) batch)) (dkeys groups) \<and>
     set (dkeys groups) = ir_tool_name ` set batch \<and> distinct (dkeys groups) \<and> list_all sound_result (fst out) \<and>
     gd_pending (snd out) = slice_from k (gd_pending g) @ requeued (zip (fst out) groups)"
proof -
  let ?b = "slice_to k (gd_pending g)"
  let ?gs = "group_reports ?b"
  have l: "map (\<lambda>x. length (snd x)) ?gs = map (\<lambda>t. length (filter (\<lambda>r. ir_tool_name r = t) ?b)) (dkeys ?gs)"
    by (auto simp: group_reports_mem)
  have k: "set (dkeys ?gs) = ir_tool_name ` set ?b"
  proof -
    have "t \<in> set (dkeys ?gs) \<longleftrightarrow> (\<exists>rs. (t, rs) \<in> set ?gs)" for t by force
    then have "t \<in> set (dkeys ?gs) \<longleftrightarrow> (\<exists>r \<in> set ?b. ir_tool_name r = t)" for t
      by (simp add: group_reports_mem filter_empty_conv)
    then show ?thesis by (intro set_eqI) (auto simp: image_iff simp del: set_map)
  qed
  from fold_groups [of env ?gs "([], g\<lparr>gd_pending := slice_from k (gd_pending g)\<rparr>)"] k l group_reports_wf [of ?b]
  show ?thesis unfolding Let_def process_reports_fold by (simp add: wf_dict_def)
qed


section \<open>Examples\<close>

definition demo_report :: "tool_issue_type \<Rightarrow> string \<Rightarrow> tool_issue_report" where
  "demo_report ty msg = \<lparr>ir_report_id = ''r'', ir_reporter = ''a'', ir_tool_name = ''t'', ir_issue_type = ty,
     ir_error_message = msg, ir_arguments = [], ir_suggestion = [], ir_timestamp = ''0''\<rparr>"

text \<open>A tool \<open>t\<close> with one parameter \<open>p\<close>, on the server and in the tool store.\<close>

definition demo_tool :: tool_definition where
  "demo_tool = (store_definition ''b'')\<lparr>td_parameters := [\<lparr>tp_name = ''p'', tp_type = ''string'', tp_description = ''old'',
     tp_required = True, tp_enum = None, tp_default = JNull, tp_items = None\<rparr>]\<rparr>"

definition demo_guardian :: "string list \<Rightarrow> guardian" where
  "demo_guardian auto_list =
     \<lparr>gd_agent_id = ''guard'',
      gd_server = register_provider demo_backends (provider_register demo_tool ''h'' (new_provider ''pr'' ''builtin'')) None (new_server None),
      gd_memory = Some empty_knowledge,
      gd_store = Some (store_step (Upsert (demo_env ''1'') ((new_tool_entry ''t'' demo_tool)\<lparr>te_version := ''1.0.0''\<rparr>)) new_store),
      gd_manager = Some (new_approval_manager auto_list []),
      gd_reports = [], gd_history = [], gd_pending = [], gd_attempts = []\<rparr>"

text \<open>\<open>Some f\<close>: every reply of the LLM parses to \<open>f\<close>; \<open>None\<close>: there is no LLM.\<close>

definition demo_guard_env :: "llm_fix option \<Rightarrow> guardian_env" where
  "demo_guard_env fx =
     \<lparr>ge_view = demo_view ''default'' 5, ge_entry_id = (\<lambda>db. ''e'' @ show_nat (length (kd_entries db))),
      ge_store_env = demo_env ''2'', ge_git = (\<lambda>_. []), ge_fresh = (\<lambda>_. (''q'', ''5'')),
      ge_llm = map_option (\<lambda>_ _ _ _ _ _ _. Some []) fx, ge_parse = (\<lambda>_. fx), ge_dumps = (\<lambda>_. ''{}''),
      ge_type_order = id, ge_text_order = id\<rparr>"

definition no_fix :: llm_fix where
  "no_fix = \<lparr>lf_description = None, lf_params = [], lf_code = []\<rparr>"

definition reported :: "tool_issue_report \<Rightarrow> string list \<Rightarrow> guardian" where
  "reported r auto_list = receive_report r (demo_guardian auto_list)"

text \<open>An LLM that never changes anything is asked three times, then a human is.\<close>

theorem guardian_drains_witness:
  "let g = reported (demo_report OTHER ''odd'') []; rounds = replicate 5 (demo_guard_env (Some no_fix), 10);
       state = (\<lambda>n. fold process_round (take n rounds) g) in
     map (\<lambda>n. length (gd_pending (state n))) [0, 1, 2, 3] = [1, 1, 1, 0] \<and> gd_pending (fold process_round rounds g) = [] \<and>
     map_option (\<lambda>m. map ar_decision (dvals (ap_records m))) (gd_manager (state 2)) = Some [] \<and>
     map_option (\<lambda>m. map ar_decision (dvals (ap_records m))) (gd_manager (state 3)) = Some [PENDING]"
proof -
  let ?g = "reported (demo_report OTHER ''odd'') []" and ?rounds = "replicate 5 (demo_guard_env (Some no_fix), 10 :: int)"
  have 1: "list_all (\<lambda>x. 1 \<le> snd x) ?rounds" by (simp add: list_all_iff)
  have 2: "5 * length (gd_pending ?g) \<le> length ?rounds" by code_simp
  have 3: "map (\<lambda>n. length (gd_pending (fold process_round (take n ?rounds) ?g))) [0, 1, 2, 3] = [1, 1, 1, 0]" by code_simp
  have 4: "map_option (\<lambda>m. map ar_decision (dvals (ap_records m))) (gd_manager (fold process_round (take 2 ?rounds) ?g)) = Some []"
    by code_simp
  have 5: "map_option (\<lambda>m. map ar_decision (dvals (ap_records m))) (gd_manager (fold process_round (take 3 ?rounds) ?g)) = Some [PENDING]"
    by code_simp
  show ?thesis unfolding Let_def using guardian_drains [OF 1 2] 3 4 5 by argo
qed

text \<open>
  Without an LLM a report of a missing feature, an unexpected behaviour or an error always counts as
  repaired, since the rules always suggest code: such a tool is never queued again and never escalated,
  however often the same report comes back.
\<close>

lemma rules_always_repair:
  assumes "ge_llm env = None" "primary_type env reports \<in> {MISSING_FEATURE, UNEXPECTED_BEHAVIOR, ERROR_HANDLING}"
  shows "outcome_of env tool reports g \<in> {ToolMissing, Repaired}"
  using assms
  by (simp add: outcome_of_def planned_fix_def generate_fix_def generate_fix_with_rules_def rule_code_def fix_changes_def
      Let_def split: option.split)

lemma repeated_report_new_version:
  "let env = demo_guard_env None; r = demo_report ERROR_HANDLING ''boom'';
       g = process_round (env, 10) (receive_report r ((demo_guardian [])\<lparr>gd_memory := None\<rparr>)) in
     map_option (\<lambda>st. length (ts_rows st)) (gd_store g) = Some 2"
  by code_simp

text \<open>
  A repair of parameters alone counts as a repair and becomes a version of the tool store, but the server
  is only told when the description changes: agents keep reading the old text.
\<close>

lemma parameter_fix_not_applied:
  "let env = demo_guard_env (Some \<lparr>lf_description = None, lf_params = [(''p'', ''new'')], lf_code = []\<rparr>);
       out = process_reports env 10 (reported (demo_report PARAMETER_BOUNDARY ''invalid'') []);
       texts = (\<lambda>d. map tp_description (td_parameters d)) in
     map fr_description_updated (fst out) = [False] \<and> map fr_fix_attempts (fst out) = [1] \<and>
     gd_pending (snd out) = [] \<and>
     map_option texts (server_tool_definition ''t'' (gd_server (snd out))) = Some [''old''] \<and>
     map_option (\<lambda>st. map_option (\<lambda>e. texts (te_definition e)) (get_head_version ''t'' st)) (gd_store (snd out)) =
       Some (Some [''new''])"
  by code_simp

text \<open>Escalating a tool of the auto-approve list asks nobody: the system approves the record at once.\<close>

lemma escalation_approved_by_system:
  "let g = fold process_round (replicate 3 (demo_guard_env (Some no_fix), 10)) (reported (demo_report OTHER ''odd'') [''t'']) in
     map_option (\<lambda>m. map (\<lambda>r. (ar_decision r, ar_decided_by r)) (dvals (ap_records m))) (gd_manager g) =
       Some [(APPROVED, ''system'')]"
  by code_simp

text \<open>The reason of an escalation reaches the stored record only; the entry of the audit log keeps none.\<close>

lemma escalation_reason_not_logged:
  "let g = fold process_round (replicate 3 (demo_guard_env (Some no_fix), 10)) (reported (demo_report OTHER ''odd'') []) in
     map_option (\<lambda>m. map (\<lambda>r. ar_reason r = []) (dvals (ap_records m))) (gd_manager g) = Some [False] \<and>
     map_option (\<lambda>m. map ar_reason (ap_audit_log m)) (gd_manager g) = Some [[]]"
  by code_simp

text \<open>A repair resolves everything known of the tool: its best practices leave the prompt of the agents.\<close>

lemma repair_resolves_practices:
  "let mv = demo_view ''default'' 1; env = demo_guard_env None;
       db = snd (add_experience mv ''k'' ''t'' ''use it so'' TOOL_EXPERIENCE [] [] 1 [] empty_knowledge);
       g = (reported (demo_report ERROR_HANDLING ''boom'') [])\<lparr>gd_memory := Some db\<rparr>;
       h = process_round (env, 10) g in
     map_option (\<lambda>db. tk_best_practices (get_tool_knowledge mv ''t'' db)) (gd_memory g) = Some [''use it so''] \<and>
     map_option (\<lambda>db. tk_best_practices (get_tool_knowledge mv ''t'' db)) (gd_memory h) = Some []"
  by code_simp

end
