(* ===== verification/ToolRequest.thy ===== *)
theory ToolRequest
  imports BridgeProps
begin

text \<open>
  \<open>youmi/coordinator/tool_approval.py\<close>: how a master agent answers the requests of its sub-agents for
  more tools, on top of the approval manager, the vault and the bridges of the sub-agents. Parsing the
  content of a message, record ids with their times, and the vault's back ends are arguments. The texts
  of the replies are constructors. The listener that takes messages off the bus is not modelled.
\<close>

section \<open>The state\<close>

record sub_agent =
  sa_bridge :: "tool_bridge option"
  sa_allowed_tools :: "string list"

datatype approval_mode = ByMaster | ByList

datatype tool_response =
  ToolsGranted "string list" approval_mode
| PendingReview "string list"
| NoTools "string list"

record review_item =
  rv_tool_desc :: string
  rv_reason :: string
  rv_matched_tools :: "string list"

record request_desk =
  rd_agent_id :: string
  rd_registry :: "string tool_registry option"
  rd_vault :: "tool_vault option"
  rd_sub_agents :: "(string, sub_agent) dict"
  rd_pending :: "(string, string \<times> string) dict"
  rd_manager :: approval_manager
  rd_auto_approve_list :: "string list"
  rd_sensitive_tools :: "string list"
  rd_review_queue :: "(string, review_item) dict"
  rd_sent :: "(string \<times> tool_response) list"

text \<open>\<open>rq_parse\<close>: the description and the reason; \<open>None\<close>: the content is not a JSON object with two texts.\<close>

record request_env =
  rq_backends :: vault_backends
  rq_parse :: "string \<Rightarrow> (string \<times> string) option"
  rq_fresh :: "approval_manager \<Rightarrow> string \<times> string"

section \<open>Matching tools\<close>

text \<open>Appending what is not there yet.\<close>

definition append_new :: "'a list \<Rightarrow> 'a list \<Rightarrow> 'a list" where
  "append_new xs ys = fold (\<lambda>y acc. if y \<in> set acc then acc else acc @ [y]) ys xs"

definition available_tools :: "request_desk \<Rightarrow> string list" where
  "available_tools d = (case rd_registry d of None \<Rightarrow> [] | Some rg \<Rightarrow> registry_tool_names rg)"

definition vault_matches :: "request_env \<Rightarrow> string \<Rightarrow> request_desk \<Rightarrow> string list" where
  "vault_matches env desc d =
     (case rd_vault d of
        None \<Rightarrow> []
      | Some v \<Rightarrow> (case vault_search (rq_backends env) desc 5 (1 / 5) [] v of
                     None \<Rightarrow> [] | Some rs \<Rightarrow> append_new [] (map sr_tool_name rs)))"

definition request_keywords :: "string \<Rightarrow> string list" where
  "request_keywords desc = filter (\<lambda>k. 2 < length k) (split_ws (lower desc))"

definition keyword_matches :: "string \<Rightarrow> request_desk \<Rightarrow> string list" where
  "keyword_matches desc d =
     filter (\<lambda>n. list_ex (\<lambda>k. is_substring k (lower n)) (request_keywords desc) \<or>
                (case rd_registry d of None \<Rightarrow> False
                 | Some rg \<Rightarrow> (case get_definition n rg of None \<Rightarrow> False
                     | Some t \<Rightarrow> list_ex (\<lambda>k. is_substring k (lower (td_description t))) (request_keywords desc))))
       (available_tools d)"

definition matched_tools :: "request_env \<Rightarrow> string \<Rightarrow> request_desk \<Rightarrow> string list" where
  "matched_tools env desc d =
     (let ms = vault_matches env desc d in if ms = [] then keyword_matches desc d else ms)"

section \<open>Deciding\<close>

fun submit_all :: "request_env \<Rightarrow> string \<Rightarrow> string list \<Rightarrow> approval_manager \<Rightarrow>
    approval_record list \<times> approval_manager" where
  "submit_all env agent [] m = ([], m)"
| "submit_all env agent (t # ts) m =
     (case rq_fresh env m of
        (rid, now) \<Rightarrow>
          (case submit_request rid now agent t None m of
             (r, m) \<Rightarrow> (case submit_all env agent ts m of (rs, m) \<Rightarrow> (r # rs, m))))"

text \<open>The reason given is an ASCII stand-in.\<close>

definition master_reason :: string where
  "master_reason = ''approved by the master: an available tool matches''"

definition approve_masters :: "string \<Rightarrow> approval_record list \<Rightarrow> approval_manager \<Rightarrow> approval_manager" where
  "approve_masters who rs m =
     fold (\<lambda>r m. snd (approve (ar_record_id r) who master_reason m)) (filter (\<lambda>r. ar_level r = MASTER) rs) m"

text \<open>\<open>confirm_search_result\<close> for each tool on the sub-agent's bridge, then its configuration.\<close>

definition grant_tools :: "string list \<Rightarrow> sub_agent \<Rightarrow> sub_agent" where
  "grant_tools tools a =
     a\<lparr>sa_bridge := map_option (fold (\<lambda>t b. snd (confirm_search_result t b)) tools) (sa_bridge a),
       sa_allowed_tools := append_new (sa_allowed_tools a) tools\<rparr>"

definition grant_to :: "string \<Rightarrow> string list \<Rightarrow> request_desk \<Rightarrow> request_desk" where
  "grant_to agent tools d =
     (case dget (rd_sub_agents d) agent of
        None \<Rightarrow> d
      | Some a \<Rightarrow> d\<lparr>rd_sub_agents := dset agent (grant_tools tools a) (rd_sub_agents d)\<rparr>)"

definition send_response :: "string \<Rightarrow> tool_response \<Rightarrow> request_desk \<Rightarrow> request_desk" where
  "send_response agent r d = d\<lparr>rd_sent := rd_sent d @ [(agent, r)]\<rparr>"

section \<open>The operations\<close>

definition sensitive_matches :: "request_env \<Rightarrow> string \<Rightarrow> request_desk \<Rightarrow> string list" where
  "sensitive_matches env desc d =
     filter (\<lambda>t. evaluate t None (rd_manager d) = MANUAL) (matched_tools env desc d)"

definition queue_for_review :: "request_env \<Rightarrow> string \<Rightarrow> string \<Rightarrow> string \<Rightarrow> string list \<Rightarrow> request_desk \<Rightarrow> request_desk" where
  "queue_for_review env requester desc reason sensitive d =
     send_response requester (PendingReview sensitive)
       (d\<lparr>rd_manager := snd (submit_all env requester sensitive (rd_manager d)),
          rd_review_queue := dset requester \<lparr>rv_tool_desc = desc, rv_reason = reason, rv_matched_tools = sensitive\<rparr>
            (rd_review_queue d)\<rparr>)"

definition grant_request :: "request_env \<Rightarrow> string \<Rightarrow> string list \<Rightarrow> request_desk \<Rightarrow> request_desk" where
  "grant_request env requester tools d =
     (case submit_all env requester tools (rd_manager d) of
        (rs, m) \<Rightarrow>
          send_response requester
            (ToolsGranted tools (if list_ex (\<lambda>r. ar_level r = MASTER) rs then ByMaster else ByList))
            (grant_to requester tools (d\<lparr>rd_manager := approve_masters (rd_agent_id d) rs m\<rparr>)))"

definition handle_tool_request :: "request_env \<Rightarrow> string \<Rightarrow> string \<Rightarrow> request_desk \<Rightarrow> request_desk" where
  "handle_tool_request env requester content d =
     (case rq_parse env content of
        None \<Rightarrow> d
      | Some (desc, reason) \<Rightarrow>
          (let d = d\<lparr>rd_pending := dset requester (desc, reason) (rd_pending d)\<rparr>;
               matched = matched_tools env desc d; sensitive = sensitive_matches env desc d in
           if matched \<noteq> [] \<and> sensitive \<noteq> [] then queue_for_review env requester desc reason sensitive d
           else (let d = (if matched \<noteq> [] then grant_request env requester matched d
                          else send_response requester (NoTools (take 10 (available_tools d))) d)
                 in d\<lparr>rd_pending := ddel requester (rd_pending d)\<rparr>)))"

text \<open>\<open>approve_tool_request\<close> and \<open>deny_tool_request\<close>; the reasons are ASCII stand-ins.\<close>

definition user_reason :: "string list \<Rightarrow> string" where
  "user_reason tools = ''approved by the user: '' @ join_with '', '' tools"

definition decide_pending :: "approval_decision \<Rightarrow> string \<Rightarrow> string \<Rightarrow> string \<Rightarrow> approval_manager \<Rightarrow> approval_manager" where
  "decide_pending decision agent who reason m =
     fold (\<lambda>r m. snd (decide decision (ar_record_id r) who reason m)) (get_pending_for_agent agent m) m"

definition approve_tool_request :: "string \<Rightarrow> string list \<Rightarrow> request_desk \<Rightarrow> bool \<times> request_desk" where
  "approve_tool_request agent tools d =
     (if dget (rd_sub_agents d) agent = None then (False, d)
      else (True, (grant_to agent tools d)
         \<lparr>rd_manager := decide_pending APPROVED agent ''user'' (user_reason tools) (rd_manager d),
          rd_pending := ddel agent (rd_pending d), rd_review_queue := ddel agent (rd_review_queue d)\<rparr>))"

definition deny_reason :: "string \<Rightarrow> string" where
  "deny_reason reason = (if reason \<noteq> [] then reason else ''denied by the master'')"

definition deny_tool_request :: "string \<Rightarrow> string \<Rightarrow> request_desk \<Rightarrow> bool \<times> request_desk" where
  "deny_tool_request agent reason d =
     (let d = d\<lparr>rd_manager := decide_pending DENIED agent (rd_agent_id d) (deny_reason reason) (rd_manager d)\<rparr> in
      if dget (rd_pending d) agent \<noteq> None then (True, d\<lparr>rd_pending := ddel agent (rd_pending d)\<rparr>) else (False, d))"

definition desk_set_auto :: "string list \<Rightarrow> request_desk \<Rightarrow> request_desk" where
  "desk_set_auto tools d =
     d\<lparr>rd_auto_approve_list := remdups tools, rd_manager := set_auto_approve_list (remdups tools) (rd_manager d)\<rparr>"

definition desk_set_sensitive :: "string list \<Rightarrow> request_desk \<Rightarrow> request_desk" where
  "desk_set_sensitive tools d =
     d\<lparr>rd_sensitive_tools := remdups tools, rd_manager := set_sensitive_tools (remdups tools) (rd_manager d)\<rparr>"


section \<open>The desk as a transition system\<close>

datatype desk_op =
  ToolRequest request_env string string
| ApproveTools string "string list"
| DenyTools string string
| SetAutoList "string list"
| SetSensitiveList "string list"

fun desk_step :: "desk_op \<Rightarrow> request_desk \<Rightarrow> request_desk" where
  "desk_step (ToolRequest env requester content) d = handle_tool_request env requester content d"
| "desk_step (ApproveTools agent tools) d = snd (approve_tool_request agent tools d)"
| "desk_step (DenyTools agent reason) d = snd (deny_tool_request agent reason d)"
| "desk_step (SetAutoList tools) d = desk_set_auto tools d"
| "desk_step (SetSensitiveList tools) d = desk_set_sensitive tools d"

text \<open>What an agent may call: the tools of its configuration and those on the whitelist of its bridge.\<close>

definition whitelisted :: "tool_bridge \<Rightarrow> string set" where
  "whitelisted b = (case br_allowed_tools b of None \<Rightarrow> {} | Some ns \<Rightarrow> set ns)"

definition may_use :: "string \<Rightarrow> request_desk \<Rightarrow> string set" where
  "may_use agent d =
     (case dget (rd_sub_agents d) agent of
        None \<Rightarrow> {}
      | Some a \<Rightarrow> set (sa_allowed_tools a) \<union> (case sa_bridge a of None \<Rightarrow> {} | Some b \<Rightarrow> whitelisted b))"

lemma set_append_new [simp]: "set (append_new xs ys) = set xs \<union> set ys"
  unfolding append_new_def by (induction ys arbitrary: xs) auto

lemma activate_unrestricted:
  assumes "br_allowed_tools b = None"
  shows "br_allowed_tools (snd (activate_tool n b)) = None"
proof -
  have "bridge_frame b (snd (bridge_load_tool n b))" by simp
  also have "bridge_frame \<dots> (use_tool n (snd (bridge_load_tool n b)))" by simp
  also have "bridge_frame \<dots> ((use_tool n (snd (bridge_load_tool n b)))\<lparr>br_rejected_tools := []\<rparr>)" by simp
  also have "bridge_frame \<dots> (register_lineage n ((use_tool n (snd (bridge_load_tool n b)))\<lparr>br_rejected_tools := []\<rparr>))"
    by simp
  finally show ?thesis using assms by (simp add: activate_tool_def Let_def case_prod_unfold bridge_frame_def)
qed

lemma confirm_allowed: "whitelisted (snd (confirm_search_result t b)) \<subseteq> insert t (whitelisted b)"
proof (cases "br_allowed_tools b")
  case None
  then show ?thesis by (simp add: confirm_search_result_def whitelisted_def activate_unrestricted)
next
  case (Some ns)
  with activate_frame [of b t] show ?thesis
    by (simp add: confirm_search_result_def whitelisted_def bridge_frame_def add_allowed_tool_def)
qed

lemma fold_confirm_allowed:
  "whitelisted (fold (\<lambda>t b. snd (confirm_search_result t b)) ts b) \<subseteq> whitelisted b \<union> set ts"
proof (induction ts arbitrary: b)
  case (Cons t ts)
  show ?case using Cons [of "snd (confirm_search_result t b)"] confirm_allowed [of t b] by auto
qed simp

lemma may_use_grant: "may_use a (grant_to agent ts d) \<subseteq> may_use a d \<union> (if a = agent then set ts else {})"
proof (cases "dget (rd_sub_agents d) agent")
  case (Some x)
  show ?thesis
  proof (cases "sa_bridge x")
    case None
    with Some show ?thesis by (auto simp: may_use_def grant_to_def grant_tools_def split: option.splits)
  next
    case (Some b)
    with \<open>dget (rd_sub_agents d) agent = Some x\<close> fold_confirm_allowed [of ts b] show ?thesis
      by (auto simp: may_use_def grant_to_def grant_tools_def split: option.splits)
  qed
qed (simp add: grant_to_def)

lemma may_use_granted:
  "dget (rd_sub_agents d) agent = Some x \<Longrightarrow> set ts \<subseteq> may_use agent (grant_to agent ts d)"
  by (auto simp: may_use_def grant_to_def grant_tools_def)

lemma may_use_cong: "rd_sub_agents d = rd_sub_agents e \<Longrightarrow> may_use a d = may_use a e"
  by (simp add: may_use_def)


section \<open>What the approvals of a request leave\<close>

definition fresh_ids :: "request_env \<Rightarrow> bool" where
  "fresh_ids env \<longleftrightarrow> (\<forall>m. fst (rq_fresh env m) \<notin> set (dkeys (ap_records m)))"

definition same_lists :: "approval_manager \<Rightarrow> approval_manager \<Rightarrow> bool" where
  "same_lists m m' \<longleftrightarrow> ap_auto_approve_list m' = ap_auto_approve_list m \<and> ap_sensitive_tools m' = ap_sensitive_tools m"

lemma same_lists_evaluate: "same_lists m m' \<Longrightarrow> evaluate t risk m' = evaluate t risk m"
  by (simp add: same_lists_def evaluate_def)

lemma same_lists_trans: "same_lists a b \<Longrightarrow> same_lists b c \<Longrightarrow> same_lists a c"
  by (simp add: same_lists_def)

lemma same_lists_submit: "same_lists m (snd (submit_request rid now a t risk m))"
  by (simp add: same_lists_def submit_request_def Let_def)

lemma same_lists_submit_all: "same_lists m (snd (submit_all env agent ts m))"
proof (induction ts arbitrary: m)
  case (Cons t ts)
  obtain rid now where f: "rq_fresh env m = (rid, now)" by fastforce
  let ?m = "snd (submit_request rid now agent t None m)"
  have "same_lists m (snd (submit_all env agent ts ?m))"
    by (rule same_lists_trans [OF same_lists_submit Cons])
  then show ?case by (simp add: f prod.case_eq_if)
qed (simp add: same_lists_def)

lemma same_lists_decide: "same_lists m (snd (decide d rid who why m))"
  by (simp add: same_lists_def decide_def Let_def split: option.split)

lemma same_lists_fold_decide: "same_lists m (fold (\<lambda>r m. snd (decide d (f r) who why m)) rs m)"
proof (induction rs arbitrary: m)
  case (Cons r rs)
  show ?case using same_lists_trans [OF same_lists_decide Cons] by simp
qed (simp add: same_lists_def)

text \<open>A record of the request of a tool, before anybody has decided it.\<close>

definition requested :: "string \<Rightarrow> approval_manager \<Rightarrow> approval_record \<Rightarrow> bool" where
  "requested agent m r \<longleftrightarrow> ar_agent_id r = agent \<and> ar_level r = evaluate (ar_tool_name r) None m \<and>
     ar_decision r = (if ar_level r = AUTO then APPROVED else PENDING)"

lemma submit_request_record:
  "submit_request rid now agent t None m = (r, m') \<Longrightarrow>
     requested agent m r \<and> ar_tool_name r = t \<and> ar_record_id r = rid \<and>
     ap_records m' = dset rid r (ap_records m) \<and> ap_audit_log m' = ap_audit_log m @ [r] \<and> same_lists m m'"
  by (cases "evaluate t None m = AUTO") (auto simp: submit_request_def requested_def same_lists_def Let_def)

lemma submit_all_records:
  assumes "fresh_ids env" "submit_all env agent ts m = (rs, m')"
  shows "map ar_tool_name rs = ts \<and> list_all (requested agent m) rs \<and> distinct (map ar_record_id rs) \<and>
    (\<forall>r \<in> set rs. dget (ap_records m') (ar_record_id r) = Some r \<and> ar_record_id r \<notin> fst ` set (ap_records m)) \<and>
    (\<forall>k. k \<notin> ar_record_id ` set rs \<longrightarrow> dget (ap_records m') k = dget (ap_records m) k) \<and>
    ap_audit_log m' = ap_audit_log m @ rs"
  using assms(2)
proof (induction ts arbitrary: m rs)
  case (Cons t ts)
  obtain rid now where f: "rq_fresh env m = (rid, now)" by fastforce
  obtain r m1 where r: "submit_request rid now agent t None m = (r, m1)" by fastforce
  obtain rs1 where rs: "submit_all env agent ts m1 = (rs1, m')" "rs = r # rs1"
    using Cons.prems by (auto simp: f r split: prod.splits)
  have new: "rid \<notin> fst ` set (ap_records m)" using assms(1) f by (simp add: fresh_ids_def) (metis fst_conv)
  note R = submit_request_record [OF r] and I = Cons.IH [OF rs(1)]
  have ev: "requested agent m1 = requested agent m"
    using R by (auto simp: requested_def same_lists_evaluate)
  have keys: "fst ` set (ap_records m1) = insert rid (fst ` set (ap_records m))" using R by simp
  have out: "rid \<notin> ar_record_id ` set rs1" using I keys by auto
  have "dget (ap_records m') rid = Some r" using I R out by simp
  with I R out new keys ev show ?case by (auto simp: rs(2))
qed simp

definition approved_by :: "string \<Rightarrow> approval_record \<Rightarrow> approval_record" where
  "approved_by who r = r\<lparr>ar_decision := APPROVED, ar_decided_by := who, ar_reason := master_reason\<rparr>"

lemma approve_masters_log:
  assumes "distinct (map ar_record_id rs)"
    and "\<forall>r \<in> set rs. dget (ap_records m) (ar_record_id r) = Some r \<and> (ar_level r = MASTER \<longrightarrow> ar_decision r = PENDING)"
  shows "ap_audit_log (approve_masters who rs m) =
    ap_audit_log m @ map (approved_by who) (filter (\<lambda>r. ar_level r = MASTER) rs)"
  using assms
proof (induction rs arbitrary: m)
  case (Cons r rs)
  show ?case
  proof (cases "ar_level r = MASTER")
    case False
    with Cons show ?thesis by (simp add: approve_masters_def)
  next
    case True
    let ?m = "snd (approve (ar_record_id r) who master_reason m)"
    have m: "?m = m\<lparr>ap_records := dset (ar_record_id r) (approved_by who r) (ap_records m),
        ap_audit_log := ap_audit_log m @ [approved_by who r]\<rparr>"
      using Cons.prems True by (simp add: approve_def decide_def approved_by_def Let_def)
    have "\<forall>x \<in> set rs. dget (ap_records ?m) (ar_record_id x) = Some x"
      using Cons.prems by (auto simp: m image_iff)
    then have "ap_audit_log (approve_masters who rs ?m) =
        ap_audit_log ?m @ map (approved_by who) (filter (\<lambda>r. ar_level r = MASTER) rs)"
      using Cons by simp
    then show ?thesis using True by (simp add: approve_masters_def m)
  qed
qed (simp add: approve_masters_def)

section \<open>Sensitive tools\<close>

text \<open>No list changes around the tool, and the user does not name it for the agent.\<close>

fun leaves_sensitive :: "string \<Rightarrow> string \<Rightarrow> desk_op \<Rightarrow> bool" where
  "leaves_sensitive a t (ApproveTools agent tools) \<longleftrightarrow> agent \<noteq> a \<or> t \<notin> set tools"
| "leaves_sensitive a t (SetAutoList tools) \<longleftrightarrow> t \<notin> set tools"
| "leaves_sensitive a t (SetSensitiveList tools) \<longleftrightarrow> t \<in> set tools"
| "leaves_sensitive a t _ \<longleftrightarrow> True"

definition withheld :: "string \<Rightarrow> string \<Rightarrow> request_desk \<Rightarrow> bool" where
  "withheld a t d \<longleftrightarrow> evaluate t None (rd_manager d) = MANUAL \<and> t \<notin> may_use a d"

lemma grant_to_fields [simp]:
  "rd_manager (grant_to agent ts d) = rd_manager d" "rd_agent_id (grant_to agent ts d) = rd_agent_id d"
  by (simp_all add: grant_to_def split: option.split)

lemma same_lists_masters: "same_lists m (approve_masters who rs m)"
  unfolding approve_masters_def approve_def by (rule same_lists_fold_decide)

lemma desk_request_lists: "same_lists (rd_manager d) (rd_manager (handle_tool_request env a c d))"
proof -
  have q: "same_lists m (approve_masters who (fst (submit_all env a ts m)) (snd (submit_all env a ts m)))" for who ts m
    by (rule same_lists_trans [OF same_lists_submit_all same_lists_masters])
  show ?thesis
    using q by (auto simp: handle_tool_request_def queue_for_review_def grant_request_def send_response_def Let_def
        same_lists_submit_all prod.case_eq_if same_lists_def [of "rd_manager d" "rd_manager d"] split: option.split)
qed

lemma request_may_use:
  fixes d :: request_desk and agent desc reason :: string
  assumes "rq_parse env c = Some (desc, reason)"
  defines "e \<equiv> d\<lparr>rd_pending := dset agent (desc, reason) (rd_pending d)\<rparr>"
  shows "may_use a (handle_tool_request env agent c d) \<subseteq>
    may_use a d \<union> (if a = agent \<and> sensitive_matches env desc e = [] then set (matched_tools env desc e) else {})"
proof (cases "matched_tools env desc e \<noteq> [] \<and> sensitive_matches env desc e = []")
  case True
  let ?ts = "matched_tools env desc e" and ?s = "submit_all env agent (matched_tools env desc e) (rd_manager d)"
  let ?g = "e\<lparr>rd_manager := approve_masters (rd_agent_id d) (fst ?s) (snd ?s)\<rparr>"
  have "rd_sub_agents (handle_tool_request env agent c d) = rd_sub_agents (grant_to agent ?ts ?g)"
    using True by (simp add: handle_tool_request_def assms grant_request_def send_response_def Let_def prod.case_eq_if)
  then have "may_use a (handle_tool_request env agent c d) = may_use a (grant_to agent ?ts ?g)" by (rule may_use_cong)
  also have "\<dots> \<subseteq> may_use a ?g \<union> (if a = agent then set ?ts else {})" by (rule may_use_grant)
  also have "may_use a ?g = may_use a d" by (rule may_use_cong) (simp add: e_def)
  finally show ?thesis using True by auto
next
  case False
  then have "rd_sub_agents (handle_tool_request env agent c d) = rd_sub_agents d"
    by (auto simp: handle_tool_request_def assms queue_for_review_def send_response_def Let_def)
  then show ?thesis using may_use_cong by blast
qed


lemma approve_may_use:
  "may_use a (snd (approve_tool_request agent tools d)) \<subseteq> may_use a d \<union> (if a = agent then set tools else {})"
proof (cases "dget (rd_sub_agents d) agent = None")
  case False
  then have "rd_sub_agents (snd (approve_tool_request agent tools d)) = rd_sub_agents (grant_to agent tools d)"
    by (auto simp: approve_tool_request_def)
  from may_use_cong [OF this, of a] may_use_grant show ?thesis by simp
qed (simp add: approve_tool_request_def)

lemma withheld_step: "withheld a t d \<Longrightarrow> leaves_sensitive a t x \<Longrightarrow> withheld a t (desk_step x d)"
proof (cases x)
  case (ToolRequest env agent c)
  assume w: "withheld a t d"
  have l: "evaluate t None (rd_manager (handle_tool_request env agent c d)) = MANUAL"
    using w same_lists_evaluate [OF desk_request_lists] by (simp add: withheld_def)
  have "t \<notin> may_use a (handle_tool_request env agent c d)"
  proof (cases "rq_parse env c")
    case None
    with w show ?thesis by (simp add: handle_tool_request_def withheld_def)
  next
    case (Some p)
    obtain desc reason where p: "rq_parse env c = Some (desc, reason)" using Some by (cases p) auto
    let ?e = "d\<lparr>rd_pending := dset agent (desc, reason) (rd_pending d)\<rparr>"
    have "t \<notin> set (matched_tools env desc ?e)" if "sensitive_matches env desc ?e = []"
      using that w by (auto simp: sensitive_matches_def withheld_def filter_empty_conv)
    with request_may_use [OF p, of a agent d] w show ?thesis by (auto simp: withheld_def split: if_splits)
  qed
  with l show ?thesis by (simp add: ToolRequest withheld_def)
next
  case (ApproveTools agent tools)
  assume w: "withheld a t d" and x: "leaves_sensitive a t x"
  have "same_lists (rd_manager d) (rd_manager (snd (approve_tool_request agent tools d)))"
    by (simp add: approve_tool_request_def decide_pending_def same_lists_fold_decide) (simp add: same_lists_def)
  then show ?thesis using w x same_lists_evaluate approve_may_use [of a agent tools d] by (auto simp: ApproveTools withheld_def split: if_splits)
next
  case (DenyTools agent reason)
  assume w: "withheld a t d"
  have "same_lists (rd_manager d) (rd_manager (snd (deny_tool_request agent reason d)))"
    by (simp add: deny_tool_request_def decide_pending_def Let_def same_lists_fold_decide)
  moreover have "may_use a (snd (deny_tool_request agent reason d)) = may_use a d"
    by (simp add: deny_tool_request_def Let_def may_use_def)
  ultimately show ?thesis using w same_lists_evaluate by (simp add: DenyTools withheld_def)
next
  case (SetAutoList tools)
  assume "withheld a t d" "leaves_sensitive a t x"
  then show ?thesis
    by (auto simp: SetAutoList withheld_def desk_set_auto_def set_auto_approve_list_def evaluate_def may_use_def split: if_splits)
next
  case (SetSensitiveList tools)
  assume "withheld a t d" "leaves_sensitive a t x"
  then show ?thesis
    by (auto simp: SetSensitiveList withheld_def desk_set_sensitive_def set_sensitive_tools_def evaluate_def may_use_def
        split: if_splits)
qed

interpretation dsk: invariant_system "withheld a t" desk_step "leaves_sensitive a t" "withheld a t" for a t
  by unfold_locales (auto intro: withheld_step)

text \<open>
  C24: A sensitive tool needs the user: as long as it stays on the sensitive list and off the
  auto-approve list, no sequence of requests (of this agent or of others, matching whatever tools),
  approvals of other tools and denials gives it to an agent, in its configuration or on the whitelist of
  its bridge; only an approval that names the tool for the agent does.
\<close>
theorem sensitive_tools_need_user:
  assumes "evaluate t None (rd_manager d) = MANUAL" and "t \<notin> may_use a d" and "list_all (leaves_sensitive a t) ops"
  shows "t \<notin> may_use a (fold desk_step ops d)"
  using dsk.inv_reachable [of a t d ops] assms by (simp add: withheld_def)

section \<open>Every grant is on record\<close>

definition on_record :: "string \<Rightarrow> string \<Rightarrow> approval_manager \<Rightarrow> bool" where
  "on_record a t m \<longleftrightarrow> (\<exists>r \<in> set (ap_audit_log m).
     ar_agent_id r = a \<and> ar_tool_name r = t \<and> ar_decision r = APPROVED \<and> ar_level r \<noteq> MANUAL)"

fun named_by_user :: "string \<Rightarrow> desk_op list \<Rightarrow> string set" where
  "named_by_user a [] = {}"
| "named_by_user a (ApproveTools agent tools # ops) = (if agent = a then set tools else {}) \<union> named_by_user a ops"
| "named_by_user a (x # ops) = named_by_user a ops"

fun fresh_op :: "desk_op \<Rightarrow> bool" where
  "fresh_op (ToolRequest env agent c) \<longleftrightarrow> fresh_ids env"
| "fresh_op x \<longleftrightarrow> True"

lemma submit_all_log: "set (ap_audit_log m) \<subseteq> set (ap_audit_log (snd (submit_all env agent ts m)))"
proof (induction ts arbitrary: m)
  case (Cons t ts)
  obtain rid now where f: "rq_fresh env m = (rid, now)" by fastforce
  let ?m = "snd (submit_request rid now agent t None m)"
  have "set (ap_audit_log m) \<subseteq> set (ap_audit_log ?m)" by (auto simp: submit_request_def Let_def)
  with Cons [of ?m] show ?case by (auto simp: f prod.case_eq_if)
qed simp

lemma fold_decide_log:
  "set (ap_audit_log m) \<subseteq> set (ap_audit_log (fold (\<lambda>r m. snd (decide d (ar_record_id r) who why m)) rs m))"
proof (induction rs arbitrary: m)
  case (Cons r rs)
  have "set (ap_audit_log m) \<subseteq> set (ap_audit_log (snd (decide d (ar_record_id r) who why m)))"
    by (auto simp: decide_def Let_def split: option.split)
  with Cons [of "snd (decide d (ar_record_id r) who why m)"] show ?case by auto
qed simp

lemma desk_step_log: "set (ap_audit_log (rd_manager d)) \<subseteq> set (ap_audit_log (rd_manager (desk_step x d)))"
proof (cases x)
  case (ToolRequest env agent c)
  have "set (ap_audit_log m) \<subseteq>
      set (ap_audit_log (approve_masters who (fst (submit_all env agent ts m)) (snd (submit_all env agent ts m))))" for who ts m
    using submit_all_log [of m env agent ts] fold_decide_log
    unfolding approve_masters_def approve_def by fastforce
  with submit_all_log show ?thesis
    by (auto simp: ToolRequest handle_tool_request_def queue_for_review_def grant_request_def send_response_def Let_def
        prod.case_eq_if split: option.split)
next
  case (ApproveTools agent tools)
  have "set (ap_audit_log (rd_manager d)) \<subseteq> set (ap_audit_log (decide_pending APPROVED agent ''user'' (user_reason tools) (rd_manager d)))"
    unfolding decide_pending_def by (rule fold_decide_log)
  then show ?thesis by (simp add: ApproveTools approve_tool_request_def)
next
  case (DenyTools agent reason)
  have "set (ap_audit_log (rd_manager d)) \<subseteq> set (ap_audit_log (decide_pending DENIED agent (rd_agent_id d) (deny_reason reason) (rd_manager d)))"
    unfolding decide_pending_def by (rule fold_decide_log)
  then show ?thesis by (simp add: DenyTools deny_tool_request_def Let_def)
qed (simp_all add: desk_set_auto_def desk_set_sensitive_def set_auto_approve_list_def set_sensitive_tools_def)

lemma grant_on_record:
  assumes "fresh_ids env" "t \<in> set ts" "evaluate t None m \<noteq> MANUAL" "submit_all env agent ts m = (rs, m')"
  shows "on_record agent t (approve_masters who rs m')"
proof -
  note R = submit_all_records [OF assms(1,4)]
  from R assms(2) obtain r where r: "r \<in> set rs" "ar_tool_name r = t" by (metis imageE list.set_map)
  with R have q: "requested agent m r" by (simp add: list_all_iff)
  have "\<forall>r \<in> set rs. dget (ap_records m') (ar_record_id r) = Some r \<and> (ar_level r = MASTER \<longrightarrow> ar_decision r = PENDING)"
    using R by (auto simp: list_all_iff requested_def)
  with R have log: "ap_audit_log (approve_masters who rs m') =
      ap_audit_log m' @ map (approved_by who) (filter (\<lambda>r. ar_level r = MASTER) rs)"
    by (intro approve_masters_log) auto
  show ?thesis
  proof (cases "ar_level r = AUTO")
    case True
    have "r \<in> set (ap_audit_log (approve_masters who rs m'))" using log R r(1) by simp
    with True q r(2) show ?thesis by (auto simp: on_record_def requested_def)
  next
    case False
    then have "ar_level r = MASTER" using q assms(3) r(2) by (cases "ar_level r") (auto simp: requested_def)
    then have "approved_by who r \<in> set (ap_audit_log (approve_masters who rs m'))" using log r(1) by simp
    with q r(2) False \<open>ar_level r = MASTER\<close> show ?thesis
      by (auto simp: on_record_def requested_def approved_by_def intro!: bexI [where x = "approved_by who r"])
  qed
qed

lemma desk_step_grants:
  assumes "fresh_op x" "t \<in> may_use a (desk_step x d)" "t \<notin> may_use a d" "t \<notin> named_by_user a [x]"
  shows "on_record a t (rd_manager (desk_step x d))"
proof (cases x)
  case (ToolRequest env agent c)
  have use: "t \<in> may_use a (handle_tool_request env agent c d)" using assms(2) by (simp add: ToolRequest)
  then obtain desc reason where p: "rq_parse env c = Some (desc, reason)"
    using assms(3) by (cases "rq_parse env c") (auto simp: handle_tool_request_def)
  let ?e = "d\<lparr>rd_pending := dset agent (desc, reason) (rd_pending d)\<rparr>"
  let ?ts = "matched_tools env desc ?e"
  have g: "a = agent" "sensitive_matches env desc ?e = []" "t \<in> set ?ts"
    using request_may_use [OF p, of a agent d] use assms(3) by (auto split: if_splits)
  obtain rs m where rs: "submit_all env agent ?ts (rd_manager d) = (rs, m)" by fastforce
  have "?ts \<noteq> []" using g(3) by auto
  then have "rd_manager (handle_tool_request env agent c d) = approve_masters (rd_agent_id d) rs m"
    using g(2) by (simp add: handle_tool_request_def p grant_request_def send_response_def Let_def rs)
  moreover have "evaluate t None (rd_manager d) \<noteq> MANUAL"
    using g(2,3) by (auto simp: sensitive_matches_def filter_empty_conv)
  ultimately show ?thesis using grant_on_record [OF _ g(3) _ rs] assms(1) g(1) by (simp add: ToolRequest)
next
  case (ApproveTools agent tools)
  with assms approve_may_use [of a agent tools d] show ?thesis by (auto split: if_splits)
next
  case (DenyTools agent reason)
  with assms show ?thesis by (simp add: deny_tool_request_def Let_def may_use_def split: if_splits)
next
  case (SetAutoList tools)
  with assms show ?thesis by (simp add: desk_set_auto_def may_use_def)
next
  case (SetSensitiveList tools)
  with assms show ?thesis by (simp add: desk_set_sensitive_def may_use_def)
qed

text \<open>
  C25: Every grant is on record: whatever an agent may use after any sequence of requests and decisions it
  could use at the start, or the user named it for the agent, or the audit log has an approval of the
  tool for this agent that did not need the user (from the auto-approve list or by the master).
\<close>
theorem grants_on_record:
  assumes "list_all fresh_op ops" and "t \<in> may_use a (fold desk_step ops d)"
  shows "t \<in> may_use a d \<or> t \<in> named_by_user a ops \<or> on_record a t (rd_manager (fold desk_step ops d))"
  using assms
proof (induction ops arbitrary: d)
  case (Cons x ops)
  have log: "set (ap_audit_log (rd_manager d)) \<subseteq> set (ap_audit_log (rd_manager (fold desk_step ops d)))" for d
    by (induction ops arbitrary: d) (use desk_step_log in fastforce)+
  have named: "named_by_user a (x # ops) = named_by_user a [x] \<union> named_by_user a ops" by (cases x) auto
  have "t \<in> may_use a (desk_step x d) \<or> t \<in> named_by_user a ops \<or> on_record a t (rd_manager (fold desk_step (x # ops) d))"
    using Cons by simp
  then show ?case
    using desk_step_grants [of x t a d] log [of "desk_step x d"] Cons.prems(1) named
    by (fastforce simp: on_record_def)
qed simp


section \<open>Examples\<close>

text \<open>
  The content of a message is the description itself, the search finds the tool of that name in the vault,
  and a record id is longer than every id in use.
\<close>

definition demo_find :: "string \<Rightarrow> tool_search_result list option" where
  "demo_find q = map_option (\<lambda>e. [\<lparr>sr_tool_name = q, sr_definition = None, sr_score = 1, sr_summary = [],
     sr_risk_level = te_risk_level e, sr_required_permissions = [], sr_lineage_id = []\<rparr>]) (get_entry q two_tools)"

definition demo_request_env :: request_env where
  "demo_request_env = \<lparr>rq_backends = no_backends\<lparr>vb_store_search := Some (\<lambda>q _ _ _. demo_find q)\<rparr>, rq_parse = (\<lambda>c. Some (c, ''why'')),
     rq_fresh = (\<lambda>m. (replicate (Suc (sum_list (map length (dkeys (ap_records m))))) (CHR ''i''), ''now''))\<rparr>"

lemma demo_fresh: "fresh_ids demo_request_env"
proof -
  have l: "length k \<le> sum_list (map length ks)" if "k \<in> set ks" for k :: string and ks
    using that by (induction ks) auto
  have r: "replicate (Suc (sum_list (map length ks))) (CHR ''i'') \<notin> set ks" for ks
    using l by (metis Suc_n_not_le_n length_replicate)
  have "fst (rq_fresh demo_request_env m) \<notin> set (dkeys (ap_records m))" for m
    using r [of "dkeys (ap_records m)"] by (simp add: demo_request_env_def)
  then show ?thesis by (simp add: fresh_ids_def)
qed

text \<open>A master over the vault of two tools and a sub-agent that may use a calculator.\<close>

definition demo_desk :: "string list \<Rightarrow> request_desk" where
  "demo_desk sensitive =
     \<lparr>rd_agent_id = ''boss'', rd_registry = None, rd_vault = Some two_tools,
      rd_sub_agents = [(''ag'', \<lparr>sa_bridge = Some demo_bridge, sa_allowed_tools = [''calc'']\<rparr>)],
      rd_pending = [], rd_manager = new_approval_manager [] sensitive, rd_auto_approve_list = [],
      rd_sensitive_tools = sensitive, rd_review_queue = [], rd_sent = []\<rparr>"

theorem sensitive_tools_need_user_witness:
  "let d = demo_desk [''wipe''];
       ops = [ToolRequest demo_request_env ''ag'' ''wipe'', ToolRequest demo_request_env ''ag'' ''mail'', ApproveTools ''ag'' [''mail'']] in
     ''wipe'' \<notin> may_use ''ag'' (fold desk_step ops d) \<and> ''mail'' \<in> may_use ''ag'' (fold desk_step ops d) \<and>
     ''wipe'' \<in> may_use ''ag'' (fold desk_step (ops @ [ApproveTools ''ag'' [''wipe'']]) d)"
proof -
  let ?d = "demo_desk [''wipe'']"
  let ?ops = "[ToolRequest demo_request_env ''ag'' ''wipe'', ToolRequest demo_request_env ''ag'' ''mail'', ApproveTools ''ag'' [''mail'']]"
  have 1: "evaluate ''wipe'' None (rd_manager ?d) = MANUAL" by code_simp
  have 2: "''wipe'' \<notin> may_use ''ag'' ?d" by code_simp
  have 3: "list_all (leaves_sensitive ''ag'' ''wipe'') ?ops" by code_simp
  have 4: "''mail'' \<in> may_use ''ag'' (fold desk_step ?ops ?d)" by code_simp
  have 5: "''wipe'' \<in> may_use ''ag'' (fold desk_step (?ops @ [ApproveTools ''ag'' [''wipe'']]) ?d)" by code_simp
  show ?thesis unfolding Let_def using sensitive_tools_need_user [OF 1 2 3] 4 5 by blast
qed

theorem grants_on_record_witness:
  "let ops = [ToolRequest demo_request_env ''ag'' ''mail'']; d = demo_desk [] in
     ''mail'' \<in> may_use ''ag'' (fold desk_step ops d) \<and> ''mail'' \<notin> may_use ''ag'' d \<and>
     on_record ''ag'' ''mail'' (rd_manager (fold desk_step ops d))"
proof -
  let ?ops = "[ToolRequest demo_request_env ''ag'' ''mail'']" and ?d = "demo_desk []"
  have 1: "list_all fresh_op ?ops" by (simp add: demo_fresh)
  have 2: "''mail'' \<in> may_use ''ag'' (fold desk_step ?ops ?d)" by code_simp
  have 3: "''mail'' \<notin> may_use ''ag'' ?d" by code_simp
  have 4: "named_by_user ''ag'' ?ops = {}" by simp
  show ?thesis unfolding Let_def using grants_on_record [OF 1 2] 2 3 4 by blast
qed

text \<open>
  Requests do not pass the risk of a tool on: the dangerous tool of the vault, which the audit gate of
  the sub-agent's bridge would hold back, is granted by the master at once, and no human is asked.
\<close>

lemma risky_tool_granted:
  "let d = handle_tool_request demo_request_env ''ag'' ''wipe'' (demo_desk []) in
     rd_sent d = [(''ag'', ToolsGranted [''wipe''] ByMaster)] \<and> ''wipe'' \<in> may_use ''ag'' d \<and>
     map_option te_risk_level (get_entry ''wipe'' two_tools) = Some ''critical'' \<and>
     evaluate ''wipe'' (Some ''critical'') (rd_manager (demo_desk [])) = MANUAL"
  by code_simp

text \<open>An approval that names no tool, or another one, approves all pending requests of the agent.\<close>

lemma approval_covers_all:
  "let d = handle_tool_request demo_request_env ''ag'' ''wipe'' (demo_desk [''wipe'']);
       e = snd (approve_tool_request ''ag'' [] d) in
     map ar_decision (dvals (ap_records (rd_manager d))) = [PENDING] \<and>
     map (\<lambda>r. (ar_tool_name r, ar_decision r)) (dvals (ap_records (rd_manager e))) = [(''wipe'', APPROVED)] \<and>
     ''wipe'' \<notin> may_use ''ag'' e \<and> rd_review_queue e = []"
  by code_simp

text \<open>A denial leaves the request in the queue of manual reviews.\<close>

lemma denied_stays_queued:
  "let d = handle_tool_request demo_request_env ''ag'' ''wipe'' (demo_desk [''wipe'']); e = snd (deny_tool_request ''ag'' ''no'' d) in
     map ar_decision (dvals (ap_records (rd_manager e))) = [DENIED] \<and> dkeys (rd_review_queue e) = [''ag'']"
  by code_simp

text \<open>A second request of an agent overwrites its first one in the queue; both records stay pending.\<close>

lemma second_request_overwrites:
  "let d = fold (handle_tool_request demo_request_env ''ag'') [''wipe'', ''mail''] (demo_desk [''wipe'', ''mail'']) in
     map (\<lambda>(a, r). (a, rv_matched_tools r)) (rd_review_queue d) = [(''ag'', [''mail''])] \<and>
     map ar_tool_name (get_pending_for_agent ''ag'' (rd_manager d)) = [''wipe'', ''mail'']"
  by code_simp

end
