(* ===== verification/Regex.thy ===== *)
theory Regex
  imports Strings
begin

text \<open>
  The regular expressions of Python's \<open>re\<close> that the sandbox uses: characters and classes, word
  boundaries, sequences, alternatives and repetition, on ASCII strings. \<open>ends\<close> computes where a match
  from a position can end; the relation \<open>matches\<close> says what a match is, and the two agree.
\<close>

section \<open>Matching\<close>

datatype rx =
  Eps
| One "char \<Rightarrow> bool"
| Bound
| Seq rx rx
| Alt rx rx
| Star rx

text \<open>A position: the character before it, if there is one, and the rest of the text.\<close>

type_synonym rx_pos = "char option \<times> string"

definition word_char :: "char \<Rightarrow> bool" where
  "word_char c \<longleftrightarrow> is_digit c \<or> c = CHR ''_'' \<or> (let n = (of_char (lower_char c) :: nat) in 97 \<le> n \<and> n \<le> 122)"

definition at_boundary :: "rx_pos \<Rightarrow> bool" where
  "at_boundary x \<longleftrightarrow>
     (case fst x of None \<Rightarrow> False | Some c \<Rightarrow> word_char c) \<noteq> (case snd x of [] \<Rightarrow> False | c # _ \<Rightarrow> word_char c)"

text \<open>Positions reachable in at most \<open>n\<close> steps of which each uses up text.\<close>

primrec reach :: "nat \<Rightarrow> (rx_pos \<Rightarrow> rx_pos list) \<Rightarrow> rx_pos \<Rightarrow> rx_pos list" where
  "reach 0 f x = [x]"
| "reach (Suc n) f x = x # concat (map (reach n f) (filter (\<lambda>y. length (snd y) < length (snd x)) (f x)))"

primrec ends :: "rx \<Rightarrow> rx_pos \<Rightarrow> rx_pos list" where
  "ends Eps x = [x]"
| "ends (One p) x = (case snd x of [] \<Rightarrow> [] | c # cs \<Rightarrow> if p c then [(Some c, cs)] else [])"
| "ends Bound x = (if at_boundary x then [x] else [])"
| "ends (Seq r s) x = concat (map (ends s) (ends r x))"
| "ends (Alt r s) x = ends r x @ ends s x"
| "ends (Star r) x = reach (length (snd x)) (ends r) x"

fun positions :: "char option \<Rightarrow> string \<Rightarrow> rx_pos list" where
  "positions p [] = [(p, [])]"
| "positions p (c # cs) = (p, c # cs) # positions (Some c) cs"

text \<open>\<open>pattern.search(text)\<close> is not \<open>None\<close>.\<close>

definition rx_search :: "rx \<Rightarrow> string \<Rightarrow> bool" where
  "rx_search r s \<longleftrightarrow> list_ex (\<lambda>x. ends r x \<noteq> []) (positions None s)"

section \<open>What a match is\<close>

inductive matches :: "rx \<Rightarrow> rx_pos \<Rightarrow> rx_pos \<Rightarrow> bool" where
  eps: "matches Eps x x"
| one: "p c \<Longrightarrow> matches (One p) (b, c # cs) (Some c, cs)"
| bound: "at_boundary x \<Longrightarrow> matches Bound x x"
| seq: "matches r x y \<Longrightarrow> matches s y z \<Longrightarrow> matches (Seq r s) x z"
| alt1: "matches r x y \<Longrightarrow> matches (Alt r s) x y"
| alt2: "matches s x y \<Longrightarrow> matches (Alt r s) x y"
| star0: "matches (Star r) x x"
| star1: "matches r x y \<Longrightarrow> matches (Star r) y z \<Longrightarrow> matches (Star r) x z"

inductive_cases match_elims: "matches Eps x y" "matches (One p) x y" "matches Bound x y" "matches (Seq r s) x y"
  "matches (Alt r s) x y"

lemma matches_shrink:
  "matches r x y \<Longrightarrow> length (snd y) \<le> length (snd x) \<and> (length (snd y) = length (snd x) \<longrightarrow> y = x)"
  by (induction rule: matches.induct) auto

lemma reach_sound:
  assumes "\<And>x y. y \<in> set (f x) \<Longrightarrow> matches r x y"
  shows "y \<in> set (reach n f x) \<Longrightarrow> matches (Star r) x y"
proof (induction n arbitrary: x)
  case 0
  then show ?case by (simp add: star0)
next
  case (Suc n)
  show ?case
  proof (cases "y = x")
    case False
    with Suc.prems obtain z where z: "z \<in> set (f x)" "y \<in> set (reach n f z)" by auto
    show ?thesis by (rule star1 [OF assms [OF z(1)] Suc.IH [OF z(2)]])
  qed (simp add: star0)
qed

lemma star_reach:
  assumes "\<And>x y. matches r x y \<Longrightarrow> y \<in> set (f x)" and "matches (Star r) x z"
  shows "length (snd x) \<le> n \<Longrightarrow> z \<in> set (reach n f x)"
  using assms(2)
proof (induction "Star r" x z arbitrary: n rule: matches.induct)
  case (star0 x)
  then show ?case by (cases n) auto
next
  case (star1 x y z)
  show ?case
  proof (cases "length (snd y) < length (snd x)")
    case False
    then have "y = x" using matches_shrink [OF star1(1)] by auto
    then show ?thesis using star1 by blast
  next
    case True
    then obtain m where "n = Suc m" using star1.prems by (cases n) auto
    then have "z \<in> set (reach m f y)" using True star1.prems by (intro star1.hyps) simp
    with \<open>n = Suc m\<close> True assms(1) [OF star1.hyps(1)] show ?thesis by (auto intro!: bexI [where x = y] simp del: split_paired_All split_paired_Ex)
  qed
qed

lemma ends_sound: "y \<in> set (ends r x) \<Longrightarrow> matches r x y"
proof (induction r arbitrary: x y)
  case (One p)
  then show ?case by (cases x) (auto intro: matches.intros split: list.splits if_splits)
next
  case (Seq r s)
  then obtain z where "z \<in> set (ends r x)" "y \<in> set (ends s z)" by auto
  with Seq.IH show ?case by (blast intro: seq)
next
  case (Star r)
  then show ?case using reach_sound [of "ends r" r] by simp
qed (auto intro: matches.intros split: if_splits)

lemma ends_complete: "matches r x y \<Longrightarrow> y \<in> set (ends r x)"
proof (induction r arbitrary: x y)
  case (Seq r s)
  from Seq.prems obtain z where "matches r x z" "matches s z y" by (elim match_elims)
  from Seq.IH(1) [OF this(1)] Seq.IH(2) [OF this(2)] show ?case by (simp del: split_paired_Ex) (rule bexI)
next
  case (Star r)
  then show ?case using star_reach [of r "ends r" x y] by simp
qed (auto elim!: match_elims)

theorem ends_matches: "set (ends r x) = {y. matches r x y}"
  using ends_sound ends_complete by blast

text \<open>What precedes a position after some text.\<close>

definition before :: "char option \<Rightarrow> string \<Rightarrow> char option" where
  "before b u = (if u = [] then b else Some (List.last u))"

lemma before_Cons [simp]: "before b (c # u) = before (Some c) u"
  by (simp add: before_def)

lemma before_Nil [simp]: "before b [] = b"
  by (simp add: before_def)

lemma before_append [simp]: "before (before b u) v = before b (u @ v)"
  by (simp add: before_def)

lemma positions_split: "x \<in> set (positions p s) \<longleftrightarrow> (\<exists>u w. s = u @ w \<and> x = (before p u, w))"
proof (induction p s rule: positions.induct)
  case (1 p)
  then show ?case by auto
next
  case (2 p c cs)
  show ?case
  proof
    assume "x \<in> set (positions p (c # cs))"
    then consider "x = (p, c # cs)" | u w where "cs = u @ w" "x = (before (Some c) u, w)" using 2 by auto
    then show "\<exists>u w. c # cs = u @ w \<and> x = (before p u, w)"
    proof cases
      case 1
      then show ?thesis by (intro exI [where x = "[]"] exI [where x = "c # cs"]) simp
    next
      case 2
      then show ?thesis by (intro exI [where x = "c # u"] exI [where x = w]) simp
    qed
  next
    assume "\<exists>u w. c # cs = u @ w \<and> x = (before p u, w)"
    then obtain u w where u: "c # cs = u @ w" "x = (before p u, w)" by blast
    show "x \<in> set (positions p (c # cs))" using u 2 by (cases u) auto
  qed
qed

text \<open>A search succeeds exactly when some part of the text matches.\<close>

theorem rx_search_matches: "rx_search r s \<longleftrightarrow> (\<exists>u w y. s = u @ w \<and> matches r (before None u, w) y)"
proof -
  have "ends r x \<noteq> [] \<longleftrightarrow> (\<exists>y. matches r x y)" for x
    using ends_matches [of r x] by (cases "ends r x") auto
  then have "rx_search r s \<longleftrightarrow> (\<exists>x y. x \<in> set (positions None s) \<and> matches r x y)"
    by (auto simp: rx_search_def list_ex_iff)
  also have "\<dots> \<longleftrightarrow> (\<exists>u w y. s = u @ w \<and> matches r (before None u, w) y)"
    unfolding positions_split by blast
  finally show ?thesis .
qed

section \<open>Building expressions\<close>

text \<open>Characters are compared without their case, as \<open>re.IGNORECASE\<close> asks.\<close>

definition ch :: "char \<Rightarrow> rx" where
  "ch c = One (\<lambda>x. lower_char x = lower_char c)"

primrec lit :: "string \<Rightarrow> rx" where
  "lit [] = Eps"
| "lit (c # cs) = Seq (ch c) (lit cs)"

definition plus :: "rx \<Rightarrow> rx" where
  "plus r = Seq r (Star r)"

definition optional :: "rx \<Rightarrow> rx" where
  "optional r = Alt r Eps"

definition spaces1 :: rx where
  "spaces1 = plus (One is_space)"

definition any_char :: rx where
  "any_char = One (\<lambda>c. c \<noteq> CHR 0x0A)"

primrec seqs :: "rx list \<Rightarrow> rx" where
  "seqs [] = Eps"
| "seqs (r # rs) = Seq r (seqs rs)"

primrec alts :: "rx \<Rightarrow> rx list \<Rightarrow> rx" where
  "alts r [] = r"
| "alts r (s # rs) = Alt r (alts s rs)"

lemma match_lit: "lower t = lower s \<Longrightarrow> matches (lit s) (b, t @ w) (before b t, w)"
proof (induction s arbitrary: t b)
  case (Cons c s)
  then obtain d t' where t: "t = d # t'" "lower_char d = lower_char c" "lower t' = lower s"
    by (cases t) (auto simp: lower_def)
  from Cons.IH [OF t(3), of "Some d"] t(2) show ?case
    by (auto simp: t(1) ch_def intro!: matches.intros)
qed (simp add: lower_def eps)

lemma match_star_one: "list_all p t \<Longrightarrow> matches (Star (One p)) (b, t @ w) (before b t, w)"
proof (induction t arbitrary: b)
  case (Cons c t)
  have "matches (One p) (b, c # t @ w) (Some c, t @ w)" using Cons by (intro one) simp
  moreover have "matches (Star (One p)) (Some c, t @ w) (before (Some c) t, w)" using Cons by simp
  ultimately show ?case by (simp add: star1)
qed (simp add: star0)

lemma match_plus_one: "t \<noteq> [] \<Longrightarrow> list_all p t \<Longrightarrow> matches (plus (One p)) (b, t @ w) (before b t, w)"
proof (cases t)
  case (Cons c cs)
  assume a: "list_all p t"
  have "matches (One p) (b, c # cs @ w) (Some c, cs @ w)" using a Cons by (intro one) simp
  moreover have "matches (Star (One p)) (Some c, cs @ w) (before (Some c) cs, w)"
    using a Cons by (intro match_star_one) simp
  ultimately show ?thesis using Cons by (auto simp: plus_def intro: seq)
qed simp

text \<open>A match at the end of \<open>u\<close> is found.\<close>

lemma search_here: "matches r (before None u, w) y \<Longrightarrow> rx_search r (u @ w)"
  unfolding rx_search_matches by blast

text \<open>An expression that matches a text wherever it stands.\<close>

definition consumes :: "rx \<Rightarrow> string \<Rightarrow> bool" where
  "consumes r t \<longleftrightarrow> (\<forall>b w. matches r (b, t @ w) (before b t, w))"

lemma consumes_lit: "lower t = lower s \<Longrightarrow> consumes (lit s) t"
  by (simp add: consumes_def match_lit)

lemma consumes_spaces: "t \<noteq> [] \<Longrightarrow> list_all is_space t \<Longrightarrow> consumes spaces1 t"
  by (simp add: consumes_def spaces1_def match_plus_one)

lemma consumes_star: "list_all p t \<Longrightarrow> consumes (Star (One p)) t"
  by (simp add: consumes_def match_star_one)

lemma consumes_seqs_Nil: "consumes (seqs []) []"
  by (simp add: consumes_def eps)

lemma consumes_seqs: "consumes r t \<Longrightarrow> consumes (seqs rs) t' \<Longrightarrow> consumes (seqs (r # rs)) (t @ t')"
  unfolding consumes_def seqs.simps
proof (intro allI)
  fix b w
  assume r: "\<forall>b w. matches r (b, t @ w) (before b t, w)" and rs: "\<forall>b w. matches (seqs rs) (b, t' @ w) (before b t', w)"
  have "matches r (b, (t @ t') @ w) (before b t, t' @ w)" using r by simp
  moreover have "matches (seqs rs) (before b t, t' @ w) (before b (t @ t'), w)" using rs by (metis before_append)
  ultimately show "matches (Seq r (seqs rs)) (b, (t @ t') @ w) (before b (t @ t'), w)" by (rule seq)
qed

lemma search_consumed: "consumes r t \<Longrightarrow> rx_search r (u @ t @ w)"
  unfolding consumes_def by (blast intro: search_here)

end
