(* ===== verification/Sandbox.thy ===== *)
theory Sandbox
  imports Regex Broker
begin

text \<open>
  \<open>youmi/security/sandbox.py\<close> and \<open>youmi/tools/shell_ops.py\<close>: the policy in front of commands, paths and
  the environment of sub-processes, its configuration from environment variables, and the shell tool.
  The built-in patterns are expressions of Regex. The compiler of configured patterns, the resolution of
  paths against the file system (an absolute path as the list of its components), \<open>float()\<close> and the
  execution of a command are arguments.
\<close>

section \<open>Built-in rules\<close>

definition BUILTIN_DENIED_PATTERNS :: "rx list" where
  "BUILTIN_DENIED_PATTERNS =
     [seqs [lit ''rm'', spaces1, lit ''-rf'', spaces1, lit ''/''],
      seqs [lit ''rm'', spaces1, lit ''-rf'', spaces1, lit ''~''],
      seqs [lit ''format'', spaces1, One (\<lambda>c. word_char c \<and> \<not> is_digit c \<and> c \<noteq> CHR ''_''), lit '':''],
      seqs [lit ''del'', spaces1, lit ''/s'', spaces1, lit ''/q'', spaces1],
      lit ''mkfs.'',
      seqs [lit ''dd'', spaces1, lit ''if='', Star any_char, lit ''of=/dev/''],
      seqs [lit '':()'', Star (One is_space), lit ''{''],
      lit ''shutdown'',
      lit ''reboot'',
      seqs [lit ''init'', spaces1, lit ''0'']]"

definition NETWORK_COMMAND_PATTERNS :: "rx list" where
  "NETWORK_COMMAND_PATTERNS =
     map (\<lambda>w. seqs [Bound, lit w, Bound]) [''curl'', ''wget'', ''ssh'', ''scp'', ''sftp'', ''telnet'', ''ncat'', ''nc''] @
     [lit ''invoke-webrequest'', lit ''invoke-restmethod'']"

text \<open>The default pattern of the names of variables to remove, as text and as an expression.\<close>

definition DEFAULT_ENV_DENY_PATTERNS :: "string list" where
  "DEFAULT_ENV_DENY_PATTERNS = [''(api[_-]?key|token|secret|password|passwd|credential|auth)'']"

definition default_env_rx :: rx where
  "default_env_rx =
     alts (seqs [lit ''api'', optional (One (\<lambda>c. c \<in> {CHR ''_'', CHR ''-''})), lit ''key''])
       (map lit [''token'', ''secret'', ''password'', ''passwd'', ''credential'', ''auth''])"

record sandbox_policy =
  po_enabled :: bool
  po_allowed_roots :: "string list"
  po_denied_commands :: "string list"
  po_allowed_commands :: "string list"
  po_scrub_env :: bool
  po_env_deny_patterns :: "string list"
  po_network_blocked :: bool
  po_max_timeout_s :: rat
  po_max_output_chars :: int

definition default_policy :: sandbox_policy where
  "default_policy = \<lparr>po_enabled = True, po_allowed_roots = [], po_denied_commands = [], po_allowed_commands = [],
     po_scrub_env = True, po_env_deny_patterns = DEFAULT_ENV_DENY_PATTERNS, po_network_blocked = False,
     po_max_timeout_s = 600, po_max_output_chars = 100000\<rparr>"

record sandbox =
  sx_policy :: sandbox_policy
  sx_custom_denied :: "rx list"
  sx_env_deny :: "rx list"

text \<open>\<open>_compile_safe\<close>: an invalid pattern is dropped.\<close>

definition compile_safe :: "(string \<Rightarrow> rx option) \<Rightarrow> string list \<Rightarrow> rx list" where
  "compile_safe compile ps = List.map_filter compile ps"

definition new_sandbox :: "(string \<Rightarrow> rx option) \<Rightarrow> sandbox_policy \<Rightarrow> sandbox" where
  "new_sandbox compile p =
     \<lparr>sx_policy = p, sx_custom_denied = compile_safe compile (po_denied_commands p),
      sx_env_deny = compile_safe compile (po_env_deny_patterns p)\<rparr>"

section \<open>Commands\<close>

datatype verdict = Permitted | Dangerous | CustomDenied | NetworkDenied | NotListed

definition hits :: "rx list \<Rightarrow> string \<Rightarrow> bool" where
  "hits ps s = list_ex (\<lambda>p. rx_search p s) ps"

definition evaluate_command :: "string \<Rightarrow> sandbox \<Rightarrow> verdict" where
  "evaluate_command command sb =
     (if hits BUILTIN_DENIED_PATTERNS command then Dangerous
      else if \<not> po_enabled (sx_policy sb) then Permitted
      else if hits (sx_custom_denied sb) command then CustomDenied
      else if po_network_blocked (sx_policy sb) \<and> hits NETWORK_COMMAND_PATTERNS command then NetworkDenied
      else if po_allowed_commands (sx_policy sb) \<noteq> [] \<and>
              \<not> list_ex (\<lambda>c. starts_with c (strip command)) (po_allowed_commands (sx_policy sb)) then NotListed
      else Permitted)"

text \<open>\<open>False\<close>: \<open>SandboxViolation\<close>.\<close>

definition check_command :: "string \<Rightarrow> sandbox \<Rightarrow> bool" where
  "check_command command sb \<longleftrightarrow> evaluate_command command sb = Permitted"

section \<open>Paths\<close>

text \<open>\<open>Path.relative_to\<close> does not raise: the components of the root come first.\<close>

definition path_within :: "string list \<Rightarrow> string list \<Rightarrow> bool" where
  "path_within base p \<longleftrightarrow> take (length base) p = base"

text \<open>\<open>None\<close>: \<open>SandboxViolation\<close>.\<close>

definition check_path :: "(string \<Rightarrow> string list) \<Rightarrow> string list \<Rightarrow> sandbox \<Rightarrow> string list option" where
  "check_path resolve resolved sb =
     (let roots = po_allowed_roots (sx_policy sb) in
      if roots = [] \<or> \<not> po_enabled (sx_policy sb) then Some resolved
      else if list_ex (\<lambda>r. path_within (resolve r) resolved) roots then Some resolved
      else None)"

section \<open>Environment and limits\<close>

definition build_env :: "(string, string) dict \<Rightarrow> sandbox \<Rightarrow> (string, string) dict option" where
  "build_env env sb =
     (if \<not> po_enabled (sx_policy sb) \<or> \<not> po_scrub_env (sx_policy sb) \<or> sx_env_deny sb = [] then None
      else Some (filter (\<lambda>(k, _). \<not> hits (sx_env_deny sb) k) env))"

definition clamp_timeout :: "rat \<Rightarrow> sandbox \<Rightarrow> rat" where
  "clamp_timeout t sb = (if po_enabled (sx_policy sb) then min t (po_max_timeout_s (sx_policy sb)) else t)"

definition clamp_output :: "int \<Rightarrow> sandbox \<Rightarrow> int" where
  "clamp_output n sb = (if po_enabled (sx_policy sb) then min n (po_max_output_chars (sx_policy sb)) else n)"

section \<open>Configuration\<close>

definition sandbox_var :: "string \<Rightarrow> (string, string) dict \<Rightarrow> string" where
  "sandbox_var name env = strip (dget_or [] env (''YOUMI_SANDBOX_'' @ name))"

definition env_bool :: "string \<Rightarrow> bool \<Rightarrow> (string, string) dict \<Rightarrow> bool" where
  "env_bool name dflt env =
     (let raw = lower (sandbox_var name env) in
      if raw = [] then dflt else raw \<notin> {''0'', ''false'', ''no'', ''off''})"

definition nonblank_parts :: "char \<Rightarrow> string \<Rightarrow> string list" where
  "nonblank_parts c s = filter (\<lambda>p. strip p \<noteq> []) (split_on c s)"

text \<open>An unset list or number keeps its default, an unreadable number too; \<open>None\<close>: a limit is not positive.\<close>

definition policy_from_env :: "(string \<Rightarrow> rat option) \<Rightarrow> (string, string) dict \<Rightarrow> sandbox_policy option" where
  "policy_from_env parse_float env =
     (let d = default_policy; var = (\<lambda>n. sandbox_var n env);
          p = d\<lparr>po_enabled := env_bool ''ENABLED'' True env,
                po_allowed_roots := (if var ''ROOTS'' \<noteq> [] then nonblank_parts (CHR '':'') (var ''ROOTS'') else []),
                po_denied_commands := (if var ''DENY'' \<noteq> [] then nonblank_parts (CHR '';'') (var ''DENY'') else []),
                po_allowed_commands := (if var ''ALLOW'' \<noteq> [] then map strip (nonblank_parts (CHR '';'') (var ''ALLOW'')) else []),
                po_scrub_env := env_bool ''SCRUB_ENV'' True env,
                po_network_blocked := env_bool ''NETWORK_BLOCKED'' False env,
                po_max_timeout_s := (case (if var ''MAX_TIMEOUT_S'' = [] then None else parse_float (var ''MAX_TIMEOUT_S'')) of Some t \<Rightarrow> t | None \<Rightarrow> po_max_timeout_s d),
                po_max_output_chars := (case parse_int (var ''MAX_OUTPUT_CHARS'') of Some n \<Rightarrow> n | None \<Rightarrow> po_max_output_chars d)\<rparr>
      in if 0 < po_max_timeout_s p \<and> 0 < po_max_output_chars p then Some p else None)"

text \<open>The default sandbox of the process; a failed configuration raises and leaves none.\<close>

definition get_sandbox :: "(string \<Rightarrow> rx option) \<Rightarrow> (string \<Rightarrow> rat option) \<Rightarrow> (string, string) dict \<Rightarrow> sandbox option \<Rightarrow>
    sandbox option" where
  "get_sandbox compile parse_float env current =
     (case current of Some sb \<Rightarrow> Some sb | None \<Rightarrow> map_option (new_sandbox compile) (policy_from_env parse_float env))"

section \<open>The shell tool\<close>

text \<open>How a sub-process ends; \<open>Exited\<close>: its exit code, output and error output.\<close>

datatype shell_outcome = Exited int string string | StillRunning | NoShell | SpawnFailed string

datatype shell_reply =
  Intercepted verdict
| TimedOut rat string
| Finished int "(string \<times> nat option) option" "(string \<times> bool) option"
| ShellMissing
| ShellFailed string

text \<open>
  The output that is shown: \<open>None\<close> when it is blank; with the length of a text that was cut, and for the
  error output whether it was cut.
\<close>

definition shown_output :: "int \<Rightarrow> string \<Rightarrow> (string \<times> nat option) option" where
  "shown_output k out =
     (let t = (if k < int (length out) then (slice_to k out, Some (length out)) else (out, None)) in
      if snd t = None \<and> strip (fst t) = [] then None else Some t)"

definition shown_error :: "int \<Rightarrow> string \<Rightarrow> (string \<times> bool) option" where
  "shown_error k out =
     (let t = (if k < int (length out) then (slice_to k out, True) else (out, False)) in
      if \<not> snd t \<and> strip (fst t) = [] then None else Some t)"

text \<open>\<open>run\<close> is given the command, its directory, the time limit and the environment (\<open>None\<close>: inherited).\<close>

definition shell_exec :: "(string \<Rightarrow> string \<Rightarrow> rat \<Rightarrow> (string, string) dict option \<Rightarrow> shell_outcome) \<Rightarrow> (string, string) dict \<Rightarrow>
    string \<Rightarrow> string \<Rightarrow> rat \<Rightarrow> int \<Rightarrow> sandbox \<Rightarrow> shell_reply" where
  "shell_exec run env command work_dir timeout max_output sb =
     (let v = evaluate_command command sb in
      if v \<noteq> Permitted then Intercepted v
      else (let timeout = clamp_timeout timeout sb; max_output = clamp_output max_output sb in
            case run command work_dir timeout (build_env env sb) of
              StillRunning \<Rightarrow> TimedOut timeout command
            | Exited code out err \<Rightarrow> Finished code (shown_output max_output out) (shown_error max_output err)
            | NoShell \<Rightarrow> ShellMissing
            | SpawnFailed e \<Rightarrow> ShellFailed e))"


section \<open>Properties\<close>

definition occurs :: "rx \<Rightarrow> string \<Rightarrow> bool" where
  "occurs r s \<longleftrightarrow> (\<exists>u w y. s = u @ w \<and> matches r (before None u, w) y)"

lemma hits_occurs: "hits ps s \<longleftrightarrow> (\<exists>p \<in> set ps. occurs p s)"
  by (simp add: hits_def list_ex_iff occurs_def rx_search_matches)


text \<open>
  Removing the root directory is recognised in every letter case, with any spaces between the words,
  anywhere in a command, whatever the policy.
\<close>

lemma rm_rf_root_denied:
  assumes "lower rm = ''rm''" "lower rf = ''-rf''" "s1 \<noteq> []" "list_all is_space s1" "s2 \<noteq> []" "list_all is_space s2"
  shows "evaluate_command (u @ rm @ s1 @ rf @ s2 @ ''/'' @ w) sb = Dangerous"
proof -
  let ?r = "seqs [lit ''rm'', spaces1, lit ''-rf'', spaces1, lit ''/'']"
  have l: "lower rm = lower ''rm''" "lower rf = lower ''-rf''" using assms by (simp_all add: lower_def) code_simp+
  have "consumes ?r (rm @ s1 @ rf @ s2 @ ''/'' @ [])"
    by (intro consumes_seqs consumes_seqs_Nil consumes_lit consumes_spaces l assms refl)
  then have "rx_search ?r (u @ (rm @ s1 @ rf @ s2 @ ''/'') @ w)" by (intro search_consumed) simp
  then have "hits BUILTIN_DENIED_PATTERNS (u @ (rm @ s1 @ rf @ s2 @ ''/'') @ w)"
    by (simp add: hits_def BUILTIN_DENIED_PATTERNS_def)
  then show ?thesis by (simp add: evaluate_command_def)
qed

text \<open>An operating system without symbolic links resolves a path by its components alone.\<close>

definition lexical_resolve :: "string list \<Rightarrow> string \<Rightarrow> string list" where
  "lexical_resolve cwd p =
     foldl (\<lambda>acc c. if c = [] \<or> c = ''.'' then acc else if c = ''..'' then butlast acc else acc @ [c])
       (if starts_with ''/'' p then [] else cwd) (split_on (CHR ''/'') p)"

text \<open>
  A checked path is returned unchanged, and with roots configured it lies under one of them, component
  by component: a directory whose name only starts like a root's is outside.
\<close>
theorem check_path_fence:
  "check_path resolve p sb =
     (if po_enabled (sx_policy sb) \<and> po_allowed_roots (sx_policy sb) \<noteq> [] \<and>
         \<not> (\<exists>r \<in> set (po_allowed_roots (sx_policy sb)). \<exists>rest. p = resolve r @ rest)
      then None else Some p)"
proof -
  have "path_within b p \<longleftrightarrow> (\<exists>rest. p = b @ rest)" for b
    by (metis append_eq_conv_conj append_take_drop_id path_within_def)
  then show ?thesis by (simp add: check_path_def Let_def list_ex_iff)
qed

text \<open>
  A cleaned environment keeps exactly the variables whose names no pattern matches, in their order and
  with their values; sub-processes inherit everything exactly when the policy or the cleaning is off or no
  pattern compiles.
\<close>
theorem build_env_scrubs:
  "(case build_env env sb of
      None \<Rightarrow> \<not> po_enabled (sx_policy sb) \<or> \<not> po_scrub_env (sx_policy sb) \<or> sx_env_deny sb = []
    | Some e \<Rightarrow> (\<forall>k v. (k, v) \<in> set e \<longleftrightarrow> (k, v) \<in> set env \<and> \<not> (\<exists>r \<in> set (sx_env_deny sb). occurs r k)) \<and>
        (\<exists>keep. e = filter keep env))"
  by (auto simp: build_env_def hits_occurs)

text \<open>
  The shell tool runs a command only after the policy has permitted it, with the limits of the policy
  and with the cleaned environment; an intercepted command is not run, whatever running it would do.
\<close>
theorem shell_runs_permitted_only:
  "shell_exec run env command dir timeout k sb =
     (if evaluate_command command sb \<noteq> Permitted then Intercepted (evaluate_command command sb)
      else shell_exec (\<lambda>c d t e. if c = command \<and> d = dir \<and> t = clamp_timeout timeout sb \<and> e = build_env env sb
                                 then run c d t e else NoShell) env command dir timeout k sb) \<and>
   clamp_timeout timeout sb \<le> timeout \<and> (po_enabled (sx_policy sb) \<longrightarrow> clamp_timeout timeout sb \<le> po_max_timeout_s (sx_policy sb))"
  by (auto simp: shell_exec_def Let_def clamp_timeout_def)


text \<open>A policy that the environment configures has positive limits; unset variables keep the defaults.\<close>

lemma policy_from_env_limits:
  "policy_from_env pf env = Some p \<Longrightarrow> 0 < po_max_timeout_s p \<and> 0 < po_max_output_chars p \<and>
     po_env_deny_patterns p = DEFAULT_ENV_DENY_PATTERNS"
  by (auto simp: policy_from_env_def Let_def default_policy_def split: if_splits)

lemma policy_from_empty_env: "policy_from_env pf [] = Some default_policy"
  by (simp add: policy_from_env_def default_policy_def env_bool_def sandbox_var_def dget_or_def strip_def parse_int_def lower_def Let_def)

section \<open>Examples\<close>

definition demo_compile :: "string \<Rightarrow> rx option" where
  "demo_compile p = (if p = hd DEFAULT_ENV_DENY_PATTERNS then Some default_env_rx else None)"

definition plain_sandbox :: sandbox where
  "plain_sandbox = new_sandbox demo_compile default_policy"

text \<open>The flags in another order, or apart, are not recognised.\<close>

lemma root_removal_passes:
  "evaluate_command ''rm -fr /'' plain_sandbox = Permitted \<and> evaluate_command ''rm -r -f /'' plain_sandbox = Permitted"
  by code_simp

text \<open>The pattern for the root directory also denies the removal of any absolute path, in the work directory too.\<close>

lemma absolute_removal_denied: "evaluate_command ''rm -rf /work/build'' plain_sandbox = Dangerous"
  by code_simp

text \<open>A list of permitted commands permits whatever follows one of them, and longer names.\<close>

lemma listed_prefix_permits_more:
  "let sb = new_sandbox demo_compile (default_policy\<lparr>po_allowed_commands := [''ls'']\<rparr>) in
     evaluate_command ''ls; cat /etc/passwd'' sb = Permitted \<and> evaluate_command ''lsof'' sb = Permitted \<and>
     evaluate_command ''pwd'' sb = NotListed"
  by code_simp

text \<open>The word \<open>auth\<close> in the pattern removes variables that only contain it.\<close>

lemma author_removed:
  "build_env [(''GIT_AUTHOR_NAME'', ''me''), (''OPENAI_API_KEY'', ''k''), (''HOME'', ''/h'')] plain_sandbox = Some [(''HOME'', ''/h'')]"
  by code_simp

text \<open>When no configured pattern compiles, cleaning is silently off and sub-processes inherit every secret.\<close>

lemma invalid_pattern_inherits_all:
  "build_env env (new_sandbox demo_compile (default_policy\<lparr>po_env_deny_patterns := [''(token'']\<rparr>)) = None"
  by (simp add: build_env_def new_sandbox_def compile_safe_def demo_compile_def DEFAULT_ENV_DENY_PATTERNS_def map_filter_simps)

end
