(* ===== verification/FileOps.thy ===== *)
theory FileOps
  imports Sandbox "HOL-Library.List_Lexorder" "HOL-Library.Char_ord"
begin

text \<open>
  \<open>youmi/tools/file_ops.py\<close>: the file tools of an agent inside its work directory. The file system is a
  dictionary from absolute paths to directories and files, in the order in which the operating system
  lists them; there are no symbolic links, so that paths resolve by their components. The pattern
  languages of \<open>fnmatch\<close> and \<open>re\<close> are arguments. Replies are constructors that carry what their texts show;
  the sizes of a detailed listing are left out.
\<close>

section \<open>The file system\<close>

text \<open>\<open>BinaryFile t\<close> does not decode; \<open>t\<close> is what decodes when the other bytes are ignored.\<close>

datatype fs_node = Directory | TextFile string | BinaryFile string

type_synonym file_system = "(string list, fs_node) dict"

definition is_directory :: "file_system \<Rightarrow> string list \<Rightarrow> bool" where
  "is_directory fs p \<longleftrightarrow> p = [] \<or> dget fs p = Some Directory"

definition path_exists :: "file_system \<Rightarrow> string list \<Rightarrow> bool" where
  "path_exists fs p \<longleftrightarrow> p = [] \<or> dget fs p \<noteq> None"

definition entries_of :: "file_system \<Rightarrow> string list \<Rightarrow> string list" where
  "entries_of fs d = map List.last (filter (\<lambda>p. p \<noteq> [] \<and> butlast p = d) (dkeys fs))"

text \<open>\<open>mkdir(parents=True, exist_ok=True)\<close>: \<open>None\<close> when a file is in the way.\<close>

definition make_directories :: "string list \<Rightarrow> file_system \<Rightarrow> file_system option" where
  "make_directories d fs =
     (let ps = map (\<lambda>n. take n d) [1..<Suc (length d)] in
      if list_ex (\<lambda>p. path_exists fs p \<and> \<not> is_directory fs p) ps then None
      else Some (fold (\<lambda>p fs. if path_exists fs p then fs else dset p Directory fs) ps fs))"

section \<open>Paths\<close>

datatype path_error = OutsideWorkDir | OutsideRoots

definition resolve_safe_path :: "string list \<Rightarrow> sandbox \<Rightarrow> string \<Rightarrow> string \<Rightarrow> path_error + string list" where
  "resolve_safe_path cwd sb path work_dir =
     (let base = lexical_resolve cwd work_dir; resolved = lexical_resolve base path in
      if \<not> path_within base resolved then Inl OutsideWorkDir
      else (case check_path (lexical_resolve cwd) resolved sb of None \<Rightarrow> Inl OutsideRoots | Some p \<Rightarrow> Inr p))"

section \<open>Reading and writing\<close>

datatype file_reply =
  DirectoryMissing
| FileMissing
| NotAFile
| NotADirectory
| Undecodable
| WriteFailed
| AlreadyExists
| Contents "(nat \<times> nat) option" nat "string list"
| Appended nat
| Written nat
| EmptyDirectory
| Listing "(string \<times> bool) list"
| NoMatches nat
| Found "string list" bool
| InvalidPattern
| Hits "(string \<times> nat \<times> string) list" nat bool

text \<open>\<open>Inl\<close>: an exception reaches the caller; \<open>Inl None\<close> is the \<open>OSError\<close> of \<open>mkdir\<close>.\<close>

type_synonym file_result = "path_error option + file_reply"

definition file_read :: "string list \<Rightarrow> sandbox \<Rightarrow> string \<Rightarrow> string \<Rightarrow> int \<Rightarrow> int \<Rightarrow> file_system \<Rightarrow> file_result" where
  "file_read cwd sb path work_dir max_lines start_line fs =
     (case resolve_safe_path cwd sb path work_dir of
        Inl e \<Rightarrow> Inl (Some e)
      | Inr p \<Rightarrow>
          if \<not> path_exists fs p then Inr FileMissing
          else (case dget fs p of
                  Some (TextFile t) \<Rightarrow>
                    (let lines = splitlines t; total = length lines; start_idx = nat (max 0 (start_line - 1)) in
                     if 0 < max_lines then
                       (let end_idx = min total (start_idx + nat max_lines)
                        in Inr (Contents (Some (start_idx + 1, end_idx)) total (take (end_idx - start_idx) (drop start_idx lines))))
                     else Inr (Contents None total (drop start_idx lines)))
                | Some (BinaryFile _) \<Rightarrow> Inr Undecodable
                | _ \<Rightarrow> Inr NotAFile))"

definition file_write :: "string list \<Rightarrow> sandbox \<Rightarrow> string \<Rightarrow> string \<Rightarrow> string \<Rightarrow> string \<Rightarrow> file_system \<Rightarrow> file_result \<times> file_system" where
  "file_write cwd sb path content work_dir mode fs =
     (case resolve_safe_path cwd sb path work_dir of
        Inl e \<Rightarrow> (Inl (Some e), fs)
      | Inr p \<Rightarrow>
          if mode = ''create'' \<and> path_exists fs p then (Inr AlreadyExists, fs)
          else (case make_directories (butlast p) fs of
                  None \<Rightarrow> (Inl None, fs)
                | Some fs \<Rightarrow>
                    if is_directory fs p then (Inr WriteFailed, fs)
                    else if mode = ''append'' then
                      (Inr (Appended (length content)),
                       dset p (case dget fs p of Some (TextFile t) \<Rightarrow> TextFile (t @ content) | Some (BinaryFile t) \<Rightarrow> BinaryFile (t @ content)
                               | _ \<Rightarrow> TextFile content) fs)
                    else (Inr (Written (length content)), dset p (TextFile content) fs)))"

section \<open>Listing and searching\<close>

definition hidden :: "string \<Rightarrow> bool" where
  "hidden n \<longleftrightarrow> starts_with ''.'' n"

text \<open>Sorted by \<open>(not is_dir, name.lower())\<close>; the flag says whether an entry is a directory.\<close>

definition list_directory :: "string list \<Rightarrow> sandbox \<Rightarrow> string \<Rightarrow> string \<Rightarrow> bool \<Rightarrow> file_system \<Rightarrow> file_result" where
  "list_directory cwd sb path work_dir show_hidden fs =
     (case resolve_safe_path cwd sb path work_dir of
        Inl e \<Rightarrow> Inl (Some e)
      | Inr p \<Rightarrow>
          if \<not> path_exists fs p then Inr DirectoryMissing
          else if \<not> is_directory fs p then Inr NotADirectory
          else (let names = sort_key (\<lambda>n. \<not> is_directory fs (p @ [n])) (sort_key lower (entries_of fs p));
                    shown = filter (\<lambda>n. show_hidden \<or> \<not> hidden n) names
                in Inr (if shown = [] then EmptyDirectory else Listing (map (\<lambda>n. (n, is_directory fs (p @ [n]))) shown))))"

text \<open>
  \<open>os.walk\<close> from the top, hidden directories pruned: each directory with the names of its files. The fuel
  bounds the depth.
\<close>

fun walk :: "nat \<Rightarrow> file_system \<Rightarrow> string list \<Rightarrow> (string list \<times> string list) list" where
  "walk 0 fs d = []"
| "walk (Suc n) fs d =
     (let names = entries_of fs d; dirs = filter (\<lambda>x. is_directory fs (d @ [x])) names
      in (d, filter (\<lambda>x. \<not> is_directory fs (d @ [x])) names) #
         concat (map (\<lambda>x. walk n fs (d @ [x])) (filter (\<lambda>x. \<not> hidden x) dirs)))"

definition walk_files :: "file_system \<Rightarrow> string list \<Rightarrow> string list list" where
  "walk_files fs base =
     concat (map (\<lambda>(d, names). map (\<lambda>n. d @ [n]) names) (walk (Suc (foldr max (map length (dkeys fs)) 0)) fs base))"

definition relative_name :: "string list \<Rightarrow> string list \<Rightarrow> string" where
  "relative_name base p = join_with ''/'' (drop (length base) p)"

text \<open>Once the limit is reached the search stops, after the match that reaches it.\<close>

definition up_to :: "int \<Rightarrow> 'a list \<Rightarrow> 'a list" where
  "up_to k xs = take (nat (max 1 k)) xs"

definition file_search :: "string list \<Rightarrow> (string \<Rightarrow> string \<Rightarrow> bool) \<Rightarrow> string \<Rightarrow> string \<Rightarrow> bool \<Rightarrow> int \<Rightarrow> file_system \<Rightarrow> file_result" where
  "file_search cwd fnmatch pattern work_dir recursive max_results fs =
     (let base = lexical_resolve cwd work_dir in
      if \<not> path_exists fs base then Inr DirectoryMissing
      else if \<not> recursive \<and> \<not> is_directory fs base then Inl None
      else (let names = (if recursive
                  then map (relative_name base) (filter (\<lambda>p. fnmatch (List.last p) pattern \<or> fnmatch (relative_name base p) pattern)
                         (walk_files fs base))
                  else filter (\<lambda>n. \<not> is_directory fs (base @ [n]) \<and> fnmatch n pattern) (entries_of fs base));
                ms = up_to max_results names
            in Inr (if ms = [] then NoMatches 0 else Found ms (max_results \<le> int (length ms)))))"

text \<open>The matching lines of a file, numbered from one.\<close>

definition file_hits :: "(string \<Rightarrow> bool) \<Rightarrow> file_system \<Rightarrow> string list \<Rightarrow> string list \<Rightarrow> (string \<times> nat \<times> string) list" where
  "file_hits search fs base p =
     (let hits_in = (\<lambda>t. map (\<lambda>(i, l). (relative_name base p, i + 1, take 120 (strip l)))
            (filter (\<lambda>(i, l). search l) (enumerate 0 (splitlines t)))) in
      case dget fs p of
        None \<Rightarrow> [] | Some Directory \<Rightarrow> []
      | Some (TextFile t) \<Rightarrow> hits_in t | Some (BinaryFile t) \<Rightarrow> hits_in t)"

fun search_files :: "(string \<Rightarrow> bool) \<Rightarrow> file_system \<Rightarrow> string list \<Rightarrow> int \<Rightarrow> string list list \<Rightarrow> (string \<times> nat \<times> string) list \<Rightarrow> nat \<Rightarrow>
    (string \<times> nat \<times> string) list \<times> nat" where
  "search_files search fs base k [] ms n = (ms, n)"
| "search_files search fs base k (p # ps) ms n =
     (let new = file_hits search fs base p;
          ms = (if new = [] then ms else ms @ take (nat (max 1 (k - int (length ms)))) new)
      in if k \<le> int (length ms) then (ms, n + 1) else search_files search fs base k ps ms (n + 1))"

definition text_search :: "string list \<Rightarrow> (string \<Rightarrow> string \<Rightarrow> bool) \<Rightarrow> (bool \<Rightarrow> string \<Rightarrow> (string \<Rightarrow> bool) option) \<Rightarrow> string \<Rightarrow> string \<Rightarrow>
    string \<Rightarrow> bool \<Rightarrow> int \<Rightarrow> file_system \<Rightarrow> file_result" where
  "text_search cwd fnmatch compile pattern work_dir file_pattern case_sensitive max_results fs =
     (let base = lexical_resolve cwd work_dir in
      if \<not> path_exists fs base then Inr DirectoryMissing
      else (case compile case_sensitive pattern of
              None \<Rightarrow> Inr InvalidPattern
            | Some search \<Rightarrow>
                (case search_files search fs base max_results
                        (filter (\<lambda>p. fnmatch (List.last p) file_pattern) (walk_files fs base)) [] 0 of
                   (ms, n) \<Rightarrow> Inr (if ms = [] then NoMatches n else Hits ms n (max_results \<le> int (length ms))))))"


section \<open>Writes stay inside\<close>

text \<open>Where a tool may write: below the work directory and, with roots configured, below a root.\<close>

definition writable :: "string list \<Rightarrow> sandbox \<Rightarrow> string \<Rightarrow> string list \<Rightarrow> bool" where
  "writable cwd sb work_dir p \<longleftrightarrow> path_within (lexical_resolve cwd work_dir) p \<and>
     check_path (lexical_resolve cwd) p sb = Some p"

lemma resolve_writable: "resolve_safe_path cwd sb path work_dir = Inr p \<Longrightarrow> writable cwd sb work_dir p"
  by (auto simp: resolve_safe_path_def writable_def check_path_def Let_def split: if_splits option.splits)

definition above :: "string list \<Rightarrow> string list \<Rightarrow> bool" where
  "above q p \<longleftrightarrow> (\<exists>n < length p. q = take n p)"

lemma fold_mkdir:
  "dget (fold (\<lambda>p fs. if path_exists fs p then fs else dset p Directory fs) ps fs) q =
     (if q \<noteq> [] \<and> dget fs q = None \<and> q \<in> set ps then Some Directory else dget fs q)"
  by (induction ps arbitrary: fs) (auto simp: path_exists_def)

lemma make_directories_dget:
  assumes "make_directories d fs = Some fs'"
  shows "dget fs' q = (if q \<noteq> [] \<and> dget fs q = None \<and> (\<exists>n \<le> length d. q = take n d) then Some Directory else dget fs q)"
proof -
  have "fs' = fold (\<lambda>p fs. if path_exists fs p then fs else dset p Directory fs) (map (\<lambda>n. take n d) [1..<Suc (length d)]) fs"
    using assms by (auto simp: make_directories_def Let_def split: if_splits)
  moreover have "q \<in> set (map (\<lambda>n. take n d) [1..<Suc (length d)]) \<longleftrightarrow> (\<exists>n \<le> length d. q = take n d)" if "q \<noteq> []"
  proof
    assume "q \<in> set (map (\<lambda>n. take n d) [1..<Suc (length d)])"
    then show "\<exists>n \<le> length d. q = take n d" by (auto simp: less_Suc_eq_le simp del: upt_Suc)
  next
    assume "\<exists>n \<le> length d. q = take n d"
    then obtain n where n: "n \<le> length d" "q = take n d" by blast
    with \<open>q \<noteq> []\<close> have "n \<in> set [1..<Suc (length d)]" by (cases n) auto
    with n(2) show "q \<in> set (map (\<lambda>n. take n d) [1..<Suc (length d)])" by (simp del: upt_Suc)
  qed
  ultimately show ?thesis by (auto simp: fold_mkdir)
qed

text \<open>What one write may do to a path.\<close>

definition confined :: "(string list \<Rightarrow> bool) \<Rightarrow> file_system \<Rightarrow> file_system \<Rightarrow> bool" where
  "confined w fs fs' \<longleftrightarrow> (\<forall>q. w q \<or> dget fs' q = dget fs q \<or>
     (dget fs q = None \<and> dget fs' q = Some Directory \<and> (\<exists>p. w p \<and> above q p)))"

lemma confined_refl: "confined w fs fs"
  by (simp add: confined_def)

lemma confined_trans: "confined w a b \<Longrightarrow> confined w b c \<Longrightarrow> confined w a c"
  unfolding confined_def by (metis option.distinct(1))

lemma file_write_confined: "confined (writable cwd sb work_dir) fs (snd (file_write cwd sb path content work_dir mode fs))"
proof (cases "resolve_safe_path cwd sb path work_dir")
  case (Inl e)
  then show ?thesis by (simp add: file_write_def confined_refl)
next
  case (Inr p)
  note w = resolve_writable [OF Inr]
  show ?thesis
  proof (cases "make_directories (butlast p) fs")
    case None
    then show ?thesis by (simp add: file_write_def Inr confined_refl)
  next
    case (Some fs')
    have up: "above q p" if "q \<noteq> []" "\<exists>n \<le> length (butlast p). q = take n (butlast p)" for q
    proof -
      from that obtain n where n: "n \<le> length (butlast p)" "q = take n (butlast p)" by blast
      with that(1) have "p \<noteq> []" by auto
      then have "n < length p" using n(1) \<open>p \<noteq> []\<close> length_greater_0_conv [of p] unfolding length_butlast by linarith
      moreover from this n(2) have "q = take n p" by (simp add: butlast_conv_take)
      ultimately have "n < length p" "q = take n p" .
      then show ?thesis by (auto simp: above_def)
    qed
    have 1: "confined (writable cwd sb work_dir) fs fs'"
      using w up by (auto simp: confined_def make_directories_dget [OF Some])
    moreover have "confined (writable cwd sb work_dir) fs' (dset p x fs')" for x
      using w by (simp add: confined_def)
    ultimately show ?thesis
      using confined_trans confined_refl by (auto simp: file_write_def Inr Some)
  qed
qed


section \<open>Reading back\<close>

text \<open>
  A file that was written reads back as written: after a successful write that overwrites or creates,
  reading the same path gives the lines of the content, all of them.
\<close>
theorem write_read_back:
  assumes "file_write cwd sb path content work_dir mode fs = (Inr (Written n), fs')"
  shows "file_read cwd sb path work_dir 0 1 fs' = Inr (Contents None (length (splitlines content)) (splitlines content)) \<and>
    n = length content"
proof -
  obtain p where p: "resolve_safe_path cwd sb path work_dir = Inr p"
    using assms by (auto simp: file_write_def split: sum.splits)
  obtain fs1 where "n = length content" "fs' = dset p (TextFile content) fs1" "p \<noteq> []"
    using assms by (auto simp: file_write_def p is_directory_def split: if_splits option.splits)
  with p show ?thesis by (simp add: file_read_def path_exists_def Let_def)
qed

section \<open>The walk finds every file\<close>

definition tree_ok :: "file_system \<Rightarrow> bool" where
  "tree_ok fs \<longleftrightarrow> wf_dict fs \<and> (\<forall>p \<in> set (dkeys fs). p \<noteq> [] \<and> is_directory fs (butlast p))"

fun reachable_dir :: "file_system \<Rightarrow> string list \<Rightarrow> string list \<Rightarrow> bool" where
  "reachable_dir fs d [] \<longleftrightarrow> True"
| "reachable_dir fs d (x # xs) \<longleftrightarrow> \<not> hidden x \<and> is_directory fs (d @ [x]) \<and> reachable_dir fs (d @ [x]) xs"

lemma entries_mem: "x \<in> set (entries_of fs d) \<longleftrightarrow> d @ [x] \<in> set (dkeys fs)"
proof
  assume "x \<in> set (entries_of fs d)"
  then obtain p where "p \<in> set (dkeys fs)" "p \<noteq> []" "butlast p = d" "x = List.last p" by (auto simp: entries_of_def)
  then show "d @ [x] \<in> set (dkeys fs)" by (metis append_butlast_last_id)
next
  assume "d @ [x] \<in> set (dkeys fs)"
  then show "x \<in> set (entries_of fs d)" by (force simp: entries_of_def)
qed

lemma directory_key: "is_directory fs (d @ [x]) \<Longrightarrow> d @ [x] \<in> set (dkeys fs)"
  by (metis dget_None_iff is_directory_def option.distinct(1) snoc_eq_iff_butlast)

lemma parent_directory: "tree_ok fs \<Longrightarrow> d @ [x] \<in> set (dkeys fs) \<Longrightarrow> is_directory fs d"
  by (metis butlast_snoc tree_ok_def)

lemma walk_mem:
  "(e, names) \<in> set (walk n fs d) \<longleftrightarrow>
     (\<exists>rest. e = d @ rest \<and> length rest < n \<and> reachable_dir fs d rest \<and>
        names = filter (\<lambda>x. \<not> is_directory fs (e @ [x])) (entries_of fs e))"
proof (induction n arbitrary: d)
  case (Suc n)
  have "(e, names) \<in> set (walk (Suc n) fs d) \<longleftrightarrow>
      (e = d \<and> names = filter (\<lambda>x. \<not> is_directory fs (d @ [x])) (entries_of fs d)) \<or>
      (\<exists>x. \<not> hidden x \<and> is_directory fs (d @ [x]) \<and> (e, names) \<in> set (walk n fs (d @ [x])))"
    by (auto simp: Let_def entries_mem intro: directory_key [simplified])
  also have "\<dots> \<longleftrightarrow> (\<exists>rest. e = d @ rest \<and> length rest < Suc n \<and> reachable_dir fs d rest \<and>
        names = filter (\<lambda>x. \<not> is_directory fs (e @ [x])) (entries_of fs e))" (is "?l \<longleftrightarrow> ?r")
  proof
    assume ?l
    then show ?r
    proof
      assume "e = d \<and> names = filter (\<lambda>x. \<not> is_directory fs (d @ [x])) (entries_of fs d)"
      then show ?r by (intro exI [where x = "[]"]) simp
    next
      assume "\<exists>x. \<not> hidden x \<and> is_directory fs (d @ [x]) \<and> (e, names) \<in> set (walk n fs (d @ [x]))"
      then obtain x rest where "\<not> hidden x" "is_directory fs (d @ [x])" "e = (d @ [x]) @ rest" "length rest < n"
        "reachable_dir fs (d @ [x]) rest" "names = filter (\<lambda>x. \<not> is_directory fs (e @ [x])) (entries_of fs e)"
        unfolding Suc by blast
      then show ?r by (intro exI [where x = "x # rest"]) simp
    qed
  next
    assume ?r
    then obtain rest where r: "e = d @ rest" "length rest < Suc n" "reachable_dir fs d rest"
      "names = filter (\<lambda>x. \<not> is_directory fs (e @ [x])) (entries_of fs e)" by blast
    show ?l
    proof (cases rest)
      case Nil
      with r show ?thesis by simp
    next
      case (Cons x xs)
      with r have "(e, names) \<in> set (walk n fs (d @ [x]))" unfolding Suc by (intro exI [where x = xs]) simp
      with r(3) Cons show ?thesis by auto
    qed
  qed
  finally show ?case .
qed simp

lemma reachable_snoc:
  "reachable_dir fs d (rest @ [x]) \<longleftrightarrow> reachable_dir fs d rest \<and> \<not> hidden x \<and> is_directory fs (d @ rest @ [x])"
  by (induction rest arbitrary: d) auto

lemma reachable_ok:
  assumes "tree_ok fs"
  shows "reachable_dir fs d rest \<longleftrightarrow> list_all (\<lambda>x. \<not> hidden x) rest \<and> (rest = [] \<or> is_directory fs (d @ rest))"
proof (induction rest rule: rev_induct)
  case (snoc x rest)
  have "is_directory fs (d @ rest)" if "is_directory fs ((d @ rest) @ [x])"
    by (rule parent_directory [OF assms directory_key [OF that]])
  with snoc show ?case by (auto simp: reachable_snoc)
qed simp

lemma walk_file:
  "(e, names) \<in> set w \<Longrightarrow> x \<in> set names \<Longrightarrow> e @ [x] \<in> set (concat (map (\<lambda>(d, names). map (\<lambda>n. d @ [n]) names) w))"
  by auto

lemma max_length: "p \<in> set ps \<Longrightarrow> length p \<le> foldr max (map length ps) 0"
  by (induction ps) auto

text \<open>
  The recursive search considers exactly the files below its directory that are not inside a hidden
  directory, at any depth: the bound on the depth of the walk is always enough.
\<close>
theorem walk_finds_files:
  assumes "tree_ok fs"
  shows "p \<in> set (walk_files fs base) \<longleftrightarrow>
    p \<in> set (dkeys fs) \<and> \<not> is_directory fs p \<and> (\<exists>rest x. p = base @ rest @ [x] \<and> list_all (\<lambda>y. \<not> hidden y) rest)"
proof
  assume "p \<in> set (walk_files fs base)"
  then obtain e names x where w: "(e, names) \<in> set (walk (Suc (foldr max (map length (dkeys fs)) 0)) fs base)" "x \<in> set names" "p = e @ [x]"
    unfolding walk_files_def by auto
  then show "p \<in> set (dkeys fs) \<and> \<not> is_directory fs p \<and> (\<exists>rest x. p = base @ rest @ [x] \<and> list_all (\<lambda>y. \<not> hidden y) rest)"
    unfolding walk_mem reachable_ok [OF assms] by (auto simp: entries_mem simp del: set_map)
next
  assume p: "p \<in> set (dkeys fs) \<and> \<not> is_directory fs p \<and> (\<exists>rest x. p = base @ rest @ [x] \<and> list_all (\<lambda>y. \<not> hidden y) rest)"
  then obtain rest x where r: "p = (base @ rest) @ [x]" "list_all (\<lambda>y. \<not> hidden y) rest" by auto
  have "length p \<le> foldr max (map length (dkeys fs)) 0" using p by (intro max_length) simp
  moreover have "is_directory fs (base @ rest)" using p r(1) by (intro parent_directory [OF assms, where x = x]) simp
  ultimately have "(base @ rest, filter (\<lambda>x. \<not> is_directory fs ((base @ rest) @ [x])) (entries_of fs (base @ rest))) \<in>
      set (walk (Suc (foldr max (map length (dkeys fs)) 0)) fs base)"
    unfolding walk_mem reachable_ok [OF assms] using r by (intro exI [where x = rest]) simp
  moreover have "x \<in> set (filter (\<lambda>x. \<not> is_directory fs ((base @ rest) @ [x])) (entries_of fs (base @ rest)))"
    using p r(1) by (simp add: entries_mem)
  ultimately show "p \<in> set (walk_files fs base)"
    unfolding walk_files_def r(1) by (rule walk_file)
qed

section \<open>Examples\<close>

definition demo_fs :: file_system where
  "demo_fs = [([''w''], Directory), ([''w'', ''a''], TextFile ''one''), ([''w'', ''.git''], Directory),
     ([''w'', ''.git'', ''c''], TextFile ''x''), ([''secret''], Directory), ([''secret'', ''key''], TextFile ''k'')]"

definition fenced :: sandbox where
  "fenced = new_sandbox demo_compile (default_policy\<lparr>po_allowed_roots := [''/w'']\<rparr>)"


theorem write_read_back_witness:
  "fst (file_write [] fenced ''n'' ''two'' ''/w'' ''create'' demo_fs) = Inr (Written 3) \<and>
   file_read [] fenced ''n'' ''/w'' 0 1 (snd (file_write [] fenced ''n'' ''two'' ''/w'' ''create'' demo_fs)) = Inr (Contents None 1 [''two''])"
proof -
  have 1: "file_write [] fenced ''n'' ''two'' ''/w'' ''create'' demo_fs =
      (Inr (Written 3), dset [''w'', ''n''] (TextFile ''two'') demo_fs)" by code_simp
  have 2: "splitlines ''two'' = [''two'']" by code_simp
  show ?thesis using write_read_back [OF 1, unfolded 2] by (simp add: 1)
qed

theorem walk_finds_files_witness:
  "tree_ok demo_fs \<and> [''w'', ''a''] \<in> set (walk_files demo_fs [''w'']) \<and> [''w'', ''.git'', ''c''] \<notin> set (walk_files demo_fs [''w''])"
proof -
  have t: "tree_ok demo_fs" unfolding tree_ok_def wf_dict_def by code_simp
  have 1: "[''w'', ''a''] \<in> set (dkeys demo_fs) \<and> \<not> is_directory demo_fs [''w'', ''a'']" by code_simp
  have 2: "[''w'', ''.git'', ''c''] \<in> set (dkeys demo_fs) \<and> hidden ''.git''" by code_simp
  have 3: "[''w'', ''a''] \<in> set (walk_files demo_fs [''w''])"
    unfolding walk_finds_files [OF t] using 1 by (auto intro!: exI [where x = "[]"])
  have 4: "[''w'', ''.git'', ''c''] \<notin> set (walk_files demo_fs [''w''])"
    unfolding walk_finds_files [OF t] using 2 by (auto simp: Cons_eq_append_conv)
  from t 3 4 show ?thesis by blast
qed

text \<open>
  The searches do not ask the sandbox: with roots that exclude the directory, \<open>file_read\<close> is refused
  where \<open>text_search\<close> shows the same text.
\<close>

lemma search_ignores_roots:
  "file_read [] fenced ''key'' ''/secret'' 0 1 demo_fs = Inl (Some OutsideRoots) \<and>
   text_search [] (\<lambda>_ _. True) (\<lambda>_ _. Some (\<lambda>_. True)) ''k'' ''/secret'' ''*'' True 5 demo_fs = Inr (Hits [(''key'', 1, ''k'')] 1 False)"
  by code_simp

text \<open>Any other mode than \<open>append\<close> and \<open>create\<close> overwrites, a misspelt one too.\<close>

lemma unknown_mode_overwrites:
  "dget (snd (file_write [] fenced ''a'' ''two'' ''/w'' ''apend'' demo_fs)) [''w'', ''a''] = Some (TextFile ''two'')"
  by code_simp

text \<open>Reading from beyond the end claims a range of lines that runs backwards.\<close>

lemma range_runs_backwards: "file_read [] fenced ''a'' ''/w'' 5 10 demo_fs = Inr (Contents (Some (10, 1)) 1 [])"
  by code_simp

end
