(* ===== verification/Scheduler.thy ===== *)
theory Scheduler
  imports AgentLoop
begin

text \<open>
  \<open>youmi/scheduler/__init__.py\<close>: the scheduler that wakes an agent for its tasks. Each background loop is a
  coroutine, cut where it waits: for its delay or interval, for \<open>initialize\<close> and for the run of the agent
  (or of a custom handler). Clocks, results and how a run ends are arguments of the steps. The name of a
  task refers to a state object that a loop keeps after the name is removed.
\<close>

section \<open>State\<close>

record scheduled_task =
  sk_name :: string
  sk_interval :: rat
  sk_description :: string
  sk_enabled :: bool
  sk_max_runs :: nat
  sk_delay :: rat

datatype run_error = AgentBusy | RunFailed string

record task_state =
  sk_task :: scheduled_task
  sk_run_count :: nat
  sk_last_run_at :: rat
  sk_last_result :: "string option"
  sk_last_error :: "run_error option"
  sk_cancelled :: bool

definition new_task_state :: "scheduled_task \<Rightarrow> task_state" where
  "new_task_state t = \<lparr>sk_task = t, sk_run_count = 0, sk_last_run_at = 0, sk_last_result = None, sk_last_error = None,
     sk_cancelled = False\<rparr>"

definition is_complete :: "task_state \<Rightarrow> bool" where
  "is_complete st \<longleftrightarrow> sk_cancelled st \<or> \<not> sk_enabled (sk_task st) \<or>
     (0 < sk_max_runs (sk_task st) \<and> sk_max_runs (sk_task st) \<le> sk_run_count st)"

text \<open>Where a runner waits. A runner is a background loop or a call of \<open>run_once\<close>.\<close>

datatype run_phase = Pausing | Initializing | Executing

record runner =
  rn_state :: nat
  rn_phase :: run_phase
  rn_loop :: bool

record scheduler =
  sc_handler :: bool
  sc_agent :: "agent_status option"
  sc_tasks :: "(string, nat) dict"
  sc_states :: "nat \<Rightarrow> task_state option"
  sc_running :: bool
  sc_runners :: "(nat, runner) dict"
  sc_background :: "nat list"
  sc_waited :: "nat list"
  sc_next :: nat

definition new_scheduler :: "bool \<Rightarrow> scheduler" where
  "new_scheduler handler = \<lparr>sc_handler = handler, sc_agent = None, sc_tasks = [], sc_states = Map.empty, sc_running = False,
     sc_runners = [], sc_background = [], sc_waited = [], sc_next = 0\<rparr>"

section \<open>Managing tasks\<close>

definition bind_agent :: "agent_status \<Rightarrow> scheduler \<Rightarrow> scheduler" where
  "bind_agent a s = s\<lparr>sc_agent := Some a\<rparr>"

text \<open>\<open>False\<close>: \<open>ValueError\<close>.\<close>

definition add_task :: "scheduled_task \<Rightarrow> scheduler \<Rightarrow> bool \<times> scheduler" where
  "add_task t s =
     (if dget (sc_tasks s) (sk_name t) \<noteq> None then (False, s)
      else (True, s\<lparr>sc_tasks := dset (sk_name t) (sc_next s) (sc_tasks s),
                    sc_states := (sc_states s)(sc_next s \<mapsto> new_task_state t), sc_next := sc_next s + 1\<rparr>))"

definition update_state :: "nat \<Rightarrow> (task_state \<Rightarrow> task_state) \<Rightarrow> scheduler \<Rightarrow> scheduler" where
  "update_state i f s = s\<lparr>sc_states := (sc_states s)(i := map_option f (sc_states s i))\<rparr>"

definition remove_task :: "string \<Rightarrow> scheduler \<Rightarrow> bool \<times> scheduler" where
  "remove_task name s =
     (case dget (sc_tasks s) name of
        None \<Rightarrow> (False, s)
      | Some i \<Rightarrow> (True, update_state i (\<lambda>st. st\<lparr>sk_cancelled := True\<rparr>) (s\<lparr>sc_tasks := ddel name (sc_tasks s)\<rparr>)))"

definition enable_task :: "string \<Rightarrow> bool \<Rightarrow> scheduler \<Rightarrow> scheduler" where
  "enable_task name enabled s =
     (case dget (sc_tasks s) name of
        None \<Rightarrow> s
      | Some i \<Rightarrow> update_state i (\<lambda>st. st\<lparr>sk_task := (sk_task st)\<lparr>sk_enabled := enabled\<rparr>\<rparr>) s)"

definition get_task_state :: "string \<Rightarrow> scheduler \<Rightarrow> task_state option" where
  "get_task_state name s = (case dget (sc_tasks s) name of None \<Rightarrow> None | Some i \<Rightarrow> sc_states s i)"

section \<open>One execution\<close>

definition set_runner :: "nat \<Rightarrow> runner \<Rightarrow> scheduler \<Rightarrow> scheduler" where
  "set_runner k r s = s\<lparr>sc_runners := dset k r (sc_runners s)\<rparr>"

definition end_runner :: "nat \<Rightarrow> scheduler \<Rightarrow> scheduler" where
  "end_runner k s = s\<lparr>sc_runners := ddel k (sc_runners s)\<rparr>"

text \<open>After an execution a loop waits for its interval, or ends; a single run ends.\<close>

definition after_execution :: "nat \<Rightarrow> runner \<Rightarrow> scheduler \<Rightarrow> scheduler" where
  "after_execution k r s =
     (if rn_loop r \<and> (case sc_states s (rn_state r) of None \<Rightarrow> False | Some st \<Rightarrow> 0 < sk_interval (sk_task st)) \<and> sc_running s
      then set_runner k (r\<lparr>rn_phase := Pausing\<rparr>) s else end_runner k s)"

text \<open>An exception becomes the last error of the task in a loop; in a single run it reaches the caller.\<close>

definition failed_execution :: "nat \<Rightarrow> runner \<Rightarrow> string \<Rightarrow> scheduler \<Rightarrow> scheduler" where
  "failed_execution k r msg s =
     after_execution k r (if rn_loop r then update_state (rn_state r) (\<lambda>st. st\<lparr>sk_last_error := Some (RunFailed msg)\<rparr>) s else s)"

definition not_idle_text :: string where
  "not_idle_text = ''RuntimeError: run expects an idle agent''"

text \<open>The part of \<open>_execute_task\<close> from the test of the status to the run; \<open>run\<close> raises unless the agent is idle.\<close>

definition proceed :: "nat \<Rightarrow> runner \<Rightarrow> scheduler \<Rightarrow> scheduler" where
  "proceed k r s =
     (if sc_agent s = Some RUNNING
      then after_execution k r (update_state (rn_state r) (\<lambda>st. st\<lparr>sk_last_error := Some AgentBusy\<rparr>) s)
      else if sc_agent s = Some IDLE then set_runner k (r\<lparr>rn_phase := Executing\<rparr>) (s\<lparr>sc_agent := Some RUNNING\<rparr>)
      else failed_execution k r not_idle_text s)"

definition begin_execution :: "nat \<Rightarrow> runner \<Rightarrow> rat \<Rightarrow> scheduler \<Rightarrow> scheduler" where
  "begin_execution k r now s =
     (let s = update_state (rn_state r)
                (\<lambda>st. st\<lparr>sk_run_count := sk_run_count st + 1, sk_last_run_at := now, sk_last_error := None\<rparr>) s in
      if sc_handler s then set_runner k (r\<lparr>rn_phase := Executing\<rparr>) s
      else if sc_agent s = Some CREATED then set_runner k (r\<lparr>rn_phase := Initializing\<rparr>) s
      else proceed k r s)"

section \<open>Steps\<close>

text \<open>\<open>start\<close>: \<open>False\<close> for the \<open>RuntimeError\<close> without an agent. A task without delay is checked at once by its new loop.\<close>

definition start_loop :: "nat \<Rightarrow> scheduler \<Rightarrow> scheduler" where
  "start_loop i s =
     (case sc_states s i of
        None \<Rightarrow> s
      | Some st \<Rightarrow>
          if is_complete st then s
          else s\<lparr>sc_runners := dset (sc_next s) \<lparr>rn_state = i, rn_phase = Pausing, rn_loop = True\<rparr> (sc_runners s),
                 sc_background := sc_background s @ [sc_next s], sc_next := sc_next s + 1\<rparr>)"

definition start :: "scheduler \<Rightarrow> bool \<times> scheduler" where
  "start s =
     (if sc_running s then (True, s)
      else if sc_agent s = None then (False, s)
      else (True, fold start_loop (dvals (sc_tasks s)) (s\<lparr>sc_running := True\<rparr>)))"

text \<open>A loop wakes up: the condition of its \<open>while\<close>, and the beginning of an execution.\<close>

definition loop_wakes :: "nat \<Rightarrow> rat \<Rightarrow> scheduler \<Rightarrow> scheduler" where
  "loop_wakes k now s =
     (case dget (sc_runners s) k of
        None \<Rightarrow> s
      | Some r \<Rightarrow>
          if rn_phase r \<noteq> Pausing then s
          else if sc_running s \<and> (case sc_states s (rn_state r) of None \<Rightarrow> False | Some st \<Rightarrow> \<not> is_complete st)
               then begin_execution k r now s else end_runner k s)"

text \<open>\<open>run_once\<close>; \<open>False\<close>: \<open>KeyError\<close>.\<close>

definition run_once :: "string \<Rightarrow> rat \<Rightarrow> scheduler \<Rightarrow> bool \<times> scheduler" where
  "run_once name now s =
     (case dget (sc_tasks s) name of
        None \<Rightarrow> (False, s)
      | Some i \<Rightarrow> (True, begin_execution (sc_next s) \<lparr>rn_state = i, rn_phase = Pausing, rn_loop = False\<rparr> now
                            (s\<lparr>sc_next := sc_next s + 1\<rparr>)))"

text \<open>\<open>initialize\<close> ends: it makes the agent idle whatever happened in between, or raises.\<close>

definition init_ends :: "nat \<Rightarrow> string option \<Rightarrow> scheduler \<Rightarrow> scheduler" where
  "init_ends k failure s =
     (case dget (sc_runners s) k of
        None \<Rightarrow> s
      | Some r \<Rightarrow>
          if rn_phase r \<noteq> Initializing then s
          else (case failure of Some msg \<Rightarrow> failed_execution k r msg s | None \<Rightarrow> proceed k r (s\<lparr>sc_agent := Some IDLE\<rparr>)))"

datatype run_end = RunReturns string agent_status | RunRaises string agent_status | RunCancelled

definition run_ends :: "nat \<Rightarrow> run_end \<Rightarrow> scheduler \<Rightarrow> scheduler" where
  "run_ends k e s =
     (case dget (sc_runners s) k of
        None \<Rightarrow> s
      | Some r \<Rightarrow>
          if rn_phase r \<noteq> Executing then s
          else (case e of
                  RunReturns result status \<Rightarrow>
                    (let s = (if sc_handler s then s
                              else s\<lparr>sc_agent := Some (if status \<in> {COMPLETED, FAILED} then IDLE else status)\<rparr>)
                     in after_execution k r (update_state (rn_state r) (\<lambda>st. st\<lparr>sk_last_result := Some result\<rparr>) s))
                | RunRaises msg status \<Rightarrow>
                    failed_execution k r msg (if sc_handler s then s else s\<lparr>sc_agent := Some status\<rparr>)
                | RunCancelled \<Rightarrow> end_runner k (if sc_handler s then s else s\<lparr>sc_agent := Some IDLE\<rparr>)))"

text \<open>\<open>stop\<close> tells the loops to end, waits for them, and cancels those that are left after the timeout.\<close>

definition stop_begins :: "scheduler \<Rightarrow> scheduler" where
  "stop_begins s = s\<lparr>sc_running := False, sc_waited := sc_background s\<rparr>"

definition cancel_runner :: "nat \<Rightarrow> scheduler \<Rightarrow> scheduler" where
  "cancel_runner k s =
     (case dget (sc_runners s) k of
        None \<Rightarrow> s
      | Some r \<Rightarrow> if rn_phase r = Executing then run_ends k RunCancelled s else end_runner k s)"

definition stop_ends :: "scheduler \<Rightarrow> scheduler" where
  "stop_ends s = (fold cancel_runner (sc_waited s) s)\<lparr>sc_background := [], sc_waited := []\<rparr>"


section \<open>The scheduler as a transition system\<close>

datatype sched_op =
  AddTask scheduled_task
| RemoveTask string
| EnableTask string bool
| Start
| LoopWakes nat rat
| RunOnce string rat
| InitEnds nat "string option"
| RunEnds nat run_end
| StopBegins
| StopEnds

fun sched_step :: "sched_op \<Rightarrow> scheduler \<Rightarrow> scheduler" where
  "sched_step (AddTask t) s = snd (add_task t s)"
| "sched_step (RemoveTask n) s = snd (remove_task n s)"
| "sched_step (EnableTask n b) s = enable_task n b s"
| "sched_step Start s = snd (start s)"
| "sched_step (LoopWakes k now) s = loop_wakes k now s"
| "sched_step (RunOnce n now) s = snd (run_once n now s)"
| "sched_step (InitEnds k f) s = init_ends k f s"
| "sched_step (RunEnds k e) s = run_ends k e s"
| "sched_step StopBegins s = stop_begins s"
| "sched_step StopEnds s = stop_ends s"

text \<open>The limit and the number of runs of a state object.\<close>

definition runs_of :: "nat \<Rightarrow> scheduler \<Rightarrow> (nat \<times> nat) option" where
  "runs_of i s = map_option (\<lambda>st. (sk_max_runs (sk_task st), sk_run_count st)) (sc_states s i)"

lemma runs_of_update [simp]:
  "(\<And>st. sk_max_runs (sk_task (f st)) = sk_max_runs (sk_task st) \<and> sk_run_count (f st) = sk_run_count st) \<Longrightarrow>
     runs_of i (update_state j f s) = runs_of i s"
  by (simp add: runs_of_def update_state_def option.map_comp comp_def)

lemma runs_of_runner [simp]:
  "runs_of i (set_runner k r s) = runs_of i s" "runs_of i (end_runner k s) = runs_of i s"
  "runs_of i (s\<lparr>sc_agent := a\<rparr>) = runs_of i s"
  by (simp_all add: runs_of_def set_runner_def end_runner_def)

lemma runs_of_after [simp]:
  "runs_of i (after_execution k r s) = runs_of i s" "runs_of i (failed_execution k r m s) = runs_of i s"
  "runs_of i (proceed k r s) = runs_of i s"
  by (simp_all add: after_execution_def failed_execution_def proceed_def)

lemma runs_of_begin:
  "runs_of i (begin_execution k r now s) =
     (if i = rn_state r then map_option (\<lambda>(m, c). (m, c + 1)) (runs_of i s) else runs_of i s)"
proof -
  let ?f = "\<lambda>st. st\<lparr>sk_run_count := sk_run_count st + 1, sk_last_run_at := now, sk_last_error := None\<rparr>"
  have "runs_of i (begin_execution k r now s) = runs_of i (update_state (rn_state r) ?f s)"
    by (simp add: begin_execution_def Let_def)
  then show ?thesis by (simp add: runs_of_def update_state_def option.map_comp comp_def)
qed

lemma runs_of_ends [simp]:
  "runs_of i (init_ends k f s) = runs_of i s" "runs_of i (run_ends k e s) = runs_of i s"
  "runs_of i (cancel_runner k s) = runs_of i s"
  by (simp_all add: init_ends_def run_ends_def cancel_runner_def Let_def split: option.split run_end.split)

lemma runs_of_stop [simp]: "runs_of i (stop_begins s) = runs_of i s" "runs_of i (stop_ends s) = runs_of i s"
proof -
  have "runs_of i (fold cancel_runner ks s) = runs_of i s" for ks
    by (induction ks arbitrary: s) simp_all
  then show "runs_of i (stop_ends s) = runs_of i s" by (simp add: stop_ends_def) (simp add: runs_of_def)
qed (simp add: stop_begins_def runs_of_def)

lemma runs_of_start [simp]: "runs_of i (snd (start s)) = runs_of i s"
proof -
  have "runs_of i (start_loop j s) = runs_of i s" for j s
    by (simp add: start_loop_def runs_of_def split: option.split)
  then have "runs_of i (fold start_loop js s) = runs_of i s" for js s
    by (induction js arbitrary: s) simp_all
  then show ?thesis by (simp add: start_def) (simp add: runs_of_def)
qed

lemma runs_of_manage [simp]:
  "runs_of i (snd (remove_task n s)) = runs_of i s" "runs_of i (enable_task n b s) = runs_of i s"
  by (simp_all add: remove_task_def enable_task_def split: option.split) (simp_all add: runs_of_def update_state_def option.map_comp comp_def)

lemma runs_of_add:
  "runs_of i (snd (add_task t s)) = (if i = sc_next s \<and> dget (sc_tasks s) (sk_name t) = None then Some (sk_max_runs t, 0) else runs_of i s)"
  by (simp add: add_task_def runs_of_def new_task_state_def)

section \<open>The number of runs\<close>

definition within_limits :: "scheduler \<Rightarrow> bool" where
  "within_limits s \<longleftrightarrow> (\<forall>i m c. runs_of i s = Some (m, c) \<longrightarrow> 0 < m \<longrightarrow> c \<le> m)"

fun by_itself :: "sched_op \<Rightarrow> bool" where
  "by_itself (RunOnce n now) \<longleftrightarrow> False"
| "by_itself x \<longleftrightarrow> True"

lemma wake_runs:
  "runs_of i (loop_wakes k now s) = runs_of i s \<or>
   (sc_running s \<and> (\<exists>m c. runs_of i s = Some (m, c) \<and> (0 < m \<longrightarrow> c < m) \<and> runs_of i (loop_wakes k now s) = Some (m, c + 1)))"
proof (cases "\<exists>r st. dget (sc_runners s) k = Some r \<and> rn_phase r = Pausing \<and> sc_running s \<and>
    sc_states s (rn_state r) = Some st \<and> \<not> is_complete st")
  case True
  then obtain r st where r: "dget (sc_runners s) k = Some r" "rn_phase r = Pausing" "sc_running s"
    "sc_states s (rn_state r) = Some st" "\<not> is_complete st" by blast
  then have e: "loop_wakes k now s = begin_execution k r now s" by (simp add: loop_wakes_def)
  show ?thesis
  proof (cases "i = rn_state r")
    case True
    with r have "runs_of i s = Some (sk_max_runs (sk_task st), sk_run_count st)" by (simp add: runs_of_def)
    with True r(3,5) show ?thesis by (simp add: e runs_of_begin is_complete_def) linarith
  qed (simp add: e runs_of_begin)
next
  case False
  then have "loop_wakes k now s = s \<or> loop_wakes k now s = end_runner k s"
    by (auto simp: loop_wakes_def split: option.splits)
  then show ?thesis by auto
qed

lemma within_limits_step: "within_limits s \<Longrightarrow> by_itself x \<Longrightarrow> within_limits (sched_step x s)"
proof (cases x)
  case (LoopWakes k now)
  assume w: "within_limits s"
  show ?thesis unfolding LoopWakes within_limits_def sched_step.simps
  proof (intro allI impI)
    fix i m c
    assume "runs_of i (loop_wakes k now s) = Some (m, c)" "0 < m"
    with wake_runs [of i k now s] w show "c \<le> m" by (auto simp: within_limits_def)
  qed
qed (auto simp: within_limits_def runs_of_add)

interpretation scl: invariant_system "\<lambda>s. \<exists>h a. s = bind_agent a (new_scheduler h)" sched_step by_itself within_limits
  by unfold_locales (auto simp: within_limits_step, auto simp: within_limits_def runs_of_def bind_agent_def new_scheduler_def)

text \<open>
  C29: A task with a limit is never begun more often than its limit by the scheduler, however its loops are
  started, stopped and started again, whatever overlaps, is removed, disabled or enabled, and however runs
  end; only \<open>run_once\<close> can exceed it.
\<close>
theorem scheduler_respects_max_runs:
  assumes "list_all by_itself ops" and "sc_states (fold sched_step ops (bind_agent a (new_scheduler h))) i = Some st"
    and "0 < sk_max_runs (sk_task st)"
  shows "sk_run_count st \<le> sk_max_runs (sk_task st)"
proof -
  have "within_limits (fold sched_step ops (bind_agent a (new_scheduler h)))"
    by (rule scl.inv_reachable [OF _ assms(1)]) blast
  moreover have "runs_of i (fold sched_step ops (bind_agent a (new_scheduler h))) =
      Some (sk_max_runs (sk_task st), sk_run_count st)" using assms(2) by (simp add: runs_of_def)
  ultimately show ?thesis using assms(3) unfolding within_limits_def by blast
qed

text \<open>A stopped scheduler begins nothing until it is started again.\<close>

lemma stopped_step:
  assumes "\<not> sc_running s" "by_itself x" "x \<noteq> Start" "runs_of i s \<noteq> None \<Longrightarrow> i < sc_next s"
  shows "runs_of i (sched_step x s) = runs_of i s \<or> runs_of i s = None"
  using assms wake_runs [of i] by (cases x) (auto simp: runs_of_add)


section \<open>One run at a time\<close>

definition in_phase :: "run_phase \<Rightarrow> nat \<Rightarrow> scheduler \<Rightarrow> bool" where
  "in_phase p k s \<longleftrightarrow> (\<exists>r. dget (sc_runners s) k = Some r \<and> rn_phase r = p)"

text \<open>An initialised agent under the default handler: a runner executes only while the agent runs, and it is alone.\<close>

definition one_run :: "scheduler \<Rightarrow> bool" where
  "one_run s \<longleftrightarrow> \<not> sc_handler s \<and> sc_agent s \<noteq> Some CREATED \<and> (\<forall>k. \<not> in_phase Initializing k s) \<and>
     (\<forall>k. in_phase Executing k s \<longrightarrow> sc_agent s = Some RUNNING) \<and>
     (\<forall>k k'. in_phase Executing k s \<longrightarrow> in_phase Executing k' s \<longrightarrow> k = k')"

lemma in_phase_set [simp]:
  "in_phase p k (set_runner j r s) \<longleftrightarrow> (if k = j then rn_phase r = p else in_phase p k s)"
  "in_phase p k (end_runner j s) \<longleftrightarrow> k \<noteq> j \<and> in_phase p k s"
  "in_phase p k (update_state i f s) \<longleftrightarrow> in_phase p k s"
  "in_phase p k (s\<lparr>sc_agent := a\<rparr>) \<longleftrightarrow> in_phase p k s"
  by (simp_all add: in_phase_def set_runner_def end_runner_def update_state_def)

lemma kept_fields [simp]:
  "sc_handler (set_runner j r s) = sc_handler s" "sc_handler (end_runner j s) = sc_handler s"
  "sc_handler (update_state i f s) = sc_handler s" "sc_agent (set_runner j r s) = sc_agent s"
  "sc_agent (end_runner j s) = sc_agent s" "sc_agent (update_state i f s) = sc_agent s"
  by (simp_all add: set_runner_def end_runner_def update_state_def)

lemma after_one_run: "one_run (end_runner k s) \<Longrightarrow> one_run (after_execution k r s)"
proof -
  have "in_phase p j (set_runner k (r\<lparr>rn_phase := Pausing\<rparr>) s) = in_phase p j (end_runner k s)" if "p \<noteq> Pausing" for p j
    using that by simp
  then have "one_run (set_runner k (r\<lparr>rn_phase := Pausing\<rparr>) s) = one_run (end_runner k s)"
    unfolding one_run_def kept_fields by simp
  moreover assume "one_run (end_runner k s)"
  ultimately show ?thesis by (simp add: after_execution_def)
qed

lemma end_one_run: "one_run s \<Longrightarrow> one_run (end_runner k s)"
  by (simp add: one_run_def) blast

lemma update_one_run: "one_run (update_state i f s) = one_run s"
  by (simp add: one_run_def)

lemma end_update: "end_runner k (update_state i f s) = update_state i f (end_runner k s)"
  by (simp add: end_runner_def update_state_def)

lemma failed_one_run: "one_run (end_runner k s) \<Longrightarrow> one_run (failed_execution k r m s)"
  by (auto simp: failed_execution_def end_update update_one_run intro: after_one_run)

lemma proceed_one_run: "one_run s \<Longrightarrow> one_run (proceed k r s)"
proof -
  assume o: "one_run s"
  have "one_run (set_runner k (r\<lparr>rn_phase := Executing\<rparr>) (s\<lparr>sc_agent := Some RUNNING\<rparr>))" if "sc_agent s = Some IDLE"
    using o that by (auto simp: one_run_def)
  then show ?thesis
    using o by (auto simp: proceed_def end_update update_one_run end_one_run intro: after_one_run failed_one_run)
qed

lemma begin_one_run: "one_run s \<Longrightarrow> one_run (begin_execution k r now s)"
  using proceed_one_run [of "update_state (rn_state r) (\<lambda>st. st\<lparr>sk_run_count := sk_run_count st + 1,
      sk_last_run_at := now, sk_last_error := None\<rparr>) s" k r]
  by (simp add: begin_execution_def Let_def update_one_run) (simp add: one_run_def)

lemma end_executing:
  "one_run s \<Longrightarrow> in_phase Executing k s \<Longrightarrow> a \<noteq> Some CREATED \<Longrightarrow> one_run (end_runner k (s\<lparr>sc_agent := a\<rparr>))"
  by (simp add: one_run_def) blast

fun status_ok :: "sched_op \<Rightarrow> bool" where
  "status_ok (RunEnds k (RunReturns res status)) \<longleftrightarrow> status \<noteq> CREATED"
| "status_ok (RunEnds k (RunRaises msg status)) \<longleftrightarrow> status \<noteq> CREATED"
| "status_ok x \<longleftrightarrow> True"

lemma run_ends_one_run:
  assumes "one_run s" "status_ok (RunEnds k e)"
  shows "one_run (run_ends k e s)"
proof (cases "in_phase Executing k s")
  case False
  then show ?thesis using assms(1) by (auto simp: run_ends_def in_phase_def split: option.split)
next
  case True
  then obtain r where r: "dget (sc_runners s) k = Some r" "rn_phase r = Executing" by (auto simp: in_phase_def)
  note E = end_executing [OF assms(1) True]
  have h: "\<not> sc_handler s" using assms(1) by (simp add: one_run_def)
  show ?thesis
  proof (cases e)
    case (RunReturns res status)
    with assms(2) show ?thesis
      by (simp add: run_ends_def r h Let_def) (auto simp: end_update update_one_run intro!: after_one_run E)
  next
    case (RunRaises msg status)
    with assms(2) show ?thesis by (auto simp: run_ends_def r h intro!: failed_one_run E)
  next
    case RunCancelled
    show ?thesis using E by (simp add: RunCancelled run_ends_def r h)
  qed
qed

lemma one_run_cong: "sc_handler s = sc_handler t \<Longrightarrow> sc_agent s = sc_agent t \<Longrightarrow> sc_runners s = sc_runners t \<Longrightarrow> one_run s = one_run t"
  by (simp add: one_run_def in_phase_def)

lemma one_run_step: "one_run s \<Longrightarrow> status_ok x \<Longrightarrow> one_run (sched_step x s)"
proof (cases x)
  case (AddTask t)
  assume "one_run s"
  then show ?thesis unfolding AddTask by (subst one_run_cong [of _ s]) (simp_all add: add_task_def)
next
  case (RemoveTask n)
  assume "one_run s"
  then show ?thesis unfolding RemoveTask
    by (subst one_run_cong [of _ s]) (simp_all add: remove_task_def update_state_def split: option.split)
next
  case (EnableTask n b)
  assume "one_run s"
  then show ?thesis unfolding EnableTask
    by (subst one_run_cong [of _ s]) (simp_all add: enable_task_def update_state_def split: option.split)
next
  case Start
  assume o: "one_run s"
  have l: "one_run t \<Longrightarrow> one_run (start_loop i t)" for i t
    by (auto simp: start_loop_def one_run_def in_phase_def split: option.split)
  have f: "one_run t \<Longrightarrow> one_run (fold start_loop is t)" for "is" t
    by (induction "is" arbitrary: t) (simp_all add: l)
  have "one_run (s\<lparr>sc_running := True\<rparr>)" using o by (subst one_run_cong [of _ s]) simp_all
  with o f show ?thesis by (simp add: Start start_def)
next
  case (LoopWakes k now)
  assume "one_run s"
  then show ?thesis by (auto simp: LoopWakes loop_wakes_def begin_one_run end_one_run split: option.split)
next
  case (RunOnce n now)
  assume o: "one_run s"
  have "one_run (s\<lparr>sc_next := j\<rparr>)" for j using o by (subst one_run_cong [of _ s]) simp_all
  with o show ?thesis by (auto simp: RunOnce run_once_def begin_one_run split: option.split)
next
  case (InitEnds k f)
  assume o: "one_run s"
  then have "\<not> in_phase Initializing k s" by (simp add: one_run_def)
  with o show ?thesis by (auto simp: InitEnds init_ends_def in_phase_def split: option.split)
next
  case (RunEnds k e)
  assume "one_run s" "status_ok x"
  then show ?thesis unfolding RunEnds by (simp add: run_ends_one_run)
next
  case StopBegins
  assume "one_run s"
  then show ?thesis unfolding StopBegins by (subst one_run_cong [of _ s]) (simp_all add: stop_begins_def)
next
  case StopEnds
  assume o: "one_run s"
  have c: "one_run t \<Longrightarrow> one_run (cancel_runner k t)" for k t
    using run_ends_one_run [of t k RunCancelled] by (auto simp: cancel_runner_def end_one_run split: option.split)
  have "one_run t \<Longrightarrow> one_run (fold cancel_runner ks t)" for ks t
    by (induction ks arbitrary: t) (simp_all add: c)
  with o have "one_run (fold cancel_runner (sc_waited s) s)" by blast
  then show ?thesis unfolding StopEnds by (subst one_run_cong [of _ "fold cancel_runner (sc_waited s) s"]) (simp_all add: stop_ends_def)
qed

interpretation sco: invariant_system "\<lambda>s. \<exists>a. a \<noteq> CREATED \<and> s = bind_agent a (new_scheduler False)" sched_step status_ok one_run
  by unfold_locales (auto simp: one_run_step, auto simp: one_run_def in_phase_def bind_agent_def new_scheduler_def)



section \<open>Examples\<close>

definition demo_task :: "string \<Rightarrow> rat \<Rightarrow> nat \<Rightarrow> scheduled_task" where
  "demo_task n interval runs = \<lparr>sk_name = n, sk_interval = interval, sk_description = n, sk_enabled = True, sk_max_runs = runs,
     sk_delay = 0\<rparr>"

definition demo_run :: "agent_status \<Rightarrow> sched_op list \<Rightarrow> scheduler" where
  "demo_run a ops = fold sched_step ops (bind_agent a (new_scheduler False))"

definition finished :: "nat \<Rightarrow> sched_op" where
  "finished k = RunEnds k (RunReturns ''done'' COMPLETED)"

text \<open>The state object of a first task is 0; loops are numbered after the objects.\<close>

theorem scheduler_respects_max_runs_witness:
  "let ops = [AddTask (demo_task ''a'' 60 1), Start, LoopWakes 1 0, finished 1, StopBegins, Start, LoopWakes 1 60, LoopWakes 2 60] in
     map_option sk_run_count (sc_states (fold sched_step ops (bind_agent IDLE (new_scheduler False))) 0) = Some 1 \<and>
     (\<forall>st \<in> set_option (sc_states (fold sched_step ops (bind_agent IDLE (new_scheduler False))) 0). sk_run_count st \<le> 1)"
proof -
  let ?ops = "[AddTask (demo_task ''a'' 60 1), Start, LoopWakes 1 0, finished 1, StopBegins, Start, LoopWakes 1 60, LoopWakes 2 60]"
  let ?s = "fold sched_step ?ops (bind_agent IDLE (new_scheduler False))"
  have 1: "list_all by_itself ?ops" by (simp add: finished_def)
  have 2: "map_option (\<lambda>st. (sk_run_count st, sk_max_runs (sk_task st))) (sc_states ?s 0) = Some (1, 1)" by code_simp
  then obtain st where st: "sc_states ?s 0 = Some st" "sk_run_count st = 1" "sk_max_runs (sk_task st) = 1" by auto
  have "sk_run_count st \<le> 1" using scheduler_respects_max_runs [OF 1 st(1)] st(3) by linarith
  then show ?thesis unfolding Let_def st(1) using st(2) by simp
qed


text \<open>
  An agent that is not initialised yet: two loops both initialise it, the second one makes it idle while
  the first already runs it, and then both run the same agent.
\<close>

lemma double_initialisation:
  "let s = demo_run CREATED [AddTask (demo_task ''a'' 60 0), AddTask (demo_task ''b'' 60 0), Start, LoopWakes 2 0, LoopWakes 3 0,
                             InitEnds 2 None, InitEnds 3 None] in
     map (\<lambda>r. rn_phase r) (dvals (sc_runners s)) = [Executing, Executing]"
  by code_simp

text \<open>A run that is skipped because the agent is busy counts: the only run of the second task never happens.\<close>

lemma skipped_run_counts:
  "let s = demo_run IDLE [AddTask (demo_task ''a'' 60 0), AddTask (demo_task ''b'' 60 1), Start, LoopWakes 2 0, LoopWakes 3 0,
                          finished 2, LoopWakes 3 60] in
     map_option (\<lambda>st. (sk_run_count st, sk_last_error st, sk_last_result st, is_complete st)) (get_task_state ''b'' s) =
       Some (1, Some AgentBusy, None, True) \<and> dget (sc_runners s) 3 = None"
  by code_simp

text \<open>A task that is disabled when the scheduler starts, or that is added later, has no loop, enabled or not.\<close>

lemma late_task_never_runs:
  "let s = demo_run IDLE [AddTask (demo_task ''a'' 60 0), EnableTask ''a'' False, Start, EnableTask ''a'' True,
                          AddTask (demo_task ''b'' 60 0), Start] in
     sc_running s \<and> sc_runners s = [] \<and> map_option is_complete (get_task_state ''a'' s) = Some False \<and>
     map_option is_complete (get_task_state ''b'' s) = Some False"
  by code_simp

text \<open>Without an interval a task runs once, whatever its number of runs.\<close>

lemma no_interval_runs_once:
  "let s = demo_run IDLE [AddTask (demo_task ''a'' 0 3), Start, LoopWakes 1 0, finished 1] in
     sc_runners s = [] \<and> map_option (\<lambda>st. (sk_run_count st, is_complete st)) (get_task_state ''a'' s) = Some (1, False)"
  by code_simp

text \<open>An agent that has finished a task elsewhere is not made idle: every scheduled run fails.\<close>

lemma finished_agent_fails:
  "let s = demo_run COMPLETED [AddTask (demo_task ''a'' 60 0), Start, LoopWakes 1 0, LoopWakes 1 60] in
     map_option (\<lambda>st. (sk_run_count st, sk_last_error st)) (get_task_state ''a'' s) = Some (2, Some (RunFailed not_idle_text)) \<and>
     sc_agent s = Some COMPLETED"
  by code_simp

end
