(* ===== verification/Skills.thy ===== *)
theory Skills
  imports StoreInv
begin

text \<open>
  \<open>youmi/mcp/skill_store.py\<close>, the store of skills beside the store of tools, and
  \<open>mcp/skill_ingest.py\<close>, which reads a skill document and files it. A table is a list of rows in the
  order of their \<open>rowid\<close>, tags are stored as values and their JSON text is computed where a query
  matches on it. The time stamp, the embedding client and the LLM are those of the environment of the
  tool store; Python's \<open>str\<close> and \<open>json.dumps\<close> of a value that is not a text are arguments. The vectors
  are those of the fallback table \<open>vec_skills\<close>; opening and closing the database is not modelled.
\<close>

section \<open>Entries and rows\<close>

record skill_entry =
  sk_name :: string
  sk_version :: string
  sk_parent :: "string option"
  sk_bound_tool :: string
  sk_describe :: string
  sk_summary :: string
  sk_summary_l2 :: string
  sk_content :: string
  sk_tags :: "string list"
  sk_risk_level :: string
  sk_created_at :: string
  sk_updated_at :: string

record skill_result =
  kr_name :: string
  kr_score :: rat
  kr_summary :: string
  kr_summary_l2 :: string
  kr_version :: string
  kr_bound_tool :: string
  kr_risk_level :: string
  kr_tags :: "string list"

record skill_store =
  ss_rows :: "(string \<times> skill_entry) list"
  ss_vectors :: "(string \<times> string, rat list) dict"

definition new_skill_store :: skill_store where
  "new_skill_store = \<lparr>ss_rows = [], ss_vectors = []\<rparr>"

definition skill_key :: "string \<Rightarrow> string \<Rightarrow> string" where
  "skill_key name version = name @ ''@'' @ version"

section \<open>Writing\<close>

definition write_skill_vec :: "string \<Rightarrow> string \<Rightarrow> rat list \<Rightarrow> skill_store \<Rightarrow> skill_store" where
  "write_skill_vec i level vec st = st\<lparr>ss_vectors := dset (i, level) vec (ss_vectors st)\<rparr>"

text \<open>The two vectors of a skill; the first failure ends it.\<close>

definition embed_skill :: "store_env \<Rightarrow> string \<Rightarrow> string \<Rightarrow> string \<Rightarrow> string \<Rightarrow> skill_store \<Rightarrow> skill_store" where
  "embed_skill env i name l1 l2 st =
     (case se_embed env of
        None \<Rightarrow> st
      | Some emb \<Rightarrow>
          (case emb (embed_text name l1) of
             None \<Rightarrow> st
           | Some v1 \<Rightarrow>
               (let st = write_skill_vec i ''l1'' v1 st in
                if l2 = [] then st
                else (case emb (embed_text name l2) of None \<Rightarrow> st | Some v2 \<Rightarrow> write_skill_vec i ''l2'' v2 st))))"

text \<open>The values that \<open>upsert_skill\<close> inserts, and its \<open>ON CONFLICT(skill_id) DO UPDATE\<close>.\<close>

definition stored_skill :: "store_env \<Rightarrow> skill_entry \<Rightarrow> skill_entry" where
  "stored_skill env e =
     (let summary = (if sk_summary e \<noteq> [] then sk_summary e else take 80 (sk_describe e));
          summary_l2 = (if sk_summary_l2 e \<noteq> [] then sk_summary_l2 e else take 30 summary)
      in e\<lparr>sk_summary := summary, sk_summary_l2 := summary_l2,
           sk_risk_level := (if sk_risk_level e \<noteq> [] then sk_risk_level e else ''low''),
           sk_created_at := se_now env, sk_updated_at := se_now env\<rparr>)"

definition skill_conflict :: "skill_entry \<Rightarrow> skill_entry \<Rightarrow> skill_entry" where
  "skill_conflict new r =
     new\<lparr>sk_name := sk_name r, sk_version := sk_version r, sk_created_at := sk_created_at r\<rparr>"

definition insert_skill :: "string \<Rightarrow> skill_entry \<Rightarrow> (string \<times> skill_entry) list \<Rightarrow> (string \<times> skill_entry) list" where
  "insert_skill i new rows =
     (if i \<in> set (map fst rows)
      then map (\<lambda>(j, r). if j = i then (j, skill_conflict new r) else (j, r)) rows
      else rows @ [(i, new)])"

definition upsert_skill :: "store_env \<Rightarrow> skill_entry \<Rightarrow> skill_store \<Rightarrow> string \<times> skill_store" where
  "upsert_skill env e st =
     (let i = skill_key (sk_name e) (sk_version e); new = stored_skill env e
      in (i, embed_skill env i (sk_name e) (sk_summary new) (sk_summary_l2 new)
               (st\<lparr>ss_rows := insert_skill i new (ss_rows st)\<rparr>)))"

section \<open>Reading\<close>

definition skill_of_row :: "skill_entry \<Rightarrow> skill_entry" where
  "skill_of_row r = r\<lparr>sk_risk_level := (if sk_risk_level r \<noteq> [] then sk_risk_level r else ''low'')\<rparr>"

text \<open>\<open>ORDER BY created_at DESC, rowid DESC\<close>.\<close>

definition newest_first :: "skill_entry list \<Rightarrow> skill_entry list" where
  "newest_first rows = sort_desc sk_created_at (rev rows)"

definition first_of :: "'a list \<Rightarrow> 'a option" where
  "first_of xs = (case xs of [] \<Rightarrow> None | x # _ \<Rightarrow> Some x)"

definition skills_where :: "(skill_entry \<Rightarrow> bool) \<Rightarrow> skill_store \<Rightarrow> skill_entry list" where
  "skills_where P st = filter P (map snd (ss_rows st))"

definition get_skill :: "string \<Rightarrow> string \<Rightarrow> skill_store \<Rightarrow> skill_entry option" where
  "get_skill name version st =
     map_option skill_of_row
       (if version \<noteq> [] then dget (ss_rows st) (skill_key name version)
        else first_of (newest_first (skills_where (\<lambda>r. sk_name r = name) st)))"

definition resolve_bound_tool :: "string \<Rightarrow> skill_store \<Rightarrow> skill_entry option" where
  "resolve_bound_tool tool st =
     map_option skill_of_row (first_of (newest_first (skills_where (\<lambda>r. sk_bound_tool r = tool) st)))"

definition get_version_chain :: "string \<Rightarrow> skill_store \<Rightarrow> skill_entry list" where
  "get_version_chain name st = map skill_of_row (newest_first (skills_where (\<lambda>r. sk_name r = name) st))"

definition skill_stats :: "skill_store \<Rightarrow> nat \<times> nat \<times> nat" where
  "skill_stats st =
     (let rows = map snd (ss_rows st)
      in (length (remdups (map sk_name rows)), length rows,
          length (remdups (filter (\<lambda>t. t \<noteq> []) (map sk_bound_tool rows)))))"

section \<open>Search\<close>

text \<open>SQLite's \<open>LIKE\<close>: \<open>%\<close> stands for any text, \<open>_\<close> for any character, case does not matter.\<close>

fun like :: "string \<Rightarrow> string \<Rightarrow> bool" where
  "like [] s \<longleftrightarrow> s = []"
| "like (p # ps) [] \<longleftrightarrow> p = CHR 0x25 \<and> like ps []"
| "like (p # ps) (c # cs) \<longleftrightarrow>
     (if p = CHR 0x25 then like ps (c # cs) \<or> like (p # ps) cs
      else (p = CHR ''_'' \<or> lower_char p = lower_char c) \<and> like ps cs)"

definition containing :: "string \<Rightarrow> string" where
  "containing t = CHR 0x25 # t @ [CHR 0x25]"

text \<open>\<open>json.dumps\<close> of a list of texts.\<close>

definition hex_digit :: "nat \<Rightarrow> char" where
  "hex_digit n = char_of (if n < 10 then 48 + n else 87 + n)"

definition json_char :: "char \<Rightarrow> string" where
  "json_char c =
     (let n = (of_char c :: nat) in
      if n = 34 then [CHR 0x5C, CHR 0x22] else if n = 92 then [CHR 0x5C, CHR 0x5C]
      else if n = 10 then [CHR 0x5C, CHR ''n''] else if n = 13 then [CHR 0x5C, CHR ''r'']
      else if n = 9 then [CHR 0x5C, CHR ''t''] else if n = 12 then [CHR 0x5C, CHR ''f'']
      else if n = 8 then [CHR 0x5C, CHR ''b'']
      else if n < 32 then [CHR 0x5C, CHR ''u'', CHR ''0'', CHR ''0'', hex_digit (n div 16), hex_digit (n mod 16)]
      else [c])"

definition json_text :: "string \<Rightarrow> string" where
  "json_text s = [CHR 0x22] @ concat (map json_char s) @ [CHR 0x22]"

definition json_texts :: "string list \<Rightarrow> string" where
  "json_texts ts = ''['' @ join_with '', '' (map json_text ts) @ '']''"

definition skill_cone :: "string list \<Rightarrow> string \<Rightarrow> skill_entry \<Rightarrow> bool" where
  "skill_cone tags ceil r \<longleftrightarrow>
     risk_rank (sk_risk_level r) \<le> risk_rank ceil \<and>
     (tags = [] \<or> list_ex (\<lambda>t. like (containing ([CHR 0x22] @ t @ [CHR 0x22])) (json_texts (sk_tags r))) tags)"

definition skill_result_of :: "skill_entry \<Rightarrow> rat \<Rightarrow> skill_result" where
  "skill_result_of r score =
     \<lparr>kr_name = sk_name r, kr_score = score, kr_summary = sk_summary r, kr_summary_l2 = sk_summary_l2 r,
      kr_version = sk_version r, kr_bound_tool = sk_bound_tool r,
      kr_risk_level = (if sk_risk_level r \<noteq> [] then sk_risk_level r else ''low''), kr_tags = sk_tags r\<rparr>"

definition ranked_skills :: "int \<Rightarrow> (skill_entry \<times> rat) list \<Rightarrow> skill_result list" where
  "ranked_skills top_k scored =
     slice_to top_k (sort_desc kr_score (map (\<lambda>(r, score). skill_result_of r score) scored))"

text \<open>\<open>_keyword_search\<close>: the whole query must occur in a field, then its words are counted.\<close>

definition query_matches :: "string \<Rightarrow> skill_entry \<Rightarrow> bool" where
  "query_matches query r \<longleftrightarrow>
     like (containing query) (sk_describe r) \<or> like (containing query) (sk_summary r) \<or>
     like (containing query) (sk_name r)"

definition skill_score :: "string \<Rightarrow> skill_entry \<Rightarrow> rat" where
  "skill_score query r =
     (let t = lower (sk_describe r @ '' '' @ sk_summary r @ '' '' @ sk_name r); ws = split_ws (lower query)
      in of_nat (length (filter (\<lambda>w. is_substring w t) ws)) / of_nat (max (length ws) 1))"

definition skill_keyword_search :: "string \<Rightarrow> int \<Rightarrow> string list \<Rightarrow> string \<Rightarrow> skill_store \<Rightarrow> skill_result list" where
  "skill_keyword_search query top_k tags ceil st =
     ranked_skills top_k (map (\<lambda>r. (r, skill_score query r))
       (filter (\<lambda>r. 0 < skill_score query r)
         (skills_where (\<lambda>r. query_matches query r \<and> skill_cone tags ceil r) st)))"

definition skill_vec_rows :: "string \<Rightarrow> string list \<Rightarrow> string \<Rightarrow> skill_store \<Rightarrow> (skill_entry \<times> rat list) list" where
  "skill_vec_rows level tags ceil st =
     List.map_filter (\<lambda>((i, l), vec). if l = level then
         (case dget (ss_rows st) i of None \<Rightarrow> None | Some r \<Rightarrow> if skill_cone tags ceil r then Some (r, vec) else None)
       else None) (ss_vectors st)"

definition skill_json_search :: "store_env \<Rightarrow> rat list \<Rightarrow> int \<Rightarrow> rat \<Rightarrow> string list \<Rightarrow> string \<Rightarrow> string \<Rightarrow> skill_store \<Rightarrow>
    skill_result list" where
  "skill_json_search env query_vec top_k min_score tags ceil index_level st =
     (let level = (if index_level = ''l2'' then ''l2'' else ''l1''); rows = skill_vec_rows level tags ceil st;
          rows = (if rows = [] \<and> level = ''l2'' then skill_vec_rows ''l1'' tags ceil st else rows)
      in ranked_skills top_k (filter (\<lambda>(_, score). min_score \<le> score)
           (map (\<lambda>(r, vec). (r, se_similarity env query_vec vec)) rows)))"

definition skill_search_cone :: "store_env \<Rightarrow> string \<Rightarrow> int \<Rightarrow> rat \<Rightarrow> string list \<Rightarrow> string \<Rightarrow> string \<Rightarrow> skill_store \<Rightarrow>
    skill_result list" where
  "skill_search_cone env query top_k min_score tags ceil index_level st =
     (case (case se_embed env of None \<Rightarrow> None | Some emb \<Rightarrow> emb query) of
        None \<Rightarrow> skill_keyword_search query top_k tags ceil st
      | Some query_vec \<Rightarrow> skill_json_search env query_vec top_k min_score tags ceil index_level st)"

section \<open>Reading a skill document\<close>

text \<open>A document is a text or a mapping; \<open>str\<close> and \<open>json.dumps\<close> of other values than texts.\<close>

datatype skill_doc = Document string | Fields "(string, json) dict"

record py_text =
  py_str :: "json \<Rightarrow> string"
  py_dumps :: "json \<Rightarrow> string"

definition str_of :: "py_text \<Rightarrow> json \<Rightarrow> string" where
  "str_of py v = (case v of JStr s \<Rightarrow> s | _ \<Rightarrow> py_str py v)"

text \<open>\<open>str(v or "")\<close>.\<close>

definition str_or_empty :: "py_text \<Rightarrow> json option \<Rightarrow> string" where
  "str_or_empty py v = (case v of None \<Rightarrow> [] | Some v \<Rightarrow> if falsy v then [] else str_of py v)"

record parsed_skill =
  pk_name :: string
  pk_describe :: string
  pk_bound_tool :: string
  pk_version :: string
  pk_tags :: "string list"
  pk_risk_level :: string
  pk_content :: json

definition key_aliases :: "(string, string list) dict" where
  "key_aliases =
     [(''skill_name'', [''skill_name'', ''skill'', ''name'', ''title'']),
      (''describe'', [''describe'', ''description'', ''summary'']),
      (''bound_tool_name'', [''bound_tool'', ''tool'', ''tools'']),
      (''version'', [''version'', ''ver'']), (''tags'', [''tags'']),
      (''risk_level'', [''risk'', ''risk_level'']), (''content'', [''content'', ''body'', ''steps''])]"

definition lower_keys :: "(string, json) dict \<Rightarrow> (string, json) dict" where
  "lower_keys m = fold (\<lambda>(k, v). dset (lower (strip k)) v) m []"

definition pick :: "(string, json) dict \<Rightarrow> string \<Rightarrow> json option" where
  "pick m name =
     first_of (List.map_filter (\<lambda>a. case dget m a of None \<Rightarrow> None
         | Some v \<Rightarrow> if v = JNull \<or> v = JStr [] then None else Some v)
       (case dget key_aliases name of None \<Rightarrow> [] | Some as \<Rightarrow> as))"

definition strip_chars :: "string \<Rightarrow> string \<Rightarrow> string" where
  "strip_chars cs s = rev (dropWhile (\<lambda>c. c \<in> set cs) (rev (dropWhile (\<lambda>c. c \<in> set cs) s)))"

definition listed :: "string \<Rightarrow> string list" where
  "listed s = map strip (split_on CHR '','' (strip_chars ''[]'' (strip s)))"

definition picked_tool :: "json option \<Rightarrow> json option" where
  "picked_tool v =
     (case v of
        Some (JList xs) \<Rightarrow> first_of xs
      | Some (JStr s) \<Rightarrow> (if hd (listed s) = [] then None else Some (JStr (hd (listed s))))
      | _ \<Rightarrow> v)"

definition picked_tags :: "py_text \<Rightarrow> json option \<Rightarrow> string list" where
  "picked_tags py v =
     (case v of
        Some (JStr s) \<Rightarrow> filter (\<lambda>t. t \<noteq> []) (listed s)
      | Some (JList xs) \<Rightarrow> map (str_of py) xs
      | _ \<Rightarrow> [])"

definition picked_risk :: "json option \<Rightarrow> string" where
  "picked_risk v =
     (case v of
        Some (JStr r) \<Rightarrow> if r \<in> {''low'', ''medium'', ''high'', ''critical''} then r else ''low''
      | _ \<Rightarrow> ''low'')"

definition from_mapping :: "py_text \<Rightarrow> (string, json) dict \<Rightarrow> parsed_skill" where
  "from_mapping py mapping =
     (let m = lower_keys mapping
      in \<lparr>pk_name = strip (str_or_empty py (pick m ''skill_name'')),
          pk_describe = strip (str_or_empty py (pick m ''describe'')),
          pk_bound_tool = strip (str_or_empty py (picked_tool (pick m ''bound_tool_name''))),
          pk_version = strip (str_or_empty py (pick m ''version'')),
          pk_tags = picked_tags py (pick m ''tags''), pk_risk_level = picked_risk (pick m ''risk_level''),
          pk_content = JStr (str_or_empty py (pick m ''content''))\<rparr>)"

text \<open>
  \<open>^---\s*\n(.*?)\n---\<close>, the header between two fences: the line break that opens it is the last one of
  the blanks after the first fence for which a second fence follows; the header ends at the first one.
\<close>

fun fence :: "string \<Rightarrow> (string \<times> string) option" where
  "fence [] = None"
| "fence (c # cs) =
     (if starts_with (CHR 0x0A # ''---'') (c # cs) then Some ([], drop 3 cs)
      else (case fence cs of None \<Rightarrow> None | Some (block, rest) \<Rightarrow> Some (c # block, rest)))"

definition frontmatter :: "string \<Rightarrow> (string \<times> string) option" where
  "frontmatter t =
     (if \<not> starts_with ''---'' t then None
      else let rest = drop 3 t
           in first_of (List.map_filter (\<lambda>i. if rest ! i = CHR 0x0A then fence (drop (Suc i) rest) else None)
                (rev [0..<length (takeWhile is_space rest)])))"

text \<open>A line \<open>key: value\<close>; blank lines and lines that start with \<open>#\<close> are passed over.\<close>

definition key_line :: "string \<Rightarrow> (string \<times> string) option" where
  "key_line line =
     (let s = strip line in
      if s = [] \<or> hd s = CHR ''#'' \<or> CHR '':'' \<notin> set s then None
      else (let key = takeWhile (\<lambda>c. c \<noteq> CHR '':'') s
            in Some (lower (strip key), strip (drop (Suc (length key)) s))))"

definition parse_frontmatter :: "string \<Rightarrow> (string, json) dict" where
  "parse_frontmatter block =
     fold (\<lambda>(k, v). dset k (JStr v)) (List.map_filter key_line (splitlines block)) []"

text \<open>Without a header: the first line for each known key.\<close>

definition probe_lines :: "string \<Rightarrow> (string, json) dict" where
  "probe_lines t =
     fold (\<lambda>(k, v) m. if k \<in> set (concat (map snd key_aliases)) \<and> dget m k = None then dset k (JStr v) m else m)
       (List.map_filter key_line (splitlines t)) []"

definition first_heading :: "string \<Rightarrow> string" where
  "first_heading t =
     (case List.find (\<lambda>s. s \<noteq> [] \<and> hd s = CHR ''#'') (map strip (splitlines t)) of
        None \<Rightarrow> [] | Some s \<Rightarrow> strip (dropWhile (\<lambda>c. c = CHR ''#'') s))"

text \<open>\<open>_TOOL_MARKER_RE\<close>: \<open>tool: name\<close> at the start of the body or of a later line, in any case.\<close>

definition name_char :: "char \<Rightarrow> bool" where
  "name_char c \<longleftrightarrow> (let n = (of_char c :: nat) in
     (48 \<le> n \<and> n \<le> 57) \<or> (65 \<le> n \<and> n \<le> 90) \<or> (97 \<le> n \<and> n \<le> 122) \<or> n = 95 \<or> n = 46 \<or> n = 45)"

definition without_prefix :: "string \<Rightarrow> string \<Rightarrow> string" where
  "without_prefix p s = (if starts_with p (lower s) then drop (length p) s else s)"

definition marker_here :: "string \<Rightarrow> string option" where
  "marker_here s =
     (let s = without_prefix ''bound_'' (dropWhile is_space (without_prefix (replicate 3 (CHR 0x60)) (dropWhile is_space s)))
      in if \<not> starts_with ''tool'' (lower s) then None
         else (case dropWhile is_space (without_prefix ''s'' (drop 4 s)) of
                 [] \<Rightarrow> None
               | c # rest \<Rightarrow>
                   (let w = takeWhile name_char (dropWhile is_space rest)
                    in if (c = CHR '':'' \<or> c = CHR ''='') \<and> w \<noteq> [] then Some w else None)))"

fun later_marker :: "string \<Rightarrow> string option" where
  "later_marker [] = None"
| "later_marker (c # cs) =
     (case (if c = CHR 0x0A then marker_here cs else None) of Some w \<Rightarrow> Some w | None \<Rightarrow> later_marker cs)"

definition tool_marker :: "string \<Rightarrow> string option" where
  "tool_marker body = (case marker_here body of Some w \<Rightarrow> Some w | None \<Rightarrow> later_marker body)"

definition parse_document :: "py_text \<Rightarrow> string \<Rightarrow> parsed_skill" where
  "parse_document py doc =
     (let t = strip doc;
          (meta, body) = (case frontmatter t of
             Some (block, rest) \<Rightarrow> (parse_frontmatter block, strip rest)
           | None \<Rightarrow> (probe_lines t, t));
          p = (from_mapping py meta)\<lparr>pk_content := JStr t\<rparr>;
          p = (if pk_bound_tool p \<noteq> [] then p
               else case tool_marker body of None \<Rightarrow> p | Some w \<Rightarrow> p\<lparr>pk_bound_tool := w\<rparr>);
          base = (if first_heading t \<noteq> [] then first_heading t else pk_describe p)
      in if pk_name p \<noteq> [] then p
         else p\<lparr>pk_name := strip (take 20 (if base \<noteq> [] then base else ''untitled_skill''))\<rparr>)"

definition first_truthy :: "json option list \<Rightarrow> json \<Rightarrow> json" where
  "first_truthy vs dflt =
     (case first_of (List.map_filter (\<lambda>v. case v of Some x \<Rightarrow> if falsy x then None else Some x | None \<Rightarrow> None) vs) of
        None \<Rightarrow> dflt | Some v \<Rightarrow> v)"

definition parse_skill_doc :: "py_text \<Rightarrow> skill_doc \<Rightarrow> parsed_skill" where
  "parse_skill_doc py doc =
     (case doc of
        Document t \<Rightarrow> parse_document py t
      | Fields d \<Rightarrow>
          (let p = from_mapping py d; payload = filter (\<lambda>(k, v). k \<noteq> ''content'') d
           in if pk_content p \<noteq> JStr [] then p
              else p\<lparr>pk_content := first_truthy [dget payload ''steps'', dget payload ''body'']
                                    (JStr (py_dumps py (JObj payload)))\<rparr>))"

section \<open>Ingestion\<close>

text \<open>The entry a document becomes; a content that is not a text fails its validation.\<close>

definition skill_entry_of :: "store_env \<Rightarrow> py_text \<Rightarrow> skill_doc \<Rightarrow> string \<Rightarrow> store_error + skill_entry" where
  "skill_entry_of env py doc origin =
     (let p = parse_skill_doc py doc;
          version = resolve_initial_version (Some (pk_version p)) (Some (origin_value (normalize_origin (Some origin))));
          l1 = generate_l1 (se_llm env) (pk_name p) (pk_describe p)
      in case pk_content p of
           JStr c \<Rightarrow> Inr
             \<lparr>sk_name = pk_name p, sk_version = (if version \<noteq> [] then version else STABLE_INITIAL_VERSION),
              sk_parent = None, sk_bound_tool = pk_bound_tool p, sk_describe = pk_describe p, sk_summary = l1,
              sk_summary_l2 = generate_l2 (se_llm env) (pk_name p) l1, sk_content = c, sk_tags = pk_tags p,
              sk_risk_level = pk_risk_level p, sk_created_at = [], sk_updated_at = []\<rparr>
         | _ \<Rightarrow> Inl ValidationError)"

text \<open>\<open>SkillIngestor.ingest\<close>: the skill is stored, and the tool of an external one becomes external and stable.\<close>

definition skill_ingest :: "store_env \<Rightarrow> store_env \<Rightarrow> py_text \<Rightarrow> skill_doc \<Rightarrow> string \<Rightarrow> skill_store \<Rightarrow> tool_store option \<Rightarrow>
    (store_error + skill_entry) \<times> skill_store \<times> tool_store option" where
  "skill_ingest env tool_env py doc origin ss ts =
     (case skill_entry_of env py doc origin of
        Inl err \<Rightarrow> (Inl err, ss, ts)
      | Inr e \<Rightarrow>
          (Inr e, snd (upsert_skill env e ss),
           if sk_bound_tool e \<noteq> [] \<and> normalize_origin (Some origin) = External
           then map_option (snd \<circ> mark_external tool_env (sk_bound_tool e)) ts else ts))"

end
