(* ===== verification/SkillProps.thy ===== *)
theory SkillProps
  imports Skills
begin

text \<open>
  Properties of the skill store and of the ingestion of documents: the invariant of the tables, what an
  ingested document becomes and that it is found again, and that a search stays inside its cone; then
  what the code does in the cases its comments do not mention.
\<close>

section \<open>The invariant of the store\<close>

definition skill_row_ok :: "string \<times> skill_entry \<Rightarrow> bool" where
  "skill_row_ok p \<longleftrightarrow>
     (case p of (i, r) \<Rightarrow> i = skill_key (sk_name r) (sk_version r) \<and> CHR ''@'' \<notin> set (sk_version r) \<and>
        sk_risk_level r \<noteq> [] \<and> (sk_summary r = [] \<longrightarrow> sk_describe r = []))"

definition skill_inv :: "skill_store \<Rightarrow> bool" where
  "skill_inv st \<longleftrightarrow> distinct (map fst (ss_rows st)) \<and> list_all skill_row_ok (ss_rows st) \<and>
     wf_dict (ss_vectors st) \<and> (\<forall>p \<in> set (ss_vectors st). fst (fst p) \<in> set (map fst (ss_rows st)))"

lemma skill_key_inj:
  "skill_key n v = skill_key n' v' \<Longrightarrow> CHR ''@'' \<notin> set v \<Longrightarrow> CHR ''@'' \<notin> set v' \<Longrightarrow> n = n' \<and> v = v'"
  using last_separator [of n "CHR ''@''" v n' v'] by (simp add: skill_key_def)

lemma write_skill_vec_fields [observers, simp]: "ss_rows (write_skill_vec i level vec st) = ss_rows st"
  by (simp add: write_skill_vec_def)

lemma embed_skill_rows [observers, simp]: "ss_rows (embed_skill env i name l1 l2 st) = ss_rows st"
  by (simp add: embed_skill_def Let_def split: option.split)

lemma write_skill_vec_inv [preserved]:
  assumes "skill_inv st" "i \<in> set (map fst (ss_rows st))"
  shows "skill_inv (write_skill_vec i level vec st)"
proof -
  have "set (dset (i, level) vec (ss_vectors st)) = insert ((i, level), vec) {p \<in> set (ss_vectors st). fst p \<noteq> (i, level)}"
    using assms(1) by (intro set_dset) (simp add: skill_inv_def)
  with assms show ?thesis by (auto simp: skill_inv_def write_skill_vec_def simp del: fst_set_dset)
qed

lemma embed_skill_inv [preserved]:
  "skill_inv st \<Longrightarrow> i \<in> set (map fst (ss_rows st)) \<Longrightarrow> skill_inv (embed_skill env i name l1 l2 st)"
  by (simp add: embed_skill_def Let_def write_skill_vec_inv split: option.split)

lemma insert_skill_keys: "set (map fst (insert_skill i new rows)) = insert i (set (map fst rows))"
  by (force simp: insert_skill_def)

lemma replaced_keys: "map fst (map (\<lambda>(j, r). if j = i then (j, f r) else (j, r)) rows) = map fst rows"
  by (induction rows) auto

lemma insert_skill_distinct: "distinct (map fst rows) \<Longrightarrow> distinct (map fst (insert_skill i new rows))"
  by (cases "i \<in> set (map fst rows)") (simp_all only: insert_skill_def if_True if_False replaced_keys, simp)

lemma skill_inv_rows:
  "skill_inv st \<Longrightarrow> distinct (map fst rows) \<Longrightarrow> list_all skill_row_ok rows \<Longrightarrow>
     set (map fst (ss_rows st)) \<subseteq> set (map fst rows) \<Longrightarrow> skill_inv (st\<lparr>ss_rows := rows\<rparr>)"
  unfolding skill_inv_def by auto

lemma insert_skill_dget:
  "dget (insert_skill i new rows) k =
     (if k = i then Some (case dget rows i of None \<Rightarrow> new | Some r \<Rightarrow> skill_conflict new r) else dget rows k)"
proof (cases "i \<in> set (map fst rows)")
  case True
  then have "insert_skill i new rows = dmap (\<lambda>j r. if j = i then skill_conflict new r else r) rows"
    by (auto simp: insert_skill_def dmap_def)
  moreover obtain r where "dget rows i = Some r" using True by (cases "dget rows i") (auto simp: dget_None_iff)
  ultimately show ?thesis by (simp add: option.map_ident)
next
  case False
  then have "dget rows i = None" by (simp add: dget_None_iff)
  with False show ?thesis by (auto simp: insert_skill_def map_add_def split: option.split)
qed

lemma stored_skill_fields [observers, simp]:
  "sk_name (stored_skill env e) = sk_name e" "sk_version (stored_skill env e) = sk_version e"
  "sk_risk_level (stored_skill env e) \<noteq> []" "sk_describe (stored_skill env e) = sk_describe e"
  "sk_bound_tool (stored_skill env e) = sk_bound_tool e"
  "sk_summary (stored_skill env e) = [] \<Longrightarrow> sk_describe e = []"
  by (auto simp: stored_skill_def Let_def split: if_splits)

lemma upsert_skill_inv [preserved]:
  assumes inv: "skill_inv st" and v: "CHR ''@'' \<notin> set (sk_version e)"
  shows "skill_inv (snd (upsert_skill env e st))"
proof -
  let ?i = "skill_key (sk_name e) (sk_version e)" and ?new = "stored_skill env e"
  have ok: "skill_row_ok (j, skill_conflict ?new r)" if "skill_row_ok (j, r)" for j r
    using that v by (auto simp: skill_row_ok_def skill_conflict_def)
  have new: "skill_row_ok (?i, ?new)" using v by (auto simp: skill_row_ok_def)
  have rows: "list_all skill_row_ok (ss_rows st)" "distinct (map fst (ss_rows st))"
    using inv by (simp_all add: skill_inv_def)
  have "list_all skill_row_ok (insert_skill ?i ?new (ss_rows st))"
    using rows(1) ok new unfolding insert_skill_def list_all_iff by (auto split: if_splits)
  then have "skill_inv (st\<lparr>ss_rows := insert_skill ?i ?new (ss_rows st)\<rparr>)"
    by (intro skill_inv_rows [OF inv] insert_skill_distinct rows(2)) (auto simp only: insert_skill_keys)
  moreover have "?i \<in> set (map fst (insert_skill ?i ?new (ss_rows st)))" by (simp only: insert_skill_keys insertI1)
  ultimately have "skill_inv (embed_skill env ?i (sk_name e) (sk_summary ?new) (sk_summary_l2 ?new)
      (st\<lparr>ss_rows := insert_skill ?i ?new (ss_rows st)\<rparr>))"
    by (intro embed_skill_inv) simp_all
  then show ?thesis by (simp add: upsert_skill_def Let_def)
qed

lemma skill_inv_new: "skill_inv new_skill_store"
  by (simp add: skill_inv_def new_skill_store_def)

section \<open>What a document becomes\<close>

lemma picked_risk_known: "picked_risk v \<in> {''low'', ''medium'', ''high'', ''critical''}"
  by (simp add: picked_risk_def split: option.split json.split)

lemma parsed_risk: "pk_risk_level (parse_skill_doc py doc) \<in> {''low'', ''medium'', ''high'', ''critical''}"
  using picked_risk_known
  by (simp add: parse_skill_doc_def parse_document_def from_mapping_def Let_def split: skill_doc.split option.split)

lemma length_strip: "length (strip s) \<le> length s"
proof -
  have "length (strip s) \<le> length (dropWhile is_space s)"
    using length_dropWhile_le [of is_space "rev (dropWhile is_space s)"] by (simp add: strip_def)
  also have "\<dots> \<le> length s" by (rule length_dropWhile_le)
  finally show ?thesis .
qed

lemma summary_lengths: "length (generate_l1 None n d) \<le> 80" "length (generate_l2 None n s) \<le> 30"
  using length_strip [of "take 80 d"] length_strip [of "take 30 s"] by (simp_all add: generate_l1_def generate_l2_def)

text \<open>
  C23: The entry that a skill document becomes is well-formed, whatever the document: its version is a
  valid one, its risk level one of the four, and without an LLM its summaries keep to 80 and 30
  characters.
\<close>
theorem ingested_entry_typed:
  assumes "skill_entry_of env py doc origin = Inr e"
  shows "is_valid_semver (sk_version e) \<and> sk_risk_level e \<in> {''low'', ''medium'', ''high'', ''critical''} \<and>
    (se_llm env = None \<longrightarrow> length (sk_summary e) \<le> 80 \<and> length (sk_summary_l2 e) \<le> 30)"
proof -
  have v: "is_valid_semver (if x \<noteq> [] then x else STABLE_INITIAL_VERSION)" if "is_valid_semver x" for x
    using that valid_nonempty [OF that] by simp
  from assms parsed_risk [of py doc] show ?thesis
    by (auto simp: skill_entry_of_def Let_def v resolve_valid summary_lengths split: json.splits)
qed

lemma valid_version_clean: "is_valid_semver v \<Longrightarrow> CHR ''@'' \<notin> set v"
  using valid_version_chars [of v] by (auto simp: list_all_iff key_char_def)

text \<open>The store under upserts and ingestions.\<close>

datatype skill_op =
  UpsertSkill store_env skill_entry
| Ingest store_env py_text skill_doc string

fun skill_op_ok :: "skill_op \<Rightarrow> bool" where
  "skill_op_ok (UpsertSkill env e) \<longleftrightarrow> CHR ''@'' \<notin> set (sk_version e)"
| "skill_op_ok (Ingest env py doc origin) \<longleftrightarrow> True"

fun skill_step :: "skill_op \<Rightarrow> skill_store \<Rightarrow> skill_store" where
  "skill_step (UpsertSkill env e) st = snd (upsert_skill env e st)"
| "skill_step (Ingest env py doc origin) st = fst (snd (skill_ingest env env py doc origin st None))"

lemma ingest_store:
  "skill_ingest env tenv py doc origin ss ts = (Inr e, ss', ts') \<Longrightarrow>
     skill_entry_of env py doc origin = Inr e \<and> ss' = snd (upsert_skill env e ss)"
  by (auto simp: skill_ingest_def split: sum.splits)

lemma skill_step_inv: "skill_inv st \<Longrightarrow> skill_op_ok x \<Longrightarrow> skill_inv (skill_step x st)"
proof (cases x)
  case (Ingest env py doc origin)
  assume i: "skill_inv st"
  show ?thesis
  proof (cases "skill_entry_of env py doc origin")
    case (Inr e)
    have "CHR ''@'' \<notin> set (sk_version e)"
      by (rule valid_version_clean) (use ingested_entry_typed [OF Inr] in simp)
    with i Inr Ingest show ?thesis by (simp add: skill_ingest_def upsert_skill_inv)
  qed (use i Ingest in \<open>simp add: skill_ingest_def\<close>)
qed (simp add: upsert_skill_inv)

interpretation skl: invariant_system "\<lambda>s. s = new_skill_store" skill_step skill_op_ok skill_inv
  by unfold_locales (auto simp: skill_inv_new skill_step_inv)

lemma skills_consistent: "list_all skill_op_ok ops \<Longrightarrow> skill_inv (fold skill_step ops new_skill_store)"
  by (rule skl.inv_reachable [OF refl])

section \<open>An ingested skill is found again\<close>

text \<open>What the row of a skill is after an upsert: a row that exists keeps its time of creation.\<close>

definition row_after :: "store_env \<Rightarrow> skill_entry \<Rightarrow> skill_entry option \<Rightarrow> skill_entry" where
  "row_after env e old =
     (case old of None \<Rightarrow> stored_skill env e
      | Some r \<Rightarrow> (stored_skill env e)\<lparr>sk_created_at := sk_created_at r\<rparr>)"

lemma dget_row_ok: "skill_inv st \<Longrightarrow> dget (ss_rows st) i = Some r \<Longrightarrow> skill_row_ok (i, r)"
  using map_of_SomeD by (fastforce simp: skill_inv_def list_all_iff)

lemma upsert_skill_dget:
  assumes "skill_inv st" "CHR ''@'' \<notin> set (sk_version e)"
  shows "dget (ss_rows (snd (upsert_skill env e st))) k =
    (if k = skill_key (sk_name e) (sk_version e) then Some (row_after env e (dget (ss_rows st) k)) else dget (ss_rows st) k)"
proof -
  let ?i = "skill_key (sk_name e) (sk_version e)"
  have "skill_conflict (stored_skill env e) r = (stored_skill env e)\<lparr>sk_created_at := sk_created_at r\<rparr>"
    if "dget (ss_rows st) ?i = Some r" for r
  proof -
    from dget_row_ok [OF assms(1) that] assms(2) have "sk_name r = sk_name e \<and> sk_version r = sk_version e"
      using skill_key_inj [of "sk_name e" "sk_version e" "sk_name r" "sk_version r"] by (simp add: skill_row_ok_def)
    then show ?thesis
      using stored_skill_fields(1,2) [of env e] by (cases "stored_skill env e") (simp add: skill_conflict_def)
  qed
  then show ?thesis by (auto simp: upsert_skill_def Let_def insert_skill_dget row_after_def split: option.split)
qed

text \<open>
  C22: An ingested document can be read back under its name and version, with everything that was parsed
  from it; ingesting it again replaces it in place and keeps the time of its creation. No other version
  of a skill is touched, and the store stays consistent.
\<close>
theorem ingested_skill_found:
  assumes "skill_inv ss" "skill_ingest env tenv py doc origin ss ts = (Inr e, ss', ts')"
  shows "skill_inv ss' \<and>
    get_skill (sk_name e) (sk_version e) ss' =
      Some (row_after env e (dget (ss_rows ss) (skill_key (sk_name e) (sk_version e)))) \<and>
    (\<forall>n v. v \<noteq> [] \<and> skill_key n v \<noteq> skill_key (sk_name e) (sk_version e) \<longrightarrow> get_skill n v ss' = get_skill n v ss)"
proof -
  from ingest_store [OF assms(2)] have e: "skill_entry_of env py doc origin = Inr e"
    and ss': "ss' = snd (upsert_skill env e ss)" by blast+
  from ingested_entry_typed [OF e] have "is_valid_semver (sk_version e)" by blast
  then have v: "sk_version e \<noteq> []" "CHR ''@'' \<notin> set (sk_version e)"
    using valid_nonempty valid_version_clean by blast+
  have risk: "sk_risk_level (row_after env e old) \<noteq> []" for old
    by (simp add: row_after_def split: option.split)
  have same: "skill_of_row r = r" if "sk_risk_level r \<noteq> []" for r
    using that by (cases r) (simp add: skill_of_row_def)
  note U = upsert_skill_dget [OF assms(1) v(2), of env]
  have "get_skill n v' ss' = get_skill n v' ss"
    if "v' \<noteq> []" "skill_key n v' \<noteq> skill_key (sk_name e) (sk_version e)" for n v'
    using that by (simp add: get_skill_def ss' U)
  moreover have "get_skill (sk_name e) (sk_version e) ss' =
      Some (row_after env e (dget (ss_rows ss) (skill_key (sk_name e) (sk_version e))))"
    using v(1) by (simp add: get_skill_def ss' U same [OF risk])
  moreover have "skill_inv ss'" unfolding ss' by (rule upsert_skill_inv [OF assms(1) v(2)])
  ultimately show ?thesis by blast
qed

lemma newest_first_mem [simp]: "set (newest_first rows) = set rows"
  by (simp add: newest_first_def)

text \<open>A tool that an ingested skill is bound to counts as bound when a call path is resolved.\<close>

lemma ingested_tool_bound:
  assumes "skill_inv ss" "skill_ingest env tenv py doc origin ss ts = (Inr e, ss', ts')"
  shows "resolve_bound_tool (sk_bound_tool e) ss' \<noteq> None"
proof -
  let ?i = "skill_key (sk_name e) (sk_version e)"
  from ingest_store [OF assms(2)] have e: "skill_entry_of env py doc origin = Inr e"
    and ss': "ss' = snd (upsert_skill env e ss)" by blast+
  have "CHR ''@'' \<notin> set (sk_version e)" using ingested_entry_typed [OF e] valid_version_clean by blast
  then have "dget (ss_rows ss') ?i = Some (row_after env e (dget (ss_rows ss) ?i))"
    by (simp add: ss' upsert_skill_dget [OF assms(1)])
  then have "(?i, row_after env e (dget (ss_rows ss) ?i)) \<in> set (ss_rows ss')" by (rule map_of_SomeD)
  moreover have "sk_bound_tool (row_after env e old) = sk_bound_tool e" for old
    by (simp add: row_after_def split: option.split)
  ultimately have "skills_where (\<lambda>r. sk_bound_tool r = sk_bound_tool e) ss' \<noteq> []"
    by (force simp: skills_where_def filter_empty_conv)
  then have "newest_first (skills_where (\<lambda>r. sk_bound_tool r = sk_bound_tool e) ss') \<noteq> []"
    by (metis newest_first_mem set_empty)
  then show ?thesis unfolding resolve_bound_tool_def by (simp add: first_of_def split: list.split)
qed

section \<open>Searches stay inside their cone\<close>

lemma skill_vec_rows_mem:
  "(r, v) \<in> set (skill_vec_rows level tags ceil st) \<Longrightarrow> r \<in> snd ` set (ss_rows st) \<and> skill_cone tags ceil r"
  unfolding skill_vec_rows_def List.map_filter_def
  by (auto split: if_splits option.splits dest!: map_of_SomeD) force

text \<open>
  A search, by vectors or by keywords, returns at most \<open>top_k\<close> results in order of descending score, each
  for a row of the store whose risk is not above the ceiling and whose tags match one of those asked for.
\<close>
theorem skill_search_sound:
  assumes "0 \<le> top_k" "rs = skill_search_cone env query top_k min_score tags ceil level st"
  shows "int (length rs) \<le> top_k \<and> sorted_wrt (\<lambda>a b. kr_score b \<le> kr_score a) rs \<and>
    (\<forall>res \<in> set rs. \<exists>r score. r \<in> snd ` set (ss_rows st) \<and> skill_cone tags ceil r \<and> res = skill_result_of r score)"
proof -
  obtain scored where rs: "rs = ranked_skills top_k scored"
    and ok: "\<forall>(r, x) \<in> set scored. r \<in> snd ` set (ss_rows st) \<and> skill_cone tags ceil r"
  proof (cases "case se_embed env of None \<Rightarrow> None | Some emb \<Rightarrow> emb query")
    case None
    show ?thesis
      by (rule that [OF assms(2) [unfolded skill_search_cone_def None option.case skill_keyword_search_def]])
        (auto simp: skills_where_def)
  next
    case (Some qv)
    show ?thesis
      by (rule that [OF assms(2) [unfolded skill_search_cone_def Some option.case skill_json_search_def Let_def]])
        (auto dest: skill_vec_rows_mem split: if_splits)
  qed
  let ?xs = "map (\<lambda>(r, score). skill_result_of r score) scored"
  have rs': "rs = slice_to top_k (sort_desc kr_score ?xs)" by (simp add: rs ranked_skills_def)
  have "int (length rs) \<le> top_k"
    using length_slice_to [OF assms(1)] assms(1) unfolding rs' by (simp add: le_nat_iff)
  moreover have "sorted_wrt (\<lambda>a b. kr_score b \<le> kr_score a) rs"
    unfolding rs' by (intro slice_sorted sort_desc_sorted)
  moreover have "\<exists>r score. r \<in> snd ` set (ss_rows st) \<and> skill_cone tags ceil r \<and> res = skill_result_of r score"
    if "res \<in> set rs" for res
  proof -
    from that set_slice_to [of top_k "sort_desc kr_score ?xs"] have "res \<in> set ?xs" unfolding rs' by auto
    then obtain a b where "(a, b) \<in> set scored" "res = skill_result_of a b" by auto
    with ok show ?thesis by blast
  qed
  ultimately show ?thesis by blast
qed

section \<open>Examples and what they show\<close>

definition skill_env :: "string \<Rightarrow> store_env" where
  "skill_env now = \<lparr>se_now = now, se_embed = None, se_similarity = (\<lambda>_ _. 0), se_llm = None\<rparr>"

definition demo_py :: py_text where
  "demo_py = \<lparr>py_str = (\<lambda>_. []), py_dumps = (\<lambda>_. ''{}'')\<rparr>"

definition newline :: string where "newline = [CHR 0x0A]"

definition demo_doc :: skill_doc where
  "demo_doc = Document (''---'' @ newline @ ''skill: report'' @ newline @ ''describe: mail a report'' @ newline @
     ''tools: [send_mail, zip]'' @ newline @ ''risk: high'' @ newline @ ''---'' @ newline @ ''1. collect'')"

definition ingested :: "string \<Rightarrow> skill_doc \<Rightarrow> skill_store \<Rightarrow> skill_store" where
  "ingested now doc ss = fst (snd (skill_ingest (skill_env now) (skill_env now) demo_py doc ''external'' ss None))"

lemma demo_doc_parsed:
  "let p = parse_skill_doc demo_py demo_doc
   in pk_name p = ''report'' \<and> pk_describe p = ''mail a report'' \<and> pk_bound_tool p = ''send_mail'' \<and> pk_risk_level p = ''high''"
  by code_simp

theorem ingested_entry_typed_witness:
  "let e = projr (skill_entry_of (skill_env ''1'') demo_py demo_doc ''external'')
   in sk_version e = ''1.0.0'' \<and> is_valid_semver (sk_version e) \<and> length (sk_summary e) \<le> 80"
proof -
  let ?s = "skill_entry_of (skill_env ''1'') demo_py demo_doc ''external''"
  have s: "?s = Inr (projr ?s)" by code_simp
  have "se_llm (skill_env ''1'') = None" by (simp add: skill_env_def)
  with ingested_entry_typed [OF s] have "is_valid_semver (sk_version (projr ?s))" "length (sk_summary (projr ?s)) \<le> 80" by blast+
  moreover have "sk_version (projr ?s) = ''1.0.0''" by code_simp
  ultimately show ?thesis by (simp add: Let_def)
qed

theorem ingested_skill_found_witness:
  "let e = projr (skill_entry_of (skill_env ''1'') demo_py demo_doc ''external'');
       ss = ingested ''1'' demo_doc new_skill_store
   in get_skill ''report'' ''1.0.0'' ss = Some (stored_skill (skill_env ''1'') e) \<and> skill_inv ss"
proof -
  let ?e = "projr (skill_entry_of (skill_env ''1'') demo_py demo_doc ''external'')"
  let ?i = "skill_ingest (skill_env ''1'') (skill_env ''1'') demo_py demo_doc ''external'' new_skill_store None"
  have "skill_entry_of (skill_env ''1'') demo_py demo_doc ''external'' = Inr ?e" by code_simp
  then obtain e where e: "skill_entry_of (skill_env ''1'') demo_py demo_doc ''external'' = Inr e" "?e = e"
    by (cases "skill_entry_of (skill_env ''1'') demo_py demo_doc ''external''") auto
  have i: "?i = (Inr e, ingested ''1'' demo_doc new_skill_store, None)" by (simp add: ingested_def skill_ingest_def e(1))
  have "sk_name ?e = ''report''" "sk_version ?e = ''1.0.0''" by code_simp+
  with ingested_skill_found [OF skill_inv_new i] e(2) show ?thesis
    by (simp add: Let_def new_skill_store_def row_after_def)
qed

text \<open>A risk level in another letter case is dropped: the skill counts as harmless.\<close>

lemma declared_risk_dropped:
  "pk_risk_level (parse_skill_doc demo_py (Document (''name: wipe'' @ newline @ ''risk: High''))) = ''low''"
  by code_simp

text \<open>The keyword search wants the whole query in a field, so that its count of words decides nothing.\<close>

lemma keyword_needs_whole_query:
  "let ss = ingested ''1'' demo_doc new_skill_store
   in skill_search_cone (skill_env ''2'') ''mail report'' 5 0 [] ''critical'' ''l1'' ss = [] \<and>
      length (skill_search_cone (skill_env ''2'') ''mail'' 5 0 [] ''critical'' ''l1'' ss) = 1"
  by code_simp

text \<open>The version ingested last is the latest one, whatever its number.\<close>

lemma later_ingest_is_latest:
  "let v = (\<lambda>n. Document (''name: report'' @ newline @ ''version: '' @ n));
       ss = ingested ''2'' (v ''1.1.0'') (ingested ''1'' (v ''2.0.0'') new_skill_store)
   in map_option sk_version (get_skill ''report'' [] ss) = Some ''1.1.0''"
  by code_simp

text \<open>A search lists every version of a skill, not the latest one only.\<close>

lemma search_lists_every_version:
  "let v = (\<lambda>n. Document (''name: report'' @ newline @ ''version: '' @ n));
       ss = ingested ''2'' (v ''2.0.0'') (ingested ''1'' (v ''1.0.0'') new_skill_store)
   in map kr_version (skill_search_cone (skill_env ''3'') ''report'' 5 0 [] ''critical'' ''l1'' ss) = [''1.0.0'', ''2.0.0'']"
  by code_simp

text \<open>An underscore in a tag stands for any character.\<close>

lemma tag_underscore_matches:
  "skill_cone [''a_b''] ''critical'' (stored_skill (skill_env ''1'')
     \<lparr>sk_name = ''s'', sk_version = ''1.0.0'', sk_parent = None, sk_bound_tool = [], sk_describe = [], sk_summary = [],
      sk_summary_l2 = [], sk_content = [], sk_tags = [''axb''], sk_risk_level = ''low'', sk_created_at = [], sk_updated_at = []\<rparr>)"
  by code_simp

text \<open>A mapping without a name is filed under the empty name; only a text gets a substitute.\<close>

lemma nameless_mapping:
  "pk_name (parse_skill_doc demo_py (Fields [(''describe'', JStr ''d'')])) = [] \<and>
   pk_name (parse_skill_doc demo_py (Document ''describe: d'')) = ''d''"
  by code_simp

end
