(* ===== verification/Planner.thy ===== *)
theory Planner
  imports PlanExec ToolStore "HOL-Library.Product_Lexorder"
begin

text \<open>
  \<open>youmi/coordinator/plan_memory.py\<close>, the plans kept for reuse, and \<open>coordinator/planner.py\<close>, which
  makes a workflow plan for a task: from a stored plan whose task is similar, or by asking the LLM.
  The LLM, the embedding client, the cosine similarity (irrational), MD5, \<open>json.loads\<close> and the clock are
  arguments; error texts are constructors that name what raised. Plans are stored as values instead of
  their JSON texts, and a table is a list of rows in the order of their \<open>rowid\<close>, which also orders
  rows of the same time. The vectors are those of the fallback table \<open>plan_vectors\<close>; the KNN index of the
  sqlite-vec extension is not modelled.
\<close>

section \<open>The plan memory\<close>

record plan_row =
  pr_plan_id :: string
  pr_fingerprint :: string
  pr_task_text :: string
  pr_plan :: workflow_plan
  pr_success :: bool
  pr_exec_count :: nat
  pr_created_at :: string
  pr_updated_at :: string

record plan_memory =
  pm_rows :: "plan_row list"
  pm_vectors :: "(string, rat list) dict"
  pm_threshold :: rat

definition new_plan_memory :: "rat \<Rightarrow> plan_memory" where
  "new_plan_memory threshold = \<lparr>pm_rows = [], pm_vectors = [], pm_threshold = threshold\<rparr>"

record memory_env =
  me_now :: string
  me_fresh_id :: string
  me_md5 :: "string \<Rightarrow> string"
  me_embed :: "(string \<Rightarrow> rat list option) option"
  me_similarity :: "rat list \<Rightarrow> rat list \<Rightarrow> rat"

definition task_fingerprint :: "memory_env \<Rightarrow> string \<Rightarrow> string" where
  "task_fingerprint env task = me_md5 env (strip task)"

text \<open>\<open>_keyword_score\<close> on ASCII texts, whose characters are not split.\<close>

definition keyword_score :: "string \<Rightarrow> string \<Rightarrow> rat" where
  "keyword_score t query =
     (let text_tokens = remdups (split_ws (lower t)); query_tokens = remdups (split_ws (lower query)) in
      if query_tokens = [] then 0
      else of_nat (length (filter (\<lambda>w. w \<in> set query_tokens) text_tokens)) / of_nat (length query_tokens))"

section \<open>Saving\<close>

definition save_row :: "memory_env \<Rightarrow> string \<Rightarrow> workflow_plan \<Rightarrow> bool \<Rightarrow> plan_memory \<Rightarrow> (string \<times> plan_memory) option" where
  "save_row env task p success m =
     (let fp = task_fingerprint env task in
      case List.find (\<lambda>r. pr_fingerprint r = fp) (pm_rows m) of
        Some row \<Rightarrow>
          Some (pr_plan_id row, m\<lparr>pm_rows := map (\<lambda>r. if pr_plan_id r = pr_plan_id row
            then r\<lparr>pr_exec_count := pr_exec_count row + 1, pr_success := success, pr_plan := p,
                   pr_updated_at := me_now env\<rparr> else r) (pm_rows m)\<rparr>)
      | None \<Rightarrow>
          if me_fresh_id env \<in> set (map pr_plan_id (pm_rows m)) then None
          else Some (me_fresh_id env, m\<lparr>pm_rows := pm_rows m @ [\<lparr>pr_plan_id = me_fresh_id env, pr_fingerprint = fp,
            pr_task_text = take 2000 task, pr_plan = p, pr_success = success, pr_exec_count = 1,
            pr_created_at = me_now env, pr_updated_at = me_now env\<rparr>]\<rparr>))"

definition save_vector :: "string \<Rightarrow> rat list \<Rightarrow> plan_memory \<Rightarrow> plan_memory" where
  "save_vector pid vec m = m\<lparr>pm_vectors := dset pid vec (pm_vectors m)\<rparr>"

text \<open>\<open>save_plan\<close>; \<open>None\<close>: the fresh id exists already and the insertion raises.\<close>

definition save_plan :: "memory_env \<Rightarrow> string \<Rightarrow> workflow_plan \<Rightarrow> bool \<Rightarrow> plan_memory \<Rightarrow> (string \<times> plan_memory) option" where
  "save_plan env task p success m =
     (case save_row env task p success m of
        None \<Rightarrow> None
      | Some (pid, m) \<Rightarrow>
          Some (pid, case me_embed env of None \<Rightarrow> m
                 | Some emb \<Rightarrow> (case emb task of None \<Rightarrow> m | Some vec \<Rightarrow> save_vector pid vec m)))"

section \<open>Searching\<close>

text \<open>\<open>WHERE success = 1 ORDER BY updated_at DESC LIMIT n\<close>.\<close>

definition recent_rows :: "nat \<Rightarrow> plan_row list \<Rightarrow> plan_row list" where
  "recent_rows n rows = take n (sort_desc pr_updated_at (filter pr_success rows))"

definition ranked_plans :: "int \<Rightarrow> plan_memory \<Rightarrow> (plan_row \<times> rat) list \<Rightarrow> (workflow_plan \<times> rat) list" where
  "ranked_plans top_k m scored =
     slice_to top_k (sort_desc snd (map (\<lambda>(r, sim). (pr_plan r, sim))
       (filter (\<lambda>(r, sim). pm_threshold m \<le> sim) scored)))"

definition search_by_keyword :: "string \<Rightarrow> int \<Rightarrow> plan_memory \<Rightarrow> (workflow_plan \<times> rat) list" where
  "search_by_keyword task top_k m =
     ranked_plans top_k m (map (\<lambda>r. (r, keyword_score (pr_task_text r) task)) (recent_rows 100 (pm_rows m)))"

definition search_by_vector :: "memory_env \<Rightarrow> rat list \<Rightarrow> int \<Rightarrow> plan_memory \<Rightarrow> (workflow_plan \<times> rat) list" where
  "search_by_vector env query_vec top_k m =
     ranked_plans top_k m (List.map_filter (\<lambda>r. case dget (pm_vectors m) (pr_plan_id r) of
         None \<Rightarrow> None | Some vec \<Rightarrow> Some (r, me_similarity env query_vec vec))
       (recent_rows 200 (filter (\<lambda>r. dget (pm_vectors m) (pr_plan_id r) \<noteq> None) (pm_rows m))))"

definition search_plan :: "memory_env \<Rightarrow> string \<Rightarrow> int \<Rightarrow> plan_memory \<Rightarrow> (workflow_plan \<times> rat) list" where
  "search_plan env task top_k m =
     (case (case me_embed env of None \<Rightarrow> None | Some emb \<Rightarrow> emb task) of
        None \<Rightarrow> search_by_keyword task top_k m
      | Some vec \<Rightarrow> search_by_vector env vec top_k m)"

definition memory_stats :: "plan_memory \<Rightarrow> nat \<times> nat \<times> nat" where
  "memory_stats m = (length (pm_rows m), length (filter pr_success (pm_rows m)), length (pm_vectors m))"

section \<open>Reading a plan\<close>

text \<open>\<open>```(?:json)?\s*([\s\S]*?)```\<close>: what stands between the first two marks, without a leading \<open>json\<close>.\<close>

definition ticks :: string where "ticks = replicate 3 (CHR 0x60)"

fun until_ticks :: "string \<Rightarrow> (string \<times> string) option" where
  "until_ticks [] = None"
| "until_ticks (c # cs) =
     (if starts_with ticks (c # cs) then Some ([], drop 2 cs)
      else (case until_ticks cs of None \<Rightarrow> None | Some (a, b) \<Rightarrow> Some (c # a, b)))"

definition fenced :: "string \<Rightarrow> string option" where
  "fenced t =
     (case until_ticks t of
        None \<Rightarrow> None
      | Some (_, rest) \<Rightarrow> (case until_ticks (if starts_with ''json'' rest then drop 4 rest else rest) of
                          None \<Rightarrow> None | Some (inner, _) \<Rightarrow> Some (strip inner)))"

definition clean_response :: "string \<Rightarrow> string" where
  "clean_response t = (case fenced (strip t) of None \<Rightarrow> strip t | Some inner \<Rightarrow> inner)"

definition required :: "(string, json) dict \<Rightarrow> string \<Rightarrow> (json \<Rightarrow> 'a option) \<Rightarrow> 'a option" where
  "required d key f = (case dget d key of None \<Rightarrow> None | Some v \<Rightarrow> f v)"

fun num_value :: "json \<Rightarrow> rat option" where
  "num_value (JNum q) = Some q"
| "num_value _ = None"

fun int_value :: "json \<Rightarrow> int option" where
  "int_value (JNum q) = (if of_int \<lfloor>q\<rfloor> = q then Some \<lfloor>q\<rfloor> else None)"
| "int_value _ = None"

fun obj_value :: "json \<Rightarrow> (string, json) dict option" where
  "obj_value (JObj d) = Some d"
| "obj_value _ = None"

text \<open>
  The validation of a step and of a plan: the required fields, the defaults of the others, a value of
  another type is refused. (Pydantic also converts some texts to numbers.)
\<close>

fun step_of_json :: "json \<Rightarrow> workflow_step option" where
  "step_of_json (JObj d) =
     (case (required d ''step_id'' str_value, required d ''role'' str_value, required d ''task'' str_value,
            field d ''name'' [] str_value, field d ''system_prompt'' [] str_value,
            field d ''allowed_tools'' None (\<lambda>v. if v = JNull then Some None else map_option Some (strs_value v)),
            field d ''depends_on'' [] strs_value, field d ''env'' [] str_value,
            field d ''config_overrides'' [] obj_value, field d ''max_iterations'' 20 int_value,
            field d ''timeout_seconds'' 0 num_value, field d ''retry_count'' 2 int_value,
            field d ''retry_backoff'' 2 num_value) of
        (Some i, Some role, Some task, Some name, Some prompt, Some tools, Some deps, Some env, Some over, Some iters,
         Some timeout, Some retries, Some backoff) \<Rightarrow>
          Some \<lparr>ws_step_id = i, ws_role = role, ws_task = task, ws_name = name, ws_system_prompt = prompt,
            ws_allowed_tools = tools, ws_depends_on = deps, ws_env = env, ws_config_overrides = over,
            ws_max_iterations = iters, ws_timeout_seconds = timeout, ws_retry_count = retries, ws_retry_backoff = backoff\<rparr>
      | _ \<Rightarrow> None)"
| "step_of_json _ = None"

fun plan_of_json :: "json \<Rightarrow> workflow_plan option" where
  "plan_of_json (JObj d) =
     (case (field d ''name'' ''workflow'' str_value,
            field d ''steps'' [] (\<lambda>v. case v of JList xs \<Rightarrow> those (map step_of_json xs) | _ \<Rightarrow> None),
            field d ''description'' [] str_value, field d ''metadata'' [] obj_value) of
        (Some name, Some steps, Some desc, Some meta) \<Rightarrow>
          Some \<lparr>wp_name = name, wp_steps = steps, wp_description = desc, wp_metadata = meta\<rparr>
      | _ \<Rightarrow> None)"
| "plan_of_json _ = None"

section \<open>The planner\<close>

datatype planner_error =
  NoClient
| NoJson
| NotAPlan
| NotValid "plan_error list"
| LlmRaised string
| NoValidPlan nat "planner_error option"

text \<open>The prompts: a plan for a task, with the failure fed back; a template with a new task.\<close>

datatype planner_prompt =
  PlanPrompt string "planner_error option"
| AdaptPrompt workflow_plan string

record planner =
  pl_complete :: "(planner_prompt \<Rightarrow> nat \<Rightarrow> string + string) option"
  pl_loads :: "string \<Rightarrow> json option"
  pl_max_retries :: int

definition parse_plan_json :: "planner \<Rightarrow> string \<Rightarrow> planner_error + workflow_plan" where
  "parse_plan_json pl t =
     (case pl_loads pl (clean_response t) of
        None \<Rightarrow> Inl NoJson
      | Some j \<Rightarrow> (case plan_of_json j of None \<Rightarrow> Inl NotAPlan | Some p \<Rightarrow> Inr p))"

definition ask :: "planner \<Rightarrow> (planner_prompt \<Rightarrow> nat \<Rightarrow> string + string) \<Rightarrow> planner_prompt \<Rightarrow> nat \<Rightarrow>
    planner_error + workflow_plan" where
  "ask pl chat prompt k =
     (case chat prompt k of Inl exc \<Rightarrow> Inl (LlmRaised exc) | Inr t \<Rightarrow> parse_plan_json pl t)"

text \<open>
  The loop of \<open>_plan_from_llm\<close>, with \<open>left\<close> attempts to go; \<open>validate\<close> always answers
  (\<open>validate_total\<close>), so its \<open>None\<close> is not reached.
\<close>

definition attempt_plan :: "planner \<Rightarrow> (planner_prompt \<Rightarrow> nat \<Rightarrow> string + string) \<Rightarrow> string \<Rightarrow> nat \<Rightarrow>
    planner_error option \<Rightarrow> planner_error + workflow_plan" where
  "attempt_plan pl chat task k last_error =
     (case ask pl chat (PlanPrompt task (if 0 < k \<and> last_error \<noteq> Some (LlmRaised []) then last_error else None)) k of
        Inl err \<Rightarrow> Inl err
      | Inr p \<Rightarrow> (case validate p of
                   None \<Rightarrow> Inl (NotValid [])
                 | Some errors \<Rightarrow> if errors = [] then Inr p else Inl (NotValid errors)))"

fun plan_attempts :: "planner \<Rightarrow> (planner_prompt \<Rightarrow> nat \<Rightarrow> string + string) \<Rightarrow> string \<Rightarrow> nat \<Rightarrow> nat \<Rightarrow>
    planner_error option \<Rightarrow> planner_error + workflow_plan" where
  "plan_attempts pl chat task k 0 last_error = Inl (NoValidPlan k last_error)"
| "plan_attempts pl chat task k (Suc left) last_error =
     (case attempt_plan pl chat task k last_error of
        Inr p \<Rightarrow> Inr p
      | Inl err \<Rightarrow> plan_attempts pl chat task (Suc k) left (Some err))"

definition plan_from_llm :: "planner \<Rightarrow> string \<Rightarrow> planner_error + workflow_plan" where
  "plan_from_llm pl task =
     (case pl_complete pl of
        None \<Rightarrow> Inl NoClient
      | Some chat \<Rightarrow> plan_attempts pl chat task 0 (nat (pl_max_retries pl + 1)) None)"

text \<open>The steps keep everything but their task, which is cut to 500 characters.\<close>

definition with_task :: "workflow_step \<Rightarrow> string \<Rightarrow> workflow_step" where
  "with_task s t = s\<lparr>ws_task := take 500 t\<rparr>"

definition adapted_task :: "workflow_plan \<Rightarrow> nat \<Rightarrow> workflow_step \<Rightarrow> string" where
  "adapted_task adapted i s =
     (if i < length (wp_steps adapted) \<and> ws_task (wp_steps adapted ! i) \<noteq> []
      then ws_task (wp_steps adapted ! i) else ws_task s)"

definition apply_plan_template :: "planner \<Rightarrow> workflow_plan \<Rightarrow> string \<Rightarrow> planner_error + workflow_plan" where
  "apply_plan_template pl template task =
     (case pl_complete pl of
        None \<Rightarrow> Inr (template\<lparr>wp_steps :=
          (case wp_steps template of [] \<Rightarrow> [] | s # ss \<Rightarrow> with_task s task # ss)\<rparr>)
      | Some chat \<Rightarrow>
          (case ask pl chat (AdaptPrompt template task) 0 of
             Inl err \<Rightarrow> Inl err
           | Inr adapted \<Rightarrow> Inr (template\<lparr>wp_steps :=
               map (\<lambda>(i, s). with_task s (adapted_task adapted i s)) (enumerate 0 (wp_steps template))\<rparr>)))"

definition skeleton_signature :: "workflow_plan \<Rightarrow> (string \<times> string \<times> string list) list" where
  "skeleton_signature p = sort (map (\<lambda>s. (ws_step_id s, ws_role s, sort (ws_depends_on s))) (wp_steps p))"

definition skeleton_json :: "(string \<times> string \<times> string list) list \<Rightarrow> json" where
  "skeleton_json sig = JList (map (\<lambda>(i, role, deps). JList [JStr i, JStr role, JList (map JStr deps)]) sig)"

definition from_memory :: "workflow_plan \<Rightarrow> rat \<Rightarrow> string \<Rightarrow> workflow_plan \<Rightarrow> workflow_plan" where
  "from_memory template similarity task p =
     p\<lparr>wp_metadata := dmerge (wp_metadata p) [(''source'', JStr ''memory''), (''task'', JStr task),
         (''template_similarity'', JNum similarity),
         (''template_skeleton'', skeleton_json (skeleton_signature template))]\<rparr>"

definition from_llm :: "string \<Rightarrow> workflow_plan \<Rightarrow> workflow_plan" where
  "from_llm task p = p\<lparr>wp_metadata := dmerge (wp_metadata p) [(''source'', JStr ''llm''), (''task'', JStr task)]\<rparr>"

text \<open>The fast path: the best stored plan, adapted; \<open>None\<close>: there is none, or the result is not usable.\<close>

definition fast_path :: "planner \<Rightarrow> memory_env \<Rightarrow> string \<Rightarrow> plan_memory option \<Rightarrow> workflow_plan option" where
  "fast_path pl env task memory =
     (case memory of
        None \<Rightarrow> None
      | Some m \<Rightarrow>
          (case search_plan env task 1 m of
             [] \<Rightarrow> None
           | (template, similarity) # _ \<Rightarrow>
               (case apply_plan_template pl template task of
                  Inl _ \<Rightarrow> None
                | Inr p \<Rightarrow> if validate p = Some [] then Some (from_memory template similarity task p) else None)))"

definition generate_plan :: "planner \<Rightarrow> memory_env \<Rightarrow> string \<Rightarrow> plan_memory option \<Rightarrow> planner_error + workflow_plan" where
  "generate_plan pl env task memory =
     (case fast_path pl env task memory of
        Some p \<Rightarrow> Inr p
      | None \<Rightarrow> (case plan_from_llm pl task of Inl err \<Rightarrow> Inl err | Inr p \<Rightarrow> Inr (from_llm task p)))"

section \<open>What a search of the memory finds\<close>

lemma ranked_plans_mem:
  "(t, sim) \<in> set (ranked_plans k m scored) \<Longrightarrow> \<exists>r. (r, sim) \<in> set scored \<and> pr_plan r = t \<and> pm_threshold m \<le> sim"
  using set_slice_to [of k] by (fastforce simp: ranked_plans_def)

lemma recent_rows_mem: "r \<in> set (recent_rows n rows) \<Longrightarrow> r \<in> set rows \<and> pr_success r"
  by (auto simp: recent_rows_def dest: in_set_takeD)

lemma search_plan_sound:
  assumes "(t, sim) \<in> set (search_plan env task k m)"
  shows "\<exists>r \<in> set (pm_rows m). pr_success r \<and> pr_plan r = t \<and> pm_threshold m \<le> sim"
proof -
  obtain n rows scored where s: "search_plan env task k m = ranked_plans k m scored"
    and r: "\<forall>(r, x) \<in> set scored. r \<in> set (recent_rows n rows)" and sub: "set rows \<subseteq> set (pm_rows m)"
  proof (cases "case me_embed env of None \<Rightarrow> None | Some emb \<Rightarrow> emb task")
    case None
    show ?thesis
      by (rule that [of _ 100 "pm_rows m"]) (use None in \<open>auto simp: search_plan_def search_by_keyword_def\<close>)
  next
    case (Some vec)
    show ?thesis
      by (rule that [of _ 200 "filter (\<lambda>r. dget (pm_vectors m) (pr_plan_id r) \<noteq> None) (pm_rows m)"])
        (use Some in \<open>auto simp: search_plan_def search_by_vector_def List.map_filter_def split: option.splits\<close>)
  qed
  from assms ranked_plans_mem obtain r' where "(r', sim) \<in> set scored" "pr_plan r' = t" "pm_threshold m \<le> sim"
    unfolding s by blast
  with r sub recent_rows_mem show ?thesis by blast
qed

section \<open>Adapted plans keep their structure\<close>

text \<open>Everything of the steps but their tasks.\<close>

definition plan_structure :: "workflow_plan \<Rightarrow> workflow_step list" where
  "plan_structure p = map (\<lambda>s. s\<lparr>ws_task := []\<rparr>) (wp_steps p)"

lemma structure_map:
  assumes "plan_structure p = plan_structure q" "\<And>s. h (s\<lparr>ws_task := []\<rparr>) = h s"
  shows "map h (wp_steps p) = map h (wp_steps q)"
proof -
  have "map h (wp_steps r) = map h (plan_structure r)" for r by (simp add: plan_structure_def assms(2))
  with assms(1) show ?thesis by simp
qed

lemma validate_structure:
  assumes "plan_structure p = plan_structure q"
  shows "validate p = validate q"
proof -
  have ids: "step_ids p = step_ids q" by (rule structure_map [OF assms]) simp
  have len: "length (wp_steps p) = length (wp_steps q)" using ids by (metis length_map)
  have e: "map (dep_errors r) (wp_steps r) = map (\<lambda>s. dep_errors p s) (wp_steps r)" if "step_ids r = step_ids p" for r
    using that by (simp add: dep_errors_def)
  have errs: "map (dep_errors p) (wp_steps p) = map (dep_errors q) (wp_steps q)"
    unfolding e [of q, OF ids [symmetric]] by (rule structure_map [OF assms]) (simp add: dep_errors_def)
  have adj: "dep_adj r = fold (\<lambda>(i, ds). dset i ds) (map (\<lambda>s. (ws_step_id s, ws_depends_on s)) (wp_steps r)) []" for r
    by (simp add: dep_adj_def fold_map comp_def)
  have "dep_adj p = dep_adj q"
    unfolding adj by (rule arg_cong [of _ _ "\<lambda>xs. fold _ xs []"], rule structure_map [OF assms]) simp
  with ids len errs show ?thesis by (simp add: validate_def detect_cycle_def)
qed

lemma template_structure: "apply_plan_template pl template task = Inr p \<Longrightarrow> plan_structure p = plan_structure template"
proof -
  assume a: "apply_plan_template pl template task = Inr p"
  have en: "map (\<lambda>x. ws_task_update g (snd x)) (enumerate n ss) = map (ws_task_update g) ss" for g ss n
    by (induction ss arbitrary: n) simp_all
  from a show ?thesis
    by (auto simp: apply_plan_template_def plan_structure_def with_task_def en comp_def case_prod_unfold
      split: option.splits sum.splits list.splits)
qed

text \<open>So a stored plan that is valid stays valid, whatever the LLM answers.\<close>

lemma template_valid:
  "apply_plan_template pl template task = Inr p \<Longrightarrow> validate template = Some [] \<Longrightarrow> validate p = Some []"
  by (simp add: validate_structure [OF template_structure])

lemma validate_from [simp]:
  "validate (from_memory t sim task p) = validate p" "validate (from_llm task p) = validate p"
  by (rule validate_structure, simp add: plan_structure_def from_memory_def from_llm_def)+

section \<open>What the planner returns\<close>

lemma attempts_valid:
  "plan_attempts pl chat task k n e = Inr p \<Longrightarrow>
     validate p = Some [] \<and> (\<exists>j prompt. k \<le> j \<and> j < k + n \<and> ask pl chat prompt j = Inr p)"
proof (induction n arbitrary: k e)
  case (Suc n)
  show ?case
  proof (cases "attempt_plan pl chat task k e")
    case (Inl err)
    with Suc.prems Suc.IH [of "Suc k" "Some err"] show ?thesis
      by simp (metis Suc_leD add_Suc_right add_Suc)
  next
    case (Inr q)
    with Suc.prems have "q = p" by simp
    with Inr show ?thesis
      by (auto simp: attempt_plan_def split: sum.splits option.splits if_splits intro!: exI [of _ k])
  qed
qed simp

text \<open>An attempt is made for every turn, until one succeeds.\<close>

lemma attempts_fail:
  "plan_attempts pl chat task k n e = Inl err \<Longrightarrow>
     (\<exists>final. err = NoValidPlan (k + n) final) \<and> (\<forall>j. k \<le> j \<longrightarrow> j < k + n \<longrightarrow> (\<exists>e' x. attempt_plan pl chat task j e' = Inl x))"
proof (induction n arbitrary: k e)
  case (Suc n)
  then obtain x where x: "attempt_plan pl chat task k e = Inl x" by (cases "attempt_plan pl chat task k e") auto
  with Suc.prems Suc.IH [of "Suc k" "Some x"] have I: "\<exists>final. err = NoValidPlan (k + Suc n) final"
    "\<forall>j. Suc k \<le> j \<longrightarrow> j < k + Suc n \<longrightarrow> (\<exists>e' x. attempt_plan pl chat task j e' = Inl x)" by auto
  moreover have "\<exists>e' x. attempt_plan pl chat task j e' = Inl x" if "k \<le> j" "j < k + Suc n" for j
    using I(2) x that by (cases "j = k") auto
  ultimately show ?case by blast
qed auto

text \<open>A reply that is a valid plan is accepted, at the latest in the attempt it comes in.\<close>

lemma valid_reply_accepted:
  assumes "pl_complete pl = Some chat" "int k \<le> pl_max_retries pl"
    "\<And>prompt. ask pl chat prompt k = Inr q" "validate q = Some []"
  shows "\<exists>p. plan_from_llm pl task = Inr p \<and> validate p = Some []"
proof (cases "plan_from_llm pl task")
  case (Inl err)
  then have "plan_attempts pl chat task 0 (nat (pl_max_retries pl + 1)) None = Inl err"
    using assms(1) by (simp add: plan_from_llm_def)
  from attempts_fail [OF this] assms(2) obtain e' x where "attempt_plan pl chat task k e' = Inl x" by force
  with assms(3,4) show ?thesis by (simp add: attempt_plan_def)
next
  case (Inr p)
  with assms(1) attempts_valid show ?thesis by (fastforce simp: plan_from_llm_def)
qed

definition plan_source :: "workflow_plan \<Rightarrow> json option" where
  "plan_source p = dget (wp_metadata p) ''source''"

lemma sources:
  "plan_source (from_memory t sim task p) = Some (JStr ''memory'')"
  "plan_source (from_llm task p) = Some (JStr ''llm'')"
  "dget (wp_metadata (from_memory t sim task p)) ''task'' = Some (JStr task)"
  "dget (wp_metadata (from_llm task p)) ''task'' = Some (JStr task)"
  "plan_structure (from_memory t sim task p) = plan_structure p"
  "plan_structure (from_llm task p) = plan_structure p"
  by (simp_all add: plan_source_def from_memory_def from_llm_def plan_structure_def)

text \<open>
  C5: A plan that the planner returns is valid and names the task. Either it comes from the memory, and
  then it has the structure (ids, roles, dependencies, tools and the rest but the tasks) of a stored
  plan that was executed with success and is at least as similar as the threshold; or it is what the LLM
  replied in one of the permitted attempts.
\<close>
theorem generate_plan_correct:
  assumes "generate_plan pl env task memory = Inr p"
  shows "validate p = Some [] \<and> dget (wp_metadata p) ''task'' = Some (JStr task) \<and>
    (plan_source p = Some (JStr ''memory'') \<and>
       (\<exists>m r sim. memory = Some m \<and> r \<in> set (pm_rows m) \<and> pr_success r \<and> pm_threshold m \<le> sim \<and>
          (pr_plan r, sim) \<in> set (search_plan env task 1 m) \<and> plan_structure p = plan_structure (pr_plan r)) \<or>
     plan_source p = Some (JStr ''llm'') \<and>
       (\<exists>chat k prompt q. pl_complete pl = Some chat \<and> int k \<le> pl_max_retries pl \<and>
          ask pl chat prompt k = Inr q \<and> p = from_llm task q))"
proof (cases "fast_path pl env task memory")
  case None
  with assms obtain q where q: "plan_from_llm pl task = Inr q" and p: "p = from_llm task q"
    by (auto simp: generate_plan_def split: sum.splits)
  then obtain chat where c: "pl_complete pl = Some chat"
    and a: "plan_attempts pl chat task 0 (nat (pl_max_retries pl + 1)) None = Inr q"
    by (auto simp: plan_from_llm_def split: option.splits)
  from attempts_valid [OF a] obtain j prompt where "validate q = Some []" "int j \<le> pl_max_retries pl"
    "ask pl chat prompt j = Inr q" by force
  with c p show ?thesis by (auto simp: sources)
next
  case (Some p')
  with assms have "p' = p" by (simp add: generate_plan_def)
  with Some obtain m template sim rest q where m: "memory = Some m"
    and s: "search_plan env task 1 m = (template, sim) # rest" and q: "apply_plan_template pl template task = Inr q"
    and v: "validate q = Some []" and p: "p = from_memory template sim task q"
    by (auto simp: fast_path_def split: option.splits list.splits sum.splits if_splits)
  have mem: "(template, sim) \<in> set (search_plan env task 1 m)" by (simp add: s)
  from search_plan_sound [OF mem] obtain r where "r \<in> set (pm_rows m)" "pr_success r" "pr_plan r = template"
    "pm_threshold m \<le> sim" by blast
  with mem m v template_structure [OF q] show ?thesis unfolding p by (auto simp: sources)
qed

section \<open>The memory keeps one plan for a task\<close>

definition memory_inv :: "plan_memory \<Rightarrow> bool" where
  "memory_inv m \<longleftrightarrow> distinct (map pr_fingerprint (pm_rows m)) \<and> distinct (map pr_plan_id (pm_rows m)) \<and>
     wf_dict (pm_vectors m) \<and> set (dkeys (pm_vectors m)) \<subseteq> set (map pr_plan_id (pm_rows m)) \<and>
     (\<forall>r \<in> set (pm_rows m). 0 < pr_exec_count r)"

definition row_for :: "string \<Rightarrow> plan_memory \<Rightarrow> plan_row option" where
  "row_for fp m = List.find (\<lambda>r. pr_fingerprint r = fp) (pm_rows m)"

definition saved_row :: "memory_env \<Rightarrow> string \<Rightarrow> workflow_plan \<Rightarrow> bool \<Rightarrow> plan_row option \<Rightarrow> plan_row" where
  "saved_row env task p success old =
     (case old of
        Some r \<Rightarrow> r\<lparr>pr_exec_count := pr_exec_count r + 1, pr_success := success, pr_plan := p, pr_updated_at := me_now env\<rparr>
      | None \<Rightarrow> \<lparr>pr_plan_id = me_fresh_id env, pr_fingerprint = task_fingerprint env task, pr_task_text = take 2000 task,
          pr_plan = p, pr_success = success, pr_exec_count = 1, pr_created_at = me_now env, pr_updated_at = me_now env\<rparr>)"

lemma find_row: "List.find P xs = Some x \<Longrightarrow> x \<in> set xs \<and> P x"
  by (auto simp: find_Some_iff)

lemma find_map_replaced:
  assumes "distinct (map f xs)" "distinct (map g xs)" "List.find (\<lambda>r. g r = b) xs = Some x" "\<And>r. g (u r) = g r"
  shows "List.find (\<lambda>r. g r = b) (map (\<lambda>r. if f r = f x then u r else r) xs) = Some (u x)"
  using assms(1,2,3)
proof (induction xs)
  case (Cons y ys)
  show ?case
  proof (cases "g y = b")
    case True
    with Cons.prems(3) assms(4) show ?thesis by simp
  next
    case False
    with Cons.prems have "x \<in> set ys" using find_row by fastforce
    with Cons.prems(1) have "f y \<noteq> f x" by auto
    with False Cons show ?thesis by simp
  qed
qed simp

lemma memory_inv_keys:
  assumes "memory_inv m" "map pr_plan_id (pm_rows m') = map pr_plan_id (pm_rows m)"
    "map pr_fingerprint (pm_rows m') = map pr_fingerprint (pm_rows m)" "pm_vectors m' = pm_vectors m"
    "\<forall>r \<in> set (pm_rows m'). 0 < pr_exec_count r"
  shows "memory_inv m'"
  using assms(1,5) unfolding memory_inv_def assms(2-4) by blast

lemma memory_inv_vector:
  "memory_inv m \<Longrightarrow> pid \<in> set (map pr_plan_id (pm_rows m)) \<Longrightarrow> memory_inv (save_vector pid vec m)"
  by (simp add: memory_inv_def save_vector_def)

lemma save_row_correct:
  assumes inv: "memory_inv m" and s: "save_row env task p success m = Some (pid, m')"
  shows "memory_inv m' \<and> row_for (task_fingerprint env task) m' = Some (saved_row env task p success (row_for (task_fingerprint env task) m)) \<and>
    pr_plan_id (saved_row env task p success (row_for (task_fingerprint env task) m)) = pid \<and>
    pm_vectors m' = pm_vectors m \<and> pm_threshold m' = pm_threshold m \<and> pid \<in> set (map pr_plan_id (pm_rows m')) \<and>
    filter (\<lambda>r. pr_fingerprint r \<noteq> task_fingerprint env task) (pm_rows m') =
      filter (\<lambda>r. pr_fingerprint r \<noteq> task_fingerprint env task) (pm_rows m)"
proof (cases "row_for (task_fingerprint env task) m")
  case None
  let ?new = "saved_row env task p success None" and ?fp = "task_fingerprint env task"
  from None have free: "?fp \<notin> set (map pr_fingerprint (pm_rows m))" by (auto simp: row_for_def find_None_iff)
  from None s have n: "me_fresh_id env \<notin> set (map pr_plan_id (pm_rows m))" and pid: "pid = me_fresh_id env"
    and m': "m' = m\<lparr>pm_rows := pm_rows m @ [?new]\<rparr>"
    by (auto simp: save_row_def row_for_def saved_row_def Let_def split: if_splits)
  have f: "pr_fingerprint ?new = ?fp" "pr_plan_id ?new = me_fresh_id env" "pr_exec_count ?new = 1"
    by (simp_all add: saved_row_def)
  have "List.find (\<lambda>r. pr_fingerprint r = ?fp) (xs @ [?new]) = Some ?new" if "?fp \<notin> set (map pr_fingerprint xs)" for xs
    using that f(1) by (induction xs) auto
  with free have "row_for ?fp m' = Some ?new" by (simp add: m' row_for_def)
  moreover have "memory_inv m'" using inv free n f by (auto simp: memory_inv_def m')
  ultimately show ?thesis using None pid f by (simp add: m')
next
  case (Some row)
  let ?u = "\<lambda>r. r\<lparr>pr_exec_count := pr_exec_count row + 1, pr_success := success, pr_plan := p, pr_updated_at := me_now env\<rparr>"
  let ?fp = "task_fingerprint env task"
  from Some s have pid: "pid = pr_plan_id row"
    and m': "m' = m\<lparr>pm_rows := map (\<lambda>r. if pr_plan_id r = pr_plan_id row then ?u r else r) (pm_rows m)\<rparr>"
    by (auto simp: save_row_def row_for_def Let_def)
  from Some have row: "row \<in> set (pm_rows m)" "pr_fingerprint row = ?fp" by (auto simp: row_for_def dest: find_row)
  have d: "distinct (map pr_plan_id (pm_rows m))" "distinct (map pr_fingerprint (pm_rows m))"
    using inv by (simp_all add: memory_inv_def)
  have keep: "map pr_plan_id (pm_rows m') = map pr_plan_id (pm_rows m)"
    "map pr_fingerprint (pm_rows m') = map pr_fingerprint (pm_rows m)"
    by (auto simp: m')
  have only: "pr_plan_id r = pr_plan_id row \<Longrightarrow> r = row" if "r \<in> set (pm_rows m)" for r
    using d(1) row(1) that by (auto simp: distinct_map dest: inj_onD)
  have "row_for ?fp m' = Some (?u row)"
    using find_map_replaced [OF d, of ?fp row ?u] Some by (simp add: m' row_for_def)
  moreover have "filter (\<lambda>r. pr_fingerprint r \<noteq> ?fp) (pm_rows m') = filter (\<lambda>r. pr_fingerprint r \<noteq> ?fp) (pm_rows m)"
  proof -
    have "filter P (map (\<lambda>r. if pr_plan_id r = pr_plan_id row then ?u r else r) xs) = filter P xs"
      if "\<And>r. P (?u r) = P r" "\<And>r. r \<in> set xs \<Longrightarrow> pr_plan_id r = pr_plan_id row \<Longrightarrow> \<not> P r" for xs P
      using that by (induction xs) auto
    from this [of "\<lambda>r. pr_fingerprint r \<noteq> ?fp" "pm_rows m"] only row(2) show ?thesis by (auto simp: m')
  qed
  moreover have "memory_inv m'"
    by (rule memory_inv_keys [OF inv keep]) (use inv in \<open>auto simp: memory_inv_def m'\<close>)
  ultimately show ?thesis using Some pid row keep(1) by (auto simp: m' saved_row_def)
qed

text \<open>
  Saving a plan keeps one row for each task: the row of the task has the plan and the outcome of this
  run, its count of runs is one more than before; the rows of other tasks are as they were.
\<close>
theorem save_plan_correct:
  assumes "memory_inv m" "save_plan env task p success m = Some (pid, m')"
  shows "memory_inv m' \<and> row_for (task_fingerprint env task) m' = Some (saved_row env task p success (row_for (task_fingerprint env task) m)) \<and>
    filter (\<lambda>r. pr_fingerprint r \<noteq> task_fingerprint env task) (pm_rows m') =
      filter (\<lambda>r. pr_fingerprint r \<noteq> task_fingerprint env task) (pm_rows m)"
proof -
  from assms(2) obtain m1 where s: "save_row env task p success m = Some (pid, m1)"
    by (auto simp: save_plan_def split: option.splits)
  with assms(2) have m': "m' = m1 \<or> (\<exists>vec. m' = save_vector pid vec m1)"
    by (auto simp: save_plan_def split: option.splits)
  note C = save_row_correct [OF assms(1) s]
  from m' have "pm_rows m' = pm_rows m1" by (auto simp: save_vector_def)
  moreover have "memory_inv m'" using m' C memory_inv_vector by blast
  ultimately show ?thesis using C by (simp add: row_for_def)
qed

lemma memory_inv_new: "memory_inv (new_plan_memory t)"
  by (simp add: memory_inv_def new_plan_memory_def)

text \<open>The memory under any sequence of saves; an insertion that raises changes nothing.\<close>

datatype memory_op = SavePlan memory_env string workflow_plan bool

fun memory_step :: "memory_op \<Rightarrow> plan_memory \<Rightarrow> plan_memory" where
  "memory_step (SavePlan env task p success) m =
     (case save_plan env task p success m of None \<Rightarrow> m | Some (_, m') \<Rightarrow> m')"

interpretation pmm: invariant_system "\<lambda>m. \<exists>t. m = new_plan_memory t" memory_step "\<lambda>_. True" memory_inv
proof
  fix m x assume i: "memory_inv m"
  show "memory_inv (memory_step x m)"
  proof (cases x)
    case (SavePlan env task p success)
    show ?thesis
    proof (cases "save_plan env task p success m")
      case (Some r)
      then obtain pid m' where "save_plan env task p success m = Some (pid, m')" by (cases r) auto
      with save_plan_correct [OF i] SavePlan show ?thesis by simp
    qed (simp add: SavePlan i)
  qed
qed (auto simp: memory_inv_new)

lemma one_plan_per_task:
  "list_all (\<lambda>_. True) ops \<Longrightarrow> memory_inv (fold memory_step ops (new_plan_memory t))"
  by (rule pmm.inv_reachable) auto

section \<open>A saved plan is found again\<close>

lemma keyword_score_same: "split_ws (lower task) \<noteq> [] \<Longrightarrow> keyword_score task task = 1"
  by (simp add: keyword_score_def Let_def)

lemma sort_desc_mem: "x \<in> set xs \<Longrightarrow> x \<in> set (slice_to (int n) (sort_desc f xs))" if "length xs \<le> n" for f :: "'a \<Rightarrow> 'b::linorder"
  using that by (simp add: slice_to_def)

text \<open>
  Without an embedding client, a plan saved with success is among the candidates for its own task, with
  similarity one, as long as the memory holds at most 100 plans and as many candidates are asked for.
\<close>
theorem saved_plan_found:
  assumes "memory_inv m" "save_plan env task p True m = Some (pid, m')" "me_embed env' = None"
    "length (pm_rows m') \<le> 100" "pm_threshold m' \<le> 1" "split_ws (lower task) \<noteq> []" "length task \<le> 2000"
    "row_for (task_fingerprint env task) m = None"
  shows "(p, 1) \<in> set (search_plan env' task 100 m')"
proof -
  let ?r = "saved_row env task p True None"
  from save_plan_correct [OF assms(1,2)] assms(8) have "row_for (task_fingerprint env task) m' = Some ?r" by simp
  then have r: "?r \<in> set (pm_rows m')" by (auto simp: row_for_def dest: find_row)
  have f: "pr_success ?r" "pr_plan ?r = p" "keyword_score (pr_task_text ?r) task = 1"
    using keyword_score_same [OF assms(6)] assms(7) by (simp_all add: saved_row_def)
  have len: "length (filter pr_success (pm_rows m')) \<le> 100"
    by (rule le_trans [OF length_filter_le assms(4)])
  then have rec: "recent_rows 100 (pm_rows m') = sort_desc pr_updated_at (filter pr_success (pm_rows m'))"
    by (simp add: recent_rows_def)
  let ?scored = "map (\<lambda>r. (r, keyword_score (pr_task_text r) task)) (recent_rows 100 (pm_rows m'))"
  let ?xs = "map (\<lambda>(r, sim). (pr_plan r, sim)) (filter (\<lambda>(r, sim). pm_threshold m' \<le> sim) ?scored)"
  have "(?r, 1) \<in> set ?scored" using r f by (force simp: rec)
  then have "(p, 1) \<in> set ?xs" using assms(5) f(2) by force
  moreover have "length ?xs \<le> 100"
    using len by (simp add: rec) (metis (no_types, lifting) le_trans length_filter_le length_map length_sort_desc)
  ultimately show ?thesis
    using sort_desc_mem [of ?xs 100 "(p, 1)" snd] assms(3)
    by (simp add: search_plan_def search_by_keyword_def ranked_plans_def)
qed

section \<open>Examples and what they show\<close>

definition demo_memory_env :: memory_env where
  "demo_memory_env = \<lparr>me_now = ''t1'', me_fresh_id = ''p1'', me_md5 = (\<lambda>t. t), me_embed = None, me_similarity = (\<lambda>_ _. 0)\<rparr>"

definition demo_memory :: plan_memory where
  "demo_memory = snd (the (save_plan demo_memory_env ''sort files'' demo_plan True (new_plan_memory (17 / 20))))"

definition demo_planner :: "json \<Rightarrow> planner" where
  "demo_planner j = \<lparr>pl_complete = Some (\<lambda>_ _. Inr ''{}''), pl_loads = (\<lambda>_. Some j), pl_max_retries = 2\<rparr>"

theorem generate_plan_correct_witness:
  "let p = projr (generate_plan (demo_planner (JObj [])) demo_memory_env ''sort files'' (Some demo_memory))
   in validate p = Some [] \<and> plan_source p = Some (JStr ''memory'') \<and> dget (wp_metadata p) ''task'' = Some (JStr ''sort files'')"
proof -
  let ?g = "generate_plan (demo_planner (JObj [])) demo_memory_env ''sort files'' (Some demo_memory)"
  have g: "?g = Inr (projr ?g)" by code_simp
  have "plan_source (projr ?g) = Some (JStr ''memory'')" by code_simp
  with generate_plan_correct [OF g] show ?thesis by (simp add: Let_def)
qed

theorem saved_plan_found_witness:
  "(demo_plan, 1) \<in> set (search_plan demo_memory_env ''sort files'' 100 demo_memory)"
proof -
  have 1: "save_plan demo_memory_env ''sort files'' demo_plan True (new_plan_memory (17 / 20)) = Some (''p1'', demo_memory)"
    by (simp add: demo_memory_def save_plan_def save_row_def new_plan_memory_def demo_memory_env_def Let_def)
  have 2: "me_embed demo_memory_env = None" "length (pm_rows demo_memory) \<le> 100" "pm_threshold demo_memory \<le> 1"
    "split_ws (lower ''sort files'') \<noteq> []" "length ''sort files'' \<le> 2000"
    "row_for (task_fingerprint demo_memory_env ''sort files'') (new_plan_memory (17 / 20)) = None"
    by code_simp+
  show ?thesis by (rule saved_plan_found [OF memory_inv_new 1 2])
qed

text \<open>The reply \<open>{}\<close> is a valid plan: it has no steps.\<close>

lemma empty_plan_accepted:
  "case generate_plan (demo_planner (JObj [])) demo_memory_env ''sort files'' None of
     Inr p \<Rightarrow> wp_steps p = [] \<and> validate p = Some [] | Inl _ \<Rightarrow> False"
  by code_simp

text \<open>A later run of the same task that fails takes the plan that once worked out of the memory.\<close>

lemma failed_run_forgets_plan:
  "search_plan demo_memory_env ''sort files'' 3 demo_memory \<noteq> [] \<and>
   search_plan demo_memory_env ''sort files'' 3
     (snd (the (save_plan demo_memory_env ''sort files'' demo_pair False demo_memory))) = []"
  by code_simp

text \<open>Without an LLM the steps after the first keep the tasks of the old job.\<close>

lemma template_keeps_old_tasks:
  "case generate_plan \<lparr>pl_complete = None, pl_loads = (\<lambda>_. None), pl_max_retries = 2\<rparr> demo_memory_env ''files sort'' (Some demo_memory) of
     Inr p \<Rightarrow> map ws_task (tl (wp_steps p)) = map ws_task (tl (wp_steps demo_plan)) \<and> ws_task (hd (wp_steps p)) = ''files sort''
   | Inl _ \<Rightarrow> False"
  by code_simp

end
