(* ===== verification/Master.thy ===== *)
theory Master
  imports Planner ToolRequest
begin

text \<open>
  \<open>youmi/coordinator/master.py\<close>: the configuration of a sub-agent, the registry of sub-agents and the
  tools of \<open>tools/coordinator_ops.py\<close> over it, the conversation loop, the execution of a plan for a task
  and the reset between tasks. The profiles of roles (YAML files), the runs of the sub-agents, the chat
  turns, the LLM and the clock are arguments; Chinese texts are ASCII stand-ins or constructors, and the
  keywords that are not ASCII, which no ASCII message contains, are left out. Sub-agents in a process of
  their own, and the broadcast of their results to the user interface, are not modelled.
\<close>

section \<open>The configuration of a sub-agent\<close>

record llm_config =
  lc_provider :: string
  lc_model :: string
  lc_api_key :: string
  lc_base_url :: "string option"
  lc_temperature :: rat
  lc_max_tokens :: int
  lc_timeout_s :: int
  lc_extra_headers :: "(string, json) dict"
  lc_extra_params :: "(string, json) dict"
  lc_max_context_tokens :: int
  lc_retry_policy :: json

definition at_least_one :: "json \<Rightarrow> int option" where
  "at_least_one v = (case int_value v of None \<Rightarrow> None | Some n \<Rightarrow> if 0 < n then Some n else None)"

text \<open>\<open>LLMConfig(**d)\<close>; \<open>None\<close>: the validation raises.\<close>

definition llm_of_dict :: "(string, json) dict \<Rightarrow> llm_config option" where
  "llm_of_dict d =
     (case (field d ''provider'' ''openai'' (\<lambda>v. case str_value v of None \<Rightarrow> None
              | Some p \<Rightarrow> if p \<in> {''openai'', ''anthropic'', ''local'', ''custom''} then Some p else None),
            field d ''model'' ''gpt-4o'' str_value, field d ''api_key'' [] str_value,
            field d ''base_url'' None (optional str_value),
            field d ''temperature'' (7 / 10) (\<lambda>v. case num_value v of None \<Rightarrow> None
              | Some q \<Rightarrow> if 0 \<le> q \<and> q \<le> 2 then Some q else None),
            field d ''max_tokens'' 4096 at_least_one, field d ''timeout_s'' 120 at_least_one,
            field d ''extra_headers'' [] obj_value, field d ''extra_params'' [] obj_value,
            field d ''max_context_tokens'' 8000 at_least_one, field d ''retry_policy'' JNull Some) of
        (Some prov, Some model, Some key, Some url, Some temp, Some toks, Some timeout, Some headers, Some params,
         Some ctx, Some retry) \<Rightarrow>
          Some \<lparr>lc_provider = prov, lc_model = model, lc_api_key = key, lc_base_url = url, lc_temperature = temp,
            lc_max_tokens = toks, lc_timeout_s = timeout, lc_extra_headers = headers, lc_extra_params = params,
            lc_max_context_tokens = ctx, lc_retry_policy = retry\<rparr>
      | _ \<Rightarrow> None)"

definition has_llm :: "llm_config \<Rightarrow> bool" where
  "has_llm c \<longleftrightarrow> lc_api_key c \<noteq> [] \<or> lc_base_url c \<notin> {None, Some []}"

text \<open>
  A profile is the content of \<open>agents/<role>/config.yaml\<close> with its three nested parts taken out; a
  configuration keeps the fields that the code does not look at as they are.
\<close>

record profile =
  pf_llm :: "(string, json) dict"
  pf_memory :: json
  pf_metadata :: json
  pf_data :: "(string, json) dict"

record agent_config =
  cf_name :: string
  cf_system_prompt :: string
  cf_llm :: llm_config
  cf_memory :: json
  cf_metadata :: json
  cf_allowed_tools :: "string list"
  cf_max_iterations :: int
  cf_env :: string
  cf_rest :: "(string, json) dict"

record master_config =
  mc_llm :: llm_config
  mc_memory :: json
  mc_env :: string
  mc_sub_llm :: "(string, json) dict"
  mc_has_client :: bool
  mc_profiles :: "string \<Rightarrow> profile option"

datatype create_error = InvalidConfig | DuplicateArgument

definition truthy_key :: "(string, json) dict \<Rightarrow> string \<Rightarrow> bool" where
  "truthy_key d k = (case dget d k of None \<Rightarrow> False | Some v \<Rightarrow> \<not> falsy v)"

text \<open>The three tiers of models: the profile's own, the default of the master for sub-agents, the rest.\<close>

definition profile_llm :: "master_config \<Rightarrow> profile \<Rightarrow> (string, json) dict" where
  "profile_llm mc pf =
     (if truthy_key (pf_llm pf) ''api_key'' \<or> truthy_key (pf_llm pf) ''base_url'' then pf_llm pf
      else if mc_sub_llm mc \<noteq> [] then mc_sub_llm mc else pf_llm pf)"

definition profile_data :: "sub_agent_request \<Rightarrow> profile \<Rightarrow> (string, json) dict" where
  "profile_data rq pf =
     (let d = ddel ''name'' (pf_data pf);
          d = (if rq_system_prompt rq \<noteq> [] then dset ''system_prompt'' (JStr (rq_system_prompt rq)) d else d);
          d = (case rq_allowed_tools rq of None \<Rightarrow> d | Some ts \<Rightarrow> dset ''allowed_tools'' (JList (map JStr ts)) d)
      in dmerge d (rq_config_overrides rq))"

definition config_env :: "master_config \<Rightarrow> sub_agent_request \<Rightarrow> string" where
  "config_env mc rq = (if rq_env rq \<noteq> [] then rq_env rq else mc_env mc)"

text \<open>\<open>AgentConfig(name=..., llm_config=..., memory_config=..., metadata=..., env=..., **data)\<close>.\<close>

definition config_with_profile :: "master_config \<Rightarrow> sub_agent_request \<Rightarrow> profile \<Rightarrow> create_error + agent_config" where
  "config_with_profile mc rq pf =
     (let d = profile_data rq pf in
      case llm_of_dict (profile_llm mc pf) of
        None \<Rightarrow> Inl InvalidConfig
      | Some llm \<Rightarrow>
          if \<exists>k \<in> set [''name'', ''llm_config'', ''memory_config'', ''metadata'', ''env'']. dget d k \<noteq> None
          then Inl DuplicateArgument
          else (case (field d ''system_prompt'' [] str_value, field d ''allowed_tools'' [] strs_value,
                      field d ''max_iterations'' 20 at_least_one) of
                  (Some prompt, Some tools, Some iters) \<Rightarrow>
                    Inr \<lparr>cf_name = rq_name rq, cf_system_prompt = prompt, cf_llm = llm, cf_memory = pf_memory pf,
                      cf_metadata = pf_metadata pf, cf_allowed_tools = tools, cf_max_iterations = iters,
                      cf_env = config_env mc rq,
                      cf_rest = filter (\<lambda>(k, _). k \<notin> {''system_prompt'', ''allowed_tools'', ''max_iterations''}) d\<rparr>
                | _ \<Rightarrow> Inl InvalidConfig))"

definition generated_prompt :: "string \<Rightarrow> string \<Rightarrow> string" where
  "generated_prompt role task = ''You are a professional '' @ role @ '' agent. Your task: '' @ task"

text \<open>A role without a profile.\<close>

definition config_without_profile :: "master_config \<Rightarrow> sub_agent_request \<Rightarrow> create_error + agent_config" where
  "config_without_profile mc rq =
     (case (if mc_sub_llm mc \<noteq> [] then llm_of_dict (mc_sub_llm mc) else Some (mc_llm mc)) of
        None \<Rightarrow> Inl InvalidConfig
      | Some llm \<Rightarrow>
          Inr \<lparr>cf_name = rq_name rq,
            cf_system_prompt = (if rq_system_prompt rq \<noteq> [] then rq_system_prompt rq
                                else generated_prompt (rq_role rq) (rq_task rq)),
            cf_llm = llm, cf_memory = mc_memory mc,
            cf_metadata = JObj [(''display_name'', JStr (rq_name rq)), (''role'', JStr (rq_role rq))],
            cf_allowed_tools = (case rq_allowed_tools rq of None \<Rightarrow> [] | Some ts \<Rightarrow> ts), cf_max_iterations = 20,
            cf_env = config_env mc rq, cf_rest = []\<rparr>)"

definition task_brief :: "string \<Rightarrow> string" where
  "task_brief task = '' Brief: '' @ task"

definition named_request :: "sub_agent_request \<Rightarrow> sub_agent_request" where
  "named_request rq = rq\<lparr>rq_name := (if rq_name rq \<noteq> [] then rq_name rq else rq_role rq)\<rparr>"

definition sub_config :: "master_config \<Rightarrow> sub_agent_request \<Rightarrow> bool \<Rightarrow> create_error + agent_config" where
  "sub_config mc rq isolated =
     (let rq = named_request rq in
      case (case mc_profiles mc (rq_role rq) of
              Some pf \<Rightarrow> config_with_profile mc rq pf | None \<Rightarrow> config_without_profile mc rq) of
        Inl err \<Rightarrow> Inl err
      | Inr c \<Rightarrow> Inr (if rq_task rq \<noteq> [] \<and> \<not> isolated
                     then c\<lparr>cf_system_prompt := cf_system_prompt c @ task_brief (take 500 (rq_task rq))\<rparr> else c))"

datatype llm_client = NoLlm | SharedClient | OwnClient llm_config

definition sub_client :: "master_config \<Rightarrow> agent_config \<Rightarrow> bool \<Rightarrow> llm_client" where
  "sub_client mc c isolated =
     (if isolated then NoLlm
      else if has_llm (cf_llm c)
           then (if mc_has_client mc \<and> cf_llm c = mc_llm mc then SharedClient else OwnClient (cf_llm c))
      else if mc_has_client mc then SharedClient else NoLlm)"

section \<open>The registry of sub-agents\<close>

text \<open>\<open>sn_ready\<close>: the agent's status is CREATED or IDLE.\<close>

record sub_run =
  sn_role :: string
  sn_task :: string
  sn_config :: agent_config
  sn_client :: llm_client
  sn_isolated :: bool
  sn_ready :: bool
  sn_result :: "task_result option"

type_synonym sub_registry = "(string, sub_run) dict"

definition create_sub_agent :: "master_config \<Rightarrow> string \<Rightarrow> sub_agent_request \<Rightarrow> bool \<Rightarrow> sub_registry \<Rightarrow>
    create_error + sub_registry" where
  "create_sub_agent mc fresh rq isolated reg =
     (case sub_config mc rq isolated of
        Inl err \<Rightarrow> Inl err
      | Inr c \<Rightarrow> Inr (dset fresh \<lparr>sn_role = rq_role rq, sn_task = rq_task rq, sn_config = c,
          sn_client = sub_client mc c isolated, sn_isolated = isolated, sn_ready = True, sn_result = None\<rparr> reg))"

text \<open>How the initialization and run of a sub-agent end; one that raises may leave it created.\<close>

datatype run_outcome = RunReturned task_result | RunRaised string bool

datatype run_failure = NotRegistered | RunException string

definition run_sub_agent :: "(string \<Rightarrow> run_outcome) \<Rightarrow> string \<Rightarrow> sub_registry \<Rightarrow> (run_failure + task_result) \<times> sub_registry" where
  "run_sub_agent run i reg =
     (case dget reg i of
        None \<Rightarrow> (Inl NotRegistered, reg)
      | Some r \<Rightarrow>
          (case run i of
             RunReturned t \<Rightarrow> (Inr t, dset i (r\<lparr>sn_ready := False, sn_result := Some t\<rparr>) reg)
           | RunRaised exc ready \<Rightarrow> (Inl (RunException exc), dset i (r\<lparr>sn_ready := ready\<rparr>) reg)))"

definition pending_agents :: "sub_registry \<Rightarrow> string list" where
  "pending_agents reg = dkeys (filter (\<lambda>(_, r). sn_result r = None \<and> sn_ready r) reg)"

fun run_serial :: "(string \<Rightarrow> run_outcome) \<Rightarrow> string list \<Rightarrow> sub_registry \<Rightarrow> (string, task_result) dict \<Rightarrow>
    (run_failure + (string, task_result) dict) \<times> sub_registry" where
  "run_serial run [] reg acc = (Inr acc, reg)"
| "run_serial run (i # is) reg acc =
     (case run_sub_agent run i reg of
        (Inl err, reg) \<Rightarrow> (Inl err, reg)
      | (Inr t, reg) \<Rightarrow> run_serial run is reg (dset i t acc))"

definition failed_result :: "run_failure \<Rightarrow> task_result" where
  "failed_result err = \<lparr>tr_success = False, tr_output = [],
     tr_error = Some (case err of RunException exc \<Rightarrow> exc | NotRegistered \<Rightarrow> ''not registered'')\<rparr>"

fun run_parallel :: "(string \<Rightarrow> run_outcome) \<Rightarrow> string list \<Rightarrow> sub_registry \<Rightarrow> (string, task_result) dict \<Rightarrow>
    (string, task_result) dict \<times> sub_registry" where
  "run_parallel run [] reg acc = (acc, reg)"
| "run_parallel run (i # is) reg acc =
     (case run_sub_agent run i reg of
        (r, reg) \<Rightarrow> run_parallel run is reg (dset i (case r of Inl err \<Rightarrow> failed_result err | Inr t \<Rightarrow> t) acc))"

definition run_all_sub_agents :: "(string \<Rightarrow> run_outcome) \<Rightarrow> bool \<Rightarrow> sub_registry \<Rightarrow>
    (run_failure + (string, task_result) dict) \<times> sub_registry" where
  "run_all_sub_agents run parallel reg =
     (if parallel then (case run_parallel run (pending_agents reg) reg [] of (rs, reg) \<Rightarrow> (Inr rs, reg))
      else run_serial run (pending_agents reg) reg [])"

text \<open>The tools of the master: creating (an agent of the role that has no result yet is used again) and running.\<close>

datatype create_reply = MissingRole | MissingTask | AlreadyExists string string | Created string

definition tool_create_sub_agent :: "master_config \<Rightarrow> string \<Rightarrow> string \<Rightarrow> string \<Rightarrow> string \<Rightarrow> string list \<Rightarrow> sub_registry \<Rightarrow>
    (create_error + create_reply) \<times> sub_registry" where
  "tool_create_sub_agent mc fresh role task prompt tools reg =
     (if strip role = [] then (Inr MissingRole, reg)
      else if strip task = [] then (Inr MissingTask, reg)
      else (case List.find (\<lambda>(_, r). sn_role r = role \<and> sn_result r = None) reg of
              Some (i, r) \<Rightarrow> (Inr (AlreadyExists i (sn_task r)), reg)
            | None \<Rightarrow>
                (case create_sub_agent mc fresh \<lparr>rq_role = role, rq_name = [], rq_system_prompt = prompt, rq_task = task,
                        rq_allowed_tools = (if tools = [] then None else Some tools), rq_env = [],
                        rq_config_overrides = []\<rparr> False reg of
                   Inl err \<Rightarrow> (Inl err, reg)
                 | Inr reg \<Rightarrow> (Inr (Created fresh), reg))))"

definition tool_run_sub_agent :: "(string \<Rightarrow> run_outcome) \<Rightarrow> string \<Rightarrow> sub_registry \<Rightarrow> (run_failure + task_result) \<times> sub_registry" where
  "tool_run_sub_agent run i reg = (if strip i = [] then (Inl NotRegistered, reg) else run_sub_agent run i reg)"

section \<open>Tasks and chat\<close>

definition CHAT_KEYWORDS :: "string list" where
  "CHAT_KEYWORDS = [''hello'', ''hi'', ''hey'', ''thanks'', ''thank you'', ''bye'', ''goodbye'', ''ok'', ''okay'']"

definition is_new_task_signal :: "string \<Rightarrow> bool" where
  "is_new_task_signal message \<longleftrightarrow>
     10 < length (strip message) \<and> \<not> list_ex (\<lambda>kw. is_substring kw (lower (strip message))) CHAT_KEYWORDS"

text \<open>What \<open>conversation_loop\<close> does in each turn: the calls it makes, in order.\<close>

datatype turn_call = ChatTurn string | PlanThenExecute string | ResetForNewTask

definition task_calls :: "bool \<Rightarrow> nat \<Rightarrow> string \<Rightarrow> turn_call list" where
  "task_calls planner tasks message =
     (if 0 < tasks then [ResetForNewTask] else []) @ [if planner then PlanThenExecute message else ChatTurn message]"

fun conversation_calls :: "bool \<Rightarrow> string list \<Rightarrow> int \<Rightarrow> nat \<Rightarrow> nat \<Rightarrow> string option list \<Rightarrow> turn_call list" where
  "conversation_calls planner exits max_turns turns tasks [] = []"
| "conversation_calls planner exits max_turns turns tasks (input # inputs) =
     (if 0 < max_turns \<and> max_turns \<le> int turns then []
      else (case input of
              None \<Rightarrow> []
            | Some message \<Rightarrow>
                if lower (strip message) \<in> set exits then []
                else if is_new_task_signal message
                then task_calls planner tasks message @ conversation_calls planner exits max_turns (Suc turns) (Suc tasks) inputs
                else ChatTurn message # conversation_calls planner exits max_turns (Suc turns) tasks inputs))"

section \<open>Planning and executing a task\<close>

text \<open>
  The state of the master that outlives a task: its messages (one of a chat turn, or the summary of an
  executed plan), the memory of plans and the desk for the requests of sub-agents. The sub-agents that the
  executor creates and runs are inside the attempts of the executor's environment.
\<close>

datatype master_message =
  Chatted string
| TaskSummary string nat nat nat nat "(string \<times> string) list"

record master_state =
  mt_messages :: "master_message list"
  mt_plans :: "plan_memory option"
  mt_desk :: request_desk

record task_env =
  tn_planner :: planner
  tn_memory :: memory_env
  tn_executor :: executor_env

text \<open>The outputs of the steps, cut to 300 characters.\<close>

definition step_outputs :: "(string, step_result) dict \<Rightarrow> (string \<times> string) list" where
  "step_outputs results =
     List.map_filter (\<lambda>(sid, r). case sr_task_result r of
         None \<Rightarrow> None | Some t \<Rightarrow> if tr_output t \<noteq> [] then Some (sid, take 300 (tr_output t)) else None) results"

text \<open>
  \<open>executor.results\<close> after \<open>execute\<close>, which leaves no results behind when the validation
  fails; the \<open>None\<close> of the model is not reached (\<open>validate_total\<close>).
\<close>

definition executed :: "executor_env \<Rightarrow> workflow_plan \<Rightarrow> executor" where
  "executed env p =
     (let x = new_executor p True True 300 in
      case execute env x of Some (Inr x') \<Rightarrow> x' | _ \<Rightarrow> x)"

definition remember_plan :: "memory_env \<Rightarrow> string \<Rightarrow> workflow_plan \<Rightarrow> bool \<Rightarrow> plan_memory \<Rightarrow> plan_memory" where
  "remember_plan env task p success m =
     (case save_plan env task p success m of None \<Rightarrow> m | Some (_, m') \<Rightarrow> m')"

definition run_plan_then_execute :: "task_env \<Rightarrow> string \<Rightarrow> master_state \<Rightarrow> master_state" where
  "run_plan_then_execute env task st =
     (case generate_plan (tn_planner env) (tn_memory env) task (mt_plans st) of
        Inl _ \<Rightarrow> st\<lparr>mt_messages := mt_messages st @ [Chatted task]\<rparr>
      | Inr p \<Rightarrow>
          (let x = executed (tn_executor env) p; s = get_summary x in
           st\<lparr>mt_messages := mt_messages st @ [TaskSummary (wp_name p) (length (wp_steps p)) (ps_completed s) (ps_failed s)
                (ps_skipped s) (step_outputs (ex_results x))],
              mt_plans := map_option (remember_plan (tn_memory env) task p (0 < ps_completed s)) (mt_plans st)\<rparr>))"

section \<open>The reset between tasks\<close>

text \<open>
  \<open>reset_for_new_task\<close>: the bridges go back to their first whitelist (\<open>initial\<close>) before the registry is
  emptied; the first component are the agents that are let go.
\<close>

definition recalled :: "(string \<Rightarrow> string list option) \<Rightarrow> string \<Rightarrow> sub_agent \<Rightarrow> sub_agent" where
  "recalled initial i a = a\<lparr>sa_bridge := map_option (reset_tool_permissions (initial i)) (sa_bridge a)\<rparr>"

definition reset_for_new_task :: "(string \<Rightarrow> string list option) \<Rightarrow> master_state \<Rightarrow> (string, sub_agent) dict \<times> master_state" where
  "reset_for_new_task initial st =
     (let d = mt_desk st in
      (dmap (recalled initial) (rd_sub_agents d),
       st\<lparr>mt_desk := d\<lparr>rd_sub_agents := [], rd_pending := [], rd_review_queue := [],
            rd_manager := snd (clear_resolved (rd_manager d))\<rparr>\<rparr>))"

text \<open>The calls of a conversation, carried out one after the other.\<close>

fun perform :: "(string \<Rightarrow> task_env) \<Rightarrow> (string \<Rightarrow> string list option) \<Rightarrow> turn_call \<Rightarrow> master_state \<Rightarrow> master_state" where
  "perform env initial (ChatTurn message) st = st\<lparr>mt_messages := mt_messages st @ [Chatted message]\<rparr>"
| "perform env initial (PlanThenExecute message) st = run_plan_then_execute (env message) message st"
| "perform env initial ResetForNewTask st = snd (reset_for_new_task initial st)"

definition conversation_loop :: "(string \<Rightarrow> task_env) \<Rightarrow> (string \<Rightarrow> string list option) \<Rightarrow> bool \<Rightarrow> string list \<Rightarrow> int \<Rightarrow>
    string option list \<Rightarrow> master_state \<Rightarrow> master_state" where
  "conversation_loop env initial planner exits max_turns inputs st =
     fold (perform env initial) (conversation_calls planner exits max_turns 0 0 inputs) st"

section \<open>Properties\<close>

lemma settle_final: "sr_status (settle env x r s) \<in> {COMPLETED, FAILED, SKIPPED}"
  by (simp add: settle_def Let_def run_attempts_status split: option.split)

lemma three_counts:
  "\<forall>r \<in> set rs. sr_status r \<in> {COMPLETED, FAILED, SKIPPED} \<Longrightarrow>
     length (filter (\<lambda>r. sr_status r = COMPLETED) rs) + length (filter (\<lambda>r. sr_status r = FAILED) rs) +
     length (filter (\<lambda>r. sr_status r = SKIPPED) rs) = length rs"
  by (induction rs) auto

lemma executed_plan:
  assumes "validate p = Some []"
  shows "execute env (new_executor p True True 300) = Some (Inr (executed env p)) \<and>
    dkeys (ex_results (executed env p)) = step_ids p \<and> ex_plan (executed env p) = p \<and>
    (\<forall>r \<in> set (dvals (ex_results (executed env p))). sr_status r \<in> {COMPLETED, FAILED, SKIPPED})"
proof -
  have wf: "wf_plan p" using assms validate_iff by simp
  let ?x = "new_executor p True True 300"
  from execute_run [OF wf, of env True True 300] obtain x' where x': "execute env ?x = Some (Inr x')"
    and c: "same_config x' ?x" and S: "settled env ?x (ex_results x')" and K: "dkeys (ex_results x') = step_ids p" by blast
  have e: "executed env p = x'" by (simp add: executed_def x')
  have d: "wf_dict (ex_results x')"
    using wf_plan_unique [OF wf] K by (simp add: wf_dict_def unique_ids_def)
  have "sr_status r \<in> {COMPLETED, FAILED, SKIPPED}" if "r \<in> set (dvals (ex_results x'))" for r
  proof -
    from that dvals_dget [OF d] obtain k where k: "dget (ex_results x') k = Some r" by blast
    then have "k \<in> set (step_ids p)" using dget_key [OF k] K by (metis list.set_map)
    then obtain s where "s \<in> set (wp_steps p)" "k = ws_step_id s" by auto
    with S k have "r = settle env ?x (ex_results x') s" by (simp add: settled_def new_executor_def)
    with settle_final show ?thesis by blast
  qed
  moreover have "ex_plan x' = p" using c by (simp add: same_config_def new_executor_def)
  ultimately show ?thesis using x' K unfolding e by blast
qed

definition no_clash :: "memory_env \<Rightarrow> plan_memory \<Rightarrow> bool" where
  "no_clash env m \<longleftrightarrow> me_fresh_id env \<notin> set (map pr_plan_id (pm_rows m))"

lemma save_plan_total: "no_clash env m \<Longrightarrow> \<exists>r. save_plan env task p success m = Some r"
  by (auto simp: save_plan_def save_row_def no_clash_def Let_def split: option.splits)

text \<open>
  C6: When a plan can be made for a task, it is executed to the end: the plan passes the validation of
  the executor, every one of its steps ends completed, failed or skipped, the three counts of the summary
  that goes into the dialogue add up to the number of steps, and the plan memory holds this plan for the
  task, as a success exactly when some step was completed.
\<close>
theorem plan_then_execute_correct:
  assumes gen: "generate_plan (tn_planner env) (tn_memory env) task (mt_plans st) = Inr p"
    and m: "mt_plans st = Some m" "memory_inv m" "no_clash (tn_memory env) m"
  shows "\<exists>x c f k outs m' r. execute (tn_executor env) (new_executor p True True 300) = Some (Inr x) \<and>
    (\<forall>s \<in> set (wp_steps p). \<exists>r. dget (ex_results x) (ws_step_id s) = Some r \<and> sr_status r \<in> {COMPLETED, FAILED, SKIPPED}) \<and>
    mt_messages (run_plan_then_execute env task st) =
      mt_messages st @ [TaskSummary (wp_name p) (length (wp_steps p)) c f k outs] \<and> c + f + k = length (wp_steps p) \<and>
    mt_plans (run_plan_then_execute env task st) = Some m' \<and> memory_inv m' \<and>
    row_for (task_fingerprint (tn_memory env) task) m' = Some r \<and> pr_plan r = p \<and>
    (pr_success r \<longleftrightarrow> (\<exists>q \<in> set (dvals (ex_results x)). sr_status q = COMPLETED))"
proof -
  let ?x = "executed (tn_executor env) p" and ?s = "get_summary (executed (tn_executor env) p)"
  let ?st = "run_plan_then_execute env task st"
  have v: "validate p = Some []"
    using gen attempts_valid
    by (auto simp: generate_plan_def fast_path_def plan_from_llm_def split: option.splits sum.splits list.splits if_splits)
  note X = executed_plan [OF v, of "tn_executor env"]
  have each: "\<forall>s \<in> set (wp_steps p). \<exists>r. dget (ex_results ?x) (ws_step_id s) = Some r \<and> sr_status r \<in> {COMPLETED, FAILED, SKIPPED}"
  proof
    fix s assume "s \<in> set (wp_steps p)"
    with X have "dget (ex_results ?x) (ws_step_id s) \<noteq> None" by (auto simp: dget_None_iff)
    then obtain r where "dget (ex_results ?x) (ws_step_id s) = Some r" by blast
    moreover from map_of_SomeD [OF this] have "r \<in> set (dvals (ex_results ?x))" by force
    ultimately show "\<exists>r. dget (ex_results ?x) (ws_step_id s) = Some r \<and> sr_status r \<in> {COMPLETED, FAILED, SKIPPED}"
      using X by blast
  qed
  have sum: "ps_completed ?s + ps_failed ?s + ps_skipped ?s = length (wp_steps p)"
    using X three_counts [of "dvals (ex_results ?x)"] by (simp add: get_summary_def Let_def) (metis length_map)
  have some: "0 < ps_completed ?s \<longleftrightarrow> (\<exists>q \<in> set (dvals (ex_results ?x)). sr_status q = COMPLETED)"
    by (auto simp: get_summary_def Let_def filter_empty_conv)
  obtain pid m' where s: "save_plan (tn_memory env) task p (0 < ps_completed ?s) m = Some (pid, m')"
    using save_plan_total [OF m(3)] by fastforce
  have st: "mt_plans ?st = Some m'" "mt_messages ?st = mt_messages st @
      [TaskSummary (wp_name p) (length (wp_steps p)) (ps_completed ?s) (ps_failed ?s) (ps_skipped ?s) (step_outputs (ex_results ?x))]"
    using gen m(1) by (simp_all add: run_plan_then_execute_def Let_def remember_plan_def s)
  obtain r where r: "memory_inv m'" "row_for (task_fingerprint (tn_memory env) task) m' = Some r" "pr_plan r = p"
    "pr_success r \<longleftrightarrow> 0 < ps_completed ?s"
    using save_plan_correct [OF m(2) s] by (auto simp: saved_row_def split: option.splits)
  from r(4) some have ok: "pr_success r \<longleftrightarrow> (\<exists>q \<in> set (dvals (ex_results ?x)). sr_status q = COMPLETED)" by simp
  from X each st sum r(1-3) ok show ?thesis by (intro exI conjI) (assumption | blast)+
qed

definition demo_task_env :: task_env where
  "demo_task_env = \<lparr>tn_planner = demo_planner (JObj []), tn_memory = demo_memory_env\<lparr>me_fresh_id := ''p2''\<rparr>, tn_executor = PlanExec.demo_env\<rparr>"

definition empty_desk :: request_desk where
  "empty_desk = \<lparr>rd_agent_id = ''m'', rd_registry = None, rd_vault = None, rd_sub_agents = [], rd_pending = [],
     rd_manager = new_approval_manager [] [], rd_auto_approve_list = [], rd_sensitive_tools = [],
     rd_review_queue = [], rd_sent = []\<rparr>"

definition demo_master :: master_state where
  "demo_master = \<lparr>mt_messages = [], mt_plans = Some demo_memory, mt_desk = empty_desk\<rparr>"

lemma demo_memory_inv: "memory_inv demo_memory"
proof -
  have "demo_memory = memory_step (SavePlan demo_memory_env ''sort files'' demo_plan True) (new_plan_memory (17 / 20))"
    by code_simp
  then show ?thesis using one_plan_per_task [of "[SavePlan demo_memory_env ''sort files'' demo_plan True]" "17 / 20"] by simp
qed

theorem plan_then_execute_correct_witness:
  "\<exists>name c f k outs. mt_messages (run_plan_then_execute demo_task_env ''sort files'' demo_master) = [TaskSummary name 3 c f k outs] \<and>
     c + f + k = 3"
proof -
  let ?g = "generate_plan (tn_planner demo_task_env) (tn_memory demo_task_env) ''sort files'' (mt_plans demo_master)"
  have g: "?g = Inr (projr ?g)" by code_simp
  have len: "length (wp_steps (projr ?g)) = 3" by code_simp
  have m: "mt_plans demo_master = Some demo_memory" "no_clash (tn_memory demo_task_env) demo_memory"
    by (simp add: demo_master_def, code_simp)
  have "mt_messages demo_master = []" by (simp add: demo_master_def)
  with plan_then_execute_correct [OF g m(1) demo_memory_inv m(2)] len show ?thesis by fastforce
qed

section \<open>The conversation\<close>

text \<open>Between two tasks the master is reset, and never before the first one.\<close>

fun resets_ok :: "bool \<Rightarrow> turn_call list \<Rightarrow> bool" where
  "resets_ok started [] \<longleftrightarrow> True"
| "resets_ok started (ChatTurn _ # cs) \<longleftrightarrow> resets_ok started cs"
| "resets_ok started (PlanThenExecute _ # cs) \<longleftrightarrow> \<not> started \<and> resets_ok True cs"
| "resets_ok started (ResetForNewTask # cs) \<longleftrightarrow> started \<and> resets_ok False cs"

lemma resets_between_tasks:
  "resets_ok (0 < tasks) (conversation_calls True exits max_turns turns tasks inputs)"
proof (induction "True" exits max_turns turns tasks inputs rule: conversation_calls.induct)
  case (2 exits max_turns turns tasks input inputs)
  show ?case
  proof (cases "(0 < max_turns \<and> max_turns \<le> int turns) \<or> input = None")
    case False
    then obtain message where i: "input = Some message" and t: "\<not> (0 < max_turns \<and> max_turns \<le> int turns)" by blast
    with 2 [OF t i] show ?thesis by (auto simp: task_calls_def)
  qed auto
qed simp

text \<open>At most \<open>max_turns\<close> messages are answered.\<close>

definition answers :: "turn_call list \<Rightarrow> nat" where
  "answers cs = length (filter (\<lambda>c. c \<noteq> ResetForNewTask) cs)"

lemma answers_bounded:
  assumes "0 < max_turns" "int turns \<le> max_turns"
  shows "int turns + int (answers (conversation_calls pl exits max_turns turns tasks inputs)) \<le> max_turns"
  using assms
proof (induction pl exits max_turns turns tasks inputs rule: conversation_calls.induct)
  case (2 pl exits max_turns turns tasks input inputs)
  show ?case
  proof (cases "max_turns \<le> int turns \<or> input = None")
    case False
    then obtain message where i: "input = Some message" and t: "\<not> (0 < max_turns \<and> max_turns \<le> int turns)" by auto
    from False have "int (Suc turns) \<le> max_turns" by simp
    with 2(1,2) [OF t i] 2(3) t show ?thesis by (auto simp: i task_calls_def answers_def)
  qed (use 2 in \<open>auto simp: answers_def\<close>)
qed (simp add: answers_def)

section \<open>After a reset\<close>

lemma reset_forgets_agents: "may_use a (mt_desk (snd (reset_for_new_task initial st))) = {}"
  by (simp add: reset_for_new_task_def may_use_def Let_def)

lemma reset_recalls_tools:
  "(i, a) \<in> set (fst (reset_for_new_task initial st)) \<Longrightarrow> sa_bridge a = Some b \<Longrightarrow> br_allowed_tools b = initial i"
  by (auto simp: reset_for_new_task_def recalled_def dmap_def reset_tool_permissions_def Let_def)

lemma clear_resolved_log [observers, simp]: "ap_audit_log (snd (clear_resolved m)) = ap_audit_log m"
  by (simp add: clear_resolved_def Let_def)

text \<open>
  The audit log is kept, the decided records are dropped; the requests that nobody has decided stay, although
  the queue that lists them for the user is emptied and their agents are gone.
\<close>

lemma reset_keeps_undecided:
  assumes "dget (ap_records (rd_manager (mt_desk st))) i = Some r" "ar_decision r = PENDING"
    "wf_dict (ap_records (rd_manager (mt_desk st)))"
  shows "let d = mt_desk (snd (reset_for_new_task initial st)) in
    dget (ap_records (rd_manager d)) i = Some r \<and> rd_review_queue d = [] \<and> rd_sub_agents d = [] \<and>
    ap_audit_log (rd_manager d) = ap_audit_log (rd_manager (mt_desk st))"
  using assms by (simp add: reset_for_new_task_def Let_def clear_resolved_dget)

section \<open>Running the sub-agents\<close>

text \<open>When no run raises, running one after the other and running in parallel come to the same.\<close>

lemma run_sub_agent_keys: "fst ` set (snd (run_sub_agent run i reg)) = fst ` set reg"
  by (auto simp: run_sub_agent_def dget_key insert_absorb split: option.split run_outcome.split)

lemma run_serial_parallel:
  assumes "\<forall>i \<in> set is. i \<in> fst ` set reg \<and> (\<exists>t. run i = RunReturned t)"
  shows "run_serial run is reg acc = (case run_parallel run is reg acc of (rs, reg') \<Rightarrow> (Inr rs, reg'))"
  using assms
proof (induction "is" arbitrary: reg acc)
  case (Cons i "is")
  from Cons.prems obtain t r where t: "run i = RunReturned t" and r: "dget reg i = Some r"
    by (metis dget_None_iff list.set_intros(1) list.set_map option.exhaust)
  have s: "run_sub_agent run i reg = (Inr t, snd (run_sub_agent run i reg))"
    by (simp add: run_sub_agent_def t r)
  have k: "fst ` set (snd (run_sub_agent run i reg)) = fst ` set reg" by (rule run_sub_agent_keys)
  have "\<forall>j \<in> set is. j \<in> fst ` set (snd (run_sub_agent run i reg)) \<and> (\<exists>t. run j = RunReturned t)"
    using Cons.prems k by simp
  from Cons.IH [OF this, of "dset i t acc"] show ?case by (subst run_serial.simps, subst run_parallel.simps, subst (1 2) s) simp
qed simp

lemma run_all_agree:
  assumes "\<forall>i \<in> set (pending_agents reg). \<exists>t. run i = RunReturned t"
  shows "run_all_sub_agents run False reg = run_all_sub_agents run True reg"
proof -
  have "\<forall>i \<in> set (pending_agents reg). i \<in> fst ` set reg \<and> (\<exists>t. run i = RunReturned t)"
    using assms by (auto simp: pending_agents_def)
  from run_serial_parallel [OF this] show ?thesis by (simp add: run_all_sub_agents_def)
qed

section \<open>Configurations\<close>

text \<open>A sub-agent without a model of its own uses the default for sub-agents, or that of the master.\<close>

lemma model_of_unknown_role:
  "mc_profiles mc (rq_role rq) = None \<Longrightarrow> sub_config mc rq isolated = Inr c \<Longrightarrow>
     (if mc_sub_llm mc = [] then cf_llm c = mc_llm mc else llm_of_dict (mc_sub_llm mc) = Some (cf_llm c))"
  by (auto simp: sub_config_def named_request_def config_without_profile_def Let_def split: option.splits if_splits)

text \<open>
  For a role without a profile the overrides of a plan step are dropped: whatever limit of iterations the
  step sets, its agent runs with 20.
\<close>

lemma step_limit_ignored:
  "mc_profiles mc (ws_role s) = None \<Longrightarrow> sub_config mc (step_request s) isolated = Inr c \<Longrightarrow> cf_max_iterations c = 20"
  by (auto simp: sub_config_def named_request_def config_without_profile_def step_request_def Let_def
    split: option.splits if_splits)

definition demo_profile :: profile where
  "demo_profile = \<lparr>pf_llm = [], pf_memory = JNull, pf_metadata = JNull, pf_data = []\<rparr>"

definition demo_master_config :: master_config where
  "demo_master_config = \<lparr>mc_llm = the (llm_of_dict [(''api_key'', JStr ''k'')]), mc_memory = JNull, mc_env = ''/w'',
     mc_sub_llm = [], mc_has_client = True, mc_profiles = (\<lambda>r. if r = ''coder'' then Some demo_profile else None)\<rparr>"

definition demo_request :: "string \<Rightarrow> (string, json) dict \<Rightarrow> sub_agent_request" where
  "demo_request role over = \<lparr>rq_role = role, rq_name = [], rq_system_prompt = [], rq_task = ''t'', rq_allowed_tools = None,
     rq_env = [], rq_config_overrides = over\<rparr>"

text \<open>For a role with a profile the overrides apply, but one of the environment or the name raises.\<close>

lemma override_of_env_raises:
  "sub_config demo_master_config (demo_request ''coder'' [(''env'', JStr ''/x'')]) False = Inl DuplicateArgument \<and>
   (case sub_config demo_master_config (demo_request ''coder'' [(''max_iterations'', JNum 5)]) False of
      Inr c \<Rightarrow> cf_max_iterations c = 5 | Inl _ \<Rightarrow> False)"
  by code_simp

text \<open>A second task for a role whose agent has no result yet is dropped.\<close>

lemma second_task_dropped:
  "let reg = snd (tool_create_sub_agent demo_master_config ''a'' ''writer'' ''one'' [] [] []) in
   tool_create_sub_agent demo_master_config ''b'' ''writer'' ''two'' [] [] reg = (Inr (AlreadyExists ''a'' ''one''), reg)"
  by code_simp

text \<open>An exception ends a serial run: the results so far are lost. A parallel run reports a failure, and runs the agent again.\<close>

definition demo_registry :: sub_registry where
  "demo_registry = projr (case create_sub_agent demo_master_config ''a'' (demo_request ''x'' []) False [] of
     Inr reg \<Rightarrow> create_sub_agent demo_master_config ''b'' (demo_request ''y'' []) False reg | Inl e \<Rightarrow> Inl e)"

lemma serial_run_loses_results:
  "let run = (\<lambda>i. if i = ''b'' then RunRaised ''boom'' True else RunReturned \<lparr>tr_success = True, tr_output = [], tr_error = None\<rparr>) in
   fst (run_all_sub_agents run False demo_registry) = Inl (RunException ''boom'') \<and>
   (case fst (run_all_sub_agents run True demo_registry) of Inr rs \<Rightarrow> map fst rs = [''a'', ''b''] | Inl _ \<Rightarrow> False) \<and>
   pending_agents (snd (run_all_sub_agents run True demo_registry)) = [''b'']"
  by code_simp

text \<open>The keywords of small talk are looked for inside words: ordinary tasks are taken for chat.\<close>

lemma task_taken_for_chat:
  "\<not> is_new_task_signal ''Analyze this log file'' \<and> \<not> is_new_task_signal ''Write a tokenizer in Rust'' \<and>
   is_new_task_signal ''Analyze a log file''"
  by code_simp

text \<open>A plan without steps is reported as an executed task and remembered as a failure.\<close>

lemma empty_plan_executed:
  "let st = run_plan_then_execute \<lparr>tn_planner = demo_planner (JObj []), tn_memory = demo_memory_env\<lparr>me_fresh_id := ''p2''\<rparr>,
       tn_executor = PlanExec.demo_env\<rparr> ''write a poem'' demo_master in
   mt_messages st = [TaskSummary ''workflow'' 0 0 0 0 []] \<and>
   map pr_success (pm_rows (the (mt_plans st))) = [True, False]"
  by code_simp

end
