(* ===== verification/Spec2Isabelle.thy ===== *)
theory Spec2Isabelle
  imports Versioning Resilience PlanExec Auth Hooks Broker BusServer Approval Vault ToolContext
    GatewayProps MasterExec Sessions
    AgentLoop BridgeProps StoreFindings GuardianProps ToolRequest FileOps Scheduler SkillProps Master
begin

text \<open>
  YouMi Agent: a model of the core of the multi-agent framework under \<open>src/youmi\<close>.

  \<^bold>\<open>The program.\<close> Users submit tasks to a gateway (\<open>gateway/\<close>) whose workers run them on a master
  agent. The master plans a task (\<open>coordinator/\<close>) and executes the plan on sub-agents, each a loop of
  observing, asking the LLM and calling tools (\<open>core/\<close>) over a memory (\<open>memory/\<close>). Agents talk over a
  message bus (\<open>bus/\<close>), find tools through a bridge to an MCP server (\<open>mcp/\<close>) in a shared vault and a
  versioned store, keep them hot, warm or cold in their own contexts, and call them behind hooks, a circuit
  breaker and retries. Recalled tools pass an audit gate and an approval manager; sub-agents ask the master
  for more of them; a guardian repairs those that fail and keeps what it learns (\<open>knowledge/\<close>). A
  sandbox stands in front of files and commands (\<open>security/\<close>, \<open>tools/\<close>), a scheduler wakes agents
  (\<open>scheduler/\<close>), and the bus and the gateway authenticate their callers and keep tenants apart.

  \<^bold>\<open>The theories.\<close> Each component's theory has the state as a record, then its operations in the
  order of the source file, then its invariants and lemmas, then its properties; a large component has its
  code in one theory and its properties in theories named after it (\<open>Props\<close>, \<open>Inv\<close>, \<open>Findings\<close>).

    \<^item> Prelude: Python dictionaries as association lists (\<open>dget\<close>, \<open>dset\<close>, \<open>ddel\<close>, insertion order
      kept), slices with negative bounds, stable descending sorts, JSON values, and the locale
      \<open>invariant_system\<close> (a step function, an initial predicate, an invariant). Strings: \<open>strip\<close>,
      \<open>split\<close>, \<open>splitlines\<close>, \<open>lower\<close>, \<open>int()\<close> and decimal printing on ASCII strings. Regex: the
      regular expressions that the sandbox uses, a backtracking matcher and its equivalence with a relation.
    \<^item> Versioning: \<open>core/versioning.py\<close> and the risk ranks of \<open>core/tool.py\<close>. Resilience:
      \<open>core/resilience.py\<close>; the relation \<open>breaker_step\<close> interleaves any number of callers. Hooks:
      \<open>core/hooks.py\<close>. Auth: \<open>security/auth.py\<close>.
    \<^item> Plan, PlanGraph, PlanExec: \<open>coordinator/plan.py\<close>; PlanGraph is the theory of its depth-first
      search, PlanExec the layering and the executor. Planner: \<open>coordinator/planner.py\<close> and
      \<open>plan_memory.py\<close>. Master: \<open>coordinator/master.py\<close> and the tools of \<open>tools/coordinator_ops.py\<close>
      that create and run sub-agents.
    \<^item> Broker, BusServer: \<open>bus/message.py\<close>, \<open>broker.py\<close>, \<open>server.py\<close>.
    \<^item> Gateway, GatewayProps, MasterExec: \<open>gateway/\<close>; MasterExec is \<open>MasterTaskExecutor\<close>.
    \<^item> ToolModels, Approval, Vault, ToolContext: \<open>mcp/models.py\<close>, \<open>approval.py\<close>, \<open>audit_gate.py\<close>,
      \<open>vault.py\<close>, \<open>context.py\<close>, \<open>cone.py\<close>. McpServer: \<open>mcp/protocol.py\<close>, \<open>provider.py\<close>,
      \<open>server.py\<close>, \<open>client.py\<close> and \<open>connect_mcp\<close>. Confirm, Bridge, BridgeProps: \<open>mcp/confirm.py\<close>,
      \<open>mcp/bridge.py\<close>.
    \<^item> StoreMerge, ToolStore, StoreInv, StoreProps, StoreMergeProps, StoreFindings: \<open>mcp/tool_store.py\<close>
      with its diffs and merges, \<open>mcp/summary.py\<close> and \<open>version_router.py\<close>. Skills, SkillProps:
      \<open>mcp/skill_store.py\<close> and \<open>skill_ingest.py\<close>.
    \<^item> Memory, Compaction, Sessions: \<open>memory/strategies/\<close>, \<open>compaction.py\<close>, \<open>backends/\<close> and
      \<open>memory.py\<close>. Prompt: \<open>core/prompt.py\<close>. ToolExec, AgentLoop: \<open>core/tool_executor.py\<close>, the
      registry of \<open>core/tool.py\<close> and \<open>core/agent.py\<close>.
    \<^item> Knowledge: \<open>knowledge/\<close>. Guardian, GuardianProps: \<open>coordinator/tool_guardian.py\<close> and
      \<open>fix_strategies.py\<close>. ToolRequest: \<open>coordinator/tool_approval.py\<close>.
    \<^item> Sandbox, FileOps: \<open>security/sandbox.py\<close>, \<open>tools/shell_ops.py\<close>, \<open>tools/file_ops.py\<close>.
      Scheduler: \<open>scheduler/__init__.py\<close>.

  \<^bold>\<open>Interfaces.\<close> \<open>task_queue\<close> is the abstract class \<open>TaskQueue\<close>, interpreted by the in-memory
  queue (\<open>mq\<close>); \<open>tier_store\<close> is what the vault and the context both promise about tiers (\<open>vts\<close>,
  \<open>cts\<close>); \<open>memory_strategy\<close> is what the framework expects of a memory, interpreted by the three
  strategies (\<open>fms\<close>, \<open>sms\<close>, \<open>lms\<close>); \<open>session_store\<close> is the abstract back end that the SQLite
  tables and the JSON files refine (\<open>sql\<close>, \<open>fb\<close>). \<open>invariant_system\<close> is interpreted by the broker
  (\<open>brk\<close> for its well-formedness, \<open>ten\<close> for tenants), the approval manager (\<open>apm\<close>), the MCP server
  (\<open>srv\<close>), the bridge (\<open>brg\<close>), the tool store (\<open>sto\<close>), the skill store (\<open>skl\<close>), the plan memory
  (\<open>pmm\<close>), the desk for tool requests (\<open>dsk\<close>) and the scheduler (\<open>scl\<close>, \<open>sco\<close>).

  \<^bold>\<open>Modelling decisions.\<close>
    \<^item> Python integers are \<open>int\<close> or \<open>nat\<close>; floats (times, scores, delays) are rationals, so rounding
      is not modelled except where the code rounds (\<open>duration_ms\<close>).
    \<^item> A coroutine is one atomic step between two points where it really suspends. Where an operation
      suspends in the middle (a worker executing a task, a breaker around a call, a scheduler's loop), it is
      cut there and the pieces are separate steps of a relation. Where a component awaits another once,
      every way the awaited call can end (a result, an exception, a timeout, a cancellation) is a value.
    \<^item> Exceptions are values: an error datatype, a sum or an option.
    \<^item> Clocks, UUIDs, random jitter, sockets, embeddings and their similarity, hashes, handlers, the runs
      of sub-agents, the LLM and the order in which a set is iterated are parameters. Logging and counters
      that only feed \<open>repr\<close> or \<open>stats\<close> are left out.
    \<^item> Strings are ASCII. Chinese texts are constructors that carry the same arguments, or ASCII stand-ins.
    \<^item> A database table is the list of its rows in insertion order; a value that the code stores as a JSON
      text is stored as the value. The file system has no symbolic links.
    \<^item> The vault behind a bridge is the copy of it that the bridge holds; the server that runs a tool is
      a parameter there and modelled in McpServer.

  \<^bold>\<open>Fuel and termination.\<close> The depth-first search of \<open>_detect_cycle\<close> runs on fuel one larger than
  the number of steps; the lemmas of PlanGraph show that this is always enough, so \<open>validate\<close> is
  total. The layering loop terminates because each layer uses up positive in-degrees; the loops of retries,
  of the planner and of the agent because the attempts or turns left decrease. The matcher for \<open>r*\<close> runs
  on as much fuel as characters are left, which is enough because an iteration consumes one; the walk
  through directories on the length of the longest path. The guardian needs at most five rounds for each
  report: \<open>work_left\<close> is the measure.

  \<^bold>\<open>What the properties show.\<close>
    \<^item> Gateway: every submitted task is queued, running or finished, exactly one of them, and its
      record says which; streams end exactly once; tasks of a tenant run on its own master, one at a
      time, and each gets its turn.
    \<^item> Plans: validation accepts exactly the acyclic, well-formed plans; the layering is a
      topological order; execution settles every step and does not depend on the order in a layer. The
      planner returns valid plans only, and an adapted plan keeps the structure of one that worked;
      the master executes every plan to the end and remembers how it went.
    \<^item> Breaker: its safety under any interleaving, and the leak of half-open slots on cancellation.
    \<^item> Bus: per-agent FIFO delivery, isolation of tenants, no effect before authentication.
    \<^item> Tools: nothing is granted without the gate, the approval manager or the user; searches offer what
      is asked for; the store keeps one head per branch and only adds to the history; merging agrees with
      a field-wise merge; rolling back restores. Ingested skills are well-formed and found again.
    \<^item> Agents: messages of tools follow their calls, every call is answered, a failing tool is cut off, a
      run ends within its turns; the memories cover what they say they cover; the two back ends agree.
    \<^item> The guardian empties its queue and tenants' knowledge stays apart.
    \<^item> The sandbox decides as its patterns say, files are written inside the work directory only, and the
      scheduler runs an agent for one task at a time and no task more often than allowed.

  Beside them, each theory records on concrete inputs where the code departs from its documentation.

  \<^bold>\<open>Not modelled.\<close>
    \<^item> Input and output around the modelled core: the WebSocket client, the HTTP API of the gateway, the LLM
      and embedding clients, sub-process agents, tracing and audit files, the web and data tools, the loading
      of YAML profiles, the KNN index of the sqlite-vec extension and the migration of old databases.
    \<^item> Parts driven by an LLM's judgement with little state of their own: the experience extractor, the
      pipeline after a task (\<open>coordinator/post_task.py\<close>), the tools through which an LLM operates the
      guardian. The hand-over protocol (\<open>coordinator/handoff.py\<close>) forwards to the agents.
    \<^item> Of the agent: streaming (\<open>chat_turn_stream\<close>), delegation to other agents and the plugin manager.
    \<^item> The evaluation harness, the GUI and the experiments, which use the framework.
\<close>

end
